(* ===== verification/Chat_Prelude.thy ===== *)
theory Chat_Prelude
  imports Main "HOL-Library.Multiset"
begin

text \<open>
  Shared vocabulary of the development: how Go's failures appear in the model, the rewrite
  collections the component theories fill, and the generic lemmas on lists, options and folds
  that more than one component uses.

  A Go function that can panic or return an error is modelled with the sum type
  \<open>fault + 'a\<close>; \<open>Inl\<close> is the failure. A Go pointer that may be nil is an \<open>option\<close>.
  Times are integers (the unit is stated where it matters), Go \<open>int\<close> quantities that cannot
  overflow in the code are \<open>int\<close>.
\<close>

section \<open>Failures\<close>

datatype fault = Panic string | Err string

type_synonym 'a go = "fault + 'a"

abbreviation returns :: "'a go \<Rightarrow> 'a \<Rightarrow> bool" where
  "returns r v \<equiv> r = Inr v"

section \<open>Collections of rewrite rules\<close>

named_theorems builder_defs \<open>definitions of the subject builders\<close>
named_theorems pattern_defs \<open>definitions of the router patterns and wildcards\<close>
named_theorems store_defs \<open>definitions of the store operations\<close>

section \<open>Option times\<close>

text \<open>The later of two optional times; \<open>None\<close> is the least.\<close>

fun opt_max :: "'a::linorder option \<Rightarrow> 'a option \<Rightarrow> 'a option" where
  "opt_max None y = y"
| "opt_max x None = x"
| "opt_max (Some x) (Some y) = Some (max x y)"

lemma opt_max_None2 [simp]: "opt_max x None = x"
  by (cases x) auto

lemma opt_max_commute: "opt_max x y = opt_max y x"
  by (cases x; cases y) (auto simp: max.commute)

lemma opt_max_assoc: "opt_max (opt_max x y) z = opt_max x (opt_max y z)"
  by (cases x; cases y; cases z) (auto simp: max.assoc)

lemma opt_max_idem [simp]: "opt_max x x = x"
  by (cases x) auto

section \<open>Updates that commute and absorb repetition\<close>

text \<open>
  The contract of a write that may be delivered late, twice or out of order: two compatible
  events commute, and an event applied twice is applied once. A client of the contract gets
  convergence: what is left in the store depends only on which events arrived.
\<close>

locale convergent_updates =
  fixes app :: "'e \<Rightarrow> 's \<Rightarrow> 's"
    and compat :: "'e \<Rightarrow> 'e \<Rightarrow> bool"
  assumes app_commute: "compat a b \<Longrightarrow> app a (app b s) = app b (app a s)"
    and app_idem: "app a (app a s) = app a s"
begin

lemma comp_fun_idem_on_compat:
  assumes "\<And>a b. a \<in> A \<Longrightarrow> b \<in> A \<Longrightarrow> a \<noteq> b \<Longrightarrow> compat a b"
  shows "comp_fun_idem_on A app"
proof
  fix a b assume "a \<in> A" "b \<in> A"
  then show "app b \<circ> app a = app a \<circ> app b"
    using assms app_commute by (cases "a = b") (auto simp: fun_eq_iff)
next
  fix a assume "a \<in> A"
  show "app a \<circ> app a = app a" by (simp add: fun_eq_iff app_idem)
qed

lemma convergence:
  assumes eq: "set es = set es'"
    and ok: "\<And>a b. a \<in> set es \<Longrightarrow> b \<in> set es \<Longrightarrow> a \<noteq> b \<Longrightarrow> compat a b"
  shows "fold app es s = fold app es' s"
proof -
  have c: "comp_fun_idem_on (set es) app"
    using ok by (rule comp_fun_idem_on_compat)
  have "Finite_Set.fold app s (set es) = fold app es s"
    by (rule comp_fun_idem_on.fold_set_fold [OF c]) simp
  moreover have "Finite_Set.fold app s (set es') = fold app es' s"
    by (rule comp_fun_idem_on.fold_set_fold [OF c]) (simp add: eq)
  ultimately show ?thesis by (simp add: eq)
qed

lemma redelivery_absorbed:
  assumes "e \<in> set es"
    and "\<And>a b. a \<in> set es \<Longrightarrow> b \<in> set es \<Longrightarrow> a \<noteq> b \<Longrightarrow> compat a b"
  shows "fold app (es @ [e]) s = fold app es s"
  by (rule convergence) (use assms in auto)

end

end
