(* ===== verification/Go_Strings.thy ===== *)
theory Go_Strings
  imports Chat_Prelude "HOL-Library.List_Lexorder" "HOL-Library.Char_ord"
begin

text \<open>
  What the sources use of Go's string type and of the packages \<open>strings\<close>, \<open>fmt\<close> and
  \<open>unicode\<close>. A Go string is a sequence of bytes, so it is a \<open>string\<close> here; ranging over it
  decodes UTF-8 into runes, with U+FFFD of width one for a byte that starts no well-formed
  sequence. \<open>Sprintf\<close> is modelled for the one verb the builders use, \<open>%s\<close>.
\<close>

section \<open>Splitting, joining, searching\<close>

fun Split :: "char \<Rightarrow> string \<Rightarrow> string list" where
  "Split d [] = [[]]"
| "Split d (c # cs) =
     (if c = d then [] # Split d cs
      else (case Split d cs of [] \<Rightarrow> [[c]] | t # ts \<Rightarrow> (c # t) # ts))"

fun Join :: "string \<Rightarrow> string list \<Rightarrow> string" where
  "Join sep [] = []"
| "Join sep [t] = t"
| "Join sep (t # u # ts) = t @ sep @ Join sep (u # ts)"

definition HasPrefix :: "string \<Rightarrow> string \<Rightarrow> bool" where
  "HasPrefix s p \<longleftrightarrow> take (length p) s = p"

definition HasSuffix :: "string \<Rightarrow> string \<Rightarrow> bool" where
  "HasSuffix s p \<longleftrightarrow> length p \<le> length s \<and> drop (length s - length p) s = p"

definition TrimPrefix :: "string \<Rightarrow> string \<Rightarrow> string" where
  "TrimPrefix s p = (if HasPrefix s p then drop (length p) s else s)"

text \<open>\<open>strings.ReplaceAll\<close> for a one-byte needle and a one-byte replacement.\<close>

definition ReplaceByte :: "char \<Rightarrow> char \<Rightarrow> string \<Rightarrow> string" where
  "ReplaceByte old new s = map (\<lambda>c. if c = old then new else c) s"

fun IndexByte :: "string \<Rightarrow> char \<Rightarrow> nat option" where
  "IndexByte [] d = None"
| "IndexByte (c # cs) d = (if c = d then Some 0 else map_option Suc (IndexByte cs d))"

section \<open>Sprintf with %s\<close>

fun Sprintf :: "string \<Rightarrow> string list \<Rightarrow> string" where
  "Sprintf [] as = []"
| "Sprintf [c] as = [c]"
| "Sprintf (c # d # cs) as =
     (if c = CHR ''%'' \<and> d = CHR ''s''
      then (case as of [] \<Rightarrow> ''%!s(MISSING)'' @ Sprintf cs [] | a # as' \<Rightarrow> a @ Sprintf cs as')
      else c # Sprintf (d # cs) as)"

section \<open>Runes\<close>

abbreviation byte_val :: "char \<Rightarrow> nat" where
  "byte_val c \<equiv> of_char c"

definition cont_byte :: "nat \<Rightarrow> bool" where
  "cont_byte b \<longleftrightarrow> 128 \<le> b \<and> b < 192"

definition second_lo :: "nat \<Rightarrow> nat" where
  "second_lo a = (if a = 224 then 160 else if a = 240 then 144 else 128)"

definition second_hi :: "nat \<Rightarrow> nat" where
  "second_hi a = (if a = 237 then 159 else if a = 244 then 143 else 191)"

definition rune_error :: nat where
  "rune_error = 65533"

text \<open>The rune that starts at byte \<open>a\<close>, and how many of the bytes after \<open>a\<close> it takes.\<close>

definition decode_rune :: "nat \<Rightarrow> nat list \<Rightarrow> nat \<times> nat" where
  "decode_rune a bs =
     (if a < 128 then (a, 0)
      else if 194 \<le> a \<and> a \<le> 223 then
        (case bs of b # _ \<Rightarrow>
           (if cont_byte b then ((a - 192) * 64 + (b - 128), 1) else (rune_error, 0))
         | [] \<Rightarrow> (rune_error, 0))
      else if 224 \<le> a \<and> a \<le> 239 then
        (case bs of b # c # _ \<Rightarrow>
           (if second_lo a \<le> b \<and> b \<le> second_hi a \<and> cont_byte c
            then ((a - 224) * 4096 + (b - 128) * 64 + (c - 128), 2) else (rune_error, 0))
         | _ \<Rightarrow> (rune_error, 0))
      else if 240 \<le> a \<and> a \<le> 244 then
        (case bs of b # c # d # _ \<Rightarrow>
           (if second_lo a \<le> b \<and> b \<le> second_hi a \<and> cont_byte c \<and> cont_byte d
            then ((a - 240) * 262144 + (b - 128) * 4096 + (c - 128) * 64 + (d - 128), 3)
            else (rune_error, 0))
         | _ \<Rightarrow> (rune_error, 0))
      else (rune_error, 0))"

fun decode_runes :: "nat list \<Rightarrow> nat list" where
  "decode_runes [] = []"
| "decode_runes (a # bs) =
     (case decode_rune a bs of (r, n) \<Rightarrow> r # decode_runes (drop n bs))"

definition runes :: "string \<Rightarrow> nat list" where
  "runes s = decode_runes (map byte_val s)"

definition IsSpace :: "nat \<Rightarrow> bool" where
  "IsSpace r \<longleftrightarrow> (9 \<le> r \<and> r \<le> 13) \<or> r = 32 \<or> r = 133 \<or> r = 160 \<or> r = 5760
     \<or> (8192 \<le> r \<and> r \<le> 8202) \<or> r = 8232 \<or> r = 8233 \<or> r = 8239 \<or> r = 8287 \<or> r = 12288"

definition IsControl :: "nat \<Rightarrow> bool" where
  "IsControl r \<longleftrightarrow> r < 32 \<or> (127 \<le> r \<and> r < 160)"

text \<open>\<open>strings.TrimSpace\<close> and \<open>strings.ToLower\<close> on the runes of a string; only ASCII letters
  have a lower-case form here.\<close>

definition TrimSpace :: "nat list \<Rightarrow> nat list" where
  "TrimSpace rs = rev (dropWhile IsSpace (rev (dropWhile IsSpace rs)))"

definition lower_rune :: "nat \<Rightarrow> nat" where
  "lower_rune r = (if 65 \<le> r \<and> r \<le> 90 then r + 32 else r)"

definition ToLowerAscii :: "string \<Rightarrow> string" where
  "ToLowerAscii s =
     map (\<lambda>c. if 65 \<le> byte_val c \<and> byte_val c \<le> 90 then char_of (byte_val c + 32) else c) s"

section \<open>Lemmas on splitting and joining\<close>

lemma Split_not_Nil [simp]: "Split d s \<noteq> []"
  by (cases s) (auto split: list.splits)

lemma Split_no_sep: "d \<notin> set s \<Longrightarrow> Split d s = [s]"
  by (induction s) auto

lemma Split_append_sep: "Split d (s @ d # t) = Split d s @ Split d t"
  by (induction s) (auto split: list.splits)

lemma Join_Cons: "ts \<noteq> [] \<Longrightarrow> Join sep (t # ts) = t @ sep @ Join sep ts"
  by (cases ts) auto

lemma Join_Split [simp]: "Join [d] (Split d s) = s"
proof (induction s)
  case (Cons c s)
  then show ?case
    by (cases "Split d s" rule: list.exhaust) (auto simp: Join_Cons split: list.splits, (metis Join.simps(2) Join_Cons append_Cons list.exhaust)+)
qed simp

lemma Split_tokens_sep_free: "t \<in> set (Split d s) \<Longrightarrow> d \<notin> set t"
  by (induction s arbitrary: t) (auto split: list.splits if_splits)

lemma Split_Join:
  "ts \<noteq> [] \<Longrightarrow> (\<And>t. t \<in> set ts \<Longrightarrow> d \<notin> set t) \<Longrightarrow> Split d (Join [d] ts) = ts"
  by (induction ts rule: induct_list012) (auto simp: Split_no_sep Split_append_sep)

lemma IndexByte_None_iff: "IndexByte s d = None \<longleftrightarrow> d \<notin> set s"
  by (induction s) auto

lemma IndexByte_Some:
  "IndexByte s d = Some i \<Longrightarrow> i < length s \<and> s ! i = d \<and> d \<notin> set (take i s)"
  by (induction s arbitrary: i) (auto split: if_splits)

section \<open>Lemmas on runes\<close>

lemma decode_rune_consumed:
  assumes "decode_rune a bs = (r, n)" "b \<in> set (take n bs)"
  shows "128 \<le> b"
  using assms
  by (auto simp: decode_rune_def cont_byte_def second_lo_def second_hi_def
      split: if_splits list.splits)

lemma decode_rune_ascii: "a < 128 \<Longrightarrow> decode_rune a bs = (a, 0)"
  by (simp add: decode_rune_def)

lemma decode_rune_small:
  assumes "decode_rune a bs = (r, n)" "r < 128"
  shows "a = r"
  using assms
  by (auto simp: decode_rune_def rune_error_def cont_byte_def second_lo_def second_hi_def
      split: if_splits list.splits)

text \<open>An ASCII byte is a rune of its own, whatever surrounds it.\<close>

lemma ascii_byte_is_rune: "b \<in> set bs \<Longrightarrow> b < 128 \<Longrightarrow> b \<in> set (decode_runes bs)"
proof (induction bs rule: decode_runes.induct)
  case (2 a bs)
  obtain r n where rn: "decode_rune a bs = (r, n)" by fastforce
  show ?case
  proof (cases "b = a")
    case True
    with 2 show ?thesis by (simp add: decode_rune_ascii)
  next
    case False
    with 2 have "b \<in> set bs" by simp
    then have "b \<in> set (take n bs) \<or> b \<in> set (drop n bs)"
      by (metis append_take_drop_id Un_iff set_append)
    with decode_rune_consumed [OF rn] 2(3) have "b \<in> set (drop n bs)" by force
    with 2(1) [OF rn [symmetric]] 2(3) rn show ?thesis by simp
  qed
qed simp

lemma small_rune_is_byte: "r \<in> set (decode_runes bs) \<Longrightarrow> r < 128 \<Longrightarrow> r \<in> set bs"
proof (induction bs rule: decode_runes.induct)
  case (2 a bs)
  obtain r' n where rn: "decode_rune a bs = (r', n)" by fastforce
  show ?case
  proof (cases "r = r'")
    case True
    with decode_rune_small [OF rn] 2(3) show ?thesis by simp
  next
    case False
    with 2 rn have "r \<in> set (drop n bs)" by simp
    then show ?thesis using set_drop_subset by fastforce
  qed
qed simp

lemma ascii_char_rune:
  assumes "byte_val c < (128::nat)"
  shows "c \<in> set s \<longleftrightarrow> byte_val c \<in> set (runes s)"
proof
  assume "c \<in> set s"
  then show "byte_val c \<in> set (runes s)"
    using assms ascii_byte_is_rune [of "byte_val c" "map byte_val s"] by (simp add: runes_def)
next
  assume "byte_val c \<in> set (runes s)"
  then have "byte_val c \<in> set (map byte_val s)"
    using assms small_rune_is_byte [of "byte_val c" "map byte_val s"] by (simp add: runes_def)
  then show "c \<in> set s"
    by (auto simp: inj_on_def)
qed

end
