(* ===== verification/Subject_Tokens.thy ===== *)
theory Subject_Tokens
  imports Go_Strings
begin

text \<open>
  The hand-written half of \<open>pkg/subject\<close>: the account token and its NATS transport form, the
  guards of the builders, the parsers, and the choice of namespace for a room's events. A parser
  that returns \<open>ok=false\<close> (with empty strings) returns \<open>None\<close>; an index into \<open>parts\<close> stands
  behind the length test the Go code makes first.
\<close>

section \<open>Accounts\<close>

definition EncodeAccount :: "string \<Rightarrow> string" where
  "EncodeAccount account = ReplaceByte CHR ''.'' CHR ''_'' account"

definition DecodeAccount :: "string \<Rightarrow> string" where
  "DecodeAccount account =
     (if HasSuffix account ''_bot'' then ReplaceByte CHR ''_'' CHR ''.'' account else account)"

definition bad_rune :: "nat \<Rightarrow> bool" where
  "bad_rune r \<longleftrightarrow> r = 46 \<or> r = 42 \<or> r = 62 \<or> IsSpace r \<or> IsControl r"

definition IsValidAccountToken :: "string \<Rightarrow> bool" where
  "IsValidAccountToken s = (if s = '''' then False else list_all (\<lambda>r. \<not> bad_rune r) (runes s))"

definition isValidAccountToken :: "string \<Rightarrow> bool" where
  "isValidAccountToken token = IsValidAccountToken token"

definition UserPrefix :: string where
  "UserPrefix = ''chat.user.''"

definition IsClientFacing :: "string \<Rightarrow> bool" where
  "IsClientFacing subj = HasPrefix subj UserPrefix"

definition UserInboxPrefix :: "string \<Rightarrow> string go" where
  "UserInboxPrefix account =
     (let encoded = EncodeAccount account in
      if \<not> isValidAccountToken encoded
      then Inl (Panic ''invalid account token: contains NATS wildcard characters'')
      else Inr (''chat.user.'' @ encoded))"

section \<open>Parsers\<close>

text \<open>The loop of \<open>ParseUserRoomSubject\<close> over the tokens from index 3 on: the token after the
  first \<open>room\<close> that is not the last token.\<close>

fun room_after :: "string list \<Rightarrow> string option" where
  "room_after (t # u # ts) = (if t = ''room'' then Some u else room_after (u # ts))"
| "room_after _ = None"

definition ParseUserRoomSubject :: "string \<Rightarrow> (string \<times> string) option" where
  "ParseUserRoomSubject subj =
     (let parts = Split CHR ''.'' subj in
      if length parts < 5 \<or> parts ! 0 \<noteq> ''chat'' \<or> parts ! 1 \<noteq> ''user'' then None
      else let account = parts ! 2 in
      if \<not> isValidAccountToken account then None
      else (case room_after (drop 3 parts) of
          None \<Rightarrow> None
        | Some roomID \<Rightarrow>
            if \<not> isValidAccountToken roomID then None
            else Some (DecodeAccount account, roomID)))"

definition ParseUserRoomSiteSubject :: "string \<Rightarrow> (string \<times> string \<times> string) option" where
  "ParseUserRoomSiteSubject subj =
     (let parts = Split CHR ''.'' subj in
      if length parts < 7 \<or> parts ! 0 \<noteq> ''chat'' \<or> parts ! 1 \<noteq> ''user'' \<or> parts ! 3 \<noteq> ''room''
      then None else Some (parts ! 2, parts ! 4, parts ! 5))"

definition ParseOutbox :: "string \<Rightarrow> (string \<times> string \<times> string) option" where
  "ParseOutbox subj =
     (let parts = Split CHR ''.'' subj in
      if length parts \<noteq> 5 \<or> parts ! 0 \<noteq> ''chat'' \<or> parts ! 1 \<noteq> ''outbox''
         \<or> parts ! 2 = '''' \<or> parts ! 3 = '''' \<or> parts ! 4 = ''''
      then None else Some (parts ! 2, parts ! 3, parts ! 4))"

definition ParseOrgMembersSubject :: "string \<Rightarrow> (string \<times> string) option" where
  "ParseOrgMembersSubject subj =
     (let parts = Split CHR ''.'' subj in
      if length parts \<noteq> 8 then None
      else if parts ! 0 \<noteq> ''chat'' \<or> parts ! 1 \<noteq> ''user'' \<or> parts ! 3 \<noteq> ''request''
         \<or> parts ! 4 \<noteq> ''orgs'' \<or> parts ! 7 \<noteq> ''members'' then None
      else if \<not> isValidAccountToken (parts ! 2) \<or> \<not> isValidAccountToken (parts ! 5)
         \<or> \<not> isValidAccountToken (parts ! 6) then None
      else Some (parts ! 5, parts ! 6))"

definition ParseRoomCreateSubject :: "string \<Rightarrow> string option" where
  "ParseRoomCreateSubject s =
     (let parts = Split CHR ''.'' s in
      if length parts \<noteq> 7 then None
      else if parts ! 0 \<noteq> ''chat'' \<or> parts ! 1 \<noteq> ''user'' \<or> parts ! 3 \<noteq> ''request''
         \<or> parts ! 4 \<noteq> ''room'' \<or> parts ! 6 \<noteq> ''create'' then None
      else if \<not> isValidAccountToken (parts ! 2) then None
      else Some (parts ! 2))"

definition RoomCanonicalOperation :: "string \<Rightarrow> string option" where
  "RoomCanonicalOperation s =
     (if \<not> HasPrefix s ''chat.room.canonical.'' then None
      else let rest = TrimPrefix s ''chat.room.canonical.'' in
      (case IndexByte rest CHR ''.'' of
         None \<Rightarrow> None
       | Some dot \<Rightarrow> let op = drop (dot + 1) rest in if op = '''' then None else Some op))"

definition ParseUserSubject :: "string \<Rightarrow> (string \<times> string \<times> string \<times> string) option" where
  "ParseUserSubject subj =
     (let parts = Split CHR ''.'' subj in
      if length parts \<noteq> 8 then None
      else if parts ! 0 \<noteq> ''chat'' \<or> parts ! 1 \<noteq> ''user'' \<or> parts ! 3 \<noteq> ''request''
         \<or> parts ! 4 \<noteq> ''user'' then None
      else if \<not> isValidAccountToken (parts ! 2) then None
      else if parts ! 6 \<notin> set [''status'', ''subscription'', ''profile'', ''apps'', ''settings''] then None
      else Some (parts ! 2, parts ! 5, parts ! 6, parts ! 7))"

definition ParseStatusSubject :: "string \<Rightarrow> (string \<times> string) option" where
  "ParseStatusSubject subj =
     (case ParseUserSubject subj of None \<Rightarrow> None
      | Some (a, _, area, act) \<Rightarrow> if area \<noteq> ''status'' then None else Some (a, act))"

definition ParseSubscriptionSubject :: "string \<Rightarrow> (string \<times> string) option" where
  "ParseSubscriptionSubject subj =
     (case ParseUserSubject subj of None \<Rightarrow> None
      | Some (a, _, area, act) \<Rightarrow> if area \<noteq> ''subscription'' then None else Some (a, act))"

definition ParseAppsSubject :: "string \<Rightarrow> (string \<times> string) option" where
  "ParseAppsSubject subj =
     (case ParseUserSubject subj of None \<Rightarrow> None
      | Some (a, _, area, act) \<Rightarrow> if area \<noteq> ''apps'' then None else Some (a, act))"

definition ParseRoomSubject :: "string \<Rightarrow> (string \<times> string \<times> string) option" where
  "ParseRoomSubject subj =
     (let parts = Split CHR ''.'' subj in
      if length parts \<noteq> 10 then None
      else if parts ! 0 \<noteq> ''chat'' \<or> parts ! 1 \<noteq> ''user'' \<or> parts ! 3 \<noteq> ''request''
         \<or> parts ! 4 \<noteq> ''user'' \<or> parts ! 6 \<noteq> ''room'' then None
      else if \<not> isValidAccountToken (parts ! 2) then None
      else Some (parts ! 2, parts ! 7, parts ! 9))"

definition ParseSubscriptionUpdateAccount :: "string \<Rightarrow> string option" where
  "ParseSubscriptionUpdateAccount s =
     (let parts = Split CHR ''.'' s in
      if length parts \<noteq> 6 then None
      else if parts ! 0 \<noteq> ''chat'' \<or> parts ! 1 \<noteq> ''user'' \<or> parts ! 3 \<noteq> ''event''
         \<or> parts ! 4 \<noteq> ''subscription'' \<or> parts ! 5 \<noteq> ''update'' then None
      else if \<not> isValidAccountToken (parts ! 2) then None
      else Some (parts ! 2))"

section \<open>The namespace of a room's events\<close>

datatype RoomRouteMode = RouteGlobal | RouteDual | RouteLocal

text \<open>The error value of an unknown mode carries the quoted input in Go; here only its kind.\<close>

definition ParseRoomRouteMode :: "string \<Rightarrow> RoomRouteMode \<times> fault option" where
  "ParseRoomRouteMode s =
     (let w = map lower_rune (TrimSpace (runes s)) in
      if w = [] \<or> w = runes ''global'' then (RouteGlobal, None)
      else if w = runes ''dual'' then (RouteDual, None)
      else if w = runes ''local'' then (RouteLocal, None)
      else (RouteGlobal, Some (Err ''invalid room route mode'')))"

definition UsesLocal :: "RoomRouteMode \<Rightarrow> bool" where
  "UsesLocal m \<longleftrightarrow> m \<noteq> RouteGlobal"

definition DefaultRoomLocalityGrace :: int where
  "DefaultRoomLocalityGrace = 7 * 24 * 3600 * 1000000000"

text \<open>The package variable \<open>roomLocalityGrace\<close> is an argument of what reads it; the setter
  returns its new value.\<close>

definition SetRoomLocalityGrace :: "int \<Rightarrow> int \<Rightarrow> int" where
  "SetRoomLocalityGrace d roomLocalityGrace = (if d > 0 then d else roomLocalityGrace)"

definition roomRouteGlobals ::
  "int \<Rightarrow> bool option \<Rightarrow> int option \<Rightarrow> RoomRouteMode \<Rightarrow> int \<Rightarrow> bool list" where
  "roomRouteGlobals roomLocalityGrace crossSite crossSiteAt mode now =
     (if crossSite = Some False then
        (case mode of RouteLocal \<Rightarrow> [False] | RouteDual \<Rightarrow> [False, True] | RouteGlobal \<Rightarrow> [True])
      else if UsesLocal mode
        \<and> (case crossSiteAt of None \<Rightarrow> False | Some t \<Rightarrow> now < t + roomLocalityGrace)
      then [False, True]
      else [True])"

section \<open>Lemmas on account tokens\<close>

lemma bad_rune_byte: "bad_rune (byte_val c) \<Longrightarrow> byte_val c < (128::nat) \<Longrightarrow>
  isValidAccountToken s \<Longrightarrow> c \<notin> set s"
  using ascii_char_rune [of c s]
  by (auto simp: isValidAccountToken_def IsValidAccountToken_def list_all_iff split: if_splits)

lemma valid_token_nonempty: "isValidAccountToken s \<Longrightarrow> s \<noteq> ''''"
  by (auto simp: isValidAccountToken_def IsValidAccountToken_def)

lemma valid_token_no_dot [simp]: "isValidAccountToken s \<Longrightarrow> CHR ''.'' \<notin> set s"
  by (rule bad_rune_byte) (auto simp: bad_rune_def)

lemma valid_token_no_star: "isValidAccountToken s \<Longrightarrow> CHR ''*'' \<notin> set s"
  by (rule bad_rune_byte) (auto simp: bad_rune_def)

lemma valid_token_no_gt: "isValidAccountToken s \<Longrightarrow> CHR ''>'' \<notin> set s"
  by (rule bad_rune_byte) (auto simp: bad_rune_def)

lemma valid_token_no_space: "isValidAccountToken s \<Longrightarrow> CHR '' '' \<notin> set s"
  by (rule bad_rune_byte) (auto simp: bad_rune_def IsSpace_def)

lemmas token_eval = isValidAccountToken_def IsValidAccountToken_def runes_def decode_rune_ascii
  bad_rune_def IsSpace_def IsControl_def

lemmas valid_token = valid_token_nonempty valid_token_no_dot valid_token_no_star
  valid_token_no_gt valid_token_no_space

lemma EncodeAccount_no_dot [simp]: "CHR ''.'' \<notin> set (EncodeAccount a)"
  by (auto simp: EncodeAccount_def ReplaceByte_def)

lemma EncodeAccount_id: "CHR ''.'' \<notin> set a \<Longrightarrow> EncodeAccount a = a"
  by (auto simp: EncodeAccount_def ReplaceByte_def intro: map_idI)

lemma HasSuffix_append [simp]: "HasSuffix (xs @ ys) ys"
  by (simp add: HasSuffix_def)

lemma HasSuffix_iff: "HasSuffix s p \<longleftrightarrow> (\<exists>xs. s = xs @ p)"
  by (metis HasSuffix_append HasSuffix_def append_take_drop_id)

lemma HasPrefix_append [simp]: "HasPrefix (xs @ ys) xs"
  by (simp add: HasPrefix_def)

lemma HasPrefix_iff: "HasPrefix s p \<longleftrightarrow> (\<exists>xs. s = p @ xs)"
  by (metis HasPrefix_append HasPrefix_def append_take_drop_id)

end
