(* ===== verification/Subjects.thy ===== *)
theory Subjects
  imports Subject_Tokens
begin

text \<open>
  The builders of \<open>pkg/subject\<close>, in the order of \<open>subject.go\<close> and then \<open>bot.go\<close>. Every
  subject the services publish or subscribe to is made here. A builder that validates its account
  first returns \<open>Inl (Panic m)\<close>, or \<open>Inl (Err m)\<close> for the builders that return an error.
\<close>

section \<open>Shared roots\<close>

definition roomBase :: "string \<Rightarrow> bool \<Rightarrow> string" where
  "roomBase roomID global =
     (if global then ''chat.room.'' @ roomID else ''chat.local.room.'' @ roomID)"

definition msgRequest :: "string \<Rightarrow> string \<Rightarrow> string \<Rightarrow> string \<Rightarrow> string go" where [builder_defs]:
  "msgRequest account roomID siteID action =
   (if \<not> isValidAccountToken account then Inl (Panic ''invalid account token: contains NATS wildcard characters'')
    else Inr (Sprintf ''chat.user.%s.request.room.%s.%s.msg.%s'' [account, roomID, siteID, action]))"

section \<open>Request and event builders\<close>

definition MsgSend :: "string \<Rightarrow> string \<Rightarrow> string \<Rightarrow> string" where [builder_defs]:
  "MsgSend account roomID siteID =
    Sprintf ''chat.user.%s.room.%s.%s.msg.send'' [account, roomID, siteID]"

definition MsgGet :: "string \<Rightarrow> string \<Rightarrow> string \<Rightarrow> string" where [builder_defs]:
  "MsgGet account roomID siteID =
    Sprintf ''chat.user.%s.request.room.%s.%s.msg.get'' [account, roomID, siteID]"

definition MsgGetIDs :: "string \<Rightarrow> string \<Rightarrow> string \<Rightarrow> string" where [builder_defs]:
  "MsgGetIDs account roomID siteID =
    Sprintf ''chat.user.%s.request.room.%s.%s.msg.get.ids'' [account, roomID, siteID]"

definition RoomsGet :: "string \<Rightarrow> string" where [builder_defs]:
  "RoomsGet siteID = Sprintf ''chat.server.request.history.%s.rooms.get'' [siteID]"

definition UserResponse :: "string \<Rightarrow> string \<Rightarrow> string" where [builder_defs]:
  "UserResponse account requestID = Sprintf ''chat.user.%s.response.%s'' [account, requestID]"

definition RoomMetadataUpdate :: "string \<Rightarrow> bool \<Rightarrow> string" where [builder_defs]:
  "RoomMetadataUpdate roomID global = roomBase roomID global @ ''.event.metadata.update''"

definition RoomMsgStream :: "string \<Rightarrow> bool \<Rightarrow> string" where [builder_defs]:
  "RoomMsgStream roomID global = roomBase roomID global @ ''.stream.msg''"

definition UserRoomUpdate :: "string \<Rightarrow> string" where [builder_defs]:
  "UserRoomUpdate account = Sprintf ''chat.user.%s.event.room.update'' [account]"

definition UserMsgStream :: "string \<Rightarrow> string" where [builder_defs]:
  "UserMsgStream account = Sprintf ''chat.user.%s.stream.msg'' [account]"

definition MemberRoleUpdate :: "string \<Rightarrow> string \<Rightarrow> string \<Rightarrow> string" where [builder_defs]:
  "MemberRoleUpdate account roomID siteID =
    Sprintf ''chat.user.%s.request.room.%s.%s.member.role-update'' [account, roomID, siteID]"

definition RoomRename :: "string \<Rightarrow> string \<Rightarrow> string \<Rightarrow> string" where [builder_defs]:
  "RoomRename account roomID siteID =
    Sprintf ''chat.user.%s.request.room.%s.%s.room.rename'' [account, roomID, siteID]"

definition RoomRestricted :: "string \<Rightarrow> string" where [builder_defs]:
  "RoomRestricted siteID = Sprintf ''chat.server.request.room.%s.restricted'' [siteID]"

definition MemberRemove :: "string \<Rightarrow> string \<Rightarrow> string \<Rightarrow> string" where [builder_defs]:
  "MemberRemove account roomID siteID =
    Sprintf ''chat.user.%s.request.room.%s.%s.member.remove'' [account, roomID, siteID]"

definition MemberList :: "string \<Rightarrow> string \<Rightarrow> string \<Rightarrow> string" where [builder_defs]:
  "MemberList account roomID siteID =
    Sprintf ''chat.user.%s.request.room.%s.%s.member.list'' [account, roomID, siteID]"

definition RoomCanonical :: "string \<Rightarrow> string \<Rightarrow> string" where [builder_defs]:
  "RoomCanonical siteID operation = Sprintf ''chat.room.canonical.%s.%s'' [siteID, operation]"

definition RoomTeamsCanonicalCreate :: "string \<Rightarrow> string" where [builder_defs]:
  "RoomTeamsCanonicalCreate siteID = Sprintf ''chat.teams.room.canonical.%s.create'' [siteID]"

definition RoomTeamsCanonicalWildcard :: "string \<Rightarrow> string" where [pattern_defs]:
  "RoomTeamsCanonicalWildcard siteID = Sprintf ''chat.teams.room.canonical.%s.>'' [siteID]"

definition RoomCanonicalMemberEvent :: "string \<Rightarrow> string \<Rightarrow> string" where [builder_defs]:
  "RoomCanonicalMemberEvent siteID eventType =
    Sprintf ''chat.room.canonical.%s.event.member.%s'' [siteID, eventType]"

definition Outbox :: "string \<Rightarrow> string \<Rightarrow> string \<Rightarrow> string" where [builder_defs]:
  "Outbox originSiteID destSiteID eventType =
    Sprintf ''chat.outbox.%s.%s.%s'' [originSiteID, destSiteID, eventType]"

definition OutboxWildcard :: "string \<Rightarrow> string" where [pattern_defs]:
  "OutboxWildcard originSiteID = Sprintf ''chat.outbox.%s.>'' [originSiteID]"

definition SubscriptionUpdate :: "string \<Rightarrow> string" where [builder_defs]:
  "SubscriptionUpdate account =
    Sprintf ''chat.user.%s.event.subscription.update'' [EncodeAccount account]"

definition SettingsUpdate :: "string \<Rightarrow> string" where [builder_defs]:
  "SettingsUpdate account = Sprintf ''chat.user.%s.event.settings.update'' [account]"

definition ChatlistUpdate :: "string \<Rightarrow> string" where [builder_defs]:
  "ChatlistUpdate account = Sprintf ''chat.user.%s.event.chatlist.update'' [account]"

definition RoomMetadataChanged :: "string \<Rightarrow> string" where [builder_defs]:
  "RoomMetadataChanged account = Sprintf ''chat.user.%s.event.room.metadata.update'' [account]"

definition Notification :: "string \<Rightarrow> string" where [builder_defs]:
  "Notification account = Sprintf ''chat.user.%s.notification'' [account]"

definition InboxExternal :: "string \<Rightarrow> string \<Rightarrow> string" where [builder_defs]:
  "InboxExternal siteID eventType = Sprintf ''chat.inbox.%s.external.%s'' [siteID, eventType]"

definition InboxInternal :: "string \<Rightarrow> string \<Rightarrow> string" where [builder_defs]:
  "InboxInternal siteID eventType = Sprintf ''chat.inbox.%s.internal.%s'' [siteID, eventType]"

definition InboxExternalAll :: "string \<Rightarrow> string" where [pattern_defs]:
  "InboxExternalAll siteID = Sprintf ''chat.inbox.%s.external.>'' [siteID]"

definition RoomActivity :: "string \<Rightarrow> string" where [builder_defs]:
  "RoomActivity destSiteID = Sprintf ''chat.roomactivity.%s'' [destSiteID]"

definition MsgCanonicalCreated :: "string \<Rightarrow> string" where [builder_defs]:
  "MsgCanonicalCreated siteID = Sprintf ''chat.msg.canonical.%s.created'' [siteID]"

definition MsgTeamsCanonicalBatch :: "string \<Rightarrow> string" where [builder_defs]:
  "MsgTeamsCanonicalBatch siteID = Sprintf ''chat.teams.msg.canonical.%s.batch'' [siteID]"

definition MsgTeamsCanonicalWildcard :: "string \<Rightarrow> string" where [pattern_defs]:
  "MsgTeamsCanonicalWildcard siteID = Sprintf ''chat.teams.msg.canonical.%s.>'' [siteID]"

definition MsgCanonicalUpdated :: "string \<Rightarrow> string" where [builder_defs]:
  "MsgCanonicalUpdated siteID = Sprintf ''chat.msg.canonical.%s.updated'' [siteID]"

definition MsgCanonicalDeleted :: "string \<Rightarrow> string" where [builder_defs]:
  "MsgCanonicalDeleted siteID = Sprintf ''chat.msg.canonical.%s.deleted'' [siteID]"

definition MigrationInternalMsgEdit :: "string \<Rightarrow> string" where [builder_defs]:
  "MigrationInternalMsgEdit siteID = Sprintf ''chat.migration.internal.%s.msg.edit'' [siteID]"

definition MigrationInternalMsgDelete :: "string \<Rightarrow> string" where [builder_defs]:
  "MigrationInternalMsgDelete siteID = Sprintf ''chat.migration.internal.%s.msg.delete'' [siteID]"

definition MsgCanonicalPinned :: "string \<Rightarrow> string" where [builder_defs]:
  "MsgCanonicalPinned siteID = Sprintf ''chat.msg.canonical.%s.pinned'' [siteID]"

definition MsgCanonicalUnpinned :: "string \<Rightarrow> string" where [builder_defs]:
  "MsgCanonicalUnpinned siteID = Sprintf ''chat.msg.canonical.%s.unpinned'' [siteID]"

definition MsgCanonicalReacted :: "string \<Rightarrow> string" where [builder_defs]:
  "MsgCanonicalReacted siteID = Sprintf ''chat.msg.canonical.%s.reacted'' [siteID]"

definition RoomEvent :: "string \<Rightarrow> bool \<Rightarrow> string" where [builder_defs]:
  "RoomEvent roomID global = roomBase roomID global @ ''.event''"

definition UserRoomEvent :: "string \<Rightarrow> string" where [builder_defs]:
  "UserRoomEvent account = Sprintf ''chat.user.%s.event.room'' [account]"

section \<open>Room and thread request builders\<close>

definition RoomKeyUpdate :: "string \<Rightarrow> string" where [builder_defs]:
  "RoomKeyUpdate account = Sprintf ''chat.user.%s.event.room.key'' [EncodeAccount account]"

definition RoomsInfoBatch :: "string \<Rightarrow> string" where [builder_defs]:
  "RoomsInfoBatch siteID = Sprintf ''chat.server.request.room.%s.info.batch'' [siteID]"

definition ThreadRoomInfoBatch :: "string \<Rightarrow> string" where [builder_defs]:
  "ThreadRoomInfoBatch siteID = Sprintf ''chat.server.request.room.%s.thread.info.batch'' [siteID]"

definition RoomThreadReadAll :: "string \<Rightarrow> string" where [builder_defs]:
  "RoomThreadReadAll siteID = Sprintf ''chat.server.request.room.%s.thread.read.all'' [siteID]"

definition RoomThreadReadAllSubscribe :: "string \<Rightarrow> string" where [pattern_defs]:
  "RoomThreadReadAllSubscribe siteID =
    Sprintf ''chat.server.request.room.%s.thread.read.all'' [siteID]"

definition ThreadSubscriptionList :: "string \<Rightarrow> string" where [builder_defs]:
  "ThreadSubscriptionList siteID =
    Sprintf ''chat.server.request.thread.%s.subscription.list'' [siteID]"

definition RoomKeyEnsure :: "string \<Rightarrow> string" where [builder_defs]:
  "RoomKeyEnsure siteID = Sprintf ''chat.server.request.room.%s.key.ensure'' [siteID]"

definition RoomKeyGet :: "string \<Rightarrow> string \<Rightarrow> string \<Rightarrow> string" where [builder_defs]:
  "RoomKeyGet account roomID siteID =
    Sprintf ''chat.user.%s.request.room.%s.%s.key.get'' [account, roomID, siteID]"

section \<open>Wildcard subscriptions\<close>

definition RoomKeyGetWildcard :: "string \<Rightarrow> string" where [pattern_defs]:
  "RoomKeyGetWildcard siteID = Sprintf ''chat.user.*.request.room.*.%s.key.get'' [siteID]"

definition RoomCreateDMSync :: "string \<Rightarrow> string" where [builder_defs]:
  "RoomCreateDMSync siteID = Sprintf ''chat.server.request.room.%s.create.dm'' [siteID]"

definition MsgSendWildcard :: "string \<Rightarrow> string" where [pattern_defs]:
  "MsgSendWildcard siteID = Sprintf ''chat.user.*.room.*.%s.msg.send'' [siteID]"

definition MemberRoleUpdateWildcard :: "string \<Rightarrow> string" where [pattern_defs]:
  "MemberRoleUpdateWildcard siteID =
    Sprintf ''chat.user.*.request.room.*.%s.member.role-update'' [siteID]"

definition RoomRenameWildcard :: "string \<Rightarrow> string" where [pattern_defs]:
  "RoomRenameWildcard siteID = Sprintf ''chat.user.*.request.room.*.%s.room.rename'' [siteID]"

definition MemberRemoveWildcard :: "string \<Rightarrow> string" where [pattern_defs]:
  "MemberRemoveWildcard siteID = Sprintf ''chat.user.*.request.room.*.%s.member.remove'' [siteID]"

definition MemberListWildcard :: "string \<Rightarrow> string" where [pattern_defs]:
  "MemberListWildcard siteID = Sprintf ''chat.user.*.request.room.*.%s.member.list'' [siteID]"

definition MemberStatuses :: "string \<Rightarrow> string \<Rightarrow> string \<Rightarrow> string" where [builder_defs]:
  "MemberStatuses account roomID siteID =
    Sprintf ''chat.user.%s.request.room.%s.%s.member.statuses'' [account, roomID, siteID]"

definition MemberStatusesWildcard :: "string \<Rightarrow> string" where [pattern_defs]:
  "MemberStatusesWildcard siteID =
    Sprintf ''chat.user.*.request.room.*.%s.member.statuses'' [siteID]"

definition MentionableSubscriptions :: "string \<Rightarrow> string \<Rightarrow> string \<Rightarrow> string" where [builder_defs]:
  "MentionableSubscriptions account roomID siteID =
    Sprintf ''chat.user.%s.request.room.%s.%s.subscription.mentionable'' [account, roomID, siteID]"

definition MentionableSubscriptionsWildcard :: "string \<Rightarrow> string" where [pattern_defs]:
  "MentionableSubscriptionsWildcard siteID =
    Sprintf ''chat.user.*.request.room.*.%s.subscription.mentionable'' [siteID]"

definition OrgMembersWildcard :: "string \<Rightarrow> string" where [pattern_defs]:
  "OrgMembersWildcard siteID = Sprintf ''chat.user.*.request.orgs.*.%s.members'' [siteID]"

definition RoomCanonicalWildcard :: "string \<Rightarrow> string" where [pattern_defs]:
  "RoomCanonicalWildcard siteID = Sprintf ''chat.room.canonical.%s.>'' [siteID]"

definition MsgHistoryWildcard :: "string \<Rightarrow> string" where [pattern_defs]:
  "MsgHistoryWildcard siteID = Sprintf ''chat.user.*.request.room.*.%s.msg.history'' [siteID]"

definition MsgGetWildcard :: "string \<Rightarrow> string" where [pattern_defs]:
  "MsgGetWildcard siteID = Sprintf ''chat.user.*.request.room.*.%s.msg.get'' [siteID]"

definition MsgThreadWildcard :: "string \<Rightarrow> string" where [pattern_defs]:
  "MsgThreadWildcard siteID = Sprintf ''chat.user.*.request.room.*.%s.msg.thread'' [siteID]"

definition MsgCanonicalWildcard :: "string \<Rightarrow> string" where [pattern_defs]:
  "MsgCanonicalWildcard siteID = Sprintf ''chat.msg.canonical.%s.>'' [siteID]"

definition MsgCanonicalMessageWildcard :: "string \<Rightarrow> string" where [pattern_defs]:
  "MsgCanonicalMessageWildcard siteID = Sprintf ''chat.msg.canonical.%s.*'' [siteID]"

definition RoomsInfoBatchSubscribe :: "string \<Rightarrow> string" where [pattern_defs]:
  "RoomsInfoBatchSubscribe siteID = Sprintf ''chat.server.request.room.%s.info.batch'' [siteID]"

definition UserResponseWildcard :: "string" where [pattern_defs]:
  "UserResponseWildcard = ''chat.user.*.response.>''"

definition RoomEventWildcard :: "string" where [pattern_defs]:
  "RoomEventWildcard = ''chat.room.*.event''"

section \<open>Router patterns of the message service\<close>

definition UserRoomEventWildcard :: "string" where [pattern_defs]:
  "UserRoomEventWildcard = ''chat.user.*.event.room''"

definition MsgHistoryPattern :: "string \<Rightarrow> string" where [pattern_defs]:
  "MsgHistoryPattern siteID =
    Sprintf ''chat.user.{account}.request.room.{roomID}.%s.msg.history'' [siteID]"

definition MsgNextPattern :: "string \<Rightarrow> string" where [pattern_defs]:
  "MsgNextPattern siteID =
    Sprintf ''chat.user.{account}.request.room.{roomID}.%s.msg.next'' [siteID]"

definition MsgSurroundingPattern :: "string \<Rightarrow> string" where [pattern_defs]:
  "MsgSurroundingPattern siteID =
    Sprintf ''chat.user.{account}.request.room.{roomID}.%s.msg.surrounding'' [siteID]"

definition MsgGetPattern :: "string \<Rightarrow> string" where [pattern_defs]:
  "MsgGetPattern siteID = Sprintf ''chat.user.{account}.request.room.{roomID}.%s.msg.get'' [siteID]"

definition MsgGetIDsPattern :: "string \<Rightarrow> string" where [pattern_defs]:
  "MsgGetIDsPattern siteID =
    Sprintf ''chat.user.{account}.request.room.{roomID}.%s.msg.get.ids'' [siteID]"

definition MsgEditPattern :: "string \<Rightarrow> string" where [pattern_defs]:
  "MsgEditPattern siteID =
    Sprintf ''chat.user.{account}.request.room.{roomID}.%s.msg.edit'' [siteID]"

definition MsgDeletePattern :: "string \<Rightarrow> string" where [pattern_defs]:
  "MsgDeletePattern siteID =
    Sprintf ''chat.user.{account}.request.room.{roomID}.%s.msg.delete'' [siteID]"

definition MsgPinPattern :: "string \<Rightarrow> string" where [pattern_defs]:
  "MsgPinPattern siteID = Sprintf ''chat.user.{account}.request.room.{roomID}.%s.msg.pin'' [siteID]"

definition MsgUnpinPattern :: "string \<Rightarrow> string" where [pattern_defs]:
  "MsgUnpinPattern siteID =
    Sprintf ''chat.user.{account}.request.room.{roomID}.%s.msg.unpin'' [siteID]"

definition MsgPinnedListPattern :: "string \<Rightarrow> string" where [pattern_defs]:
  "MsgPinnedListPattern siteID =
    Sprintf ''chat.user.{account}.request.room.{roomID}.%s.msg.pinned.list'' [siteID]"

section \<open>Presence\<close>

definition MsgReactPattern :: "string \<Rightarrow> string" where [pattern_defs]:
  "MsgReactPattern siteID =
    Sprintf ''chat.user.{account}.request.room.{roomID}.%s.msg.react'' [siteID]"

definition MsgThreadPattern :: "string \<Rightarrow> string" where [pattern_defs]:
  "MsgThreadPattern siteID =
    Sprintf ''chat.user.{account}.request.room.{roomID}.%s.msg.thread'' [siteID]"

definition PresenceHelloPattern :: "string \<Rightarrow> string" where [pattern_defs]:
  "PresenceHelloPattern siteID = Sprintf ''chat.user.{account}.event.presence.%s.hello'' [siteID]"

definition PresencePingPattern :: "string \<Rightarrow> string" where [pattern_defs]:
  "PresencePingPattern siteID = Sprintf ''chat.user.{account}.event.presence.%s.ping'' [siteID]"

definition PresenceActivityPattern :: "string \<Rightarrow> string" where [pattern_defs]:
  "PresenceActivityPattern siteID =
    Sprintf ''chat.user.{account}.event.presence.%s.activity'' [siteID]"

definition PresenceByePattern :: "string \<Rightarrow> string" where [pattern_defs]:
  "PresenceByePattern siteID = Sprintf ''chat.user.{account}.event.presence.%s.bye'' [siteID]"

definition PresenceManualSetPattern :: "string \<Rightarrow> string" where [pattern_defs]:
  "PresenceManualSetPattern siteID =
    Sprintf ''chat.user.{account}.request.presence.%s.manual.set'' [siteID]"

definition PresenceQueryBatch :: "string \<Rightarrow> string" where [builder_defs]:
  "PresenceQueryBatch siteID = Sprintf ''chat.user.presence.%s.query.batch'' [siteID]"

definition PresenceQueryBatchPeer :: "string \<Rightarrow> string" where [builder_defs]:
  "PresenceQueryBatchPeer siteID = Sprintf ''chat.server.request.presence.%s.query.batch'' [siteID]"

section \<open>Concrete message requests\<close>

definition PresenceState :: "string \<Rightarrow> string" where [builder_defs]:
  "PresenceState account = Sprintf ''chat.user.presence.state.%s'' [account]"

definition MsgHistory :: "string \<Rightarrow> string \<Rightarrow> string \<Rightarrow> string go" where [builder_defs]:
  "MsgHistory account roomID siteID = msgRequest account roomID siteID ''history''"

definition MsgThread :: "string \<Rightarrow> string \<Rightarrow> string \<Rightarrow> string go" where [builder_defs]:
  "MsgThread account roomID siteID = msgRequest account roomID siteID ''thread''"

definition MsgEdit :: "string \<Rightarrow> string \<Rightarrow> string \<Rightarrow> string go" where [builder_defs]:
  "MsgEdit account roomID siteID = msgRequest account roomID siteID ''edit''"

definition MsgDelete :: "string \<Rightarrow> string \<Rightarrow> string \<Rightarrow> string go" where [builder_defs]:
  "MsgDelete account roomID siteID = msgRequest account roomID siteID ''delete''"

definition MsgPin :: "string \<Rightarrow> string \<Rightarrow> string \<Rightarrow> string go" where [builder_defs]:
  "MsgPin account roomID siteID = msgRequest account roomID siteID ''pin''"

definition MsgUnpin :: "string \<Rightarrow> string \<Rightarrow> string \<Rightarrow> string go" where [builder_defs]:
  "MsgUnpin account roomID siteID = msgRequest account roomID siteID ''unpin''"

definition MsgPinnedList :: "string \<Rightarrow> string \<Rightarrow> string \<Rightarrow> string go" where [builder_defs]:
  "MsgPinnedList account roomID siteID = msgRequest account roomID siteID ''pinned.list''"

definition MsgReact :: "string \<Rightarrow> string \<Rightarrow> string \<Rightarrow> string go" where [builder_defs]:
  "MsgReact account roomID siteID = msgRequest account roomID siteID ''react''"

definition MemberAdd :: "string \<Rightarrow> string \<Rightarrow> string \<Rightarrow> string" where [builder_defs]:
  "MemberAdd account roomID siteID =
    Sprintf ''chat.user.%s.request.room.%s.%s.member.add'' [account, roomID, siteID]"

definition MemberAddWildcard :: "string \<Rightarrow> string" where [pattern_defs]:
  "MemberAddWildcard siteID = Sprintf ''chat.user.*.request.room.*.%s.member.add'' [siteID]"

definition MessageRead :: "string \<Rightarrow> string \<Rightarrow> string \<Rightarrow> string" where [builder_defs]:
  "MessageRead account roomID siteID =
    Sprintf ''chat.user.%s.request.room.%s.%s.message.read'' [account, roomID, siteID]"

definition MessageReadWildcard :: "string \<Rightarrow> string" where [pattern_defs]:
  "MessageReadWildcard siteID = Sprintf ''chat.user.*.request.room.*.%s.message.read'' [siteID]"

definition MessageReadReceipt :: "string \<Rightarrow> string \<Rightarrow> string \<Rightarrow> string" where [builder_defs]:
  "MessageReadReceipt account roomID siteID =
    Sprintf ''chat.user.%s.request.room.%s.%s.message.read-receipt'' [account, roomID, siteID]"

definition MessageReadReceiptWildcard :: "string \<Rightarrow> string" where [pattern_defs]:
  "MessageReadReceiptWildcard siteID =
    Sprintf ''chat.user.*.request.room.*.%s.message.read-receipt'' [siteID]"

definition MessageThreadRead :: "string \<Rightarrow> string \<Rightarrow> string \<Rightarrow> string" where [builder_defs]:
  "MessageThreadRead account roomID siteID =
    Sprintf ''chat.user.%s.request.room.%s.%s.message.thread.read'' [account, roomID, siteID]"

definition MessageThreadReadWildcard :: "string \<Rightarrow> string" where [pattern_defs]:
  "MessageThreadReadWildcard siteID =
    Sprintf ''chat.user.*.request.room.*.%s.message.thread.read'' [siteID]"

definition MuteToggle :: "string \<Rightarrow> string \<Rightarrow> string \<Rightarrow> string" where [builder_defs]:
  "MuteToggle account roomID siteID =
    Sprintf ''chat.user.%s.request.room.%s.%s.mute.toggle'' [account, roomID, siteID]"

definition MuteToggleWildcard :: "string \<Rightarrow> string" where [pattern_defs]:
  "MuteToggleWildcard siteID = Sprintf ''chat.user.*.request.room.*.%s.mute.toggle'' [siteID]"

definition FavoriteToggle :: "string \<Rightarrow> string \<Rightarrow> string \<Rightarrow> string" where [builder_defs]:
  "FavoriteToggle account roomID siteID =
    Sprintf ''chat.user.%s.request.room.%s.%s.favorite.toggle'' [account, roomID, siteID]"

definition FavoriteToggleWildcard :: "string \<Rightarrow> string" where [pattern_defs]:
  "FavoriteToggleWildcard siteID =
    Sprintf ''chat.user.*.request.room.*.%s.favorite.toggle'' [siteID]"

definition MoveChat :: "string \<Rightarrow> string \<Rightarrow> string \<Rightarrow> string" where [builder_defs]:
  "MoveChat account roomID siteID =
    Sprintf ''chat.user.%s.request.room.%s.%s.chat.move'' [account, roomID, siteID]"

definition OpenRoom :: "string \<Rightarrow> string \<Rightarrow> string \<Rightarrow> string" where [builder_defs]:
  "OpenRoom account roomID siteID =
    Sprintf ''chat.user.%s.request.room.%s.%s.open'' [account, roomID, siteID]"

definition OpenRoomWildcard :: "string \<Rightarrow> string" where [pattern_defs]:
  "OpenRoomWildcard siteID = Sprintf ''chat.user.*.request.room.*.%s.open'' [siteID]"

definition RoomAppTabs :: "string \<Rightarrow> string \<Rightarrow> string \<Rightarrow> string go" where [builder_defs]:
  "RoomAppTabs account roomID siteID =
   (if \<not> isValidAccountToken account then Inl (Panic ''invalid account token: contains NATS wildcard characters'')
    else Inr (Sprintf ''chat.user.%s.request.room.%s.%s.app.tabs'' [account, roomID, siteID]))"

definition RoomAppTabsWildcard :: "string \<Rightarrow> string" where [pattern_defs]:
  "RoomAppTabsWildcard siteID = Sprintf ''chat.user.*.request.room.*.%s.app.tabs'' [siteID]"

definition RoomAppCmdMenu :: "string \<Rightarrow> string \<Rightarrow> string \<Rightarrow> string go" where [builder_defs]:
  "RoomAppCmdMenu account roomID siteID =
   (if \<not> isValidAccountToken account then Inl (Panic ''invalid account token: contains NATS wildcard characters'')
    else Inr (Sprintf ''chat.user.%s.request.room.%s.%s.app.cmd-menu'' [account, roomID, siteID]))"

definition RoomAppCmdMenuWildcard :: "string \<Rightarrow> string" where [pattern_defs]:
  "RoomAppCmdMenuWildcard siteID = Sprintf ''chat.user.*.request.room.*.%s.app.cmd-menu'' [siteID]"

definition RoomCreate :: "string \<Rightarrow> string \<Rightarrow> string" where [builder_defs]:
  "RoomCreate account siteID = Sprintf ''chat.user.%s.request.room.%s.create'' [account, siteID]"

definition RoomCreateWildcard :: "string \<Rightarrow> string" where [pattern_defs]:
  "RoomCreateWildcard siteID = Sprintf ''chat.user.*.request.room.%s.create'' [siteID]"

definition RoomMemberEvent :: "string \<Rightarrow> bool \<Rightarrow> string" where [builder_defs]:
  "RoomMemberEvent roomID global = roomBase roomID global @ ''.event.member''"

definition RoomMemberEventWildcard :: "bool \<Rightarrow> string" where [pattern_defs]:
  "RoomMemberEventWildcard global = roomBase ''*'' global @ ''.event.member''"

definition MsgThreadParentPattern :: "string \<Rightarrow> string" where [pattern_defs]:
  "MsgThreadParentPattern siteID =
    Sprintf ''chat.user.{account}.request.room.{roomID}.%s.msg.thread.parent'' [siteID]"

section \<open>Search requests\<close>

definition MsgThreadParentWildcard :: "string \<Rightarrow> string" where [pattern_defs]:
  "MsgThreadParentWildcard siteID =
    Sprintf ''chat.user.*.request.room.*.%s.msg.thread.parent'' [siteID]"

definition SearchMessages :: "string \<Rightarrow> string \<Rightarrow> string" where [builder_defs]:
  "SearchMessages account siteID =
    Sprintf ''chat.user.%s.request.search.%s.messages'' [account, siteID]"

definition SearchRooms :: "string \<Rightarrow> string \<Rightarrow> string" where [builder_defs]:
  "SearchRooms account siteID = Sprintf ''chat.user.%s.request.search.%s.rooms'' [account, siteID]"

definition SearchMessagesPattern :: "string \<Rightarrow> string" where [pattern_defs]:
  "SearchMessagesPattern siteID =
    Sprintf ''chat.user.{account}.request.search.%s.messages'' [siteID]"

definition SearchRoomsPattern :: "string \<Rightarrow> string" where [pattern_defs]:
  "SearchRoomsPattern siteID = Sprintf ''chat.user.{account}.request.search.%s.rooms'' [siteID]"

definition SearchApps :: "string \<Rightarrow> string \<Rightarrow> string" where [builder_defs]:
  "SearchApps account siteID = Sprintf ''chat.user.%s.request.search.%s.apps'' [account, siteID]"

definition SearchAppsPattern :: "string \<Rightarrow> string" where [pattern_defs]:
  "SearchAppsPattern siteID = Sprintf ''chat.user.{account}.request.search.%s.apps'' [siteID]"

definition SearchUsers :: "string \<Rightarrow> string \<Rightarrow> string" where [builder_defs]:
  "SearchUsers account siteID = Sprintf ''chat.user.%s.request.search.%s.users'' [account, siteID]"

definition SearchUsersPattern :: "string \<Rightarrow> string" where [pattern_defs]:
  "SearchUsersPattern siteID = Sprintf ''chat.user.{account}.request.search.%s.users'' [siteID]"

definition SearchOrgs :: "string \<Rightarrow> string \<Rightarrow> string" where [builder_defs]:
  "SearchOrgs account siteID = Sprintf ''chat.user.%s.request.search.%s.orgs'' [account, siteID]"

section \<open>Custom emoji\<close>

definition SearchOrgsPattern :: "string \<Rightarrow> string" where [pattern_defs]:
  "SearchOrgsPattern siteID = Sprintf ''chat.user.{account}.request.search.%s.orgs'' [siteID]"

definition EmojiList :: "string \<Rightarrow> string \<Rightarrow> string go" where [builder_defs]:
  "EmojiList account siteID =
   (if \<not> isValidAccountToken account then Inl (Panic ''invalid account token: contains NATS wildcard characters'')
    else Inr (Sprintf ''chat.user.%s.request.emoji.%s.list'' [account, siteID]))"

definition EmojiListPattern :: "string \<Rightarrow> string" where [pattern_defs]:
  "EmojiListPattern siteID = Sprintf ''chat.user.{account}.request.emoji.%s.list'' [siteID]"

definition EmojiDelete :: "string \<Rightarrow> string \<Rightarrow> string go" where [builder_defs]:
  "EmojiDelete account siteID =
   (if \<not> isValidAccountToken account then Inl (Panic ''invalid account token: contains NATS wildcard characters'')
    else Inr (Sprintf ''chat.user.%s.request.emoji.%s.delete'' [account, siteID]))"

section \<open>Router patterns of the room service\<close>

definition EmojiDeletePattern :: "string \<Rightarrow> string" where [pattern_defs]:
  "EmojiDeletePattern siteID = Sprintf ''chat.user.{account}.request.emoji.%s.delete'' [siteID]"

definition RoomCreatePattern :: "string \<Rightarrow> string" where [pattern_defs]:
  "RoomCreatePattern siteID = Sprintf ''chat.user.{account}.request.room.%s.create'' [siteID]"

definition MemberRoleUpdatePattern :: "string \<Rightarrow> string" where [pattern_defs]:
  "MemberRoleUpdatePattern siteID =
    Sprintf ''chat.user.{account}.request.room.{roomID}.%s.member.role-update'' [siteID]"

definition MemberRemovePattern :: "string \<Rightarrow> string" where [pattern_defs]:
  "MemberRemovePattern siteID =
    Sprintf ''chat.user.{account}.request.room.{roomID}.%s.member.remove'' [siteID]"

definition MemberAddPattern :: "string \<Rightarrow> string" where [pattern_defs]:
  "MemberAddPattern siteID =
    Sprintf ''chat.user.{account}.request.room.{roomID}.%s.member.add'' [siteID]"

definition MemberListPattern :: "string \<Rightarrow> string" where [pattern_defs]:
  "MemberListPattern siteID =
    Sprintf ''chat.user.{account}.request.room.{roomID}.%s.member.list'' [siteID]"

definition MemberStatusesPattern :: "string \<Rightarrow> string" where [pattern_defs]:
  "MemberStatusesPattern siteID =
    Sprintf ''chat.user.{account}.request.room.{roomID}.%s.member.statuses'' [siteID]"

definition MentionableSubscriptionsPattern :: "string \<Rightarrow> string" where [pattern_defs]:
  "MentionableSubscriptionsPattern siteID =
    Sprintf ''chat.user.{account}.request.room.{roomID}.%s.subscription.mentionable'' [siteID]"

definition OrgMembersPattern :: "string \<Rightarrow> string" where [pattern_defs]:
  "OrgMembersPattern siteID =
    Sprintf ''chat.user.{account}.request.orgs.{orgID}.%s.members'' [siteID]"

definition MessageReadPattern :: "string \<Rightarrow> string" where [pattern_defs]:
  "MessageReadPattern siteID =
    Sprintf ''chat.user.{account}.request.room.{roomID}.%s.message.read'' [siteID]"

definition MessageReadReceiptPattern :: "string \<Rightarrow> string" where [pattern_defs]:
  "MessageReadReceiptPattern siteID =
    Sprintf ''chat.user.{account}.request.room.{roomID}.%s.message.read-receipt'' [siteID]"

definition MessageThreadReadPattern :: "string \<Rightarrow> string" where [pattern_defs]:
  "MessageThreadReadPattern siteID =
    Sprintf ''chat.user.{account}.request.room.{roomID}.%s.message.thread.read'' [siteID]"

definition RoomKeyGetPattern :: "string \<Rightarrow> string" where [pattern_defs]:
  "RoomKeyGetPattern siteID =
    Sprintf ''chat.user.{account}.request.room.{roomID}.%s.key.get'' [siteID]"

definition MuteTogglePattern :: "string \<Rightarrow> string" where [pattern_defs]:
  "MuteTogglePattern siteID =
    Sprintf ''chat.user.{account}.request.room.{roomID}.%s.mute.toggle'' [siteID]"

definition FavoriteTogglePattern :: "string \<Rightarrow> string" where [pattern_defs]:
  "FavoriteTogglePattern siteID =
    Sprintf ''chat.user.{account}.request.room.{roomID}.%s.favorite.toggle'' [siteID]"

definition MoveChatPattern :: "string \<Rightarrow> string" where [pattern_defs]:
  "MoveChatPattern siteID =
    Sprintf ''chat.user.{account}.request.room.{roomID}.%s.chat.move'' [siteID]"

definition OpenRoomPattern :: "string \<Rightarrow> string" where [pattern_defs]:
  "OpenRoomPattern siteID = Sprintf ''chat.user.{account}.request.room.{roomID}.%s.open'' [siteID]"

definition RoomRenamePattern :: "string \<Rightarrow> string" where [pattern_defs]:
  "RoomRenamePattern siteID =
    Sprintf ''chat.user.{account}.request.room.{roomID}.%s.room.rename'' [siteID]"

definition RoomAppTabsPattern :: "string \<Rightarrow> string" where [pattern_defs]:
  "RoomAppTabsPattern siteID =
    Sprintf ''chat.user.{account}.request.room.{roomID}.%s.app.tabs'' [siteID]"

section \<open>Teams\<close>

definition RoomAppCmdMenuPattern :: "string \<Rightarrow> string" where [pattern_defs]:
  "RoomAppCmdMenuPattern siteID =
    Sprintf ''chat.user.{account}.request.room.{roomID}.%s.app.cmd-menu'' [siteID]"

definition TeamsRoomCall :: "string \<Rightarrow> string \<Rightarrow> string \<Rightarrow> string go" where [builder_defs]:
  "TeamsRoomCall account roomID siteID =
   (if \<not> isValidAccountToken account then Inl (Err ''invalid account token: contains NATS wildcard characters'')
    else Inr (Sprintf ''chat.user.%s.request.room.%s.%s.teams.call'' [account, roomID, siteID]))"

definition TeamsRoomCallPattern :: "string \<Rightarrow> string" where [pattern_defs]:
  "TeamsRoomCallPattern siteID =
    Sprintf ''chat.user.{account}.request.room.{roomID}.%s.teams.call'' [siteID]"

definition TeamsMeeting :: "string \<Rightarrow> string \<Rightarrow> string \<Rightarrow> string go" where [builder_defs]:
  "TeamsMeeting account roomID siteID =
   (if \<not> isValidAccountToken account then Inl (Err ''invalid account token: contains NATS wildcard characters'')
    else Inr (Sprintf ''chat.user.%s.request.room.%s.%s.teams.meeting'' [account, roomID, siteID]))"

definition TeamsMeetingPattern :: "string \<Rightarrow> string" where [pattern_defs]:
  "TeamsMeetingPattern siteID =
    Sprintf ''chat.user.{account}.request.room.{roomID}.%s.teams.meeting'' [siteID]"

definition TeamsUserCall :: "string \<Rightarrow> string \<Rightarrow> string go" where [builder_defs]:
  "TeamsUserCall account siteID =
   (if \<not> isValidAccountToken account then Inl (Err ''invalid account token: contains NATS wildcard characters'')
    else Inr (Sprintf ''chat.user.%s.request.teams.%s.call.user'' [account, siteID]))"

definition TeamsUserCallPattern :: "string \<Rightarrow> string" where [pattern_defs]:
  "TeamsUserCallPattern siteID =
    Sprintf ''chat.user.{account}.request.teams.%s.call.user'' [siteID]"

section \<open>User service requests\<close>

definition UserStatusGetByName :: "string \<Rightarrow> string \<Rightarrow> string go" where [builder_defs]:
  "UserStatusGetByName account siteID =
   (if \<not> isValidAccountToken account then Inl (Panic ''invalid account token: contains NATS wildcard characters'')
    else Inr (Sprintf ''chat.user.%s.request.user.%s.status.getByName'' [account, siteID]))"

definition UserProfileGetByName :: "string \<Rightarrow> string \<Rightarrow> string go" where [builder_defs]:
  "UserProfileGetByName account siteID =
   (if \<not> isValidAccountToken account then Inl (Panic ''invalid account token: contains NATS wildcard characters'')
    else Inr (Sprintf ''chat.user.%s.request.user.%s.profile.getByName'' [account, siteID]))"

definition UserStatusSet :: "string \<Rightarrow> string \<Rightarrow> string go" where [builder_defs]:
  "UserStatusSet account siteID =
   (if \<not> isValidAccountToken account then Inl (Panic ''invalid account token: contains NATS wildcard characters'')
    else Inr (Sprintf ''chat.user.%s.request.user.%s.status.set'' [account, siteID]))"

definition UserSubscriptionGetChannels :: "string \<Rightarrow> string \<Rightarrow> string go" where [builder_defs]:
  "UserSubscriptionGetChannels account siteID =
   (if \<not> isValidAccountToken account then Inl (Panic ''invalid account token: contains NATS wildcard characters'')
    else Inr (Sprintf ''chat.user.%s.request.user.%s.subscription.getChannels'' [account, siteID]))"

definition UserSubscriptionGetDM :: "string \<Rightarrow> string \<Rightarrow> string go" where [builder_defs]:
  "UserSubscriptionGetDM account siteID =
   (if \<not> isValidAccountToken account then Inl (Panic ''invalid account token: contains NATS wildcard characters'')
    else Inr (Sprintf ''chat.user.%s.request.user.%s.subscription.getDM'' [account, siteID]))"

definition UserSubscriptionCount :: "string \<Rightarrow> string \<Rightarrow> string go" where [builder_defs]:
  "UserSubscriptionCount account siteID =
   (if \<not> isValidAccountToken account then Inl (Panic ''invalid account token: contains NATS wildcard characters'')
    else Inr (Sprintf ''chat.user.%s.request.user.%s.subscription.count'' [account, siteID]))"

definition UserAppsList :: "string \<Rightarrow> string \<Rightarrow> string go" where [builder_defs]:
  "UserAppsList account siteID =
   (if \<not> isValidAccountToken account then Inl (Panic ''invalid account token: contains NATS wildcard characters'')
    else Inr (Sprintf ''chat.user.%s.request.user.%s.apps.list'' [account, siteID]))"

definition UserAppsCategories :: "string \<Rightarrow> string \<Rightarrow> string go" where [builder_defs]:
  "UserAppsCategories account siteID =
   (if \<not> isValidAccountToken account then Inl (Panic ''invalid account token: contains NATS wildcard characters'')
    else Inr (Sprintf ''chat.user.%s.request.user.%s.apps.categories'' [account, siteID]))"

definition UserSSOSet :: "string \<Rightarrow> string \<Rightarrow> string go" where [builder_defs]:
  "UserSSOSet account siteID =
   (if \<not> isValidAccountToken account then Inl (Panic ''invalid account token: contains NATS wildcard characters'')
    else Inr (Sprintf ''chat.user.%s.request.user.%s.sso.set'' [account, siteID]))"

definition UserSSORefresh :: "string \<Rightarrow> string \<Rightarrow> string go" where [builder_defs]:
  "UserSSORefresh account siteID =
   (if \<not> isValidAccountToken account then Inl (Panic ''invalid account token: contains NATS wildcard characters'')
    else Inr (Sprintf ''chat.user.%s.request.user.%s.sso.refresh'' [account, siteID]))"

definition UserStatusGetByNamePattern :: "string \<Rightarrow> string" where [pattern_defs]:
  "UserStatusGetByNamePattern siteID =
    Sprintf ''chat.user.{account}.request.user.%s.status.getByName'' [siteID]"

definition UserProfileGetByNamePattern :: "string \<Rightarrow> string" where [pattern_defs]:
  "UserProfileGetByNamePattern siteID =
    Sprintf ''chat.user.{account}.request.user.%s.profile.getByName'' [siteID]"

definition UserStatusSetPattern :: "string \<Rightarrow> string" where [pattern_defs]:
  "UserStatusSetPattern siteID =
    Sprintf ''chat.user.{account}.request.user.%s.status.set'' [siteID]"

definition UserSubscriptionGetChannelsPattern :: "string \<Rightarrow> string" where [pattern_defs]:
  "UserSubscriptionGetChannelsPattern siteID =
    Sprintf ''chat.user.{account}.request.user.%s.subscription.getChannels'' [siteID]"

definition UserSubscriptionGetDMPattern :: "string \<Rightarrow> string" where [pattern_defs]:
  "UserSubscriptionGetDMPattern siteID =
    Sprintf ''chat.user.{account}.request.user.%s.subscription.getDM'' [siteID]"

definition UserSubscriptionCountPattern :: "string \<Rightarrow> string" where [pattern_defs]:
  "UserSubscriptionCountPattern siteID =
    Sprintf ''chat.user.{account}.request.user.%s.subscription.count'' [siteID]"

definition UserAppsListPattern :: "string \<Rightarrow> string" where [pattern_defs]:
  "UserAppsListPattern siteID = Sprintf ''chat.user.{account}.request.user.%s.apps.list'' [siteID]"

definition UserAppsCategoriesPattern :: "string \<Rightarrow> string" where [pattern_defs]:
  "UserAppsCategoriesPattern siteID =
    Sprintf ''chat.user.{account}.request.user.%s.apps.categories'' [siteID]"

definition UserSSOSetPattern :: "string \<Rightarrow> string" where [pattern_defs]:
  "UserSSOSetPattern siteID = Sprintf ''chat.user.{account}.request.user.%s.sso.set'' [siteID]"

definition UserSSORefreshPattern :: "string \<Rightarrow> string" where [pattern_defs]:
  "UserSSORefreshPattern siteID =
    Sprintf ''chat.user.{account}.request.user.%s.sso.refresh'' [siteID]"

definition UserMe :: "string \<Rightarrow> string \<Rightarrow> string go" where [builder_defs]:
  "UserMe account siteID =
   (if \<not> isValidAccountToken account then Inl (Panic ''invalid account token: contains NATS wildcard characters'')
    else Inr (Sprintf ''chat.user.%s.request.user.%s.me'' [account, siteID]))"

definition UserMePattern :: "string \<Rightarrow> string" where [pattern_defs]:
  "UserMePattern siteID = Sprintf ''chat.user.{account}.request.user.%s.me'' [siteID]"

definition UserSubscriptionList :: "string \<Rightarrow> string \<Rightarrow> string go" where [builder_defs]:
  "UserSubscriptionList account siteID =
   (if \<not> isValidAccountToken account then Inl (Panic ''invalid account token: contains NATS wildcard characters'')
    else Inr (Sprintf ''chat.user.%s.request.user.%s.subscription.list'' [account, siteID]))"

definition UserSubscriptionListPattern :: "string \<Rightarrow> string" where [pattern_defs]:
  "UserSubscriptionListPattern siteID =
    Sprintf ''chat.user.{account}.request.user.%s.subscription.list'' [siteID]"

definition UserSettingsGet :: "string \<Rightarrow> string \<Rightarrow> string go" where [builder_defs]:
  "UserSettingsGet account siteID =
   (if \<not> isValidAccountToken account then Inl (Panic ''invalid account token: contains NATS wildcard characters'')
    else Inr (Sprintf ''chat.user.%s.request.user.%s.settings.get'' [account, siteID]))"

definition UserSettingsGetPattern :: "string \<Rightarrow> string" where [pattern_defs]:
  "UserSettingsGetPattern siteID =
    Sprintf ''chat.user.{account}.request.user.%s.settings.get'' [siteID]"

definition UserSettingsSet :: "string \<Rightarrow> string \<Rightarrow> string go" where [builder_defs]:
  "UserSettingsSet account siteID =
   (if \<not> isValidAccountToken account then Inl (Panic ''invalid account token: contains NATS wildcard characters'')
    else Inr (Sprintf ''chat.user.%s.request.user.%s.settings.set'' [account, siteID]))"

definition UserSettingsSetPattern :: "string \<Rightarrow> string" where [pattern_defs]:
  "UserSettingsSetPattern siteID =
    Sprintf ''chat.user.{account}.request.user.%s.settings.set'' [siteID]"

definition UserPriorityContactsGet :: "string \<Rightarrow> string \<Rightarrow> string go" where [builder_defs]:
  "UserPriorityContactsGet account siteID =
   (if \<not> isValidAccountToken account then Inl (Panic ''invalid account token: contains NATS wildcard characters'')
    else Inr (Sprintf ''chat.user.%s.request.user.%s.settings.priorityContacts.get'' [account, siteID]))"

definition UserPriorityContactsGetPattern :: "string \<Rightarrow> string" where [pattern_defs]:
  "UserPriorityContactsGetPattern siteID =
    Sprintf ''chat.user.{account}.request.user.%s.settings.priorityContacts.get'' [siteID]"

definition UserPriorityContactsAdd :: "string \<Rightarrow> string \<Rightarrow> string go" where [builder_defs]:
  "UserPriorityContactsAdd account siteID =
   (if \<not> isValidAccountToken account then Inl (Panic ''invalid account token: contains NATS wildcard characters'')
    else Inr (Sprintf ''chat.user.%s.request.user.%s.settings.priorityContacts.add'' [account, siteID]))"

definition UserPriorityContactsAddPattern :: "string \<Rightarrow> string" where [pattern_defs]:
  "UserPriorityContactsAddPattern siteID =
    Sprintf ''chat.user.{account}.request.user.%s.settings.priorityContacts.add'' [siteID]"

definition UserPriorityContactsRemove :: "string \<Rightarrow> string \<Rightarrow> string go" where [builder_defs]:
  "UserPriorityContactsRemove account siteID =
   (if \<not> isValidAccountToken account then Inl (Panic ''invalid account token: contains NATS wildcard characters'')
    else Inr (Sprintf ''chat.user.%s.request.user.%s.settings.priorityContacts.remove'' [account, siteID]))"

definition UserPriorityContactsRemovePattern :: "string \<Rightarrow> string" where [pattern_defs]:
  "UserPriorityContactsRemovePattern siteID =
    Sprintf ''chat.user.{account}.request.user.%s.settings.priorityContacts.remove'' [siteID]"

definition UserChatlistGet :: "string \<Rightarrow> string \<Rightarrow> string go" where [builder_defs]:
  "UserChatlistGet account siteID =
   (if \<not> isValidAccountToken account then Inl (Panic ''invalid account token: contains NATS wildcard characters'')
    else Inr (Sprintf ''chat.user.%s.request.user.%s.chatlist.get'' [account, siteID]))"

definition UserChatlistGetPattern :: "string \<Rightarrow> string" where [pattern_defs]:
  "UserChatlistGetPattern siteID =
    Sprintf ''chat.user.{account}.request.user.%s.chatlist.get'' [siteID]"

definition UserChatlistSectionCreate :: "string \<Rightarrow> string \<Rightarrow> string go" where [builder_defs]:
  "UserChatlistSectionCreate account siteID =
   (if \<not> isValidAccountToken account then Inl (Panic ''invalid account token: contains NATS wildcard characters'')
    else Inr (Sprintf ''chat.user.%s.request.user.%s.chatlist.section.create'' [account, siteID]))"

definition UserChatlistSectionCreatePattern :: "string \<Rightarrow> string" where [pattern_defs]:
  "UserChatlistSectionCreatePattern siteID =
    Sprintf ''chat.user.{account}.request.user.%s.chatlist.section.create'' [siteID]"

definition UserChatlistSectionDelete :: "string \<Rightarrow> string \<Rightarrow> string go" where [builder_defs]:
  "UserChatlistSectionDelete account siteID =
   (if \<not> isValidAccountToken account then Inl (Panic ''invalid account token: contains NATS wildcard characters'')
    else Inr (Sprintf ''chat.user.%s.request.user.%s.chatlist.section.delete'' [account, siteID]))"

definition UserChatlistSectionDeletePattern :: "string \<Rightarrow> string" where [pattern_defs]:
  "UserChatlistSectionDeletePattern siteID =
    Sprintf ''chat.user.{account}.request.user.%s.chatlist.section.delete'' [siteID]"

definition UserChatlistSectionRename :: "string \<Rightarrow> string \<Rightarrow> string go" where [builder_defs]:
  "UserChatlistSectionRename account siteID =
   (if \<not> isValidAccountToken account then Inl (Panic ''invalid account token: contains NATS wildcard characters'')
    else Inr (Sprintf ''chat.user.%s.request.user.%s.chatlist.section.rename'' [account, siteID]))"

definition UserChatlistSectionRenamePattern :: "string \<Rightarrow> string" where [pattern_defs]:
  "UserChatlistSectionRenamePattern siteID =
    Sprintf ''chat.user.{account}.request.user.%s.chatlist.section.rename'' [siteID]"

definition UserChatlistSectionReorder :: "string \<Rightarrow> string \<Rightarrow> string go" where [builder_defs]:
  "UserChatlistSectionReorder account siteID =
   (if \<not> isValidAccountToken account then Inl (Panic ''invalid account token: contains NATS wildcard characters'')
    else Inr (Sprintf ''chat.user.%s.request.user.%s.chatlist.section.reorder'' [account, siteID]))"

definition UserChatlistSectionReorderPattern :: "string \<Rightarrow> string" where [pattern_defs]:
  "UserChatlistSectionReorderPattern siteID =
    Sprintf ''chat.user.{account}.request.user.%s.chatlist.section.reorder'' [siteID]"

definition UserChatlistSectionSetSortMode :: "string \<Rightarrow> string \<Rightarrow> string go" where [builder_defs]:
  "UserChatlistSectionSetSortMode account siteID =
   (if \<not> isValidAccountToken account then Inl (Panic ''invalid account token: contains NATS wildcard characters'')
    else Inr (Sprintf ''chat.user.%s.request.user.%s.chatlist.section.setsortmode'' [account, siteID]))"

definition UserChatlistSectionSetSortModePattern :: "string \<Rightarrow> string" where [pattern_defs]:
  "UserChatlistSectionSetSortModePattern siteID =
    Sprintf ''chat.user.{account}.request.user.%s.chatlist.section.setsortmode'' [siteID]"

definition UserThreadList :: "string \<Rightarrow> string \<Rightarrow> string go" where [builder_defs]:
  "UserThreadList account siteID =
   (if \<not> isValidAccountToken account then Inl (Panic ''invalid account token: contains NATS wildcard characters'')
    else Inr (Sprintf ''chat.user.%s.request.user.%s.thread.list'' [account, siteID]))"

definition UserThreadListPattern :: "string \<Rightarrow> string" where [pattern_defs]:
  "UserThreadListPattern siteID =
    Sprintf ''chat.user.{account}.request.user.%s.thread.list'' [siteID]"

definition UserThreadUnreadSummary :: "string \<Rightarrow> string \<Rightarrow> string go" where [builder_defs]:
  "UserThreadUnreadSummary account siteID =
   (if \<not> isValidAccountToken account then Inl (Panic ''invalid account token: contains NATS wildcard characters'')
    else Inr (Sprintf ''chat.user.%s.request.user.%s.thread.unread.summary'' [account, siteID]))"

definition UserThreadUnreadSummaryPattern :: "string \<Rightarrow> string" where [pattern_defs]:
  "UserThreadUnreadSummaryPattern siteID =
    Sprintf ''chat.user.{account}.request.user.%s.thread.unread.summary'' [siteID]"

definition UserThreadReadAll :: "string \<Rightarrow> string \<Rightarrow> string go" where [builder_defs]:
  "UserThreadReadAll account siteID =
   (if \<not> isValidAccountToken account then Inl (Panic ''invalid account token: contains NATS wildcard characters'')
    else Inr (Sprintf ''chat.user.%s.request.user.%s.thread.read.all'' [account, siteID]))"

definition UserThreadReadAllPattern :: "string \<Rightarrow> string" where [pattern_defs]:
  "UserThreadReadAllPattern siteID =
    Sprintf ''chat.user.{account}.request.user.%s.thread.read.all'' [siteID]"

definition UserSubscriptionSetAppSubscription :: "string \<Rightarrow> string \<Rightarrow> string go" where [builder_defs]:
  "UserSubscriptionSetAppSubscription account siteID =
   (if \<not> isValidAccountToken account then Inl (Panic ''invalid account token: contains NATS wildcard characters'')
    else Inr (Sprintf ''chat.user.%s.request.user.%s.subscription.setAppSubscription'' [account, siteID]))"

definition UserSubscriptionSetAppSubscriptionPattern :: "string \<Rightarrow> string" where [pattern_defs]:
  "UserSubscriptionSetAppSubscriptionPattern siteID =
    Sprintf ''chat.user.{account}.request.user.%s.subscription.setAppSubscription'' [siteID]"

definition UserSubscriptionGetByRoomID :: "string \<Rightarrow> string \<Rightarrow> string go" where [builder_defs]:
  "UserSubscriptionGetByRoomID account siteID =
   (if \<not> isValidAccountToken account then Inl (Panic ''invalid account token: contains NATS wildcard characters'')
    else Inr (Sprintf ''chat.user.%s.request.user.%s.subscription.getByRoomID'' [account, siteID]))"

definition UserSubscriptionGetByRoomIDPattern :: "string \<Rightarrow> string" where [pattern_defs]:
  "UserSubscriptionGetByRoomIDPattern siteID =
    Sprintf ''chat.user.{account}.request.user.%s.subscription.getByRoomID'' [siteID]"

definition BadgeCountBatch :: "string \<Rightarrow> string" where [builder_defs]:
  "BadgeCountBatch siteID = Sprintf ''chat.server.request.user.%s.badge.count.batch'' [siteID]"

definition BadgeCountBatchPattern :: "string \<Rightarrow> string" where [pattern_defs]:
  "BadgeCountBatchPattern siteID =
    Sprintf ''chat.server.request.user.%s.badge.count.batch'' [siteID]"

section \<open>Server feeds and migration\<close>

definition UserStatusWildCard :: "string \<Rightarrow> string" where [pattern_defs]:
  "UserStatusWildCard siteID = Sprintf ''chat.user.*.request.user.%s.status.>'' [siteID]"

definition UserSubscriptionWildCard :: "string \<Rightarrow> string" where [pattern_defs]:
  "UserSubscriptionWildCard siteID =
    Sprintf ''chat.user.*.request.user.%s.subscription.>'' [siteID]"

definition UserProfileWildCard :: "string \<Rightarrow> string" where [pattern_defs]:
  "UserProfileWildCard siteID = Sprintf ''chat.user.*.request.user.%s.profile.>'' [siteID]"

definition UserRoomWildCard :: "string \<Rightarrow> string" where [pattern_defs]:
  "UserRoomWildCard siteID = Sprintf ''chat.user.*.request.user.%s.room.>'' [siteID]"

definition UserAppsWildCard :: "string \<Rightarrow> string" where [pattern_defs]:
  "UserAppsWildCard siteID = Sprintf ''chat.user.*.request.user.%s.apps.>'' [siteID]"

definition PushNotification :: "string \<Rightarrow> string" where [builder_defs]:
  "PushNotification siteID = Sprintf ''chat.server.notification.push.%s.send'' [siteID]"

definition PushNotificationFilter :: "string \<Rightarrow> string" where [pattern_defs]:
  "PushNotificationFilter siteID = Sprintf ''chat.server.notification.push.%s.>'' [siteID]"

definition ServerBroadcastThreadTCount :: "string \<Rightarrow> string" where [builder_defs]:
  "ServerBroadcastThreadTCount siteID = Sprintf ''chat.server.broadcast.%s.thread.tcount'' [siteID]"

definition ServerBroadcastWildcard :: "string \<Rightarrow> string" where [pattern_defs]:
  "ServerBroadcastWildcard siteID = Sprintf ''chat.server.broadcast.%s.>'' [siteID]"

definition PresenceSnapshot :: "string \<Rightarrow> string" where [builder_defs]:
  "PresenceSnapshot siteID = Sprintf ''chat.presence.%s.request.snapshot'' [siteID]"

definition SubscriptionUpdateWildcard :: "string" where [pattern_defs]:
  "SubscriptionUpdateWildcard = ''chat.user.*.event.subscription.update''"

definition MigrationOplog :: "string \<Rightarrow> string \<Rightarrow> string \<Rightarrow> string" where [builder_defs]:
  "MigrationOplog siteID collection op =
    Sprintf ''chat.migration.oplog.%s.%s.%s'' [siteID, collection, op]"

definition MigrationOplogWildcard :: "string \<Rightarrow> string" where [pattern_defs]:
  "MigrationOplogWildcard siteID = Sprintf ''chat.migration.oplog.%s.>'' [siteID]"

definition OrgSyncEmployeesUpsert :: "string \<Rightarrow> string" where [builder_defs]:
  "OrgSyncEmployeesUpsert centralSiteID = Sprintf ''chat.hr.%s.employees.upsert'' [centralSiteID]"

definition OrgSyncUsersUpsert :: "string \<Rightarrow> string" where [builder_defs]:
  "OrgSyncUsersUpsert centralSiteID = Sprintf ''chat.hr.%s.users.upsert'' [centralSiteID]"

definition EmployeesQuit :: "string \<Rightarrow> string" where [builder_defs]:
  "EmployeesQuit siteID = Sprintf ''chat.hr.%s.employees.quit'' [siteID]"

definition TranslateRequest :: "string \<Rightarrow> string \<Rightarrow> string" where [builder_defs]:
  "TranslateRequest account siteID =
    Sprintf ''chat.user.%s.request.translate.%s.text'' [account, siteID]"

definition TranslateRequestPattern :: "string \<Rightarrow> string" where [pattern_defs]:
  "TranslateRequestPattern siteID =
    Sprintf ''chat.user.{account}.request.translate.%s.text'' [siteID]"

section \<open>Bot pipeline (bot.go)\<close>

definition ServerBotMsgRoomSend :: "string \<Rightarrow> string \<Rightarrow> string" where [builder_defs]:
  "ServerBotMsgRoomSend siteID roomID =
    Sprintf ''chat.server.bot.request.room.%s.%s.msg.send'' [siteID, roomID]"

definition ServerBotDMSend :: "string \<Rightarrow> string \<Rightarrow> string" where [builder_defs]:
  "ServerBotDMSend siteID userID =
    Sprintf ''chat.server.bot.request.dm.%s.%s.msg.send'' [siteID, userID]"

definition ServerBotRoomCreate :: "string \<Rightarrow> string" where [builder_defs]:
  "ServerBotRoomCreate siteID = Sprintf ''chat.server.bot.request.room.%s.create'' [siteID]"

definition ServerBotRoomMemberAdd :: "string \<Rightarrow> string \<Rightarrow> string" where [builder_defs]:
  "ServerBotRoomMemberAdd siteID roomID =
    Sprintf ''chat.server.bot.request.room.%s.%s.member.add'' [siteID, roomID]"

definition ServerBotRoomMemberRemove :: "string \<Rightarrow> string \<Rightarrow> string" where [builder_defs]:
  "ServerBotRoomMemberRemove siteID roomID =
    Sprintf ''chat.server.bot.request.room.%s.%s.member.remove'' [siteID, roomID]"

definition ServerBotRoomGet :: "string \<Rightarrow> string" where [builder_defs]:
  "ServerBotRoomGet siteID = Sprintf ''chat.server.bot.request.room.%s.get'' [siteID]"

definition ServerBotRoomDMEnsure :: "string \<Rightarrow> string" where [builder_defs]:
  "ServerBotRoomDMEnsure siteID = Sprintf ''chat.server.bot.request.room.%s.dm.ensure'' [siteID]"

definition ServerBotMsgRoomSendPattern :: "string \<Rightarrow> string" where [pattern_defs]:
  "ServerBotMsgRoomSendPattern siteID =
    Sprintf ''chat.server.bot.request.room.%s.{roomID}.msg.send'' [siteID]"

definition ServerBotDMSendPattern :: "string \<Rightarrow> string" where [pattern_defs]:
  "ServerBotDMSendPattern siteID =
    Sprintf ''chat.server.bot.request.dm.%s.{userID}.msg.send'' [siteID]"

definition ServerBotRoomMemberAddPattern :: "string \<Rightarrow> string" where [pattern_defs]:
  "ServerBotRoomMemberAddPattern siteID =
    Sprintf ''chat.server.bot.request.room.%s.{roomID}.member.add'' [siteID]"

definition ServerBotRoomMemberRemovePattern :: "string \<Rightarrow> string" where [pattern_defs]:
  "ServerBotRoomMemberRemovePattern siteID =
    Sprintf ''chat.server.bot.request.room.%s.{roomID}.member.remove'' [siteID]"

definition ServerBotWildcard :: "string" where [pattern_defs]:
  "ServerBotWildcard = ''chat.server.bot.request.>''"

definition BotCanonicalCreated :: "string \<Rightarrow> string" where [builder_defs]:
  "BotCanonicalCreated siteID = Sprintf ''chat.bot.canonical.%s.created'' [siteID]"

definition BotCanonicalWildcard :: "string \<Rightarrow> string" where [pattern_defs]:
  "BotCanonicalWildcard siteID = Sprintf ''chat.bot.canonical.%s.>'' [siteID]"

definition BotPushNotification :: "string \<Rightarrow> string \<Rightarrow> string" where [builder_defs]:
  "BotPushNotification siteID kind = Sprintf ''chat.bot.notification.push.%s.%s'' [siteID, kind]"

definition BotPushNotificationWildcard :: "string \<Rightarrow> string" where [pattern_defs]:
  "BotPushNotificationWildcard siteID = Sprintf ''chat.bot.notification.push.%s.>'' [siteID]"

section \<open>Builders of several subjects\<close>

definition OrgMembers :: "string \<Rightarrow> string \<Rightarrow> string \<Rightarrow> string go" where [builder_defs]:
  "OrgMembers account orgID siteID =
     (if \<not> isValidAccountToken account \<or> \<not> isValidAccountToken orgID
         \<or> \<not> isValidAccountToken siteID
      then Inl (Panic ''invalid subject token: contains NATS wildcard characters'')
      else Inr (Sprintf ''chat.user.%s.request.orgs.%s.%s.members'' [account, orgID, siteID]))"

definition InboxMemberEventSubjects :: "string \<Rightarrow> string list" where
  "InboxMemberEventSubjects siteID =
     [InboxInternal siteID ''member_added'',
      InboxInternal siteID ''member_removed'',
      InboxInternal siteID ''member_joinedat_refreshed'',
      InboxInternal siteID ''room_renamed'',
      InboxExternal siteID ''member_added'',
      InboxExternal siteID ''member_removed'',
      InboxExternal siteID ''member_joinedat_refreshed'',
      InboxExternal siteID ''room_renamed'']"

definition RoomThreadEvent :: "string \<Rightarrow> string \<Rightarrow> bool \<Rightarrow> string" where [builder_defs]:
  "RoomThreadEvent roomID parentMessageID global =
     roomBase roomID global @ ''.thread.'' @ parentMessageID @ ''.event''"

definition RoomEventTargets ::
  "int \<Rightarrow> string \<Rightarrow> bool option \<Rightarrow> int option \<Rightarrow> RoomRouteMode \<Rightarrow> int \<Rightarrow> string list" where
  "RoomEventTargets grace roomID crossSite crossSiteAt mode now =
     map (RoomEvent roomID) (roomRouteGlobals grace crossSite crossSiteAt mode now)"

definition RoomThreadEventTargets ::
  "int \<Rightarrow> string \<Rightarrow> string \<Rightarrow> bool option \<Rightarrow> int option \<Rightarrow> RoomRouteMode \<Rightarrow> int \<Rightarrow> string list" where
  "RoomThreadEventTargets grace roomID parentMessageID crossSite crossSiteAt mode now =
     map (RoomThreadEvent roomID parentMessageID)
       (roomRouteGlobals grace crossSite crossSiteAt mode now)"

definition RoomMemberEventTargets ::
  "int \<Rightarrow> string \<Rightarrow> bool option \<Rightarrow> int option \<Rightarrow> RoomRouteMode \<Rightarrow> int \<Rightarrow> string list" where
  "RoomMemberEventTargets grace roomID crossSite crossSiteAt mode now =
     map (RoomMemberEvent roomID) (roomRouteGlobals grace crossSite crossSiteAt mode now)"

end
