(* ===== verification/Nats_Router.thy ===== *)
theory Nats_Router
  imports Subjects "HOL-Library.AList"
begin

text \<open>
  \<open>pkg/natsrouter/params.go\<close>: a route is made once from a pattern with \<open>{name}\<close> placeholders,
  and at request time the parameters are cut out of the subject by an index scan. The theory shows
  that the scan computes the same as splitting the subject, states the contract of one RPC (the
  subject its builder makes, the pattern its server registers) as a locale, and lists every RPC
  that has both a builder and a pattern.
\<close>

section \<open>Routes and parameters\<close>

type_synonym param_values = "(string \<times> string) list"

record route =
  natsSubject :: string
  params :: "(nat \<times> string) list"

definition is_placeholder :: "string \<Rightarrow> bool" where
  "is_placeholder part \<longleftrightarrow>
     length part > 2 \<and> part ! 0 = CHR ''{'' \<and> part ! (length part - 1) = CHR ''}''"

definition placeholder_name :: "string \<Rightarrow> string" where
  "placeholder_name part = take (length part - 2) (drop 1 part)"

fun pattern_loop :: "nat \<Rightarrow> string list \<Rightarrow> (nat \<times> string) list \<times> string list" where
  "pattern_loop i [] = ([], [])"
| "pattern_loop i (part # parts) =
     (case pattern_loop (Suc i) parts of (ps, nats) \<Rightarrow>
        if is_placeholder part then ((i, placeholder_name part) # ps, ''*'' # nats)
        else (ps, part # nats))"

definition parsePattern :: "string \<Rightarrow> route" where
  "parsePattern pattern =
     (case pattern_loop 0 (Split CHR ''.'' pattern) of (ps, nats) \<Rightarrow>
        \<lparr>natsSubject = Join ''.'' nats, params = ps\<rparr>)"

definition record_param :: "(nat \<times> string) list \<Rightarrow> nat \<Rightarrow> string \<Rightarrow> param_values \<Rightarrow> param_values" where
  "record_param ps pos val vals =
     (case map_of ps pos of
        None \<Rightarrow> vals
      | Some name \<Rightarrow>
          AList.update name (if name = ''account'' then DecodeAccount val else val) vals)"

function extract_loop ::
  "(nat \<times> string) list \<Rightarrow> string \<Rightarrow> nat \<Rightarrow> nat \<Rightarrow> nat \<Rightarrow> param_values \<Rightarrow> param_values" where
  "extract_loop ps subj i pos tokenStart vals =
     (if i \<le> length subj then
        if i = length subj \<or> subj ! i = CHR ''.'' then
          extract_loop ps subj (Suc i) (Suc pos) (Suc i)
            (record_param ps pos (take (i - tokenStart) (drop tokenStart subj)) vals)
        else extract_loop ps subj (Suc i) pos tokenStart vals
      else vals)"
  by pat_completeness auto
termination
  by (relation "measure (\<lambda>(ps, subj, i, pos, ts, vs). Suc (length subj) - i)") auto

definition extractParams :: "route \<Rightarrow> string \<Rightarrow> param_values" where
  "extractParams r subj =
     (if length (params r) = 0 then [] else extract_loop (params r) subj 0 0 0 [])"

definition Get :: "param_values \<Rightarrow> string \<Rightarrow> string" where
  "Get p key = (case map_of p key of None \<Rightarrow> '''' | Some v \<Rightarrow> v)"

definition MustGet :: "param_values \<Rightarrow> string \<Rightarrow> string go" where
  "MustGet p key =
     (case map_of p key of
        None \<Rightarrow> Inl (Panic (''natsrouter: param '' @ key @ '' not found in subject''))
      | Some v \<Rightarrow> Inr v)"

definition Require :: "param_values \<Rightarrow> string \<Rightarrow> string go" where
  "Require p key =
     (case map_of p key of
        None \<Rightarrow> Inl (Err (''missing required param: '' @ key))
      | Some v \<Rightarrow> if v = '''' then Inl (Err (''missing required param: '' @ key)) else Inr v)"

declare extract_loop.simps [simp del]

section \<open>The scan and the split agree\<close>

fun assign_tokens :: "(nat \<times> string) list \<Rightarrow> nat \<Rightarrow> string list \<Rightarrow> param_values \<Rightarrow> param_values" where
  "assign_tokens ps pos [] vals = vals"
| "assign_tokens ps pos (t # ts) vals = assign_tokens ps (Suc pos) ts (record_param ps pos t vals)"

definition extract_by_split :: "route \<Rightarrow> string \<Rightarrow> param_values" where
  "extract_by_split r subj = assign_tokens (params r) 0 (Split CHR ''.'' subj) []"

lemma slice_dot_free_step:
  assumes "ts \<le> i" "i < length s" "CHR ''.'' \<notin> set (take (i - ts) (drop ts s))" "s ! i \<noteq> CHR ''.''"
  shows "CHR ''.'' \<notin> set (take (Suc i - ts) (drop ts s))"
proof -
  have "take (Suc i - ts) (drop ts s) = take (i - ts) (drop ts s) @ [s ! i]"
    using assms(1,2) by (simp add: Suc_diff_le take_Suc_conv_app_nth)
  then show ?thesis using assms by simp
qed

lemma extract_loop_split:
  assumes "ts \<le> i" "i \<le> length subj" "CHR ''.'' \<notin> set (take (i - ts) (drop ts subj))"
  shows "extract_loop ps subj i pos ts vals
    = assign_tokens ps pos (Split CHR ''.'' (drop ts subj)) vals"
  using assms
proof (induction ps subj i pos ts vals rule: extract_loop.induct)
  case (1 ps subj i pos ts vals)
  consider (stop) "i = length subj" | (dot) "i < length subj" "subj ! i = CHR ''.''"
    | (go) "i < length subj" "subj ! i \<noteq> CHR ''.''"
    using "1.prems" by linarith
  then show ?case
  proof cases
    case stop
    then show ?thesis
      using "1.prems"
      by (simp add: extract_loop.simps [of ps subj "length subj"]
          extract_loop.simps [of ps subj "Suc (length subj)"] Split_no_sep)
  next
    case dot
    have "drop ts subj = take (i - ts) (drop ts subj) @ CHR ''.'' # drop (Suc i) subj"
      using dot "1.prems"(1) id_take_nth_drop [of "i - ts" "drop ts subj"] by simp
    then have "Split CHR ''.'' (drop ts subj)
      = take (i - ts) (drop ts subj) # Split CHR ''.'' (drop (Suc i) subj)"
      using "1.prems"(3) Split_append_sep Split_no_sep by (metis append_Cons append_Nil)
    moreover have "extract_loop ps subj (Suc i) (Suc pos) (Suc i)
        (record_param ps pos (take (i - ts) (drop ts subj)) vals)
      = assign_tokens ps (Suc pos) (Split CHR ''.'' (drop (Suc i) subj))
        (record_param ps pos (take (i - ts) (drop ts subj)) vals)"
      using "1.IH"(1) dot by simp
    ultimately show ?thesis
      using dot by (simp add: extract_loop.simps [of ps subj i])
  next
    case go
    then show ?thesis
      using "1.IH"(2) "1.prems" slice_dot_free_step [of ts i subj]
      by (simp add: extract_loop.simps [of ps subj i])
  qed
qed

lemma assign_tokens_none [simp]: "assign_tokens [] pos ts vals = vals"
  by (induction ts arbitrary: pos vals) (auto simp: record_param_def)

lemma extractParams_split: "extractParams r subj = extract_by_split r subj"
  using extract_loop_split [of 0 0 subj "params r" 0 "[]"]
  by (simp add: extractParams_def extract_by_split_def)

section \<open>NATS subject matching\<close>

text \<open>
  Subject matching is done by the NATS server, which is not part of the sources: where a statement
  needs it, the matching function is a variable and this is the documented rule it is assumed to
  follow. A star stands for one token, a closing \<open>>\<close> for one or more.
\<close>

fun tokens_match :: "string list \<Rightarrow> string list \<Rightarrow> bool" where
  "tokens_match [] [] = True"
| "tokens_match (p # ps) (t # ts) =
     (if p = ''>'' \<and> ps = [] then True else (p = ''*'' \<or> p = t) \<and> tokens_match ps ts)"
| "tokens_match _ _ = False"

definition nats_rules :: "(string \<Rightarrow> string \<Rightarrow> bool) \<Rightarrow> bool" where
  "nats_rules matches \<longleftrightarrow>
     (\<forall>p s. matches p s \<longleftrightarrow> tokens_match (Split CHR ''.'' p) (Split CHR ''.'' s))"

lemma tokens_match_append:
  "length ps = length ts \<Longrightarrow> ''>'' \<notin> set ps \<Longrightarrow>
   tokens_match (ps @ ps') (ts @ ts') \<longleftrightarrow> tokens_match ps ts \<and> tokens_match ps' ts'"
  by (induction ps ts rule: list_induct2) auto

section \<open>The contract of one RPC\<close>

text \<open>What follows \<open>chat.user.{account}\<close> in an RPC subject: fixed tokens, the room, the site.\<close>

datatype seg = Lit string | RoomSeg | SiteSeg

fun seg_token :: "string \<Rightarrow> string \<Rightarrow> seg \<Rightarrow> string" where
  "seg_token r s (Lit t) = t"
| "seg_token r s RoomSeg = r"
| "seg_token r s SiteSeg = s"

definition plain_token :: "string \<Rightarrow> bool" where
  "plain_token t \<longleftrightarrow> t \<noteq> '''' \<and> t \<noteq> ''*'' \<and> t \<noteq> ''>'' \<and> \<not> is_placeholder t \<and> CHR ''.'' \<notin> set t"

fun plain_seg :: "seg \<Rightarrow> bool" where
  "plain_seg (Lit t) = plain_token t"
| "plain_seg _ = True"

fun room_positions :: "nat \<Rightarrow> seg list \<Rightarrow> (nat \<times> string) list" where
  "room_positions i [] = []"
| "room_positions i (g # gs) =
     (if g = RoomSeg then (i, ''roomID'') # room_positions (Suc i) gs else room_positions (Suc i) gs)"

lemma placeholder_roomID [simp]: "is_placeholder ''{roomID}''" "placeholder_name ''{roomID}'' = ''roomID''"
  by (simp_all add: is_placeholder_def placeholder_name_def)

lemma placeholder_account [simp]: "is_placeholder ''{account}''" "placeholder_name ''{account}'' = ''account''"
  by (simp_all add: is_placeholder_def placeholder_name_def)

lemma placeholder_orgID [simp]: "is_placeholder ''{orgID}''"
  by (simp add: is_placeholder_def)

lemma not_placeholder_head [simp]: "c \<noteq> CHR ''{'' \<Longrightarrow> \<not> is_placeholder (c # cs)"
  by (simp add: is_placeholder_def)

lemma pattern_loop_segs:
  assumes "list_all plain_seg gs" "\<not> is_placeholder s"
  shows "pattern_loop i (map (seg_token ''{roomID}'' s) gs)
    = (room_positions i gs, map (seg_token ''*'' s) gs)"
  using assms
proof (induction gs arbitrary: i)
  case (Cons g gs)
  then show ?case by (cases g) (auto simp: plain_token_def)
qed simp

lemma room_positions_from: "k < i \<Longrightarrow> map_of (room_positions i gs) k = None"
  by (induction gs arbitrary: i) auto

lemma assign_tokens_segs:
  assumes "\<And>k. pos \<le> k \<Longrightarrow> map_of ps k = map_of (room_positions pos gs) k"
  shows "assign_tokens ps pos (map (seg_token r s) gs) vals
    = (if RoomSeg \<in> set gs then AList.update ''roomID'' r vals else vals)"
  using assms
proof (induction gs arbitrary: pos vals)
  case (Cons g gs)
  have rest: "map_of ps k = map_of (room_positions (Suc pos) gs) k" if "Suc pos \<le> k" for k
    using that Cons.prems [of k] by (auto split: if_splits)
  have here: "map_of ps pos = (if g = RoomSeg then Some ''roomID'' else None)"
    using Cons.prems [of pos] by (simp add: room_positions_from)
  then have "record_param ps pos (seg_token r s g) vals
      = (if g = RoomSeg then AList.update ''roomID'' r vals else vals)"
    by (simp add: record_param_def)
  then show ?case
    using Cons.IH [of "Suc pos", OF rest] by (auto simp: AList.update_last)
qed simp

lemma tokens_match_segs: "tokens_match (map (seg_token ''*'' s) gs) (map (seg_token r s) gs)"
proof (induction gs)
  case (Cons g gs)
  then show ?case by (cases g) auto
qed simp

text \<open>Two lists of segments that some subject could satisfy both of: equal length, and equal
  tokens wherever both are fixed.\<close>

fun compatible :: "seg list \<Rightarrow> seg list \<Rightarrow> bool" where
  "compatible [] [] = True"
| "compatible (Lit t # ps) (Lit u # qs) = (t = u \<and> compatible ps qs)"
| "compatible (_ # ps) (_ # qs) = compatible ps qs"
| "compatible _ _ = False"

lemma tokens_match_compatible:
  assumes "tokens_match (map (seg_token ''*'' s) gs) (map (seg_token r' s') gs')"
    and "list_all plain_seg gs" "s \<noteq> ''>''"
  shows "compatible gs gs'"
  using assms
proof (induction gs arbitrary: gs')
  case Nil
  then show ?case by (cases gs') auto
next
  case (Cons g gs)
  from Cons.prems(1) obtain h hs where gs': "gs' = h # hs" by (cases gs') auto
  show ?case
    using Cons.prems Cons.IH [of hs] unfolding gs'
    by (cases g; cases h) (auto simp: plain_token_def split: if_splits)
qed

lemma tokens_match_same_site:
  assumes "tokens_match (map (seg_token ''*'' s) gs) (map (seg_token r' s') gs)"
    and "list_all plain_seg gs" "s \<noteq> ''>''" "s \<noteq> ''*''" "SiteSeg \<in> set gs"
  shows "s = s'"
  using assms
proof (induction gs)
  case (Cons g gs)
  then show ?case by (cases g) (auto simp: plain_token_def split: if_splits)
qed simp

lemma seg_token_dot_free:
  "plain_seg g \<Longrightarrow> CHR ''.'' \<notin> set r \<Longrightarrow> CHR ''.'' \<notin> set s \<Longrightarrow> CHR ''.'' \<notin> set (seg_token r s g)"
  by (cases g) (auto simp: plain_token_def)

locale rpc =
  fixes build :: "string \<Rightarrow> string \<Rightarrow> string \<Rightarrow> string go"
    and pattern :: "string \<Rightarrow> string"
    and segs :: "seg list"
  assumes build_tokens: "isValidAccountToken a \<Longrightarrow> CHR ''.'' \<notin> set r \<Longrightarrow> CHR ''.'' \<notin> set s \<Longrightarrow>
      \<exists>subj. build a r s = Inr subj \<and>
        Split CHR ''.'' subj = ''chat'' # ''user'' # a # map (seg_token r s) segs"
    and pattern_tokens: "CHR ''.'' \<notin> set s \<Longrightarrow>
      Split CHR ''.'' (pattern s)
        = ''chat'' # ''user'' # ''{account}'' # map (seg_token ''{roomID}'' s) segs"
    and segs_plain: "list_all plain_seg segs"
begin

lemma pattern_route:
  assumes "CHR ''.'' \<notin> set s" "\<not> is_placeholder s"
  shows "parsePattern (pattern s)
    = \<lparr>natsSubject = Join ''.'' (''chat'' # ''user'' # ''*'' # map (seg_token ''*'' s) segs),
       params = (2, ''account'') # room_positions 3 segs\<rparr>"
  using pattern_tokens [OF assms(1)] pattern_loop_segs [OF segs_plain assms(2)]
  by (simp add: parsePattern_def eval_nat_numeral)

lemma pattern_route_tokens:
  assumes "CHR ''.'' \<notin> set s" "\<not> is_placeholder s"
  shows "Split CHR ''.'' (natsSubject (parsePattern (pattern s)))
    = ''chat'' # ''user'' # ''*'' # map (seg_token ''*'' s) segs"
proof -
  have "CHR ''.'' \<notin> set t" if "t \<in> set (map (seg_token ''*'' s) segs)" for t
    using that segs_plain assms(1) seg_token_dot_free [of _ "''*''" s]
    by (force simp: list_all_iff)
  then have "Split CHR ''.'' (Join ''.'' (''chat'' # ''user'' # ''*'' # map (seg_token ''*'' s) segs))
    = ''chat'' # ''user'' # ''*'' # map (seg_token ''*'' s) segs"
    by (intro Split_Join) auto
  then show ?thesis by (simp add: pattern_route [OF assms])
qed

lemma request_params:
  assumes "isValidAccountToken a" "CHR ''.'' \<notin> set r" "CHR ''.'' \<notin> set s" "\<not> is_placeholder s"
    and "build a r s = Inr subj"
  shows "extractParams (parsePattern (pattern s)) subj
    = (''account'', DecodeAccount a) # (if RoomSeg \<in> set segs then [(''roomID'', r)] else [])"
proof -
  have toks: "Split CHR ''.'' subj = ''chat'' # ''user'' # a # map (seg_token r s) segs"
    using build_tokens assms by fastforce
  have "assign_tokens ((2, ''account'') # room_positions 3 segs) 3 (map (seg_token r s) segs)
      [(''account'', DecodeAccount a)]
    = (if RoomSeg \<in> set segs then AList.update ''roomID'' r [(''account'', DecodeAccount a)]
       else [(''account'', DecodeAccount a)])"
    by (rule assign_tokens_segs) simp
  moreover have "map_of (room_positions 3 segs) 0 = None" "map_of (room_positions 3 segs) (Suc 0) = None"
    by (simp_all add: room_positions_from)
  ultimately show ?thesis
    using assms(3,4) by (simp add: extractParams_split extract_by_split_def toks pattern_route
        record_param_def eval_nat_numeral)
qed

lemma request_matches:
  assumes "isValidAccountToken a" "CHR ''.'' \<notin> set r" "CHR ''.'' \<notin> set s" "\<not> is_placeholder s"
    and "build a r s = Inr subj" "nats_rules matches"
  shows "matches (natsSubject (parsePattern (pattern s))) subj"
proof -
  have "Split CHR ''.'' subj = ''chat'' # ''user'' # a # map (seg_token r s) segs"
    using build_tokens assms by fastforce
  then show ?thesis
    using assms(3,4,6) by (simp add: nats_rules_def pattern_route_tokens tokens_match_segs)
qed

end

section \<open>Every RPC with a builder and a pattern\<close>

type_synonym rpc_row =
  "string \<times> (string \<Rightarrow> string \<Rightarrow> string \<Rightarrow> string go) \<times> (string \<Rightarrow> string) \<times> seg list"

definition rpcs :: "rpc_row list" where
  "rpcs =
   [(''MsgGet'', \<lambda>a r s. Inr (MsgGet a r s), MsgGetPattern,
     [Lit ''request'', Lit ''room'', RoomSeg, SiteSeg, Lit ''msg'', Lit ''get'']),
    (''MsgGetIDs'', \<lambda>a r s. Inr (MsgGetIDs a r s), MsgGetIDsPattern,
     [Lit ''request'', Lit ''room'', RoomSeg, SiteSeg, Lit ''msg'', Lit ''get'', Lit ''ids'']),
    (''MemberRoleUpdate'', \<lambda>a r s. Inr (MemberRoleUpdate a r s), MemberRoleUpdatePattern,
     [Lit ''request'', Lit ''room'', RoomSeg, SiteSeg, Lit ''member'', Lit ''role-update'']),
    (''RoomRename'', \<lambda>a r s. Inr (RoomRename a r s), RoomRenamePattern,
     [Lit ''request'', Lit ''room'', RoomSeg, SiteSeg, Lit ''room'', Lit ''rename'']),
    (''MemberRemove'', \<lambda>a r s. Inr (MemberRemove a r s), MemberRemovePattern,
     [Lit ''request'', Lit ''room'', RoomSeg, SiteSeg, Lit ''member'', Lit ''remove'']),
    (''MemberList'', \<lambda>a r s. Inr (MemberList a r s), MemberListPattern,
     [Lit ''request'', Lit ''room'', RoomSeg, SiteSeg, Lit ''member'', Lit ''list'']),
    (''RoomKeyGet'', \<lambda>a r s. Inr (RoomKeyGet a r s), RoomKeyGetPattern,
     [Lit ''request'', Lit ''room'', RoomSeg, SiteSeg, Lit ''key'', Lit ''get'']),
    (''MemberStatuses'', \<lambda>a r s. Inr (MemberStatuses a r s), MemberStatusesPattern,
     [Lit ''request'', Lit ''room'', RoomSeg, SiteSeg, Lit ''member'', Lit ''statuses'']),
    (''MentionableSubscriptions'', \<lambda>a r s. Inr (MentionableSubscriptions a r s), MentionableSubscriptionsPattern,
     [Lit ''request'', Lit ''room'', RoomSeg, SiteSeg, Lit ''subscription'', Lit ''mentionable'']),
    (''MsgHistory'', MsgHistory, MsgHistoryPattern,
     [Lit ''request'', Lit ''room'', RoomSeg, SiteSeg, Lit ''msg'', Lit ''history'']),
    (''MsgThread'', MsgThread, MsgThreadPattern,
     [Lit ''request'', Lit ''room'', RoomSeg, SiteSeg, Lit ''msg'', Lit ''thread'']),
    (''MsgEdit'', MsgEdit, MsgEditPattern,
     [Lit ''request'', Lit ''room'', RoomSeg, SiteSeg, Lit ''msg'', Lit ''edit'']),
    (''MsgDelete'', MsgDelete, MsgDeletePattern,
     [Lit ''request'', Lit ''room'', RoomSeg, SiteSeg, Lit ''msg'', Lit ''delete'']),
    (''MsgPin'', MsgPin, MsgPinPattern,
     [Lit ''request'', Lit ''room'', RoomSeg, SiteSeg, Lit ''msg'', Lit ''pin'']),
    (''MsgUnpin'', MsgUnpin, MsgUnpinPattern,
     [Lit ''request'', Lit ''room'', RoomSeg, SiteSeg, Lit ''msg'', Lit ''unpin'']),
    (''MsgPinnedList'', MsgPinnedList, MsgPinnedListPattern,
     [Lit ''request'', Lit ''room'', RoomSeg, SiteSeg, Lit ''msg'', Lit ''pinned'', Lit ''list'']),
    (''MsgReact'', MsgReact, MsgReactPattern,
     [Lit ''request'', Lit ''room'', RoomSeg, SiteSeg, Lit ''msg'', Lit ''react'']),
    (''MemberAdd'', \<lambda>a r s. Inr (MemberAdd a r s), MemberAddPattern,
     [Lit ''request'', Lit ''room'', RoomSeg, SiteSeg, Lit ''member'', Lit ''add'']),
    (''MessageRead'', \<lambda>a r s. Inr (MessageRead a r s), MessageReadPattern,
     [Lit ''request'', Lit ''room'', RoomSeg, SiteSeg, Lit ''message'', Lit ''read'']),
    (''MessageReadReceipt'', \<lambda>a r s. Inr (MessageReadReceipt a r s), MessageReadReceiptPattern,
     [Lit ''request'', Lit ''room'', RoomSeg, SiteSeg, Lit ''message'', Lit ''read-receipt'']),
    (''MessageThreadRead'', \<lambda>a r s. Inr (MessageThreadRead a r s), MessageThreadReadPattern,
     [Lit ''request'', Lit ''room'', RoomSeg, SiteSeg, Lit ''message'', Lit ''thread'', Lit ''read'']),
    (''MuteToggle'', \<lambda>a r s. Inr (MuteToggle a r s), MuteTogglePattern,
     [Lit ''request'', Lit ''room'', RoomSeg, SiteSeg, Lit ''mute'', Lit ''toggle'']),
    (''FavoriteToggle'', \<lambda>a r s. Inr (FavoriteToggle a r s), FavoriteTogglePattern,
     [Lit ''request'', Lit ''room'', RoomSeg, SiteSeg, Lit ''favorite'', Lit ''toggle'']),
    (''MoveChat'', \<lambda>a r s. Inr (MoveChat a r s), MoveChatPattern,
     [Lit ''request'', Lit ''room'', RoomSeg, SiteSeg, Lit ''chat'', Lit ''move'']),
    (''OpenRoom'', \<lambda>a r s. Inr (OpenRoom a r s), OpenRoomPattern,
     [Lit ''request'', Lit ''room'', RoomSeg, SiteSeg, Lit ''open'']),
    (''RoomAppTabs'', RoomAppTabs, RoomAppTabsPattern,
     [Lit ''request'', Lit ''room'', RoomSeg, SiteSeg, Lit ''app'', Lit ''tabs'']),
    (''RoomAppCmdMenu'', RoomAppCmdMenu, RoomAppCmdMenuPattern,
     [Lit ''request'', Lit ''room'', RoomSeg, SiteSeg, Lit ''app'', Lit ''cmd-menu'']),
    (''TeamsRoomCall'', TeamsRoomCall, TeamsRoomCallPattern,
     [Lit ''request'', Lit ''room'', RoomSeg, SiteSeg, Lit ''teams'', Lit ''call'']),
    (''TeamsMeeting'', TeamsMeeting, TeamsMeetingPattern,
     [Lit ''request'', Lit ''room'', RoomSeg, SiteSeg, Lit ''teams'', Lit ''meeting'']),
    (''RoomCreate'', \<lambda>a r s. Inr (RoomCreate a s), RoomCreatePattern,
     [Lit ''request'', Lit ''room'', SiteSeg, Lit ''create'']),
    (''SearchMessages'', \<lambda>a r s. Inr (SearchMessages a s), SearchMessagesPattern,
     [Lit ''request'', Lit ''search'', SiteSeg, Lit ''messages'']),
    (''SearchRooms'', \<lambda>a r s. Inr (SearchRooms a s), SearchRoomsPattern,
     [Lit ''request'', Lit ''search'', SiteSeg, Lit ''rooms'']),
    (''SearchApps'', \<lambda>a r s. Inr (SearchApps a s), SearchAppsPattern,
     [Lit ''request'', Lit ''search'', SiteSeg, Lit ''apps'']),
    (''SearchUsers'', \<lambda>a r s. Inr (SearchUsers a s), SearchUsersPattern,
     [Lit ''request'', Lit ''search'', SiteSeg, Lit ''users'']),
    (''SearchOrgs'', \<lambda>a r s. Inr (SearchOrgs a s), SearchOrgsPattern,
     [Lit ''request'', Lit ''search'', SiteSeg, Lit ''orgs'']),
    (''EmojiList'', \<lambda>a r s. EmojiList a s, EmojiListPattern,
     [Lit ''request'', Lit ''emoji'', SiteSeg, Lit ''list'']),
    (''EmojiDelete'', \<lambda>a r s. EmojiDelete a s, EmojiDeletePattern,
     [Lit ''request'', Lit ''emoji'', SiteSeg, Lit ''delete'']),
    (''TeamsUserCall'', \<lambda>a r s. TeamsUserCall a s, TeamsUserCallPattern,
     [Lit ''request'', Lit ''teams'', SiteSeg, Lit ''call'', Lit ''user'']),
    (''UserStatusGetByName'', \<lambda>a r s. UserStatusGetByName a s, UserStatusGetByNamePattern,
     [Lit ''request'', Lit ''user'', SiteSeg, Lit ''status'', Lit ''getByName'']),
    (''UserProfileGetByName'', \<lambda>a r s. UserProfileGetByName a s, UserProfileGetByNamePattern,
     [Lit ''request'', Lit ''user'', SiteSeg, Lit ''profile'', Lit ''getByName'']),
    (''UserStatusSet'', \<lambda>a r s. UserStatusSet a s, UserStatusSetPattern,
     [Lit ''request'', Lit ''user'', SiteSeg, Lit ''status'', Lit ''set'']),
    (''UserSubscriptionGetChannels'', \<lambda>a r s. UserSubscriptionGetChannels a s, UserSubscriptionGetChannelsPattern,
     [Lit ''request'', Lit ''user'', SiteSeg, Lit ''subscription'', Lit ''getChannels'']),
    (''UserSubscriptionGetDM'', \<lambda>a r s. UserSubscriptionGetDM a s, UserSubscriptionGetDMPattern,
     [Lit ''request'', Lit ''user'', SiteSeg, Lit ''subscription'', Lit ''getDM'']),
    (''UserSubscriptionCount'', \<lambda>a r s. UserSubscriptionCount a s, UserSubscriptionCountPattern,
     [Lit ''request'', Lit ''user'', SiteSeg, Lit ''subscription'', Lit ''count'']),
    (''UserAppsList'', \<lambda>a r s. UserAppsList a s, UserAppsListPattern,
     [Lit ''request'', Lit ''user'', SiteSeg, Lit ''apps'', Lit ''list'']),
    (''UserAppsCategories'', \<lambda>a r s. UserAppsCategories a s, UserAppsCategoriesPattern,
     [Lit ''request'', Lit ''user'', SiteSeg, Lit ''apps'', Lit ''categories'']),
    (''UserSSOSet'', \<lambda>a r s. UserSSOSet a s, UserSSOSetPattern,
     [Lit ''request'', Lit ''user'', SiteSeg, Lit ''sso'', Lit ''set'']),
    (''UserSSORefresh'', \<lambda>a r s. UserSSORefresh a s, UserSSORefreshPattern,
     [Lit ''request'', Lit ''user'', SiteSeg, Lit ''sso'', Lit ''refresh'']),
    (''UserMe'', \<lambda>a r s. UserMe a s, UserMePattern,
     [Lit ''request'', Lit ''user'', SiteSeg, Lit ''me'']),
    (''UserSubscriptionList'', \<lambda>a r s. UserSubscriptionList a s, UserSubscriptionListPattern,
     [Lit ''request'', Lit ''user'', SiteSeg, Lit ''subscription'', Lit ''list'']),
    (''UserSettingsGet'', \<lambda>a r s. UserSettingsGet a s, UserSettingsGetPattern,
     [Lit ''request'', Lit ''user'', SiteSeg, Lit ''settings'', Lit ''get'']),
    (''UserSettingsSet'', \<lambda>a r s. UserSettingsSet a s, UserSettingsSetPattern,
     [Lit ''request'', Lit ''user'', SiteSeg, Lit ''settings'', Lit ''set'']),
    (''UserPriorityContactsGet'', \<lambda>a r s. UserPriorityContactsGet a s, UserPriorityContactsGetPattern,
     [Lit ''request'', Lit ''user'', SiteSeg, Lit ''settings'', Lit ''priorityContacts'', Lit ''get'']),
    (''UserPriorityContactsAdd'', \<lambda>a r s. UserPriorityContactsAdd a s, UserPriorityContactsAddPattern,
     [Lit ''request'', Lit ''user'', SiteSeg, Lit ''settings'', Lit ''priorityContacts'', Lit ''add'']),
    (''UserPriorityContactsRemove'', \<lambda>a r s. UserPriorityContactsRemove a s, UserPriorityContactsRemovePattern,
     [Lit ''request'', Lit ''user'', SiteSeg, Lit ''settings'', Lit ''priorityContacts'', Lit ''remove'']),
    (''UserChatlistGet'', \<lambda>a r s. UserChatlistGet a s, UserChatlistGetPattern,
     [Lit ''request'', Lit ''user'', SiteSeg, Lit ''chatlist'', Lit ''get'']),
    (''UserChatlistSectionCreate'', \<lambda>a r s. UserChatlistSectionCreate a s, UserChatlistSectionCreatePattern,
     [Lit ''request'', Lit ''user'', SiteSeg, Lit ''chatlist'', Lit ''section'', Lit ''create'']),
    (''UserChatlistSectionDelete'', \<lambda>a r s. UserChatlistSectionDelete a s, UserChatlistSectionDeletePattern,
     [Lit ''request'', Lit ''user'', SiteSeg, Lit ''chatlist'', Lit ''section'', Lit ''delete'']),
    (''UserChatlistSectionRename'', \<lambda>a r s. UserChatlistSectionRename a s, UserChatlistSectionRenamePattern,
     [Lit ''request'', Lit ''user'', SiteSeg, Lit ''chatlist'', Lit ''section'', Lit ''rename'']),
    (''UserChatlistSectionReorder'', \<lambda>a r s. UserChatlistSectionReorder a s, UserChatlistSectionReorderPattern,
     [Lit ''request'', Lit ''user'', SiteSeg, Lit ''chatlist'', Lit ''section'', Lit ''reorder'']),
    (''UserChatlistSectionSetSortMode'', \<lambda>a r s. UserChatlistSectionSetSortMode a s, UserChatlistSectionSetSortModePattern,
     [Lit ''request'', Lit ''user'', SiteSeg, Lit ''chatlist'', Lit ''section'', Lit ''setsortmode'']),
    (''UserThreadList'', \<lambda>a r s. UserThreadList a s, UserThreadListPattern,
     [Lit ''request'', Lit ''user'', SiteSeg, Lit ''thread'', Lit ''list'']),
    (''UserThreadUnreadSummary'', \<lambda>a r s. UserThreadUnreadSummary a s, UserThreadUnreadSummaryPattern,
     [Lit ''request'', Lit ''user'', SiteSeg, Lit ''thread'', Lit ''unread'', Lit ''summary'']),
    (''UserThreadReadAll'', \<lambda>a r s. UserThreadReadAll a s, UserThreadReadAllPattern,
     [Lit ''request'', Lit ''user'', SiteSeg, Lit ''thread'', Lit ''read'', Lit ''all'']),
    (''UserSubscriptionSetAppSubscription'', \<lambda>a r s. UserSubscriptionSetAppSubscription a s, UserSubscriptionSetAppSubscriptionPattern,
     [Lit ''request'', Lit ''user'', SiteSeg, Lit ''subscription'', Lit ''setAppSubscription'']),
    (''UserSubscriptionGetByRoomID'', \<lambda>a r s. UserSubscriptionGetByRoomID a s, UserSubscriptionGetByRoomIDPattern,
     [Lit ''request'', Lit ''user'', SiteSeg, Lit ''subscription'', Lit ''getByRoomID'']),
    (''TranslateRequest'', \<lambda>a r s. Inr (TranslateRequest a s), TranslateRequestPattern,
     [Lit ''request'', Lit ''translate'', SiteSeg, Lit ''text''])]"

lemmas fmt_eval = Split_append_sep Split_no_sep plain_token_def builder_defs pattern_defs

interpretation msg_edit: rpc MsgEdit MsgEditPattern
  "[Lit ''request'', Lit ''room'', RoomSeg, SiteSeg, Lit ''msg'', Lit ''edit'']"
  by unfold_locales (simp_all add: fmt_eval)

lemma rpcs_rpc: "(n, b, p, gs) \<in> set rpcs \<Longrightarrow> rpc b p gs"
proof -
  have "list_all (\<lambda>(n, b, p, gs). rpc b p gs) rpcs"
    unfolding rpcs_def list.pred_inject prod.case
    by (intro conjI TrueI; unfold_locales; simp add: fmt_eval)
  then show "(n, b, p, gs) \<in> set rpcs \<Longrightarrow> rpc b p gs" by (auto simp: list_all_iff)
qed

lemma compatible_commute: "compatible g g' = compatible g' g"
  by (induction g g' rule: compatible.induct) auto

definition rpc_segs :: "(string \<times> seg list) list" where
  "rpc_segs = map (\<lambda>(n, b, p, g). (n, g)) rpcs"

lemma rpc_segs_apart: "sorted_wrt (\<lambda>(n, g) (n', g'). \<not> compatible g g') rpc_segs"
  unfolding rpc_segs_def rpcs_def list.map prod.case
  by code_simp

lemma sorted_wrt_sym_apart:
  assumes "sorted_wrt P xs" "\<And>x y. P x y \<Longrightarrow> P y x" "x \<in> set xs" "y \<in> set xs" "x \<noteq> y"
  shows "P x y"
  using assms by (induction xs) auto

lemma rpc_segs_unique:
  assumes "(n, g) \<in> set rpc_segs" "(n', g') \<in> set rpc_segs" "compatible g g'"
  shows "n = n' \<and> g = g'"
proof (rule ccontr)
  assume "\<not> (n = n' \<and> g = g')"
  then have "(n, g) \<noteq> (n', g')" by blast
  from sorted_wrt_sym_apart [OF rpc_segs_apart _ assms(1,2) this] assms(3)
  show False by (auto simp: compatible_commute)
qed

lemma rpc_segs_have_site: "(n, g) \<in> set rpc_segs \<Longrightarrow> SiteSeg \<in> set g"
proof -
  have "list_all (\<lambda>(n, g). SiteSeg \<in> set g) rpc_segs"
    unfolding rpc_segs_def rpcs_def list.map prod.case by simp
  then show "(n, g) \<in> set rpc_segs \<Longrightarrow> SiteSeg \<in> set g" by (auto simp: list_all_iff)
qed

text \<open>The patterns whose wildcard form is also written out by hand.\<close>

definition route_wildcards :: "((string \<Rightarrow> string) \<times> (string \<Rightarrow> string)) list" where
  "route_wildcards =
   [(MsgGetPattern, MsgGetWildcard),
    (MemberRoleUpdatePattern, MemberRoleUpdateWildcard),
    (RoomRenamePattern, RoomRenameWildcard),
    (MemberRemovePattern, MemberRemoveWildcard),
    (MemberListPattern, MemberListWildcard),
    (RoomKeyGetPattern, RoomKeyGetWildcard),
    (MemberStatusesPattern, MemberStatusesWildcard),
    (MentionableSubscriptionsPattern, MentionableSubscriptionsWildcard),
    (MsgHistoryPattern, MsgHistoryWildcard),
    (MsgThreadPattern, MsgThreadWildcard),
    (MemberAddPattern, MemberAddWildcard),
    (MessageReadPattern, MessageReadWildcard),
    (MessageReadReceiptPattern, MessageReadReceiptWildcard),
    (MessageThreadReadPattern, MessageThreadReadWildcard),
    (MuteTogglePattern, MuteToggleWildcard),
    (FavoriteTogglePattern, FavoriteToggleWildcard),
    (OpenRoomPattern, OpenRoomWildcard),
    (RoomAppTabsPattern, RoomAppTabsWildcard),
    (RoomAppCmdMenuPattern, RoomAppCmdMenuWildcard),
    (RoomCreatePattern, RoomCreateWildcard),
    (MsgThreadParentPattern, MsgThreadParentWildcard),
    (OrgMembersPattern, OrgMembersWildcard)]"

section \<open>Properties\<close>



text \<open>no request reaches two handlers. If the route registered for one RPC at one site
  accepts a request built for an RPC at a site, then it is the same RPC and the same site.\<close>

theorem rpc_unique_handler:
  assumes "(n, build, pattern, segs) \<in> set rpcs" "(n', build', pattern', segs') \<in> set rpcs"
    and "isValidAccountToken a" "isValidAccountToken r" "isValidAccountToken s'"
    and "build' a r s' = Inr subj"
    and "isValidAccountToken s" "\<not> is_placeholder s" "nats_rules matches"
    and "matches (natsSubject (parsePattern (pattern s))) subj"
  shows "n = n' \<and> s = s'"
proof -
  have rpc: "rpc build pattern segs" "rpc build' pattern' segs'"
    using assms(1,2) rpcs_rpc by blast+
  have "Split CHR ''.'' subj = ''chat'' # ''user'' # a # map (seg_token r s') segs'"
    using rpc.build_tokens [OF rpc(2), of a r s'] assms(3-6) by auto
  then have m: "tokens_match (map (seg_token ''*'' s) segs) (map (seg_token r s') segs')"
    using assms(7-10) rpc.pattern_route_tokens [OF rpc(1), of s]
    by (simp add: nats_rules_def)
  have wild: "s \<noteq> ''>''" "s \<noteq> ''*''"
    using assms(7) valid_token_no_gt [of s] valid_token_no_star [of s] by auto
  have rows: "(n, segs) \<in> set rpc_segs" "(n', segs') \<in> set rpc_segs"
    using assms(1,2) by (force simp: rpc_segs_def)+
  have "n = n' \<and> segs = segs'"
    using rpc_segs_unique [OF rows] tokens_match_compatible [OF m _ wild(1)]
      rpc.segs_plain [OF rpc(1)] by blast
  moreover from this have "s = s'"
    using tokens_match_same_site [OF _ rpc.segs_plain [OF rpc(1)] wild] m
      rpc_segs_have_site [OF rows(1)] by blast
  ultimately show ?thesis by blast
qed

theorem rpc_unique_handler_witness:
  "tokens_match (Split CHR ''.'' (natsSubject (parsePattern (MsgEditPattern ''site-a''))))
     (Split CHR ''.'' ''chat.user.alice.request.room.r1.site-a.msg.edit'') \<and> ''site-a'' = ''site-a''"
proof -
  let ?m = "\<lambda>p s. tokens_match (Split CHR ''.'' p) (Split CHR ''.'' s)"
  have row: "(''MsgEdit'', MsgEdit, MsgEditPattern,
     [Lit ''request'', Lit ''room'', RoomSeg, SiteSeg, Lit ''msg'', Lit ''edit'']) \<in> set rpcs"
    by (simp add: rpcs_def)
  have v: "isValidAccountToken ''alice''" "isValidAccountToken ''r1''" "isValidAccountToken ''site-a''"
    by (simp_all add: token_eval)
  have subj: "MsgEdit ''alice'' ''r1'' ''site-a''
      = Inr ''chat.user.alice.request.room.r1.site-a.msg.edit''"
    using v(1) by (simp add: MsgEdit_def msgRequest_def)
  have rules: "nats_rules ?m" by (simp add: nats_rules_def)
  have np: "\<not> is_placeholder ''site-a''" by simp
  have m: "?m (natsSubject (parsePattern (MsgEditPattern ''site-a'')))
      ''chat.user.alice.request.room.r1.site-a.msg.edit''"
    using msg_edit.request_matches [OF v(1) _ _ np subj rules] by simp
  from rpc_unique_handler [OF row row v subj v(3) np rules m] m show ?thesis by simp
qed

text \<open>the index scan that cuts parameters out of a subject computes exactly what splitting the
  subject at its dots would.\<close>

theorem extractParams_is_split: "extractParams r subj = assign_tokens (params r) 0 (Split CHR ''.'' subj) []"
  by (simp add: extractParams_split extract_by_split_def)

text \<open>the hand-written wildcard subscriptions are the wildcard forms of the registered
  patterns.\<close>

theorem pattern_wildcards_agree:
  assumes "(p, w) \<in> set route_wildcards" "CHR ''.'' \<notin> set s" "\<not> is_placeholder s"
  shows "natsSubject (parsePattern (p s)) = w s"
proof -
  have "list_all (\<lambda>(p, w). natsSubject (parsePattern (p s)) = w s) route_wildcards"
    unfolding route_wildcards_def list.pred_inject prod.case
    using assms(2,3)
    by (intro conjI TrueI; simp add: parsePattern_def Split_append_sep Split_no_sep pattern_defs)
  then show ?thesis using assms(1) by (auto simp: list_all_iff)
qed

theorem pattern_wildcards_agree_witness:
  "natsSubject (parsePattern (MemberAddPattern ''site-a'')) = ''chat.user.*.request.room.*.site-a.member.add''"
proof -
  have "(MemberAddPattern, MemberAddWildcard) \<in> set route_wildcards"
    by (simp add: route_wildcards_def)
  from pattern_wildcards_agree [OF this, of "''site-a''"] show ?thesis
    by (simp add: MemberAddWildcard_def)
qed

end
