(* ===== verification/Mongo_Model.thy ===== *)
theory Mongo_Model
  imports Chat_Prelude Complex_Main "HOL-Library.List_Lexorder" "HOL-Library.Char_ord"
begin

text \<open>
  The MongoDB side of the stores. The filters and updates the Go code hands to the driver are data
  (\<open>bson.M\<close> values), so they are data here: \<open>filt\<close> and \<open>update\<close>. The server and its driver are
  not part of the sources: a collection handle is a record of functions, an argument of every store
  operation, and \<open>mongo_laws\<close> says what the code relies on: what a filter selects, what an update
  does to a document, that a unique index refuses a second document, and that a call that fails may
  have written nothing, everything or a part. A dotted path such as \<open>u.account\<close> is one field name.
\<close>

section \<open>Documents, filters, updates\<close>

datatype bson =
    BNull
  | BBool bool
  | BInt int
  | BFloat rat
  | BTime int
  | BStr string
  | BArr "bson list"
  | BDoc "(string \<times> bson) list"

type_synonym doc = "string \<rightharpoonup> bson"

datatype filt =
    FEq string bson
  | FIn string "bson list"
  | FExists string bool
  | FLt string bson
  | FLte string bson
  | FNotGte string bson
  | FHasElem string
  | FOr "filt list"
  | FAnd "filt list"

datatype expr =
    EConst bson
  | EField string
  | ERemove
  | ECondEq string bson expr expr
  | EIfNull expr expr
  | ECond expr expr expr expr

datatype upd_op =
    USet "(string \<times> bson) list"
  | USetDoc string "(string \<times> bson) list"
  | UUnset "string list"
  | UMax "(string \<times> bson) list"
  | UAddToSet string bson
  | UPull string bson
  | USetOnInsert "(string \<times> bson) list"
  | UPipeSet "(string \<times> expr) list"

type_synonym update = "upd_op list"

datatype merr = DuplicateKey | DriverErr string

record mongo_collection =
  UpdateOne :: "filt \<Rightarrow> update \<Rightarrow> doc list \<Rightarrow> (merr + nat) \<times> doc list"
  UpsertOne :: "filt \<Rightarrow> update \<Rightarrow> doc list \<Rightarrow> (merr + nat) \<times> doc list"
  UpdateMany :: "filt \<Rightarrow> update \<Rightarrow> doc list \<Rightarrow> (merr + nat) \<times> doc list"
  FindOneAndUpdate :: "filt \<Rightarrow> update \<Rightarrow> doc list \<Rightarrow> (merr + doc option) \<times> doc list"
  BulkWrite :: "(filt \<times> update \<times> bool) list \<Rightarrow> doc list \<Rightarrow> (merr + nat) \<times> doc list"
  InsertOne :: "doc \<Rightarrow> doc list \<Rightarrow> (merr + nat) \<times> doc list"
  DeleteOne :: "filt \<Rightarrow> doc list \<Rightarrow> (merr + nat) \<times> doc list"
  DeleteMany :: "filt \<Rightarrow> doc list \<Rightarrow> (merr + nat) \<times> doc list"
  FindOne :: "filt \<Rightarrow> doc list \<Rightarrow> merr + doc option"
  Find :: "filt \<Rightarrow> doc list \<Rightarrow> merr + doc list"

section \<open>The documented meaning of filters and updates\<close>

fun bson_less :: "bson \<Rightarrow> bson \<Rightarrow> bool" where
  "bson_less (BInt x) (BInt y) = (x < y)"
| "bson_less (BTime x) (BTime y) = (x < y)"
| "bson_less (BBool x) (BBool y) = (\<not> x \<and> y)"
| "bson_less (BStr x) (BStr y) = (x < y)"
| "bson_less _ _ = False"

definition field_is :: "doc \<Rightarrow> string \<Rightarrow> bson \<Rightarrow> bool" where
  "field_is d f v \<longleftrightarrow> (case d f of None \<Rightarrow> v = BNull
     | Some w \<Rightarrow> w = v \<or> (case w of BArr ws \<Rightarrow> v \<in> set ws | _ \<Rightarrow> False))"

fun sat :: "filt \<Rightarrow> doc \<Rightarrow> bool" where
  "sat (FEq f v) d = field_is d f v"
| "sat (FIn f vs) d = (\<exists>v \<in> set vs. field_is d f v)"
| "sat (FExists f b) d = ((d f \<noteq> None) = b)"
| "sat (FLt f v) d = (case d f of None \<Rightarrow> False | Some w \<Rightarrow> bson_less w v)"
| "sat (FLte f v) d = (case d f of None \<Rightarrow> False | Some w \<Rightarrow> w = v \<or> bson_less w v)"
| "sat (FNotGte f v) d = (case d f of None \<Rightarrow> True | Some w \<Rightarrow> \<not> (w = v \<or> bson_less v w))"
| "sat (FHasElem f) d = (case d f of Some (BArr (_ # _)) \<Rightarrow> True | _ \<Rightarrow> False)"
| "sat (FOr fs) d = (\<exists>f \<in> set fs. sat f d)"
| "sat (FAnd fs) d = (\<forall>f \<in> set fs. sat f d)"

definition set_fields :: "(string \<times> bson) list \<Rightarrow> doc \<Rightarrow> doc" where
  "set_fields kvs d = fold (\<lambda>(k, v) d. d(k \<mapsto> v)) kvs d"

text \<open>Setting a whole sub-document replaces everything below its path.\<close>

definition below :: "string \<Rightarrow> string \<Rightarrow> bool" where
  "below p f \<longleftrightarrow> take (length p + 1) f = p @ ''.''"

definition set_subdoc :: "string \<Rightarrow> (string \<times> bson) list \<Rightarrow> doc \<Rightarrow> doc" where
  "set_subdoc p kvs d = set_fields (map (\<lambda>(k, v). (p @ ''.'' @ k, v)) kvs)
     (\<lambda>f. if f = p \<or> below p f then None else d f)"

definition max_field :: "string \<Rightarrow> bson \<Rightarrow> doc \<Rightarrow> doc" where
  "max_field f v d =
     (case d f of None \<Rightarrow> d(f \<mapsto> v) | Some w \<Rightarrow> if bson_less w v then d(f \<mapsto> v) else d)"

fun eval_expr :: "doc \<Rightarrow> expr \<Rightarrow> bson option" where
  "eval_expr d (EConst v) = Some v"
| "eval_expr d (EField f) = d f"
| "eval_expr d ERemove = None"
| "eval_expr d (ECondEq f v e1 e2) = (if d f = Some v then eval_expr d e1 else eval_expr d e2)"
| "eval_expr d (EIfNull e1 e2) =
     (case eval_expr d e1 of None \<Rightarrow> eval_expr d e2 | Some BNull \<Rightarrow> eval_expr d e2 | Some v \<Rightarrow> Some v)"
| "eval_expr d (ECond l r e1 e2) = (if eval_expr d l = eval_expr d r then eval_expr d e1 else eval_expr d e2)"

fun apply_op :: "bool \<Rightarrow> upd_op \<Rightarrow> doc \<Rightarrow> doc" where
  "apply_op ins (USet kvs) d = set_fields kvs d"
| "apply_op ins (USetDoc p kvs) d = set_subdoc p kvs d"
| "apply_op ins (UUnset fs) d = d |` (- set fs)"
| "apply_op ins (UMax kvs) d = fold (\<lambda>(k, v). max_field k v) kvs d"
| "apply_op ins (UAddToSet f v) d =
     (case d f of None \<Rightarrow> d(f \<mapsto> BArr [v])
      | Some (BArr vs) \<Rightarrow> if v \<in> set vs then d else d(f \<mapsto> BArr (vs @ [v]))
      | Some w \<Rightarrow> d)"
| "apply_op ins (UPull f v) d =
     (case d f of Some (BArr vs) \<Rightarrow> d(f \<mapsto> BArr (removeAll v vs)) | _ \<Rightarrow> d)"
| "apply_op ins (USetOnInsert kvs) d = (if ins then set_fields kvs d else d)"
| "apply_op ins (UPipeSet kes) d = fold (\<lambda>(k, e) d'. d'(k := eval_expr d e)) kes d"

definition apply_update :: "bool \<Rightarrow> update \<Rightarrow> doc \<Rightarrow> doc" where
  "apply_update ins u d = fold (apply_op ins) u d"

abbreviation upd :: "update \<Rightarrow> doc \<Rightarrow> doc" where
  "upd u d \<equiv> apply_update False u d"

text \<open>What a filter pins by equality, which an upsert starts the new document from.\<close>

fun eq_fields :: "filt \<Rightarrow> (string \<times> bson) list" where
  "eq_fields (FEq f v) = [(f, v)]"
| "eq_fields (FAnd fs) = concat (map eq_fields fs)"
| "eq_fields _ = []"

definition new_doc :: "filt \<Rightarrow> update \<Rightarrow> doc" where
  "new_doc f u = apply_update True u (set_fields (eq_fields f) Map.empty)"

type_synonym unique_keys = "string list list"

definition conflicts :: "unique_keys \<Rightarrow> doc \<Rightarrow> doc list \<Rightarrow> bool" where
  "conflicts keys d c \<longleftrightarrow> (\<exists>k \<in> set keys. \<exists>d' \<in> set c. \<forall>f \<in> set k. d' f = d f)"

text \<open>Documents of a collection differ in every unique key.\<close>

definition unique :: "unique_keys \<Rightarrow> doc list \<Rightarrow> bool" where
  "unique keys c \<longleftrightarrow> (\<forall>k \<in> set keys. distinct (map (\<lambda>d. map d k) c))"

definition matching :: "filt \<Rightarrow> doc list \<Rightarrow> nat" where
  "matching f c = length (filter (sat f) c)"

definition update_where :: "filt \<Rightarrow> update \<Rightarrow> doc list \<Rightarrow> doc list" where
  "update_where f u c = map (\<lambda>d. if sat f d then upd u d else d) c"

definition upsert_where :: "unique_keys \<Rightarrow> filt \<Rightarrow> update \<Rightarrow> doc list \<Rightarrow> (merr + nat) \<times> doc list" where
  "upsert_where keys f u c =
     (if matching f c > 0 then (Inr (matching f c), update_where f u c)
      else if conflicts keys (new_doc f u) c then (Inl DuplicateKey, c)
      else (Inr 0, c @ [new_doc f u]))"

text \<open>What a failed multi-document write may leave behind.\<close>

definition partly_updated :: "filt \<Rightarrow> update \<Rightarrow> doc list \<Rightarrow> doc list \<Rightarrow> bool" where
  "partly_updated f u c c' \<longleftrightarrow> list_all2 (\<lambda>d d'. d' = d \<or> sat f d \<and> d' = upd u d) c c'"

section \<open>What the code relies on\<close>

definition update_law :: "filt \<Rightarrow> update \<Rightarrow> doc list \<Rightarrow> (merr + nat) \<times> doc list \<Rightarrow> bool" where
  "update_law f u c r \<longleftrightarrow> (case r of
     (Inr n, c') \<Rightarrow> n = matching f c \<and> c' = update_where f u c
   | (Inl e, c') \<Rightarrow> partly_updated f u c c')"

definition delete_law :: "filt \<Rightarrow> doc list \<Rightarrow> (merr + nat) \<times> doc list \<Rightarrow> bool" where
  "delete_law f c r \<longleftrightarrow> (case r of
     (Inr n, c') \<Rightarrow> n = matching f c \<and> c' = filter (\<lambda>d. \<not> sat f d) c
   | (Inl e, c') \<Rightarrow> (\<exists>P. c' = filter (\<lambda>d. \<not> (sat f d \<and> P d)) c))"

text \<open>A bulk write is unordered: the server may take the models in any order, and a duplicate-key
  failure of one does not stop the others. The effect of one write model: an update, or an upsert whose duplicate-key
  failure leaves the collection alone.\<close>

definition bulk_effect :: "unique_keys \<Rightarrow> filt \<times> update \<times> bool \<Rightarrow> doc list \<Rightarrow> doc list" where
  "bulk_effect keys w c =
     (case w of (f, u, upsert) \<Rightarrow> if upsert then snd (upsert_where keys f u c) else update_where f u c)"

definition mongo_laws :: "unique_keys \<Rightarrow> mongo_collection \<Rightarrow> bool" where
  "mongo_laws keys m \<longleftrightarrow>
     (\<forall>f u c. matching f c \<le> 1 \<longrightarrow> update_law f u c (UpdateOne m f u c))
   \<and> (\<forall>f u c. update_law f u c (UpdateMany m f u c))
   \<and> (\<forall>f u c. matching f c \<le> 1 \<longrightarrow>
        (case UpsertOne m f u c of
           (Inr n, c') \<Rightarrow> upsert_where keys f u c = (Inr n, c')
         | (Inl DuplicateKey, c') \<Rightarrow> upsert_where keys f u c = (Inl DuplicateKey, c')
         | (Inl (DriverErr e), c') \<Rightarrow> c' = c \<or> c' = snd (upsert_where keys f u c)))
   \<and> (\<forall>f u c. matching f c \<le> 1 \<longrightarrow>
        (case FindOneAndUpdate m f u c of
           (Inr r, c') \<Rightarrow> r = map_option (upd u) (find (sat f) c) \<and> c' = update_where f u c
         | (Inl e, c') \<Rightarrow> partly_updated f u c c'))
   \<and> (\<forall>ws c. case BulkWrite m ws c of
           (Inl (DriverErr e), c') \<Rightarrow> (\<exists>ws'. mset ws' \<subseteq># mset ws \<and> c' = fold (bulk_effect keys) ws' c)
         | (_, c') \<Rightarrow> (\<exists>ws'. mset ws' = mset ws \<and> c' = fold (bulk_effect keys) ws' c))
   \<and> (\<forall>f c. matching f c \<le> 1 \<longrightarrow> delete_law f c (DeleteOne m f c))
   \<and> (\<forall>f c. delete_law f c (DeleteMany m f c))
   \<and> (\<forall>f c r. FindOne m f c = Inr r \<longrightarrow> r = find (sat f) c)
   \<and> (\<forall>f c r. Find m f c = Inr r \<longrightarrow> r = filter (sat f) c)"

text \<open>A handle that follows the laws and never fails; the concrete instances of the development
  are built on it.\<close>

definition mongo_ok :: "unique_keys \<Rightarrow> mongo_collection" where
  "mongo_ok keys = \<lparr>
     UpdateOne = (\<lambda>f u c. (Inr (matching f c), update_where f u c)),
     UpsertOne = upsert_where keys,
     UpdateMany = (\<lambda>f u c. (Inr (matching f c), update_where f u c)),
     FindOneAndUpdate = (\<lambda>f u c. (Inr (map_option (upd u) (find (sat f) c)), update_where f u c)),
     BulkWrite = (\<lambda>ws c. (Inr (length ws), fold (bulk_effect keys) ws c)),
     InsertOne = (\<lambda>d c. if conflicts keys d c then (Inl DuplicateKey, c) else (Inr 1, c @ [d])),
     DeleteOne = (\<lambda>f c. (Inr (matching f c), filter (\<lambda>d. \<not> sat f d) c)),
     DeleteMany = (\<lambda>f c. (Inr (matching f c), filter (\<lambda>d. \<not> sat f d) c)),
     FindOne = (\<lambda>f c. Inr (find (sat f) c)),
     Find = (\<lambda>f c. Inr (filter (sat f) c))\<rparr>"

lemma mongo_ok_laws: "mongo_laws keys (mongo_ok keys)"
  by (auto simp: mongo_laws_def mongo_ok_def update_law_def delete_law_def upsert_where_def
      split: sum.splits merr.splits prod.splits if_splits)

section \<open>Consequences of the laws\<close>

lemma UpdateOne_success:
  assumes "mongo_laws keys m" "matching f c \<le> 1" "UpdateOne m f u c = (Inr n, c')"
  shows "n = matching f c \<and> c' = update_where f u c"
proof -
  from assms(1,2) have "update_law f u c (UpdateOne m f u c)" by (simp add: mongo_laws_def)
  with assms(3) show ?thesis by (simp add: update_law_def)
qed

lemma UpdateMany_success:
  assumes "mongo_laws keys m" "UpdateMany m f u c = (Inr n, c')"
  shows "n = matching f c \<and> c' = update_where f u c"
proof -
  from assms(1) have "update_law f u c (UpdateMany m f u c)" by (simp add: mongo_laws_def)
  with assms(2) show ?thesis by (simp add: update_law_def)
qed

lemma FindOne_success: "mongo_laws keys m \<Longrightarrow> FindOne m f c = Inr r \<Longrightarrow> r = find (sat f) c"
  by (simp add: mongo_laws_def)

lemma Find_success: "mongo_laws keys m \<Longrightarrow> Find m f c = Inr r \<Longrightarrow> r = filter (sat f) c"
  by (simp add: mongo_laws_def)

lemma matching_0_iff: "matching f c = 0 \<longleftrightarrow> (\<forall>d \<in> set c. \<not> sat f d)"
  by (auto simp: matching_def filter_empty_conv)

lemma find_None_iff_matching: "find (sat f) c = None \<longleftrightarrow> matching f c = 0"
  by (auto simp: matching_0_iff find_None_iff)

lemma update_where_none: "matching f c = 0 \<Longrightarrow> update_where f u c = c"
  by (auto simp: matching_0_iff update_where_def intro: map_idI)

text \<open>A filter that pins a unique key selects at most one document.\<close>

lemma distinct_map_filter_le_1: "distinct (map g c) \<Longrightarrow> length (filter (\<lambda>d. g d = v) c) \<le> 1"
proof (induction c)
  case (Cons a c)
  show ?case
  proof (cases "g a = v")
    case True
    then have "filter (\<lambda>d. g d = v) c = []"
      using Cons.prems by (auto simp: filter_empty_conv image_iff)
    with True show ?thesis by simp
  next
    case False
    with Cons show ?thesis by simp
  qed
qed simp

lemma unique_key_matching:
  assumes "unique keys c" "k \<in> set keys" "\<And>d. d \<in> set c \<Longrightarrow> sat f d \<Longrightarrow> map d k = vs"
  shows "matching f c \<le> 1"
proof -
  have d: "distinct (map (\<lambda>d. map d k) c)" using assms(1,2) by (auto simp: unique_def)
  have "length (filter (\<lambda>d. map d k = vs) c) \<le> 1"
    using distinct_map_filter_le_1 [OF d] .
  moreover have "length (filter (sat f) c) \<le> length (filter (\<lambda>d. map d k = vs) c)"
    using assms(3) by (induction c) auto
  ultimately show ?thesis by (simp add: matching_def)
qed

end
