(* ===== verification/Chat_Model.thy ===== *)
theory Chat_Model
  imports Go_Strings Mongo_Model
begin

text \<open>
  The data of \<open>src/pkg/model\<close> the federation path carries: rooms, subscriptions, thread
  subscriptions, permissions, chat-list state, and the payloads of the cross-site events, with the
  small classifiers the package defines on them. A Go struct is a record whose fields carry a short
  prefix (field names are global in a theory); a pointer that may be nil is an \<open>option\<close>; a
  \<open>time.Time\<close> is its Unix millisecond count, which is the precision BSON stores. The functions
  named \<open>..._fields\<close> are the BSON encoding of a struct, \<open>omitempty\<close> included.
\<close>

section \<open>Roles and room types\<close>

type_synonym Role = string
type_synonym RoomType = string

definition RoleOwner :: Role where "RoleOwner = ''owner''"
definition RoleAdmin :: Role where "RoleAdmin = ''admin''"
definition RoleUser :: Role where "RoleUser = ''user''"
definition RoleMember :: Role where "RoleMember = ''member''"

definition NormalizeRole :: "Role \<Rightarrow> Role" where
  "NormalizeRole r = (if r = RoleMember then RoleUser else r)"

definition NormalizeRoles :: "Role list option \<Rightarrow> Role list option" where
  "NormalizeRoles roles = (case roles of None \<Rightarrow> None | Some rs \<Rightarrow> Some (map NormalizeRole rs))"

definition RoomTypeChannel :: RoomType where "RoomTypeChannel = ''channel''"
definition RoomTypeDM :: RoomType where "RoomTypeDM = ''dm''"
definition RoomTypeBotDM :: RoomType where "RoomTypeBotDM = ''botDM''"
definition RoomTypeDiscussion :: RoomType where "RoomTypeDiscussion = ''discussion''"

lemmas room_type_defs = RoomTypeChannel_def RoomTypeDM_def RoomTypeBotDM_def RoomTypeDiscussion_def
lemmas role_defs = RoleOwner_def RoleAdmin_def RoleUser_def RoleMember_def

definition IsBot :: "string \<Rightarrow> bool" where
  "IsBot account = HasSuffix account ''.bot''"

definition SubscriptionRoomType :: "string \<Rightarrow> RoomType" where
  "SubscriptionRoomType counterpart = (if IsBot counterpart then RoomTypeBotDM else RoomTypeDM)"

definition IsAppRoom :: "RoomType \<Rightarrow> string \<Rightarrow> bool" where
  "IsAppRoom t name \<longleftrightarrow> t = RoomTypeBotDM \<and> IsBot name"

definition EffectiveRoomType :: "RoomType \<Rightarrow> string \<Rightarrow> RoomType" where
  "EffectiveRoomType t name = (if t = RoomTypeBotDM then SubscriptionRoomType name else t)"

definition DMRoomType :: "string \<Rightarrow> string \<Rightarrow> RoomType" where
  "DMRoomType a b = (if IsBot a \<or> IsBot b then RoomTypeBotDM else RoomTypeDM)"

definition SubscriptionRowType :: "RoomType \<Rightarrow> string \<Rightarrow> RoomType" where
  "SubscriptionRowType roomType counterpart =
     (if roomType = RoomTypeDM \<or> roomType = RoomTypeBotDM then SubscriptionRoomType counterpart
      else roomType)"

record CreateRoomRequest =
  cr_Name :: string
  cr_Orgs :: "string list"
  cr_Channels :: "string list"
  cr_Users :: "string list"
  cr_RequesterAccount :: string

definition CreateRoomType :: "CreateRoomRequest \<Rightarrow> RoomType" where
  "CreateRoomType req =
     (if cr_Name req = '''' \<and> cr_Orgs req = [] \<and> cr_Channels req = [] \<and> length (cr_Users req) = 1
      then DMRoomType (cr_RequesterAccount req) (cr_Users req ! 0)
      else RoomTypeChannel)"

definition IsHiddenThreadReply :: "string \<Rightarrow> bool \<Rightarrow> bool" where
  "IsHiddenThreadReply threadParentMessageID tShow \<longleftrightarrow> threadParentMessageID \<noteq> '''' \<and> \<not> tShow"

section \<open>Permissions\<close>

type_synonym PermissionKey = string

definition PermissionExternalImageView :: PermissionKey where
  "PermissionExternalImageView = ''external.image.view''"

record PermissionState =
  ps_Granted :: bool
  ps_EffectiveFrom :: "int option"
  ps_ExpiresAt :: "int option"
  ps_UpdatedAt :: int

definition Evaluate :: "PermissionState option \<Rightarrow> int \<Rightarrow> bool" where
  "Evaluate s now = (case s of None \<Rightarrow> False | Some s \<Rightarrow>
     if \<not> ps_Granted s then False
     else (case (ps_EffectiveFrom s, ps_ExpiresAt s) of
             (Some from, Some till) \<Rightarrow> \<not> now < from \<and> now < till
           | _ \<Rightarrow> False))"

definition PermissionFieldName :: "PermissionKey \<Rightarrow> string option" where
  "PermissionFieldName k =
     (if k = PermissionExternalImageView then Some ''externalImageView'' else None)"

definition KnownPermission :: "PermissionKey \<Rightarrow> bool" where
  "KnownPermission k \<longleftrightarrow> PermissionFieldName k \<noteq> None"

definition State :: "PermissionState option option \<Rightarrow> PermissionKey \<Rightarrow> PermissionState option" where
  "State p k = (case p of None \<Rightarrow> None
     | Some external_image_view \<Rightarrow> if k = PermissionExternalImageView then external_image_view else None)"

definition Evaluated :: "PermissionState option option \<Rightarrow> int \<Rightarrow> (PermissionKey \<times> bool) list" where
  "Evaluated p now =
     [(PermissionExternalImageView, Evaluate (State p PermissionExternalImageView) now)]"

definition opt_time :: "string \<Rightarrow> int option \<Rightarrow> (string \<times> bson) list" where
  "opt_time k v = (case v of None \<Rightarrow> [] | Some t \<Rightarrow> [(k, BTime t)])"

definition PermissionState_fields :: "PermissionState \<Rightarrow> (string \<times> bson) list" where
  "PermissionState_fields s =
     [(''granted'', BBool (ps_Granted s))]
     @ opt_time ''effectiveFrom'' (ps_EffectiveFrom s)
     @ opt_time ''expiresAt'' (ps_ExpiresAt s)
     @ [(''updatedAt'', BTime (ps_UpdatedAt s))]"

section \<open>Chat-list sections and user settings\<close>

definition SectionFavorites :: string where "SectionFavorites = ''favorites''"
definition SectionApps :: string where "SectionApps = ''apps''"
definition SectionTeams :: string where "SectionTeams = ''teams''"
definition SectionChats :: string where "SectionChats = ''chats''"
definition SortModeMostRecent :: string where "SortModeMostRecent = ''mostRecent''"

lemmas section_defs = SectionFavorites_def SectionApps_def SectionTeams_def SectionChats_def

definition IsBuiltinSection :: "string \<Rightarrow> bool" where
  "IsBuiltinSection i \<longleftrightarrow> i \<in> {SectionFavorites, SectionApps, SectionTeams, SectionChats}"

record ChatlistSection =
  cs_ID :: string
  cs_Name :: string
  cs_BuiltIn :: bool
  cs_SortMode :: string

record ChatlistState =
  cl_SectionOrder :: "string list"
  cl_Sections :: "ChatlistSection list"
  cl_LastUpdatedAt :: int

definition DefaultChatlistState :: ChatlistState where
  "DefaultChatlistState = \<lparr>
     cl_SectionOrder = [SectionFavorites, SectionApps, SectionTeams, SectionChats],
     cl_Sections = [
       \<lparr>cs_ID = SectionFavorites, cs_Name = ''Favorites'', cs_BuiltIn = True, cs_SortMode = SortModeMostRecent\<rparr>,
       \<lparr>cs_ID = SectionApps, cs_Name = ''Apps'', cs_BuiltIn = True, cs_SortMode = SortModeMostRecent\<rparr>,
       \<lparr>cs_ID = SectionTeams, cs_Name = ''Teams'', cs_BuiltIn = True, cs_SortMode = SortModeMostRecent\<rparr>,
       \<lparr>cs_ID = SectionChats, cs_Name = ''Chats'', cs_BuiltIn = True, cs_SortMode = SortModeMostRecent\<rparr>],
     cl_LastUpdatedAt = 0\<rparr>"

definition ChatlistSection_fields :: "ChatlistSection \<Rightarrow> (string \<times> bson) list" where
  "ChatlistSection_fields s = [(''id'', BStr (cs_ID s)), (''name'', BStr (cs_Name s)),
     (''builtIn'', BBool (cs_BuiltIn s)), (''sortMode'', BStr (cs_SortMode s))]"

definition ChatlistState_fields :: "ChatlistState \<Rightarrow> (string \<times> bson) list" where
  "ChatlistState_fields c = [(''sectionOrder'', BArr (map BStr (cl_SectionOrder c))),
     (''sections'', BArr (map (BDoc \<circ> ChatlistSection_fields) (cl_Sections c))),
     (''lastUpdatedAt'', BInt (cl_LastUpdatedAt c))]"

record UserSettings =
  us_FullWidth :: "bool option"
  us_ThemePreference :: "string option"
  us_TranslateMessageInto :: "string option"
  us_MessagePreviewEnabled :: "bool option"
  us_MuteAllNotifications :: "bool option"
  us_AlwaysAllowPriorityNotifications :: "bool option"
  us_ShowPreviewsInNotifications :: "bool option"
  us_ShowNotificationsInCall :: "bool option"
  us_InitialChatScrollPosition :: "string option"
  us_PriorityContacts :: "string list"

definition IsEmpty :: "UserSettings \<Rightarrow> bool" where
  "IsEmpty s \<longleftrightarrow> us_FullWidth s = None \<and> us_ThemePreference s = None
     \<and> us_TranslateMessageInto s = None \<and> us_MessagePreviewEnabled s = None
     \<and> us_MuteAllNotifications s = None \<and> us_AlwaysAllowPriorityNotifications s = None
     \<and> us_ShowPreviewsInNotifications s = None \<and> us_ShowNotificationsInCall s = None
     \<and> us_InitialChatScrollPosition s = None"

definition opt_bool :: "string \<Rightarrow> bool option \<Rightarrow> (string \<times> bson) list" where
  "opt_bool k v = (case v of None \<Rightarrow> [] | Some b \<Rightarrow> [(k, BBool b)])"

definition opt_str :: "string \<Rightarrow> string option \<Rightarrow> (string \<times> bson) list" where
  "opt_str k v = (case v of None \<Rightarrow> [] | Some b \<Rightarrow> [(k, BStr b)])"

definition opt_strs :: "string \<Rightarrow> string list \<Rightarrow> (string \<times> bson) list" where
  "opt_strs k vs = (if vs = [] then [] else [(k, BArr (map BStr vs))])"

definition omit_empty :: "string \<Rightarrow> string \<Rightarrow> (string \<times> bson) list" where
  "omit_empty k v = (if v = '''' then [] else [(k, BStr v)])"

definition omit_false :: "string \<Rightarrow> bool \<Rightarrow> (string \<times> bson) list" where
  "omit_false k v = (if v then [(k, BBool True)] else [])"

definition UserSettings_fields :: "UserSettings \<Rightarrow> (string \<times> bson) list" where
  "UserSettings_fields s =
     opt_bool ''fullWidth'' (us_FullWidth s)
     @ opt_str ''themePreference'' (us_ThemePreference s)
     @ opt_str ''translateMessageInto'' (us_TranslateMessageInto s)
     @ opt_bool ''messagePreviewEnabled'' (us_MessagePreviewEnabled s)
     @ opt_bool ''muteAllNotifications'' (us_MuteAllNotifications s)
     @ opt_bool ''alwaysAllowPriorityNotifications'' (us_AlwaysAllowPriorityNotifications s)
     @ opt_bool ''showPreviewsInNotifications'' (us_ShowPreviewsInNotifications s)
     @ opt_bool ''showNotificationsInCall'' (us_ShowNotificationsInCall s)
     @ opt_str ''initialChatScrollPosition'' (us_InitialChatScrollPosition s)
     @ opt_strs ''priorityContacts'' (us_PriorityContacts s)"

section \<open>Subscriptions, thread subscriptions, rooms, users\<close>

record SubscriptionUser =
  su_ID :: string
  su_Account :: string
  su_IsBot :: bool

record Subscription =
  sub_ID :: string
  sub_User :: SubscriptionUser
  sub_RoomID :: string
  sub_SiteID :: string
  sub_Roles :: "Role list option"
  sub_Name :: string
  sub_RoomType :: RoomType
  sub_IsSubscribed :: bool
  sub_HistorySharedSince :: "int option"
  sub_JoinedAt :: int
  sub_LastSeenAt :: "int option"
  sub_HasMention :: bool
  sub_ThreadUnread :: "string list"
  sub_Alert :: bool
  sub_Muted :: bool
  sub_Favorite :: bool
  sub_SectionId :: "string option"
  sub_SectionOrder :: rat
  sub_Open :: bool
  sub_Restricted :: bool
  sub_ExternalAccess :: bool
  sub_FavoriteUpdatedAt :: "int option"
  sub_MuteUpdatedAt :: "int option"
  sub_RolesUpdatedAt :: "int option"
  sub_NameUpdatedAt :: "int option"
  sub_RestrictUpdatedAt :: "int option"
  sub_SectionUpdatedAt :: "int option"
  sub_Origin :: string

definition roles_value :: "Role list option \<Rightarrow> bson" where
  "roles_value rs = (case rs of None \<Rightarrow> BNull | Some rs \<Rightarrow> BArr (map BStr rs))"

definition Subscription_fields :: "Subscription \<Rightarrow> (string \<times> bson) list" where
  "Subscription_fields s =
     [(''_id'', BStr (sub_ID s)),
      (''u._id'', BStr (su_ID (sub_User s))),
      (''u.account'', BStr (su_Account (sub_User s))),
      (''u.isBot'', BBool (su_IsBot (sub_User s))),
      (''roomId'', BStr (sub_RoomID s)),
      (''siteId'', BStr (sub_SiteID s)),
      (''roles'', roles_value (sub_Roles s)),
      (''name'', BStr (sub_Name s)),
      (''roomType'', BStr (sub_RoomType s))]
     @ omit_false ''isSubscribed'' (sub_IsSubscribed s)
     @ opt_time ''historySharedSince'' (sub_HistorySharedSince s)
     @ [(''joinedAt'', BTime (sub_JoinedAt s))]
     @ opt_time ''lastSeenAt'' (sub_LastSeenAt s)
     @ [(''hasMention'', BBool (sub_HasMention s))]
     @ opt_strs ''threadUnread'' (sub_ThreadUnread s)
     @ [(''alert'', BBool (sub_Alert s)), (''muted'', BBool (sub_Muted s)),
        (''favorite'', BBool (sub_Favorite s))]
     @ opt_str ''sectionId'' (sub_SectionId s)
     @ (if sub_SectionOrder s = 0 then [] else [(''sectionOrder'', BFloat (sub_SectionOrder s))])
     @ [(''open'', BBool (sub_Open s))]
     @ omit_false ''restricted'' (sub_Restricted s)
     @ omit_false ''externalAccess'' (sub_ExternalAccess s)
     @ opt_time ''favoriteUpdatedAt'' (sub_FavoriteUpdatedAt s)
     @ opt_time ''muteUpdatedAt'' (sub_MuteUpdatedAt s)
     @ opt_time ''rolesUpdatedAt'' (sub_RolesUpdatedAt s)
     @ opt_time ''nameUpdatedAt'' (sub_NameUpdatedAt s)
     @ opt_time ''restrictUpdatedAt'' (sub_RestrictUpdatedAt s)
     @ opt_time ''sectionUpdatedAt'' (sub_SectionUpdatedAt s)
     @ omit_empty ''origin'' (sub_Origin s)"

record ThreadSubscription =
  ts_ID :: string
  ts_ParentMessageID :: string
  ts_RoomID :: string
  ts_ThreadRoomID :: string
  ts_UserID :: string
  ts_UserAccount :: string
  ts_SiteID :: string
  ts_LastSeenAt :: "int option"
  ts_HasMention :: bool
  ts_CreatedAt :: int
  ts_UpdatedAt :: int

text \<open>A room as \<open>room_sync\<close> carries it: the fields with a \<open>json:"-"\<close> tag never cross the wire, so
  they have their zero value here and \<open>omitempty\<close> drops them.\<close>

record Room =
  rm_ID :: string
  rm_Name :: string
  rm_Type :: RoomType
  rm_SiteID :: string
  rm_UserCount :: int
  rm_AppCount :: int
  rm_LastMsgAt :: "int option"
  rm_LastMsgID :: string
  rm_LastUserMsgAt :: "int option"
  rm_LastMentionAllAt :: "int option"
  rm_MinUserLastSeenAt :: "int option"
  rm_CreatedAt :: int
  rm_UpdatedAt :: int
  rm_Restricted :: bool
  rm_ExternalAccess :: bool
  rm_UIDs :: "string list"
  rm_Accounts :: "string list"
  rm_CrossSite :: "bool option"

definition Room_fields :: "Room \<Rightarrow> (string \<times> bson) list" where
  "Room_fields r =
     [(''_id'', BStr (rm_ID r)), (''name'', BStr (rm_Name r)), (''type'', BStr (rm_Type r)),
      (''siteId'', BStr (rm_SiteID r)), (''userCount'', BInt (rm_UserCount r)),
      (''appCount'', BInt (rm_AppCount r))]
     @ opt_time ''lastMsgAt'' (rm_LastMsgAt r)
     @ [(''lastMsgId'', BStr (rm_LastMsgID r))]
     @ opt_time ''lastUserMsgAt'' (rm_LastUserMsgAt r)
     @ opt_time ''lastMentionAllAt'' (rm_LastMentionAllAt r)
     @ opt_time ''minUserLastSeenAt'' (rm_MinUserLastSeenAt r)
     @ [(''createdAt'', BTime (rm_CreatedAt r)), (''updatedAt'', BTime (rm_UpdatedAt r))]
     @ omit_false ''restricted'' (rm_Restricted r)
     @ omit_false ''externalAccess'' (rm_ExternalAccess r)
     @ opt_strs ''uids'' (rm_UIDs r)
     @ opt_strs ''accounts'' (rm_Accounts r)
     @ opt_bool ''crossSite'' (rm_CrossSite r)"

record User =
  usr_ID :: string
  usr_Account :: string

section \<open>Cross-site events\<close>

text \<open>The payload records keep the fields the code modelled here reads; a field that only other
  readers use (display data, audit stamps) is left out, and so is the whole user record but for the
  two fields the member handler reads.\<close>

type_synonym InboxEventType = string

definition InboxMemberAdded :: InboxEventType where "InboxMemberAdded = ''member_added''"
definition InboxMemberRemoved :: InboxEventType where "InboxMemberRemoved = ''member_removed''"
definition InboxMemberJoinedAtRefreshed :: InboxEventType where "InboxMemberJoinedAtRefreshed = ''member_joinedat_refreshed''"
definition InboxRoleUpdated :: InboxEventType where "InboxRoleUpdated = ''role_updated''"
definition InboxSubscriptionRead :: InboxEventType where "InboxSubscriptionRead = ''subscription_read''"
definition InboxSubscriptionMuteToggled :: InboxEventType where "InboxSubscriptionMuteToggled = ''subscription_mute_toggled''"
definition InboxSubscriptionFavoriteToggled :: InboxEventType where "InboxSubscriptionFavoriteToggled = ''subscription_favorite_toggled''"
definition InboxSubscriptionOpened :: InboxEventType where "InboxSubscriptionOpened = ''subscription_opened''"
definition InboxThreadSubscriptionUpserted :: InboxEventType where "InboxThreadSubscriptionUpserted = ''thread_subscription_upserted''"
definition InboxThreadRead :: InboxEventType where "InboxThreadRead = ''thread_read''"
definition InboxThreadReadAll :: InboxEventType where "InboxThreadReadAll = ''thread_read_all''"
definition InboxThreadUnreadAdded :: InboxEventType where "InboxThreadUnreadAdded = ''thread_unread_added''"
definition InboxRoomRenamed :: InboxEventType where "InboxRoomRenamed = ''room_renamed''"
definition InboxRoomRestricted :: InboxEventType where "InboxRoomRestricted = ''room_restricted''"
definition InboxUserStatusUpdated :: InboxEventType where "InboxUserStatusUpdated = ''user_status_updated''"
definition InboxUserSettingsUpdated :: InboxEventType where "InboxUserSettingsUpdated = ''user_settings_updated''"
definition InboxUserPermissionsUpdated :: InboxEventType where "InboxUserPermissionsUpdated = ''user_permissions_updated''"
definition InboxUserAccountUpdated :: InboxEventType where "InboxUserAccountUpdated = ''user_account_updated''"
definition InboxUserChatlistUpdated :: InboxEventType where "InboxUserChatlistUpdated = ''user_chatlist_updated''"
definition InboxSubscriptionSectionMoved :: InboxEventType where "InboxSubscriptionSectionMoved = ''subscription_section_moved''"
definition InboxSubscriptionMention :: InboxEventType where "InboxSubscriptionMention = ''subscription_mention''"

lemmas inbox_type_defs = InboxMemberAdded_def InboxMemberRemoved_def InboxMemberJoinedAtRefreshed_def
  InboxRoleUpdated_def InboxSubscriptionRead_def InboxSubscriptionMuteToggled_def
  InboxSubscriptionFavoriteToggled_def InboxSubscriptionOpened_def InboxThreadSubscriptionUpserted_def
  InboxThreadRead_def InboxThreadReadAll_def InboxThreadUnreadAdded_def InboxRoomRenamed_def
  InboxRoomRestricted_def InboxUserStatusUpdated_def InboxUserSettingsUpdated_def
  InboxUserPermissionsUpdated_def InboxUserAccountUpdated_def InboxUserChatlistUpdated_def
  InboxSubscriptionSectionMoved_def InboxSubscriptionMention_def

record InboxEvent =
  ie_Type :: InboxEventType
  ie_SiteID :: string
  ie_DestSiteID :: string
  ie_Payload :: string
  ie_Timestamp :: int

record OutboxEvent =
  oe_RoomID :: string
  oe_Envelope :: string
  oe_DedupID :: string
  oe_Timestamp :: int

record MemberAddEvent =
  ma_RoomID :: string
  ma_RoomName :: string
  ma_RoomType :: RoomType
  ma_Accounts :: "string list"
  ma_SiteID :: string
  ma_RequesterAccount :: string
  ma_JoinedAt :: int
  ma_HistorySharedSince :: "int option"
  ma_LastMsgAt :: "int option"
  ma_Origin :: string

record MemberRemoveEvent =
  mr_RoomID :: string
  mr_Accounts :: "string list"
  mr_SiteID :: string
  mr_OrgID :: string
  mr_Timestamp :: int

record SubscriptionUpdateEvent =
  sue_Subscription :: Subscription
  sue_Timestamp :: int

record SubscriptionReadEvent =
  sr_Account :: string
  sr_RoomID :: string
  sr_LastSeenAt :: int
  sr_Alert :: bool

record SubscriptionMuteToggledEvent =
  sm_Account :: string
  sm_RoomID :: string
  sm_Muted :: bool
  sm_Timestamp :: int

record SubscriptionFavoriteToggledEvent =
  sf_Account :: string
  sf_RoomID :: string
  sf_Favorite :: bool
  sf_Timestamp :: int

record SubscriptionSectionMovedEvent =
  ss_Account :: string
  ss_RoomID :: string
  ss_SectionID :: "string option"
  ss_SectionOrder :: rat
  ss_Timestamp :: int

record SubscriptionOpenedEvent =
  so_Account :: string
  so_RoomID :: string
  so_Open :: bool

record SubscriptionMentionEvent =
  sme_RoomID :: string
  sme_Accounts :: "string list"
  sme_MentionedAt :: int

record ThreadReadEvent =
  tr_Account :: string
  tr_RoomID :: string
  tr_ThreadRoomID :: string
  tr_LastSeenAt :: int
  tr_ParentMessageID :: string

record ThreadReadAllEvent =
  tra_Account :: string
  tra_LastSeenAt :: int

record ThreadUnreadAddedEvent =
  tu_RoomID :: string
  tu_ParentMessageID :: string
  tu_Accounts :: "string list"

record RoomRenamedInboxPayload =
  rn_RoomID :: string
  rn_NewName :: string
  rn_Timestamp :: int

record RoomRestrictedInboxPayload =
  rr_RoomID :: string
  rr_Restricted :: bool
  rr_ExternalAccess :: bool
  rr_OwnerAccount :: string
  rr_Timestamp :: int

record UserStatusUpdated =
  ust_Account :: string
  ust_StatusText :: string
  ust_StatusIsShow :: "bool option"
  ust_Timestamp :: int

record UserSettingsUpdated =
  use_Account :: string
  use_Settings :: UserSettings
  use_Timestamp :: int

record UserPermissionsUpdated =
  up_Permission :: PermissionKey
  up_Accounts :: "string list"
  up_State :: PermissionState

record UserAccountUpdated =
  ua_ID :: string
  ua_Account :: string
  ua_SiteID :: string
  ua_EngName :: string
  ua_ChineseName :: string
  ua_Roles :: "string list option"
  ua_Active :: bool
  ua_Timestamp :: int

record UserChatlistUpdated =
  uc_Account :: string
  uc_Chatlist :: ChatlistState
  uc_Timestamp :: int

record RoomActivityEvent =
  ra_RoomID :: string
  ra_SiteID :: string
  ra_LastMsgAt :: int

section \<open>Facts about the classifiers\<close>

lemma NormalizeRole_idem [simp]: "NormalizeRole (NormalizeRole r) = NormalizeRole r"
  by (simp add: NormalizeRole_def role_defs)

lemma NormalizeRole_not_member: "NormalizeRole r \<noteq> RoleMember"
  by (simp add: NormalizeRole_def role_defs)

end
