(* ===== verification/Inbox_Store.thy ===== *)
theory Inbox_Store
  imports Chat_Model
begin

text \<open>
  The store of \<open>inbox-worker\<close> (\<open>src/inbox-worker/main.go\<close>, \<open>mongoInboxStore\<close>): one definition per
  method. The collections are lists of documents in \<open>inbox_store\<close>; the five collection handles are
  the record \<open>mongoInboxStore\<close>, an argument of every method. A method returns its error or value
  together with the store it leaves, also when it fails.
\<close>

section \<open>State and errors\<close>

record mongoInboxStore =
  subCol :: mongo_collection
  roomCol :: mongo_collection
  userCol :: mongo_collection
  threadSubCol :: mongo_collection
  remoteRoomCol :: mongo_collection

record inbox_store =
  subscriptions :: "doc list"
  rooms :: "doc list"
  users :: "doc list"
  thread_subscriptions :: "doc list"
  remote_rooms :: "doc list"

datatype inbox_err = Mongo merr | NotFound string | UnknownPermission string

type_synonym 'a res = "inbox_err + 'a"

fun wrap_err :: "merr + 'a \<Rightarrow> 'a res" where
  "wrap_err (Inl e) = Inl (Mongo e)"
| "wrap_err (Inr x) = Inr x"

fun discard :: "'a res \<Rightarrow> unit res" where
  "discard (Inl e) = Inl e"
| "discard (Inr _) = Inr ()"

definition IsDuplicateKeyError :: "inbox_err \<Rightarrow> bool" where
  "IsDuplicateKeyError e \<longleftrightarrow> e = Mongo DuplicateKey"

text \<open>One call on one collection.\<close>

definition on_subs :: "(doc list \<Rightarrow> (merr + 'a) \<times> doc list) \<Rightarrow> inbox_store \<Rightarrow> 'a res \<times> inbox_store" where
  "on_subs f st = (case f (subscriptions st) of (r, c) \<Rightarrow> (wrap_err r, st\<lparr>subscriptions := c\<rparr>))"

definition on_rooms :: "(doc list \<Rightarrow> (merr + 'a) \<times> doc list) \<Rightarrow> inbox_store \<Rightarrow> 'a res \<times> inbox_store" where
  "on_rooms f st = (case f (rooms st) of (r, c) \<Rightarrow> (wrap_err r, st\<lparr>rooms := c\<rparr>))"

definition on_users :: "(doc list \<Rightarrow> (merr + 'a) \<times> doc list) \<Rightarrow> inbox_store \<Rightarrow> 'a res \<times> inbox_store" where
  "on_users f st = (case f (users st) of (r, c) \<Rightarrow> (wrap_err r, st\<lparr>users := c\<rparr>))"

definition on_threads :: "(doc list \<Rightarrow> (merr + 'a) \<times> doc list) \<Rightarrow> inbox_store \<Rightarrow> 'a res \<times> inbox_store" where
  "on_threads f st =
     (case f (thread_subscriptions st) of (r, c) \<Rightarrow> (wrap_err r, st\<lparr>thread_subscriptions := c\<rparr>))"

definition on_remote :: "(doc list \<Rightarrow> (merr + 'a) \<times> doc list) \<Rightarrow> inbox_store \<Rightarrow> 'a res \<times> inbox_store" where
  "on_remote f st = (case f (remote_rooms st) of (r, c) \<Rightarrow> (wrap_err r, st\<lparr>remote_rooms := c\<rparr>))"

lemmas [store_defs] = on_subs_def on_rooms_def on_users_def on_threads_def on_remote_def

text \<open>The order-safety clause of every guarded write: the stored high-water mark is missing or older.\<close>

definition lt_guard :: "string \<Rightarrow> bson \<Rightarrow> filt" where
  "lt_guard f t = FOr [FExists f False, FLt f t]"

definition lte_guard :: "string \<Rightarrow> bson \<Rightarrow> filt" where
  "lte_guard f t = FOr [FExists f False, FLte f t]"

definition sub_key :: "string \<Rightarrow> string \<Rightarrow> filt list" where
  "sub_key roomID account = [FEq ''roomId'' (BStr roomID), FEq ''u.account'' (BStr account)]"

section \<open>Remote-room ordering rows\<close>

definition HasRoomSubscription :: "mongoInboxStore \<Rightarrow> string \<Rightarrow> inbox_store \<Rightarrow> bool res" where
  "HasRoomSubscription s roomID st =
     (case FindOne (subCol s) (FEq ''roomId'' (BStr roomID)) (subscriptions st) of
        Inr (Some _) \<Rightarrow> Inr True
      | Inr None \<Rightarrow> Inr False
      | Inl e \<Rightarrow> Inl (Mongo e))"

definition DeleteRemoteRoomActivity :: "mongoInboxStore \<Rightarrow> string \<Rightarrow> inbox_store \<Rightarrow> unit res \<times> inbox_store" where
  "DeleteRemoteRoomActivity s roomID st =
     (case on_remote (DeleteOne (remoteRoomCol s) (FEq ''_id'' (BStr roomID))) st of
        (r, st) \<Rightarrow> (discard r, st))"

definition remote_room_update :: "string \<Rightarrow> int \<Rightarrow> update" where
  "remote_room_update siteID lastMsgAt =
     [UMax [(''lastMsgAt'', BTime lastMsgAt)], USetOnInsert [(''siteId'', BStr siteID)]]"

definition UpsertRemoteRoomActivity ::
  "mongoInboxStore \<Rightarrow> string \<Rightarrow> string \<Rightarrow> int \<Rightarrow> inbox_store \<Rightarrow> unit res \<times> inbox_store" where
  "UpsertRemoteRoomActivity s roomID siteID lastMsgAt st =
     (let f = FEq ''_id'' (BStr roomID); u = remote_room_update siteID lastMsgAt in
      case on_remote (UpsertOne (remoteRoomCol s) f u) st of
        (Inr _, st) \<Rightarrow> (Inr (), st)
      | (Inl e, st) \<Rightarrow>
          if \<not> IsDuplicateKeyError e then (Inl e, st)
          else (case on_remote (UpsertOne (remoteRoomCol s) f u) st of (r, st) \<Rightarrow> (discard r, st)))"

section \<open>Creating subscriptions and rooms\<close>

definition CreateSubscription :: "mongoInboxStore \<Rightarrow> Subscription \<Rightarrow> inbox_store \<Rightarrow> unit res \<times> inbox_store" where
  "CreateSubscription s sub st =
     (case on_subs (InsertOne (subCol s) (set_fields (Subscription_fields sub) Map.empty)) st of
        (r, st) \<Rightarrow> (discard r, st))"

definition room_filter :: "Room \<Rightarrow> filt" where
  "room_filter room = FAnd [FEq ''_id'' (BStr (rm_ID room)), lt_guard ''updatedAt'' (BTime (rm_UpdatedAt room))]"

definition UpsertRoom :: "mongoInboxStore \<Rightarrow> Room \<Rightarrow> inbox_store \<Rightarrow> unit res \<times> inbox_store" where
  "UpsertRoom s room st =
     (case on_rooms (UpsertOne (roomCol s) (room_filter room) [USet (Room_fields room)]) st of
        (Inr _, st) \<Rightarrow> (Inr (), st)
      | (Inl e, st) \<Rightarrow> if IsDuplicateKeyError e then (Inr (), st) else (Inl e, st))"

definition bulk_create_model :: "Subscription \<Rightarrow> filt \<times> update \<times> bool" where
  "bulk_create_model sub = (FAnd (sub_key (sub_RoomID sub) (su_Account (sub_User sub))),
     [USetOnInsert (Subscription_fields sub)], True)"

definition BulkCreateSubscriptions ::
  "mongoInboxStore \<Rightarrow> Subscription list \<Rightarrow> inbox_store \<Rightarrow> unit res \<times> inbox_store" where
  "BulkCreateSubscriptions s subs st =
     (if subs = [] then (Inr (), st)
      else case on_subs (BulkWrite (subCol s) (map bulk_create_model subs)) st of
             (r, st) \<Rightarrow> (discard r, st))"

definition joined_at_model :: "string \<Rightarrow> string \<times> int \<Rightarrow> filt \<times> update \<times> bool" where
  "joined_at_model roomID = (\<lambda>(account, joinedAt).
     (FAnd (sub_key roomID account), [USet [(''joinedAt'', BTime joinedAt)]], False))"

definition BulkRefreshJoinedAt ::
  "mongoInboxStore \<Rightarrow> string \<Rightarrow> (string \<times> int) list \<Rightarrow> inbox_store \<Rightarrow> unit res \<times> inbox_store" where
  "BulkRefreshJoinedAt s roomID joinedAtByAccount st =
     (if joinedAtByAccount = [] then (Inr (), st)
      else case on_subs (BulkWrite (subCol s) (map (joined_at_model roomID) joinedAtByAccount)) st of
             (r, st) \<Rightarrow> (discard r, st))"

section \<open>Guarded writes on one subscription\<close>

definition subscriptionExists :: "mongoInboxStore \<Rightarrow> string \<Rightarrow> string \<Rightarrow> inbox_store \<Rightarrow> bool res" where
  "subscriptionExists s account roomID st =
     (case FindOne (subCol s) (FAnd (sub_key roomID account)) (subscriptions st) of
        Inr None \<Rightarrow> Inr False
      | Inl e \<Rightarrow> Inl (Mongo e)
      | Inr (Some _) \<Rightarrow> Inr True)"

definition naksIfSubscriptionMissing :: "mongoInboxStore \<Rightarrow> string \<Rightarrow> string \<Rightarrow> inbox_store \<Rightarrow> unit res" where
  "naksIfSubscriptionMissing s account roomID st =
     (case subscriptionExists s account roomID st of
        Inl e \<Rightarrow> Inl e
      | Inr exists \<Rightarrow> if \<not> exists then Inl (NotFound ''subscription'') else Inr ())"

text \<open>The tail the guarded subscription writes share: the driver's error, the missing-or-stale
  check when nothing matched, success otherwise.\<close>

definition guarded_sub_update ::
  "mongoInboxStore \<Rightarrow> string \<Rightarrow> string \<Rightarrow> filt \<Rightarrow> update \<Rightarrow> inbox_store \<Rightarrow> unit res \<times> inbox_store" where
  "guarded_sub_update s account roomID f u st =
     (case on_subs (UpdateOne (subCol s) f u) st of
        (Inl e, st) \<Rightarrow> (Inl e, st)
      | (Inr n, st) \<Rightarrow> (if n = 0 then naksIfSubscriptionMissing s account roomID st else Inr (), st))"

definition roles_filter :: "string \<Rightarrow> string \<Rightarrow> int \<Rightarrow> filt" where
  "roles_filter account roomID tm = FAnd (sub_key roomID account @ [lt_guard ''rolesUpdatedAt'' (BTime tm)])"

definition roles_update :: "Role list \<Rightarrow> int \<Rightarrow> update" where
  "roles_update roles tm = [USet [(''roles'', BArr (map BStr roles)), (''rolesUpdatedAt'', BTime tm)]]"

definition UpdateSubscriptionRoles ::
  "mongoInboxStore \<Rightarrow> string \<Rightarrow> string \<Rightarrow> Role list \<Rightarrow> int \<Rightarrow> inbox_store \<Rightarrow> unit res \<times> inbox_store" where
  "UpdateSubscriptionRoles s account roomID roles rolesUpdatedAt =
     guarded_sub_update s account roomID (roles_filter account roomID rolesUpdatedAt)
       (roles_update roles rolesUpdatedAt)"

definition mute_filter :: "string \<Rightarrow> string \<Rightarrow> int \<Rightarrow> filt" where
  "mute_filter roomID account tm = FAnd (sub_key roomID account @ [lt_guard ''muteUpdatedAt'' (BTime tm)])"

definition mute_update :: "bool \<Rightarrow> int \<Rightarrow> update" where
  "mute_update muted tm = [USet [(''muted'', BBool muted), (''muteUpdatedAt'', BTime tm)]]"

definition UpdateSubscriptionMute ::
  "mongoInboxStore \<Rightarrow> string \<Rightarrow> string \<Rightarrow> bool \<Rightarrow> int \<Rightarrow> inbox_store \<Rightarrow> unit res \<times> inbox_store" where
  "UpdateSubscriptionMute s roomID account muted muteUpdatedAt =
     guarded_sub_update s account roomID (mute_filter roomID account muteUpdatedAt)
       (mute_update muted muteUpdatedAt)"

definition favorite_filter :: "string \<Rightarrow> string \<Rightarrow> int \<Rightarrow> filt" where
  "favorite_filter roomID account tm =
     FAnd (sub_key roomID account @ [lt_guard ''favoriteUpdatedAt'' (BTime tm)])"

definition favorite_update :: "bool \<Rightarrow> int \<Rightarrow> update" where
  "favorite_update favorite tm =
     (if favorite then [USet [(''favorite'', BBool favorite), (''favoriteUpdatedAt'', BTime tm)]]
      else [UPipeSet
        [(''favorite'', EConst (BBool favorite)), (''favoriteUpdatedAt'', EConst (BTime tm)),
         (''sectionId'', ECondEq ''sectionId'' (BStr SectionFavorites) ERemove (EField ''sectionId'')),
         (''sectionOrder'', ECondEq ''sectionId'' (BStr SectionFavorites) ERemove (EField ''sectionOrder''))]])"

definition UpdateSubscriptionFavorite ::
  "mongoInboxStore \<Rightarrow> string \<Rightarrow> string \<Rightarrow> bool \<Rightarrow> int \<Rightarrow> inbox_store \<Rightarrow> unit res \<times> inbox_store" where
  "UpdateSubscriptionFavorite s roomID account favorite favoriteUpdatedAt =
     guarded_sub_update s account roomID (favorite_filter roomID account favoriteUpdatedAt)
       (favorite_update favorite favoriteUpdatedAt)"

definition section_filter :: "string \<Rightarrow> string \<Rightarrow> int \<Rightarrow> filt" where
  "section_filter roomID account tm =
     FAnd (sub_key roomID account @ [lt_guard ''sectionUpdatedAt'' (BTime tm)])"

definition section_update :: "string option \<Rightarrow> rat \<Rightarrow> int \<Rightarrow> update" where
  "section_update sectionID order tm = (case sectionID of
     None \<Rightarrow> [USet [(''sectionUpdatedAt'', BTime tm), (''favorite'', BBool False), (''favoriteUpdatedAt'', BTime tm)],
              UUnset [''sectionId'', ''sectionOrder'']]
   | Some i \<Rightarrow> [USet [(''sectionId'', BStr i), (''sectionOrder'', BFloat order), (''sectionUpdatedAt'', BTime tm),
              (''favorite'', BBool (i = SectionFavorites)), (''favoriteUpdatedAt'', BTime tm)]])"

definition UpdateSubscriptionSection ::
  "mongoInboxStore \<Rightarrow> string \<Rightarrow> string \<Rightarrow> string option \<Rightarrow> rat \<Rightarrow> int \<Rightarrow> inbox_store \<Rightarrow> unit res \<times> inbox_store" where
  "UpdateSubscriptionSection s roomID account sectionID order updatedAt =
     guarded_sub_update s account roomID (section_filter roomID account updatedAt)
       (section_update sectionID order updatedAt)"

definition UpdateSubscriptionOpen ::
  "mongoInboxStore \<Rightarrow> string \<Rightarrow> string \<Rightarrow> bool \<Rightarrow> inbox_store \<Rightarrow> unit res \<times> inbox_store" where
  "UpdateSubscriptionOpen s roomID account opn =
     guarded_sub_update s account roomID (FAnd (sub_key roomID account)) [USet [(''open'', BBool opn)]]"

definition read_filter :: "string \<Rightarrow> string \<Rightarrow> int \<Rightarrow> filt" where
  "read_filter roomID account tm = FAnd (sub_key roomID account @ [lt_guard ''lastSeenAt'' (BTime tm)])"

definition read_update :: "int \<Rightarrow> bool \<Rightarrow> update" where
  "read_update tm alert = [USet [(''lastSeenAt'', BTime tm), (''alert'', BBool alert)]]"

definition thread_unread_len :: "doc \<Rightarrow> nat" where
  "thread_unread_len d = (case d ''threadUnread'' of Some (BArr vs) \<Rightarrow> length vs | _ \<Rightarrow> 0)"

definition UpdateSubscriptionRead ::
  "mongoInboxStore \<Rightarrow> string \<Rightarrow> string \<Rightarrow> int \<Rightarrow> bool \<Rightarrow> inbox_store \<Rightarrow> (bool \<times> nat) res \<times> inbox_store" where
  "UpdateSubscriptionRead s roomID account lastSeenAt alert st =
     (case on_subs (FindOneAndUpdate (subCol s) (read_filter roomID account lastSeenAt)
                      (read_update lastSeenAt alert)) st of
        (Inr None, st) \<Rightarrow>
          (case naksIfSubscriptionMissing s account roomID st of
             Inl e \<Rightarrow> (Inl e, st) | Inr _ \<Rightarrow> (Inr (False, 0), st))
      | (Inl e, st) \<Rightarrow> (Inl e, st)
      | (Inr (Some d), st) \<Rightarrow> (Inr (True, thread_unread_len d), st))"

section \<open>Writes on many subscriptions\<close>

definition mention_filter :: "string \<Rightarrow> string list \<Rightarrow> int \<Rightarrow> filt" where
  "mention_filter roomID accounts tm = FAnd [FEq ''roomId'' (BStr roomID),
     FIn ''u.account'' (map BStr accounts), FNotGte ''lastSeenAt'' (BTime tm)]"

definition SetSubscriptionMentions ::
  "mongoInboxStore \<Rightarrow> string \<Rightarrow> string list \<Rightarrow> int \<Rightarrow> inbox_store \<Rightarrow> unit res \<times> inbox_store" where
  "SetSubscriptionMentions s roomID accounts msgCreatedAt st =
     (case on_subs (UpdateMany (subCol s) (mention_filter roomID accounts msgCreatedAt)
                      [USet [(''hasMention'', BBool True)]]) st of
        (r, st) \<Rightarrow> (discard r, st))"

definition name_filter :: "string \<Rightarrow> int \<Rightarrow> filt" where
  "name_filter roomID tm = FAnd [FEq ''roomId'' (BStr roomID), lt_guard ''nameUpdatedAt'' (BTime tm)]"

definition name_update :: "string \<Rightarrow> int \<Rightarrow> update" where
  "name_update newName tm = [USet [(''name'', BStr newName), (''nameUpdatedAt'', BTime tm)]]"

definition UpdateSubscriptionNamesForRoom ::
  "mongoInboxStore \<Rightarrow> string \<Rightarrow> string \<Rightarrow> int \<Rightarrow> inbox_store \<Rightarrow> unit res \<times> inbox_store" where
  "UpdateSubscriptionNamesForRoom s roomID newName nameUpdatedAt st =
     (case on_subs (UpdateMany (subCol s) (name_filter roomID nameUpdatedAt)
                      (name_update newName nameUpdatedAt)) st of
        (r, st) \<Rightarrow> (discard r, st))"

definition restrict_filter :: "string \<Rightarrow> int \<Rightarrow> filt" where
  "restrict_filter roomID tm = FAnd [FEq ''roomId'' (BStr roomID), lt_guard ''restrictUpdatedAt'' (BTime tm)]"

definition restrict_update :: "bool \<Rightarrow> bool \<Rightarrow> string \<Rightarrow> int \<Rightarrow> update" where
  "restrict_update restricted externalAccess ownerAccount tm =
     (if restricted \<and> ownerAccount \<noteq> ''''
      then [UPipeSet
        [(''restricted'', EConst (BBool True)), (''externalAccess'', EConst (BBool externalAccess)),
         (''restrictUpdatedAt'', EConst (BTime tm)),
         (''roles'', ECondEq ''u.account'' (BStr ownerAccount)
            (EConst (BArr [BStr RoleOwner])) (EConst (BArr [BStr RoleUser])))]]
      else [USet [(''restricted'', BBool restricted), (''externalAccess'', BBool externalAccess),
         (''restrictUpdatedAt'', BTime tm)]])"

definition ApplySubscriptionRestriction ::
  "mongoInboxStore \<Rightarrow> string \<Rightarrow> bool \<Rightarrow> bool \<Rightarrow> string \<Rightarrow> int \<Rightarrow> inbox_store \<Rightarrow> unit res \<times> inbox_store" where
  "ApplySubscriptionRestriction s roomID restricted externalAccess ownerAccount restrictUpdatedAt st =
     (case on_subs (UpdateMany (subCol s) (restrict_filter roomID restrictUpdatedAt)
                      (restrict_update restricted externalAccess ownerAccount restrictUpdatedAt)) st of
        (r, st) \<Rightarrow> (discard r, st))"

definition str_field :: "doc \<Rightarrow> string \<Rightarrow> string" where
  "str_field d f = (case d f of Some (BStr v) \<Rightarrow> v | _ \<Rightarrow> '''')"

definition ListSubscriptionAccountsByRoom ::
  "mongoInboxStore \<Rightarrow> string \<Rightarrow> inbox_store \<Rightarrow> string list res" where
  "ListSubscriptionAccountsByRoom s roomID st =
     (case Find (subCol s) (FEq ''roomId'' (BStr roomID)) (subscriptions st) of
        Inl e \<Rightarrow> Inl (Mongo e)
      | Inr docs \<Rightarrow> Inr (filter (\<lambda>a. a \<noteq> '''') (map (\<lambda>d. str_field d ''u.account'') docs)))"

definition DeleteSubscriptionsByAccounts ::
  "mongoInboxStore \<Rightarrow> string \<Rightarrow> string list \<Rightarrow> inbox_store \<Rightarrow> unit res \<times> inbox_store" where
  "DeleteSubscriptionsByAccounts s roomID accounts st =
     (case on_subs (DeleteMany (subCol s)
              (FAnd [FEq ''roomId'' (BStr roomID), FIn ''u.account'' (map BStr accounts)])) st of
        (r, st) \<Rightarrow> (discard r, st))"

section \<open>Thread subscriptions\<close>

definition DeleteThreadSubscriptions ::
  "mongoInboxStore \<Rightarrow> string \<Rightarrow> string list \<Rightarrow> inbox_store \<Rightarrow> unit res \<times> inbox_store" where
  "DeleteThreadSubscriptions s roomID accounts st =
     (if accounts = [] then (Inr (), st)
      else case on_threads (DeleteMany (threadSubCol s)
              (FAnd [FEq ''roomId'' (BStr roomID), FIn ''userAccount'' (map BStr accounts)])) st of
        (r, st) \<Rightarrow> (discard r, st))"

definition thread_sub_update :: "ThreadSubscription \<Rightarrow> update" where
  "thread_sub_update sub =
     [USetOnInsert [(''_id'', BStr (ts_ID sub)), (''parentMessageId'', BStr (ts_ParentMessageID sub)),
        (''roomId'', BStr (ts_RoomID sub)), (''threadRoomId'', BStr (ts_ThreadRoomID sub)),
        (''userId'', BStr (ts_UserID sub)), (''userAccount'', BStr (ts_UserAccount sub)),
        (''siteId'', BStr (ts_SiteID sub)),
        (''lastSeenAt'', case ts_LastSeenAt sub of None \<Rightarrow> BNull | Some t \<Rightarrow> BTime t),
        (''createdAt'', BTime (ts_CreatedAt sub))],
      USet [(''updatedAt'', BTime (ts_UpdatedAt sub))],
      UMax [(''hasMention'', BBool (ts_HasMention sub))]]"

definition thread_sub_filter :: "string \<Rightarrow> string \<Rightarrow> filt list" where
  "thread_sub_filter threadRoomID account =
     [FEq ''threadRoomId'' (BStr threadRoomID), FEq ''userAccount'' (BStr account)]"

definition UpsertThreadSubscription ::
  "mongoInboxStore \<Rightarrow> ThreadSubscription \<Rightarrow> inbox_store \<Rightarrow> unit res \<times> inbox_store" where
  "UpsertThreadSubscription s sub st =
     (case on_threads (UpsertOne (threadSubCol s)
              (FAnd (thread_sub_filter (ts_ThreadRoomID sub) (ts_UserAccount sub)))
              (thread_sub_update sub)) st of
        (r, st) \<Rightarrow> (discard r, st))"

definition threadReadGuard :: "filt list \<Rightarrow> int \<Rightarrow> filt" where
  "threadReadGuard flt lastSeenAt =
     FAnd (flt @ [FOr [FEq ''lastSeenAt'' BNull, FLt ''lastSeenAt'' (BTime lastSeenAt)]])"

definition threadReadUpdate :: "int \<Rightarrow> update" where
  "threadReadUpdate lastSeenAt = [USet [(''lastSeenAt'', BTime lastSeenAt),
     (''updatedAt'', BTime lastSeenAt), (''hasMention'', BBool False)]]"

definition ApplyThreadRead ::
  "mongoInboxStore \<Rightarrow> string \<Rightarrow> string \<Rightarrow> string \<Rightarrow> string \<Rightarrow> int \<Rightarrow> inbox_store \<Rightarrow> unit res \<times> inbox_store" where
  "ApplyThreadRead s roomID threadRoomID account parentMessageID lastSeenAt st =
     (case on_threads (UpdateOne (threadSubCol s)
              (threadReadGuard (thread_sub_filter threadRoomID account) lastSeenAt)
              (threadReadUpdate lastSeenAt)) st of
        (Inl e, st) \<Rightarrow> (Inl e, st)
      | (Inr n, st) \<Rightarrow>
          if n = 0 \<or> parentMessageID = '''' then (Inr (), st)
          else (case on_subs (UpdateOne (subCol s) (FAnd (sub_key roomID account))
                        [UPull ''threadUnread'' (BStr parentMessageID)]) st of
                  (r, st) \<Rightarrow> (discard r, st)))"

definition ApplyThreadReadAll ::
  "mongoInboxStore \<Rightarrow> string \<Rightarrow> int \<Rightarrow> inbox_store \<Rightarrow> unit res \<times> inbox_store" where
  "ApplyThreadReadAll s account lastSeenAt st =
     (case on_threads (UpdateMany (threadSubCol s)
              (threadReadGuard [FEq ''userAccount'' (BStr account)] lastSeenAt)
              (threadReadUpdate lastSeenAt)) st of
        (Inl e, st) \<Rightarrow> (Inl e, st)
      | (Inr _, st) \<Rightarrow>
          (case on_subs (UpdateMany (subCol s)
                 (FAnd [FEq ''u.account'' (BStr account), FHasElem ''threadUnread''])
                 [UUnset [''threadUnread'']]) st of
             (r, st) \<Rightarrow> (discard r, st)))"

definition AddThreadUnread ::
  "mongoInboxStore \<Rightarrow> string \<Rightarrow> string \<Rightarrow> string list \<Rightarrow> inbox_store \<Rightarrow> unit res \<times> inbox_store" where
  "AddThreadUnread s roomID parentMessageID accounts st =
     (if accounts = [] then (Inr (), st)
      else case on_subs (UpdateMany (subCol s)
              (FAnd [FEq ''roomId'' (BStr roomID), FIn ''u.account'' (map BStr accounts)])
              [UAddToSet ''threadUnread'' (BStr parentMessageID)]) st of
        (r, st) \<Rightarrow> (discard r, st))"

section \<open>Users\<close>

definition user_of_doc :: "doc \<Rightarrow> User" where
  "user_of_doc d = \<lparr>usr_ID = str_field d ''_id'', usr_Account = str_field d ''account''\<rparr>"

definition FindUsersByAccounts :: "mongoInboxStore \<Rightarrow> string list \<Rightarrow> inbox_store \<Rightarrow> User list res" where
  "FindUsersByAccounts s accounts st =
     (if accounts = [] then Inr []
      else case Find (userCol s) (FIn ''account'' (map BStr accounts)) (users st) of
             Inl e \<Rightarrow> Inl (Mongo e)
           | Inr docs \<Rightarrow> Inr (map user_of_doc docs))"

definition status_filter :: "string \<Rightarrow> int \<Rightarrow> filt" where
  "status_filter account tm = FAnd [FEq ''account'' (BStr account), lt_guard ''statusUpdatedAt'' (BTime tm)]"

definition status_update :: "string \<Rightarrow> bool option \<Rightarrow> int \<Rightarrow> update" where
  "status_update statusText statusIsShow tm =
     [USet ([(''statusText'', BStr statusText), (''statusUpdatedAt'', BTime tm)]
        @ (case statusIsShow of None \<Rightarrow> [] | Some b \<Rightarrow> [(''statusIsShow'', BBool b)]))]"

definition UpdateUserStatus ::
  "mongoInboxStore \<Rightarrow> string \<Rightarrow> string \<Rightarrow> bool option \<Rightarrow> int \<Rightarrow> inbox_store \<Rightarrow> unit res \<times> inbox_store" where
  "UpdateUserStatus s account statusText statusIsShow statusUpdatedAt st =
     (case on_users (UpdateOne (userCol s) (status_filter account statusUpdatedAt)
                       (status_update statusText statusIsShow statusUpdatedAt)) st of
        (r, st) \<Rightarrow> (discard r, st))"

definition settings_filter :: "string \<Rightarrow> int \<Rightarrow> filt" where
  "settings_filter account tm = FAnd [FEq ''account'' (BStr account), lte_guard ''settingsUpdatedAt'' (BTime tm)]"

definition settings_update :: "UserSettings \<Rightarrow> int \<Rightarrow> update" where
  "settings_update settings tm =
     [USetDoc ''settings'' (UserSettings_fields settings), USet [(''settingsUpdatedAt'', BTime tm)]]"

definition UpdateUserSettings ::
  "mongoInboxStore \<Rightarrow> string \<Rightarrow> UserSettings \<Rightarrow> int \<Rightarrow> inbox_store \<Rightarrow> unit res \<times> inbox_store" where
  "UpdateUserSettings s account settings updatedAt st =
     (case on_users (UpdateOne (userCol s) (settings_filter account updatedAt)
                       (settings_update settings updatedAt)) st of
        (r, st) \<Rightarrow> (discard r, st))"

definition permission_path :: "string \<Rightarrow> string" where
  "permission_path field = ''permissions.'' @ field"

definition permission_filter :: "string \<Rightarrow> string list \<Rightarrow> int \<Rightarrow> filt" where
  "permission_filter path accounts tm =
     FAnd [FIn ''account'' (map BStr accounts), lte_guard (path @ ''.updatedAt'') (BTime tm)]"

definition ApplyUserPermissions ::
  "mongoInboxStore \<Rightarrow> PermissionKey \<Rightarrow> string list \<Rightarrow> PermissionState \<Rightarrow> inbox_store \<Rightarrow> unit res \<times> inbox_store" where
  "ApplyUserPermissions s permission accounts state st =
     (if accounts = [] then (Inr (), st)
      else case PermissionFieldName permission of
        None \<Rightarrow> (Inl (UnknownPermission permission), st)
      | Some field \<Rightarrow>
          (case on_users (UpdateMany (userCol s)
                 (permission_filter (permission_path field) accounts (ps_UpdatedAt state))
                 [USetDoc (permission_path field) (PermissionState_fields state)]) st of
             (r, st) \<Rightarrow> (discard r, st)))"

definition chatlist_filter :: "string \<Rightarrow> int \<Rightarrow> filt" where
  "chatlist_filter account tm = FAnd [FEq ''account'' (BStr account), lt_guard ''chatlistUpdatedAt'' (BInt tm)]"

definition chatlist_update :: "ChatlistState \<Rightarrow> int \<Rightarrow> update" where
  "chatlist_update chatlist tm =
     [USetDoc ''chatlist'' (ChatlistState_fields chatlist), USet [(''chatlistUpdatedAt'', BInt tm)]]"

definition UpdateUserChatlist ::
  "mongoInboxStore \<Rightarrow> string \<Rightarrow> ChatlistState \<Rightarrow> int \<Rightarrow> inbox_store \<Rightarrow> unit res \<times> inbox_store" where
  "UpdateUserChatlist s account chatlist updatedAt st =
     (case on_users (UpdateOne (userCol s) (chatlist_filter account updatedAt)
                       (chatlist_update chatlist updatedAt)) st of
        (r, st) \<Rightarrow> (discard r, st))"

definition account_filter :: "string \<Rightarrow> int \<Rightarrow> filt" where
  "account_filter account tm = FAnd [FEq ''account'' (BStr account), lte_guard ''accountUpdatedAt'' (BTime tm)]"

definition account_update :: "UserAccountUpdated \<Rightarrow> int \<Rightarrow> update" where
  "account_update e tm =
     (let roles = (case ua_Roles e of None \<Rightarrow> [] | Some rs \<Rightarrow> rs) in
      [USetOnInsert [(''_id'', BStr (ua_ID e)), (''siteId'', BStr (ua_SiteID e))],
       USet [(''engName'', BStr (ua_EngName e)), (''chineseName'', BStr (ua_ChineseName e)),
             (''roles'', BArr (map BStr roles)), (''active'', BBool (ua_Active e)),
             (''accountUpdatedAt'', BTime tm)]])"

definition UpsertUserAccount ::
  "mongoInboxStore \<Rightarrow> UserAccountUpdated \<Rightarrow> int \<Rightarrow> inbox_store \<Rightarrow> unit res \<times> inbox_store" where
  "UpsertUserAccount s e updatedAt st =
     (case on_users (UpsertOne (userCol s) (account_filter (ua_Account e) updatedAt)
                       (account_update e updatedAt)) st of
        (Inr _, st) \<Rightarrow> (Inr (), st)
      | (Inl err, st) \<Rightarrow>
          if IsDuplicateKeyError err
          then (case on_users (UpdateOne (userCol s) (account_filter (ua_Account e) updatedAt)
                        (account_update e updatedAt)) st of
                  (r, st) \<Rightarrow> (discard r, st))
          else (Inl err, st))"

lemmas [store_defs] = UpdateSubscriptionRoles_def UpdateSubscriptionMute_def UpdateSubscriptionFavorite_def
  UpdateSubscriptionSection_def UpdateSubscriptionOpen_def UpdateSubscriptionRead_def
  SetSubscriptionMentions_def UpdateSubscriptionNamesForRoom_def ApplySubscriptionRestriction_def
  DeleteSubscriptionsByAccounts_def DeleteThreadSubscriptions_def UpsertThreadSubscription_def
  ApplyThreadRead_def ApplyThreadReadAll_def AddThreadUnread_def UpdateUserStatus_def
  UpdateUserSettings_def ApplyUserPermissions_def UpdateUserChatlist_def UpsertUserAccount_def
  UpsertRoom_def UpsertRemoteRoomActivity_def DeleteRemoteRoomActivity_def BulkCreateSubscriptions_def
  BulkRefreshJoinedAt_def

end
