(* ===== verification/Inbox_Handler.thy ===== *)
theory Inbox_Handler
  imports Inbox_Store Subjects
begin

text \<open>
  The event handler of \<open>inbox-worker\<close> (\<open>src/inbox-worker/handler.go\<close>, \<open>roomsubcache.go\<close>,
  \<open>lanes.go\<close>): one definition per handler, and the two entry points \<open>HandleEvent\<close> and
  \<open>HandleRoomActivity\<close>. The state is the store, the membership cache and the log of cache
  invalidations sent to Valkey. What the worker is built from and the sources do not define is in
  \<open>inbox_env\<close>: the collection handles, the JSON decoders, the identifier source and the LRU the
  membership cache wraps. An error is permanent (the message is acknowledged) or transient (it is
  redelivered); the activity refresh has no acknowledgement and its errors are only logged.
\<close>

section \<open>Environment and state\<close>

record codec =
  decInboxEvent :: "string \<Rightarrow> InboxEvent option"
  decMemberAdd :: "string \<Rightarrow> MemberAddEvent option"
  decMemberRemove :: "string \<Rightarrow> MemberRemoveEvent option"
  decRoom :: "string \<Rightarrow> Room option"
  decSubscriptionUpdate :: "string \<Rightarrow> SubscriptionUpdateEvent option"
  decSubscriptionRead :: "string \<Rightarrow> SubscriptionReadEvent option"
  decMute :: "string \<Rightarrow> SubscriptionMuteToggledEvent option"
  decFavorite :: "string \<Rightarrow> SubscriptionFavoriteToggledEvent option"
  decSection :: "string \<Rightarrow> SubscriptionSectionMovedEvent option"
  decOpened :: "string \<Rightarrow> SubscriptionOpenedEvent option"
  decMention :: "string \<Rightarrow> SubscriptionMentionEvent option"
  decThreadSub :: "string \<Rightarrow> ThreadSubscription option"
  decThreadRead :: "string \<Rightarrow> ThreadReadEvent option"
  decThreadReadAll :: "string \<Rightarrow> ThreadReadAllEvent option"
  decThreadUnread :: "string \<Rightarrow> ThreadUnreadAddedEvent option"
  decRenamed :: "string \<Rightarrow> RoomRenamedInboxPayload option"
  decRestricted :: "string \<Rightarrow> RoomRestrictedInboxPayload option"
  decUserStatus :: "string \<Rightarrow> UserStatusUpdated option"
  decUserSettings :: "string \<Rightarrow> UserSettingsUpdated option"
  decUserPermissions :: "string \<Rightarrow> UserPermissionsUpdated option"
  decUserAccount :: "string \<Rightarrow> UserAccountUpdated option"
  decUserChatlist :: "string \<Rightarrow> UserChatlistUpdated option"
  decRoomActivity :: "string \<Rightarrow> RoomActivityEvent option"

text \<open>The expirable LRU of \<open>hashicorp/golang-lru\<close> as the cache uses it.\<close>

record 'c lru =
  lru_Get :: "'c \<Rightarrow> string \<Rightarrow> bool option"
  lru_Add :: "'c \<Rightarrow> string \<Rightarrow> bool \<Rightarrow> 'c"
  lru_Remove :: "'c \<Rightarrow> string \<Rightarrow> 'c"

definition lru_laws :: "'c lru \<Rightarrow> bool" where
  "lru_laws l \<longleftrightarrow>
     (\<forall>c k k' v w. lru_Get l (lru_Add l c k v) k' = Some w \<longrightarrow>
        (if k = k' then w = v else lru_Get l c k' = Some w))
   \<and> (\<forall>c k k' w. lru_Get l (lru_Remove l c k) k' = Some w \<longrightarrow> k \<noteq> k' \<and> lru_Get l c k' = Some w)"

record 'c inbox_env =
  store :: mongoInboxStore
  codecs :: codec
  badge :: bool
  valkey :: bool
  roomSubs :: "'c lru option"
  uuid :: "nat \<Rightarrow> string"

datatype cache_call = ClearRoom string string | ClearAll string | BustSubs string "string list"

record 'c inbox_state =
  db :: inbox_store
  cache :: 'c
  calls :: "cache_call list"
  uuids :: nat

datatype handler_err = Permanent string | Transient inbox_err | UnknownUsers "string list" | Invalid string

type_synonym outcome = "handler_err + unit"

definition call_store ::
  "(inbox_store \<Rightarrow> 'a res \<times> inbox_store) \<Rightarrow> 'c inbox_state \<Rightarrow> 'a res \<times> 'c inbox_state" where
  "call_store f st = (case f (db st) of (r, d) \<Rightarrow> (r, st\<lparr>db := d\<rparr>))"

fun outcome_of :: "'a res \<Rightarrow> outcome" where
  "outcome_of (Inl e) = Inl (Transient e)"
| "outcome_of (Inr _) = Inr ()"

text \<open>A handler that decodes its payload, makes one store call, and then its cache calls.\<close>

definition with_payload ::
  "(string \<Rightarrow> 'p option) \<Rightarrow> string \<Rightarrow> InboxEvent \<Rightarrow> ('p \<Rightarrow> 'c inbox_state \<Rightarrow> outcome \<times> 'c inbox_state)
     \<Rightarrow> 'c inbox_state \<Rightarrow> outcome \<times> 'c inbox_state" where
  "with_payload dec label evt k st =
     (case dec (ie_Payload evt) of None \<Rightarrow> (Inl (Permanent label), st) | Some p \<Rightarrow> k p st)"

definition log_badge :: "'c inbox_env \<Rightarrow> cache_call list \<Rightarrow> 'c inbox_state \<Rightarrow> 'c inbox_state" where
  "log_badge h cs st = (if badge h then st\<lparr>calls := calls st @ cs\<rparr> else st)"

definition BustSubs_call :: "'c inbox_env \<Rightarrow> string \<Rightarrow> string list \<Rightarrow> 'c inbox_state \<Rightarrow> 'c inbox_state" where
  "BustSubs_call h roomID accounts st =
     (if \<not> valkey h \<or> accounts = [] then st else st\<lparr>calls := calls st @ [BustSubs roomID accounts]\<rparr>)"

definition store_then ::
  "(inbox_store \<Rightarrow> 'a res \<times> inbox_store) \<Rightarrow> ('a \<Rightarrow> 'c inbox_state \<Rightarrow> 'c inbox_state)
     \<Rightarrow> 'c inbox_state \<Rightarrow> outcome \<times> 'c inbox_state" where
  "store_then f k st =
     (case call_store f st of (Inl e, st) \<Rightarrow> (Inl (Transient e), st) | (Inr x, st) \<Rightarrow> (Inr (), k x st))"

section \<open>The membership cache\<close>

definition rsc_get :: "'c inbox_env \<Rightarrow> 'c inbox_state \<Rightarrow> string \<Rightarrow> bool option" where
  "rsc_get h st roomID = (case roomSubs h of None \<Rightarrow> None | Some l \<Rightarrow> lru_Get l (cache st) roomID)"

definition rsc_set :: "'c inbox_env \<Rightarrow> string \<Rightarrow> bool \<Rightarrow> 'c inbox_state \<Rightarrow> 'c inbox_state" where
  "rsc_set h roomID subscribed st =
     (case roomSubs h of None \<Rightarrow> st | Some l \<Rightarrow> st\<lparr>cache := lru_Add l (cache st) roomID subscribed\<rparr>)"

definition rsc_fill :: "'c inbox_env \<Rightarrow> string \<Rightarrow> bool \<Rightarrow> 'c inbox_state \<Rightarrow> 'c inbox_state" where
  "rsc_fill h roomID subscribed st =
     (case roomSubs h of None \<Rightarrow> st
      | Some l \<Rightarrow> if lru_Get l (cache st) roomID \<noteq> None then st
          else st\<lparr>cache := lru_Add l (cache st) roomID subscribed\<rparr>)"

definition rsc_invalidate :: "'c inbox_env \<Rightarrow> string \<Rightarrow> 'c inbox_state \<Rightarrow> 'c inbox_state" where
  "rsc_invalidate h roomID st =
     (case roomSubs h of None \<Rightarrow> st | Some l \<Rightarrow> st\<lparr>cache := lru_Remove l (cache st) roomID\<rparr>)"

definition hasRoomSubscription :: "'c inbox_env \<Rightarrow> string \<Rightarrow> 'c inbox_state \<Rightarrow> bool res \<times> 'c inbox_state" where
  "hasRoomSubscription h roomID st =
     (case rsc_get h st roomID of
        Some subscribed \<Rightarrow> (Inr subscribed, st)
      | None \<Rightarrow>
          (case HasRoomSubscription (store h) roomID (db st) of
             Inl e \<Rightarrow> (Inl e, st)
           | Inr subscribed \<Rightarrow> (Inr subscribed, rsc_fill h roomID subscribed st)))"

section \<open>The activity refresh\<close>

definition HandleRoomActivity :: "'c inbox_env \<Rightarrow> string \<Rightarrow> 'c inbox_state \<Rightarrow> outcome \<times> 'c inbox_state" where
  "HandleRoomActivity h data st =
     (case decRoomActivity (codecs h) data of
        None \<Rightarrow> (Inl (Invalid ''unmarshal room activity event''), st)
      | Some evt \<Rightarrow>
          if ra_RoomID evt = '''' \<or> ra_LastMsgAt evt \<le> 0
          then (Inl (Invalid ''room activity event missing roomId or lastMsgAt''), st)
          else (case hasRoomSubscription h (ra_RoomID evt) st of
                  (Inl e, st) \<Rightarrow> (Inl (Transient e), st)
                | (Inr subscribed, st) \<Rightarrow>
                    if \<not> subscribed then (Inr (), st)
                    else store_then (UpsertRemoteRoomActivity (store h) (ra_RoomID evt) (ra_SiteID evt) (ra_LastMsgAt evt))
                           (\<lambda>_ st. st) st))"

section \<open>Membership\<close>

definition rolesForType :: "RoomType \<Rightarrow> Role list option" where
  "rolesForType t = (if t = RoomTypeChannel then Some [RoleUser] else None)"

definition subscriptionName :: "RoomType \<Rightarrow> string \<Rightarrow> string \<Rightarrow> string" where
  "subscriptionName roomType roomName requesterAccount =
     (if roomType = RoomTypeChannel \<or> roomType = RoomTypeDiscussion then roomName
      else if roomType = RoomTypeDM \<or> roomType = RoomTypeBotDM then requesterAccount
      else '''')"

definition member_room_type :: "MemberAddEvent \<Rightarrow> RoomType" where
  "member_room_type event = (if ma_RoomType event = '''' then RoomTypeChannel else ma_RoomType event)"

definition history_shared :: "MemberAddEvent \<Rightarrow> int option" where
  "history_shared event = (case ma_HistorySharedSince event of
     Some t \<Rightarrow> if t > 0 then Some t else None | None \<Rightarrow> None)"

definition new_subscription :: "MemberAddEvent \<Rightarrow> string \<Rightarrow> User \<Rightarrow> Subscription" where
  "new_subscription event i user =
     (let roomType = member_room_type event;
          name = subscriptionName roomType (ma_RoomName event) (ma_RequesterAccount event) in
      \<lparr>sub_ID = i,
       sub_User = \<lparr>su_ID = usr_ID user, su_Account = usr_Account user, su_IsBot = False\<rparr>,
       sub_RoomID = ma_RoomID event, sub_SiteID = ma_SiteID event,
       sub_Roles = rolesForType roomType, sub_Name = name,
       sub_RoomType = SubscriptionRowType roomType name, sub_IsSubscribed = False,
       sub_HistorySharedSince = history_shared event, sub_JoinedAt = ma_JoinedAt event,
       sub_LastSeenAt = None, sub_HasMention = False, sub_ThreadUnread = [], sub_Alert = False,
       sub_Muted = False, sub_Favorite = False, sub_SectionId = None, sub_SectionOrder = 0,
       sub_Open = True, sub_Restricted = False, sub_ExternalAccess = False,
       sub_FavoriteUpdatedAt = None, sub_MuteUpdatedAt = None, sub_RolesUpdatedAt = None,
       sub_NameUpdatedAt = None, sub_RestrictUpdatedAt = None, sub_SectionUpdatedAt = None,
       sub_Origin = ma_Origin event\<rparr>)"

text \<open>The loop over the event's accounts: the subscriptions of the known users, the identifiers
  used, and the unknown accounts.\<close>

definition user_map :: "User list \<Rightarrow> string \<Rightarrow> User option" where
  "user_map us = fold (\<lambda>u m. m(usr_Account u \<mapsto> u)) us Map.empty"

fun build_subs :: "'c inbox_env \<Rightarrow> MemberAddEvent \<Rightarrow> (string \<rightharpoonup> User) \<Rightarrow> string list \<Rightarrow> nat
  \<Rightarrow> Subscription list \<times> string list \<times> nat" where
  "build_subs h event m [] n = ([], [], n)"
| "build_subs h event m (account # rest) n =
     (case m account of
        None \<Rightarrow> (case build_subs h event m rest n of (subs, missing, n') \<Rightarrow> (subs, account # missing, n'))
      | Some user \<Rightarrow>
          (case build_subs h event m rest (n + 1) of (subs, missing, n') \<Rightarrow>
             (new_subscription event (uuid h n) user # subs, missing, n')))"

definition seed_remote_room :: "'c inbox_env \<Rightarrow> MemberAddEvent \<Rightarrow> 'c inbox_state \<Rightarrow> 'c inbox_state" where
  "seed_remote_room h event st =
     (case ma_LastMsgAt event of None \<Rightarrow> st
      | Some t \<Rightarrow> snd (call_store (UpsertRemoteRoomActivity (store h) (ma_RoomID event) (ma_SiteID event) t) st))"

definition add_members :: "'c inbox_env \<Rightarrow> MemberAddEvent \<Rightarrow> 'c inbox_state \<Rightarrow> outcome \<times> 'c inbox_state" where
  "add_members h event st =
     (case FindUsersByAccounts (store h) (ma_Accounts event) (db st) of
        Inl e \<Rightarrow> (Inl (Transient e), st)
      | Inr us \<Rightarrow>
          (case build_subs h event (user_map us) (ma_Accounts event) (uuids st) of (subs, missing, n) \<Rightarrow>
             (case (if subs = [] then (Inr (), st\<lparr>uuids := n\<rparr>)
                    else call_store (BulkCreateSubscriptions (store h) subs) (st\<lparr>uuids := n\<rparr>)) of
                (r, st) \<Rightarrow>
                  (case r of
                     Inl e \<Rightarrow> if \<not> IsDuplicateKeyError e then (Inl (Transient e), st)
                             else if missing \<noteq> [] then (Inl (UnknownUsers missing), st)
                             else (Inr (), seed_remote_room h event (rsc_set h (ma_RoomID event) True st))
                   | Inr _ \<Rightarrow>
                       if missing \<noteq> [] then (Inl (UnknownUsers missing), st)
                       else (Inr (), seed_remote_room h event (rsc_set h (ma_RoomID event) True st))))))"

definition handleMemberAdded :: "'c inbox_env \<Rightarrow> InboxEvent \<Rightarrow> 'c inbox_state \<Rightarrow> outcome \<times> 'c inbox_state" where
  "handleMemberAdded h evt =
     with_payload (decMemberAdd (codecs h)) ''unmarshal member_added payload'' evt (add_members h)"

definition handleMemberJoinedAtRefreshed :: "'c inbox_env \<Rightarrow> InboxEvent \<Rightarrow> 'c inbox_state \<Rightarrow> outcome \<times> 'c inbox_state" where
  "handleMemberJoinedAtRefreshed h evt =
     with_payload (decMemberAdd (codecs h)) ''unmarshal member_joinedat_refreshed payload'' evt
       (\<lambda>event st. if ma_Accounts event = [] then (Inr (), st)
          else store_then (BulkRefreshJoinedAt (store h) (ma_RoomID event)
                 (map (\<lambda>a. (a, ma_JoinedAt event)) (remdups (ma_Accounts event)))) (\<lambda>_ st. st) st)"

definition drop_ordering_row :: "'c inbox_env \<Rightarrow> string \<Rightarrow> 'c inbox_state \<Rightarrow> 'c inbox_state" where
  "drop_ordering_row h roomID st =
     (case hasRoomSubscription h roomID st of
        (Inl e, st) \<Rightarrow> st
      | (Inr stillMember, st) \<Rightarrow>
          if stillMember then st else snd (call_store (DeleteRemoteRoomActivity (store h) roomID) st))"

definition remove_members :: "'c inbox_env \<Rightarrow> MemberRemoveEvent \<Rightarrow> 'c inbox_state \<Rightarrow> outcome \<times> 'c inbox_state" where
  "remove_members h e st =
     (if mr_Accounts e = [] then (Inr (), st)
      else case call_store (DeleteSubscriptionsByAccounts (store h) (mr_RoomID e) (mr_Accounts e)) st of
        (Inl err, st) \<Rightarrow> (Inl (Transient err), st)
      | (Inr _, st) \<Rightarrow>
          (let st = BustSubs_call h (mr_RoomID e) (mr_Accounts e) st;
               st = rsc_invalidate h (mr_RoomID e) st;
               st = drop_ordering_row h (mr_RoomID e) st in
           store_then (DeleteThreadSubscriptions (store h) (mr_RoomID e) (mr_Accounts e))
             (\<lambda>_. log_badge h (map (\<lambda>a. ClearRoom a (mr_RoomID e)) (mr_Accounts e))) st))"

definition handleMemberRemoved :: "'c inbox_env \<Rightarrow> InboxEvent \<Rightarrow> 'c inbox_state \<Rightarrow> outcome \<times> 'c inbox_state" where
  "handleMemberRemoved h evt =
     with_payload (decMemberRemove (codecs h)) ''unmarshal member removed payload'' evt (remove_members h)"

section \<open>Rooms and subscriptions\<close>

definition handleRoomSync :: "'c inbox_env \<Rightarrow> InboxEvent \<Rightarrow> 'c inbox_state \<Rightarrow> outcome \<times> 'c inbox_state" where
  "handleRoomSync h evt =
     with_payload (decRoom (codecs h)) ''unmarshal room_sync payload'' evt
       (\<lambda>room. store_then (UpsertRoom (store h) room) (\<lambda>_ st. st))"

definition handleRoleUpdated :: "'c inbox_env \<Rightarrow> InboxEvent \<Rightarrow> 'c inbox_state \<Rightarrow> outcome \<times> 'c inbox_state" where
  "handleRoleUpdated h evt =
     with_payload (decSubscriptionUpdate (codecs h)) ''unmarshal role_updated payload'' evt
       (\<lambda>e st. let account = su_Account (sub_User (sue_Subscription e));
                   roomID = sub_RoomID (sue_Subscription e);
                   roles = (case sub_Roles (sue_Subscription e) of None \<Rightarrow> [] | Some rs \<Rightarrow> rs) in
          if roles = [] then (Inl (Permanent ''role_updated event has empty roles''), st)
          else store_then (UpdateSubscriptionRoles (store h) account roomID roles (sue_Timestamp e))
                 (\<lambda>_. BustSubs_call h roomID [account]) st)"

definition handleSubscriptionRead :: "'c inbox_env \<Rightarrow> InboxEvent \<Rightarrow> 'c inbox_state \<Rightarrow> outcome \<times> 'c inbox_state" where
  "handleSubscriptionRead h evt =
     with_payload (decSubscriptionRead (codecs h)) ''unmarshal subscription_read payload'' evt
       (\<lambda>e. store_then (UpdateSubscriptionRead (store h) (sr_RoomID e) (sr_Account e) (sr_LastSeenAt e) (sr_Alert e))
              (\<lambda>(applied, threadUnread).
                 if applied \<and> threadUnread = 0 then log_badge h [ClearRoom (sr_Account e) (sr_RoomID e)]
                 else (\<lambda>st. st)))"

definition handleSubscriptionMuteToggled :: "'c inbox_env \<Rightarrow> InboxEvent \<Rightarrow> 'c inbox_state \<Rightarrow> outcome \<times> 'c inbox_state" where
  "handleSubscriptionMuteToggled h evt =
     with_payload (decMute (codecs h)) ''unmarshal subscription_mute_toggled payload'' evt
       (\<lambda>e. store_then (UpdateSubscriptionMute (store h) (sm_RoomID e) (sm_Account e) (sm_Muted e) (sm_Timestamp e))
              (\<lambda>_. log_badge h [if sm_Muted e then ClearRoom (sm_Account e) (sm_RoomID e) else ClearAll (sm_Account e)]))"

definition handleSubscriptionFavoriteToggled :: "'c inbox_env \<Rightarrow> InboxEvent \<Rightarrow> 'c inbox_state \<Rightarrow> outcome \<times> 'c inbox_state" where
  "handleSubscriptionFavoriteToggled h evt =
     with_payload (decFavorite (codecs h)) ''unmarshal subscription_favorite_toggled payload'' evt
       (\<lambda>e. store_then (UpdateSubscriptionFavorite (store h) (sf_RoomID e) (sf_Account e) (sf_Favorite e) (sf_Timestamp e))
              (\<lambda>_ st. st))"

definition handleSubscriptionOpened :: "'c inbox_env \<Rightarrow> InboxEvent \<Rightarrow> 'c inbox_state \<Rightarrow> outcome \<times> 'c inbox_state" where
  "handleSubscriptionOpened h evt =
     with_payload (decOpened (codecs h)) ''unmarshal subscription_opened payload'' evt
       (\<lambda>e. store_then (UpdateSubscriptionOpen (store h) (so_RoomID e) (so_Account e) (so_Open e)) (\<lambda>_ st. st))"

definition handleSubscriptionSectionMoved :: "'c inbox_env \<Rightarrow> InboxEvent \<Rightarrow> 'c inbox_state \<Rightarrow> outcome \<times> 'c inbox_state" where
  "handleSubscriptionSectionMoved h evt =
     with_payload (decSection (codecs h)) ''unmarshal subscription_section_moved payload'' evt
       (\<lambda>e. store_then (UpdateSubscriptionSection (store h) (ss_RoomID e) (ss_Account e) (ss_SectionID e)
                          (ss_SectionOrder e) (ss_Timestamp e)) (\<lambda>_ st. st))"

definition handleSubscriptionMention :: "'c inbox_env \<Rightarrow> InboxEvent \<Rightarrow> 'c inbox_state \<Rightarrow> outcome \<times> 'c inbox_state" where
  "handleSubscriptionMention h evt =
     with_payload (decMention (codecs h)) ''unmarshal subscription_mention payload'' evt
       (\<lambda>e st. if sme_RoomID e = '''' \<or> sme_Accounts e = [] \<or> sme_MentionedAt e \<le> 0
          then (Inl (Permanent ''subscription_mention missing roomId, accounts or mentionedAt''), st)
          else store_then (SetSubscriptionMentions (store h) (sme_RoomID e) (sme_Accounts e) (sme_MentionedAt e))
                 (\<lambda>_ st. st) st)"

definition handleRoomRenamed :: "'c inbox_env \<Rightarrow> InboxEvent \<Rightarrow> 'c inbox_state \<Rightarrow> outcome \<times> 'c inbox_state" where
  "handleRoomRenamed h evt =
     with_payload (decRenamed (codecs h)) ''unmarshal room_renamed payload'' evt
       (\<lambda>p. store_then (UpdateSubscriptionNamesForRoom (store h) (rn_RoomID p) (rn_NewName p) (rn_Timestamp p))
              (\<lambda>_ st. st))"

definition handleRoomVisibilityChanged :: "'c inbox_env \<Rightarrow> InboxEvent \<Rightarrow> 'c inbox_state \<Rightarrow> outcome \<times> 'c inbox_state" where
  "handleRoomVisibilityChanged h evt =
     with_payload (decRestricted (codecs h)) ''unmarshal room_restricted payload'' evt
       (\<lambda>p st. case call_store (ApplySubscriptionRestriction (store h) (rr_RoomID p) (rr_Restricted p)
                   (rr_ExternalAccess p) (rr_OwnerAccount p) (rr_Timestamp p)) st of
          (Inl e, st) \<Rightarrow> (Inl (Transient e), st)
        | (Inr _, st) \<Rightarrow>
            (case ListSubscriptionAccountsByRoom (store h) (rr_RoomID p) (db st) of
               Inl e \<Rightarrow> (Inl (Transient e), st)
             | Inr accounts \<Rightarrow> (Inr (), BustSubs_call h (rr_RoomID p) accounts st)))"

section \<open>Threads\<close>

definition handleThreadSubscriptionUpserted :: "'c inbox_env \<Rightarrow> InboxEvent \<Rightarrow> 'c inbox_state \<Rightarrow> outcome \<times> 'c inbox_state" where
  "handleThreadSubscriptionUpserted h evt =
     with_payload (decThreadSub (codecs h)) ''unmarshal thread_subscription_upserted payload'' evt
       (\<lambda>sub. store_then (UpsertThreadSubscription (store h) sub) (\<lambda>_ st. st))"

definition handleThreadRead :: "'c inbox_env \<Rightarrow> InboxEvent \<Rightarrow> 'c inbox_state \<Rightarrow> outcome \<times> 'c inbox_state" where
  "handleThreadRead h evt =
     with_payload (decThreadRead (codecs h)) ''unmarshal thread_read payload'' evt
       (\<lambda>e. store_then (ApplyThreadRead (store h) (tr_RoomID e) (tr_ThreadRoomID e) (tr_Account e)
                          (tr_ParentMessageID e) (tr_LastSeenAt e))
              (\<lambda>_. log_badge h [ClearAll (tr_Account e)]))"

definition handleThreadReadAll :: "'c inbox_env \<Rightarrow> InboxEvent \<Rightarrow> 'c inbox_state \<Rightarrow> outcome \<times> 'c inbox_state" where
  "handleThreadReadAll h evt =
     with_payload (decThreadReadAll (codecs h)) ''unmarshal thread_read_all payload'' evt
       (\<lambda>e. store_then (ApplyThreadReadAll (store h) (tra_Account e) (tra_LastSeenAt e))
              (\<lambda>_. log_badge h [ClearAll (tra_Account e)]))"

definition handleThreadUnreadAdded :: "'c inbox_env \<Rightarrow> InboxEvent \<Rightarrow> 'c inbox_state \<Rightarrow> outcome \<times> 'c inbox_state" where
  "handleThreadUnreadAdded h evt =
     with_payload (decThreadUnread (codecs h)) ''unmarshal thread_unread_added payload'' evt
       (\<lambda>e. store_then (AddThreadUnread (store h) (tu_RoomID e) (tu_ParentMessageID e) (tu_Accounts e)) (\<lambda>_ st. st))"

section \<open>Users\<close>

definition handleUserStatusUpdated :: "'c inbox_env \<Rightarrow> InboxEvent \<Rightarrow> 'c inbox_state \<Rightarrow> outcome \<times> 'c inbox_state" where
  "handleUserStatusUpdated h evt =
     with_payload (decUserStatus (codecs h)) ''unmarshal user_status_updated payload'' evt
       (\<lambda>e. store_then (UpdateUserStatus (store h) (ust_Account e) (ust_StatusText e) (ust_StatusIsShow e) (ust_Timestamp e))
              (\<lambda>_ st. st))"

definition handleUserSettingsUpdated :: "'c inbox_env \<Rightarrow> InboxEvent \<Rightarrow> 'c inbox_state \<Rightarrow> outcome \<times> 'c inbox_state" where
  "handleUserSettingsUpdated h evt =
     with_payload (decUserSettings (codecs h)) ''unmarshal user_settings_updated payload'' evt
       (\<lambda>e. store_then (UpdateUserSettings (store h) (use_Account e) (use_Settings e) (use_Timestamp e)) (\<lambda>_ st. st))"

definition handleUserPermissionsUpdated :: "'c inbox_env \<Rightarrow> InboxEvent \<Rightarrow> 'c inbox_state \<Rightarrow> outcome \<times> 'c inbox_state" where
  "handleUserPermissionsUpdated h evt =
     with_payload (decUserPermissions (codecs h)) ''unmarshal user_permissions_updated payload'' evt
       (\<lambda>e st. case PermissionFieldName (up_Permission e) of
          None \<Rightarrow> (Inr (), st)
        | Some _ \<Rightarrow> store_then (ApplyUserPermissions (store h) (up_Permission e) (up_Accounts e) (up_State e))
                     (\<lambda>_ st. st) st)"

definition handleUserChatlistUpdated :: "'c inbox_env \<Rightarrow> InboxEvent \<Rightarrow> 'c inbox_state \<Rightarrow> outcome \<times> 'c inbox_state" where
  "handleUserChatlistUpdated h evt =
     with_payload (decUserChatlist (codecs h)) ''unmarshal user_chatlist_updated payload'' evt
       (\<lambda>e. store_then (UpdateUserChatlist (store h) (uc_Account e) (uc_Chatlist e) (uc_Timestamp e)) (\<lambda>_ st. st))"

definition handleUserAccountUpdated :: "'c inbox_env \<Rightarrow> InboxEvent \<Rightarrow> 'c inbox_state \<Rightarrow> outcome \<times> 'c inbox_state" where
  "handleUserAccountUpdated h evt =
     with_payload (decUserAccount (codecs h)) ''unmarshal user_account_updated payload'' evt
       (\<lambda>e. store_then (UpsertUserAccount (store h) e (ua_Timestamp e)) (\<lambda>_ st. st))"

section \<open>Dispatch\<close>

definition HandleEvent :: "'c inbox_env \<Rightarrow> string \<Rightarrow> 'c inbox_state \<Rightarrow> outcome \<times> 'c inbox_state" where
  "HandleEvent h data st =
     (case decInboxEvent (codecs h) data of
        None \<Rightarrow> (Inl (Permanent ''unmarshal inbox event''), st)
      | Some evt \<Rightarrow>
          (let t = ie_Type evt in
           if t = ''member_added'' then handleMemberAdded h evt st
           else if t = ''member_removed'' then handleMemberRemoved h evt st
           else if t = InboxMemberJoinedAtRefreshed then handleMemberJoinedAtRefreshed h evt st
           else if t = ''room_sync'' then handleRoomSync h evt st
           else if t = ''role_updated'' then handleRoleUpdated h evt st
           else if t = ''subscription_read'' then handleSubscriptionRead h evt st
           else if t = ''subscription_mute_toggled'' then handleSubscriptionMuteToggled h evt st
           else if t = ''subscription_favorite_toggled'' then handleSubscriptionFavoriteToggled h evt st
           else if t = ''subscription_opened'' then handleSubscriptionOpened h evt st
           else if t = ''thread_subscription_upserted'' then handleThreadSubscriptionUpserted h evt st
           else if t = ''thread_read'' then handleThreadRead h evt st
           else if t = InboxThreadReadAll then handleThreadReadAll h evt st
           else if t = InboxThreadUnreadAdded then handleThreadUnreadAdded h evt st
           else if t = InboxRoomRenamed then handleRoomRenamed h evt st
           else if t = InboxRoomRestricted then handleRoomVisibilityChanged h evt st
           else if t = InboxUserStatusUpdated then handleUserStatusUpdated h evt st
           else if t = InboxUserSettingsUpdated then handleUserSettingsUpdated h evt st
           else if t = InboxUserPermissionsUpdated then handleUserPermissionsUpdated h evt st
           else if t = InboxUserChatlistUpdated then handleUserChatlistUpdated h evt st
           else if t = InboxUserAccountUpdated then handleUserAccountUpdated h evt st
           else if t = InboxSubscriptionSectionMoved then handleSubscriptionSectionMoved h evt st
           else if t = InboxSubscriptionMention then handleSubscriptionMention h evt st
           else (Inr (), st)))"

section \<open>Lanes\<close>

definition isMembershipSubject :: "string \<Rightarrow> string \<Rightarrow> bool" where
  "isMembershipSubject subj siteID \<longleftrightarrow>
     subj = InboxExternal siteID InboxMemberAdded \<or> subj = InboxExternal siteID InboxMemberRemoved"

definition membershipLaneFloor :: int where
  "membershipLaneFloor = 1024"

definition membershipLaneCap :: "int \<Rightarrow> int" where
  "membershipLaneCap maxAckPending =
     (if maxAckPending < membershipLaneFloor then membershipLaneFloor else maxAckPending)"

end
