(* ===== verification/Inbox_Convergence.thy ===== *)
theory Inbox_Convergence
  imports Inbox_Handler
begin

text \<open>
  Federated writes are delivered at least once, in any order on the concurrent lane, and an attempt
  that fails may or may not have written. This theory shows which of the guarded writes of the
  inbox store leave the same documents whatever the delivery order was, from the contract of a
  last-writer-wins register, and shows on concrete documents which pairs of writes do not.
\<close>

section \<open>Registers that keep the newest write\<close>

text \<open>
  A write belongs to a register, the field that holds the high-water mark. A newer write of the same
  register hides an older one; writes of different registers must not touch each other's fields.
\<close>

locale lww_family =
  fixes applies :: "'e \<Rightarrow> doc \<Rightarrow> bool"
    and reg :: "'e \<Rightarrow> string"
    and stamp :: "'e \<Rightarrow> int"
    and wr :: "'e \<Rightarrow> doc \<Rightarrow> doc"
    and compat :: "'e \<Rightarrow> 'e \<Rightarrow> bool"
  assumes mark: "applies e d \<Longrightarrow> wr e d (reg e) = Some (BTime (stamp e))"
    and applies_wr: "applies e (wr e' d) = applies e d"
    and compat_cases: "compat a b \<Longrightarrow>
        (\<forall>d. \<not> (applies a d \<and> applies b d))
      \<or> (reg a = reg b \<and> stamp a \<noteq> stamp b
           \<and> (\<forall>d. wr a (wr b d) = wr a d) \<and> (\<forall>d. wr b (wr a d) = wr b d))
      \<or> ((\<forall>d. wr a (wr b d) = wr b (wr a d))
           \<and> (\<forall>d. wr a d (reg b) = d (reg b)) \<and> (\<forall>d. wr b d (reg a) = d (reg a)))"
begin

definition open_for :: "'e \<Rightarrow> doc \<Rightarrow> bool" where
  "open_for e d \<longleftrightarrow> applies e d \<and> sat (lt_guard (reg e) (BTime (stamp e))) d"

definition step :: "'e \<Rightarrow> doc \<Rightarrow> doc" where
  "step e d = (if open_for e d then wr e d else d)"

lemma open_for_marked:
  "d (reg e) = Some (BTime t) \<Longrightarrow> open_for e d \<longleftrightarrow> applies e d \<and> t < stamp e"
  by (simp add: open_for_def lt_guard_def)

lemma step_closed: "\<not> open_for e d \<Longrightarrow> step e d = d"
  by (simp add: step_def)

lemma step_open: "open_for e d \<Longrightarrow> step e d = wr e d"
  by (simp add: step_def)

lemma open_applies: "open_for e d \<Longrightarrow> applies e d"
  by (simp add: open_for_def)

lemma open_for_after:
  "applies e' d \<Longrightarrow> reg e = reg e' \<Longrightarrow> open_for e (wr e' d) \<longleftrightarrow> applies e d \<and> stamp e' < stamp e"
  using mark [of e' d] open_for_marked [of "wr e' d" e "stamp e'"] by (simp add: applies_wr)

lemma step_idem: "step e (step e d) = step e d"
proof (cases "open_for e d")
  case True
  then have "\<not> open_for e (wr e d)"
    using open_for_after [of e d e] open_applies by simp
  with True show ?thesis by (simp add: step_open step_closed)
qed (simp add: step_closed)

lemma open_mono:
  "open_for a d \<Longrightarrow> reg a = reg b \<Longrightarrow> stamp a < stamp b \<Longrightarrow> applies b d \<Longrightarrow> open_for b d"
  by (auto simp: open_for_def lt_guard_def split: option.splits elim: bson_less.elims)

lemma same_register_commute:
  assumes "reg a = reg b" "stamp a < stamp b" "\<And>d. wr b (wr a d) = wr b d"
  shows "step a (step b d) = step b (step a d)"
proof (cases "applies a d \<and> applies b d")
  case both: True
  show ?thesis
  proof (cases "open_for b d")
    case True
    then have "\<not> open_for a (wr b d)"
      using open_for_after [of b d a] assms both by simp
    moreover have "step b (step a d) = wr b d"
      using True assms both open_for_after [of a d b]
      by (cases "open_for a d") (simp_all add: step_open step_closed)
    ultimately show ?thesis using True by (simp add: step_open step_closed)
  next
    case False
    then have "\<not> open_for a d" using open_mono assms both by blast
    with False show ?thesis by (simp add: step_closed)
  qed
next
  case False
  then show ?thesis
    by (auto simp: step_def open_for_def applies_wr)
qed

lemma disjoint_commute:
  assumes "\<And>d. wr a (wr b d) = wr b (wr a d)" "\<And>d. wr a d (reg b) = d (reg b)"
    "\<And>d. wr b d (reg a) = d (reg a)"
  shows "step a (step b d) = step b (step a d)"
proof -
  have "open_for a (wr b d) = open_for a d" "open_for b (wr a d) = open_for b d" for d
    using assms by (simp_all add: open_for_def applies_wr lt_guard_def)
  then show ?thesis using assms(1) by (simp add: step_def)
qed

lemma step_commute: "compat a b \<Longrightarrow> step a (step b d) = step b (step a d)"
proof -
  assume "compat a b"
  from compat_cases [OF this] show ?thesis
  proof (elim disjE conjE)
    assume "\<forall>d. \<not> (applies a d \<and> applies b d)"
    then show ?thesis by (auto simp: step_def open_for_def applies_wr)
  next
    assume "reg a = reg b" "stamp a \<noteq> stamp b" "\<forall>d. wr a (wr b d) = wr a d" "\<forall>d. wr b (wr a d) = wr b d"
    then show ?thesis
      using same_register_commute [of a b] same_register_commute [of b a]
      by (cases "stamp a < stamp b") auto
  qed (use disjoint_commute [of a b] in blast)
qed

end

sublocale lww_family \<subseteq> conv: convergent_updates step compat
  by unfold_locales (rule step_commute, assumption, rule step_idem)

section \<open>The guarded subscription writes\<close>

text \<open>One constructor per guarded store method on subscriptions, with that method's arguments.\<close>

datatype sub_write =
    WRoles string string "Role list" int
  | WMute string string bool int
  | WFavorite string string bool int
  | WSection string string "string option" rat int
  | WRead string string int bool
  | WName string string int
  | WRestrict string bool bool string int

fun exec :: "mongoInboxStore \<Rightarrow> sub_write \<Rightarrow> inbox_store \<Rightarrow> unit res \<times> inbox_store" where
  "exec s (WRoles account roomID roles t) st = UpdateSubscriptionRoles s account roomID roles t st"
| "exec s (WMute roomID account muted t) st = UpdateSubscriptionMute s roomID account muted t st"
| "exec s (WFavorite roomID account favorite t) st = UpdateSubscriptionFavorite s roomID account favorite t st"
| "exec s (WSection roomID account sec order t) st = UpdateSubscriptionSection s roomID account sec order t st"
| "exec s (WRead roomID account t alert) st =
     (case UpdateSubscriptionRead s roomID account t alert st of (r, st) \<Rightarrow> (discard r, st))"
| "exec s (WName roomID name t) st = UpdateSubscriptionNamesForRoom s roomID name t st"
| "exec s (WRestrict roomID restricted ext owner t) st =
     ApplySubscriptionRestriction s roomID restricted ext owner t st"

fun w_filter :: "sub_write \<Rightarrow> filt" where
  "w_filter (WRoles account roomID roles t) = roles_filter account roomID t"
| "w_filter (WMute roomID account muted t) = mute_filter roomID account t"
| "w_filter (WFavorite roomID account favorite t) = favorite_filter roomID account t"
| "w_filter (WSection roomID account sec order t) = section_filter roomID account t"
| "w_filter (WRead roomID account t alert) = read_filter roomID account t"
| "w_filter (WName roomID name t) = name_filter roomID t"
| "w_filter (WRestrict roomID restricted ext owner t) = restrict_filter roomID t"

fun w_update :: "sub_write \<Rightarrow> update" where
  "w_update (WRoles account roomID roles t) = roles_update roles t"
| "w_update (WMute roomID account muted t) = mute_update muted t"
| "w_update (WFavorite roomID account favorite t) = favorite_update favorite t"
| "w_update (WSection roomID account sec order t) = section_update sec order t"
| "w_update (WRead roomID account t alert) = read_update t alert"
| "w_update (WName roomID name t) = name_update name t"
| "w_update (WRestrict roomID restricted ext owner t) = restrict_update restricted ext owner t"

fun w_room :: "sub_write \<Rightarrow> string" where
  "w_room (WRoles account roomID roles t) = roomID"
| "w_room (WMute roomID account muted t) = roomID"
| "w_room (WFavorite roomID account favorite t) = roomID"
| "w_room (WSection roomID account sec order t) = roomID"
| "w_room (WRead roomID account t alert) = roomID"
| "w_room (WName roomID name t) = roomID"
| "w_room (WRestrict roomID restricted ext owner t) = roomID"

fun w_account :: "sub_write \<Rightarrow> string option" where
  "w_account (WRoles account roomID roles t) = Some account"
| "w_account (WMute roomID account muted t) = Some account"
| "w_account (WFavorite roomID account favorite t) = Some account"
| "w_account (WSection roomID account sec order t) = Some account"
| "w_account (WRead roomID account t alert) = Some account"
| "w_account _ = None"

fun w_stamp :: "sub_write \<Rightarrow> int" where
  "w_stamp (WRoles account roomID roles t) = t"
| "w_stamp (WMute roomID account muted t) = t"
| "w_stamp (WFavorite roomID account favorite t) = t"
| "w_stamp (WSection roomID account sec order t) = t"
| "w_stamp (WRead roomID account t alert) = t"
| "w_stamp (WName roomID name t) = t"
| "w_stamp (WRestrict roomID restricted ext owner t) = t"

fun w_reg :: "sub_write \<Rightarrow> string" where
  "w_reg (WRoles account roomID roles t) = ''rolesUpdatedAt''"
| "w_reg (WMute roomID account muted t) = ''muteUpdatedAt''"
| "w_reg (WFavorite roomID account favorite t) = ''favoriteUpdatedAt''"
| "w_reg (WSection roomID account sec order t) = ''sectionUpdatedAt''"
| "w_reg (WRead roomID account t alert) = ''lastSeenAt''"
| "w_reg (WName roomID name t) = ''nameUpdatedAt''"
| "w_reg (WRestrict roomID restricted ext owner t) = ''restrictUpdatedAt''"

text \<open>The fields a write may change.\<close>

fun w_fields :: "sub_write \<Rightarrow> string list" where
  "w_fields (WRoles account roomID roles t) = [''roles'', ''rolesUpdatedAt'']"
| "w_fields (WMute roomID account muted t) = [''muted'', ''muteUpdatedAt'']"
| "w_fields (WFavorite roomID account favorite t) =
     [''favorite'', ''favoriteUpdatedAt''] @ (if favorite then [] else [''sectionId'', ''sectionOrder''])"
| "w_fields (WSection roomID account sec order t) =
     [''sectionId'', ''sectionOrder'', ''sectionUpdatedAt'', ''favorite'', ''favoriteUpdatedAt'']"
| "w_fields (WRead roomID account t alert) = [''lastSeenAt'', ''alert'']"
| "w_fields (WName roomID name t) = [''name'', ''nameUpdatedAt'']"
| "w_fields (WRestrict roomID restricted ext owner t) =
     [''restricted'', ''externalAccess'', ''restrictUpdatedAt'']
     @ (if restricted \<and> owner \<noteq> '''' then [''roles''] else [])"

text \<open>Two writes that may be delivered in either order: they aim at different subscriptions, or
  they write the same register with different stamps, or their fields are disjoint.\<close>

definition w_compat :: "sub_write \<Rightarrow> sub_write \<Rightarrow> bool" where
  "w_compat a b \<longleftrightarrow>
     w_room a \<noteq> w_room b
   \<or> (w_account a \<noteq> None \<and> w_account b \<noteq> None \<and> w_account a \<noteq> w_account b)
   \<or> (w_reg a = w_reg b \<and> w_stamp a \<noteq> w_stamp b \<and> set (w_fields a) = set (w_fields b))
   \<or> set (w_fields a) \<inter> set (w_fields b) = {}"

section \<open>The writes as a register family\<close>

text \<open>Every subscription document carries its room and account as strings.\<close>

definition wf_sub :: "doc \<Rightarrow> bool" where
  "wf_sub d \<longleftrightarrow> (case (d ''roomId'', d ''u.account'') of (Some (BStr _), Some (BStr _)) \<Rightarrow> True | _ \<Rightarrow> False)"

definition w_applies :: "sub_write \<Rightarrow> doc \<Rightarrow> bool" where
  "w_applies w d \<longleftrightarrow> wf_sub d \<and> d ''roomId'' = Some (BStr (w_room w))
     \<and> (case w_account w of None \<Rightarrow> True | Some a \<Rightarrow> d ''u.account'' = Some (BStr a))"

definition w_write :: "sub_write \<Rightarrow> doc \<Rightarrow> doc" where
  "w_write w d = upd (w_update w) d"

lemmas w_update_defs = roles_update_def mute_update_def favorite_update_def section_update_def
  read_update_def name_update_def restrict_update_def

lemmas w_filter_defs = roles_filter_def mute_filter_def favorite_filter_def section_filter_def
  read_filter_def name_filter_def restrict_filter_def sub_key_def

lemma w_write_other: "f \<notin> set (w_fields w) \<Longrightarrow> w_write w d f = d f"
  by (cases w) (auto simp: w_write_def w_update_defs apply_update_def set_fields_def
      restrict_map_def split: option.splits if_splits)

lemma w_write_dep:
  assumes "\<And>g. g \<in> set (w_fields w) \<Longrightarrow> d g = d' g" "d ''u.account'' = d' ''u.account''"
    "f \<in> set (w_fields w)"
  shows "w_write w d f = w_write w d' f"
  using assms
  by (cases w) (auto simp: w_write_def w_update_defs apply_update_def set_fields_def
      restrict_map_def split: option.splits if_splits)

lemma w_write_mark: "w_write w d (w_reg w) = Some (BTime (w_stamp w))"
  by (cases w) (auto simp: w_write_def w_update_defs apply_update_def set_fields_def
      restrict_map_def split: option.splits if_splits)

lemma key_not_written: "''u.account'' \<notin> set (w_fields w)" "''roomId'' \<notin> set (w_fields w)"
  by (cases w; auto split: if_splits)+

lemma w_reg_in_fields: "w_reg w \<in> set (w_fields w)"
  by (cases w) auto

lemma w_write_disjoint:
  assumes "set (w_fields a) \<inter> set (w_fields b) = {}"
  shows "w_write a (w_write b d) = w_write b (w_write a d)"
proof
  fix f
  have a: "w_write a (w_write b d) f = w_write a d f" if "f \<in> set (w_fields a)"
    by (rule w_write_dep [OF _ _ that]) (use assms in \<open>auto intro!: w_write_other simp: key_not_written\<close>)
  have b: "w_write b (w_write a d) f = w_write b d f" if "f \<in> set (w_fields b)"
    by (rule w_write_dep [OF _ _ that]) (use assms in \<open>auto intro!: w_write_other simp: key_not_written\<close>)
  show "w_write a (w_write b d) f = w_write b (w_write a d) f"
    using a b assms by (cases "f \<in> set (w_fields a)"; cases "f \<in> set (w_fields b)") (auto simp: w_write_other)
qed

text \<open>A write of the same register with the same fields hides the one below it; un-favoriting twice
  clears the section once.\<close>

lemma w_write_over:
  assumes "w_reg a = w_reg b" "set (w_fields a) = set (w_fields b)"
  shows "w_write a (w_write b d) = w_write a d"
proof
  fix f
  show "w_write a (w_write b d) f = w_write a d f"
  proof (cases "f \<in> set (w_fields a)")
    case True
    then show ?thesis
      using assms by (cases a; cases b) (auto simp: w_write_def w_update_defs apply_update_def
          set_fields_def restrict_map_def split: option.splits if_splits)
  next
    case False
    with assms show ?thesis by (simp add: w_write_other)
  qed
qed

lemma w_applies_write: "w_applies w (w_write w' d) = w_applies w d"
  by (simp add: w_applies_def wf_sub_def w_write_other key_not_written cong: option.case_cong)

interpretation subs: lww_family w_applies w_reg w_stamp w_write w_compat
proof
  show "w_write e d (w_reg e) = Some (BTime (w_stamp e))" for e d
    by (rule w_write_mark)
  show "w_applies e (w_write e' d) = w_applies e d" for e e' d
    by (rule w_applies_write)
next
  fix a b assume c: "w_compat a b"
  show "(\<forall>d. \<not> (w_applies a d \<and> w_applies b d))
      \<or> (w_reg a = w_reg b \<and> w_stamp a \<noteq> w_stamp b
           \<and> (\<forall>d. w_write a (w_write b d) = w_write a d) \<and> (\<forall>d. w_write b (w_write a d) = w_write b d))
      \<or> ((\<forall>d. w_write a (w_write b d) = w_write b (w_write a d))
           \<and> (\<forall>d. w_write a d (w_reg b) = d (w_reg b)) \<and> (\<forall>d. w_write b d (w_reg a) = d (w_reg a)))"
  proof (cases "set (w_fields a) \<inter> set (w_fields b) = {}")
    case True
    then have "\<forall>d. w_write a d (w_reg b) = d (w_reg b)" "\<forall>d. w_write b d (w_reg a) = d (w_reg a)"
      using w_reg_in_fields [of a] w_reg_in_fields [of b] by (auto intro!: w_write_other)
    with True w_write_disjoint show ?thesis by blast
  next
    case False
    with c show ?thesis
      using w_write_over [of a b] w_write_over [of b a]
      by (auto simp: w_compat_def w_applies_def)
  qed
qed

section \<open>What one delivery attempt does\<close>

text \<open>The subscriptions collection has the unique index on room and account.\<close>

definition sub_keys :: unique_keys where
  "sub_keys = [[''_id''], [''roomId'', ''u.account'']]"

definition subs_ok :: "doc list \<Rightarrow> bool" where
  "subs_ok c \<longleftrightarrow> unique sub_keys c \<and> (\<forall>d \<in> set c. wf_sub d)"

lemma sat_w_filter: "wf_sub d \<Longrightarrow> sat (w_filter w) d = subs.open_for w d"
  by (cases w) (auto simp: w_filter_defs subs.open_for_def w_applies_def wf_sub_def lt_guard_def
      field_is_def split: option.splits bson.splits)

lemma sat_sub_key:
  "wf_sub d \<Longrightarrow> sat (FAnd (sub_key roomID account)) d \<longleftrightarrow>
     d ''roomId'' = Some (BStr roomID) \<and> d ''u.account'' = Some (BStr account)"
  by (auto simp: sub_key_def wf_sub_def field_is_def split: option.splits bson.splits)

lemma update_where_step:
  "\<forall>d \<in> set c. wf_sub d \<Longrightarrow> update_where (w_filter w) (w_update w) c = map (subs.step w) c"
  by (auto simp: update_where_def subs.step_def sat_w_filter w_write_def)

lemma partly_step:
  "\<forall>d \<in> set c. wf_sub d \<Longrightarrow> partly_updated (w_filter w) (w_update w) c c' \<Longrightarrow>
     list_all2 (\<lambda>d d'. d' = d \<or> d' = subs.step w d) c c'"
  unfolding partly_updated_def list_all2_conv_all_nth
  by (metis nth_mem sat_w_filter subs.step_open w_write_def)

text \<open>What an attempt may leave: every document as it was or with the write applied, and on success
  every document with the write applied.\<close>

definition attempted :: "sub_write \<Rightarrow> doc list \<Rightarrow> unit res \<Rightarrow> doc list \<Rightarrow> bool" where
  "attempted w c r c' \<longleftrightarrow>
     list_all2 (\<lambda>d d'. d' = d \<or> d' = subs.step w d) c c' \<and> (r = Inr () \<longrightarrow> c' = map (subs.step w) c)"

lemma attempted_all: "attempted w c r (map (subs.step w) c)"
  by (simp add: attempted_def list_all2_conv_all_nth)

lemma attempted_partly:
  "subs_ok c \<Longrightarrow> partly_updated (w_filter w) (w_update w) c c' \<Longrightarrow> attempted w c (Inl e) c'"
  by (simp add: attempted_def subs_ok_def partly_step)

lemma w_filter_matching:
  assumes "subs_ok c" "w_account w = Some a"
  shows "matching (w_filter w) c \<le> 1"
proof (rule unique_key_matching)
  show "unique sub_keys c" using assms(1) by (simp add: subs_ok_def)
  show "[''roomId'', ''u.account''] \<in> set sub_keys" by (simp add: sub_keys_def)
  show "map d [''roomId'', ''u.account''] = [Some (BStr (w_room w)), Some (BStr a)]"
    if "d \<in> set c" "sat (w_filter w) d" for d
    using that assms by (auto simp: subs_ok_def sat_w_filter subs.open_for_def w_applies_def)
qed

lemma update_law_attempted:
  assumes "subs_ok c" "update_law (w_filter w) (w_update w) c (r, c')"
  shows "attempted w c (discard (wrap_err r)) c'"
  using assms attempted_partly attempted_all
  by (cases r) (auto simp: update_law_def subs_ok_def update_where_step)

lemma UpdateOne_attempted:
  assumes "subs_ok c" "mongo_laws sub_keys m" "w_account w = Some a"
    "UpdateOne m (w_filter w) (w_update w) c = (r, c')"
  shows "attempted w c (discard (wrap_err r)) c'"
proof -
  have "update_law (w_filter w) (w_update w) c (UpdateOne m (w_filter w) (w_update w) c)"
    using assms(2) w_filter_matching [OF assms(1,3)] by (simp add: mongo_laws_def)
  with assms update_law_attempted show ?thesis by simp
qed

lemma UpdateMany_attempted:
  assumes "subs_ok c" "mongo_laws sub_keys m" "UpdateMany m (w_filter w) (w_update w) c = (r, c')"
  shows "attempted w c (discard (wrap_err r)) c'"
proof -
  have "update_law (w_filter w) (w_update w) c (UpdateMany m (w_filter w) (w_update w) c)"
    using assms(2) by (simp add: mongo_laws_def)
  with assms update_law_attempted show ?thesis by simp
qed

lemma attempted_weaken: "attempted w c r c' \<Longrightarrow> (r' = Inr () \<Longrightarrow> r = Inr ()) \<Longrightarrow> attempted w c r' c'"
  by (auto simp: attempted_def)

lemma discard_wrap_Inr: "discard (wrap_err r) = Inr () \<longleftrightarrow> (\<exists>x. r = Inr x)"
  by (cases r) auto

lemma guarded_attempted:
  assumes "subs_ok (subscriptions st)" "mongo_laws sub_keys (subCol s)" "w_account w = Some a"
    "guarded_sub_update s account roomID (w_filter w) (w_update w) st = (r, st')"
  shows "attempted w (subscriptions st) r (subscriptions st') \<and> st' = st\<lparr>subscriptions := subscriptions st'\<rparr>"
proof -
  obtain r0 c' where u: "UpdateOne (subCol s) (w_filter w) (w_update w) (subscriptions st) = (r0, c')"
    by fastforce
  have "attempted w (subscriptions st) (discard (wrap_err r0)) c'"
    using UpdateOne_attempted [OF assms(1-3) u] .
  moreover have "st' = st\<lparr>subscriptions := c'\<rparr>" "r = Inr () \<Longrightarrow> \<exists>n. r0 = Inr n"
    using assms(4) u by (cases r0; auto simp: guarded_sub_update_def on_subs_def split: if_splits)+
  ultimately show ?thesis
    by (auto intro: attempted_weaken simp: discard_wrap_Inr)
qed

lemma FindOneAndUpdate_law:
  assumes "mongo_laws keys m" "matching f c \<le> 1"
  shows "case FindOneAndUpdate m f u c of
          (Inr r, c') \<Rightarrow> r = map_option (upd u) (find (sat f) c) \<and> c' = update_where f u c
        | (Inl e, c') \<Rightarrow> partly_updated f u c c'"
  using assms by (simp add: mongo_laws_def)

lemma read_attempted:
  assumes "subs_ok (subscriptions st)" "mongo_laws sub_keys (subCol s)" "w = WRead roomID account t alert"
    "UpdateSubscriptionRead s roomID account t alert st = (r, st')"
  shows "attempted w (subscriptions st) (discard r) (subscriptions st')
     \<and> st' = st\<lparr>subscriptions := subscriptions st'\<rparr>"
proof -
  let ?f = "w_filter w" and ?u = "w_update w" and ?c = "subscriptions st"
  obtain r0 c' where u: "FindOneAndUpdate (subCol s) ?f ?u ?c = (r0, c')" by fastforce
  have m: "matching ?f ?c \<le> 1" using w_filter_matching [OF assms(1), of w account] assms(3) by simp
  note FindOneAndUpdate_law [OF assms(2) m, of ?u]
  with u assms(1) have "attempted w ?c (discard (wrap_err r0)) c'"
    by (cases r0) (auto simp: attempted_partly attempted_all update_where_step subs_ok_def)
  moreover have "st' = st\<lparr>subscriptions := c'\<rparr>" "discard r = Inr () \<Longrightarrow> \<exists>x. r0 = Inr x"
    using assms(3,4) u
    by (cases r0; auto simp: UpdateSubscriptionRead_def on_subs_def split: option.splits sum.splits)+
  ultimately show ?thesis
    by (auto intro: attempted_weaken simp: discard_wrap_Inr)
qed

lemma many_attempted:
  assumes "subs_ok (subscriptions st)" "mongo_laws sub_keys (subCol s)"
    "(case on_subs (UpdateMany (subCol s) (w_filter w) (w_update w)) st of (r, st) \<Rightarrow> (discard r, st)) = (r, st')"
  shows "attempted w (subscriptions st) r (subscriptions st') \<and> st' = st\<lparr>subscriptions := subscriptions st'\<rparr>"
  using assms UpdateMany_attempted [OF assms(1,2)]
  by (auto simp: on_subs_def split: prod.splits)

lemma exec_attempted:
  assumes "subs_ok (subscriptions st)" "mongo_laws sub_keys (subCol s)" "exec s w st = (r, st')"
  shows "attempted w (subscriptions st) r (subscriptions st') \<and> st' = st\<lparr>subscriptions := subscriptions st'\<rparr>"
proof (cases w)
  case (WRead roomID account t alert)
  then obtain r0 where "UpdateSubscriptionRead s roomID account t alert st = (r0, st')" "r = discard r0"
    using assms(3) by (auto split: prod.splits)
  with read_attempted [OF assms(1,2) WRead] show ?thesis by simp
next
  case (WName roomID name t)
  with assms many_attempted [of st s w] show ?thesis by (simp add: UpdateSubscriptionNamesForRoom_def)
next
  case (WRestrict roomID restricted ext owner t)
  with assms many_attempted [of st s w] show ?thesis by (simp add: ApplySubscriptionRestriction_def)
qed (use assms guarded_attempted [OF assms(1,2), of w] in
    \<open>auto simp: UpdateSubscriptionRoles_def UpdateSubscriptionMute_def UpdateSubscriptionFavorite_def
       UpdateSubscriptionSection_def\<close>)

section \<open>Runs of deliveries\<close>

text \<open>A delivery run: every attempt has the collection handles as they behave at that moment (a
  driver may fail now and succeed later). The writes whose attempt succeeded are acknowledged.\<close>

fun deliver :: "(mongoInboxStore \<times> sub_write) list \<Rightarrow> inbox_store \<Rightarrow> sub_write list \<times> inbox_store" where
  "deliver [] st = ([], st)"
| "deliver ((s, w) # rest) st =
     (case exec s w st of (r, st) \<Rightarrow>
        (case deliver rest st of (acked, st) \<Rightarrow> (case r of Inr _ \<Rightarrow> w # acked | Inl _ \<Rightarrow> acked, st)))"

lemma step_keeps_keys: "subs.step w d ''_id'' = d ''_id''" "subs.step w d ''roomId'' = d ''roomId''"
  "subs.step w d ''u.account'' = d ''u.account''"
  by (cases w; auto simp: subs.step_def w_write_other split: if_splits)
     (auto simp: subs.step_def w_write_other key_not_written)

lemma wf_sub_step: "wf_sub (subs.step w d) = wf_sub d"
  unfolding wf_sub_def step_keeps_keys ..

lemma list_all2_map_eq: "list_all2 (\<lambda>x y. g x = g y) xs ys \<Longrightarrow> map g xs = map g ys"
  by (induction xs ys rule: list_all2_induct) auto

lemma attempted_subs_ok:
  assumes "attempted w c r c'" "subs_ok c"
  shows "subs_ok c'"
proof -
  have l: "list_all2 (\<lambda>d d'. d' = d \<or> d' = subs.step w d) c c'" using assms(1) by (simp add: attempted_def)
  have "map (\<lambda>d. map d k) c = map (\<lambda>d. map d k) c'" if "k \<in> set sub_keys" for k
    by (rule list_all2_map_eq, rule list_all2_mono [OF l]) (use that in \<open>auto simp: sub_keys_def step_keeps_keys\<close>)
  then have "unique sub_keys c'" using assms(2) by (simp add: subs_ok_def unique_def)
  moreover have "map wf_sub c = map wf_sub c'"
    by (rule list_all2_map_eq, rule list_all2_mono [OF l]) (auto simp: wf_sub_step)
  then have "\<forall>d \<in> set c'. wf_sub d"
    using assms(2) by (metis (no_types, lifting) subs_ok_def in_set_conv_nth length_map nth_map)
  ultimately show ?thesis by (simp add: subs_ok_def)
qed

lemma attempted_split:
  assumes "attempted w c r c'"
  shows "list_all2 (\<lambda>d d'. d' = subs.step w d \<or> (d' = d \<and> r \<noteq> Inr ())) c c'"
proof (cases "r = Inr ()")
  case True
  with assms have "c' = map (subs.step w) c" by (simp add: attempted_def)
  then show ?thesis by (simp add: list_all2_map2 list_all2_same)
next
  case False
  show ?thesis
    by (rule list_all2_mono [OF conjunct1 [OF assms [unfolded attempted_def]]]) (use False in blast)
qed

text \<open>After a run every document carries some sequence of the delivered writes, and every
  acknowledged write is in it.\<close>

lemma deliver_docs:
  assumes "subs_ok (subscriptions st)" "\<forall>(s, w) \<in> set run. mongo_laws sub_keys (subCol s)"
    "deliver run st = (acked, st')"
  shows "st' = st\<lparr>subscriptions := subscriptions st'\<rparr>
     \<and> list_all2 (\<lambda>d d'. \<exists>ws. d' = fold subs.step ws d \<and> set acked \<subseteq> set ws \<and> set ws \<subseteq> snd ` set run)
         (subscriptions st) (subscriptions st')"
  using assms
proof (induction run arbitrary: st acked st')
  case Nil
  then show ?case by (auto simp: list_all2_conv_all_nth intro!: exI [of _ "[]"])
next
  case (Cons a run)
  obtain s w where a: "a = (s, w)" by fastforce
  obtain r st1 where e: "exec s w st = (r, st1)" by fastforce
  obtain acked1 where d: "deliver run st1 = (acked1, st')"
    and acked: "acked = (case r of Inr _ \<Rightarrow> w # acked1 | Inl _ \<Rightarrow> acked1)"
    using Cons.prems(3) a e by (auto split: prod.splits)
  have "attempted w (subscriptions st) r (subscriptions st1) \<and> st1 = st\<lparr>subscriptions := subscriptions st1\<rparr>"
    by (rule exec_attempted [OF Cons.prems(1) _ e]) (use Cons.prems(2) a in simp)
  then have at: "attempted w (subscriptions st) r (subscriptions st1)"
    and st1: "st1 = st\<lparr>subscriptions := subscriptions st1\<rparr>" by (rule conjunct1, rule conjunct2)
  have law: "\<forall>(s, w) \<in> set run. mongo_laws sub_keys (subCol s)" using Cons.prems(2) by simp
  note step = Cons.IH [OF attempted_subs_ok [OF at Cons.prems(1)] law d]
  have ih: "st' = st1\<lparr>subscriptions := subscriptions st'\<rparr>"
    "list_all2 (\<lambda>d d'. \<exists>ws. d' = fold subs.step ws d \<and> set acked1 \<subseteq> set ws \<and> set ws \<subseteq> snd ` set run)
       (subscriptions st1) (subscriptions st')"
    by (rule conjunct1 [OF step], rule conjunct2 [OF step])
  let ?R = "\<lambda>d d'. \<exists>ws. d' = fold subs.step ws d \<and> set acked \<subseteq> set ws \<and> set ws \<subseteq> snd ` set (a # run)"
  have "list_all2 (\<lambda>d d'. d' = subs.step w d \<or> (d' = d \<and> r \<noteq> Inr ())) (subscriptions st) (subscriptions st1)"
    by (rule attempted_split [OF at])
  then have "list_all2 ?R (subscriptions st) (subscriptions st')"
  proof (rule list_all2_trans [rotated, OF _ ih(2)])
    fix d d1 d'
    assume 1: "d1 = subs.step w d \<or> (d1 = d \<and> r \<noteq> Inr ())"
    assume "\<exists>ws. d' = fold subs.step ws d1 \<and> set acked1 \<subseteq> set ws \<and> set ws \<subseteq> snd ` set run"
    then obtain ws where ws: "d' = fold subs.step ws d1" "set acked1 \<subseteq> set ws" "set ws \<subseteq> snd ` set run"
      by blast
    from 1 show "?R d d'"
    proof
      assume "d1 = subs.step w d"
      with ws acked a show ?thesis by (intro exI [of _ "w # ws"]) (auto split: sum.splits)
    next
      assume "d1 = d \<and> r \<noteq> Inr ()"
      with ws acked a show ?thesis by (intro exI [of _ ws]) (auto split: sum.splits)
    qed
  qed
  moreover have "st' = st\<lparr>subscriptions := subscriptions st'\<rparr>"
    by (subst ih(1), subst st1) simp
  ultimately show ?case by (rule conjI [rotated])
qed

lemma deliver_all_docs:
  assumes "subs_ok (subscriptions st)" "\<forall>(s, w) \<in> set run. mongo_laws sub_keys (subCol s)"
    "deliver run st = (acked, st')" "snd ` set run \<subseteq> set acked"
  shows "list_all2 (\<lambda>d d'. \<exists>ws. d' = fold subs.step ws d \<and> set ws = snd ` set run)
           (subscriptions st) (subscriptions st')"
  by (rule list_all2_mono [OF conjunct2 [OF deliver_docs [OF assms(1-3)]]]) (use assms(4) in blast)

lemma deliver_converges:
  assumes "subs_ok (subscriptions st)"
    "\<forall>(s, w) \<in> set run \<union> set run'. mongo_laws sub_keys (subCol s)"
    "deliver run st = (acked, st1)" "deliver run' st = (acked', st2)"
    "snd ` set run \<subseteq> set acked" "snd ` set run' \<subseteq> set acked'" "snd ` set run = snd ` set run'"
    "\<forall>a \<in> snd ` set run. \<forall>b \<in> snd ` set run. a \<noteq> b \<longrightarrow> w_compat a b"
  shows "st1 = st2"
proof -
  have laws: "\<forall>(s, w) \<in> set run. mongo_laws sub_keys (subCol s)" "\<forall>(s, w) \<in> set run'. mongo_laws sub_keys (subCol s)"
    using assms(2) by auto
  note 1 = deliver_all_docs [OF assms(1) laws(1) assms(3,5)]
  note 2 = deliver_all_docs [OF assms(1) laws(2) assms(4,6), folded assms(7)]
  have "subscriptions st1 = subscriptions st2"
  proof (rule nth_equalityI)
    show "length (subscriptions st1) = length (subscriptions st2)"
      using 1 2 by (auto dest!: list_all2_lengthD)
    fix i assume "i < length (subscriptions st1)"
    moreover have "fold subs.step ws d = fold subs.step ws' d"
      if "set ws = snd ` set run" "set ws' = snd ` set run" for ws ws' d
      by (rule subs.conv.convergence) (use that assms(8) in auto)
    ultimately show "subscriptions st1 ! i = subscriptions st2 ! i"
      using 1 2 unfolding list_all2_conv_all_nth by metis
  qed
  with deliver_docs [OF assms(1) laws(1) assms(3)] deliver_docs [OF assms(1) laws(2) assms(4)]
  show ?thesis by metis
qed

section \<open>High-water marks and acknowledgements\<close>

text \<open>The mark of a register: missing, or a time.\<close>

fun mark_le :: "bson option \<Rightarrow> bson option \<Rightarrow> bool" where
  "mark_le None _ = True"
| "mark_le (Some (BTime x)) (Some (BTime y)) = (x \<le> y)"
| "mark_le x y = (x = y)"

lemma mark_le_refl: "mark_le x x"
  by (cases "(x, x)" rule: mark_le.cases) auto

lemma step_marks: "mark_le (d (w_reg w)) (subs.step w d (w_reg w))"
proof (cases "subs.open_for w d")
  case True
  then have "subs.step w d (w_reg w) = Some (BTime (w_stamp w))" by (simp add: subs.step_open w_write_mark)
  moreover have "d (w_reg w) = None \<or> (\<exists>x. d (w_reg w) = Some (BTime x) \<and> x < w_stamp w)"
    using True by (auto simp: subs.open_for_def lt_guard_def split: option.splits elim: bson_less.elims)
  ultimately show ?thesis by auto
next
  case False
  then show ?thesis by (simp add: subs.step_closed mark_le_refl)
qed

lemma naks_Inr:
  assumes "mongo_laws sub_keys (subCol s)" "subs_ok (subscriptions st)"
    "naksIfSubscriptionMissing s account roomID st = Inr ()"
  shows "\<exists>d \<in> set (subscriptions st). d ''roomId'' = Some (BStr roomID) \<and> d ''u.account'' = Some (BStr account)"
proof -
  obtain d where "FindOne (subCol s) (FAnd (sub_key roomID account)) (subscriptions st) = Inr (Some d)"
    using assms(3) by (auto simp: naksIfSubscriptionMissing_def subscriptionExists_def
        split: sum.splits option.splits if_splits)
  then have "find (sat (FAnd (sub_key roomID account))) (subscriptions st) = Some d"
    using FindOne_success [OF assms(1)] by metis
  then have "d \<in> set (subscriptions st)" "sat (FAnd (sub_key roomID account)) d"
    by (auto simp: find_Some_iff)
  with assms(2) show ?thesis using sat_sub_key by (auto simp: subs_ok_def)
qed

lemma matched_applies:
  assumes "subs_ok c" "0 < matching (w_filter w) c"
  shows "\<exists>d \<in> set c. w_applies w d"
proof -
  have "matching (w_filter w) c \<noteq> 0" using assms(2) by simp
  then obtain d where "d \<in> set c" "sat (w_filter w) d" unfolding matching_0_iff by blast
  with assms(1) show ?thesis by (auto simp: subs_ok_def sat_w_filter dest: subs.open_applies)
qed

lemma wf_applies_key:
  "wf_sub d \<Longrightarrow> d ''roomId'' = Some (BStr (w_room w)) \<Longrightarrow> w_account w = Some a \<Longrightarrow>
     d ''u.account'' = Some (BStr a) \<Longrightarrow> w_applies w d"
  by (simp add: w_applies_def)

lemma guarded_ack_applies:
  assumes "subs_ok (subscriptions st)" "mongo_laws sub_keys (subCol s)" "w_account w = Some a"
    "guarded_sub_update s a (w_room w) (w_filter w) (w_update w) st = (Inr (), st')"
  shows "\<exists>d \<in> set (subscriptions st). w_applies w d"
proof -
  let ?c = "subscriptions st"
  note m = w_filter_matching [OF assms(1,3)]
  obtain n c' where u: "UpdateOne (subCol s) (w_filter w) (w_update w) ?c = (Inr n, c')"
    using assms(4) by (cases "UpdateOne (subCol s) (w_filter w) (w_update w) ?c"; cases "fst (UpdateOne (subCol s) (w_filter w) (w_update w) ?c)")
      (auto simp: guarded_sub_update_def on_subs_def)
  then have n: "n = matching (w_filter w) ?c" "c' = update_where (w_filter w) (w_update w) ?c"
    using UpdateOne_success [OF assms(2) m] by auto
  show ?thesis
  proof (cases "n = 0")
    case True
    then have "c' = ?c" using n by (simp add: update_where_none)
    then have "naksIfSubscriptionMissing s a (w_room w) st = Inr ()"
      using assms(4) u True by (auto simp: guarded_sub_update_def on_subs_def)
    from naks_Inr [OF assms(2,1) this] assms(1,3) show ?thesis
      by (auto simp: subs_ok_def intro: wf_applies_key)
  next
    case False
    with n matched_applies [OF assms(1)] show ?thesis by simp
  qed
qed

lemma read_ack_applies:
  assumes "subs_ok (subscriptions st)" "mongo_laws sub_keys (subCol s)"
    "UpdateSubscriptionRead s roomID account t alert st = (Inr x, st')"
  shows "\<exists>d \<in> set (subscriptions st). w_applies (WRead roomID account t alert) d"
proof -
  let ?w = "WRead roomID account t alert" and ?c = "subscriptions st"
  have m: "matching (w_filter ?w) ?c \<le> 1" using w_filter_matching [OF assms(1), of ?w account] by simp
  obtain r c' where u: "FindOneAndUpdate (subCol s) (read_filter roomID account t) (read_update t alert) ?c = (Inr r, c')"
    using assms(3) by (cases "FindOneAndUpdate (subCol s) (read_filter roomID account t) (read_update t alert) ?c";
        cases "fst (FindOneAndUpdate (subCol s) (read_filter roomID account t) (read_update t alert) ?c)")
      (auto simp: UpdateSubscriptionRead_def on_subs_def)
  note l = FindOneAndUpdate_law [OF assms(2) m, of "w_update ?w"]
  have r: "r = map_option (upd (w_update ?w)) (find (sat (w_filter ?w)) ?c)"
    "c' = update_where (w_filter ?w) (w_update ?w) ?c"
    using l u by auto
  show ?thesis
  proof (cases r)
    case None
    then have "matching (w_filter ?w) ?c = 0" using r(1) find_None_iff_matching by (metis option.map_disc_iff)
    then have "c' = ?c" using r(2) update_where_none by blast
    then have "naksIfSubscriptionMissing s account roomID st = Inr ()"
      using assms(3) u None by (auto simp: UpdateSubscriptionRead_def on_subs_def split: sum.splits)
    from naks_Inr [OF assms(2,1) this] assms(1) show ?thesis
      by (auto simp: subs_ok_def w_applies_def)
  next
    case (Some d)
    then have "matching (w_filter ?w) ?c \<noteq> 0" using r(1) unfolding find_None_iff_matching [symmetric] by auto
    with matched_applies [OF assms(1)] show ?thesis by simp
  qed
qed

lemma exec_ack_applies:
  assumes "subs_ok (subscriptions st)" "mongo_laws sub_keys (subCol s)" "w_account w = Some a"
    "exec s w st = (Inr (), st')"
  shows "\<exists>d \<in> set (subscriptions st). w_applies w d"
proof (cases w)
  case (WRead roomID account t alert)
  then obtain x where "UpdateSubscriptionRead s roomID account t alert st = (Inr x, st')"
    using assms(4) by (cases "UpdateSubscriptionRead s roomID account t alert st") (auto elim: discard.elims)
  with read_ack_applies [OF assms(1,2)] WRead show ?thesis by blast
qed (use assms(3,4) guarded_ack_applies [OF assms(1-3)] in
    \<open>auto simp: UpdateSubscriptionRoles_def UpdateSubscriptionMute_def UpdateSubscriptionFavorite_def
       UpdateSubscriptionSection_def\<close>)

lemma step_reaches_stamp:
  assumes "w_applies w d" "\<forall>v. d (w_reg w) = Some v \<longrightarrow> (\<exists>t. v = BTime t)"
  shows "\<exists>t. subs.step w d (w_reg w) = Some (BTime t) \<and> w_stamp w \<le> t"
proof (cases "subs.open_for w d")
  case True
  then show ?thesis by (simp add: subs.step_open w_write_mark)
next
  case False
  with assms show ?thesis
    by (cases "d (w_reg w)") (auto simp: subs.step_closed subs.open_for_def lt_guard_def)
qed

section \<open>Concrete stores\<close>

text \<open>A handle whose server is away: every call fails and nothing is written.\<close>

definition mongo_down :: mongo_collection where
  "mongo_down = \<lparr>
     UpdateOne = (\<lambda>f u c. (Inl (DriverErr ''timeout''), c)),
     UpsertOne = (\<lambda>f u c. (Inl (DriverErr ''timeout''), c)),
     UpdateMany = (\<lambda>f u c. (Inl (DriverErr ''timeout''), c)),
     FindOneAndUpdate = (\<lambda>f u c. (Inl (DriverErr ''timeout''), c)),
     BulkWrite = (\<lambda>ws c. (Inl (DriverErr ''timeout''), c)),
     InsertOne = (\<lambda>d c. (Inl (DriverErr ''timeout''), c)),
     DeleteOne = (\<lambda>f c. (Inl (DriverErr ''timeout''), c)),
     DeleteMany = (\<lambda>f c. (Inl (DriverErr ''timeout''), c)),
     FindOne = (\<lambda>f c. Inl (DriverErr ''timeout'')),
     Find = (\<lambda>f c. Inl (DriverErr ''timeout''))\<rparr>"

lemma partly_updated_refl: "partly_updated f u c c"
  by (simp add: partly_updated_def list_all2_same)

lemma mongo_down_laws: "mongo_laws keys mongo_down"
  unfolding mongo_laws_def mongo_down_def update_law_def delete_law_def
  by (auto simp: partly_updated_refl intro: exI [of _ "\<lambda>_. False"] exI [of _ "[]"])

definition up_handles :: mongoInboxStore where
  "up_handles = \<lparr>subCol = mongo_ok sub_keys, roomCol = mongo_ok [[''_id'']],
     userCol = mongo_ok [[''_id''], [''account'']],
     threadSubCol = mongo_ok [[''_id''], [''threadRoomId'', ''userAccount'']],
     remoteRoomCol = mongo_ok [[''_id'']]\<rparr>"

definition down_handles :: mongoInboxStore where
  "down_handles = \<lparr>subCol = mongo_down, roomCol = mongo_down, userCol = mongo_down,
     threadSubCol = mongo_down, remoteRoomCol = mongo_down\<rparr>"

definition demo_sub :: doc where
  "demo_sub = [''_id'' \<mapsto> BStr ''s1'', ''roomId'' \<mapsto> BStr ''r1'', ''u.account'' \<mapsto> BStr ''alice'',
     ''roles'' \<mapsto> BArr [BStr ''user'']]"

definition demo_store :: inbox_store where
  "demo_store = \<lparr>subscriptions = [demo_sub], rooms = [], users = [], thread_subscriptions = [], remote_rooms = []\<rparr>"

lemma demo_subs_ok: "subs_ok (subscriptions demo_store)"
  by (simp add: subs_ok_def demo_store_def unique_def wf_sub_def demo_sub_def)

lemma handles_laws: "mongo_laws sub_keys (subCol up_handles)" "mongo_laws sub_keys (subCol down_handles)"
  by (simp_all add: up_handles_def down_handles_def mongo_ok_laws mongo_down_laws)

lemmas run_eval = up_handles_def down_handles_def mongo_ok_def mongo_down_def demo_store_def demo_sub_def
  UpdateSubscriptionRoles_def UpdateSubscriptionMute_def UpdateSubscriptionFavorite_def
  UpdateSubscriptionSection_def UpdateSubscriptionRead_def UpdateSubscriptionNamesForRoom_def
  ApplySubscriptionRestriction_def guarded_sub_update_def on_subs_def naksIfSubscriptionMissing_def
  subscriptionExists_def update_where_def matching_def w_filter_defs w_update_defs lt_guard_def
  apply_update_def set_fields_def field_is_def

section \<open>Properties\<close>

text \<open>C26: At-least-once, out-of-order delivery converges. Take two delivery runs over the same set of
  guarded subscription writes (role, mute, favorite, section, read, rename, restrict), each attempt
  against collection handles that follow the documented MongoDB behaviour but may fail at any
  attempt, having written nothing, part or all of it. If in each run every delivered write was
  acknowledged at least once, and different writes are pairwise compatible (other subscription, same
  register with different stamps and the same fields, or disjoint fields), both runs leave the same
  store, whatever the order, the repetitions and the failures.\<close>

theorem concurrent_lane_converges:
  assumes "subs_ok (subscriptions st)"
    and "\<forall>(s, w) \<in> set run \<union> set run'. mongo_laws sub_keys (subCol s)"
    and "snd ` set run = snd ` set run'"
    and "snd ` set run \<subseteq> set (fst (deliver run st))"
    and "snd ` set run' \<subseteq> set (fst (deliver run' st))"
    and "\<forall>a \<in> snd ` set run. \<forall>b \<in> snd ` set run. a \<noteq> b \<longrightarrow> w_compat a b"
  shows "snd (deliver run st) = snd (deliver run' st)"
  using deliver_converges [OF assms(1,2) surjective_pairing surjective_pairing assms(4,5,3,6)] .

theorem concurrent_lane_converges_witness:
  "snd (deliver [(down_handles, WMute ''r1'' ''alice'' True 5), (up_handles, WRoles ''alice'' ''r1'' [''owner''] 9),
         (up_handles, WMute ''r1'' ''alice'' True 5), (up_handles, WMute ''r1'' ''alice'' False 3)] demo_store)
   = snd (deliver [(up_handles, WMute ''r1'' ''alice'' False 3), (up_handles, WMute ''r1'' ''alice'' True 5),
         (up_handles, WRoles ''alice'' ''r1'' [''owner''] 9)] demo_store)"
  apply (rule concurrent_lane_converges)
       apply (rule demo_subs_ok)
      apply (simp add: handles_laws)
     apply (simp add: insert_commute)
    apply (simp add: run_eval)
   apply (simp add: run_eval)
  apply (simp add: w_compat_def)
  done

text \<open>C28: An acknowledged write is in effect. When a guarded write on one subscription succeeds, the
  subscription exists and its high-water mark has reached the write's stamp: the write was applied
  or a newer one already was. A write whose subscription is missing is never acknowledged.\<close>

theorem ack_means_in_effect:
  assumes "subs_ok (subscriptions st)" and "mongo_laws sub_keys (subCol s)"
    and "\<forall>d \<in> set (subscriptions st). \<forall>v. d (w_reg w) = Some v \<longrightarrow> (\<exists>t. v = BTime t)"
    and "w_account w = Some a" and "exec s w st = (Inr (), st')"
  shows "\<exists>d \<in> set (subscriptions st'). d ''roomId'' = Some (BStr (w_room w)) \<and> d ''u.account'' = Some (BStr a)
     \<and> (\<exists>t. d (w_reg w) = Some (BTime t) \<and> w_stamp w \<le> t)"
proof -
  obtain d where d: "d \<in> set (subscriptions st)" "w_applies w d"
    using exec_ack_applies [OF assms(1,2,4,5)] by blast
  have "subscriptions st' = map (subs.step w) (subscriptions st)"
    using exec_attempted [OF assms(1,2,5)] by (simp add: attempted_def)
  with d step_reaches_stamp [of w d] assms(3,4) show ?thesis
    by (intro bexI [of _ "subs.step w d"]) (auto simp: step_keeps_keys w_applies_def)
qed

theorem ack_means_in_effect_witness:
  "\<exists>d \<in> set (subscriptions (snd (exec up_handles (WMute ''r1'' ''alice'' True 5) demo_store))).
     d ''roomId'' = Some (BStr ''r1'') \<and> d ''u.account'' = Some (BStr ''alice'')
     \<and> (\<exists>t. d ''muteUpdatedAt'' = Some (BTime t) \<and> 5 \<le> t)"
  using ack_means_in_effect [of demo_store up_handles "WMute ''r1'' ''alice'' True 5" "''alice''"
      "snd (exec up_handles (WMute ''r1'' ''alice'' True 5) demo_store)"] demo_subs_ok handles_laws(1)
  by (simp add: run_eval)

text \<open>No attempt moves a high-water mark backwards, whether it succeeds, fails, or fails after
  writing: on every subscription the mark of the write's register stays or grows.\<close>

theorem marks_never_regress:
  assumes "subs_ok (subscriptions st)" and "mongo_laws sub_keys (subCol s)" and "exec s w st = (r, st')"
  shows "list_all2 (\<lambda>d d'. mark_le (d (w_reg w)) (d' (w_reg w))) (subscriptions st) (subscriptions st')"
proof -
  have "list_all2 (\<lambda>d d'. d' = d \<or> d' = subs.step w d) (subscriptions st) (subscriptions st')"
    using exec_attempted [OF assms] by (simp add: attempted_def)
  then show ?thesis by (rule list_all2_mono) (auto simp: mark_le_refl step_marks)
qed

theorem marks_never_regress_witness:
  "list_all2 (\<lambda>d d'. mark_le (d ''lastSeenAt'') (d' ''lastSeenAt'')) (subscriptions demo_store)
     (subscriptions (snd (exec up_handles (WRead ''r1'' ''alice'' 7 False) demo_store)))"
  using marks_never_regress [OF demo_subs_ok handles_laws(1), of "WRead ''r1'' ''alice'' 7 False"
      "fst (exec up_handles (WRead ''r1'' ''alice'' 7 False) demo_store)"
      "snd (exec up_handles (WRead ''r1'' ''alice'' 7 False) demo_store)"]
  by simp

section \<open>Writes that do not commute\<close>

text \<open>The value a field has on the subscriptions after a run.\<close>

definition field_after :: "string \<Rightarrow> (mongoInboxStore \<times> sub_write) list \<Rightarrow> inbox_store \<Rightarrow> bson option list" where
  "field_after f run st = map (\<lambda>d. d f) (subscriptions (snd (deliver run st)))"

definition favorite_store :: inbox_store where
  "favorite_store = demo_store\<lparr>subscriptions := [demo_sub(''sectionId'' \<mapsto> BStr ''favorites'')]\<rparr>"

text \<open>A section move delivered late undoes a newer favorite toggle. Both events ride the
  order-insensitive lane. Delivered in stamp order the toggle at 9 wins over the move at 5; delivered
  the other way round, the move (guarded only by the section mark) overwrites the newer flag and
  winds its mark back to 5.\<close>

theorem late_section_move_undoes_favorite:
  "field_after ''favorite'' [(up_handles, WSection ''r1'' ''alice'' (Some ''teams'') 1 5),
     (up_handles, WFavorite ''r1'' ''alice'' True 9)] demo_store = [Some (BBool True)]
   \<and> field_after ''favorite'' [(up_handles, WFavorite ''r1'' ''alice'' True 9),
     (up_handles, WSection ''r1'' ''alice'' (Some ''teams'') 1 5)] demo_store = [Some (BBool False)]
   \<and> field_after ''favoriteUpdatedAt'' [(up_handles, WFavorite ''r1'' ''alice'' True 9),
     (up_handles, WSection ''r1'' ''alice'' (Some ''teams'') 1 5)] demo_store = [Some (BTime 5)]"
  by (simp add: field_after_def run_eval section_defs)

text \<open>A room restriction delivered late undoes a newer role change. The restriction at 5 rewrites
  every subscriber's roles and is guarded only by its own mark, so after the role change at 9 it
  still demotes the owner; in stamp order the owner keeps the role.\<close>

theorem late_restriction_undoes_roles:
  "field_after ''roles'' [(up_handles, WRestrict ''r1'' True False ''bob'' 5),
     (up_handles, WRoles ''alice'' ''r1'' [''owner''] 9)] demo_store = [Some (BArr [BStr ''owner''])]
   \<and> field_after ''roles'' [(up_handles, WRoles ''alice'' ''r1'' [''owner''] 9),
     (up_handles, WRestrict ''r1'' True False ''bob'' 5)] demo_store = [Some (BArr [BStr ''user''])]"
  by (simp add: field_after_def run_eval role_defs)

text \<open>A mention badge and the read that settles it do not commute on a replica. The mention of a
  message at 5 followed by a read at 9 leaves the badge set, since the replica's read write does not
  clear it; the read first makes the mention's guard reject it and the badge stays unset.\<close>

theorem mention_then_read_keeps_badge:
  "map (\<lambda>d. d ''hasMention'') (subscriptions (snd (UpdateSubscriptionRead up_handles ''r1'' ''alice'' 9 False
     (snd (SetSubscriptionMentions up_handles ''r1'' [''alice''] 5 demo_store))))) = [Some (BBool True)]
   \<and> map (\<lambda>d. d ''hasMention'') (subscriptions (snd (SetSubscriptionMentions up_handles ''r1'' [''alice''] 5
     (snd (UpdateSubscriptionRead up_handles ''r1'' ''alice'' 9 False demo_store))))) = [None]"
  by (simp add: run_eval SetSubscriptionMentions_def mention_filter_def)

text \<open>Favorite toggles alone do not converge on the section of a favorite chat. With the chat in
  the favorites section, un-favoriting at 5 and favoriting at 9 in order clears the section; in the
  other order the stale un-favorite is rejected and the section stays.\<close>

theorem favorite_toggles_diverge_on_section:
  "field_after ''sectionId'' [(up_handles, WFavorite ''r1'' ''alice'' False 5),
     (up_handles, WFavorite ''r1'' ''alice'' True 9)] favorite_store = [None]
   \<and> field_after ''sectionId'' [(up_handles, WFavorite ''r1'' ''alice'' True 9),
     (up_handles, WFavorite ''r1'' ''alice'' False 5)] favorite_store = [Some (BStr ''favorites'')]"
  by (simp add: field_after_def favorite_store_def run_eval section_defs)

end
