(* ===== verification/Js_Retry.thy ===== *)
theory Js_Retry
  imports Subjects Chat_Model
begin

text \<open>
  Settling a consumed message (\<open>src/pkg/jsretry\<close>) and the consumer settings that go with it
  (\<open>src/pkg/stream/consumer.go\<close>, \<open>stream.go\<close>). Durations are nanoseconds. The random draw of the
  jitter is an argument: \<open>rnd n\<close> is the value of \<open>rand.Int64N(n)\<close>, which lies in \<open>[0, n)\<close>.
\<close>

section \<open>Backoff\<close>

definition Millisecond :: int where "Millisecond = 1000000"
definition Second :: int where "Second = 1000 * Millisecond"
definition Minute :: int where "Minute = 60 * Second"
definition Hour :: int where "Hour = 60 * Minute"

lemmas duration_defs = Millisecond_def Second_def Minute_def Hour_def

definition minNakDelay :: int where "minNakDelay = Millisecond"

definition DefaultBackoff :: "int list" where
  "DefaultBackoff = [1 * Second, 5 * Second, 30 * Second, 2 * Minute, 10 * Minute]"

definition BackpressureBackoff :: "int list" where
  "BackpressureBackoff = [30 * Second, 1 * Minute, 2 * Minute, 5 * Minute, 10 * Minute]"

definition LowLatencyBackoff :: "int list" where
  "LowLatencyBackoff =
     [200 * Millisecond, 1 * Second, 5 * Second, 30 * Second, 2 * Minute, 10 * Minute]"

definition jitter :: "(int \<Rightarrow> int) \<Rightarrow> int \<Rightarrow> int" where
  "jitter rnd d = (if d \<le> minNakDelay then minNakDelay else d div 2 + rnd (d - d div 2 + 1))"

text \<open>The loop that walks the schedule: position \<open>i\<close>, current value \<open>base\<close>.\<close>

function walk_backoff :: "int list \<Rightarrow> nat \<Rightarrow> nat \<Rightarrow> int \<Rightarrow> int" where
  "walk_backoff backoff numDelivered i base =
     (if i < numDelivered \<and> i < length backoff
      then walk_backoff backoff numDelivered (i + 1) (backoff ! i) else base)"
  by auto
termination by (relation "measure (\<lambda>(b, n, i, _). length b - i)") auto

declare walk_backoff.simps [simp del]

definition backoffFor :: "(int \<Rightarrow> int) \<Rightarrow> nat option \<Rightarrow> int list \<Rightarrow> int" where
  "backoffFor rnd meta backoff =
     (if backoff = [] then minNakDelay
      else jitter rnd (case meta of None \<Rightarrow> backoff ! 0 | Some n \<Rightarrow> walk_backoff backoff n 1 (backoff ! 0)))"

definition delayAt :: "int list \<Rightarrow> nat \<Rightarrow> int" where
  "delayAt schedule i = schedule ! min i (length schedule - 1)"

definition minJitter :: "int \<Rightarrow> int" where
  "minJitter d = (if d \<le> minNakDelay then minNakDelay else d div 2)"

definition MinWindow :: "int list \<Rightarrow> int \<Rightarrow> int" where
  "MinWindow schedule deliveries =
     (if schedule = [] \<or> deliveries < 2 then 0
      else fold (\<lambda>i window. window + minJitter (delayAt schedule i)) [0..<nat (deliveries - 1)] 0)"

lemma minJitter_pos: "0 < minJitter d"
  by (auto simp: minJitter_def minNakDelay_def Millisecond_def not_le) 

function deliveries_loop :: "int list \<Rightarrow> int \<Rightarrow> int \<Rightarrow> nat \<Rightarrow> nat" where
  "deliveries_loop schedule want window n =
     (if window < want
      then deliveries_loop schedule want (window + minJitter (delayAt schedule (n - 1))) (n + 1)
      else n)"
  by auto
termination
  by (relation "measure (\<lambda>(s, want, window, n). nat (want - window))") (use minJitter_pos in auto)

declare deliveries_loop.simps [simp del]

definition DeliveriesFor :: "int list \<Rightarrow> int \<Rightarrow> nat" where
  "DeliveriesFor schedule want =
     (if schedule = [] then 0 else if want \<le> 0 then 1 else deliveries_loop schedule want 0 1)"

definition IsLastAttempt :: "nat \<Rightarrow> int \<Rightarrow> bool" where
  "IsLastAttempt numDelivered maxDeliver =
     (if maxDeliver \<le> 0 then False else int numDelivered \<ge> maxDeliver)"

section \<open>Settling\<close>

datatype proc_err = PermanentErr | TransientErr

datatype settlement = Ack | NakWithDelay int | TermWithReason string

definition settle :: "(int \<Rightarrow> int) \<Rightarrow> nat option \<Rightarrow> int list \<Rightarrow> proc_err option \<Rightarrow> settlement" where
  "settle rnd meta backoff err = (case err of
     None \<Rightarrow> Ack
   | Some PermanentErr \<Rightarrow> Ack
   | Some TransientErr \<Rightarrow> NakWithDelay (backoffFor rnd meta backoff))"

text \<open>The inbox worker's last word (\<open>src/inbox-worker/main.go\<close>).\<close>

definition lastAttemptFailed :: "nat option \<Rightarrow> int \<Rightarrow> proc_err option \<Rightarrow> bool" where
  "lastAttemptFailed meta maxDeliver err = (case err of
     None \<Rightarrow> False
   | Some PermanentErr \<Rightarrow> False
   | Some TransientErr \<Rightarrow>
       (case meta of None \<Rightarrow> False | Some n \<Rightarrow> IsLastAttempt n maxDeliver))"

definition settleFederated :: "(int \<Rightarrow> int) \<Rightarrow> nat option \<Rightarrow> int \<Rightarrow> proc_err option \<Rightarrow> settlement" where
  "settleFederated rnd meta maxDeliver err =
     (if \<not> lastAttemptFailed meta maxDeliver err then settle rnd meta DefaultBackoff err
      else TermWithReason ''max deliver exhausted'')"

section \<open>Heartbeats\<close>

definition minHeartbeatInterval :: int where "minHeartbeatInterval = Second"
definition DefaultHeartbeatMax :: int where "DefaultHeartbeatMax = 10 * Minute"

definition HeartbeatInterval :: "int \<Rightarrow> int" where
  "HeartbeatInterval ackWait = (if ackWait \<le> 0 then 0 else max (ackWait div 3) minHeartbeatInterval)"

definition resolvedMax :: "int \<Rightarrow> int" where
  "resolvedMax mx = (if mx \<le> 0 then DefaultHeartbeatMax else mx)"

section \<open>Consumer settings\<close>

record ConsumerSettings =
  AckWait :: int
  MaxDeliver :: int
  MaxWaiting :: int
  MaxAckPending :: int
  HeartbeatMax :: int
  BackOffSteps :: int
  BackOffFactor :: rat
  BackOffMax :: int

record ConsumerConfig =
  cc_Durable :: string
  cc_FilterSubjects :: "string list"
  cc_AckWait :: int
  cc_MaxDeliver :: int
  cc_MaxWaiting :: int
  cc_MaxAckPending :: int
  cc_BackOff :: "int list"

definition maxBackOffSteps :: int where "maxBackOffSteps = 32"

text \<open>\<open>scale d f\<close> is \<open>time.Duration(float64(d) * f)\<close>, whose rounding (and saturation on overflow) is
  the floating-point unit's; the schedule only relies on its own guard.\<close>

fun backoff_steps :: "(int \<Rightarrow> rat \<Rightarrow> int) \<Rightarrow> int \<Rightarrow> rat \<Rightarrow> nat \<Rightarrow> int \<Rightarrow> int list" where
  "backoff_steps scale mx factor 0 d = []"
| "backoff_steps scale mx factor (Suc n) d =
     (let d = (if mx > 0 \<and> d > mx then mx else d); next = scale d factor in
      d # backoff_steps scale mx factor n (if next < d then d else next))"

definition backOffSchedule :: "(int \<Rightarrow> rat \<Rightarrow> int) \<Rightarrow> ConsumerSettings \<Rightarrow> int list" where
  "backOffSchedule scale s =
     (let steps = (if BackOffSteps s > maxBackOffSteps then maxBackOffSteps else BackOffSteps s) in
      if steps \<le> 0 \<or> AckWait s \<le> 0 then []
      else let steps = (if MaxDeliver s > 0 \<and> steps > MaxDeliver s then MaxDeliver s else steps);
               factor = (if BackOffFactor s < 1 then 1 else BackOffFactor s);
               backOffMax = (if BackOffMax s > 0 \<and> BackOffMax s < AckWait s then AckWait s else BackOffMax s)
           in backoff_steps scale backOffMax factor (nat steps) (AckWait s))"

definition EffectiveAckWait :: "(int \<Rightarrow> rat \<Rightarrow> int) \<Rightarrow> ConsumerSettings \<Rightarrow> int" where
  "EffectiveAckWait scale s = (case backOffSchedule scale s of d # _ \<Rightarrow> d | [] \<Rightarrow> AckWait s)"

definition DurableConsumerDefaults :: "(int \<Rightarrow> rat \<Rightarrow> int) \<Rightarrow> ConsumerSettings \<Rightarrow> ConsumerConfig" where
  "DurableConsumerDefaults scale s = \<lparr>cc_Durable = '''', cc_FilterSubjects = [], cc_AckWait = AckWait s,
     cc_MaxDeliver = MaxDeliver s, cc_MaxWaiting = MaxWaiting s, cc_MaxAckPending = MaxAckPending s,
     cc_BackOff = backOffSchedule scale s\<rparr>"

definition DefaultMaxDeliver :: int where "DefaultMaxDeliver = 6"
definition DefaultMaxAckPending :: int where "DefaultMaxAckPending = 1000"
definition OutageRetryWindow :: int where "OutageRetryWindow = Hour"

definition WithOutageRetryBudget :: "ConsumerSettings \<Rightarrow> int list \<Rightarrow> ConsumerSettings" where
  "WithOutageRetryBudget s schedule =
     (if MaxDeliver s \<noteq> DefaultMaxDeliver then s
      else let n = int (DeliveriesFor schedule OutageRetryWindow) in
           if n > MaxDeliver s then s\<lparr>MaxDeliver := n\<rparr> else s)"

definition WithUnlimitedRedelivery :: "ConsumerSettings \<Rightarrow> ConsumerSettings" where
  "WithUnlimitedRedelivery s = s\<lparr>MaxDeliver := -1\<rparr>"

text \<open>The inbox worker's durable (\<open>src/inbox-worker/main.go\<close>).\<close>

definition federationMaxAckPending :: int where
  "federationMaxAckPending = 10 * DefaultMaxAckPending"

definition buildConsumerConfig :: "(int \<Rightarrow> rat \<Rightarrow> int) \<Rightarrow> ConsumerSettings \<Rightarrow> string \<Rightarrow> ConsumerConfig" where
  "buildConsumerConfig scale s siteID =
     (let cc = (DurableConsumerDefaults scale (WithOutageRetryBudget s DefaultBackoff))
                 \<lparr>cc_Durable := ''inbox-worker'', cc_FilterSubjects := [InboxExternalAll siteID]\<rparr> in
      if MaxAckPending s = DefaultMaxAckPending then cc\<lparr>cc_MaxAckPending := federationMaxAckPending\<rparr> else cc)"

section \<open>Lemmas\<close>

lemma walk_backoff_value:
  "0 < i \<Longrightarrow> i \<le> length b \<Longrightarrow> b \<noteq> [] \<Longrightarrow>
     walk_backoff b n i (b ! (i - 1)) = (if i < n then b ! (min n (length b) - 1) else b ! (i - 1))"
proof (induction b n i "b ! (i - 1)" rule: walk_backoff.induct)
  case (1 b n i)
  show ?case
  proof (cases "i < n \<and> i < length b")
    case True
    then have "walk_backoff b n i (b ! (i - 1)) = walk_backoff b n (i + 1) (b ! ((i + 1) - 1))"
      by (subst walk_backoff.simps) simp
    also have "\<dots> = (if i + 1 < n then b ! (min n (length b) - 1) else b ! i)"
      using 1(1) [OF True] True 1(4) by simp
    also have "\<dots> = b ! (min n (length b) - 1)"
    proof (cases "i + 1 < n")
      case False
      then have "n = i + 1" using True by simp
      then have "min n (length b) - 1 = i" using True by simp
      with False show ?thesis by simp
    qed simp
    finally show ?thesis using True by simp
  next
    case False
    then show ?thesis using 1(3) by (subst walk_backoff.simps) (auto simp: min_def)
  qed
qed

lemma backoffFor_delayAt:
  "b \<noteq> [] \<Longrightarrow> 0 < n \<Longrightarrow> backoffFor rnd (Some n) b = jitter rnd (delayAt b (n - 1))"
  using walk_backoff_value [of 1 b n]
  by (cases "n = 1") (auto simp: backoffFor_def delayAt_def min_def Suc_le_eq intro!: arg_cong [of _ _ "jitter rnd"])

lemma jitter_bounds:
  assumes "\<And>n. 0 < n \<Longrightarrow> 0 \<le> rnd n \<and> rnd n < n"
  shows "minJitter d \<le> jitter rnd d \<and> jitter rnd d \<le> max d minNakDelay"
proof (cases "d \<le> minNakDelay")
  case True
  then show ?thesis by (simp add: jitter_def minJitter_def)
next
  case False
  then have "0 < d" by (simp add: minNakDelay_def Millisecond_def)
  then have "0 < d - d div 2 + 1" by auto
  with assms [of "d - d div 2 + 1"] False show ?thesis by (auto simp: jitter_def minJitter_def)
qed

lemma fold_add_sum_list: "fold (\<lambda>i w. w + f i) xs a = a + (sum_list (map f xs) :: int)"
  by (induction xs arbitrary: a) auto

lemma MinWindow_sum:
  "s \<noteq> [] \<Longrightarrow> MinWindow s (int n) = (\<Sum>i<n - 1. minJitter (delayAt s i))"
  by (auto simp: MinWindow_def fold_add_sum_list sum_list_distinct_conv_sum_set lessThan_atLeast0 nat_diff_distrib
      split: if_splits)

lemma deliveries_loop_spec:
  assumes "s \<noteq> []" "0 < n" "window = (\<Sum>i<n - 1. minJitter (delayAt s i))"
    "\<forall>m < n. (\<Sum>i<m - 1. minJitter (delayAt s i)) < want" "0 < want"
  shows "want \<le> (\<Sum>i<deliveries_loop s want window n - 1. minJitter (delayAt s i))
     \<and> (\<forall>m < deliveries_loop s want window n. (\<Sum>i<m - 1. minJitter (delayAt s i)) < want)"
  using assms
proof (induction s want window n rule: deliveries_loop.induct)
  case (1 s want window n)
  show ?case
  proof (cases "window < want")
    case True
    have "window + minJitter (delayAt s (n - 1)) = (\<Sum>i<n + 1 - 1. minJitter (delayAt s i))"
      using 1(3,4) sum.lessThan_Suc [of "\<lambda>i. minJitter (delayAt s i)" "n - 1"] by simp
    moreover have "\<forall>m < n + 1. (\<Sum>i<m - 1. minJitter (delayAt s i)) < want"
      using 1(4,5) True by (auto simp: less_Suc_eq)
    ultimately show ?thesis
      using 1(1) [OF True] 1(2,6) True by (subst (1 2) deliveries_loop.simps) simp
  next
    case False
    with 1(4,5) show ?thesis by (subst (1 2) deliveries_loop.simps) simp
  qed
qed

lemma DeliveriesFor_spec:
  assumes "s \<noteq> []" "0 < want"
  shows "want \<le> MinWindow s (int (DeliveriesFor s want))
     \<and> (\<forall>m < DeliveriesFor s want. MinWindow s (int m) < want)"
  using deliveries_loop_spec [OF assms(1), of 1 0 want] assms
  by (auto simp: DeliveriesFor_def MinWindow_sum)

lemma nth_backoff_steps_bounds:
  assumes "0 < d" "mx \<le> 0 \<or> d \<le> mx"
  shows "sorted (backoff_steps scale mx factor n d)
     \<and> (\<forall>x \<in> set (backoff_steps scale mx factor n d). d \<le> x \<and> (0 < mx \<longrightarrow> x \<le> mx))"
  using assms
proof (induction n arbitrary: d)
  case (Suc n)
  define e where "e = (if scale d factor < d then d else scale d factor)"
  have e: "d \<le> e" by (simp add: e_def)
  have b: "backoff_steps scale mx factor (Suc n) d = d # backoff_steps scale mx factor n e"
    using Suc.prems by (auto simp: Let_def e_def)
  show ?case
  proof (cases "0 < mx \<and> mx < e")
    case False
    with Suc.IH [of e] Suc.prems e b show ?thesis by fastforce
  next
    case True
    have "backoff_steps scale mx factor n e = backoff_steps scale mx factor n mx"
      using True by (cases n) (simp_all add: Let_def)
    with Suc.IH [of mx] Suc.prems True b show ?thesis by fastforce
  qed
qed simp

lemma length_backoff_steps: "length (backoff_steps scale mx factor n d) = n"
  by (induction n arbitrary: d) (simp_all add: Let_def)

lemma backoff_steps_hd: "0 < n \<Longrightarrow> mx \<le> 0 \<or> d \<le> mx \<Longrightarrow> hd (backoff_steps scale mx factor n d) = d"
  by (cases n) (auto simp: Let_def)

section \<open>Properties\<close>

fun nak_delay :: "settlement \<Rightarrow> int" where
  "nak_delay (NakWithDelay d) = d"
| "nak_delay _ = 0"

text \<open>The delivery budget holds whatever the jitter draws. A message that fails transiently on
  every delivery, settled with a schedule, waits in total at least the wanted time before delivery
  number \<open>DeliveriesFor\<close> is reached, for every sequence of lawful draws; and no smaller count
  guarantees it.\<close>

theorem outage_budget_guaranteed:
  assumes "schedule \<noteq> []" and "0 < want"
    and "\<forall>k n. 0 < n \<longrightarrow> 0 \<le> rnd k n \<and> rnd k n < n"
  shows "want \<le> (\<Sum>k \<in> {1..<DeliveriesFor schedule want}.
            nak_delay (settle (rnd k) (Some k) schedule (Some TransientErr)))
     \<and> (\<forall>m < DeliveriesFor schedule want. MinWindow schedule (int m) < want)"
proof -
  let ?n = "DeliveriesFor schedule want"
  have "want \<le> (\<Sum>i<?n - 1. minJitter (delayAt schedule i))"
    using DeliveriesFor_spec [OF assms(1,2)] by (simp add: MinWindow_sum [OF assms(1)])
  also have "\<dots> = (\<Sum>k \<in> {1..<?n}. minJitter (delayAt schedule (k - 1)))"
    by (rule sum.reindex_bij_witness [of _ "\<lambda>k. k - 1" Suc]) auto
  also have "\<dots> \<le> (\<Sum>k \<in> {1..<?n}. nak_delay (settle (rnd k) (Some k) schedule (Some TransientErr)))"
  proof (rule sum_mono)
    fix k assume "k \<in> {1..<?n}"
    then show "minJitter (delayAt schedule (k - 1)) \<le> nak_delay (settle (rnd k) (Some k) schedule (Some TransientErr))"
      using jitter_bounds [of "rnd k"] assms(1,3) by (simp add: settle_def backoffFor_delayAt)
  qed
  finally show ?thesis using DeliveriesFor_spec [OF assms(1,2)] by blast
qed

theorem outage_budget_guaranteed_witness:
  "5 * Minute \<le> (\<Sum>k \<in> {1..<DeliveriesFor DefaultBackoff (5 * Minute)}.
            nak_delay (settle (\<lambda>_. 0) (Some k) DefaultBackoff (Some TransientErr)))"
  by (rule conjunct1 [OF outage_budget_guaranteed]) (simp_all add: DefaultBackoff_def duration_defs)

text \<open>A federated event is dropped only on the record. The inbox worker terminates a delivery
  exactly when a transient failure arrives on the last delivery of a bounded consumer; every other
  transient failure is redelivered after a strictly positive delay (never the instant redelivery a
  zero delay would mean); success and poison are acknowledged.\<close>

theorem federated_settlement:
  assumes "\<forall>n. 0 < n \<longrightarrow> 0 \<le> rnd n \<and> rnd n < n"
  shows "(settleFederated rnd (Some n) maxDeliver err = TermWithReason ''max deliver exhausted''
            \<longleftrightarrow> err = Some TransientErr \<and> 0 < maxDeliver \<and> maxDeliver \<le> int n)
     \<and> (settleFederated rnd (Some n) maxDeliver err = Ack \<longleftrightarrow> err \<noteq> Some TransientErr)
     \<and> (err = Some TransientErr \<longrightarrow> maxDeliver \<le> 0 \<or> int n < maxDeliver \<longrightarrow>
          (\<exists>d > 0. settleFederated rnd (Some n) maxDeliver err = NakWithDelay d))"
proof -
  have "0 < jitter rnd d" for d
    using jitter_bounds [of rnd d] assms minJitter_pos [of d] by fastforce
  then have "0 < backoffFor rnd (Some n) DefaultBackoff"
    by (simp add: backoffFor_def minNakDelay_def Millisecond_def)
  then show ?thesis
    by (auto simp: settleFederated_def lastAttemptFailed_def settle_def IsLastAttempt_def
        split: option.splits proc_err.splits if_splits)
qed

theorem federated_settlement_witness:
  "settleFederated (\<lambda>_. 0) (Some 17) 17 (Some TransientErr) = TermWithReason ''max deliver exhausted''"
  using federated_settlement [of "\<lambda>_. 0" 17 17 "Some TransientErr"] by simp

text \<open>The derived redelivery schedule is one the server accepts and means what the settings say:
  it is never longer than a positive delivery cap nor than the bound, never decreases, starts at the
  configured ack wait (which the server then adopts), and stays under a positive maximum raised to
  that wait, for every rounding of the scaled durations.\<close>

theorem backoff_schedule_valid:
  "sorted (backOffSchedule scale s)
   \<and> int (length (backOffSchedule scale s)) \<le> maxBackOffSteps
   \<and> (0 < MaxDeliver s \<longrightarrow> int (length (backOffSchedule scale s)) \<le> MaxDeliver s)
   \<and> EffectiveAckWait scale s = AckWait s
   \<and> (0 < BackOffMax s \<longrightarrow> (\<forall>d \<in> set (backOffSchedule scale s). d \<le> max (BackOffMax s) (AckWait s)))"
proof (cases "BackOffSteps s \<le> 0 \<or> AckWait s \<le> 0")
  case True
  then have "backOffSchedule scale s = []"
    by (auto simp: backOffSchedule_def Let_def maxBackOffSteps_def)
  then show ?thesis by (simp add: EffectiveAckWait_def maxBackOffSteps_def)
next
  case False
  define steps where "steps = min (min (BackOffSteps s) maxBackOffSteps)
     (if 0 < MaxDeliver s then MaxDeliver s else maxBackOffSteps)"
  define factor where "factor = (if BackOffFactor s < 1 then 1 else BackOffFactor s)"
  define mx where "mx = (if BackOffMax s > 0 \<and> BackOffMax s < AckWait s then AckWait s else BackOffMax s)"
  have b: "backOffSchedule scale s = backoff_steps scale mx factor (nat steps) (AckWait s)"
    using False by (auto simp: backOffSchedule_def Let_def steps_def factor_def mx_def maxBackOffSteps_def min_def)
  have pos: "0 < steps" "steps \<le> maxBackOffSteps" "0 < MaxDeliver s \<Longrightarrow> steps \<le> MaxDeliver s"
    using False by (auto simp: steps_def maxBackOffSteps_def)
  have mx: "0 < AckWait s" "mx \<le> 0 \<or> AckWait s \<le> mx" using False by (auto simp: mx_def)
  have "backOffSchedule scale s \<noteq> []"
    using pos(1) unfolding b by (metis length_backoff_steps length_greater_0_conv zero_less_nat_eq)
  then have "EffectiveAckWait scale s = AckWait s"
    using backoff_steps_hd [of "nat steps", OF _ mx(2)] pos(1)
    by (auto simp: EffectiveAckWait_def b split: list.split) (metis list.sel(1))
  moreover have "0 < BackOffMax s \<Longrightarrow> mx = max (BackOffMax s) (AckWait s)" using False by (auto simp: mx_def)
  ultimately show ?thesis
    using nth_backoff_steps_bounds [OF mx, of scale factor "nat steps"] pos False
    by (auto simp: b length_backoff_steps)
qed

theorem backoff_schedule_valid_witness:
  "int (length (backOffSchedule (\<lambda>d _. 2 * d) \<lparr>AckWait = 30 * Second, MaxDeliver = 3, MaxWaiting = 512,
     MaxAckPending = 1000, HeartbeatMax = 10 * Minute, BackOffSteps = 5, BackOffFactor = 2,
     BackOffMax = 8 * Minute\<rparr>)) \<le> 3"
  using backoff_schedule_valid [of "\<lambda>d _. 2 * d" "\<lparr>AckWait = 30 * Second, MaxDeliver = 3, MaxWaiting = 512,
     MaxAckPending = 1000, HeartbeatMax = 10 * Minute, BackOffSteps = 5, BackOffFactor = 2,
     BackOffMax = 8 * Minute\<rparr>"]
  by simp

text \<open>With the settings left at their defaults, the inbox worker's durable gets seventeen
  deliveries and ten times the default ack-pending budget; the workers that settle with the
  low-latency schedule need one more delivery for the same hour.\<close>

theorem default_outage_budget:
  "MaxDeliver s = DefaultMaxDeliver \<longrightarrow> MaxAckPending s = DefaultMaxAckPending \<longrightarrow>
     cc_MaxDeliver (buildConsumerConfig scale s siteID) = 17
     \<and> cc_MaxAckPending (buildConsumerConfig scale s siteID) = 10000
     \<and> DeliveriesFor LowLatencyBackoff OutageRetryWindow = 18"
proof -
  have "DeliveriesFor DefaultBackoff OutageRetryWindow = 17"
    "DeliveriesFor LowLatencyBackoff OutageRetryWindow = 18"
    by code_simp+
  then show ?thesis
    by (auto simp: buildConsumerConfig_def Let_def WithOutageRetryBudget_def DurableConsumerDefaults_def
        DefaultMaxDeliver_def federationMaxAckPending_def DefaultMaxAckPending_def)
qed

theorem default_outage_budget_witness:
  "cc_MaxDeliver (buildConsumerConfig (\<lambda>d _. 2 * d) \<lparr>AckWait = 30 * Second, MaxDeliver = 6, MaxWaiting = 512,
     MaxAckPending = 1000, HeartbeatMax = 10 * Minute, BackOffSteps = 5, BackOffFactor = 2,
     BackOffMax = 8 * Minute\<rparr> ''site-a'') = 17"
  using default_outage_budget [of "\<lparr>AckWait = 30 * Second, MaxDeliver = 6, MaxWaiting = 512,
     MaxAckPending = 1000, HeartbeatMax = 10 * Minute, BackOffSteps = 5, BackOffFactor = 2,
     BackOffMax = 8 * Minute\<rparr>" "\<lambda>d _. 2 * d" "''site-a''"]
  by (simp add: DefaultMaxDeliver_def DefaultMaxAckPending_def)

end
