(* ===== verification/Subject_Props.thy ===== *)
theory Subject_Props
  imports Subjects
begin

text \<open>
  Properties of \<open>pkg/subject\<close> that no route is needed for: the account transform, the reply
  inbox, the outbox subject, the namespace of room events, and the split of all subjects into the
  client namespace and the rest.
\<close>

section \<open>Helpers\<close>

lemma length5_conv: "length xs = 5 \<longleftrightarrow> (\<exists>a b c d e. xs = [a, b, c, d, e])"
  by (auto simp: length_Suc_conv eval_nat_numeral)

lemma Encode_suffix:
  "HasSuffix (EncodeAccount a) ''_bot'' \<longleftrightarrow> HasSuffix a ''.bot'' \<or> HasSuffix a ''_bot''"
proof
  assume "HasSuffix (EncodeAccount a) ''_bot''"
  then obtain xs where "EncodeAccount a = xs @ ''_bot''" by (auto simp: HasSuffix_iff)
  then obtain ys zs where a: "a = ys @ zs" and zs: "EncodeAccount zs = ''_bot''"
    by (auto simp: EncodeAccount_def ReplaceByte_def map_eq_append_conv)
  from zs have "zs = ''.bot'' \<or> zs = ''_bot''"
    by (auto simp: EncodeAccount_def ReplaceByte_def map_eq_Cons_conv split: if_splits)
  with a show "HasSuffix a ''.bot'' \<or> HasSuffix a ''_bot''" by (auto simp: HasSuffix_iff)
next
  assume "HasSuffix a ''.bot'' \<or> HasSuffix a ''_bot''"
  then show "HasSuffix (EncodeAccount a) ''_bot''"
    by (auto simp: HasSuffix_iff EncodeAccount_def ReplaceByte_def)
qed

lemma Split_Outbox: "Split CHR ''.'' (Outbox orig dest ev)
  = ''chat'' # ''outbox'' # Split CHR ''.'' orig @ Split CHR ''.'' dest @ Split CHR ''.'' ev"
  by (simp add: Outbox_def Split_append_sep)

text \<open>All concrete subjects, by who may publish on them. A subject of a guarded builder is the
  value it returns when its guard passes.\<close>

definition client_subjects :: "string \<Rightarrow> string \<Rightarrow> string \<Rightarrow> string \<Rightarrow> string list" where
  "client_subjects a r s x =
    [MsgSend a r s, MsgGet a r s, MsgGetIDs a r s, UserResponse a x, UserRoomUpdate a,
      UserMsgStream a, MemberRoleUpdate a r s, RoomRename a r s, MemberRemove a r s,
      MemberList a r s, SubscriptionUpdate a, SettingsUpdate a, ChatlistUpdate a,
      RoomMetadataChanged a, Notification a, UserRoomEvent a, RoomKeyUpdate a, RoomKeyGet a r s,
      MemberStatuses a r s, MentionableSubscriptions a r s, PresenceQueryBatch s,
      PresenceState a, MemberAdd a r s, MessageRead a r s, MessageReadReceipt a r s,
      MessageThreadRead a r s, MuteToggle a r s, FavoriteToggle a r s, MoveChat a r s,
      OpenRoom a r s, RoomCreate a s, SearchMessages a s, SearchRooms a s, SearchApps a s,
      SearchUsers a s, SearchOrgs a s, TranslateRequest a s]"

definition guarded_client_subjects :: "string \<Rightarrow> string \<Rightarrow> string \<Rightarrow> string go list" where
  "guarded_client_subjects a r s =
    [MsgHistory a r s, MsgThread a r s, MsgEdit a r s, MsgDelete a r s, MsgPin a r s,
      MsgUnpin a r s, MsgPinnedList a r s, MsgReact a r s, RoomAppTabs a r s,
      RoomAppCmdMenu a r s, EmojiList a s, EmojiDelete a s, TeamsRoomCall a r s,
      TeamsMeeting a r s, TeamsUserCall a s, UserStatusGetByName a s, UserProfileGetByName a s,
      UserStatusSet a s, UserSubscriptionGetChannels a s, UserSubscriptionGetDM a s,
      UserSubscriptionCount a s, UserAppsList a s, UserAppsCategories a s, UserSSOSet a s,
      UserSSORefresh a s, UserMe a s, UserSubscriptionList a s, UserSettingsGet a s,
      UserSettingsSet a s, UserPriorityContactsGet a s, UserPriorityContactsAdd a s,
      UserPriorityContactsRemove a s, UserChatlistGet a s, UserChatlistSectionCreate a s,
      UserChatlistSectionDelete a s, UserChatlistSectionRename a s,
      UserChatlistSectionReorder a s, UserChatlistSectionSetSortMode a s, UserThreadList a s,
      UserThreadUnreadSummary a s, UserThreadReadAll a s, UserSubscriptionSetAppSubscription a s,
      UserSubscriptionGetByRoomID a s]"

definition server_subjects ::
  "string \<Rightarrow> string \<Rightarrow> string \<Rightarrow> string \<Rightarrow> string \<Rightarrow> string \<Rightarrow> bool \<Rightarrow> string list" where
  "server_subjects r s u x y z g =
    [RoomsGet s, RoomMetadataUpdate r g, RoomMsgStream r g, RoomRestricted s, RoomCanonical s x,
      RoomTeamsCanonicalCreate s, RoomCanonicalMemberEvent s x, Outbox x y z, InboxExternal s x,
      InboxInternal s x, InboxExternalAll s, RoomActivity x, MsgCanonicalCreated s,
      MsgTeamsCanonicalBatch s, MsgCanonicalUpdated s, MsgCanonicalDeleted s,
      MigrationInternalMsgEdit s, MigrationInternalMsgDelete s, MsgCanonicalPinned s,
      MsgCanonicalUnpinned s, MsgCanonicalReacted s, RoomEvent r g, RoomsInfoBatch s,
      ThreadRoomInfoBatch s, RoomThreadReadAll s, RoomThreadReadAllSubscribe s,
      ThreadSubscriptionList s, RoomKeyEnsure s, RoomCreateDMSync s, RoomsInfoBatchSubscribe s,
      PresenceQueryBatchPeer s, RoomMemberEvent r g, BadgeCountBatch s, PushNotification s,
      PushNotificationFilter s, ServerBroadcastThreadTCount s, PresenceSnapshot s,
      MigrationOplog s x y, OrgSyncEmployeesUpsert x, OrgSyncUsersUpsert x, EmployeesQuit s,
      ServerBotMsgRoomSend s r, ServerBotDMSend s u, ServerBotRoomCreate s,
      ServerBotRoomMemberAdd s r, ServerBotRoomMemberRemove s r, ServerBotRoomGet s,
      ServerBotRoomDMEnsure s, BotCanonicalCreated s, BotPushNotification s x]"

section \<open>Properties\<close>

text \<open>decoding an encoded account gives the account back exactly when the account holds no
  underscore (for an account that ends in \<open>.bot\<close> or \<open>_bot\<close>) or no dot (for any other).\<close>

theorem account_roundtrip:
  "DecodeAccount (EncodeAccount a) = a \<longleftrightarrow>
     (if HasSuffix a ''.bot'' \<or> HasSuffix a ''_bot'' then CHR ''_'' \<notin> set a else CHR ''.'' \<notin> set a)"
proof (cases "HasSuffix a ''.bot'' \<or> HasSuffix a ''_bot''")
  case True
  have "ReplaceByte CHR ''_'' CHR ''.'' (EncodeAccount a) = a \<longleftrightarrow> CHR ''_'' \<notin> set a"
    by (induction a) (auto simp: EncodeAccount_def ReplaceByte_def)
  with True show ?thesis by (auto simp: DecodeAccount_def Encode_suffix)
next
  case False
  have "EncodeAccount a = a \<longleftrightarrow> CHR ''.'' \<notin> set a"
    by (induction a) (auto simp: EncodeAccount_def ReplaceByte_def)
  with False show ?thesis by (auto simp: DecodeAccount_def Encode_suffix)
qed

text \<open>the reply inbox of an account is its own namespace and nothing more. When the builder
  returns, the prefix has exactly three tokens, its last token is the encoded account and holds no
  wildcard; an account that would leave a wildcard panics.\<close>

theorem inbox_prefix_own_namespace:
  "case UserInboxPrefix a of
     Inr p \<Rightarrow> Split CHR ''.'' p = [''chat'', ''user'', EncodeAccount a] \<and> IsClientFacing p
       \<and> CHR ''*'' \<notin> set a \<and> CHR ''>'' \<notin> set a
   | Inl f \<Rightarrow> f = Panic ''invalid account token: contains NATS wildcard characters''
       \<and> \<not> IsValidAccountToken (EncodeAccount a)"
proof -
  have wild: "c \<in> set (EncodeAccount a)" if "c \<in> set a" "c \<noteq> CHR ''.''" for c
    using that by (auto simp: EncodeAccount_def ReplaceByte_def)
  show ?thesis
    using wild [of "CHR ''*''"] wild [of "CHR ''>''"]
      valid_token_no_star [of "EncodeAccount a"] valid_token_no_gt [of "EncodeAccount a"]
    by (auto simp: UserInboxPrefix_def Let_def Split_no_sep IsClientFacing_def UserPrefix_def
        HasPrefix_def isValidAccountToken_def)
qed

text \<open>an outbox subject and its three parts determine each other: the parser accepts exactly
  the subjects the builder makes from non-empty, dot-free parts, and returns those parts.\<close>

theorem outbox_subject_roundtrip:
  "ParseOutbox subj = Some (orig, dest, ev) \<longleftrightarrow>
     subj = Outbox orig dest ev
     \<and> list_all (\<lambda>t. t \<noteq> '''' \<and> CHR ''.'' \<notin> set t) [orig, dest, ev]"
proof
  assume p: "ParseOutbox subj = Some (orig, dest, ev)"
  then have s: "Split CHR ''.'' subj = [''chat'', ''outbox'', orig, dest, ev]"
    and ne: "orig \<noteq> ''''" "dest \<noteq> ''''" "ev \<noteq> ''''"
    by (auto simp: ParseOutbox_def Let_def length5_conv split: if_splits)
  have "subj = Join ''.'' [''chat'', ''outbox'', orig, dest, ev]"
    using s Join_Split [of "CHR ''.''" subj] by simp
  then have "subj = Outbox orig dest ev" by (simp add: Outbox_def)
  with ne show "subj = Outbox orig dest ev
     \<and> list_all (\<lambda>t. t \<noteq> '''' \<and> CHR ''.'' \<notin> set t) [orig, dest, ev]"
    using Split_tokens_sep_free [of _ "CHR ''.''" subj] s by auto
next
  assume "subj = Outbox orig dest ev
     \<and> list_all (\<lambda>t. t \<noteq> '''' \<and> CHR ''.'' \<notin> set t) [orig, dest, ev]"
  then show "ParseOutbox subj = Some (orig, dest, ev)"
    by (auto simp: ParseOutbox_def Split_Outbox Split_no_sep)
qed

text \<open>a room that turns cross-site loses no listener. Within the grace window every subject a
  confirmed same-site room published its events on is still published on after the flip, in every
  mode, for room, thread and member events alike.\<close>

theorem locality_flip_no_gap:
  assumes "now < t + grace"
  shows "set (RoomEventTargets grace r (Some False) old mode now)
      \<subseteq> set (RoomEventTargets grace r (Some True) (Some t) mode now)
    \<and> set (RoomThreadEventTargets grace r p (Some False) old mode now)
      \<subseteq> set (RoomThreadEventTargets grace r p (Some True) (Some t) mode now)
    \<and> set (RoomMemberEventTargets grace r (Some False) old mode now)
      \<subseteq> set (RoomMemberEventTargets grace r (Some True) (Some t) mode now)"
  using assms
  by (cases mode) (auto simp: RoomEventTargets_def RoomThreadEventTargets_def
      RoomMemberEventTargets_def roomRouteGlobals_def UsesLocal_def)

theorem locality_flip_no_gap_witness:
  "set (RoomEventTargets 10 ''r1'' (Some False) None RouteLocal 105)
     \<subseteq> set (RoomEventTargets 10 ''r1'' (Some True) (Some 100) RouteLocal 105)"
  using locality_flip_no_gap [of 105 100 10 "''r1''" None RouteLocal "''p''"] by simp

text \<open>where a room's events go. There is always at least one target and never a repeated one;
  the gateway-propagated subject is left out only for a confirmed same-site room in local mode; the
  site-local subject is used only in dual or local mode, and for a room that is not confirmed
  same-site only while its grace window is open.\<close>

theorem room_event_targets_spec:
  "let ts = RoomEventTargets grace r crossSite crossSiteAt mode now in
     ts \<noteq> [] \<and> distinct ts
     \<and> (RoomEvent r True \<notin> set ts \<longleftrightarrow> crossSite = Some False \<and> mode = RouteLocal)
     \<and> (RoomEvent r False \<in> set ts \<longleftrightarrow> mode \<noteq> RouteGlobal \<and>
          (crossSite = Some False \<or> (\<exists>t. crossSiteAt = Some t \<and> now < t + grace)))"
proof -
  have "RoomEvent r True \<noteq> RoomEvent r False"
    by (simp add: RoomEvent_def roomBase_def)
  then show ?thesis
    by (cases mode; cases crossSiteAt)
      (auto simp: Let_def RoomEventTargets_def roomRouteGlobals_def UsesLocal_def)
qed

text \<open>the namespaces are disjoint. Every subject a client publishes or subscribes on under its
  account lies in the client namespace, guarded builders either fail or stay in it, and no subject
  of the server, room, canonical, inbox, outbox, migration or bot families does.\<close>

theorem client_namespace_exact:
  "list_all IsClientFacing (client_subjects a r s x)
   \<and> list_all (case_sum (\<lambda>f. \<not> isValidAccountToken a) IsClientFacing) (guarded_client_subjects a r s)
   \<and> list_all (\<lambda>subj. \<not> IsClientFacing subj) (server_subjects r s u x y z g)"
proof (intro conjI)
  show "list_all IsClientFacing (client_subjects a r s x)"
    unfolding client_subjects_def IsClientFacing_def UserPrefix_def HasPrefix_def
    by (simp add: builder_defs)
  show "list_all (case_sum (\<lambda>f. \<not> isValidAccountToken a) IsClientFacing) (guarded_client_subjects a r s)"
    unfolding guarded_client_subjects_def IsClientFacing_def UserPrefix_def HasPrefix_def
    by (simp add: builder_defs)
  show "list_all (\<lambda>subj. \<not> IsClientFacing subj) (server_subjects r s u x y z g)"
    unfolding server_subjects_def IsClientFacing_def UserPrefix_def HasPrefix_def
    by (simp add: builder_defs pattern_defs roomBase_def)
qed

end
