(* ===== verification/Federation.thy ===== *)
theory Federation
  imports Inbox_Convergence Js_Retry Subject_Props
begin

text \<open>
  The relay between sites: publishing onto the local outbox (\<open>src/pkg/outbox/outbox.go\<close>), the
  forwarding worker (\<open>src/outbox-worker/handler.go\<close> and its consumer lanes in \<open>main.go\<close>), and what
  the two ends together guarantee with the inbox worker of the destination. Publishing to NATS and
  JSON encoding are arguments; a publish is recorded as the message handed to it.
\<close>

section \<open>The outbox contract\<close>

definition ConcurrentEventTypes :: "InboxEventType list" where
  "ConcurrentEventTypes = [InboxRoleUpdated, InboxSubscriptionRead, InboxThreadRead, InboxThreadReadAll,
     InboxSubscriptionMuteToggled, InboxSubscriptionFavoriteToggled, InboxSubscriptionSectionMoved,
     InboxSubscriptionOpened, InboxRoomRestricted, InboxThreadSubscriptionUpserted,
     InboxThreadUnreadAdded, InboxMemberJoinedAtRefreshed, InboxSubscriptionMention]"

definition OrderedEventTypes :: "InboxEventType list" where
  "OrderedEventTypes = [InboxMemberAdded, InboxMemberRemoved, InboxRoomRenamed]"

definition knownEventTypes :: "InboxEventType set" where
  "knownEventTypes = set ConcurrentEventTypes \<union> set OrderedEventTypes"

record relay_codec =
  encInboxEvent :: "InboxEvent \<Rightarrow> string option"
  encOutboxEvent :: "OutboxEvent \<Rightarrow> string option"
  decOutboxEvent :: "string \<Rightarrow> OutboxEvent option"

datatype pub_err = ErrMaxPayload | PubErr string

type_synonym publish_fn = "string \<Rightarrow> string \<Rightarrow> string \<Rightarrow> pub_err option"
type_synonym published = "(string \<times> string \<times> string) list"

datatype outbox_err = UnknownEventType | MissingDedupID | MarshalFailed string | PublishFailed pub_err

definition Publish :: "relay_codec \<Rightarrow> publish_fn \<Rightarrow> string \<Rightarrow> string \<Rightarrow> string \<Rightarrow> InboxEventType \<Rightarrow> string
  \<Rightarrow> string \<Rightarrow> int \<Rightarrow> int \<Rightarrow> outbox_err option \<times> published" where
  "Publish c publish originSiteID roomID destSiteID eventType payload dedupID ts now =
     (if destSiteID = '''' \<or> destSiteID = originSiteID then (None, [])
      else if eventType \<notin> knownEventTypes then (Some UnknownEventType, [])
      else if dedupID = '''' then (Some MissingDedupID, [])
      else case encInboxEvent c \<lparr>ie_Type = eventType, ie_SiteID = originSiteID, ie_DestSiteID = destSiteID,
                  ie_Payload = payload, ie_Timestamp = ts\<rparr> of
        None \<Rightarrow> (Some (MarshalFailed ''inbox event envelope''), [])
      | Some envelope \<Rightarrow>
          (case encOutboxEvent c \<lparr>oe_RoomID = roomID, oe_Envelope = envelope, oe_DedupID = dedupID,
                  oe_Timestamp = now\<rparr> of
             None \<Rightarrow> (Some (MarshalFailed ''outbox event''), [])
           | Some data \<Rightarrow>
               (let subj = Outbox originSiteID destSiteID eventType in
                (map_option PublishFailed (publish subj data dedupID), [(subj, data, dedupID)]))))"

section \<open>The forwarding worker\<close>

definition relay_HandleEvent :: "relay_codec \<Rightarrow> publish_fn \<Rightarrow> string \<Rightarrow> string \<Rightarrow> proc_err option \<times> published" where
  "relay_HandleEvent c publish subj data =
     (case ParseOutbox subj of
        None \<Rightarrow> (Some PermanentErr, [])
      | Some (_, destSiteID, eventType) \<Rightarrow>
          (case decOutboxEvent c data of
             None \<Rightarrow> (Some PermanentErr, [])
           | Some evt \<Rightarrow>
               if oe_Envelope evt = '''' \<or> oe_DedupID evt = '''' then (None, [])
               else (let dst = InboxExternal destSiteID eventType in
                     (case publish dst (oe_Envelope evt) (oe_DedupID evt) of
                        None \<Rightarrow> None
                      | Some ErrMaxPayload \<Rightarrow> Some PermanentErr
                      | Some (PubErr _) \<Rightarrow> Some TransientErr,
                      [(dst, oe_Envelope evt, oe_DedupID evt)]))))"

definition buildLaneConsumerConfig :: "(int \<Rightarrow> rat \<Rightarrow> int) \<Rightarrow> ConsumerSettings \<Rightarrow> string \<Rightarrow> string \<Rightarrow> string
  \<Rightarrow> InboxEventType list \<Rightarrow> ConsumerConfig" where
  "buildLaneConsumerConfig scale s siteID destSiteID lane eventTypes =
     (DurableConsumerDefaults scale (WithUnlimitedRedelivery s))
       \<lparr>cc_Durable := ''outbox-worker-'' @ lane @ ''-'' @ destSiteID,
        cc_FilterSubjects := map (Outbox siteID destSiteID) eventTypes\<rparr>"

definition buildConcurrentConsumerConfig :: "(int \<Rightarrow> rat \<Rightarrow> int) \<Rightarrow> ConsumerSettings \<Rightarrow> string \<Rightarrow> string \<Rightarrow> ConsumerConfig" where
  "buildConcurrentConsumerConfig scale s siteID destSiteID =
     buildLaneConsumerConfig scale s siteID destSiteID ''concurrent'' ConcurrentEventTypes"

definition buildOrderedConsumerConfig :: "(int \<Rightarrow> rat \<Rightarrow> int) \<Rightarrow> ConsumerSettings \<Rightarrow> string \<Rightarrow> string \<Rightarrow> ConsumerConfig" where
  "buildOrderedConsumerConfig scale s siteID destSiteID =
     (buildLaneConsumerConfig scale s siteID destSiteID ''ordered'' OrderedEventTypes)\<lparr>cc_MaxAckPending := 1\<rparr>"

text \<open>The loop over the configured sites, with the set of those already taken.\<close>

fun peers_loop :: "string \<Rightarrow> string set \<Rightarrow> string list \<Rightarrow> string list" where
  "peers_loop siteID seen [] = []"
| "peers_loop siteID seen (i # rest) =
     (if i = '''' \<or> i = siteID then peers_loop siteID seen rest
      else if i \<in> seen then peers_loop siteID seen rest
      else i # peers_loop siteID (insert i seen) rest)"

definition federationPeers :: "string \<Rightarrow> string list \<Rightarrow> string list" where
  "federationPeers siteID allSiteIDs = peers_loop siteID {} allSiteIDs"

lemmas lane_defs = ConcurrentEventTypes_def OrderedEventTypes_def

lemma peers_loop_spec:
  "set (peers_loop siteID seen xs) = set xs - {'''', siteID} - seen \<and> distinct (peers_loop siteID seen xs)"
  by (induction siteID seen xs rule: peers_loop.induct) auto

lemma Outbox_inject:
  assumes "CHR ''.'' \<notin> set d" "CHR ''.'' \<notin> set d'" "CHR ''.'' \<notin> set e" "CHR ''.'' \<notin> set e'"
    "CHR ''.'' \<notin> set o1"
  shows "Outbox o1 d e = Outbox o1 d' e' \<longleftrightarrow> d = d' \<and> e = e'"
proof
  assume "Outbox o1 d e = Outbox o1 d' e'"
  then have "Split CHR ''.'' (Outbox o1 d e) = Split CHR ''.'' (Outbox o1 d' e')" by simp
  with assms show "d = d' \<and> e = e'" by (simp add: Split_Outbox Split_no_sep)
qed simp

lemma event_type_tokens: "e \<in> knownEventTypes \<Longrightarrow> e \<noteq> '''' \<and> CHR ''.'' \<notin> set e"
  by (auto simp: knownEventTypes_def lane_defs inbox_type_defs)

section \<open>Properties of the relay\<close>



text \<open>The lanes partition the outbox. For every event type the producers may publish, towards every
  destination, exactly one of that destination's two consumers has the event's subject among its
  filters, and no consumer of another destination has it; the ordered consumer releases one message
  at a time and neither ever gives up.\<close>

theorem outbox_lanes_partition:
  assumes "eventType \<in> knownEventTypes" and "CHR ''.'' \<notin> set siteID"
    and "CHR ''.'' \<notin> set dest" and "CHR ''.'' \<notin> set peer"
  shows "(Outbox siteID dest eventType \<in> set (cc_FilterSubjects (buildConcurrentConsumerConfig scale s siteID peer))
            \<longleftrightarrow> peer = dest \<and> eventType \<in> set ConcurrentEventTypes)
     \<and> (Outbox siteID dest eventType \<in> set (cc_FilterSubjects (buildOrderedConsumerConfig scale s siteID peer))
            \<longleftrightarrow> peer = dest \<and> eventType \<in> set OrderedEventTypes)
     \<and> (eventType \<in> set ConcurrentEventTypes \<longleftrightarrow> eventType \<notin> set OrderedEventTypes)
     \<and> cc_MaxAckPending (buildOrderedConsumerConfig scale s siteID peer) = 1
     \<and> cc_MaxDeliver (buildOrderedConsumerConfig scale s siteID peer) = -1
     \<and> cc_MaxDeliver (buildConcurrentConsumerConfig scale s siteID peer) = -1"
proof -
  have tok: "CHR ''.'' \<notin> set eventType" using assms(1) event_type_tokens by blast
  have inj: "Outbox siteID dest eventType = Outbox siteID peer e \<longleftrightarrow> dest = peer \<and> eventType = e"
    if "e \<in> knownEventTypes" for e
    using Outbox_inject assms tok event_type_tokens [OF that] by blast
  have "Outbox siteID dest eventType \<in> Outbox siteID peer ` set es \<longleftrightarrow> peer = dest \<and> eventType \<in> set es"
    if "set es \<subseteq> knownEventTypes" for es
    using inj that by (auto simp: image_iff)
  then have f: "Outbox siteID dest eventType \<in> Outbox siteID peer ` set es \<longleftrightarrow> peer = dest \<and> eventType \<in> set es"
    if "es = ConcurrentEventTypes \<or> es = OrderedEventTypes" for es
    using that by (auto simp: knownEventTypes_def)
  have "eventType \<in> set ConcurrentEventTypes \<longleftrightarrow> eventType \<notin> set OrderedEventTypes"
    using assms(1) by (auto simp: knownEventTypes_def lane_defs inbox_type_defs)
  then show ?thesis
    by (simp add: buildConcurrentConsumerConfig_def buildOrderedConsumerConfig_def buildLaneConsumerConfig_def f
        DurableConsumerDefaults_def WithUnlimitedRedelivery_def)
qed

theorem outbox_lanes_partition_witness:
  "Outbox ''a'' ''b'' ''room_renamed'' \<in> set (cc_FilterSubjects (buildOrderedConsumerConfig (\<lambda>d _. d) \<lparr>AckWait = 30,
     MaxDeliver = 6, MaxWaiting = 512, MaxAckPending = 1000, HeartbeatMax = 0, BackOffSteps = 5,
     BackOffFactor = 2, BackOffMax = 0\<rparr> ''a'' ''b''))"
  using outbox_lanes_partition [of "''room_renamed''" "''a''" "''b''" "''b''" "\<lambda>d _. d" "\<lparr>AckWait = 30,
     MaxDeliver = 6, MaxWaiting = 512, MaxAckPending = 1000, HeartbeatMax = 0, BackOffSteps = 5,
     BackOffFactor = 2, BackOffMax = 0\<rparr>"]
  by (simp add: knownEventTypes_def lane_defs inbox_type_defs)

text \<open>The peers that get lanes are the configured sites without blanks and without the local site,
  each once.\<close>

theorem federation_peers_spec:
  "set (federationPeers siteID allSiteIDs) = set allSiteIDs - {'''', siteID}
   \<and> distinct (federationPeers siteID allSiteIDs)"
  using peers_loop_spec [of siteID "{}" allSiteIDs] by (simp add: federationPeers_def)

end
