(* ===== verification/Inbox_Membership.thy ===== *)
theory Inbox_Membership
  imports Federation
begin

text \<open>
  Members joining and leaving a room whose home is another site: what the sequential lane's handlers
  leave in the subscriptions, the thread subscriptions, the membership cache and the log of cache
  invalidations, and what a handler that rejects its message as poison leaves (nothing). The last
  part relates the destination's lanes to the origin's.
\<close>

section \<open>The document an upsert of a subscription makes\<close>

lemma set_fields_append: "set_fields (xs @ ys) d = set_fields ys (set_fields xs d)"
  by (simp add: set_fields_def)

lemma set_fields_steps: "set_fields [] d = d" "set_fields ((k, v) # kvs) d = set_fields kvs (d(k \<mapsto> v))"
  by (simp_all add: set_fields_def)

lemma opt_field_other:
  "f \<noteq> k \<Longrightarrow> set_fields (opt_time k v) d f = d f" "f \<noteq> k \<Longrightarrow> set_fields (opt_str k s) d f = d f"
  "f \<noteq> k \<Longrightarrow> set_fields (opt_strs k ss) d f = d f" "f \<noteq> k \<Longrightarrow> set_fields (omit_false k b) d f = d f"
  "f \<noteq> k \<Longrightarrow> set_fields (omit_empty k t) d f = d f"
  by (simp_all add: opt_time_def opt_str_def opt_strs_def omit_false_def omit_empty_def set_fields_def
      split: option.split)

lemma Subscription_fields_keys:
  "set_fields (Subscription_fields s) d ''_id'' = Some (BStr (sub_ID s))"
  "set_fields (Subscription_fields s) d ''roomId'' = Some (BStr (sub_RoomID s))"
  "set_fields (Subscription_fields s) d ''u.account'' = Some (BStr (su_Account (sub_User s)))"
  "set_fields (Subscription_fields s) d ''name'' = Some (BStr (sub_Name s))"
  by (simp_all add: Subscription_fields_def set_fields_append set_fields_steps opt_field_other)

definition created_doc :: "Subscription \<Rightarrow> doc" where
  "created_doc s = new_doc (fst (bulk_create_model s)) (fst (snd (bulk_create_model s)))"

lemma created_doc_keys:
  "created_doc s ''_id'' = Some (BStr (sub_ID s))"
  "created_doc s ''roomId'' = Some (BStr (sub_RoomID s))"
  "created_doc s ''u.account'' = Some (BStr (su_Account (sub_User s)))"
  by (simp_all add: created_doc_def new_doc_def bulk_create_model_def apply_update_def Subscription_fields_keys)

section \<open>The unordered bulk upsert\<close>

lemma mset_map_ex: "mset ws = mset (map f xs) \<Longrightarrow> \<exists>ys. ws = map f ys \<and> mset ys = mset xs"
proof (induction ws arbitrary: xs)
  case (Cons w ws)
  then obtain x where x: "x \<in> set xs" "w = f x"
    by (metis image_iff list.set_intros(1) mset_eq_setD set_map)
  then have "mset xs = add_mset x (mset (remove1 x xs))" by simp
  then have "mset (map f xs) = add_mset w (mset (map f (remove1 x xs)))"
    using x(2) by (metis image_mset_add_mset mset_map)
  then have "mset ws = mset (map f (remove1 x xs))" using Cons.prems by simp
  then obtain ys where "ws = map f ys" "mset ys = mset (remove1 x xs)" using Cons.IH by blast
  with x show ?case by (intro exI [of _ "x # ys"]) simp
qed simp

definition has_sub :: "doc list \<Rightarrow> string \<Rightarrow> string \<Rightarrow> bool" where
  "has_sub c roomID account \<longleftrightarrow>
     (\<exists>d \<in> set c. d ''roomId'' = Some (BStr roomID) \<and> d ''u.account'' = Some (BStr account))"

definition fresh_ids :: "Subscription list \<Rightarrow> doc list \<Rightarrow> bool" where
  "fresh_ids subs c \<longleftrightarrow> distinct (map sub_ID subs)
     \<and> (\<forall>s \<in> set subs. \<forall>d \<in> set c. d ''_id'' \<noteq> Some (BStr (sub_ID s)))"

lemma upd_create_noop: "upd (fst (snd (bulk_create_model s))) d = d"
  by (simp add: bulk_create_model_def apply_update_def)

lemma update_where_noop: "(\<And>d. upd u d = d) \<Longrightarrow> update_where f u c = c"
  by (auto simp: update_where_def intro: map_idI)

lemma bulk_create_step:
  assumes "subs_ok c" "\<forall>d \<in> set c. d ''_id'' \<noteq> Some (BStr (sub_ID s))"
  shows "bulk_effect sub_keys (bulk_create_model s) c
     = (if has_sub c (sub_RoomID s) (su_Account (sub_User s)) then c else c @ [created_doc s])"
proof -
  let ?f = "fst (bulk_create_model s)" and ?u = "fst (snd (bulk_create_model s))"
  have "matching ?f c = 0 \<longleftrightarrow> \<not> has_sub c (sub_RoomID s) (su_Account (sub_User s))"
    using assms(1) sat_sub_key by (auto simp: matching_0_iff has_sub_def bulk_create_model_def subs_ok_def)
  moreover have "\<not> conflicts sub_keys (created_doc s) c" if "\<not> has_sub c (sub_RoomID s) (su_Account (sub_User s))"
    using assms(2) that by (auto simp: conflicts_def sub_keys_def created_doc_keys has_sub_def)
  ultimately show ?thesis
    by (auto simp: bulk_effect_def bulk_create_model_def upsert_where_def update_where_noop
        created_doc_def apply_update_def split: if_splits)
qed

lemma subs_ok_append:
  assumes "subs_ok c" "\<not> has_sub c (sub_RoomID s) (su_Account (sub_User s))"
    "\<forall>d \<in> set c. d ''_id'' \<noteq> Some (BStr (sub_ID s))"
  shows "subs_ok (c @ [created_doc s])"
  using assms by (auto simp: subs_ok_def unique_def sub_keys_def created_doc_keys wf_sub_def has_sub_def)

lemma bulk_create_fold:
  assumes "subs_ok c" "fresh_ids subs c"
  shows "\<exists>ext. fold (bulk_effect sub_keys) (map bulk_create_model subs) c = c @ ext
     \<and> subs_ok (c @ ext)
     \<and> (\<forall>s \<in> set subs. has_sub (c @ ext) (sub_RoomID s) (su_Account (sub_User s)))"
  using assms
proof (induction subs arbitrary: c)
  case (Cons s subs)
  let ?c = "bulk_effect sub_keys (bulk_create_model s) c"
  have id: "\<forall>d \<in> set c. d ''_id'' \<noteq> Some (BStr (sub_ID s))" using Cons.prems(2) by (simp add: fresh_ids_def)
  note step = bulk_create_step [OF Cons.prems(1) id]
  have ok: "subs_ok ?c" using Cons.prems(1) subs_ok_append [OF Cons.prems(1) _ id] by (simp add: step)
  have fr: "fresh_ids subs ?c"
    using Cons.prems(2) by (auto simp: step fresh_ids_def created_doc_keys)
  obtain ext where ext: "fold (bulk_effect sub_keys) (map bulk_create_model subs) ?c = ?c @ ext"
    "subs_ok (?c @ ext)" "\<forall>s \<in> set subs. has_sub (?c @ ext) (sub_RoomID s) (su_Account (sub_User s))"
    using Cons.IH [OF ok fr] by blast
  have "has_sub (c @ [created_doc s]) (sub_RoomID s) (su_Account (sub_User s))"
    by (simp add: has_sub_def created_doc_keys)
  then have e: "has_sub ?c (sub_RoomID s) (su_Account (sub_User s))" by (simp add: step)
  obtain ext1 where e1: "?c = c @ ext1"
    using step by (cases "has_sub c (sub_RoomID s) (su_Account (sub_User s))") auto
  have "has_sub (?c @ ext) (sub_RoomID s) (su_Account (sub_User s))" using e by (auto simp: has_sub_def)
  with ext e1 show ?case by (intro exI [of _ "ext1 @ ext"]) simp
qed simp

lemma BulkWrite_cases:
  assumes "mongo_laws keys m" "BulkWrite m ws c = (r, c')" "\<not> (\<exists>e. r = Inl (DriverErr e))"
  shows "\<exists>ws'. mset ws' = mset ws \<and> c' = fold (bulk_effect keys) ws' c"
proof -
  have "case BulkWrite m ws c of
           (Inl (DriverErr e), c') \<Rightarrow> (\<exists>ws'. mset ws' \<subseteq># mset ws \<and> c' = fold (bulk_effect keys) ws' c)
         | (_, c') \<Rightarrow> (\<exists>ws'. mset ws' = mset ws \<and> c' = fold (bulk_effect keys) ws' c)"
    using assms(1) by (simp add: mongo_laws_def)
  with assms(2,3) show ?thesis by (auto split: sum.splits merr.splits)
qed

lemma BulkCreateSubscriptions_spec:
  assumes "mongo_laws sub_keys (subCol s)" "subs_ok (subscriptions st)" "fresh_ids subs (subscriptions st)"
    "BulkCreateSubscriptions s subs st = (r, st')" "\<forall>e. r = Inl e \<longrightarrow> IsDuplicateKeyError e"
  shows "\<exists>ext. st' = st\<lparr>subscriptions := subscriptions st @ ext\<rparr> \<and> subs_ok (subscriptions st @ ext)
     \<and> (\<forall>s \<in> set subs. has_sub (subscriptions st @ ext) (sub_RoomID s) (su_Account (sub_User s)))"
proof (cases "subs = []")
  case True
  with assms show ?thesis by (intro exI [of _ "[]"]) (simp add: BulkCreateSubscriptions_def)
next
  case False
  obtain r0 c' where b: "BulkWrite (subCol s) (map bulk_create_model subs) (subscriptions st) = (r0, c')" by fastforce
  then have st': "st' = st\<lparr>subscriptions := c'\<rparr>" "\<not> (\<exists>e. r0 = Inl (DriverErr e))"
    using assms(4,5) False
    by (cases r0; auto simp: BulkCreateSubscriptions_def on_subs_def IsDuplicateKeyError_def)+
  obtain ws' where ws': "mset ws' = mset (map bulk_create_model subs)" "c' = fold (bulk_effect sub_keys) ws' (subscriptions st)"
    using BulkWrite_cases [OF assms(1) b st'(2)] by blast
  then obtain subs' where s': "ws' = map bulk_create_model subs'" "mset subs' = mset subs"
    using mset_map_ex by blast
  then have "fresh_ids subs' (subscriptions st)"
    using assms(3) mset_eq_setD [OF s'(2)] by (metis fresh_ids_def mset_eq_imp_distinct_iff mset_map)
  from bulk_create_fold [OF assms(2) this] show ?thesis
    using ws'(2) s' st'(1) mset_eq_setD [OF s'(2)] by auto
qed

section \<open>Members added\<close>

lemma user_map_fold:
  "\<forall>b v. m b = Some v \<longrightarrow> usr_Account v = b \<Longrightarrow>
     fold (\<lambda>u m. m(usr_Account u \<mapsto> u)) us m a = Some u \<Longrightarrow> usr_Account u = a"
proof (induction us arbitrary: m)
  case (Cons x us)
  have "\<forall>b v. (m(usr_Account x \<mapsto> x)) b = Some v \<longrightarrow> usr_Account v = b"
  proof (intro allI impI)
    fix b v assume "(m(usr_Account x \<mapsto> x)) b = Some v"
    then show "usr_Account v = b" using Cons.prems(1) by (cases "b = usr_Account x") simp_all
  qed
  moreover have "fold (\<lambda>u m. m(usr_Account u \<mapsto> u)) us (m(usr_Account x \<mapsto> x)) a = Some u"
    using Cons.prems(2) by (simp only: fold_simps)
  ultimately show ?case by (rule Cons.IH)
next
  case Nil
  then show ?case by (metis fold_simps(1))
qed

lemma user_map_Some: "user_map us a = Some u \<Longrightarrow> usr_Account u = a"
  using user_map_fold [of Map.empty] by (simp add: user_map_def)

lemma new_subscription_keys [simp]:
  "sub_ID (new_subscription event i u) = i" "sub_RoomID (new_subscription event i u) = ma_RoomID event"
  "su_Account (sub_User (new_subscription event i u)) = usr_Account u"
  by (simp_all add: new_subscription_def Let_def)

lemma build_subs_spec:
  assumes "\<And>a u. m a = Some u \<Longrightarrow> usr_Account u = a" "build_subs h event m accounts n = (subs, missing, n')"
  shows "n \<le> n' \<and> map sub_ID subs = map (uuid h) [n..<n'] \<and> missing = filter (\<lambda>a. m a = None) accounts
     \<and> (\<forall>s \<in> set subs. sub_RoomID s = ma_RoomID event)
     \<and> (\<forall>a \<in> set accounts. m a \<noteq> None \<longrightarrow> (\<exists>s \<in> set subs. su_Account (sub_User s) = a))"
  using assms(2)
proof (induction accounts arbitrary: n subs missing)
  case (Cons a accounts)
  show ?case
  proof (cases "m a")
    case None
    with Cons show ?thesis by (fastforce split: prod.splits)
  next
    case (Some u)
    then obtain subs1 where b: "build_subs h event m accounts (n + 1) = (subs1, missing, n')"
      and s: "subs = new_subscription event (uuid h n) u # subs1"
      using Cons.prems by (auto split: prod.splits)
    from Cons.IH [OF b] s assms(1) [OF Some] Some show ?thesis by (auto simp: upt_conv_Cons)
  qed
qed simp

lemma UpsertRemote_subs: "subscriptions (snd (UpsertRemoteRoomActivity s r i t st)) = subscriptions st"
  by (auto simp: UpsertRemoteRoomActivity_def Let_def on_remote_def split: prod.splits sum.splits)

lemma seed_subs: "subscriptions (db (seed_remote_room h event st)) = subscriptions (db st)"
  using UpsertRemote_subs [of "store h" "ma_RoomID event" "ma_SiteID event" _ "db st"]
  by (auto simp: seed_remote_room_def call_store_def split: option.splits prod.splits) (metis snd_conv)

lemma seed_cache: "cache (seed_remote_room h event st) = cache st"
  by (auto simp: seed_remote_room_def call_store_def split: option.splits prod.splits)

lemma rsc_set_db: "db (rsc_set h r b st) = db st"
  by (simp add: rsc_set_def split: option.splits)

definition fresh_uuids :: "'c inbox_env \<Rightarrow> 'c inbox_state \<Rightarrow> bool" where
  "fresh_uuids h st \<longleftrightarrow> inj (uuid h)
     \<and> (\<forall>n \<ge> uuids st. \<forall>d \<in> set (subscriptions (db st)). d ''_id'' \<noteq> Some (BStr (uuid h n)))"

text \<open>What \<open>add_members\<close> leaves, by its outcome: the bulk write's effect in both outcomes that got past
  it.\<close>

lemma add_members_cases:
  assumes "add_members h event st = (r, st')" "r = Inr () \<or> (\<exists>m. r = Inl (UnknownUsers m))"
  obtains us subs missing n rb st1 where
    "build_subs h event (user_map us) (ma_Accounts event) (uuids st) = (subs, missing, n)"
    "BulkCreateSubscriptions (store h) subs (db st) = (rb, st1)"
    "\<forall>e. rb = Inl e \<longrightarrow> IsDuplicateKeyError e"
    "r = (if missing = [] then Inr () else Inl (UnknownUsers missing))"
    "subscriptions (db st') = subscriptions st1"
    "missing = [] \<Longrightarrow> st' = seed_remote_room h event (rsc_set h (ma_RoomID event) True (st\<lparr>uuids := n, db := st1\<rparr>))"
proof -
  obtain us where us: "FindUsersByAccounts (store h) (ma_Accounts event) (db st) = Inr us"
    using assms by (cases "FindUsersByAccounts (store h) (ma_Accounts event) (db st)") (auto simp: add_members_def)
  obtain subs missing n where b: "build_subs h event (user_map us) (ma_Accounts event) (uuids st) = (subs, missing, n)"
    by (metis prod_cases3)
  obtain rb st1 where w: "BulkCreateSubscriptions (store h) subs (db st) = (rb, st1)" by fastforce
  have nil: "subs = [] \<Longrightarrow> rb = Inr () \<and> st1 = db st" using w by (simp add: BulkCreateSubscriptions_def)
  have c: "(if subs = [] then (Inr (), st\<lparr>uuids := n\<rparr>)
      else call_store (BulkCreateSubscriptions (store h) subs) (st\<lparr>uuids := n\<rparr>)) = (rb, st\<lparr>uuids := n, db := st1\<rparr>)"
    using nil w by (auto simp: call_store_def)
  have d: "add_members h event st = (case rb of
       Inl e \<Rightarrow> if \<not> IsDuplicateKeyError e then (Inl (Transient e), st\<lparr>uuids := n, db := st1\<rparr>)
               else if missing \<noteq> [] then (Inl (UnknownUsers missing), st\<lparr>uuids := n, db := st1\<rparr>)
               else (Inr (), seed_remote_room h event (rsc_set h (ma_RoomID event) True (st\<lparr>uuids := n, db := st1\<rparr>)))
     | Inr _ \<Rightarrow> if missing \<noteq> [] then (Inl (UnknownUsers missing), st\<lparr>uuids := n, db := st1\<rparr>)
               else (Inr (), seed_remote_room h event (rsc_set h (ma_RoomID event) True (st\<lparr>uuids := n, db := st1\<rparr>))))"
    by (simp add: add_members_def us b c)
  show thesis
    by (rule that [OF b w]) (use assms d in \<open>auto simp: seed_subs rsc_set_db split: sum.splits if_splits\<close>)
qed

lemma add_members_subs:
  assumes "mongo_laws sub_keys (subCol (store h))" "subs_ok (subscriptions (db st))" "fresh_uuids h st"
    "add_members h event st = (r, st')" "r = Inr () \<or> (\<exists>m. r = Inl (UnknownUsers m))"
  shows "\<exists>ext missing. subscriptions (db st') = subscriptions (db st) @ ext \<and> subs_ok (subscriptions (db st'))
     \<and> r = (if missing = [] then Inr () else Inl (UnknownUsers missing))
     \<and> (\<forall>a \<in> set (ma_Accounts event). a \<notin> set missing \<longrightarrow> has_sub (subscriptions (db st')) (ma_RoomID event) a)"
proof -
  obtain us subs missing n rb st1 where
    b: "build_subs h event (user_map us) (ma_Accounts event) (uuids st) = (subs, missing, n)"
    and w: "BulkCreateSubscriptions (store h) subs (db st) = (rb, st1)"
    and rb: "\<forall>e. rb = Inl e \<longrightarrow> IsDuplicateKeyError e"
    and r: "r = (if missing = [] then Inr () else Inl (UnknownUsers missing))"
    and s: "subscriptions (db st') = subscriptions st1"
    using add_members_cases [OF assms(4,5)] by metis
  note spec = build_subs_spec [OF user_map_Some [of us] b]
  have "fresh_ids subs (subscriptions (db st))"
    unfolding fresh_ids_def
  proof
    show "distinct (map sub_ID subs)"
      using spec assms(3) by (auto simp: fresh_uuids_def distinct_map intro: inj_on_subset)
    have "sub_ID ` set subs = uuid h ` {uuids st..<n}"
      using spec by (metis list.set_map set_upt)
    then have "\<exists>k \<ge> uuids st. sub_ID s = uuid h k" if "s \<in> set subs" for s
      using that by (metis atLeastLessThan_iff image_iff)
    then show "\<forall>s \<in> set subs. \<forall>d \<in> set (subscriptions (db st)). d ''_id'' \<noteq> Some (BStr (sub_ID s))"
      using assms(3) unfolding fresh_uuids_def by metis
  qed
  from BulkCreateSubscriptions_spec [OF assms(1,2) this w rb] obtain ext where
    ext: "st1 = db st\<lparr>subscriptions := subscriptions (db st) @ ext\<rparr>" "subs_ok (subscriptions (db st) @ ext)"
    "\<forall>s \<in> set subs. has_sub (subscriptions (db st) @ ext) (sub_RoomID s) (su_Account (sub_User s))"
    by blast
  have "\<forall>a \<in> set (ma_Accounts event). a \<notin> set missing \<longrightarrow> has_sub (subscriptions (db st) @ ext) (ma_RoomID event) a"
    using spec ext(3) by fastforce
  with ext s r show ?thesis by (intro exI [of _ ext] exI [of _ missing]) simp
qed

section \<open>Members removed\<close>

lemma DeleteMany_success:
  assumes "mongo_laws keys m" "DeleteMany m f c = (Inr n, c')"
  shows "c' = filter (\<lambda>d. \<not> sat f d) c"
proof -
  have "delete_law f c (DeleteMany m f c)" using assms(1) by (simp add: mongo_laws_def)
  with assms(2) show ?thesis by (simp add: delete_law_def)
qed

definition member_docs :: "string \<Rightarrow> string \<Rightarrow> string list \<Rightarrow> filt" where
  "member_docs field roomID accounts = FAnd [FEq ''roomId'' (BStr roomID), FIn field (map BStr accounts)]"

lemma sat_member_docs:
  "d ''roomId'' = Some (BStr r) \<Longrightarrow> d f = Some (BStr a) \<Longrightarrow> a \<in> set as \<Longrightarrow> sat (member_docs f r as) d"
  by (auto simp: member_docs_def field_is_def)

lemma DeleteSubscriptions_success:
  assumes "mongo_laws keys (subCol s)" "DeleteSubscriptionsByAccounts s roomID accounts st = (Inr (), st')"
  shows "st' = st\<lparr>subscriptions := filter (\<lambda>d. \<not> sat (member_docs ''u.account'' roomID accounts) d) (subscriptions st)\<rparr>"
proof -
  obtain r c where d: "DeleteMany (subCol s) (member_docs ''u.account'' roomID accounts) (subscriptions st) = (r, c)"
    by fastforce
  with assms(2) obtain n where "r = Inr n" "st' = st\<lparr>subscriptions := c\<rparr>"
    by (cases r) (auto simp: DeleteSubscriptionsByAccounts_def on_subs_def member_docs_def)
  with DeleteMany_success [OF assms(1)] d show ?thesis by simp
qed

lemma DeleteThreads_success:
  assumes "mongo_laws keys (threadSubCol s)" "DeleteThreadSubscriptions s roomID accounts st = (Inr (), st')"
    "accounts \<noteq> []"
  shows "st' = st\<lparr>thread_subscriptions :=
     filter (\<lambda>d. \<not> sat (member_docs ''userAccount'' roomID accounts) d) (thread_subscriptions st)\<rparr>"
proof -
  obtain r c where d: "DeleteMany (threadSubCol s) (member_docs ''userAccount'' roomID accounts) (thread_subscriptions st) = (r, c)"
    by fastforce
  with assms(2,3) obtain n where "r = Inr n" "st' = st\<lparr>thread_subscriptions := c\<rparr>"
    by (cases r) (auto simp: DeleteThreadSubscriptions_def on_threads_def member_docs_def)
  with DeleteMany_success [OF assms(1)] d show ?thesis by simp
qed

text \<open>The steps between the two deletes touch neither subscriptions nor thread subscriptions.\<close>

lemma DeleteRemote_other:
  "subscriptions (snd (DeleteRemoteRoomActivity s r st)) = subscriptions st"
  "thread_subscriptions (snd (DeleteRemoteRoomActivity s r st)) = thread_subscriptions st"
  by (auto simp: DeleteRemoteRoomActivity_def on_remote_def split: prod.splits)

lemma hasRoomSubscription_db: "db (snd (hasRoomSubscription h r st)) = db st"
  by (auto simp: hasRoomSubscription_def rsc_fill_def split: option.splits sum.splits)

lemma hasRoomSubscription_calls: "calls (snd (hasRoomSubscription h r st)) = calls st"
  by (auto simp: hasRoomSubscription_def rsc_fill_def split: option.splits sum.splits)

lemma drop_row_cache: "cache (drop_ordering_row h r st) = cache (snd (hasRoomSubscription h r st))"
  by (auto simp: drop_ordering_row_def call_store_def split: prod.splits sum.splits)

lemma drop_row_calls: "calls (drop_ordering_row h r st) = calls st"
  using hasRoomSubscription_calls [of h r st]
  by (auto simp: drop_ordering_row_def call_store_def split: prod.splits sum.splits)

lemma drop_row_docs:
  "subscriptions (db (drop_ordering_row h r st)) = subscriptions (db st)"
  "thread_subscriptions (db (drop_ordering_row h r st)) = thread_subscriptions (db st)"
  using hasRoomSubscription_db [of h r st] DeleteRemote_other [of "store h" r "db st"]
  by (auto simp: drop_ordering_row_def call_store_def split: prod.splits sum.splits)

lemma small_steps_db:
  "db (BustSubs_call h r as st) = db st" "db (rsc_invalidate h r st) = db st" "db (log_badge h cs st) = db st"
  "cache (BustSubs_call h r as st) = cache st" "cache (log_badge h cs st) = cache st"
  "calls (rsc_invalidate h r st) = calls st"
  by (auto simp: BustSubs_call_def rsc_invalidate_def log_badge_def split: option.splits)

lemma remove_members_cases:
  assumes "mongo_laws sub_keys (subCol (store h))" "mongo_laws keys (threadSubCol (store h))"
    "remove_members h e st = (Inr (), st')" "mr_Accounts e \<noteq> []"
  obtains st1 st2 where
    "subscriptions (db st1) = filter (\<lambda>d. \<not> sat (member_docs ''u.account'' (mr_RoomID e) (mr_Accounts e)) d)
       (subscriptions (db st))"
    "thread_subscriptions (db st1) = thread_subscriptions (db st)"
    "calls st1 = calls (BustSubs_call h (mr_RoomID e) (mr_Accounts e) st)"
    "st2 = drop_ordering_row h (mr_RoomID e) (rsc_invalidate h (mr_RoomID e) st1)"
    "subscriptions (db st') = subscriptions (db st1)"
    "thread_subscriptions (db st') = filter (\<lambda>d. \<not> sat (member_docs ''userAccount'' (mr_RoomID e) (mr_Accounts e)) d)
       (thread_subscriptions (db st))"
    "cache st' = cache st2"
    "calls st' = calls st1 @ (if badge h then map (\<lambda>a. ClearRoom a (mr_RoomID e)) (mr_Accounts e) else [])"
proof -
  obtain d1 where d1: "DeleteSubscriptionsByAccounts (store h) (mr_RoomID e) (mr_Accounts e) (db st) = (Inr (), d1)"
    using assms(3,4)
    by (cases "DeleteSubscriptionsByAccounts (store h) (mr_RoomID e) (mr_Accounts e) (db st)";
        cases "fst (DeleteSubscriptionsByAccounts (store h) (mr_RoomID e) (mr_Accounts e) (db st))")
       (auto simp: remove_members_def call_store_def)
  define st1 where "st1 = BustSubs_call h (mr_RoomID e) (mr_Accounts e) (st\<lparr>db := d1\<rparr>)"
  define st2 where "st2 = drop_ordering_row h (mr_RoomID e) (rsc_invalidate h (mr_RoomID e) st1)"
  have r: "remove_members h e st = store_then (DeleteThreadSubscriptions (store h) (mr_RoomID e) (mr_Accounts e))
             (\<lambda>_. log_badge h (map (\<lambda>a. ClearRoom a (mr_RoomID e)) (mr_Accounts e))) st2"
    using assms(4) d1 by (simp add: remove_members_def call_store_def Let_def st1_def st2_def)
  obtain rt d2 where t: "DeleteThreadSubscriptions (store h) (mr_RoomID e) (mr_Accounts e) (db st2) = (rt, d2)"
    by fastforce
  have rt: "rt = Inr ()" and st': "st' = log_badge h (map (\<lambda>a. ClearRoom a (mr_RoomID e)) (mr_Accounts e)) (st2\<lparr>db := d2\<rparr>)"
    using assms(3) t unfolding r by (cases rt; simp add: store_then_def call_store_def)+
  note D1 = DeleteSubscriptions_success [OF assms(1) d1]
  note D2 = DeleteThreads_success [OF assms(2) t [unfolded rt] assms(4)]
  show thesis
    by (rule that [of st1 st2])
       (simp_all add: st' D2 D1 st1_def st2_def drop_row_docs small_steps_db drop_row_calls log_badge_def BustSubs_call_def)
qed

section \<open>The membership cache\<close>

lemma fill_get:
  assumes "\<And>l. roomSubs h = Some l \<Longrightarrow> lru_laws l" "rsc_get h st r = None" "rsc_get h (rsc_fill h r b st) r = Some v"
  shows "v = b"
proof (cases "roomSubs h")
  case (Some l)
  then have "lru_Get l (lru_Add l (cache st) r b) r = Some v"
    using assms(2,3) by (simp add: rsc_get_def rsc_fill_def)
  with assms(1) [OF Some] show ?thesis unfolding lru_laws_def by metis
qed (use assms in \<open>simp add: rsc_get_def\<close>)

lemma lru_Remove_get: "lru_laws l \<Longrightarrow> lru_Get l (lru_Remove l c k) k = None"
proof (rule ccontr)
  assume l: "lru_laws l" and "lru_Get l (lru_Remove l c k) k \<noteq> None"
  then obtain w where "lru_Get l (lru_Remove l c k) k = Some w" by blast
  with conjunct2 [OF l [unfolded lru_laws_def]] have "k \<noteq> k" by blast
  then show False by simp
qed

lemma invalidate_get:
  assumes "\<And>l. roomSubs h = Some l \<Longrightarrow> lru_laws l"
  shows "rsc_get h (rsc_invalidate h r st) r = None"
proof (cases "roomSubs h")
  case (Some l)
  then show ?thesis
    using lru_Remove_get [OF assms [OF Some]] by (simp add: rsc_get_def rsc_invalidate_def)
qed (simp add: rsc_get_def)

lemma rsc_get_cache: "cache st = cache st' \<Longrightarrow> rsc_get h st r = rsc_get h st' r"
  by (simp add: rsc_get_def split: option.splits)

definition in_room :: "doc list \<Rightarrow> string \<Rightarrow> bool" where
  "in_room c roomID \<longleftrightarrow> (\<exists>d \<in> set c. d ''roomId'' = Some (BStr roomID))"

lemma HasRoomSubscription_truth:
  assumes "mongo_laws sub_keys (subCol s)" "\<forall>d \<in> set (subscriptions st). wf_sub d"
    "HasRoomSubscription s roomID st = Inr b"
  shows "b = in_room (subscriptions st) roomID"
proof -
  let ?f = "FEq ''roomId'' (BStr roomID)"
  have f: "sat ?f d \<longleftrightarrow> d ''roomId'' = Some (BStr roomID)" if "d \<in> set (subscriptions st)" for d
  proof -
    have "wf_sub d" using assms(2) that by blast
    then show ?thesis by (auto simp: field_is_def wf_sub_def split: option.splits bson.splits)
  qed
  obtain x where x: "FindOne (subCol s) ?f (subscriptions st) = Inr x" "b = (x \<noteq> None)"
    using assms(3) by (auto simp: HasRoomSubscription_def split: sum.splits option.splits)
  then have "b \<longleftrightarrow> find (sat ?f) (subscriptions st) \<noteq> None"
    using FindOne_success [OF assms(1)] by metis
  also have "\<dots> \<longleftrightarrow> in_room (subscriptions st) roomID"
    using f by (auto simp: find_None_iff in_room_def)
  finally show ?thesis .
qed

lemma hasRoomSubscription_exact:
  assumes "\<And>l. roomSubs h = Some l \<Longrightarrow> lru_laws l" "rsc_get h st r = None"
    "mongo_laws sub_keys (subCol (store h))" "\<forall>d \<in> set (subscriptions (db st)). wf_sub d"
    "rsc_get h (snd (hasRoomSubscription h r st)) r = Some v"
  shows "v = in_room (subscriptions (db st)) r"
proof (cases "HasRoomSubscription (store h) r (db st)")
  case (Inr b)
  then have "rsc_get h (rsc_fill h r b st) r = Some v" using assms(2,5) by (simp add: hasRoomSubscription_def)
  with fill_get [OF assms(1,2)] HasRoomSubscription_truth [OF assms(3,4) Inr] show ?thesis by blast
qed (use assms in \<open>simp add: hasRoomSubscription_def\<close>)

section \<open>Concrete environments\<close>

definition map_lru :: "(string \<rightharpoonup> bool) lru" where
  "map_lru = \<lparr>lru_Get = (\<lambda>c k. c k), lru_Add = (\<lambda>c k v. c(k \<mapsto> v)), lru_Remove = (\<lambda>c k. c(k := None))\<rparr>"

lemma map_lru_laws: "lru_laws map_lru"
  by (auto simp: lru_laws_def map_lru_def split: if_splits)

definition no_codec :: codec where
  "no_codec = \<lparr>decInboxEvent = (\<lambda>_. None), decMemberAdd = (\<lambda>_. None), decMemberRemove = (\<lambda>_. None),
     decRoom = (\<lambda>_. None), decSubscriptionUpdate = (\<lambda>_. None), decSubscriptionRead = (\<lambda>_. None),
     decMute = (\<lambda>_. None), decFavorite = (\<lambda>_. None), decSection = (\<lambda>_. None), decOpened = (\<lambda>_. None),
     decMention = (\<lambda>_. None), decThreadSub = (\<lambda>_. None), decThreadRead = (\<lambda>_. None),
     decThreadReadAll = (\<lambda>_. None), decThreadUnread = (\<lambda>_. None), decRenamed = (\<lambda>_. None),
     decRestricted = (\<lambda>_. None), decUserStatus = (\<lambda>_. None), decUserSettings = (\<lambda>_. None),
     decUserPermissions = (\<lambda>_. None), decUserAccount = (\<lambda>_. None), decUserChatlist = (\<lambda>_. None),
     decRoomActivity = (\<lambda>_. None)\<rparr>"

definition demo_env :: "(string \<rightharpoonup> bool) inbox_env" where
  "demo_env = \<lparr>store = up_handles, codecs = no_codec, badge = True, valkey = True,
     roomSubs = Some map_lru, uuid = (\<lambda>n. replicate n CHR ''u'')\<rparr>"

definition demo_state :: "(string \<rightharpoonup> bool) inbox_state" where
  "demo_state = \<lparr>db = demo_store\<lparr>users := [[''_id'' \<mapsto> BStr ''u2'', ''account'' \<mapsto> BStr ''bob'']]\<rparr>,
     cache = Map.empty, calls = [], uuids = 1\<rparr>"

definition demo_add :: MemberAddEvent where
  "demo_add = \<lparr>ma_RoomID = ''r1'', ma_RoomName = ''general'', ma_RoomType = ''channel'', ma_Accounts = [''bob''],
     ma_SiteID = ''a'', ma_RequesterAccount = ''alice'', ma_JoinedAt = 3, ma_HistorySharedSince = None,
     ma_LastMsgAt = Some 4, ma_Origin = ''''\<rparr>"

definition demo_remove :: MemberRemoveEvent where
  "demo_remove = \<lparr>mr_RoomID = ''r1'', mr_Accounts = [''alice''], mr_SiteID = ''a'', mr_OrgID = '''', mr_Timestamp = 5\<rparr>"

lemma demo_fresh: "fresh_uuids demo_env demo_state"
proof -
  have "inj (\<lambda>n. replicate n CHR ''u'')" by (rule injI) (metis length_replicate)
  moreover have "''s1'' \<noteq> replicate n CHR ''u''" for n
    by (cases n) auto
  ultimately show ?thesis
    by (auto simp: fresh_uuids_def demo_env_def demo_state_def demo_store_def demo_sub_def)
qed

lemmas add_eval = demo_env_def demo_state_def demo_add_def demo_store_def up_handles_def mongo_ok_def
  add_members_def FindUsersByAccounts_def user_of_doc_def str_field_def user_map_def field_is_def
  call_store_def BulkCreateSubscriptions_def on_subs_def

lemma demo_env_laws: "mongo_laws sub_keys (subCol (store demo_env))"
  "mongo_laws [[''_id''], [''threadRoomId'', ''userAccount'']] (threadSubCol (store demo_env))"
  by (simp_all add: demo_env_def handles_laws) (simp add: up_handles_def mongo_ok_laws)

lemmas remove_eval = demo_env_def demo_state_def demo_remove_def demo_store_def demo_sub_def up_handles_def mongo_ok_def
  remove_members_def call_store_def DeleteSubscriptionsByAccounts_def on_subs_def on_threads_def on_remote_def
  BustSubs_call_def rsc_invalidate_def drop_ordering_row_def hasRoomSubscription_def rsc_get_def rsc_fill_def
  map_lru_def HasRoomSubscription_def DeleteRemoteRoomActivity_def store_then_def DeleteThreadSubscriptions_def
  log_badge_def field_is_def

lemma demo_remove_result:
  "remove_members demo_env demo_remove demo_state = (Inr (), snd (remove_members demo_env demo_remove demo_state))"
  by (rule prod_eqI) (simp_all add: remove_eval)

section \<open>Properties\<close>


lemma demo_add_result: "fst (add_members demo_env demo_add demo_state) = Inr ()"
  by (simp add: add_eval discard.simps split: prod.splits sum.splits)


text \<open>A member-removed event that is acknowledged has removed exactly the listed accounts from the
  room: no subscription and no thread subscription of theirs in the room is left, every other
  document stays, their cached authorization decisions are invalidated after the delete, and their
  badge entries for the room are cleared.\<close>

theorem member_removed_removes:
  assumes "mongo_laws sub_keys (subCol (store h))" and "mongo_laws keys (threadSubCol (store h))"
    and "remove_members h e st = (Inr (), st')" and "mr_Accounts e \<noteq> []"
  shows "subscriptions (db st') = filter (\<lambda>d. \<not> sat (FAnd [FEq ''roomId'' (BStr (mr_RoomID e)),
            FIn ''u.account'' (map BStr (mr_Accounts e))]) d) (subscriptions (db st))
     \<and> thread_subscriptions (db st') = filter (\<lambda>d. \<not> sat (FAnd [FEq ''roomId'' (BStr (mr_RoomID e)),
            FIn ''userAccount'' (map BStr (mr_Accounts e))]) d) (thread_subscriptions (db st))
     \<and> (\<forall>a \<in> set (mr_Accounts e). \<not> has_sub (subscriptions (db st')) (mr_RoomID e) a)
     \<and> calls st' = calls st @ (if valkey h then [BustSubs (mr_RoomID e) (mr_Accounts e)] else [])
          @ (if badge h then map (\<lambda>a. ClearRoom a (mr_RoomID e)) (mr_Accounts e) else [])"
proof -
  have s: "subscriptions (db st') = filter (\<lambda>d. \<not> sat (member_docs ''u.account'' (mr_RoomID e) (mr_Accounts e)) d)
       (subscriptions (db st))"
    and t: "thread_subscriptions (db st') = filter (\<lambda>d. \<not> sat (member_docs ''userAccount'' (mr_RoomID e) (mr_Accounts e)) d)
       (thread_subscriptions (db st))"
    and c: "calls st' = calls (BustSubs_call h (mr_RoomID e) (mr_Accounts e) st)
       @ (if badge h then map (\<lambda>a. ClearRoom a (mr_RoomID e)) (mr_Accounts e) else [])"
    by (rule remove_members_cases [OF assms]; simp)+
  have "\<not> has_sub (subscriptions (db st')) (mr_RoomID e) a" if m: "a \<in> set (mr_Accounts e)" for a
  proof
    assume "has_sub (subscriptions (db st')) (mr_RoomID e) a"
    then obtain d where "d \<in> set (subscriptions (db st'))" "sat (member_docs ''u.account'' (mr_RoomID e) (mr_Accounts e)) d"
      using sat_member_docs [OF _ _ m] unfolding has_sub_def by blast
    then show False unfolding s by simp
  qed
  with s t c show ?thesis
    using assms(4) by (simp add: BustSubs_call_def member_docs_def)
qed

theorem member_removed_removes_witness:
  "\<not> has_sub (subscriptions (db (snd (remove_members demo_env demo_remove demo_state)))) (mr_RoomID demo_remove) ''alice''"
  by (rule bspec [OF conjunct1 [OF conjunct2 [OF conjunct2 [OF member_removed_removes [OF demo_env_laws demo_remove_result]]]]])
     (simp_all add: demo_remove_def)



section \<open>From messages to guarded writes\<close>

text \<open>The guarded write a decoded event stands for, if it stands for one.\<close>

definition write_of_event :: "codec \<Rightarrow> InboxEvent \<Rightarrow> sub_write option" where
  "write_of_event c evt =
     (let t = ie_Type evt; p = ie_Payload evt in
      if t = InboxRoleUpdated then
        (case decSubscriptionUpdate c p of None \<Rightarrow> None | Some e \<Rightarrow>
           (case sub_Roles (sue_Subscription e) of
              Some (r # rs) \<Rightarrow> Some (WRoles (su_Account (sub_User (sue_Subscription e)))
                 (sub_RoomID (sue_Subscription e)) (r # rs) (sue_Timestamp e))
            | _ \<Rightarrow> None))
      else if t = InboxSubscriptionMuteToggled then
        map_option (\<lambda>e. WMute (sm_RoomID e) (sm_Account e) (sm_Muted e) (sm_Timestamp e)) (decMute c p)
      else if t = InboxSubscriptionFavoriteToggled then
        map_option (\<lambda>e. WFavorite (sf_RoomID e) (sf_Account e) (sf_Favorite e) (sf_Timestamp e)) (decFavorite c p)
      else if t = InboxSubscriptionSectionMoved then
        map_option (\<lambda>e. WSection (ss_RoomID e) (ss_Account e) (ss_SectionID e) (ss_SectionOrder e) (ss_Timestamp e)) (decSection c p)
      else if t = InboxSubscriptionRead then
        map_option (\<lambda>e. WRead (sr_RoomID e) (sr_Account e) (sr_LastSeenAt e) (sr_Alert e)) (decSubscriptionRead c p)
      else if t = InboxRoomRenamed then
        map_option (\<lambda>e. WName (rn_RoomID e) (rn_NewName e) (rn_Timestamp e)) (decRenamed c p)
      else if t = InboxRoomRestricted then
        map_option (\<lambda>e. WRestrict (rr_RoomID e) (rr_Restricted e) (rr_ExternalAccess e) (rr_OwnerAccount e) (rr_Timestamp e)) (decRestricted c p)
      else None)"

text \<open>What it means that a handler performs a write: the store it leaves is the write's, and it
  acknowledges only if the write did.\<close>

definition performs :: "outcome \<times> 'c inbox_state \<Rightarrow> unit res \<times> inbox_store \<Rightarrow> bool" where
  "performs hr wr \<longleftrightarrow> db (snd hr) = snd wr \<and> (fst hr = Inr () \<longrightarrow> fst wr = Inr ())"

lemma performs_store_then:
  assumes "\<And>x st. db (k x st) = db st"
  shows "performs (store_then f k st) (case f (db st) of (r, d) \<Rightarrow> (discard r, d))"
  using assms by (cases "f (db st)"; cases "fst (f (db st))") (auto simp: performs_def store_then_def call_store_def)

lemma discard_unit: "(case x of (r, d) \<Rightarrow> (discard r, d)) = x" for x :: "unit res \<times> 'a"
  by (cases x; cases "fst x") auto

lemmas performs_unit = performs_store_then [where 'a = unit, unfolded discard_unit]

lemma performs_read:
  "performs (store_then (UpdateSubscriptionRead s r a t al)
      (\<lambda>(applied, n). if applied \<and> n = 0 then log_badge h cs else (\<lambda>st. st)) st)
     (exec s (WRead r a t al) (db st))"
  unfolding exec.simps by (rule performs_store_then) (auto simp: small_steps_db)

lemma performs_restrict:
  "performs (case call_store (ApplySubscriptionRestriction s r re ex ow t) st of
          (Inl e, st) \<Rightarrow> (Inl (Transient e), st)
        | (Inr _, st) \<Rightarrow> (case ListSubscriptionAccountsByRoom s r (db st) of
               Inl e \<Rightarrow> (Inl (Transient e), st)
             | Inr accounts \<Rightarrow> (Inr (), BustSubs_call h r accounts st)))
     (exec s (WRestrict r re ex ow t) (db st))"
  by (auto simp: performs_def call_store_def small_steps_db split: prod.splits sum.splits)

text \<open>C27: A message that carries a guarded write is that write: whenever the event dispatcher decodes
  such an event, the store it leaves is exactly the store the guarded write leaves (also when it
  fails), and the message is acknowledged only if the write succeeded.\<close>

theorem HandleEvent_performs_write:
  assumes "decInboxEvent (codecs h) data = Some evt" and "write_of_event (codecs h) evt = Some w"
  shows "db (snd (HandleEvent h data st)) = snd (exec (store h) w (db st))
     \<and> (fst (HandleEvent h data st) = Inr () \<longrightarrow> fst (exec (store h) w (db st)) = Inr ())"
proof -
  have "performs (HandleEvent h data st) (exec (store h) w (db st))"
    using assms
    apply (simp add: write_of_event_def Let_def inbox_type_defs split: if_splits)
    subgoal
      by (auto simp: HandleEvent_def Let_def inbox_type_defs handleRoleUpdated_def with_payload_def small_steps_db
          intro!: performs_unit split: option.splits list.splits)
    subgoal
      by (auto simp: HandleEvent_def Let_def inbox_type_defs handleSubscriptionMuteToggled_def with_payload_def
          small_steps_db intro!: performs_unit)
    subgoal
      by (auto simp: HandleEvent_def Let_def inbox_type_defs handleSubscriptionFavoriteToggled_def with_payload_def
          intro!: performs_unit)
    subgoal
      by (auto simp: HandleEvent_def Let_def inbox_type_defs handleSubscriptionSectionMoved_def with_payload_def
          intro!: performs_unit)
    subgoal
      by (auto simp: HandleEvent_def Let_def inbox_type_defs handleSubscriptionRead_def with_payload_def
          simp del: exec.simps intro!: performs_read)
    subgoal
      by (auto simp: HandleEvent_def Let_def inbox_type_defs handleRoomRenamed_def with_payload_def
          intro!: performs_unit)
    subgoal
      by (auto simp: HandleEvent_def Let_def inbox_type_defs handleRoomVisibilityChanged_def with_payload_def
          simp del: exec.simps intro!: performs_restrict)
    done
  then show ?thesis by (simp add: performs_def)
qed

theorem HandleEvent_performs_write_witness:
  "db (snd (HandleEvent (demo_env\<lparr>codecs := no_codec\<lparr>
       decInboxEvent := (\<lambda>_. Some \<lparr>ie_Type = ''subscription_mute_toggled'', ie_SiteID = ''a'', ie_DestSiteID = ''b'',
         ie_Payload = ''p'', ie_Timestamp = 7\<rparr>),
       decMute := (\<lambda>_. Some \<lparr>sm_Account = ''alice'', sm_RoomID = ''r1'', sm_Muted = True, sm_Timestamp = 5\<rparr>)\<rparr>\<rparr>)
       ''d'' demo_state))
   = snd (exec up_handles (WMute ''r1'' ''alice'' True 5) (db demo_state))"
  using HandleEvent_performs_write [of "demo_env\<lparr>codecs := no_codec\<lparr>
       decInboxEvent := (\<lambda>_. Some \<lparr>ie_Type = ''subscription_mute_toggled'', ie_SiteID = ''a'', ie_DestSiteID = ''b'',
         ie_Payload = ''p'', ie_Timestamp = 7\<rparr>),
       decMute := (\<lambda>_. Some \<lparr>sm_Account = ''alice'', sm_RoomID = ''r1'', sm_Muted = True, sm_Timestamp = 5\<rparr>)\<rparr>\<rparr>"
       "''d''" "\<lparr>ie_Type = ''subscription_mute_toggled'',
         ie_SiteID = ''a'', ie_DestSiteID = ''b'', ie_Payload = ''p'', ie_Timestamp = 7\<rparr>"
         "WMute ''r1'' ''alice'' True 5" demo_state]
  by (simp add: demo_env_def write_of_event_def inbox_type_defs del: exec.simps)

section \<open>Rejected messages\<close>

definition clean :: "outcome \<times> 'c inbox_state \<Rightarrow> 'c inbox_state \<Rightarrow> bool" where
  "clean hr st \<longleftrightarrow> (\<forall>m st'. hr = (Inl (Permanent m), st') \<longrightarrow> st' = st)"

lemma clean_intros:
  "clean (store_then f k st1) st" "clean (Inr (), st1) st" "clean (Inl (Transient e), st1) st"
  "clean (Inl (UnknownUsers us), st1) st" "clean (r, st) st"
  "(\<And>p. clean (kp p st) st) \<Longrightarrow> clean (with_payload dec l evt kp st) st"
  by (auto simp: clean_def store_then_def with_payload_def split: prod.splits sum.splits option.splits)

lemma clean_if: "clean (if b then x else y) st \<longleftrightarrow> (if b then clean x st else clean y st)"
  by simp

lemma clean_membership: "clean (add_members h e st) st" "clean (remove_members h r st) st"
  by (auto simp: clean_def add_members_def remove_members_def Let_def store_then_def
      split: prod.splits sum.splits if_splits)

lemma clean_restricted: "clean (handleRoomVisibilityChanged h evt st) st"
  by (auto simp: handleRoomVisibilityChanged_def clean_def with_payload_def split: prod.splits sum.splits option.splits)

lemma clean_handlers:
  "clean (handleMemberAdded h evt st) st" "clean (handleMemberRemoved h evt st) st"
  "clean (handleMemberJoinedAtRefreshed h evt st) st" "clean (handleRoomSync h evt st) st"
  "clean (handleRoleUpdated h evt st) st" "clean (handleSubscriptionRead h evt st) st"
  "clean (handleSubscriptionMuteToggled h evt st) st" "clean (handleSubscriptionFavoriteToggled h evt st) st"
  "clean (handleSubscriptionOpened h evt st) st" "clean (handleThreadSubscriptionUpserted h evt st) st"
  "clean (handleThreadRead h evt st) st" "clean (handleThreadReadAll h evt st) st"
  "clean (handleThreadUnreadAdded h evt st) st" "clean (handleRoomRenamed h evt st) st"
  "clean (handleUserStatusUpdated h evt st) st" "clean (handleUserSettingsUpdated h evt st) st"
  "clean (handleUserPermissionsUpdated h evt st) st" "clean (handleUserChatlistUpdated h evt st) st"
  "clean (handleUserAccountUpdated h evt st) st" "clean (handleSubscriptionSectionMoved h evt st) st"
  "clean (handleSubscriptionMention h evt st) st"
  by (auto simp: handleMemberAdded_def handleMemberRemoved_def handleMemberJoinedAtRefreshed_def handleRoomSync_def
      handleRoleUpdated_def handleSubscriptionRead_def handleSubscriptionMuteToggled_def
      handleSubscriptionFavoriteToggled_def handleSubscriptionOpened_def handleThreadSubscriptionUpserted_def
      handleThreadRead_def handleThreadReadAll_def handleThreadUnreadAdded_def handleRoomRenamed_def
      handleUserStatusUpdated_def handleUserSettingsUpdated_def handleUserPermissionsUpdated_def
      handleUserChatlistUpdated_def handleUserAccountUpdated_def handleSubscriptionSectionMoved_def
      handleSubscriptionMention_def Let_def clean_if intro!: clean_intros clean_membership split: option.split)

text \<open>Poison leaves no trace. When the dispatcher rejects a message permanently, which makes the
  worker acknowledge and forget it, the store, the membership cache and the invalidation log are as
  they were.\<close>

theorem permanent_rejects_untouched:
  assumes "HandleEvent h data st = (Inl (Permanent m), st')"
  shows "st' = st"
proof -
  have "clean (HandleEvent h data st) st"
    by (simp add: HandleEvent_def Let_def clean_if clean_handlers clean_restricted clean_intros split: option.split)
  with assms show ?thesis by (simp add: clean_def)
qed

theorem permanent_rejects_untouched_witness: "HandleEvent demo_env ''{'' demo_state = (Inl (Permanent ''unmarshal inbox event''), demo_state)"
proof -
  have "HandleEvent demo_env ''{'' demo_state
      = (Inl (Permanent ''unmarshal inbox event''), snd (HandleEvent demo_env ''{'' demo_state))"
    by (simp add: HandleEvent_def demo_env_def no_codec_def)
  with permanent_rejects_untouched [OF this] show ?thesis by simp
qed

section \<open>Lanes at the two ends\<close>

definition empty_store :: inbox_store where
  "empty_store = \<lparr>subscriptions = [], rooms = [], users = [], thread_subscriptions = [], remote_rooms = []\<rparr>"

definition bob_joins :: Subscription where
  "bob_joins = new_subscription demo_add ''i1'' \<lparr>usr_ID = ''u2'', usr_Account = ''bob''\<rparr>"

lemmas join_eval = empty_store_def bob_joins_def demo_add_def new_subscription_def member_room_type_def
  history_shared_def subscriptionName_def rolesForType_def room_type_defs SubscriptionRowType_def
  UpdateSubscriptionNamesForRoom_def BulkCreateSubscriptions_def on_subs_def up_handles_def mongo_ok_def
  bulk_create_model_def bulk_effect_def upsert_where_def new_doc_def matching_def conflicts_def
  update_where_def name_filter_def name_update_def lt_guard_def apply_update_def sub_key_def
  Subscription_fields_def set_fields_steps opt_time_def opt_str_def opt_strs_def omit_false_def omit_empty_def
  field_is_def

text \<open>The destination may reorder what the origin kept in order. The origin's ordered lane carries
  room_renamed behind the member_added it follows, so that a new member is not stranded on the old
  name; but the destination's sequential lane takes only member_added and member_removed. When the
  rename, on the concurrent lane, is applied first it matches no subscription, is acknowledged, and
  the member joins under the name the room had before.\<close>

theorem rename_can_overtake_join:
  "InboxRoomRenamed \<in> set OrderedEventTypes
   \<and> isMembershipSubject (InboxExternal siteID InboxMemberAdded) siteID
   \<and> \<not> isMembershipSubject (InboxExternal siteID InboxRoomRenamed) siteID
   \<and> map (\<lambda>d. d ''name'') (subscriptions (snd (UpdateSubscriptionNamesForRoom up_handles ''r1'' ''renamed'' 9
        (snd (BulkCreateSubscriptions up_handles [bob_joins] empty_store))))) = [Some (BStr ''renamed'')]
   \<and> fst (UpdateSubscriptionNamesForRoom up_handles ''r1'' ''renamed'' 9 empty_store) = Inr ()
   \<and> map (\<lambda>d. d ''name'') (subscriptions (snd (BulkCreateSubscriptions up_handles [bob_joins]
        (snd (UpdateSubscriptionNamesForRoom up_handles ''r1'' ''renamed'' 9 empty_store))))) = [Some (BStr ''general'')]"
proof -
  have "InboxRoomRenamed \<in> set OrderedEventTypes" by (simp add: lane_defs)
  moreover have "isMembershipSubject (InboxExternal siteID InboxMemberAdded) siteID"
    "\<not> isMembershipSubject (InboxExternal siteID InboxRoomRenamed) siteID"
    by (simp_all add: isMembershipSubject_def InboxExternal_def inbox_type_defs)
  moreover have "map (\<lambda>d. d ''name'') (subscriptions (snd (UpdateSubscriptionNamesForRoom up_handles ''r1'' ''renamed'' 9
        (snd (BulkCreateSubscriptions up_handles [bob_joins] empty_store))))) = [Some (BStr ''renamed'')]"
    by (simp add: join_eval)
  moreover have "fst (UpdateSubscriptionNamesForRoom up_handles ''r1'' ''renamed'' 9 empty_store) = Inr ()"
    "map (\<lambda>d. d ''name'') (subscriptions (snd (BulkCreateSubscriptions up_handles [bob_joins]
        (snd (UpdateSubscriptionNamesForRoom up_handles ''r1'' ''renamed'' 9 empty_store))))) = [Some (BStr ''general'')]"
    by (simp_all add: join_eval)
  ultimately show ?thesis by blast
qed

end
