(* ===== verification/Page_Fit.thy ===== *)
theory Page_Fit
  imports Chat_Prelude
begin

text \<open>
  Sizing a paginated reply (\<open>src/pkg/pagefit\<close>). What a row encodes to is the caller's type, so the
  encoder is an argument: \<open>enc x\<close> is the number of bytes of the row's JSON, or \<open>None\<close> when encoding it
  fails. Sizes are integers; the loops compare by subtraction, as the code does.
\<close>

section \<open>Budgets\<close>

record Budget =
  bmax :: int

definition brackets :: int where "brackets = 2"
definition DefaultReserve :: int where "DefaultReserve = 4 * 2 ^ 10"
definition MaxInt32 :: int where "MaxInt32 = 2 ^ 31 - 1"

definition NewBudget :: "int \<Rightarrow> int \<Rightarrow> Budget" where
  "NewBudget brokerMaxPayload reserve =
     (if brokerMaxPayload \<le> 0 \<or> reserve < 0 then \<lparr>bmax = 0\<rparr>
      else let brokerMaxPayload = (if brokerMaxPayload > MaxInt32 then MaxInt32 else brokerMaxPayload);
               mx = brokerMaxPayload - reserve in
           if mx \<le> 0 then \<lparr>bmax = 0\<rparr> else \<lparr>bmax = mx\<rparr>)"

definition Resolve :: "int \<Rightarrow> int \<Rightarrow> int \<Rightarrow> Budget" where
  "Resolve override brokerMaxPayload reserve =
     (if override \<le> 0 then NewBudget brokerMaxPayload reserve
      else let override = (if brokerMaxPayload > 0 then min override brokerMaxPayload else override) in
           NewBudget override reserve)"

definition Enabled :: "Budget \<Rightarrow> bool" where
  "Enabled b \<longleftrightarrow> bmax b > 0"

definition Bytes :: "Budget \<Rightarrow> int" where
  "Bytes b = bmax b"

section \<open>Row sizes\<close>

text \<open>The encoder writes a row and a newline into a counter; a row's size is what the counter grew by,
  less the newline.\<close>

fun row_sizes_loop :: "('a \<Rightarrow> nat option) \<Rightarrow> 'a list \<Rightarrow> int \<Rightarrow> (int list \<times> int) option" where
  "row_sizes_loop enc [] n = Some ([], n)"
| "row_sizes_loop enc (x # xs) n =
     (case enc x of None \<Rightarrow> None
      | Some w \<Rightarrow>
          let n' = n + int w + 1 in
          (case row_sizes_loop enc xs n' of None \<Rightarrow> None
           | Some (sizes, n'') \<Rightarrow> Some ((n' - n - 1) # sizes, n'')))"

definition rowSizes :: "('a \<Rightarrow> nat option) \<Rightarrow> 'a list \<Rightarrow> (int list \<times> int) option" where
  "rowSizes enc items =
     (case row_sizes_loop enc items 0 of None \<Rightarrow> None
      | Some (sizes, n) \<Rightarrow>
          Some (sizes, n - int (length items) + max (int (length items) - 1) 0 + brackets))"

section \<open>Trimming a page\<close>

text \<open>The loop over the widths at position \<open>i\<close>, with the bytes used and the rows kept so far.\<close>

fun fit_loop :: "int \<Rightarrow> int list \<Rightarrow> nat \<Rightarrow> int \<Rightarrow> nat \<Rightarrow> nat" where
  "fit_loop mx [] i used n = n"
| "fit_loop mx (width # ws) i used n =
     (let sep = (if i > 0 then 1 else 0) in
      if used > mx - sep \<or> width > mx - sep - used then n
      else fit_loop mx ws (i + 1) (used + sep + width) (i + 1))"

definition Fit :: "('a \<Rightarrow> nat option) \<Rightarrow> 'a list \<Rightarrow> Budget \<Rightarrow> int \<Rightarrow> ('a list \<times> bool) option" where
  "Fit enc items b envelope =
     (if \<not> Enabled b \<or> items = [] then Some (items, False)
      else case rowSizes enc items of None \<Rightarrow> None
      | Some (w, tot) \<Rightarrow>
          if tot \<le> bmax b - envelope then Some (items, False)
          else let n = fit_loop (bmax b) w 0 (envelope + brackets) 0 in
               if n = 0 then Some (take 1 items, True) else Some (take n items, False))"

section \<open>Trimming a centred window\<close>

function window_loop :: "int \<Rightarrow> int list \<Rightarrow> nat \<Rightarrow> nat \<Rightarrow> int \<Rightarrow> nat \<times> nat" where
  "window_loop mx w lo hi used =
     (let up = (hi < length w \<and> used \<le> mx - 1 \<and> w ! hi \<le> mx - 1 - used);
          used1 = (if up then used + (w ! hi + 1) else used);
          hi1 = (if up then hi + 1 else hi);
          down = (lo > 0 \<and> used1 \<le> mx - 1 \<and> w ! (lo - 1) \<le> mx - 1 - used1);
          used2 = (if down then used1 + (w ! (lo - 1) + 1) else used1);
          lo1 = (if down then lo - 1 else lo) in
      if up \<or> down then window_loop mx w lo1 hi1 used2 else (lo1, hi1))"
  by auto
termination by (relation "measure (\<lambda>(mx, w, lo, hi, used). lo + (length w - hi))") (auto simp: Let_def)

declare window_loop.simps [simp del]

definition FitWindow :: "('a \<Rightarrow> nat option) \<Rightarrow> 'a list \<Rightarrow> int \<Rightarrow> Budget \<Rightarrow> int \<Rightarrow> (nat \<times> nat \<times> bool) option" where
  "FitWindow enc items pivot b envelope =
     (if items = [] then Some (0, 0, False)
      else let p = nat (min (max pivot 0) (int (length items) - 1)) in
           if \<not> Enabled b then Some (0, length items, False)
           else case rowSizes enc items of None \<Rightarrow> None
           | Some (w, tot) \<Rightarrow>
               if tot \<le> bmax b - envelope then Some (0, length items, False)
               else let base = envelope + brackets; pivotOversize = (w ! p > bmax b - base) in
                    if pivotOversize then Some (p, p + 1, True)
                    else (case window_loop (bmax b) w p (p + 1) (base + w ! p) of (lo, hi) \<Rightarrow> Some (lo, hi, False)))"

section \<open>The size of an encoded slice\<close>

text \<open>The bytes of a JSON array of the rows, commas and brackets included.\<close>

definition array_bytes :: "int list \<Rightarrow> int" where
  "array_bytes w = brackets + sum_list w + max (int (length w) - 1) 0"

definition widths :: "('a \<Rightarrow> nat option) \<Rightarrow> 'a list \<Rightarrow> int list" where
  "widths enc items = map (\<lambda>x. int (the (enc x))) items"

lemma row_sizes_loop_spec:
  "row_sizes_loop enc xs n = (if \<exists>x \<in> set xs. enc x = None then None
     else Some (widths enc xs, n + sum_list (widths enc xs) + int (length xs)))"
  by (induction xs arbitrary: n) (auto simp: widths_def Let_def split: option.splits)

lemma rowSizes_spec:
  "rowSizes enc xs = (if \<exists>x \<in> set xs. enc x = None then None
     else Some (widths enc xs, array_bytes (widths enc xs)))"
  by (auto simp: rowSizes_def row_sizes_loop_spec array_bytes_def widths_def)

lemma array_bytes_Nil: "array_bytes [] = brackets"
  by (simp add: array_bytes_def)

lemma array_bytes_snoc: "array_bytes (w @ [x]) = array_bytes w + x + (if w = [] then 0 else 1)"
  by (cases w) (simp_all add: array_bytes_def)

lemma array_bytes_Cons: "w \<noteq> [] \<Longrightarrow> array_bytes (x # w) = array_bytes w + x + 1"
  by (cases w) (simp_all add: array_bytes_def)

lemma fit_loop_spec:
  assumes "used = envelope + array_bytes done1" "i = length done1" "n = i"
    "\<forall>x \<in> set (done1 @ ws). 0 \<le> x"
  shows "let k = fit_loop mx ws i used n in
     i \<le> k \<and> k \<le> i + length ws
     \<and> (i < k \<longrightarrow> envelope + array_bytes (take k (done1 @ ws)) \<le> mx)
     \<and> (k < i + length ws \<longrightarrow> mx < envelope + array_bytes (take (k + 1) (done1 @ ws)))"
  using assms
proof (induction ws arbitrary: done1 i used n)
  case (Cons x ws)
  let ?sep = "if i > 0 then 1 else (0::int)"
  have sep: "?sep = (if done1 = [] then 0 else 1)" using Cons.prems(2) by auto
  show ?case
  proof (cases "used > mx - ?sep \<or> x > mx - ?sep - used")
    case True
    have "mx < envelope + array_bytes (done1 @ [x])"
      using True Cons.prems(1,4) sep by (auto simp: array_bytes_snoc split: if_splits)
    with True Cons.prems show ?thesis by (auto simp: Let_def)
  next
    case False
    have fits: "envelope + array_bytes (done1 @ [x]) \<le> mx" "used + ?sep + x = envelope + array_bytes (done1 @ [x])"
      using False Cons.prems(1) sep by (auto simp: array_bytes_snoc)
    note ih = Cons.IH [of "used + ?sep + x" "done1 @ [x]" "i + 1" "i + 1"]
    have "fit_loop mx (x # ws) i used n = fit_loop mx ws (i + 1) (used + ?sep + x) (i + 1)"
      using False by (auto simp: Let_def)
    moreover have "take (i + 1) (done1 @ x # ws) = done1 @ [x]" using Cons.prems(2) by simp
    ultimately show ?thesis
      using ih fits Cons.prems(2,3,4)
      by (cases "fit_loop mx ws (i + 1) (used + ?sep + x) (i + 1) = i + 1") (auto simp: Let_def)
  qed
qed simp

section \<open>What the trimmers return\<close>

lemma widths_take: "widths enc (take n items) = take n (widths enc items)"
  by (simp add: widths_def take_map)

lemma widths_nonneg: "\<forall>x \<in> set (widths enc items). 0 \<le> x"
  by (simp add: widths_def)

lemma length_widths [simp]: "length (widths enc items) = length items"
  by (simp add: widths_def)

text \<open>A window \<open>[lo, hi)\<close> of the widths, and how its encoding grows by a row at either end.\<close>

definition window :: "'a list \<Rightarrow> nat \<Rightarrow> nat \<Rightarrow> 'a list" where
  "window w lo hi = take (hi - lo) (drop lo w)"

lemma window_up:
  assumes "lo < hi" "hi < length w"
  shows "array_bytes (window w lo (hi + 1)) = array_bytes (window w lo hi) + w ! hi + 1"
proof -
  have "window w lo (hi + 1) = window w lo hi @ [w ! hi]"
    using assms by (simp add: window_def Suc_diff_le take_Suc_conv_app_nth)
  moreover have "window w lo hi \<noteq> []" using assms by (simp add: window_def)
  ultimately show ?thesis by (simp add: array_bytes_snoc)
qed

lemma window_down:
  assumes "0 < lo" "lo < hi" "hi \<le> length w"
  shows "array_bytes (window w (lo - 1) hi) = array_bytes (window w lo hi) + w ! (lo - 1) + 1"
proof -
  obtain k where k: "lo = Suc k" using assms(1) by (cases lo) auto
  have "drop k w = w ! k # drop (Suc k) w" using assms k by (simp add: Cons_nth_drop_Suc)
  moreover have "hi - k = Suc (hi - Suc k)" using assms k by simp
  ultimately have "window w (lo - 1) hi = w ! (lo - 1) # window w lo hi"
    using k by (simp add: window_def)
  moreover have "window w lo hi \<noteq> []" using assms by (simp add: window_def)
  ultimately show ?thesis by (simp add: array_bytes_Cons)
qed

lemma window_single: "i < length w \<Longrightarrow> array_bytes (window w i (i + 1)) = brackets + w ! i"
  by (simp add: window_def array_bytes_def take_Suc_conv_app_nth)

definition span_fits :: "int \<Rightarrow> int \<Rightarrow> int list \<Rightarrow> nat \<Rightarrow> nat \<Rightarrow> bool" where
  "span_fits mx envelope w lo hi \<longleftrightarrow> envelope + array_bytes (window w lo hi) \<le> mx"

text \<open>The loop keeps the byte count of its window, never lets go of a row, and stops only where no
  neighbour on either side fits.\<close>

lemma window_loop_spec:
  assumes "window_loop mx w lo hi used = (lo', hi')"
    "lo < hi" "hi \<le> length w" "used = envelope + array_bytes (window w lo hi)" "used \<le> mx"
    "\<forall>x \<in> set w. 0 \<le> x"
  shows "lo' \<le> lo \<and> hi \<le> hi' \<and> hi' \<le> length w \<and> span_fits mx envelope w lo' hi'
    \<and> (hi' < length w \<longrightarrow> \<not> span_fits mx envelope w lo' (hi' + 1))
    \<and> (0 < lo' \<longrightarrow> \<not> span_fits mx envelope w (lo' - 1) hi')"
  using assms
proof (induction mx w lo hi used rule: window_loop.induct)
  case (1 mx w lo hi used)
  define up where "up = (hi < length w \<and> used \<le> mx - 1 \<and> w ! hi \<le> mx - 1 - used)"
  define used1 where "used1 = (if up then used + (w ! hi + 1) else used)"
  define hi1 where "hi1 = (if up then hi + 1 else hi)"
  define down where "down = (lo > 0 \<and> used1 \<le> mx - 1 \<and> w ! (lo - 1) \<le> mx - 1 - used1)"
  define used2 where "used2 = (if down then used1 + (w ! (lo - 1) + 1) else used1)"
  define lo1 where "lo1 = (if down then lo - 1 else lo)"
  note step = up_def used1_def hi1_def down_def used2_def lo1_def
  have eq: "window_loop mx w lo hi used = (if up \<or> down then window_loop mx w lo1 hi1 used2 else (lo1, hi1))"
    by (subst window_loop.simps) (simp add: Let_def step)
  have used1: "hi \<le> hi1" "hi1 \<le> length w" "used1 = envelope + array_bytes (window w lo hi1)" "used1 \<le> mx"
    using "1.prems"(2-5) window_up [of lo hi w] by (auto simp: up_def used1_def hi1_def)
  have used2: "lo1 \<le> lo" "used2 = envelope + array_bytes (window w lo1 hi1)" "used2 \<le> mx"
    using used1 "1.prems"(2) window_down [of lo hi1 w] by (auto simp: down_def used2_def lo1_def)
  show ?case
  proof (cases "up \<or> down")
    case True
    have "window_loop mx w lo1 hi1 used2 = (lo', hi')" using True eq "1.prems"(1) by simp
    moreover have "lo1 < hi1" using used1(1) used2(1) "1.prems"(2) by simp
    ultimately have "lo' \<le> lo1 \<and> hi1 \<le> hi' \<and> hi' \<le> length w \<and> span_fits mx envelope w lo' hi'
      \<and> (hi' < length w \<longrightarrow> \<not> span_fits mx envelope w lo' (hi' + 1))
      \<and> (0 < lo' \<longrightarrow> \<not> span_fits mx envelope w (lo' - 1) hi')"
      using "1.IH" [OF up_def used1_def hi1_def down_def used2_def lo1_def True] used1 used2 "1.prems"(6) by blast
    then show ?thesis using used1(1) used2(1) by simp
  next
    case False
    have fin: "lo' = lo" "hi' = hi" using False eq "1.prems"(1) by (auto simp: lo1_def hi1_def)
    have nn: "hi < length w \<Longrightarrow> 0 \<le> w ! hi" "0 < lo \<Longrightarrow> 0 \<le> w ! (lo - 1)"
      using "1.prems"(2,3,6) by (auto simp: all_set_conv_all_nth)
    have "used1 = used" "\<not> up" "\<not> down" using False by (auto simp: used1_def)
    then have "hi < length w \<longrightarrow> \<not> span_fits mx envelope w lo (hi + 1)" "0 < lo \<longrightarrow> \<not> span_fits mx envelope w (lo - 1) hi"
      using nn "1.prems"(2-5) window_up [of lo hi w] window_down [of lo hi w]
      unfolding span_fits_def up_def down_def by linarith+
    then show ?thesis using fin "1.prems"(3-5) by (simp add: span_fits_def)
  qed
qed

lemma array_bytes_prefix:
  assumes "\<forall>x \<in> set w. 0 \<le> x"
  shows "array_bytes (take n w) \<le> array_bytes w"
proof -
  have "sum_list (take n w) + sum_list (drop n w) = sum_list w" by (metis append_take_drop_id sum_list_append)
  moreover have "0 \<le> sum_list (drop n w)" using assms by (intro sum_list_nonneg) (meson in_set_dropD)
  ultimately show ?thesis by (simp add: array_bytes_def)
qed

text \<open>Fit returns the longest prefix of the page that fits. When trimming is on and the page is not
  empty, a page whose rows encode gives a non-empty prefix; the encoding fails exactly when a row's
  does. Without the oversize flag the envelope and the kept rows fit the budget and one more row would
  not; with it a single row was kept and that row alone overflows.\<close>

theorem Fit_longest_prefix:
  assumes "Enabled b" "items \<noteq> []"
  shows "case Fit enc items b envelope of
      None \<Rightarrow> (\<exists>x \<in> set items. enc x = None)
    | Some (kept, oversize) \<Rightarrow>
        (\<forall>x \<in> set items. enc x \<noteq> None)
        \<and> (\<exists>n. 1 \<le> n \<and> n \<le> length items \<and> kept = take n items
            \<and> (oversize \<longleftrightarrow> \<not> span_fits (bmax b) envelope (widths enc items) 0 1)
            \<and> (oversize \<longrightarrow> n = 1)
            \<and> (\<not> oversize \<longrightarrow> span_fits (bmax b) envelope (widths enc items) 0 n)
            \<and> (\<not> oversize \<and> n < length items \<longrightarrow> \<not> span_fits (bmax b) envelope (widths enc items) 0 (n + 1)))"
proof (cases "rowSizes enc items")
  case None
  then have bad: "\<exists>x \<in> set items. enc x = None" by (simp add: rowSizes_spec split: if_splits)
  then have "Fit enc items b envelope = None" using None assms by (simp add: Fit_def)
  then show ?thesis using bad by simp
next
  case (Some wt)
  let ?w = "widths enc items" and ?mx = "bmax b"
  have enc: "\<forall>x \<in> set items. enc x \<noteq> None" and wt: "wt = (?w, array_bytes ?w)"
    using Some by (auto simp: rowSizes_spec split: if_splits)
  have pre: "window ?w 0 n = take n ?w" for n by (simp add: window_def)
  have first: "array_bytes (window ?w 0 1) \<le> array_bytes ?w"
    by (rule array_bytes_prefix [of ?w 1, folded pre]) (use widths_nonneg in blast)
  show ?thesis
  proof (cases "array_bytes ?w \<le> ?mx - envelope")
    case True
    then have "Fit enc items b envelope = Some (items, False)" using Some wt assms by (simp add: Fit_def)
    then show ?thesis using True first enc assms(2)
      by (auto simp: span_fits_def pre Suc_le_eq intro!: exI [of _ "length items"])
  next
    case False
    define n where "n = fit_loop ?mx ?w 0 (envelope + brackets) 0"
    have spec: "n \<le> length items" "0 < n \<Longrightarrow> span_fits ?mx envelope ?w 0 n"
      "n < length items \<Longrightarrow> \<not> span_fits ?mx envelope ?w 0 (n + 1)"
      using fit_loop_spec [of "envelope + brackets" envelope "[]" 0 0 ?w ?mx] widths_nonneg [of enc items]
      by (simp_all add: Let_def span_fits_def pre array_bytes_Nil flip: n_def)
    have fit: "Fit enc items b envelope = (if n = 0 then Some (take 1 items, True) else Some (take n items, False))"
      using Some wt assms False by (simp add: Fit_def n_def Let_def)
    have "\<forall>x \<in> set (take n ?w). 0 \<le> x" using widths_nonneg [of enc items] by (meson in_set_takeD)
    then have one: "0 < n \<Longrightarrow> span_fits ?mx envelope ?w 0 1"
      using spec(2) array_bytes_prefix [of "take n ?w" 1] by (simp add: span_fits_def pre min_def)
    show ?thesis
    proof (cases "n = 0")
      case True
      then have "\<not> span_fits ?mx envelope ?w 0 1" using spec(3) assms(2) by simp
      then show ?thesis using fit True enc assms(2) by (auto intro!: exI [of _ 1] simp: Suc_le_eq)
    next
      case nz: False
      then show ?thesis using fit spec enc one by (auto intro!: exI [of _ n])
    qed
  qed
qed

theorem Fit_longest_prefix_witness:
  "\<exists>n. Fit Some [4, 5, 6] \<lparr>bmax = 20\<rparr> 8 = Some (take n [4, 5, 6], False) \<and> 1 \<le> n
    \<and> span_fits 20 8 (widths Some [4, 5, 6]) 0 n"
proof -
  have "Fit Some [4, 5, 6] \<lparr>bmax = 20\<rparr> 8 = Some ([4, 5], False)"
    by (simp add: Fit_def Enabled_def rowSizes_def brackets_def Let_def)
  then show ?thesis
    using Fit_longest_prefix [of "\<lparr>bmax = 20\<rparr>" "[4, 5, 6]" Some 8]
    by (simp add: Enabled_def del: take_Cons_numeral) blast
qed

text \<open>FitWindow keeps the pivot and grows around it as far as the budget allows. Over a non-empty
  page whose rows encode, with trimming on, the returned span contains the clamped pivot and stays
  inside the page; it fits the budget unless the pivot alone overflows, in which case it is the pivot
  alone; and neither neighbour of the span could have been added.\<close>

theorem FitWindow_maximal_around_pivot:
  assumes "Enabled b" "items \<noteq> []" "\<forall>x \<in> set items. enc x \<noteq> None"
  shows "\<exists>lo hi oversize. FitWindow enc items pivot b envelope = Some (lo, hi, oversize)
    \<and> int lo \<le> min (max pivot 0) (int (length items) - 1) \<and> min (max pivot 0) (int (length items) - 1) < int hi
    \<and> hi \<le> length items
    \<and> (oversize \<longrightarrow> hi = lo + 1 \<and> \<not> span_fits (bmax b) envelope (widths enc items) lo hi)
    \<and> (\<not> oversize \<longrightarrow> span_fits (bmax b) envelope (widths enc items) lo hi
        \<and> (hi < length items \<longrightarrow> \<not> span_fits (bmax b) envelope (widths enc items) lo (hi + 1))
        \<and> (0 < lo \<longrightarrow> \<not> span_fits (bmax b) envelope (widths enc items) (lo - 1) hi))"
proof -
  let ?w = "widths enc items" and ?mx = "bmax b"
  define p where "p = nat (min (max pivot 0) (int (length items) - 1))"
  have p: "p < length items" "int p = min (max pivot 0) (int (length items) - 1)"
    using assms(2) by (cases items; simp add: p_def)+
  have rows: "rowSizes enc items = Some (?w, array_bytes ?w)" using assms(3) by (auto simp: rowSizes_spec)
  have one: "array_bytes (window ?w p (p + 1)) = brackets + ?w ! p" using p(1) window_single [of p ?w] by simp
  consider (whole) "array_bytes ?w \<le> ?mx - envelope" | (over) "?w ! p > ?mx - (envelope + brackets)" "\<not> array_bytes ?w \<le> ?mx - envelope"
    | (grow) "\<not> ?w ! p > ?mx - (envelope + brackets)" "\<not> array_bytes ?w \<le> ?mx - envelope" by blast
  then show ?thesis
  proof cases
    case whole
    then have "FitWindow enc items pivot b envelope = Some (0, length items, False)"
      using assms(1,2) rows by (simp add: FitWindow_def)
    moreover have "span_fits ?mx envelope ?w 0 (length items)"
      using whole by (simp add: span_fits_def window_def)
    ultimately show ?thesis using p(1)
      by (intro exI [of _ 0] exI [of _ "length items"] exI [of _ False]) (simp flip: p(2))
  next
    case over
    then have "FitWindow enc items pivot b envelope = Some (p, p + 1, True)"
      using assms rows by (simp add: FitWindow_def p_def Let_def)
    moreover have "\<not> span_fits ?mx envelope ?w p (p + 1)" using over one by (simp add: span_fits_def)
    ultimately show ?thesis using p(1)
      by (intro exI [of _ p] exI [of _ "p + 1"] exI [of _ True]) (simp flip: p(2))
  next
    case grow
    obtain lo hi where run: "window_loop ?mx ?w p (p + 1) (envelope + brackets + ?w ! p) = (lo, hi)" by fastforce
    then have "FitWindow enc items pivot b envelope = Some (lo, hi, False)"
      using grow assms rows by (simp add: FitWindow_def p_def Let_def)
    moreover note window_loop_spec [OF run, of envelope] one grow(1) widths_nonneg [of enc items] p(1)
    ultimately show ?thesis
      by (intro exI [of _ lo] exI [of _ hi] exI [of _ False]) (simp flip: p(2))
  qed
qed

theorem FitWindow_maximal_around_pivot_witness:
  "\<exists>lo hi oversize. FitWindow Some [9, 2, 3, 4, 9] 2 \<lparr>bmax = 14\<rparr> 1 = Some (lo, hi, oversize)
    \<and> int lo \<le> 2 \<and> 2 < int hi \<and> hi \<le> 5"
  using FitWindow_maximal_around_pivot [of "\<lparr>bmax = 14\<rparr>" "[9, 2, 3, 4, 9]" Some 2 1]
  by (auto simp: Enabled_def)

text \<open>An override can only lower the ceiling below what the broker accepts.\<close>

lemma Resolve_within_broker:
  assumes "0 < brokerMaxPayload" "0 \<le> reserve"
  shows "0 \<le> Bytes (Resolve override brokerMaxPayload reserve)"
    "Enabled (Resolve override brokerMaxPayload reserve)
     \<Longrightarrow> Bytes (Resolve override brokerMaxPayload reserve) + reserve \<le> brokerMaxPayload"
  using assms unfolding Resolve_def NewBudget_def Bytes_def Enabled_def Let_def MaxInt32_def
  by (auto split: if_splits)

end
