(* ===== verification/Go_Text.thy ===== *)
theory Go_Text
  imports Go_Strings
begin

text \<open>
  More of Go's text handling: decimal numbers (\<open>strconv.Itoa\<close> and the verb \<open>%d\<close>), \<open>strings.TrimSpace\<close>
  on the bytes of a string, and \<open>strings.TrimRight\<close> for one byte; with \<open>src/pkg/displayfmt\<close>, which is
  built from them.
\<close>

section \<open>Decimal numbers\<close>

definition digit :: "nat \<Rightarrow> char" where "digit d = ''0123456789'' ! d"

fun nat_str :: "nat \<Rightarrow> string" where
  "nat_str n = (if n < 10 then [digit n] else nat_str (n div 10) @ [digit (n mod 10)])"

declare nat_str.simps [simp del]

definition Itoa :: "int \<Rightarrow> string" where
  "Itoa i = (if i < 0 then CHR ''-'' # nat_str (nat (- i)) else nat_str (nat i))"

section \<open>Trimming\<close>

fun trim_left :: "string \<Rightarrow> string" where
  "trim_left [] = []"
| "trim_left (c # cs) =
     (case decode_rune (byte_val c) (map byte_val cs) of (r, n) \<Rightarrow>
        if IsSpace r then trim_left (drop n cs) else c # cs)"

text \<open>Scanning back from the end for the byte that starts the last rune, at most four bytes.\<close>

definition rune_start :: "nat \<Rightarrow> bool" where
  "rune_start b \<longleftrightarrow> \<not> (128 \<le> b \<and> b < 192)"

definition last_start :: "nat list \<Rightarrow> nat" where
  "last_start bs =
     (let e = length bs; lim = e - 4;
          candidates = filter (\<lambda>i. rune_start (bs ! i)) [lim..<e - 1] in
      if candidates = [] then lim - 1 else last candidates)"

definition decode_last :: "nat list \<Rightarrow> nat \<times> nat" where
  "decode_last bs =
     (let a = last bs in
      if a < 128 then (a, 1)
      else let start = last_start bs;
               (r, n) = decode_rune (bs ! start) (drop (start + 1) bs) in
           if start + n + 1 = length bs then (r, n + 1) else (rune_error, 1))"

lemma decode_last_size: "decode_last bs = (r, w) \<Longrightarrow> 0 < w"
  by (auto simp: decode_last_def Let_def split: prod.splits if_splits)

function trim_right :: "string \<Rightarrow> string" where
  "trim_right s =
     (if s = [] then []
      else case decode_last (map byte_val s) of (r, w) \<Rightarrow>
        if IsSpace r then trim_right (take (length s - w) s) else s)"
  by auto
termination
  by (relation "measure length") (auto intro!: diff_less dest!: sym [THEN decode_last_size])

declare trim_right.simps [simp del]

definition TrimSpaceStr :: "string \<Rightarrow> string" where
  "TrimSpaceStr s = trim_right (trim_left s)"

definition TrimRightByte :: "char \<Rightarrow> string \<Rightarrow> string" where
  "TrimRightByte c s = rev (dropWhile (\<lambda>x. x = c) (rev s))"

section \<open>Display names\<close>

definition CombineWithFallback :: "string \<Rightarrow> string \<Rightarrow> string \<Rightarrow> string" where
  "CombineWithFallback first second fallback =
     (let first = TrimSpaceStr first; second = TrimSpaceStr second in
      if first = '''' \<and> second = '''' then fallback
      else if first = '''' then second
      else if second = '''' then first
      else if first = second then first
      else first @ '' '' @ second)"

section \<open>Facts about numbers\<close>

lemma digit_inj: "a < 10 \<Longrightarrow> b < 10 \<Longrightarrow> digit a = digit b \<longleftrightarrow> a = b"
proof -
  have "distinct ''0123456789''" "length ''0123456789'' = 10" by simp_all
  then show "a < 10 \<Longrightarrow> b < 10 \<Longrightarrow> digit a = digit b \<longleftrightarrow> a = b"
    by (metis digit_def nth_eq_iff_index_eq)
qed

definition digit_chars :: "char set" where "digit_chars = set ''0123456789''"

lemma digit_range: "d < 10 \<Longrightarrow> digit d \<in> digit_chars"
proof -
  have "length ''0123456789'' = 10" by simp
  then show "d < 10 \<Longrightarrow> digit d \<in> digit_chars" by (metis digit_chars_def digit_def nth_mem)
qed

lemma nat_str_not_Nil [simp]: "nat_str n \<noteq> []"
  by (subst nat_str.simps) simp

lemma nat_str_digits: "set (nat_str n) \<subseteq> digit_chars"
proof (induction n rule: nat_str.induct)
  case (1 n)
  have small: "n < 10 \<Longrightarrow> digit n \<in> digit_chars" "digit (n mod 10) \<in> digit_chars"
    by (rule digit_range; simp)+
  show ?case
  proof (cases "n < 10")
    case True
    then have "set (nat_str n) = {digit n}" by (subst nat_str.simps) simp
    then show ?thesis using small(1) True by (simp only:) blast
  next
    case False
    then have "set (nat_str n) = set (nat_str (n div 10)) \<union> {digit (n mod 10)}" by (subst nat_str.simps) simp
    then show ?thesis using small(2) 1 False by (simp only:) blast
  qed
qed

lemma nat_str_inj: "nat_str m = nat_str n \<Longrightarrow> m = n"
proof (induction m arbitrary: n rule: nat_str.induct)
  case (1 m)
  have one: "nat_str k = [x] \<Longrightarrow> k < 10" for k x
    by (rule ccontr) (subst (asm) nat_str.simps, simp)
  show ?case
  proof (cases "m < 10")
    case True
    then have m: "nat_str m = [digit m]" by (subst nat_str.simps) simp
    then have "n < 10" using "1.prems" one by metis
    then show ?thesis using m "1.prems" True digit_inj by (subst (asm) (2) nat_str.simps) (simp, metis list.inject nat_str.simps)
  next
    case False
    then have m: "nat_str m = nat_str (m div 10) @ [digit (m mod 10)]" by (subst nat_str.simps) simp
    then have "\<not> n < 10" using "1.prems" one False by (metis append_is_Nil_conv list.sel(3) nat_str.simps nat_str_not_Nil tl_append2)
    then have "nat_str n = nat_str (n div 10) @ [digit (n mod 10)]" by (subst nat_str.simps) simp
    then have "nat_str (m div 10) = nat_str (n div 10)" "digit (m mod 10) = digit (n mod 10)" using m "1.prems" by simp_all
    then have "m div 10 = n div 10" "m mod 10 = n mod 10" using "1.IH" False digit_inj by simp_all
    then show ?thesis by (metis div_mult_mod_eq)
  qed
qed

lemma Itoa_inj: "Itoa i = Itoa j \<Longrightarrow> i = j"
proof -
  have minus: "CHR ''-'' \<notin> set (nat_str n)" for n using nat_str_digits [of n] by (auto simp: digit_chars_def)
  show "Itoa i = Itoa j \<Longrightarrow> i = j"
    using minus [of "nat i"] minus [of "nat j"] list.set_intros(1) [of "CHR ''-''" "nat_str (nat (- i))"]
      list.set_intros(1) [of "CHR ''-''" "nat_str (nat (- j))"]
    by (cases "i < 0"; cases "j < 0") (auto simp: Itoa_def simp del: list.set_intros dest!: nat_str_inj)
qed

lemma Itoa_chars: "c \<in> set (Itoa i) \<Longrightarrow> c = CHR ''-'' \<or> c \<in> digit_chars"
proof (cases "i < 0")
  case True
  then show "c \<in> set (Itoa i) \<Longrightarrow> ?thesis"
    using nat_str_digits [of "nat (- i)", THEN subsetD, of c] by (simp only: Itoa_def list.set insert_iff if_True) blast
next
  case False
  then show "c \<in> set (Itoa i) \<Longrightarrow> ?thesis"
    using nat_str_digits [of "nat i", THEN subsetD, of c] by (simp add: Itoa_def)
qed

lemma Itoa_no_colon: "CHR '':'' \<notin> set (Itoa i)"
  using Itoa_chars [of "CHR '':''" i] by (auto simp: digit_chars_def)

end
