(* ===== verification/Message_Model.thy ===== *)
theory Message_Model
  imports Go_Text Chat_Model
begin

text \<open>
  The message types of \<open>src/pkg/model\<close> and \<open>src/pkg/model/cassandra\<close>, the request a client sends, the
  canonical event every worker consumes, and the deduplication identifier it is published under
  (\<open>src/pkg/natsutil/canonical_dedup.go\<close>). Byte slices are strings; a \<open>time.Time\<close> is its Unix
  millisecond count.
\<close>

section \<open>Rows and snapshots\<close>

record CassParticipant =
  cp_ID :: string
  cp_EngName :: string
  cp_CompanyName :: string
  cp_AppID :: string
  cp_AppName :: string
  cp_IsBot :: bool
  cp_Account :: string

definition no_participant :: CassParticipant where
  "no_participant = \<lparr>cp_ID = '''', cp_EngName = '''', cp_CompanyName = '''', cp_AppID = '''', cp_AppName = '''',
     cp_IsBot = False, cp_Account = ''''\<rparr>"

record ImageDimensions =
  id_Width :: int
  id_Height :: int

record Attachment =
  at_ID :: string
  at_Title :: string
  at_Type :: string
  at_Description :: string
  at_TitleLink :: string
  at_TitleLinkDownload :: bool
  at_FileType :: string
  at_ImageURL :: string
  at_ImageType :: string
  at_ImageSize :: int
  at_ImageDimensions :: "ImageDimensions option"
  at_ImagePreview :: string
  at_AudioURL :: string
  at_AudioType :: string
  at_AudioSize :: int
  at_VideoURL :: string
  at_VideoType :: string
  at_VideoSize :: int

record Card =
  cd_Template :: string
  cd_Data :: string

record CardAction =
  ca_Verb :: string
  ca_Text :: string
  ca_CardID :: string
  ca_DisplayText :: string
  ca_HideExecLog :: bool
  ca_CardTmID :: string
  ca_Data :: string
  ca_BotUsername :: string

record QuotedParentMessage =
  qp_MessageID :: string
  qp_RoomID :: string
  qp_Sender :: CassParticipant
  qp_CreatedAt :: int
  qp_Msg :: string
  qp_Mentions :: "CassParticipant list"
  qp_Attachments :: "string list"
  qp_DecodedAttachments :: "Attachment list"
  qp_MessageLink :: string
  qp_ThreadParentID :: string
  qp_ThreadParentCreatedAt :: "int option"
  qp_TShow :: bool

section \<open>Messages and events\<close>

record Participant =
  pt_UserID :: string
  pt_Account :: string
  pt_SiteID :: string
  pt_ChineseName :: string
  pt_EngName :: string
  pt_DisplayName :: string

record Message =
  m_ID :: string
  m_RoomID :: string
  m_UserID :: string
  m_UserAccount :: string
  m_UserDisplayName :: string
  m_Content :: string
  m_Attachments :: "string list"
  m_Card :: "Card option"
  m_CardAction :: "CardAction option"
  m_Mentions :: "Participant list"
  m_CreatedAt :: int
  m_EditedAt :: "int option"
  m_UpdatedAt :: "int option"
  m_ThreadParentMessageID :: string
  m_ThreadParentMessageCreatedAt :: "int option"
  m_TShow :: bool
  m_Type :: string
  m_SysMsgData :: string
  m_QuotedParentMessage :: "QuotedParentMessage option"
  m_PinnedAt :: "int option"
  m_PinnedBy :: "Participant option"
  m_VisibleTo :: string

definition empty_Message :: Message where
  "empty_Message = \<lparr>m_ID = '''', m_RoomID = '''', m_UserID = '''', m_UserAccount = '''', m_UserDisplayName = '''',
     m_Content = '''', m_Attachments = [], m_Card = None, m_CardAction = None, m_Mentions = [], m_CreatedAt = 0,
     m_EditedAt = None, m_UpdatedAt = None, m_ThreadParentMessageID = '''', m_ThreadParentMessageCreatedAt = None,
     m_TShow = False, m_Type = '''', m_SysMsgData = '''', m_QuotedParentMessage = None, m_PinnedAt = None,
     m_PinnedBy = None, m_VisibleTo = ''''\<rparr>"

text \<open>The two fields of a user record that name it.\<close>

record UserNames =
  un_EngName :: string
  un_ChineseName :: string

definition SenderDisplayName :: "Message \<Rightarrow> string" where
  "SenderDisplayName m = (if m_UserDisplayName m \<noteq> '''' then m_UserDisplayName m else m_UserAccount m)"

definition Message_IsHiddenThreadReply :: "Message \<Rightarrow> bool" where
  "Message_IsHiddenThreadReply m = IsHiddenThreadReply (m_ThreadParentMessageID m) (m_TShow m)"

record SendMessageRequest =
  sr_ID :: string
  sr_Content :: string
  sr_RequestID :: string
  sr_ThreadParentMessageID :: string
  sr_QuotedParentMessageID :: string
  sr_TShow :: bool
  sr_Attachments :: "string list"
  sr_Type :: string
  sr_VisibleTo :: string

type_synonym EventType = string

definition EventCreated :: EventType where "EventCreated = ''created''"
definition EventUpdated :: EventType where "EventUpdated = ''updated''"
definition EventDeleted :: EventType where "EventDeleted = ''deleted''"
definition EventPinned :: EventType where "EventPinned = ''pinned''"
definition EventUnpinned :: EventType where "EventUnpinned = ''unpinned''"
definition EventReacted :: EventType where "EventReacted = ''reacted''"
definition EventThreadReplyAdded :: EventType where "EventThreadReplyAdded = ''thread_reply_added''"

lemmas event_defs = EventCreated_def EventUpdated_def EventDeleted_def EventPinned_def EventUnpinned_def
  EventReacted_def EventThreadReplyAdded_def

definition ReactionActionAdded :: string where "ReactionActionAdded = ''added''"
definition ReactionActionRemoved :: string where "ReactionActionRemoved = ''removed''"

record ReactionDelta =
  rd_Shortcode :: string
  rd_Action :: string
  rd_Actor :: Participant

record PreviewMessage =
  pm_MessageID :: string
  pm_Sender :: Participant
  pm_Content :: string
  pm_CreatedAt :: int
  pm_Attachments :: "Attachment list"
  pm_Mentions :: "Participant list"
  pm_VisibleTo :: string

record MessageEvent =
  ev_Event :: EventType
  ev_Message :: Message
  ev_SiteID :: string
  ev_ReactionDelta :: "ReactionDelta option"
  ev_Timestamp :: int
  ev_NewTCount :: "int option"
  ev_NewThreadLastMsgAt :: "int option"
  ev_QuotedParentUnverified :: bool
  ev_ThreadParentSenderAccount :: string
  ev_PreviewMessage :: "PreviewMessage option"

section \<open>Message types\<close>

definition MessageTypeRoomCreated :: string where "MessageTypeRoomCreated = ''room_created''"
definition MessageTypeMembersAdded :: string where "MessageTypeMembersAdded = ''members_added''"
definition MessageTypeMemberRemoved :: string where "MessageTypeMemberRemoved = ''member_removed''"
definition MessageTypeMemberLeft :: string where "MessageTypeMemberLeft = ''member_left''"
definition MessageTypeRoomRenamed :: string where "MessageTypeRoomRenamed = ''room_renamed''"
definition MessageTypeRoomRestricted :: string where "MessageTypeRoomRestricted = ''room_restricted''"
definition MessageTypeTeamsMeetStarted :: string where "MessageTypeTeamsMeetStarted = ''teams_meet_started''"
definition MessageTypeLegacyMembersRemoved :: string where "MessageTypeLegacyMembersRemoved = ''members_removed''"
definition MessageTypeLegacyMembersLeft :: string where "MessageTypeLegacyMembersLeft = ''members_left''"
definition MessageTypeImportant :: string where "MessageTypeImportant = ''important''"

definition systemMessageTypes :: "string set" where
  "systemMessageTypes = {MessageTypeRoomCreated, MessageTypeMembersAdded, MessageTypeMemberRemoved,
     MessageTypeMemberLeft, MessageTypeRoomRenamed, MessageTypeRoomRestricted, MessageTypeTeamsMeetStarted,
     MessageTypeLegacyMembersRemoved, MessageTypeLegacyMembersLeft}"

lemmas message_type_defs = MessageTypeRoomCreated_def MessageTypeMembersAdded_def MessageTypeMemberRemoved_def
  MessageTypeMemberLeft_def MessageTypeRoomRenamed_def MessageTypeRoomRestricted_def MessageTypeTeamsMeetStarted_def
  MessageTypeLegacyMembersRemoved_def MessageTypeLegacyMembersLeft_def MessageTypeImportant_def

definition IsSystemMessageType :: "string \<Rightarrow> bool" where
  "IsSystemMessageType t \<longleftrightarrow> t \<in> systemMessageTypes"

section \<open>Deduplication identifiers\<close>

definition must_time :: "int option \<Rightarrow> int go" where
  "must_time t = (case t of None \<Rightarrow> Inl (Panic ''nil pointer dereference'') | Some x \<Rightarrow> Inr x)"

definition CanonicalDedupID :: "MessageEvent \<Rightarrow> string go" where
  "CanonicalDedupID evt =
     (let mid = m_ID (ev_Message evt); ev = ev_Event evt in
      if ev = EventUpdated then
        map_sum id (\<lambda>t. Join '':'' [mid, ev, Itoa t]) (must_time (m_EditedAt (ev_Message evt)))
      else if ev = EventDeleted then Inr (mid @ '':'' @ ev)
      else if ev = EventPinned then
        map_sum id (\<lambda>t. Join '':'' [mid, ev, Itoa t]) (must_time (m_PinnedAt (ev_Message evt)))
      else if ev = EventUnpinned then Inr (Join '':'' [mid, ev, Itoa (ev_Timestamp evt)])
      else if ev = EventReacted then
        (case ev_ReactionDelta evt of None \<Rightarrow> Inr mid
         | Some d \<Rightarrow> Inr (Join '':'' [mid, ev, pt_Account (rd_Actor d), rd_Shortcode d, rd_Action d,
                                      Itoa (ev_Timestamp evt)]))
      else Inr mid)"

text \<open>The fields the identifier is meant to separate, as one list of colon-free parts.\<close>

definition dedup_parts :: "MessageEvent \<Rightarrow> string list" where
  "dedup_parts evt =
     (let mid = m_ID (ev_Message evt); ev = ev_Event evt in
      if ev = EventUpdated then [mid, ev, Itoa (the (m_EditedAt (ev_Message evt)))]
      else if ev = EventDeleted then [mid, ev]
      else if ev = EventPinned then [mid, ev, Itoa (the (m_PinnedAt (ev_Message evt)))]
      else if ev = EventUnpinned then [mid, ev, Itoa (ev_Timestamp evt)]
      else if ev = EventReacted \<and> ev_ReactionDelta evt \<noteq> None then
        (let d = the (ev_ReactionDelta evt) in
         [mid, ev, pt_Account (rd_Actor d), rd_Shortcode d, rd_Action d, Itoa (ev_Timestamp evt)])
      else [mid])"

definition dedup_clean :: "MessageEvent \<Rightarrow> bool" where
  "dedup_clean evt \<longleftrightarrow>
     CHR '':'' \<notin> set (m_ID (ev_Message evt))
     \<and> (ev_Event evt = EventUpdated \<longrightarrow> m_EditedAt (ev_Message evt) \<noteq> None)
     \<and> (ev_Event evt = EventPinned \<longrightarrow> m_PinnedAt (ev_Message evt) \<noteq> None)
     \<and> (case ev_ReactionDelta evt of None \<Rightarrow> True
        | Some d \<Rightarrow> CHR '':'' \<notin> set (pt_Account (rd_Actor d)) \<and> CHR '':'' \<notin> set (rd_Shortcode d)
                   \<and> CHR '':'' \<notin> set (rd_Action d))"

lemma dedup_parts_join:
  assumes "dedup_clean evt"
  shows "CanonicalDedupID evt = Inr (Join '':'' (dedup_parts evt))"
    and "\<forall>t \<in> set (dedup_parts evt). CHR '':'' \<notin> set t"
  using assms
  by (auto simp: CanonicalDedupID_def dedup_parts_def dedup_clean_def Let_def must_time_def event_defs Itoa_no_colon
      split: option.splits if_splits)

lemma dedup_parts_not_Nil [simp]: "dedup_parts evt \<noteq> []"
  by (simp add: dedup_parts_def Let_def)

text \<open>The occurrences the identifier tells apart: what kind of event, on which message, and the time or
  the reaction that makes it that occurrence.\<close>

definition same_occurrence :: "MessageEvent \<Rightarrow> MessageEvent \<Rightarrow> bool" where
  "same_occurrence e e' \<longleftrightarrow>
     m_ID (ev_Message e) = m_ID (ev_Message e') \<and> ev_Event e = ev_Event e'
     \<and> (ev_Event e = EventUpdated \<longrightarrow> m_EditedAt (ev_Message e) = m_EditedAt (ev_Message e'))
     \<and> (ev_Event e = EventPinned \<longrightarrow> m_PinnedAt (ev_Message e) = m_PinnedAt (ev_Message e'))
     \<and> (ev_Event e = EventUnpinned \<or> ev_Event e = EventReacted \<longrightarrow> ev_Timestamp e = ev_Timestamp e')
     \<and> (ev_Event e = EventReacted \<longrightarrow>
          (\<lambda>d. (pt_Account (rd_Actor d), rd_Shortcode d, rd_Action d)) (the (ev_ReactionDelta e))
          = (\<lambda>d. (pt_Account (rd_Actor d), rd_Shortcode d, rd_Action d)) (the (ev_ReactionDelta e')))"

definition client_event :: "MessageEvent \<Rightarrow> bool" where
  "client_event e \<longleftrightarrow> ev_Event e \<in> {EventCreated, EventUpdated, EventDeleted, EventPinned, EventUnpinned, EventReacted}
     \<and> (ev_Event e = EventReacted \<longrightarrow> ev_ReactionDelta e \<noteq> None)"

lemma event_neq [simp]:
  "EventCreated \<noteq> EventUpdated" "EventCreated \<noteq> EventDeleted" "EventCreated \<noteq> EventPinned"
  "EventCreated \<noteq> EventUnpinned" "EventCreated \<noteq> EventReacted" "EventUpdated \<noteq> EventDeleted"
  "EventUpdated \<noteq> EventPinned" "EventUpdated \<noteq> EventUnpinned" "EventUpdated \<noteq> EventReacted"
  "EventDeleted \<noteq> EventPinned" "EventDeleted \<noteq> EventUnpinned" "EventDeleted \<noteq> EventReacted"
  "EventPinned \<noteq> EventUnpinned" "EventPinned \<noteq> EventReacted" "EventUnpinned \<noteq> EventReacted"
  by (simp_all add: event_defs)

lemmas event_neqs [simp] = event_neq [symmetric]

lemma dedup_parts_kinds:
  "ev_Event e = EventCreated \<Longrightarrow> dedup_parts e = [m_ID (ev_Message e)]"
  "ev_Event e = EventUpdated \<Longrightarrow> dedup_parts e = [m_ID (ev_Message e), EventUpdated, Itoa (the (m_EditedAt (ev_Message e)))]"
  "ev_Event e = EventDeleted \<Longrightarrow> dedup_parts e = [m_ID (ev_Message e), EventDeleted]"
  "ev_Event e = EventPinned \<Longrightarrow> dedup_parts e = [m_ID (ev_Message e), EventPinned, Itoa (the (m_PinnedAt (ev_Message e)))]"
  "ev_Event e = EventUnpinned \<Longrightarrow> dedup_parts e = [m_ID (ev_Message e), EventUnpinned, Itoa (ev_Timestamp e)]"
  "ev_Event e = EventReacted \<Longrightarrow> ev_ReactionDelta e = Some d \<Longrightarrow> dedup_parts e =
     [m_ID (ev_Message e), EventReacted, pt_Account (rd_Actor d), rd_Shortcode d, rd_Action d, Itoa (ev_Timestamp e)]"
  by (simp_all add: dedup_parts_def Let_def)

lemma client_event_cases:
  assumes "client_event e" "dedup_clean e"
  obtains "ev_Event e = EventCreated"
  | t where "ev_Event e = EventUpdated" "m_EditedAt (ev_Message e) = Some t"
  | "ev_Event e = EventDeleted"
  | t where "ev_Event e = EventPinned" "m_PinnedAt (ev_Message e) = Some t"
  | "ev_Event e = EventUnpinned"
  | d where "ev_Event e = EventReacted" "ev_ReactionDelta e = Some d"
  using assms unfolding client_event_def dedup_clean_def by (elim conjE insertE emptyE) blast+

lemma Itoa_eq: "Itoa i = Itoa j \<longleftrightarrow> i = j"
  using Itoa_inj by blast

lemma dedup_parts_eq:
  assumes "dedup_clean e" "dedup_clean e'" "client_event e" "client_event e'"
  shows "dedup_parts e = dedup_parts e' \<longleftrightarrow> same_occurrence e e'"
  by (rule client_event_cases [OF assms(3,1)]; rule client_event_cases [OF assms(4,2)])
     (simp_all add: dedup_parts_kinds same_occurrence_def Itoa_eq conj_ac)

text \<open>Two canonical events are published under one deduplication identifier exactly when they are the
  same occurrence: the same kind of event on the same message, edited or pinned at the same time,
  unpinned at the same time, or the same reaction toggled by the same account at the same time. So the
  stream drops a redelivery and never drops a different event.\<close>

theorem dedup_id_separates:
  assumes "dedup_clean e" "dedup_clean e'" "client_event e" "client_event e'"
  shows "CanonicalDedupID e = CanonicalDedupID e' \<longleftrightarrow> same_occurrence e e'"
proof -
  have "Join '':'' (dedup_parts e) = Join '':'' (dedup_parts e') \<longleftrightarrow> dedup_parts e = dedup_parts e'"
    using Split_Join [of "dedup_parts e" "CHR '':''"] Split_Join [of "dedup_parts e'" "CHR '':''"]
      dedup_parts_join(2) [OF assms(1)] dedup_parts_join(2) [OF assms(2)]
    by (metis dedup_parts_not_Nil)
  then show ?thesis
    using dedup_parts_join(1) [OF assms(1)] dedup_parts_join(1) [OF assms(2)] dedup_parts_eq [OF assms] by simp
qed

definition pin_event :: "int \<Rightarrow> MessageEvent" where
  "pin_event t = \<lparr>ev_Event = EventPinned, ev_Message = empty_Message\<lparr>m_ID := ''m1'', m_PinnedAt := Some t\<rparr>,
     ev_SiteID = ''s1'', ev_ReactionDelta = None, ev_Timestamp = 0, ev_NewTCount = None, ev_NewThreadLastMsgAt = None,
     ev_QuotedParentUnverified = False, ev_ThreadParentSenderAccount = '''', ev_PreviewMessage = None\<rparr>"

theorem dedup_id_separates_witness:
  "CanonicalDedupID (pin_event 5) \<noteq> CanonicalDedupID (pin_event 6)"
  using dedup_id_separates [of "pin_event 5" "pin_event 6"]
  by (simp add: pin_event_def dedup_clean_def client_event_def same_occurrence_def event_defs empty_Message_def)

end
