(* ===== verification/Err_Code.thy ===== *)
theory Err_Code
  imports Chat_Prelude Go_Strings
begin

text \<open>
  The client-facing errors of \<open>src/pkg/errcode\<close> and their NATS and HTTP forms
  (\<open>errcode/errnats\<close>, \<open>errcode/errhttp\<close>). A Go error value is the tree \<open>errors.Is\<close> and \<open>errors.As\<close>
  walk: a plain error, one wrapped by \<open>fmt.Errorf\<close> with a \<open>%w\<close>, a join, a typed \<open>*Error\<close> with its
  unexported cause, or a \<open>*PermanentError\<close>. Sentinels are told apart by their contents. The JSON
  encoder and decoder are arguments.
\<close>

section \<open>Codes and error values\<close>

type_synonym Code = string
type_synonym Reason = string

definition CodeBadRequest :: Code where "CodeBadRequest = ''bad_request''"
definition CodeUnauthenticated :: Code where "CodeUnauthenticated = ''unauthenticated''"
definition CodeForbidden :: Code where "CodeForbidden = ''forbidden''"
definition CodeNotFound :: Code where "CodeNotFound = ''not_found''"
definition CodeConflict :: Code where "CodeConflict = ''conflict''"
definition CodeTooManyRequests :: Code where "CodeTooManyRequests = ''too_many_requests''"
definition CodeUnavailable :: Code where "CodeUnavailable = ''unavailable''"
definition CodeInternal :: Code where "CodeInternal = ''internal''"

lemmas code_defs = CodeBadRequest_def CodeUnauthenticated_def CodeForbidden_def CodeNotFound_def
  CodeConflict_def CodeTooManyRequests_def CodeUnavailable_def CodeInternal_def

definition Valid :: "Code \<Rightarrow> bool" where
  "Valid c \<longleftrightarrow> c \<in> {CodeBadRequest, CodeUnauthenticated, CodeForbidden, CodeNotFound,
     CodeConflict, CodeTooManyRequests, CodeUnavailable, CodeInternal}"

definition HTTPStatus :: "Code \<Rightarrow> int" where
  "HTTPStatus c =
     (if c = CodeBadRequest then 400
      else if c = CodeUnauthenticated then 401
      else if c = CodeForbidden then 403
      else if c = CodeNotFound then 404
      else if c = CodeConflict then 409
      else if c = CodeTooManyRequests then 429
      else if c = CodeUnavailable then 503
      else 500)"

datatype goerr =
    Raw string
  | Wrapf string goerr
  | Joined "goerr list"
  | Typed Error
  | PermErr Error
and Error =
  Error (ec_Code: Code) (ec_Reason: Reason) (ec_Message: string)
        (ec_Metadata: "string \<Rightarrow> string option") (ec_cause: "goerr option")

definition ErrPermanent :: goerr where "ErrPermanent = Raw ''permanent''"

text \<open>What a value prints as.\<close>

fun err_text :: "goerr \<Rightarrow> string" where
  "err_text (Raw s) = s"
| "err_text (Wrapf s e) = s @ '': '' @ err_text e"
| "err_text (Joined es) = Join [CHR 0x0A] (map err_text es)"
| "err_text (Typed e) = ec_Message e"
| "err_text (PermErr e) = ec_Message e"

text \<open>The first member of a list that a search succeeds on.\<close>

fun first_some :: "('a \<Rightarrow> 'b option) \<Rightarrow> 'a list \<Rightarrow> 'b option" where
  "first_some f [] = None"
| "first_some f (x # xs) = (case f x of Some y \<Rightarrow> Some y | None \<Rightarrow> first_some f xs)"

lemma first_some_cong [fundef_cong]:
  "xs = ys \<Longrightarrow> (\<And>x. x \<in> set ys \<Longrightarrow> f x = g x) \<Longrightarrow> first_some f xs = first_some g ys"
  by (induction ys arbitrary: xs) (auto split: option.splits)

lemma first_some_None: "first_some f xs = None \<longleftrightarrow> (\<forall>x \<in> set xs. f x = None)"
  by (induction xs) (auto split: option.splits)

text \<open>\<open>errors.As\<close> with a \<open>*Error\<close> target, and with a \<open>*PermanentError\<close> target.\<close>

fun as_Error :: "goerr \<Rightarrow> Error option" where
  "as_Error (Raw s) = None"
| "as_Error (Wrapf s e) = as_Error e"
| "as_Error (Joined es) = first_some as_Error es"
| "as_Error (Typed e) = Some e"
| "as_Error (PermErr e) = Some e"

fun as_Permanent :: "goerr \<Rightarrow> Error option" and cause_Permanent :: "Error \<Rightarrow> Error option" where
  "as_Permanent (Raw s) = None"
| "as_Permanent (Wrapf s e) = as_Permanent e"
| "as_Permanent (Joined es) = first_some as_Permanent es"
| "as_Permanent (Typed e) = cause_Permanent e"
| "as_Permanent (PermErr e) = Some e"
| "cause_Permanent (Error c r m md cause) =
     (case cause of None \<Rightarrow> None | Some e \<Rightarrow> as_Permanent e)"

text \<open>\<open>errors.Is\<close>.\<close>

fun err_is :: "goerr \<Rightarrow> goerr \<Rightarrow> bool" and cause_is :: "goerr \<Rightarrow> Error \<Rightarrow> bool" where
  "err_is t (Raw s) \<longleftrightarrow> t = Raw s"
| "err_is t (Wrapf s e) \<longleftrightarrow> t = Wrapf s e \<or> err_is t e"
| "err_is t (Joined es) \<longleftrightarrow> t = Joined es \<or> (\<exists>e \<in> set es. err_is t e)"
| "err_is t (Typed e) \<longleftrightarrow> t = Typed e \<or> cause_is t e"
| "err_is t (PermErr e) \<longleftrightarrow> t = PermErr e \<or> t = ErrPermanent \<or> t = Typed e \<or> cause_is t e"
| "cause_is t (Error c r m md cause) \<longleftrightarrow> (case cause of None \<Rightarrow> False | Some e \<Rightarrow> err_is t e)"

section \<open>Constructing errors\<close>

type_synonym Option = "Error \<Rightarrow> Error go"

fun run_options :: "Option list \<Rightarrow> Error \<Rightarrow> Error go" where
  "run_options [] e = Inr e"
| "run_options (f # fs) e = (case f e of Inl p \<Rightarrow> Inl p | Inr e' \<Rightarrow> run_options fs e')"

definition New :: "Code \<Rightarrow> string \<Rightarrow> Option list \<Rightarrow> Error go" where
  "New code message opts =
     (if \<not> Valid code then Inl (Panic ''errcode: New called with non-canonical Code'')
      else if message = '''' then Inl (Panic ''errcode: empty message'')
      else run_options opts (Error code '''' message Map.empty None))"

definition BadRequest :: "string \<Rightarrow> Option list \<Rightarrow> Error go" where "BadRequest = New CodeBadRequest"
definition Unauthenticated :: "string \<Rightarrow> Option list \<Rightarrow> Error go" where "Unauthenticated = New CodeUnauthenticated"
definition Forbidden :: "string \<Rightarrow> Option list \<Rightarrow> Error go" where "Forbidden = New CodeForbidden"
definition NotFound :: "string \<Rightarrow> Option list \<Rightarrow> Error go" where "NotFound = New CodeNotFound"
definition Conflict :: "string \<Rightarrow> Option list \<Rightarrow> Error go" where "Conflict = New CodeConflict"
definition TooManyRequests :: "string \<Rightarrow> Option list \<Rightarrow> Error go" where "TooManyRequests = New CodeTooManyRequests"
definition Unavailable :: "string \<Rightarrow> Option list \<Rightarrow> Error go" where "Unavailable = New CodeUnavailable"
definition Internal :: "string \<Rightarrow> Option list \<Rightarrow> Error go" where "Internal = New CodeInternal"

lemmas constructor_defs = BadRequest_def Unauthenticated_def Forbidden_def NotFound_def Conflict_def
  TooManyRequests_def Unavailable_def Internal_def

definition WithReason :: "Reason \<Rightarrow> Option" where
  "WithReason r e = Inr (Error (ec_Code e) r (ec_Message e) (ec_Metadata e) (ec_cause e))"

fun put_pairs :: "string list \<Rightarrow> (string \<Rightarrow> string option) \<Rightarrow> (string \<Rightarrow> string option)" where
  "put_pairs (k # v # kv) m = put_pairs kv (m(k \<mapsto> v))"
| "put_pairs _ m = m"

definition WithMetadata :: "string list \<Rightarrow> Option" where
  "WithMetadata kv e =
     (if length kv mod 2 \<noteq> 0 then Inl (Panic ''errcode: WithMetadata requires an even number of args'')
      else Inr (Error (ec_Code e) (ec_Reason e) (ec_Message e) (put_pairs kv (ec_Metadata e)) (ec_cause e)))"

definition WithCause :: "goerr \<Rightarrow> Option" where
  "WithCause err e =
     (case as_Error err of
        Some _ \<Rightarrow> Inl (Panic ''errcode: WithCause must not wrap another *errcode.Error'')
      | None \<Rightarrow> Inr (Error (ec_Code e) (ec_Reason e) (ec_Message e) (ec_Metadata e) (Some err)))"

definition Permanent :: "Error option \<Rightarrow> goerr go" where
  "Permanent ec = (case ec of None \<Rightarrow> Inl (Panic ''errcode.Permanent: nil *Error'') | Some e \<Rightarrow> Inr (PermErr e))"

definition MarshalFailed :: "string \<Rightarrow> goerr \<Rightarrow> goerr go" where
  "MarshalFailed what cause =
     (case Internal (''marshal '' @ what) [WithCause cause] of Inl p \<Rightarrow> Inl p | Inr e \<Rightarrow> Permanent (Some e))"

section \<open>Reading errors back\<close>

definition ReasonOf :: "goerr \<Rightarrow> Reason" where
  "ReasonOf err = (case as_Error err of Some e \<Rightarrow> ec_Reason e | None \<Rightarrow> '''')"

definition HasReason :: "goerr \<Rightarrow> Reason \<Rightarrow> bool" where
  "HasReason err r \<longleftrightarrow> ReasonOf err = r"

definition IsPermanent :: "goerr \<Rightarrow> Error option" where
  "IsPermanent err = as_Permanent err"

definition Terminal :: "goerr \<Rightarrow> Error option" where
  "Terminal err = (case as_Error err of
     None \<Rightarrow> None
   | Some ee \<Rightarrow>
       if ec_Code ee \<in> {CodeUnavailable, CodeInternal, CodeTooManyRequests, CodeUnauthenticated}
       then None else Some ee)"

text \<open>\<open>Parse\<close> reads an error envelope: the decoded value counts only when its message is not empty.\<close>

definition Parse :: "(string \<Rightarrow> Error option) \<Rightarrow> string \<Rightarrow> Error option" where
  "Parse dec data = (case dec data of None \<Rightarrow> None | Some e \<Rightarrow> if ec_Message e = '''' then None else Some e)"

section \<open>Classifying\<close>

datatype level = LevelInfo | LevelError

record log_line =
  ll_level :: level
  ll_code :: string
  ll_reason :: string
  ll_cause :: string
  ll_underlying :: "string option"

definition logLevel :: "Error \<Rightarrow> level" where
  "logLevel e = (if ec_Code e \<in> {CodeInternal, CodeUnavailable} then LevelError else LevelInfo)"

definition Classify :: "goerr option \<Rightarrow> (Error \<times> log_line) option" where
  "Classify err = (case err of None \<Rightarrow> None | Some err \<Rightarrow>
     let found = as_Error err;
         e = (case found of Some e \<Rightarrow> e | None \<Rightarrow> Error CodeInternal '''' ''internal error'' Map.empty (Some err));
         underlying = (case found of
             Some e \<Rightarrow> (case ec_cause e of None \<Rightarrow> '''' | Some c \<Rightarrow> err_text c)
           | None \<Rightarrow> '''');
         cause = (if found = None \<or> err \<noteq> Typed e then err_text err else ec_Message e) in
     Some (e, \<lparr>ll_level = logLevel e, ll_code = ec_Code e, ll_reason = ec_Reason e, ll_cause = cause,
               ll_underlying = (if underlying \<noteq> '''' then Some underlying else None)\<rparr>))"

text \<open>The fields JSON encodes; the cause is unexported.\<close>

definition wire :: "Error \<Rightarrow> string \<times> string \<times> string \<times> (string \<Rightarrow> string option)" where
  "wire e = (ec_Code e, ec_Reason e, ec_Message e, ec_Metadata e)"

section \<open>Replies over NATS and HTTP\<close>

type_synonym encoder = "string \<times> string \<times> string \<times> (string \<Rightarrow> string option) \<Rightarrow> string option"

definition errnats_fallback :: string where
  "errnats_fallback = ''{\"code\":\"internal\",\"error\":\"internal error\"}''"

definition Marshal :: "encoder \<Rightarrow> goerr option \<Rightarrow> string" where
  "Marshal enc err =
     (case Classify err of None \<Rightarrow> ''null''
      | Some (e, _) \<Rightarrow> (case enc (wire e) of None \<Rightarrow> errnats_fallback | Some data \<Rightarrow> data))"

definition MarshalQuiet :: "encoder \<Rightarrow> goerr \<Rightarrow> string" where
  "MarshalQuiet enc err =
     (let e = (case as_Error err of Some e \<Rightarrow> e
               | None \<Rightarrow> Error CodeInternal '''' ''internal error'' Map.empty None) in
      case enc (wire e) of None \<Rightarrow> errnats_fallback | Some data \<Rightarrow> data)"

definition ResponseTooLarge :: Reason where "ResponseTooLarge = ''response_too_large''"

definition ErrMaxPayload :: goerr where "ErrMaxPayload = Raw ''nats: maximum payload exceeded''"

definition IsOversize :: "goerr \<Rightarrow> bool" where
  "IsOversize err = err_is ErrMaxPayload err"

definition OversizeEnvelope :: "encoder \<Rightarrow> string" where
  "OversizeEnvelope enc =
     MarshalQuiet enc (Typed (Error CodeInternal ResponseTooLarge ''response payload exceeds maximum size'' Map.empty None))"

text \<open>The payloads a failed request's reply subject is sent, in order; \<open>send\<close> is the transport.\<close>

definition respondOversize :: "encoder \<Rightarrow> goerr \<Rightarrow> string list" where
  "respondOversize enc sendErr = (if \<not> IsOversize sendErr then [] else [OversizeEnvelope enc])"

definition Reply :: "encoder \<Rightarrow> (string \<Rightarrow> goerr option) \<Rightarrow> goerr \<Rightarrow> string list" where
  "Reply enc send err =
     (let data = Marshal enc (Some err) in
      data # (case send data of None \<Rightarrow> [] | Some rErr \<Rightarrow> respondOversize enc rErr))"

definition ReplyQuiet :: "encoder \<Rightarrow> (string \<Rightarrow> goerr option) \<Rightarrow> goerr \<Rightarrow> string list" where
  "ReplyQuiet enc send err =
     (let data = MarshalQuiet enc err in
      data # (case send data of None \<Rightarrow> [] | Some rErr \<Rightarrow> respondOversize enc rErr))"

definition Write :: "goerr \<Rightarrow> (int \<times> (string \<times> string \<times> string \<times> (string \<Rightarrow> string option))) option" where
  "Write err = (case Classify (Some err) of None \<Rightarrow> None | Some (e, _) \<Rightarrow> Some (HTTPStatus (ec_Code e), wire e))"

section \<open>Transport failures of a request\<close>

definition ErrNoResponders :: goerr where "ErrNoResponders = Raw ''nats: no responders available for request''"
definition ErrTimeout :: goerr where "ErrTimeout = Raw ''nats: timeout''"
definition DeadlineExceeded :: goerr where "DeadlineExceeded = Raw ''context deadline exceeded''"
definition Canceled :: goerr where "Canceled = Raw ''context canceled''"

definition NatsNoResponders :: Reason where "NatsNoResponders = ''no_responders''"
definition NatsRequestTimeout :: Reason where "NatsRequestTimeout = ''upstream_timeout''"

definition typed_go :: "Error go \<Rightarrow> goerr go" where
  "typed_go r = (case r of Inl p \<Rightarrow> Inl p | Inr e \<Rightarrow> Inr (Typed e))"

definition RequestFailure :: "string \<Rightarrow> goerr option \<Rightarrow> goerr option go" where
  "RequestFailure op err = (case err of None \<Rightarrow> Inr None | Some err \<Rightarrow>
     map_sum id Some
       (if err_is ErrNoResponders err then
          typed_go (Unavailable (op @ '': no service responding'') [WithReason NatsNoResponders, WithCause err])
        else if err_is ErrTimeout err \<or> err_is DeadlineExceeded err then
          typed_go (Unavailable (op @ '': upstream did not respond in time'') [WithReason NatsRequestTimeout, WithCause err])
        else Inr (Wrapf op err)))"

section \<open>The one-per-chain invariant\<close>

text \<open>How many typed errors a value holds, counted over every branch of the tree.\<close>

fun typed_count :: "goerr \<Rightarrow> nat" and typed_count_in :: "Error \<Rightarrow> nat" where
  "typed_count (Raw s) = 0"
| "typed_count (Wrapf s e) = typed_count e"
| "typed_count (Joined es) = sum_list (map typed_count es)"
| "typed_count (Typed e) = typed_count_in e"
| "typed_count (PermErr e) = typed_count_in e"
| "typed_count_in (Error c r m md cause) = Suc (case cause of None \<Rightarrow> 0 | Some e \<Rightarrow> typed_count e)"

lemma first_some_zero:
  "(\<And>x. x \<in> set es \<Longrightarrow> f x = None \<longleftrightarrow> g x = (0::nat)) \<Longrightarrow> first_some f es = None \<longleftrightarrow> sum_list (map g es) = 0"
  by (auto simp: first_some_None)

lemma as_Error_None: "as_Error err = None \<longleftrightarrow> typed_count err = 0"
proof (induction err rule: as_Error.induct)
  case (4 e) then show ?case by (cases e) simp
next
  case (5 e) then show ?case by (cases e) simp
qed (auto simp: first_some_None)

lemma run_options_single:
  assumes "\<And>f e e'. f \<in> set fs \<Longrightarrow> f e = Inr e' \<Longrightarrow> typed_count_in e = 1 \<Longrightarrow> typed_count_in e' = 1"
    and "run_options fs e = Inr e'" "typed_count_in e = 1"
  shows "typed_count_in e' = 1"
  using assms by (induction fs arbitrary: e) (force split: sum.splits)+

lemma WithReason_single: "WithReason r e = Inr e' \<Longrightarrow> typed_count_in e = 1 \<Longrightarrow> typed_count_in e' = 1"
  by (cases e) (auto simp: WithReason_def)

lemma WithMetadata_single: "WithMetadata kv e = Inr e' \<Longrightarrow> typed_count_in e = 1 \<Longrightarrow> typed_count_in e' = 1"
  by (cases e) (auto simp: WithMetadata_def split: if_splits)

lemma WithCause_single: "WithCause c e = Inr e' \<Longrightarrow> typed_count_in e' = 1"
  by (auto simp: WithCause_def as_Error_None split: option.splits)

text \<open>The options the package offers.\<close>

definition package_option :: "Option \<Rightarrow> bool" where
  "package_option f \<longleftrightarrow> (\<exists>r. f = WithReason r) \<or> (\<exists>kv. f = WithMetadata kv) \<or> (\<exists>c. f = WithCause c)"

lemma New_single:
  assumes "New code msg opts = Inr e" "list_all package_option opts"
  shows "typed_count_in e = 1"
proof -
  have "run_options opts (Error code '''' msg Map.empty None) = Inr e"
    using assms(1) by (simp add: New_def split: if_splits)
  moreover have "f e1 = Inr e2 \<Longrightarrow> typed_count_in e1 = 1 \<Longrightarrow> typed_count_in e2 = 1" if "f \<in> set opts" for f e1 e2
    using that assms(2) WithReason_single WithMetadata_single WithCause_single
    by (auto simp: list_all_iff package_option_def)
  ultimately show ?thesis
    using run_options_single [of opts "Error code '''' msg Map.empty None" e] by simp
qed

lemma single_wrap: "typed_count err = 1 \<Longrightarrow> typed_count (Wrapf s err) = 1"
  by simp

lemma as_Permanent_zero:
  "typed_count err = 0 \<Longrightarrow> as_Permanent err = None"
  "typed_count_in ec = 1 \<Longrightarrow> cause_Permanent ec = None"
  by (induction err and ec rule: as_Permanent_cause_Permanent.induct)
     (auto simp: first_some_None split: option.splits, (metis One_nat_def Suc_neq_Zero typed_count_in.simps Error.exhaust)+)

section \<open>What callers may rely on\<close>

lemma as_Error_wraps: "as_Error (foldr Wrapf ps err) = as_Error err"
  by (induction ps) auto

lemma as_Permanent_wraps: "as_Permanent (foldr Wrapf ps err) = as_Permanent err"
  by (induction ps) auto

lemma typed_count_wraps: "typed_count (foldr Wrapf ps err) = typed_count err"
  by (induction ps) auto

text \<open>C39: Every error the constructors build has exactly one verdict. Whatever options it was built with
  and however often it is wrapped on the way out, the chain holds exactly one typed error; that is the
  error every reader finds; the permanence mark is seen exactly when it was set; and the error cannot
  be slipped under another one as a cause.\<close>

theorem errcode_single_verdict:
  assumes "New code msg opts = Inr e" "list_all package_option opts"
  shows "typed_count (foldr Wrapf ps (Typed e)) = 1 \<and> typed_count (foldr Wrapf ps (PermErr e)) = 1
    \<and> as_Error (foldr Wrapf ps (Typed e)) = Some e \<and> as_Error (foldr Wrapf ps (PermErr e)) = Some e
    \<and> IsPermanent (foldr Wrapf ps (Typed e)) = None \<and> IsPermanent (foldr Wrapf ps (PermErr e)) = Some e
    \<and> (\<exists>p. WithCause (foldr Wrapf ps (Typed e)) outer = Inl p)"
  using New_single [OF assms] as_Permanent_zero(2) [of e]
  by (simp add: typed_count_wraps as_Error_wraps as_Permanent_wraps IsPermanent_def WithCause_def)

theorem errcode_single_verdict_witness:
  "IsPermanent (foldr Wrapf [''get user'', ''send''] (Typed (Error CodeNotFound ''user_not_found'' ''no such user'' Map.empty (Some (Raw ''no documents''))))) = None"
proof -
  have "New CodeNotFound ''no such user'' [WithReason ''user_not_found'', WithCause (Raw ''no documents'')]
    = Inr (Error CodeNotFound ''user_not_found'' ''no such user'' Map.empty (Some (Raw ''no documents'')))"
    by (simp add: New_def Valid_def WithReason_def WithCause_def)
  from errcode_single_verdict [OF this, of "[''get user'', ''send'']"] show ?thesis
    by (simp add: package_option_def) blast
qed


end
