(* ===== verification/Id_Gen.thy ===== *)
theory Id_Gen
  imports Chat_Prelude Go_Strings "HOL-Library.Char_ord" "HOL-Library.List_Lexorder"
begin

text \<open>
  Identifiers (\<open>src/pkg/idgen\<close>). The sources the package draws from are arguments: \<open>read k\<close> is the
  buffer the k-th call of \<open>rand.Read\<close> fills, \<open>sha256\<close> the digest as a list of byte values, \<open>newV7\<close> the
  sixteen bytes of a fresh UUID. Strings compare byte by byte, which is the library's lexicographic order.
\<close>

section \<open>Base 62\<close>

definition alphabet :: string where
  "alphabet = ''0123456789ABCDEFGHIJKLMNOPQRSTUVWXYZabcdefghijklmnopqrstuvwxyz''"

definition idLength :: nat where "idLength = 17"
definition messageIDLength :: nat where "messageIDLength = 20"
definition legacyMessageIDLength :: nat where "legacyMessageIDLength = 17"
definition uuidHyphenatedLength :: nat where "uuidHyphenatedLength = 36"

text \<open>The loop fills the buffer from its last position to its first.\<close>

fun base62_loop :: "nat \<Rightarrow> nat \<Rightarrow> string \<Rightarrow> string" where
  "base62_loop n 0 buf = buf"
| "base62_loop n (Suc i) buf = base62_loop (n div 62) i (alphabet ! (n mod 62) # buf)"

definition encodeBase62 :: "nat \<Rightarrow> nat \<Rightarrow> string" where
  "encodeBase62 n len = base62_loop n len []"

text \<open>One buffer of random bytes: bytes from 248 up are rejected, the rest give a digit each until the
  identifier is full.\<close>

fun take_bytes :: "nat \<Rightarrow> nat list \<Rightarrow> string \<Rightarrow> string" where
  "take_bytes len [] out = out"
| "take_bytes len (b # bs) out =
     (if b \<ge> 248 then take_bytes len bs out
      else let out' = out @ [alphabet ! (b mod 62)] in
           if length out' = len then out' else take_bytes len bs out')"

partial_function (option) generate_loop :: "nat \<Rightarrow> (nat \<Rightarrow> nat list) \<Rightarrow> nat \<Rightarrow> string \<Rightarrow> string option" where
  "generate_loop len read k out =
     (if length out < len then generate_loop len read (k + 1) (take_bytes len (read k) out) else Some out)"

definition generateBase62 :: "nat \<Rightarrow> (nat \<Rightarrow> nat list) \<Rightarrow> string option" where
  "generateBase62 len read = generate_loop len read 0 []"

definition GenerateID :: "(nat \<Rightarrow> nat list) \<Rightarrow> string option" where
  "GenerateID = generateBase62 idLength"

definition GenerateMessageID :: "(nat \<Rightarrow> nat list) \<Rightarrow> string option" where
  "GenerateMessageID = generateBase62 messageIDLength"

section \<open>Derived identifiers\<close>

definition SetBytes :: "nat list \<Rightarrow> nat" where
  "SetBytes bs = fold (\<lambda>b n. 256 * n + b) bs 0"

definition MessageIDFromRequestID :: "(string \<Rightarrow> nat list) \<Rightarrow> string \<Rightarrow> string \<Rightarrow> string" where
  "MessageIDFromRequestID sha256 requestID suffix =
     encodeBase62 (SetBytes (take 16 (sha256 (requestID @ '':'' @ suffix)))) messageIDLength"

definition DeterministicID :: "(string \<Rightarrow> nat list) \<Rightarrow> string \<Rightarrow> string" where
  "DeterministicID sha256 seed = encodeBase62 (SetBytes (take 16 (sha256 seed))) idLength"

section \<open>Validators\<close>

definition between :: "char \<Rightarrow> char \<Rightarrow> char \<Rightarrow> bool" where
  "between lo hi c \<longleftrightarrow> lo \<le> c \<and> c \<le> hi"

definition base62_char :: "char \<Rightarrow> bool" where
  "base62_char c \<longleftrightarrow> between CHR ''0'' CHR ''9'' c \<or> between CHR ''A'' CHR ''Z'' c \<or> between CHR ''a'' CHR ''z'' c"

definition IsValidMessageID :: "string \<Rightarrow> bool" where
  "IsValidMessageID s \<longleftrightarrow>
     \<not> (length s \<noteq> messageIDLength \<and> length s \<noteq> legacyMessageIDLength) \<and> list_all base62_char s"

definition hex_lower :: "char \<Rightarrow> bool" where
  "hex_lower c \<longleftrightarrow> between CHR ''0'' CHR ''9'' c \<or> between CHR ''a'' CHR ''f'' c"

definition IsValidUUIDv7 :: "string \<Rightarrow> bool" where
  "IsValidUUIDv7 s \<longleftrightarrow> length s = 32 \<and> list_all hex_lower s \<and> s ! 12 = CHR ''7''
     \<and> s ! 16 \<in> {CHR ''8'', CHR ''9'', CHR ''a'', CHR ''b''}"

definition uuid_char :: "nat \<Rightarrow> char \<Rightarrow> bool" where
  "uuid_char i c \<longleftrightarrow> (if i \<in> {8, 13, 18, 23} then c = CHR ''-''
     else hex_lower c \<or> between CHR ''A'' CHR ''F'' c)"

definition IsValidUUID :: "string \<Rightarrow> bool" where
  "IsValidUUID s \<longleftrightarrow> length s = uuidHyphenatedLength \<and> list_all (\<lambda>(i, c). uuid_char i c) (enumerate 0 s)"

section \<open>UUIDs, request ids and direct-message rooms\<close>

definition hex_digits :: string where "hex_digits = ''0123456789abcdef''"

definition hexEncode :: "nat list \<Rightarrow> string" where
  "hexEncode bs = concat (map (\<lambda>b. [hex_digits ! (b div 16), hex_digits ! (b mod 16)]) bs)"

definition GenerateUUIDv7 :: "nat list option \<Rightarrow> string go" where
  "GenerateUUIDv7 newV7 = (case newV7 of None \<Rightarrow> Inl (Panic ''idgen: uuid.NewV7 failed'') | Some u \<Rightarrow> Inr (hexEncode u))"

definition GenerateRequestID :: "string option \<Rightarrow> string go" where
  "GenerateRequestID fresh = (case fresh of None \<Rightarrow> Inl (Panic ''idgen: uuid.NewV7 failed'') | Some u \<Rightarrow> Inr u)"

definition ResolveRequestID :: "string option \<Rightarrow> string \<Rightarrow> (string \<times> bool) go" where
  "ResolveRequestID fresh inbound =
     (if IsValidUUID inbound then Inr (inbound, False)
      else case GenerateRequestID fresh of Inl p \<Rightarrow> Inl p | Inr u \<Rightarrow> Inr (u, inbound \<noteq> ''''))"

definition BuildDMRoomID :: "string \<Rightarrow> string \<Rightarrow> string" where
  "BuildDMRoomID userA userB = (if userA \<le> userB then userA @ userB else userB @ userA)"

section \<open>Digits\<close>

lemma alphabet_facts [simp]: "length alphabet = 62" "distinct alphabet" "list_all base62_char alphabet"
  by (simp_all add: alphabet_def base62_char_def between_def less_eq_char_def)

lemma alphabet_nth: "i < 62 \<Longrightarrow> base62_char (alphabet ! i)"
  using alphabet_facts(3) by (simp add: list_all_length)

lemma alphabet_nth_inj: "i < 62 \<Longrightarrow> j < 62 \<Longrightarrow> alphabet ! i = alphabet ! j \<longleftrightarrow> i = j"
  by (simp add: nth_eq_iff_index_eq)

lemma base62_loop_append: "base62_loop n k buf = base62_loop n k [] @ buf"
  by (induction n k buf arbitrary: buf rule: base62_loop.induct) (simp, metis append_Cons append_Nil append_assoc base62_loop.simps(2))

lemma encodeBase62_Suc: "encodeBase62 n (Suc k) = encodeBase62 (n div 62) k @ [alphabet ! (n mod 62)]"
  by (simp add: encodeBase62_def base62_loop_append [of "n div 62" k "[alphabet ! (n mod 62)]"])

lemma encodeBase62_0 [simp]: "encodeBase62 n 0 = []"
  by (simp add: encodeBase62_def)

lemma length_encodeBase62 [simp]: "length (encodeBase62 n k) = k"
  by (induction k arbitrary: n) (simp_all add: encodeBase62_Suc)

lemma encodeBase62_chars: "list_all base62_char (encodeBase62 n k)"
  by (induction k arbitrary: n) (simp_all add: encodeBase62_Suc alphabet_nth)

lemma mod_mult_split: "n mod (62 * m) = 62 * (n div 62 mod m) + n mod (62::nat)"
  by (simp add: mod_mult2_eq)

lemma encodeBase62_eq: "encodeBase62 m k = encodeBase62 n k \<longleftrightarrow> m mod 62 ^ k = n mod 62 ^ k"
proof (induction k arbitrary: m n)
  case (Suc k)
  have "62 * a + b = 62 * c + d \<longleftrightarrow> a = c \<and> b = d" if "b < 62" "d < (62::nat)" for a b c d
    using that by (metis div_mult_self4 div_less add.commute add_cancel_right_left mod_mult_self4 mod_less zero_neq_numeral)
  then show ?case
    by (simp add: encodeBase62_Suc Suc.IH alphabet_nth_inj mod_mult_split)
qed simp

lemma encodeBase62_valid: "IsValidMessageID (encodeBase62 n messageIDLength)"
  by (simp add: IsValidMessageID_def encodeBase62_chars)

section \<open>The rejection sampler\<close>

lemma take_bytes_append: "\<exists>ds. take_bytes len bs out = out @ ds \<and> list_all base62_char ds
    \<and> (length out < len \<longrightarrow> length out + length ds \<le> len)"
proof (induction bs arbitrary: out)
  case (Cons b bs)
  let ?d = "alphabet ! (b mod 62)"
  have d: "base62_char ?d" by (simp add: alphabet_nth)
  obtain ds where ds: "take_bytes len bs (out @ [?d]) = (out @ [?d]) @ ds" "list_all base62_char ds"
    "length (out @ [?d]) < len \<longrightarrow> length (out @ [?d]) + length ds \<le> len"
    using Cons.IH [of "out @ [?d]"] by blast
  consider "248 \<le> b" | "b < 248" "Suc (length out) = len" | "b < 248" "Suc (length out) \<noteq> len" by linarith
  then show ?case
  proof cases
    case 1 then show ?thesis using Cons.IH [of out] by simp
  next
    case 2 then show ?thesis using d by (intro exI [of _ "[?d]"]) simp
  next
    case 3 then show ?thesis using d ds by (intro exI [of _ "?d # ds"]) simp
  qed
qed simp

lemma take_bytes_progress:
  assumes "\<exists>b \<in> set bs. b < 248" "length out < len"
  shows "length out < length (take_bytes len bs out)"
  using assms
proof (induction bs arbitrary: out)
  case (Cons b bs)
  show ?case
  proof (cases "b < 248")
    case True
    obtain ds where "take_bytes len bs (out @ [alphabet ! (b mod 62)]) = (out @ [alphabet ! (b mod 62)]) @ ds"
      using take_bytes_append by blast
    then show ?thesis using True by (simp add: Let_def)
  next
    case False
    then show ?thesis using Cons by simp
  qed
qed simp

definition sampled :: "nat \<Rightarrow> string \<Rightarrow> bool" where
  "sampled len out \<longleftrightarrow> length out \<le> len \<and> list_all base62_char out"

lemma sampled_take_bytes: "length out < len \<Longrightarrow> sampled len out \<Longrightarrow> sampled len (take_bytes len bs out)"
  using take_bytes_append [of len bs out] by (auto simp: sampled_def)

text \<open>A buffer with no acceptable byte changes nothing, so the loop skips to the next that has one.\<close>

lemma take_bytes_rejected: "\<forall>b \<in> set bs. 248 \<le> b \<Longrightarrow> take_bytes len bs out = out"
  by (induction bs arbitrary: out) auto

lemma generate_loop_skip:
  assumes "\<forall>i < n. \<forall>b \<in> set (read (k + i)). 248 \<le> b" "length out < len"
  shows "generate_loop len read k out = generate_loop len read (k + n) out"
  using assms
proof (induction n)
  case (Suc n)
  then have "generate_loop len read k out = generate_loop len read (k + n) out" by (simp add: less_Suc_eq)
  also have "\<dots> = generate_loop len read (k + n + 1) (take_bytes len (read (k + n)) out)"
    using Suc.prems(2) by (subst generate_loop.simps) simp
  also have "take_bytes len (read (k + n)) out = out" using Suc.prems(1) by (intro take_bytes_rejected) blast
  finally show ?case by simp
qed simp

lemma generate_loop_returns:
  assumes "\<forall>k. \<exists>j \<ge> k. \<exists>b \<in> set (read j). b < 248" "sampled len out"
  shows "\<exists>s. generate_loop len read k out = Some s \<and> length s = len \<and> list_all base62_char s"
  using assms(2)
proof (induction "len - length out" arbitrary: k out rule: less_induct)
  case less
  show ?case
  proof (cases "length out < len")
    case False
    then show ?thesis using less.prems by (subst generate_loop.simps) (simp add: sampled_def)
  next
    case True
    let ?good = "\<lambda>n. \<exists>b \<in> set (read (k + n)). b < 248"
    define n where "n = (LEAST n. ?good n)"
    have "\<exists>n. ?good n" using assms(1) by (metis le_Suc_ex)
    then have good: "?good n" unfolding n_def by (rule LeastI_ex)
    have "\<forall>i < n. \<forall>b \<in> set (read (k + i)). 248 \<le> b"
      using not_less_Least [of _ ?good] by (force simp: n_def not_less)
    then have "generate_loop len read k out = generate_loop len read (k + n) out"
      using True by (rule generate_loop_skip)
    also have "\<dots> = generate_loop len read (k + n + 1) (take_bytes len (read (k + n)) out)"
      using True by (subst generate_loop.simps) simp
    finally show ?thesis
      using less.hyps [of "take_bytes len (read (k + n)) out" "k + n + 1"] True good
        take_bytes_progress [of "read (k + n)" out len] sampled_take_bytes less.prems
      by (simp add: diff_less_mono2)
  qed
qed



section \<open>Derived identifiers and rooms\<close>

text \<open>A message id derived from a request id is a valid one and is the same on every redelivery;
  two derived ids coincide exactly when the leading sixteen bytes of the digests agree modulo the
  number of twenty-digit identifiers, so the encoding itself merges nothing else.\<close>

theorem derived_ids_exact:
  "IsValidMessageID (MessageIDFromRequestID sha256 requestID suffix)
   \<and> (MessageIDFromRequestID sha256 requestID suffix = MessageIDFromRequestID sha256 requestID' suffix' \<longleftrightarrow>
      SetBytes (take 16 (sha256 (requestID @ '':'' @ suffix))) mod 62 ^ 20
      = SetBytes (take 16 (sha256 (requestID' @ '':'' @ suffix'))) mod 62 ^ 20)
   \<and> (DeterministicID sha256 seed = DeterministicID sha256 seed' \<longleftrightarrow>
      SetBytes (take 16 (sha256 seed)) mod 62 ^ 17 = SetBytes (take 16 (sha256 seed')) mod 62 ^ 17)"
  unfolding MessageIDFromRequestID_def DeterministicID_def encodeBase62_eq
  by (simp add: encodeBase62_valid [unfolded messageIDLength_def] messageIDLength_def idLength_def)

lemma BuildDMRoomID_commute: "BuildDMRoomID a b = BuildDMRoomID b a"
  by (auto simp: BuildDMRoomID_def)

text \<open>A direct-message room has one identifier per pair of users, whoever asks, and among users whose
  ids have one length no two pairs share one.\<close>

theorem dm_room_id_unordered:
  assumes "length a = k" "length b = k" "length c = k" "length d = k"
  shows "BuildDMRoomID a b = BuildDMRoomID c d \<longleftrightarrow> {a, b} = {c, d}"
  using assms by (auto simp: BuildDMRoomID_def doubleton_eq_iff)

theorem dm_room_id_unordered_witness:
  "BuildDMRoomID ''u1'' ''u2'' = BuildDMRoomID ''u2'' ''u1'' \<and> BuildDMRoomID ''u1'' ''u2'' \<noteq> BuildDMRoomID ''u1'' ''u3''"
  using dm_room_id_unordered [of "''u1''" 2 "''u2''" "''u2''" "''u1''"]
    dm_room_id_unordered [of "''u1''" 2 "''u2''" "''u1''" "''u3''"]
  by (auto simp: doubleton_eq_iff)

text \<open>Without the length condition the concatenation is ambiguous.\<close>

lemma dm_room_id_ambiguous: "BuildDMRoomID ''a'' ''bc'' = BuildDMRoomID ''ab'' ''c''"
  by (simp add: BuildDMRoomID_def)

section \<open>UUIDs\<close>

lemma length_hexEncode [simp]: "length (hexEncode bs) = 2 * length bs"
  by (induction bs) (simp_all add: hexEncode_def)

lemma hexEncode_nth:
  "i < length bs \<Longrightarrow> hexEncode bs ! (2 * i) = hex_digits ! (bs ! i div 16)"
  by (induction bs arbitrary: i) (auto simp: hexEncode_def nth_Cons split: nat.splits)

lemma hex_digits_lower: "i < 16 \<Longrightarrow> hex_lower (hex_digits ! i)"
proof -
  have "list_all hex_lower hex_digits" by (simp add: hex_digits_def hex_lower_def between_def)
  moreover have "length hex_digits = 16" by (simp add: hex_digits_def)
  ultimately show "i < 16 \<Longrightarrow> hex_lower (hex_digits ! i)" by (simp add: list_all_length)
qed

lemma hexEncode_lower: "\<forall>b \<in> set bs. b < 256 \<Longrightarrow> list_all hex_lower (hexEncode bs)"
  by (induction bs) (auto simp: hexEncode_def hex_digits_lower less_mult_imp_div_less)

text \<open>What the UUID library promises of a version 7 value: sixteen bytes, the version nibble 7 and the
  variant bits 10.\<close>

definition v7_bytes :: "nat list \<Rightarrow> bool" where
  "v7_bytes u \<longleftrightarrow> length u = 16 \<and> list_all (\<lambda>b. b < 256) u \<and> u ! 6 div 16 = 7 \<and> u ! 8 div 64 = 2"

lemma GenerateUUIDv7_valid:
  assumes "v7_bytes u"
  shows "\<exists>s. GenerateUUIDv7 (Some u) = Inr s \<and> IsValidUUIDv7 s"
proof -
  have len: "length u = 16" and "list_all hex_lower (hexEncode u)"
    using assms hexEncode_lower [of u] by (auto simp: v7_bytes_def list_all_iff)
  moreover have "hexEncode u ! 12 = CHR ''7''"
    using hexEncode_nth [of 6 u] assms by (simp add: v7_bytes_def hex_digits_def)
  moreover have "hexEncode u ! 16 \<in> {CHR ''8'', CHR ''9'', CHR ''a'', CHR ''b''}"
  proof -
    have "u ! 8 div 16 div 4 = 2" using assms by (simp add: v7_bytes_def flip: div_mult2_eq)
    then have "u ! 8 div 16 \<in> {8, 9, 10, 11}" by auto
    then show ?thesis using hexEncode_nth [of 8 u] len by (auto simp: hex_digits_def)
  qed
  ultimately show ?thesis by (simp add: GenerateUUIDv7_def IsValidUUIDv7_def)
qed

lemma ResolveRequestID_valid:
  assumes "IsValidUUID fresh"
  shows "\<exists>rid replaced. ResolveRequestID (Some fresh) inbound = Inr (rid, replaced) \<and> IsValidUUID rid
    \<and> (replaced \<longleftrightarrow> inbound \<noteq> '''' \<and> \<not> IsValidUUID inbound)"
proof -
  have "\<not> IsValidUUID ''''" by (simp add: IsValidUUID_def uuidHyphenatedLength_def)
  then show ?thesis using assms by (auto simp: ResolveRequestID_def GenerateRequestID_def)
qed

end
