(* ===== verification/Gatekeeper.thy ===== *)
theory Gatekeeper
  imports Message_Model Err_Code Id_Gen Js_Retry
begin

text \<open>
  \<open>src/message-gatekeeper\<close>: the service every client message passes on its way into the canonical
  stream. \<open>gk_env\<close> is the \<open>Handler\<close> with what it calls: the store reads, the history fetch, the publisher,
  the JSON encoders and the clock. A fetch of a parent message is indexed by the call it answers within one
  delivery (0 for the quoted parent, 1 and 2 for the thread parent), since two calls may differ. The verb
  \<open>%q\<close> of the error texts is a parameter. What a delivery does is its outcome: the replies sent, the canonical
  publishes attempted, how the message was settled, and the counted result.
\<close>

section \<open>Configuration and environment\<close>

definition maxContentBytes :: int where "maxContentBytes = 20 * 1024"
definition maxVisibleToBytes :: int where "maxVisibleToBytes = 4096"
definition quotedParentUnavailablePlaceholder :: string where
  "quotedParentUnavailablePlaceholder = ''Content temporarily unavailable''"
definition errCanonicalPublish :: goerr where "errCanonicalPublish = Raw ''canonical publish failed''"
definition defaultThreadParentRecheckDelay :: int where "defaultThreadParentRecheckDelay = 150 * Millisecond"

definition MessageLargeRoomPostRestricted :: Reason where "MessageLargeRoomPostRestricted = ''large_room_post_restricted''"
definition MessageNotSubscribed :: Reason where "MessageNotSubscribed = ''not_subscribed''"
definition MessageThreadParentNotFound :: Reason where "MessageThreadParentNotFound = ''thread_parent_not_found''"

definition errNotSubscribed :: Error where
  "errNotSubscribed = Error CodeForbidden MessageNotSubscribed ''not subscribed'' Map.empty None"

definition errLargeRoomPostRestricted :: Error where
  "errLargeRoomPostRestricted = Error CodeForbidden MessageLargeRoomPostRestricted
     ''posting is restricted to owners and admins in this room'' Map.empty None"

record Meta =
  mt_ID :: string
  mt_Type :: RoomType
  mt_Name :: string
  mt_SiteID :: string
  mt_UserCount :: int
  mt_CrossSite :: "bool option"
  mt_CrossSiteAt :: "int option"
  mt_Restricted :: bool
  mt_ExternalAccess :: bool

record gk_env =
  g_siteID :: string
  g_largeRoomThreshold :: int
  g_maxAttachments :: int
  g_maxAttachmentBytes :: int
  g_chatBaseURL :: string
  g_threadParentRecheckDelay :: int
  g_adminPrefix :: string
  g_quote :: "string \<Rightarrow> string"
  g_GetSubscription :: "string \<Rightarrow> string \<Rightarrow> goerr + Subscription"
  g_GetRoomMeta :: "string \<Rightarrow> goerr + Meta"
  g_users :: "(string \<Rightarrow> goerr + UserNames option) option"
  g_fetch :: "(nat \<Rightarrow> string \<Rightarrow> string \<Rightarrow> string \<Rightarrow> string \<Rightarrow> goerr + QuotedParentMessage option) option"
  g_wait :: "goerr option"
  g_now :: int
  g_encEvent :: "MessageEvent \<Rightarrow> goerr + string"
  g_encMessage :: "Message \<Rightarrow> goerr + string"
  g_encError :: encoder
  g_publish :: "string \<Rightarrow> string \<Rightarrow> string \<Rightarrow> goerr option"

definition bad_request :: "string \<Rightarrow> goerr" where
  "bad_request m = Typed (Error CodeBadRequest '''' m Map.empty None)"

definition bad_request_with :: "string \<Rightarrow> string list \<Rightarrow> goerr" where
  "bad_request_with m kv = Typed (Error CodeBadRequest '''' m (put_pairs kv Map.empty) None)"

section \<open>Helpers\<close>

definition messageLink :: "string \<Rightarrow> string \<Rightarrow> string \<Rightarrow> string" where
  "messageLink baseURL roomID messageID =
     Sprintf ''%s/%s/%s'' [TrimRightByte CHR ''/'' baseURL, roomID, messageID]"

definition IsPlatformAdminAccount :: "string \<Rightarrow> string \<Rightarrow> bool" where
  "IsPlatformAdminAccount prefix account = HasPrefix account prefix"

definition isBot :: "string \<Rightarrow> string \<Rightarrow> bool" where
  "isBot prefix account \<longleftrightarrow> IsBot account \<or> IsPlatformAdminAccount prefix account"

definition canBypassLargeRoomCap :: "string \<Rightarrow> Subscription \<Rightarrow> bool" where
  "canBypassLargeRoomCap prefix sub \<longleftrightarrow>
     list_ex (\<lambda>r. r = RoleOwner \<or> r = RoleAdmin) (case sub_Roles sub of None \<Rightarrow> [] | Some rs \<Rightarrow> rs) \<or> isBot prefix (su_Account (sub_User sub))"

definition quoteFetchErrIsTerminal :: "goerr \<Rightarrow> bool" where
  "quoteFetchErrIsTerminal err \<longleftrightarrow> Terminal err \<noteq> None"

definition threadParentMissing :: "goerr + 'a \<Rightarrow> bool" where
  "threadParentMissing r = (case r of Inr _ \<Rightarrow> False
     | Inl err \<Rightarrow> quoteFetchErrIsTerminal err \<and> (case as_Error err of None \<Rightarrow> False | Some ee \<Rightarrow> ec_Code ee = CodeNotFound))"

definition accountFromSubject :: "string \<Rightarrow> string" where
  "accountFromSubject subj =
     (let parts = Split CHR ''.'' subj in
      if 3 \<le> length parts \<and> parts ! 0 = ''chat'' \<and> parts ! 1 = ''user'' then parts ! 2 else '''')"

section \<open>Validating the request\<close>

fun attachments_size :: "nat \<Rightarrow> string list \<Rightarrow> int \<Rightarrow> goerr + int" where
  "attachments_size i [] n = Inr n"
| "attachments_size i (a # as) n =
     (if a = [] then Inl (bad_request (''attachment['' @ Itoa (int i) @ ''] must not be empty''))
      else attachments_size (i + 1) as (n + int (length a)))"

text \<open>The checks of \<open>processMessage\<close> before the first store read, in their order.\<close>

definition validate :: "gk_env \<Rightarrow> string \<Rightarrow> SendMessageRequest \<Rightarrow> goerr option" where
  "validate h siteID req =
     (if siteID \<noteq> g_siteID h then
        Some (bad_request (Sprintf ''siteID mismatch: got %s, want %s'' [siteID, g_siteID h]))
      else if \<not> IsValidUUID (sr_RequestID req) then
        Some (bad_request (''invalid requestId '' @ g_quote h (sr_RequestID req) @ '': must be a hyphenated UUID''))
      else if \<not> IsValidMessageID (sr_ID req) then
        Some (bad_request (''invalid message ID '' @ g_quote h (sr_ID req) @ '': must be a 20-char base62 string''))
      else if sr_ThreadParentMessageID req \<noteq> '''' \<and> \<not> IsValidMessageID (sr_ThreadParentMessageID req) then
        Some (bad_request (''invalid thread parent message ID '' @ g_quote h (sr_ThreadParentMessageID req) @ '': must be a 20-char base62 string''))
      else if sr_QuotedParentMessageID req \<noteq> '''' \<and> \<not> IsValidMessageID (sr_QuotedParentMessageID req) then
        Some (bad_request (''invalid quoted parent message ID '' @ g_quote h (sr_QuotedParentMessageID req) @ '': must be a 20-char base62 string''))
      else if sr_Content req = '''' \<and> sr_Attachments req = [] then
        Some (bad_request ''content must not be empty'')
      else if int (length (sr_Content req)) > maxContentBytes then
        Some (bad_request_with (''content exceeds maximum size of '' @ Itoa maxContentBytes @ '' bytes'')
          [''maxContentBytes'', Itoa maxContentBytes, ''attempted'', Itoa (int (length (sr_Content req)))])
      else if int (length (sr_Attachments req)) > g_maxAttachments h then
        Some (bad_request (''too many attachments: max '' @ Itoa (g_maxAttachments h)))
      else case attachments_size 0 (sr_Attachments req) 0 of Inl e \<Rightarrow> Some e | Inr attachmentBytes \<Rightarrow>
        if attachmentBytes > g_maxAttachmentBytes h then
          Some (bad_request (''attachments exceed maximum size of '' @ Itoa (g_maxAttachmentBytes h) @ '' bytes''))
        else if sr_Type req \<noteq> '''' \<and> sr_Type req \<noteq> MessageTypeImportant then
          Some (bad_request (''invalid message type '' @ g_quote h (sr_Type req)))
        else if int (length (sr_VisibleTo req)) > maxVisibleToBytes then
          Some (bad_request_with (''visibleTo exceeds maximum size of '' @ Itoa maxVisibleToBytes @ '' bytes'')
            [''maxVisibleToBytes'', Itoa maxVisibleToBytes, ''attempted'', Itoa (int (length (sr_VisibleTo req)))])
        else None)"

section \<open>Parents\<close>

definition checkQuoteThreadContext ::
  "gk_env \<Rightarrow> QuotedParentMessage \<Rightarrow> string \<Rightarrow> string \<Rightarrow> string \<Rightarrow> goerr option" where
  "checkQuoteThreadContext h snap quotedParentMessageID newMessageThreadID newMessageRoomID =
     (let tshowChannelQuote = (qp_TShow snap \<and> newMessageThreadID = '''' \<and> qp_RoomID snap = newMessageRoomID) in
      if qp_ThreadParentID snap \<noteq> newMessageThreadID
         \<and> (qp_ThreadParentID snap \<noteq> '''' \<or> quotedParentMessageID \<noteq> newMessageThreadID)
         \<and> \<not> tshowChannelQuote
      then Some (bad_request (''quoted parent '' @ quotedParentMessageID @ '' thread context mismatch: parent thread ''
             @ g_quote h (qp_ThreadParentID snap) @ '', new message thread '' @ g_quote h newMessageThreadID))
      else None)"

definition placeholderQuoteSnapshot :: "gk_env \<Rightarrow> string \<Rightarrow> string \<Rightarrow> string \<Rightarrow> int \<Rightarrow> QuotedParentMessage" where
  "placeholderQuoteSnapshot h roomID messageID newMessageThreadID now =
     \<lparr>qp_MessageID = messageID, qp_RoomID = roomID, qp_Sender = no_participant, qp_CreatedAt = now,
      qp_Msg = quotedParentUnavailablePlaceholder, qp_Mentions = [], qp_Attachments = [], qp_DecodedAttachments = [],
      qp_MessageLink = messageLink (g_chatBaseURL h) roomID messageID, qp_ThreadParentID = newMessageThreadID,
      qp_ThreadParentCreatedAt = None, qp_TShow = False\<rparr>"

definition resolveQuoteSnapshot ::
  "gk_env \<Rightarrow> string \<Rightarrow> string \<Rightarrow> string \<Rightarrow> string \<Rightarrow> string \<Rightarrow> int \<Rightarrow>
   (goerr + QuotedParentMessage option \<times> bool) go" where
  "resolveQuoteSnapshot h account roomID siteID quotedParentMessageID newMessageThreadID now =
     (if quotedParentMessageID = '''' then Inr (Inr (None, False))
      else case g_fetch h of None \<Rightarrow> Inl (Panic ''nil parentFetcher'') | Some fetch \<Rightarrow>
        (case fetch 0 account roomID siteID quotedParentMessageID of
           Inr (Some snap) \<Rightarrow>
             (case checkQuoteThreadContext h snap quotedParentMessageID newMessageThreadID roomID of
                Some cerr \<Rightarrow> Inr (Inl cerr)
              | None \<Rightarrow> Inr (Inr (Some snap, False)))
         | r \<Rightarrow>
             (let err = (case r of Inl e \<Rightarrow> e
                 | Inr _ \<Rightarrow> Raw (''fetch quoted parent '' @ quotedParentMessageID @ '': fetcher returned nil snapshot'')) in
              case Terminal err of
                Some ee \<Rightarrow> Inr (Inl (Typed ee))
              | None \<Rightarrow> Inr (Inr (Some (placeholderQuoteSnapshot h roomID quotedParentMessageID newMessageThreadID now), True)))))"

definition resolveThreadParent ::
  "gk_env \<Rightarrow> string \<Rightarrow> string \<Rightarrow> string \<Rightarrow> SendMessageRequest \<Rightarrow> QuotedParentMessage option \<Rightarrow> bool \<Rightarrow>
   goerr + int option \<times> string" where
  "resolveThreadParent h account roomID siteID req quotedSnapshot quotedUnverified =
     (let pid = sr_ThreadParentMessageID req in
      if pid = '''' then Inr (None, '''')
      else if quotedSnapshot \<noteq> None \<and> \<not> quotedUnverified \<and> sr_QuotedParentMessageID req = pid then
        (let q = the quotedSnapshot in Inr (Some (qp_CreatedAt q), cp_Account (qp_Sender q)))
      else case g_fetch h of None \<Rightarrow> Inr (None, '''') | Some fetch \<Rightarrow>
        (let r1 = fetch 1 account roomID siteID pid;
             finish = (\<lambda>r. case r of
                 Inr (Some snap) \<Rightarrow> Inr (Some (qp_CreatedAt snap), cp_Account (qp_Sender snap))
               | Inr None \<Rightarrow> Inr (None, '''')
               | Inl err \<Rightarrow> (case Terminal err of
                     Some ee \<Rightarrow>
                       if ec_Code ee = CodeNotFound then
                         Inl (Typed (Error CodeNotFound MessageThreadParentNotFound ''thread parent message not found'' Map.empty None))
                       else Inl (Typed ee)
                   | None \<Rightarrow> Inr (None, ''''))) in
         if threadParentMissing r1 \<and> g_threadParentRecheckDelay h > 0 then
           (case g_wait h of
              Some werr \<Rightarrow> Inl (Wrapf (''re-check thread parent '' @ pid) werr)
            | None \<Rightarrow> finish (fetch 2 account roomID siteID pid))
         else finish r1))"

section \<open>Processing a message\<close>

text \<open>Reading the subscription and the large-room gate.\<close>

definition admit :: "gk_env \<Rightarrow> string \<Rightarrow> string \<Rightarrow> SendMessageRequest \<Rightarrow> goerr + Subscription" where
  "admit h account roomID req =
     (case g_GetSubscription h account roomID of
        Inl err \<Rightarrow>
          if err_is (Typed errNotSubscribed) err then Inl err
          else Inl (Wrapf (Sprintf ''get subscription for user %s in room %s'' [account, roomID]) err)
      | Inr sub \<Rightarrow>
          let isThreadReply = (sr_ThreadParentMessageID req \<noteq> ''''); bypass = canBypassLargeRoomCap (g_adminPrefix h) sub in
          if \<not> isThreadReply \<and> \<not> bypass then
            (case g_GetRoomMeta h roomID of
               Inl _ \<Rightarrow> Inr sub
             | Inr meta \<Rightarrow> if mt_UserCount meta > g_largeRoomThreshold h then Inl (Typed errLargeRoomPostRestricted) else Inr sub)
          else Inr sub)"

definition displayName :: "gk_env \<Rightarrow> Subscription \<Rightarrow> string" where
  "displayName h sub =
     (case g_users h of None \<Rightarrow> su_Account (sub_User sub)
      | Some findUser \<Rightarrow> (case findUser (su_ID (sub_User sub)) of
            Inr (Some u) \<Rightarrow> CombineWithFallback (un_EngName u) (un_ChineseName u) (su_Account (sub_User sub))
          | _ \<Rightarrow> su_Account (sub_User sub)))"

definition build_message ::
  "gk_env \<Rightarrow> string \<Rightarrow> Subscription \<Rightarrow> SendMessageRequest \<Rightarrow> QuotedParentMessage option \<Rightarrow> int option \<Rightarrow> Message" where
  "build_message h roomID sub req quotedSnapshot threadParentCreatedAt =
     empty_Message\<lparr>
       m_ID := sr_ID req, m_RoomID := roomID, m_UserID := su_ID (sub_User sub),
       m_UserAccount := su_Account (sub_User sub), m_UserDisplayName := displayName h sub,
       m_Content := sr_Content req, m_CreatedAt := g_now h,
       m_ThreadParentMessageID := sr_ThreadParentMessageID req,
       m_ThreadParentMessageCreatedAt := threadParentCreatedAt,
       m_TShow := (sr_TShow req \<and> sr_ThreadParentMessageID req \<noteq> ''''),
       m_QuotedParentMessage := quotedSnapshot, m_Attachments := sr_Attachments req,
       m_Type := sr_Type req, m_VisibleTo := sr_VisibleTo req\<rparr>"

definition build_event :: "gk_env \<Rightarrow> string \<Rightarrow> Message \<Rightarrow> bool \<Rightarrow> string \<Rightarrow> MessageEvent" where
  "build_event h siteID msg quotedUnverified threadParentSenderAccount =
     \<lparr>ev_Event = EventCreated, ev_Message = msg, ev_SiteID = siteID, ev_ReactionDelta = None,
      ev_Timestamp = g_now h, ev_NewTCount = None, ev_NewThreadLastMsgAt = None,
      ev_QuotedParentUnverified = quotedUnverified, ev_ThreadParentSenderAccount = threadParentSenderAccount,
      ev_PreviewMessage = None\<rparr>"

text \<open>A publish attempt: subject, deduplication identifier, event.\<close>

type_synonym attempt = "string \<times> string \<times> MessageEvent"

definition marshal_failed :: "string \<Rightarrow> goerr \<Rightarrow> (goerr + 'a) go" where
  "marshal_failed what err = map_sum id Inl (MarshalFailed what err)"

definition publish_event :: "gk_env \<Rightarrow> string \<Rightarrow> MessageEvent \<Rightarrow> (goerr + string) go \<times> attempt list" where
  "publish_event h siteID evt =
     (case g_encEvent h evt of
        Inl err \<Rightarrow> (marshal_failed ''message event'' err, [])
      | Inr evtData \<Rightarrow>
          (case CanonicalDedupID evt of Inl p \<Rightarrow> (Inl p, []) | Inr dedup \<Rightarrow>
             let subj = MsgCanonicalCreated siteID; tried = [(subj, dedup, evt)] in
             case g_publish h subj dedup evtData of
               Some err \<Rightarrow>
                 if err_is ErrMaxPayload err then
                   (Inr (Inl (PermErr (Error CodeInternal '''' ''canonical message exceeds broker max_payload'' Map.empty None))), tried)
                 else (Inr (Inl (Wrapf ''publish to MESSAGES-CANONICAL'' (Joined [errCanonicalPublish, err]))), tried)
             | None \<Rightarrow>
                 (case g_encMessage h (ev_Message evt) of
                    Inl err \<Rightarrow> (marshal_failed ''send message reply'' err, tried)
                  | Inr replyData \<Rightarrow> (Inr (Inr replyData), tried))))"

definition processMessage ::
  "gk_env \<Rightarrow> string \<Rightarrow> string \<Rightarrow> string \<Rightarrow> SendMessageRequest \<Rightarrow> (goerr + string) go \<times> attempt list" where
  "processMessage h account roomID siteID req =
     (case validate h siteID req of Some err \<Rightarrow> (Inr (Inl err), []) | None \<Rightarrow>
      case admit h account roomID req of Inl err \<Rightarrow> (Inr (Inl err), []) | Inr sub \<Rightarrow>
      case resolveQuoteSnapshot h account roomID siteID (sr_QuotedParentMessageID req) (sr_ThreadParentMessageID req) (g_now h) of
        Inl p \<Rightarrow> (Inl p, [])
      | Inr (Inl err) \<Rightarrow> (Inr (Inl err), [])
      | Inr (Inr (quotedSnapshot, quotedUnverified)) \<Rightarrow>
          (case resolveThreadParent h account roomID siteID req quotedSnapshot quotedUnverified of
             Inl err \<Rightarrow> (Inr (Inl err), [])
           | Inr (threadParentCreatedAt, threadParentSenderAccount) \<Rightarrow>
               publish_event h siteID (build_event h siteID (build_message h roomID sub req quotedSnapshot threadParentCreatedAt)
                 quotedUnverified threadParentSenderAccount)))"

section \<open>One delivery\<close>

definition gatekeeperReason :: "Error \<Rightarrow> string" where
  "gatekeeperReason err =
     (if ec_Reason err = MessageNotSubscribed then ''not_subscribed''
      else if ec_Reason err = MessageLargeRoomPostRestricted then ''room_restricted''
      else if ec_Code err = CodeBadRequest then ''invalid_payload'' else ''unknown'')"

definition sendReply :: "string \<Rightarrow> SendMessageRequest \<Rightarrow> string \<Rightarrow> (string \<times> string) list" where
  "sendReply account req replyData =
     (if account = '''' then []
      else if sr_RequestID req = '''' \<or> \<not> IsValidUUID (sr_RequestID req) then []
      else [(UserResponse account (sr_RequestID req), replyData)])"

record gk_outcome =
  o_replies :: "(string \<times> string) list"
  o_attempts :: "attempt list"
  o_settle :: settlement
  o_metric :: "string \<times> string"

definition outcome :: "(string \<times> string) list \<Rightarrow> attempt list \<Rightarrow> settlement \<Rightarrow> string \<Rightarrow> string \<Rightarrow> gk_outcome" where
  "outcome replies attempts s result reason =
     \<lparr>o_replies = replies, o_attempts = attempts, o_settle = s, o_metric = (result, reason)\<rparr>"

definition settle_failure ::
  "gk_env \<Rightarrow> (int \<Rightarrow> int) \<Rightarrow> nat option \<Rightarrow> int \<Rightarrow> string \<Rightarrow> SendMessageRequest \<Rightarrow> attempt list \<Rightarrow> goerr \<Rightarrow> gk_outcome" where
  "settle_failure h rnd meta maxDeliver account req attempts err =
     (if IsPermanent err \<noteq> None then
        outcome (sendReply account req (Marshal (g_encError h) (Some err))) attempts Ack ''failed'' ''internal''
      else case as_Error err of
        Some ee \<Rightarrow> outcome (sendReply account req (Marshal (g_encError h) (Some err))) attempts Ack ''rejected'' (gatekeeperReason ee)
      | None \<Rightarrow>
          let final = (case meta of None \<Rightarrow> False | Some n \<Rightarrow> IsLastAttempt n maxDeliver) in
          outcome
            (if final then sendReply account req (MarshalQuiet (g_encError h)
                (Typed (Error CodeUnavailable '''' ''message could not be accepted, please retry'' Map.empty None)))
             else [])
            attempts (NakWithDelay (backoffFor rnd meta DefaultBackoff))
            (if final then ''failed'' else ''retry'')
            (if err_is errCanonicalPublish err then ''canonical_publish'' else ''dependency''))"

definition HandleJetStreamMsg ::
  "gk_env \<Rightarrow> (string \<Rightarrow> SendMessageRequest \<times> bool) \<Rightarrow> (int \<Rightarrow> int) \<Rightarrow> nat option \<Rightarrow> int \<Rightarrow> string \<Rightarrow> string \<Rightarrow> gk_outcome go" where
  "HandleJetStreamMsg h unmarshal rnd meta maxDeliver subj rawData =
     (let (req, parsed) = unmarshal rawData in
      case ParseUserRoomSiteSubject subj of
        None \<Rightarrow>
          Inr (outcome (sendReply (accountFromSubject subj) req
                 (Marshal (g_encError h) (Some (bad_request ''invalid message subject'')))) [] Ack ''rejected'' ''invalid_subject'')
      | Some (account, roomID, siteID) \<Rightarrow>
          if \<not> parsed then
            Inr (outcome (sendReply account req
                   (Marshal (g_encError h) (Some (bad_request ''unmarshal send message request'')))) [] Ack ''rejected'' ''invalid_payload'')
          else
            (case processMessage h (DecodeAccount account) roomID siteID req of
               (Inl p, _) \<Rightarrow> Inl p
             | (Inr (Inl err), attempts) \<Rightarrow> Inr (settle_failure h rnd meta maxDeliver account req attempts err)
             | (Inr (Inr replyData), attempts) \<Rightarrow>
                 Inr (outcome (sendReply account req replyData) attempts Ack ''accepted'' ''none'')))"

section \<open>The stores behind it\<close>

text \<open>A subscription of which only the identity and the roles are known.\<close>

definition partial_subscription :: "string \<Rightarrow> string \<Rightarrow> Role list option \<Rightarrow> Subscription" where
  "partial_subscription uid account roles =
     \<lparr>sub_ID = '''', sub_User = \<lparr>su_ID = uid, su_Account = account, su_IsBot = False\<rparr>, sub_RoomID = '''', sub_SiteID = '''',
      sub_Roles = roles, sub_Name = '''', sub_RoomType = '''', sub_IsSubscribed = False, sub_HistorySharedSince = None,
      sub_JoinedAt = 0, sub_LastSeenAt = None, sub_HasMention = False, sub_ThreadUnread = [], sub_Alert = False,
      sub_Muted = False, sub_Favorite = False, sub_SectionId = None, sub_SectionOrder = 0, sub_Open = False,
      sub_Restricted = False, sub_ExternalAccess = False, sub_FavoriteUpdatedAt = None, sub_MuteUpdatedAt = None,
      sub_RolesUpdatedAt = None, sub_NameUpdatedAt = None, sub_RestrictUpdatedAt = None, sub_SectionUpdatedAt = None,
      sub_Origin = ''''\<rparr>"

record cachedSubscription =
  cs_SubID :: string
  cs_Account :: string
  cs_Roles :: "Role list option"

definition fromCached :: "cachedSubscription \<Rightarrow> Subscription" where
  "fromCached c = partial_subscription (cs_SubID c) (cs_Account c) (cs_Roles c)"

text \<open>The LRU behind the cache: a key is the room and the account.\<close>

record 'c sub_lru =
  sl_Get :: "'c \<Rightarrow> string \<times> string \<Rightarrow> cachedSubscription option"
  sl_Add :: "'c \<Rightarrow> string \<times> string \<Rightarrow> cachedSubscription \<Rightarrow> 'c"

definition project_subscription :: "Subscription \<Rightarrow> cachedSubscription" where
  "project_subscription sub = \<lparr>cs_SubID = su_ID (sub_User sub), cs_Account = su_Account (sub_User sub), cs_Roles = sub_Roles sub\<rparr>"

text \<open>\<open>GetSubscription\<close> of the cache for one caller at a time; \<open>gone\<close> is the context's error when the caller
  left before the shared load answered (the load still fills the cache).\<close>

definition cached_GetSubscription ::
  "'c sub_lru \<Rightarrow> (string \<Rightarrow> string \<Rightarrow> goerr + Subscription) \<Rightarrow> goerr option \<Rightarrow> string \<Rightarrow> string \<Rightarrow> 'c \<Rightarrow>
   (goerr + Subscription) \<times> 'c" where
  "cached_GetSubscription l inner gone account roomID c =
     (case sl_Get l c (roomID, account) of
        Some v \<Rightarrow> (Inr (fromCached v), c)
      | None \<Rightarrow>
          (case inner account roomID of
             Inl err \<Rightarrow> (Inl (case gone of Some g \<Rightarrow> g | None \<Rightarrow> Wrapf ''get cached subscription'' err), c)
           | Inr sub \<Rightarrow>
               let v = project_subscription sub in
               ((case gone of Some g \<Rightarrow> Inl g | None \<Rightarrow> Inr (fromCached v)), sl_Add l c (roomID, account) v)))"

text \<open>The Mongo-backed store: the tier resolves an identity, or says that there is no subscription.\<close>

record SubAuth =
  sa_ID :: string
  sa_Account :: string
  sa_Roles :: "Role list option"

definition MongoStore_GetSubscription ::
  "(string \<Rightarrow> string \<Rightarrow> goerr + SubAuth option) \<Rightarrow> string \<Rightarrow> string \<Rightarrow> goerr + Subscription" where
  "MongoStore_GetSubscription resolve account roomID =
     (case resolve roomID account of
        Inl err \<Rightarrow> Inl (Wrapf (Sprintf ''get subscription for %s in %s'' [account, roomID]) err)
      | Inr None \<Rightarrow> Inl (Wrapf (Sprintf ''user %s not subscribed to room %s'' [account, roomID]) (Typed errNotSubscribed))
      | Inr (Some auth) \<Rightarrow> Inr (partial_subscription (sa_ID auth) (sa_Account auth) (sa_Roles auth)))"

definition MongoStore_GetRoomMeta :: "(string \<Rightarrow> goerr + Meta) \<Rightarrow> string \<Rightarrow> goerr + Meta" where
  "MongoStore_GetRoomMeta get roomID =
     (case get roomID of Inl err \<Rightarrow> Inl (Wrapf (''get room meta for '' @ roomID) err) | Inr m \<Rightarrow> Inr m)"

record quotedParentProjection =
  qj_RoomID :: string
  qj_Sender :: CassParticipant
  qj_CreatedAt :: int
  qj_Msg :: string
  qj_Mentions :: "CassParticipant list"
  qj_DecodedAttachments :: "Attachment list"
  qj_ThreadParentID :: string
  qj_ThreadParentCreatedAt :: "int option"
  qj_TShow :: bool

definition project_parent :: "string \<Rightarrow> string \<Rightarrow> quotedParentProjection \<Rightarrow> QuotedParentMessage" where
  "project_parent chatBaseURL messageID parent =
     \<lparr>qp_MessageID = messageID, qp_RoomID = qj_RoomID parent, qp_Sender = qj_Sender parent,
      qp_CreatedAt = qj_CreatedAt parent, qp_Msg = qj_Msg parent, qp_Mentions = qj_Mentions parent, qp_Attachments = [],
      qp_DecodedAttachments = qj_DecodedAttachments parent,
      qp_MessageLink = messageLink chatBaseURL (qj_RoomID parent) messageID,
      qp_ThreadParentID = qj_ThreadParentID parent, qp_ThreadParentCreatedAt = qj_ThreadParentCreatedAt parent,
      qp_TShow = qj_TShow parent\<rparr>"

text \<open>The history fetch: \<open>request\<close> is the NATS round trip, \<open>decErr\<close> and \<open>decMsg\<close> the two readings of a
  reply.\<close>

definition FetchQuotedParent ::
  "(string \<Rightarrow> string \<Rightarrow> goerr + string) \<Rightarrow> (string \<Rightarrow> goerr + string) \<Rightarrow> (string \<Rightarrow> Error option) \<Rightarrow>
   (string \<Rightarrow> goerr + quotedParentProjection) \<Rightarrow> string \<Rightarrow> string \<Rightarrow> string \<Rightarrow> string \<Rightarrow> string \<Rightarrow>
   (goerr + QuotedParentMessage option) go" where
  "FetchQuotedParent request encReq decErr decMsg chatBaseURL account roomID siteID messageID =
     (case encReq messageID of
        Inl err \<Rightarrow> map_sum id Inl (MarshalFailed ''GetMessageByID request'' err)
      | Inr reqBytes \<Rightarrow>
          (case request (MsgGet account roomID siteID) reqBytes of
             Inl err \<Rightarrow> map_sum id (\<lambda>e. Inl (the e)) (RequestFailure ''history request'' (Some err))
           | Inr data \<Rightarrow>
               (case Parse decErr data of
                  Some ee \<Rightarrow>
                    if Valid (ec_Code ee) then Inr (Inl (Typed ee))
                    else (case decMsg data of Inl err \<Rightarrow> Inr (Inl (Wrapf ''unmarshal parent message'' err))
                          | Inr parent \<Rightarrow> Inr (Inr (Some (project_parent chatBaseURL messageID parent))))
                | None \<Rightarrow>
                    (case decMsg data of Inl err \<Rightarrow> Inr (Inl (Wrapf ''unmarshal parent message'' err))
                     | Inr parent \<Rightarrow> Inr (Inr (Some (project_parent chatBaseURL messageID parent)))))))"

end
