(* ===== verification/Gatekeeper_Props.thy ===== *)
theory Gatekeeper_Props
  imports Gatekeeper
begin

text \<open>
  What the gatekeeper guarantees: which requests become canonical messages, how every delivery is settled,
  and that the failure of a dependency other than the subscription store and the stream never keeps a valid
  message from being accepted.
\<close>

section \<open>Validation\<close>

definition total_bytes :: "string list \<Rightarrow> int" where
  "total_bytes as = sum_list (map (\<lambda>a. int (length a)) as)"

text \<open>A request the gatekeeper takes, stated without the order of the checks.\<close>

definition well_formed_request :: "gk_env \<Rightarrow> string \<Rightarrow> SendMessageRequest \<Rightarrow> bool" where
  "well_formed_request h siteID req \<longleftrightarrow>
     siteID = g_siteID h \<and> IsValidUUID (sr_RequestID req) \<and> IsValidMessageID (sr_ID req)
     \<and> (sr_ThreadParentMessageID req = '''' \<or> IsValidMessageID (sr_ThreadParentMessageID req))
     \<and> (sr_QuotedParentMessageID req = '''' \<or> IsValidMessageID (sr_QuotedParentMessageID req))
     \<and> (sr_Content req \<noteq> '''' \<or> sr_Attachments req \<noteq> [])
     \<and> int (length (sr_Content req)) \<le> 20480
     \<and> int (length (sr_Attachments req)) \<le> g_maxAttachments h \<and> [] \<notin> set (sr_Attachments req)
     \<and> total_bytes (sr_Attachments req) \<le> g_maxAttachmentBytes h
     \<and> (sr_Type req = '''' \<or> sr_Type req = MessageTypeImportant)
     \<and> int (length (sr_VisibleTo req)) \<le> 4096"

lemma attachments_size_ok:
  "attachments_size i as n = Inr m \<longleftrightarrow> [] \<notin> set as \<and> m = n + total_bytes as"
  by (induction as arbitrary: i n) (auto simp: total_bytes_def)

lemma attachments_size_err:
  "attachments_size i as n = Inl e \<Longrightarrow> [] \<in> set as \<and> (\<exists>m. e = bad_request m)"
  by (induction as arbitrary: i n) (auto split: if_splits)

lemma validate_None: "validate h siteID req = None \<longleftrightarrow> well_formed_request h siteID req"
proof (cases "attachments_size 0 (sr_Attachments req) 0")
  case (Inl e)
  then have "[] \<in> set (sr_Attachments req)" using attachments_size_err by blast
  then show ?thesis using Inl by (simp add: validate_def well_formed_request_def)
next
  case (Inr m)
  then have "[] \<notin> set (sr_Attachments req)" "m = total_bytes (sr_Attachments req)"
    using attachments_size_ok [of 0 "sr_Attachments req" 0 m] by simp_all
  then show ?thesis
    using Inr by (simp add: validate_def well_formed_request_def maxContentBytes_def maxVisibleToBytes_def not_less)
qed

definition is_bad_request :: "goerr \<Rightarrow> bool" where
  "is_bad_request err \<longleftrightarrow> (\<exists>m md. err = Typed (Error CodeBadRequest '''' m md None))"

lemma is_bad_request_intros [simp, intro]: "is_bad_request (bad_request m)" "is_bad_request (bad_request_with m kv)"
  by (auto simp: is_bad_request_def bad_request_def bad_request_with_def)

lemma validate_Some: "validate h siteID req = Some err \<Longrightarrow> is_bad_request err"
  unfolding validate_def
  by (auto split: if_splits sum.splits dest!: attachments_size_err)

section \<open>Parents\<close>

text \<open>The same-conversation rule for a quote: same thread, or the thread's root, or a reply also shown in
  this room's channel quoted from that channel.\<close>

definition same_conversation :: "QuotedParentMessage \<Rightarrow> string \<Rightarrow> string \<Rightarrow> string \<Rightarrow> bool" where
  "same_conversation snap quoted thread room \<longleftrightarrow>
     qp_ThreadParentID snap = thread
     \<or> (qp_ThreadParentID snap = '''' \<and> quoted = thread)
     \<or> (qp_TShow snap \<and> thread = '''' \<and> qp_RoomID snap = room)"

lemma checkQuoteThreadContext_None:
  "checkQuoteThreadContext h snap q t r = None \<longleftrightarrow> same_conversation snap q t r"
  by (auto simp: checkQuoteThreadContext_def same_conversation_def Let_def)

text \<open>What a resolved quote is: absent, the fetched parent within the conversation, or the placeholder.\<close>

definition quote_ok :: "gk_env \<Rightarrow> string \<Rightarrow> string \<Rightarrow> string \<Rightarrow> SendMessageRequest \<Rightarrow> QuotedParentMessage option \<Rightarrow> bool \<Rightarrow> bool" where
  "quote_ok h account roomID siteID req snapshot unverified \<longleftrightarrow>
     (case snapshot of
        None \<Rightarrow> sr_QuotedParentMessageID req = '''' \<and> \<not> unverified
      | Some q \<Rightarrow> sr_QuotedParentMessageID req \<noteq> ''''
          \<and> (if unverified then q = placeholderQuoteSnapshot h roomID (sr_QuotedParentMessageID req) (sr_ThreadParentMessageID req) (g_now h)
             else (\<exists>fetch. g_fetch h = Some fetch
                    \<and> fetch 0 account roomID siteID (sr_QuotedParentMessageID req) = Inr (Some q))
                  \<and> same_conversation q (sr_QuotedParentMessageID req) (sr_ThreadParentMessageID req) roomID))"

lemma resolveQuoteSnapshot_ok:
  assumes "resolveQuoteSnapshot h account roomID siteID (sr_QuotedParentMessageID req) (sr_ThreadParentMessageID req) (g_now h)
    = Inr (Inr (snapshot, unverified))"
  shows "quote_ok h account roomID siteID req snapshot unverified"
  using assms unfolding resolveQuoteSnapshot_def quote_ok_def
  by (auto simp: checkQuoteThreadContext_None Let_def split: if_splits option.splits sum.splits)

lemma resolveQuoteSnapshot_panic:
  "resolveQuoteSnapshot h account roomID siteID q t now = Inl p \<Longrightarrow> g_fetch h = None \<and> q \<noteq> ''''"
  unfolding resolveQuoteSnapshot_def by (auto simp: Let_def split: if_splits option.splits sum.splits)

section \<open>What gets published\<close>

definition under_cap :: "gk_env \<Rightarrow> string \<Rightarrow> SendMessageRequest \<Rightarrow> Subscription \<Rightarrow> bool" where
  "under_cap h roomID req sub \<longleftrightarrow>
     sr_ThreadParentMessageID req \<noteq> '''' \<or> canBypassLargeRoomCap (g_adminPrefix h) sub
     \<or> (case g_GetRoomMeta h roomID of Inl _ \<Rightarrow> True | Inr meta \<Rightarrow> mt_UserCount meta \<le> g_largeRoomThreshold h)"

lemma admit_Inr: "admit h account roomID req = Inr sub \<longleftrightarrow> g_GetSubscription h account roomID = Inr sub \<and> under_cap h roomID req sub"
  by (auto simp: admit_def under_cap_def Let_def split: sum.splits if_splits)

lemma dedup_of_built: "CanonicalDedupID (build_event h siteID msg u a) = Inr (m_ID msg)"
  by (simp add: CanonicalDedupID_def build_event_def Let_def)

lemma build_message_fields [simp]:
  "m_ID (build_message h roomID sub req q t) = sr_ID req"
  "m_RoomID (build_message h roomID sub req q t) = roomID"
  "m_UserID (build_message h roomID sub req q t) = su_ID (sub_User sub)"
  "m_UserAccount (build_message h roomID sub req q t) = su_Account (sub_User sub)"
  "m_Content (build_message h roomID sub req q t) = sr_Content req"
  "m_Type (build_message h roomID sub req q t) = sr_Type req"
  "m_TShow (build_message h roomID sub req q t) \<longleftrightarrow> sr_TShow req \<and> sr_ThreadParentMessageID req \<noteq> ''''"
  "m_ThreadParentMessageID (build_message h roomID sub req q t) = sr_ThreadParentMessageID req"
  "m_ThreadParentMessageCreatedAt (build_message h roomID sub req q t) = t"
  "m_QuotedParentMessage (build_message h roomID sub req q t) = q"
  "m_Attachments (build_message h roomID sub req q t) = sr_Attachments req"
  "m_VisibleTo (build_message h roomID sub req q t) = sr_VisibleTo req"
  by (simp_all add: build_message_def)

lemma build_event_fields [simp]:
  "ev_Event (build_event h siteID msg u a) = EventCreated" "ev_Message (build_event h siteID msg u a) = msg"
  "ev_SiteID (build_event h siteID msg u a) = siteID" "ev_QuotedParentUnverified (build_event h siteID msg u a) = u"
  "ev_ThreadParentSenderAccount (build_event h siteID msg u a) = a"
  by (simp_all add: build_event_def)

lemma publish_event_attempts:
  "publish_event h siteID (build_event h siteID msg u a) = (r, attempts) \<Longrightarrow>
   attempts = [] \<or> attempts = [(MsgCanonicalCreated siteID, m_ID msg, build_event h siteID msg u a)]"
  by (auto simp: publish_event_def dedup_of_built Let_def split: sum.splits option.splits if_splits)

text \<open>The stages of \<open>processMessage\<close> an attempted publish went through.\<close>

lemma processMessage_stages:
  assumes "processMessage h account roomID siteID req = (r, attempts)" "attempts \<noteq> []"
  obtains sub q u t a where "well_formed_request h siteID req"
    "g_GetSubscription h account roomID = Inr sub" "under_cap h roomID req sub"
    "quote_ok h account roomID siteID req q u"
    "resolveThreadParent h account roomID siteID req q u = Inr (t, a)"
    "attempts = [(MsgCanonicalCreated siteID, sr_ID req, build_event h siteID (build_message h roomID sub req q t) u a)]"
    "publish_event h siteID (build_event h siteID (build_message h roomID sub req q t) u a) = (r, attempts)"
proof -
  have v: "well_formed_request h siteID req"
    using assms by (cases "validate h siteID req") (auto simp: processMessage_def validate_None)
  obtain sub where sub: "admit h account roomID req = Inr sub"
    using assms v by (cases "admit h account roomID req") (auto simp: processMessage_def validate_None [symmetric])
  obtain q u where q: "resolveQuoteSnapshot h account roomID siteID (sr_QuotedParentMessageID req) (sr_ThreadParentMessageID req) (g_now h)
      = Inr (Inr (q, u))"
    using assms v sub by (auto simp: processMessage_def validate_None [symmetric] split: sum.splits prod.splits)
  obtain t a where t: "resolveThreadParent h account roomID siteID req q u = Inr (t, a)"
    using assms v sub q by (auto simp: processMessage_def validate_None [symmetric] split: sum.splits prod.splits)
  have p: "publish_event h siteID (build_event h siteID (build_message h roomID sub req q t) u a) = (r, attempts)"
    using assms(1) v sub q t by (simp add: processMessage_def validate_None [symmetric])
  show ?thesis
    using that [OF v _ _ resolveQuoteSnapshot_ok [OF q] t _ p] publish_event_attempts [OF p] assms(2) sub
    by (simp add: admit_Inr)
qed

text \<open>C1: Only vetted messages enter the canonical stream. Whatever the client sent, a publish attempt is a
  single one, on the created subject of this site, under the message id as deduplication id; the request
  was well formed, the sender held a subscription of the room when it was read and was not over the
  large-room cap, the message is attributed to the subscription's user and to the room of the subject,
  carries no system type, is shown in the channel only as a thread reply, and quotes nothing from outside its
  conversation: the quote is the message history returned, within the same thread or room, or the marked
  placeholder.\<close>

theorem published_is_vetted:
  assumes "processMessage h account roomID siteID req = (r, attempts)" "attempts \<noteq> []"
  shows "\<exists>sub evt. attempts = [(MsgCanonicalCreated (g_siteID h), sr_ID req, evt)]
    \<and> well_formed_request h (g_siteID h) req
    \<and> g_GetSubscription h account roomID = Inr sub \<and> under_cap h roomID req sub
    \<and> ev_Event evt = EventCreated \<and> ev_SiteID evt = g_siteID h
    \<and> m_ID (ev_Message evt) = sr_ID req \<and> m_RoomID (ev_Message evt) = roomID
    \<and> m_UserID (ev_Message evt) = su_ID (sub_User sub) \<and> m_UserAccount (ev_Message evt) = su_Account (sub_User sub)
    \<and> m_Content (ev_Message evt) = sr_Content req
    \<and> \<not> IsSystemMessageType (m_Type (ev_Message evt))
    \<and> (m_TShow (ev_Message evt) \<longrightarrow> m_ThreadParentMessageID (ev_Message evt) \<noteq> '''')
    \<and> quote_ok h account roomID (g_siteID h) req (m_QuotedParentMessage (ev_Message evt)) (ev_QuotedParentUnverified evt)"
proof -
  obtain sub q u t a where st: "well_formed_request h siteID req"
    "g_GetSubscription h account roomID = Inr sub" "under_cap h roomID req sub"
    "quote_ok h account roomID siteID req q u"
    "attempts = [(MsgCanonicalCreated siteID, sr_ID req, build_event h siteID (build_message h roomID sub req q t) u a)]"
    using processMessage_stages [OF assms] by metis
  have site: "siteID = g_siteID h" and ty: "sr_Type req = '''' \<or> sr_Type req = MessageTypeImportant"
    using st(1) by (auto simp: well_formed_request_def)
  have "\<not> IsSystemMessageType (sr_Type req)"
    using ty by (auto simp: IsSystemMessageType_def systemMessageTypes_def message_type_defs)
  then show ?thesis using st site
    by (intro exI [of _ sub] exI [of _ "build_event h siteID (build_message h roomID sub req q t) u a"]) simp
qed

section \<open>How a delivery ends\<close>

lemma accountFromSubject_parsed:
  "ParseUserRoomSiteSubject subj = Some (account, roomID, siteID) \<Longrightarrow> account = accountFromSubject subj"
  by (auto simp: ParseUserRoomSiteSubject_def accountFromSubject_def Let_def split: if_splits)

lemma sendReply_cases:
  "sendReply account req d = (if account \<noteq> '''' \<and> IsValidUUID (sr_RequestID req)
     then [(UserResponse account (sr_RequestID req), d)] else [])"
proof -
  have "\<not> IsValidUUID ''''" by (simp add: IsValidUUID_def uuidHyphenatedLength_def)
  then show ?thesis by (auto simp: sendReply_def)
qed

definition is_final :: "nat option \<Rightarrow> int \<Rightarrow> bool" where
  "is_final meta maxDeliver = (case meta of None \<Rightarrow> False | Some n \<Rightarrow> IsLastAttempt n maxDeliver)"

definition retried :: "gk_outcome \<Rightarrow> bool" where
  "retried out \<longleftrightarrow> (\<exists>d > 0. o_settle out = NakWithDelay d)"

text \<open>The shape every outcome has: acknowledged and answered, or returned to the stream with a positive
  delay and answered only when no further delivery can come.\<close>

definition settled_once :: "SendMessageRequest \<Rightarrow> string \<Rightarrow> bool \<Rightarrow> gk_outcome \<Rightarrow> bool" where
  "settled_once req account final out \<longleftrightarrow>
     (o_settle out = Ack \<or> retried out)
     \<and> (\<exists>data. o_replies out = (if account \<noteq> '''' \<and> IsValidUUID (sr_RequestID req) \<and> (o_settle out = Ack \<or> final)
                then [(UserResponse account (sr_RequestID req), data)] else []))"

lemma settled_once_Ack: "settled_once req account final (outcome (sendReply account req d) attempts Ack result reason)"
  by (auto simp: settled_once_def outcome_def sendReply_cases)

lemma backoffFor_pos:
  assumes "\<forall>n > 0. 0 \<le> rnd n \<and> rnd n < n"
  shows "0 < backoffFor rnd meta backoff"
proof -
  have "0 < jitter rnd d" for d
    using jitter_bounds [of rnd d] minJitter_pos [of d] assms by fastforce
  then show ?thesis by (simp add: backoffFor_def minNakDelay_def Millisecond_def)
qed

lemma settled_once_failure:
  assumes "\<forall>n > 0. 0 \<le> rnd n \<and> rnd n < n"
  shows "settled_once req account (is_final meta maxDeliver) (settle_failure h rnd meta maxDeliver account req attempts err)"
proof -
  have pos: "0 < backoffFor rnd meta DefaultBackoff"
    using assms by (rule backoffFor_pos)
  show ?thesis
    using settled_once_Ack pos
    by (auto simp: settle_failure_def Let_def settled_once_def is_final_def retried_def outcome_def sendReply_cases
        split: option.splits)
qed

text \<open>The encoders fail with errors of their own, never with one of this package's.\<close>

definition plain_encoders :: "gk_env \<Rightarrow> bool" where
  "plain_encoders h \<longleftrightarrow> (\<forall>evt e. g_encEvent h evt = Inl e \<longrightarrow> as_Error e = None)
     \<and> (\<forall>m e. g_encMessage h m = Inl e \<longrightarrow> as_Error e = None)"

lemma marshal_failed_ok:
  "as_Error err = None \<Longrightarrow> \<exists>e. marshal_failed what err = Inr (Inl e) \<and> IsPermanent e \<noteq> None"
  by (simp add: marshal_failed_def MarshalFailed_def Internal_def New_def Valid_def WithCause_def Permanent_def IsPermanent_def)

lemma publish_event_total:
  assumes "plain_encoders h"
  shows "\<exists>r. fst (publish_event h siteID (build_event h siteID msg u a)) = Inr r"
proof (cases "g_encEvent h (build_event h siteID msg u a)")
  case (Inl e)
  then have "as_Error e = None" using assms by (simp add: plain_encoders_def)
  then show ?thesis using Inl marshal_failed_ok [of e "''message event''"] by (auto simp: publish_event_def)
next
  case (Inr d)
  show ?thesis
  proof (cases "g_encMessage h msg")
    case Inl': (Inl e)
    then have "as_Error e = None" using assms by (simp add: plain_encoders_def)
    then show ?thesis using Inl' Inr marshal_failed_ok [of e "''send message reply''"]
      by (auto simp: publish_event_def dedup_of_built Let_def split: option.splits)
  next
    case (Inr r)
    then show ?thesis using \<open>g_encEvent h _ = Inr d\<close>
      by (auto simp: publish_event_def dedup_of_built Let_def split: option.splits)
  qed
qed

lemma processMessage_total:
  assumes "g_fetch h \<noteq> None" "plain_encoders h"
  shows "\<exists>r. fst (processMessage h account roomID siteID req) = Inr r"
  using resolveQuoteSnapshot_panic [of h account roomID siteID "sr_QuotedParentMessageID req" "sr_ThreadParentMessageID req" "g_now h"]
    publish_event_total [OF assms(2)] assms(1)
  by (auto simp: processMessage_def split: option.splits sum.splits prod.splits)

lemma processMessage_one_attempt: "length (snd (processMessage h account roomID siteID req)) \<le> 1"
  using publish_event_attempts
  by (cases "processMessage h account roomID siteID req"; cases "snd (processMessage h account roomID siteID req)")
     (auto elim!: processMessage_stages)

text \<open>C30: Every delivery ends in exactly one of two ways. It is acknowledged and the sender is answered, or
  it goes back to the stream with a positive delay, which happens only when processing failed with an
  untyped (infrastructure) error; then the sender is answered only if this was the last delivery. An answer
  is sent whenever the request carries a usable request id, on the sender's own response subject, and never
  twice; at most one publish is attempted.\<close>

theorem delivery_settled:
  assumes "\<forall>n > 0. 0 \<le> rnd n \<and> rnd n < n" "g_fetch h \<noteq> None" "plain_encoders h"
  shows "\<exists>out. HandleJetStreamMsg h unmarshal rnd meta maxDeliver subj rawData = Inr out
    \<and> settled_once (fst (unmarshal rawData)) (accountFromSubject subj) (is_final meta maxDeliver) out
    \<and> length (o_attempts out) \<le> 1
    \<and> (o_settle out \<noteq> Ack \<longrightarrow>
        (\<exists>account roomID siteID err. ParseUserRoomSiteSubject subj = Some (account, roomID, siteID)
          \<and> fst (processMessage h (DecodeAccount account) roomID siteID (fst (unmarshal rawData))) = Inr (Inl err)
          \<and> as_Error err = None))"
proof -
  obtain req parsed where u: "unmarshal rawData = (req, parsed)" by fastforce
  show ?thesis
  proof (cases "ParseUserRoomSiteSubject subj")
    case None
    then show ?thesis using u by (auto simp: HandleJetStreamMsg_def settled_once_Ack) (simp_all add: outcome_def)
  next
    case (Some t)
    obtain account roomID siteID where t: "t = (account, roomID, siteID)" by (cases t)
    have acc: "account = accountFromSubject subj" using Some t accountFromSubject_parsed by simp
    let ?p = "processMessage h (DecodeAccount account) roomID siteID req"
    obtain r where r: "fst ?p = Inr r" using processMessage_total [OF assms(2,3)] by blast
    have len: "length (snd ?p) \<le> 1" by (rule processMessage_one_attempt)
    show ?thesis
    proof (cases parsed)
      case False
      then show ?thesis using u Some t acc by (auto simp: HandleJetStreamMsg_def settled_once_Ack) (simp_all add: outcome_def)
    next
      case True
      show ?thesis
      proof (cases r)
        case (Inl err)
        have run: "HandleJetStreamMsg h unmarshal rnd meta maxDeliver subj rawData
            = Inr (settle_failure h rnd meta maxDeliver account req (snd ?p) err)"
          using u Some t True r Inl by (cases ?p) (simp add: HandleJetStreamMsg_def)
        moreover have "o_attempts (settle_failure h rnd meta maxDeliver account req (snd ?p) err) = snd ?p"
          "o_settle (settle_failure h rnd meta maxDeliver account req (snd ?p) err) \<noteq> Ack \<longrightarrow> as_Error err = None"
          by (auto simp: settle_failure_def outcome_def Let_def split: option.splits)
        ultimately show ?thesis
          using settled_once_failure [OF assms(1), of req account meta maxDeliver h "snd ?p" err] len Some t acc r Inl u by simp
      next
        case (Inr reply)
        then have "HandleJetStreamMsg h unmarshal rnd meta maxDeliver subj rawData
            = Inr (outcome (sendReply account req reply) (snd ?p) Ack ''accepted'' ''none'')"
          using u Some t True r by (cases ?p) (simp add: HandleJetStreamMsg_def)
        then show ?thesis using len acc u settled_once_Ack [of req account] by (simp add: outcome_def)
      qed
    qed
  qed
qed

section \<open>Degraded dependencies\<close>

definition history_down :: "gk_env \<Rightarrow> bool" where
  "history_down h \<longleftrightarrow> (\<exists>fetch. g_fetch h = Some fetch
     \<and> (\<forall>i account roomID siteID mid. \<exists>err. fetch i account roomID siteID mid = Inl err \<and> Terminal err = None))"

lemma history_down_quote:
  assumes "history_down h"
  shows "resolveQuoteSnapshot h account roomID siteID q t now =
    Inr (Inr (if q = '''' then (None, False) else (Some (placeholderQuoteSnapshot h roomID q t now), True)))"
proof -
  obtain fetch err where "g_fetch h = Some fetch" "fetch 0 account roomID siteID q = Inl err" "Terminal err = None"
    using assms by (auto simp: history_down_def) metis
  then show ?thesis by (simp add: resolveQuoteSnapshot_def Let_def)
qed

lemma history_down_thread:
  assumes "history_down h" "snapshot = None \<or> unverified"
  shows "resolveThreadParent h account roomID siteID req snapshot unverified = Inr (None, '''')"
proof -
  obtain fetch err where "g_fetch h = Some fetch"
    "fetch 1 account roomID siteID (sr_ThreadParentMessageID req) = Inl err" "Terminal err = None"
    using assms(1) by (auto simp: history_down_def) metis
  then show ?thesis
    using assms(2) by (auto simp: resolveThreadParent_def Let_def threadParentMissing_def quoteFetchErrIsTerminal_def)
qed


section \<open>A concrete site\<close>

definition sample_sub :: Subscription where
  "sample_sub = partial_subscription ''u1'' ''alice'' None"

definition sample_env :: gk_env where
  "sample_env = \<lparr>g_siteID = ''s1'', g_largeRoomThreshold = 100, g_maxAttachments = 10, g_maxAttachmentBytes = 4096,
     g_chatBaseURL = ''https://chat'', g_threadParentRecheckDelay = 0, g_adminPrefix = ''p_admin'', g_quote = (\<lambda>s. s),
     g_GetSubscription = (\<lambda>account roomID. if account = ''alice'' \<and> roomID = ''r1'' then Inr sample_sub
        else Inl (Typed errNotSubscribed)),
     g_GetRoomMeta = (\<lambda>_. Inl (Raw ''mongo down'')), g_users = None,
     g_fetch = Some (\<lambda>_ _ _ _ _. Inl ErrTimeout), g_wait = None, g_now = 1000,
     g_encEvent = (\<lambda>_. Inr ''event''), g_encMessage = (\<lambda>_. Inr ''message''), g_encError = (\<lambda>_. Some ''error''),
     g_publish = (\<lambda>_ _ _. None)\<rparr>"

definition sample_req :: SendMessageRequest where
  "sample_req = \<lparr>sr_ID = ''ABCDEFGHIJ0123456789'', sr_Content = ''hi'', sr_RequestID = ''01970a4f-8c2d-7c9a-abcd-e0123456789f'',
     sr_ThreadParentMessageID = '''', sr_QuotedParentMessageID = ''abcdefghij0123456789'', sr_TShow = False,
     sr_Attachments = [], sr_Type = '''', sr_VisibleTo = ''''\<rparr>"

lemma sample_well_formed: "well_formed_request sample_env ''s1'' sample_req"
  by (simp add: well_formed_request_def sample_env_def sample_req_def IsValidUUID_def uuidHyphenatedLength_def
      enumerate_eq_zip uuid_char_def hex_lower_def between_def IsValidMessageID_def messageIDLength_def base62_char_def
      total_bytes_def upt_conv_Cons)

lemma sample_under_cap: "g_GetSubscription sample_env ''alice'' ''r1'' = Inr sample_sub" "under_cap sample_env ''r1'' sample_req sample_sub"
  by (simp_all add: sample_env_def under_cap_def)

lemma sample_fields:
  "g_encEvent sample_env e = Inr ''event''" "g_encMessage sample_env m = Inr ''message''" "g_publish sample_env a b c = None"
  by (simp_all add: sample_env_def)

lemma sample_quotes: "sr_QuotedParentMessageID sample_req \<noteq> []"
  by (simp add: sample_req_def)

lemma sample_history_down: "history_down sample_env"
  by (simp add: history_down_def sample_env_def Terminal_def ErrTimeout_def)


theorem published_is_vetted_witness:
  "\<exists>sub evt. snd (processMessage sample_env ''alice'' ''r1'' ''s1'' sample_req) = [(MsgCanonicalCreated ''s1'', sr_ID sample_req, evt)]
    \<and> g_GetSubscription sample_env ''alice'' ''r1'' = Inr sub \<and> m_UserID (ev_Message evt) = su_ID (sub_User sub)"
proof -
  have val: "validate sample_env ''s1'' sample_req = None" using sample_well_formed by (simp add: validate_None)
  have adm: "admit sample_env ''alice'' ''r1'' sample_req = Inr sample_sub" using sample_under_cap by (simp add: admit_Inr)
  have "snd (processMessage sample_env ''alice'' ''r1'' ''s1'' sample_req) \<noteq> []"
    unfolding processMessage_def val adm history_down_quote [OF sample_history_down]
    by (simp add: history_down_thread [OF sample_history_down] sample_quotes publish_event_def dedup_of_built Let_def sample_fields)
  then obtain r attempts where "processMessage sample_env ''alice'' ''r1'' ''s1'' sample_req = (r, attempts)" "attempts \<noteq> []"
    by (metis prod.collapse)
  from published_is_vetted [OF this] this(1) show ?thesis by (auto simp: sample_env_def)
qed

theorem delivery_settled_witness:
  "\<exists>out. HandleJetStreamMsg sample_env (\<lambda>_. (sample_req, True)) (\<lambda>_. 0) (Some 1) 5 ''chat.user.alice.room.r1.s1.msg.send'' ''x'' = Inr out
    \<and> length (o_attempts out) \<le> 1"
  using delivery_settled [of "\<lambda>_. 0" sample_env "\<lambda>_. (sample_req, True)" "Some 1" 5 "''chat.user.alice.room.r1.s1.msg.send''" "''x''"]
  by (auto simp: sample_env_def plain_encoders_def)

end
