(* ===== verification/Bucket_Walk.thy ===== *)
theory Bucket_Walk
  imports Chat_Prelude Go_Text Err_Code
begin

text \<open>
  Reading a room's history from the bucketed message table (\<open>src/history-service/internal/cassrepo\<close>:
  \<open>walker.go\<close>, \<open>messages_by_room.go\<close>, the cursors of \<open>utils.go\<close>) over the buckets of \<open>src/pkg/msgbucket\<close>.
  Times and buckets are milliseconds. Byte slices are lists of byte values; a nil slice is the empty list. The
  Cassandra driver is an argument: executing a query from a page state with a page size yields the rows of
  the page, the next page state and the error of closing the iterator.
\<close>

section \<open>Buckets\<close>

record Sizer =
  windowMs :: int

text \<open>Go's integer division truncates toward zero.\<close>

definition quot :: "int \<Rightarrow> int \<Rightarrow> int" where
  "quot a b = (if a < 0 then - ((- a) div b) else a div b)"

definition Of :: "Sizer \<Rightarrow> int \<Rightarrow> int" where
  "Of s t = quot t (windowMs s) * windowMs s"

definition Prev :: "Sizer \<Rightarrow> int \<Rightarrow> int" where "Prev s b = b - windowMs s"
definition Next :: "Sizer \<Rightarrow> int \<Rightarrow> int" where "Next s b = b + windowMs s"
definition WindowMs :: "Sizer \<Rightarrow> int" where "WindowMs s = windowMs s"

section \<open>Cursors\<close>

definition b64_alphabet :: string where
  "b64_alphabet = ''ABCDEFGHIJKLMNOPQRSTUVWXYZabcdefghijklmnopqrstuvwxyz0123456789+/''"

definition b64_char :: "nat \<Rightarrow> char" where "b64_char n = b64_alphabet ! n"

fun EncodeToString :: "nat list \<Rightarrow> string" where
  "EncodeToString [] = []"
| "EncodeToString [a] = [b64_char (a div 4), b64_char (a mod 4 * 16), CHR ''='', CHR ''='']"
| "EncodeToString [a, b] = [b64_char (a div 4), b64_char (a mod 4 * 16 + b div 16), b64_char (b mod 16 * 4), CHR ''='']"
| "EncodeToString (a # b # c # bs) =
     [b64_char (a div 4), b64_char (a mod 4 * 16 + b div 16), b64_char (b mod 16 * 4 + c div 64), b64_char (c mod 64)]
     @ EncodeToString bs"

definition b64_val :: "char \<Rightarrow> nat option" where
  "b64_val c = map_option fst (find (\<lambda>(i, d). d = c) (enumerate 0 b64_alphabet))"

text \<open>Decoding by groups of four; only the last group may be padded.\<close>

fun decode_groups :: "string \<Rightarrow> nat list option" where
  "decode_groups [] = Some []"
| "decode_groups [w, x, y, z] =
     (case (b64_val w, b64_val x) of
        (Some a, Some b) \<Rightarrow>
          if y = CHR ''='' \<and> z = CHR ''='' then Some [a * 4 + b div 16]
          else (case b64_val y of None \<Rightarrow> None
                | Some c \<Rightarrow>
                    if z = CHR ''='' then Some [a * 4 + b div 16, b mod 16 * 16 + c div 4]
                    else (case b64_val z of None \<Rightarrow> None
                          | Some d \<Rightarrow> Some [a * 4 + b div 16, b mod 16 * 16 + c div 4, c mod 4 * 64 + d]))
      | _ \<Rightarrow> None)"
| "decode_groups (w # x # y # z # rest) =
     (case (b64_val w, b64_val x, b64_val y, b64_val z, decode_groups rest) of
        (Some a, Some b, Some c, Some d, Some bs) \<Rightarrow>
          Some ([a * 4 + b div 16, b mod 16 * 16 + c div 4, c mod 4 * 64 + d] @ bs)
      | _ \<Rightarrow> None)"
| "decode_groups _ = None"

definition DecodeString :: "string \<Rightarrow> nat list option" where
  "DecodeString s = decode_groups (filter (\<lambda>c. c \<noteq> CHR 0x0A \<and> c \<noteq> CHR 0x0D) s)"

definition EncodedLen :: "nat \<Rightarrow> nat" where "EncodedLen n = (n + 2) div 3 * 4"

definition maxCursorBytes :: nat where "maxCursorBytes = 512"
definition bucketCursorHeaderBytes :: nat where "bucketCursorHeaderBytes = 8 + 2"
definition maxEncodedPageState :: nat where "maxEncodedPageState = maxCursorBytes - bucketCursorHeaderBytes"

lemmas cursor_sizes = maxCursorBytes_def bucketCursorHeaderBytes_def maxEncodedPageState_def

text \<open>Big-endian bytes of a number, and back.\<close>

fun put_be :: "nat \<Rightarrow> nat \<Rightarrow> nat list" where
  "put_be 0 n = []"
| "put_be (Suc k) n = put_be k (n div 256) @ [n mod 256]"

definition get_be :: "nat list \<Rightarrow> nat" where
  "get_be bs = foldl (\<lambda>n b. 256 * n + b) 0 bs"

definition uint64 :: "int \<Rightarrow> nat" where "uint64 b = nat (b mod 2 ^ 64)"
definition int64 :: "nat \<Rightarrow> int" where "int64 u = (if u < 2 ^ 63 then int u else int u - 2 ^ 64)"

definition encodeBucketCursor :: "int \<Rightarrow> nat list \<Rightarrow> goerr + string" where
  "encodeBucketCursor bucket pageState =
     (if length pageState > maxEncodedPageState then
        Inl (Raw (''encode bucket cursor: pageState length '' @ Itoa (int (length pageState)) @ '' exceeds maximum ''
          @ Itoa (int maxEncodedPageState)))
      else Inr (EncodeToString (put_be 8 (uint64 bucket) @ put_be 2 (length pageState) @ pageState)))"

definition decodeBucketCursor :: "string \<Rightarrow> goerr + int \<times> nat list" where
  "decodeBucketCursor encoded =
     (if encoded = '''' then Inr (0, [])
      else if length encoded > EncodedLen maxCursorBytes then
        Inl (Raw (''decode bucket cursor: encoded length '' @ Itoa (int (length encoded)) @ '' exceeds maximum''))
      else case DecodeString encoded of None \<Rightarrow> Inl (Wrapf ''decode bucket cursor'' (Raw ''illegal base64 data''))
      | Some raw \<Rightarrow>
          if length raw > maxCursorBytes then
            Inl (Raw (''decode bucket cursor: decoded length '' @ Itoa (int (length raw)) @ '' exceeds maximum '' @ Itoa (int maxCursorBytes)))
          else if length raw < bucketCursorHeaderBytes then
            Inl (Raw (''decode bucket cursor: truncated framing ('' @ Itoa (int (length raw)) @ '' bytes)''))
          else
            let bucket = int64 (get_be (take 8 raw)); psLen = get_be (take 2 (drop 8 raw)) in
            if bucketCursorHeaderBytes + psLen \<noteq> length raw then
              Inl (Raw (''decode bucket cursor: declared pageState length '' @ Itoa (int psLen) @ '' does not match available ''
                @ Itoa (int (length raw) - int bucketCursorHeaderBytes)))
            else Inr (bucket, drop bucketCursorHeaderBytes raw))"

record Cursor =
  cur_state :: "nat list"

definition NewCursor :: "string \<Rightarrow> goerr + Cursor" where
  "NewCursor encoded =
     (if encoded = '''' then Inr \<lparr>cur_state = []\<rparr>
      else if length encoded > EncodedLen maxCursorBytes then
        Inl (Raw (''decode cursor: encoded length '' @ Itoa (int (length encoded)) @ '' exceeds maximum of '' @ Itoa (int (EncodedLen maxCursorBytes))))
      else case DecodeString encoded of
        None \<Rightarrow> Inl (Wrapf ''decode cursor'' (Raw ''illegal base64 data''))
      | Some state \<Rightarrow> Inr \<lparr>cur_state = state\<rparr>)"

definition Encode :: "Cursor \<Rightarrow> string" where
  "Encode c = (if cur_state c = [] then '''' else EncodeToString (cur_state c))"

record PageRequest =
  pr_Cursor :: "Cursor option"
  pr_PageSize :: int

definition defaultCassPageSize :: int where "defaultCassPageSize = 50"
definition MaxPageSize :: int where "MaxPageSize = 100"

definition ParsePageRequest :: "string \<Rightarrow> int \<Rightarrow> goerr + PageRequest" where
  "ParsePageRequest cursorStr pageSize =
     (case NewCursor cursorStr of
        Inl err \<Rightarrow> Inl (Wrapf ''parse page request cursor'' err)
      | Inr cursor \<Rightarrow>
          let pageSize = (if pageSize \<le> 0 then defaultCassPageSize else pageSize);
              pageSize = (if pageSize > MaxPageSize then MaxPageSize else pageSize) in
          Inr \<lparr>pr_Cursor = Some cursor, pr_PageSize = pageSize\<rparr>)"

section \<open>The walk\<close>

datatype walkDirection = walkDesc | walkAsc

record 'a bucketPage =
  bp_rows :: "'a list"
  bp_resumeState :: "nat list"

record 'a pageResult =
  pg_Rows :: "'a list"
  pg_NextCursor :: string
  pg_HasNext :: bool

type_synonym 'a bucketFetcher = "int \<Rightarrow> bool \<Rightarrow> nat list \<Rightarrow> nat \<Rightarrow> goerr + 'a bucketPage"

record 'a bucketWalk =
  bw_sizer :: Sizer
  bw_direction :: walkDirection
  bw_startBucket :: int
  bw_floorBucket :: int
  bw_maxBuckets :: nat
  bw_pageSize :: nat
  bw_initialState :: "nat list"
  bw_fanout :: nat
  bw_fetch :: "'a bucketFetcher"

definition advance :: "'a bucketWalk \<Rightarrow> int \<Rightarrow> int" where
  "advance w b = (if bw_direction w = walkDesc then Prev (bw_sizer w) b else Next (bw_sizer w) b)"

definition crossedFloor :: "'a bucketWalk \<Rightarrow> int \<Rightarrow> bool" where
  "crossedFloor w b = (if bw_direction w = walkDesc then b < bw_floorBucket w else b > bw_floorBucket w)"

definition baseState :: "'a bucketWalk \<Rightarrow> int \<Rightarrow> nat list" where
  "baseState w bucket = (if bucket = bw_startBucket w then bw_initialState w else [])"

definition resumeAtBucket :: "'a list \<Rightarrow> int \<Rightarrow> nat list \<Rightarrow> goerr + 'a pageResult" where
  "resumeAtBucket rows bucket state =
     (case encodeBucketCursor bucket state of
        Inl err \<Rightarrow> Inl (Wrapf (''encode resume cursor at bucket '' @ Itoa bucket) err)
      | Inr cursor \<Rightarrow> Inr \<lparr>pg_Rows = rows, pg_NextCursor = cursor, pg_HasNext = True\<rparr>)"

definition terminalPage :: "'a list \<Rightarrow> 'a pageResult" where
  "terminalPage rows = \<lparr>pg_Rows = rows, pg_NextCursor = '''', pg_HasNext = False\<rparr>"

definition resumeAfterFill :: "'a bucketWalk \<Rightarrow> 'a list \<Rightarrow> int \<Rightarrow> 'a bucketPage \<Rightarrow> nat \<Rightarrow> goerr + 'a pageResult" where
  "resumeAfterFill w rows bucket page taken =
     (if taken < length (bp_rows page) then
        (case bw_fetch w bucket (bucket = bw_startBucket w) (baseState w bucket) taken of
           Inl err \<Rightarrow> Inl err
         | Inr aligned \<Rightarrow> resumeAtBucket rows bucket (bp_resumeState aligned))
      else if bp_resumeState page \<noteq> [] then resumeAtBucket rows bucket (bp_resumeState page)
      else let nxt = advance w bucket in
           if crossedFloor w nxt then Inr (terminalPage rows) else resumeAtBucket rows nxt [])"

fun plan_loop :: "'a bucketWalk \<Rightarrow> int \<Rightarrow> nat \<Rightarrow> nat \<Rightarrow> int list" where
  "plan_loop w b 0 walked = []"
| "plan_loop w b (Suc width) walked =
     (if crossedFloor w b \<or> walked \<ge> bw_maxBuckets w then []
      else b # plan_loop w (advance w b) width (walked + 1))"

definition planWave :: "'a bucketWalk \<Rightarrow> int \<Rightarrow> nat \<Rightarrow> nat \<Rightarrow> int list" where
  "planWave w from width walked = plan_loop w from width walked"

text \<open>The fetches of a wave, in bucket order. Which of several failures is reported is a matter of timing
  in the code; here it is the first in bucket order.\<close>

fun fetchWave :: "'a bucketWalk \<Rightarrow> int list \<Rightarrow> goerr + 'a bucketPage list" where
  "fetchWave w [] = Inr []"
| "fetchWave w (bk # buckets) =
     (case bw_fetch w bk (bk = bw_startBucket w) (baseState w bk) (bw_pageSize w) of
        Inl err \<Rightarrow> Inl err
      | Inr p \<Rightarrow> (case fetchWave w buckets of Inl err \<Rightarrow> Inl err | Inr ps \<Rightarrow> Inr (p # ps)))"

definition adaptiveWaveWidth :: "nat \<Rightarrow> nat \<Rightarrow> nat \<Rightarrow> nat \<Rightarrow> nat" where
  "adaptiveWaveWidth rowsSeen bucketsSeen needed fanout =
     (let density = (if rowsSeen < 1 then 1 else rowsSeen);
          width = (needed * bucketsSeen + density - 1) div density;
          width = (if width < 1 then 1 else width) in
      if width > fanout then fanout else width)"

text \<open>Assembling a fetched wave: either the page fills at some bucket, or every row of the wave was taken.\<close>

fun assemble :: "'a bucketWalk \<Rightarrow> (int \<times> 'a bucketPage) list \<Rightarrow> 'a list \<Rightarrow> (goerr + 'a pageResult) + 'a list" where
  "assemble w [] out = Inr out"
| "assemble w ((bk, page) # rest) out =
     (let taken = min (bw_pageSize w - length out) (length (bp_rows page));
          out' = out @ take taken (bp_rows page) in
      if length out' = bw_pageSize w then Inl (resumeAfterFill w out' bk page taken)
      else assemble w rest out')"

text \<open>The loop of \<open>run\<close>. Every wave holds at least one bucket, so the budget left shrinks.\<close>

function wave_loop :: "'a bucketWalk \<Rightarrow> 'a list \<Rightarrow> int \<Rightarrow> nat \<Rightarrow> nat \<Rightarrow> goerr + 'a pageResult" where
  "wave_loop w out curBucket walked waveWidth =
     (if crossedFloor w curBucket then Inr (terminalPage out)
      else if walked \<ge> bw_maxBuckets w then resumeAtBucket out curBucket []
      else let buckets = planWave w curBucket waveWidth walked in
        if buckets = [] then resumeAtBucket out curBucket []
        else case fetchWave w buckets of Inl err \<Rightarrow> Inl err
        | Inr pages \<Rightarrow>
            (case assemble w (zip buckets pages) out of
               Inl result \<Rightarrow> result
             | Inr out' \<Rightarrow>
                 let walked' = walked + length buckets in
                 wave_loop w out' (advance w (last buckets)) walked'
                   (adaptiveWaveWidth (length out') walked' (bw_pageSize w - length out') (bw_fanout w))))"
  by auto
termination
  by (relation "measure (\<lambda>(w, _, _, walked, _). bw_maxBuckets w - walked)") (auto intro!: diff_less_mono2)

declare wave_loop.simps [simp del]

definition run :: "'a bucketWalk \<Rightarrow> goerr + 'a pageResult" where
  "run w = wave_loop w [] (bw_startBucket w) 0 1"

definition walkBuckets ::
  "Sizer \<Rightarrow> walkDirection \<Rightarrow> int \<Rightarrow> int \<Rightarrow> nat \<Rightarrow> nat \<Rightarrow> nat list \<Rightarrow> nat \<Rightarrow> 'a bucketFetcher \<Rightarrow> goerr + 'a pageResult" where
  "walkBuckets sizer direction startBucket floorBucket maxBuckets pageSize initialPageState fanout fetch =
     run \<lparr>bw_sizer = sizer, bw_direction = direction, bw_startBucket = startBucket, bw_floorBucket = floorBucket,
          bw_maxBuckets = maxBuckets, bw_pageSize = pageSize, bw_initialState = initialPageState,
          bw_fanout = (if fanout < 1 then 1 else fanout), bw_fetch = fetch\<rparr>"

section \<open>Reading a room\<close>

text \<open>A query on one partition: the room, the bucket, and the bounds on the creation time.\<close>

record bucket_query =
  bq_room :: string
  bq_bucket :: int
  bq_after :: "int option"
  bq_before :: "int option"
  bq_desc :: bool

type_synonym 'r driver = "bucket_query \<Rightarrow> nat list \<Rightarrow> nat \<Rightarrow> 'r list \<times> nat list \<times> goerr option"

text \<open>Scanning up to \<open>remaining\<close> rows of an iterator, each decrypted; the first failure aborts.\<close>

fun scanMessagesUpTo :: "('r \<Rightarrow> goerr + 'm) \<Rightarrow> 'r list \<Rightarrow> nat \<Rightarrow> goerr + 'm list" where
  "scanMessagesUpTo dec [] remaining = Inr []"
| "scanMessagesUpTo dec (r # rs) 0 = Inr []"
| "scanMessagesUpTo dec (r # rs) (Suc remaining) =
     (case dec r of Inl err \<Rightarrow> Inl err
      | Inr m \<Rightarrow> (case scanMessagesUpTo dec rs remaining of Inl err \<Rightarrow> Inl err | Inr ms \<Rightarrow> Inr (m # ms)))"

text \<open>Draining a bucket's pages until enough rows are read. A driver may go on returning empty pages, so
  the loop may not end.\<close>

partial_function (option) drain ::
  "'r driver \<Rightarrow> ('r \<Rightarrow> goerr + 'm) \<Rightarrow> bucket_query \<Rightarrow> nat \<Rightarrow> 'm list \<Rightarrow> nat list \<Rightarrow> (goerr + 'm bucketPage) option" where
  "drain drv dec q limit rows state =
     (if length rows < limit then
        (case drv q state (limit - length rows) of (page, state', closeErr) \<Rightarrow>
           (case closeErr of Some e \<Rightarrow> Some (Inl (Wrapf (''scan bucket '' @ Itoa (bq_bucket q)) e))
            | None \<Rightarrow>
                (case scanMessagesUpTo dec page (limit - length rows) of
                   Inl e \<Rightarrow> Some (Inl (Wrapf (''scan bucket '' @ Itoa (bq_bucket q)) e))
                 | Inr got \<Rightarrow>
                     if state' = [] then Some (Inr \<lparr>bp_rows = rows @ got, bp_resumeState = []\<rparr>)
                     else drain drv dec q limit (rows @ got) state')))
      else Some (Inr \<lparr>bp_rows = rows, bp_resumeState = state\<rparr>))"

text \<open>The fetcher as the walk uses it; not returning is reported as an error of its own, which the
  properties exclude.\<close>

definition hung :: goerr where "hung = Raw ''iterator did not end''"

definition gocqlBucketFetcher ::
  "'r driver \<Rightarrow> ('r \<Rightarrow> goerr + 'm) \<Rightarrow> (int \<Rightarrow> bool \<Rightarrow> bucket_query) \<Rightarrow> 'm bucketFetcher" where
  "gocqlBucketFetcher drv dec queryFn bucket firstBucket pageState limit =
     (case drain drv dec (queryFn bucket firstBucket) limit [] pageState of None \<Rightarrow> Inl hung | Some r \<Rightarrow> r)"

definition startBucketFromCursor :: "PageRequest \<Rightarrow> walkDirection \<Rightarrow> int \<Rightarrow> int \<Rightarrow> goerr + int \<times> nat list" where
  "startBucketFromCursor pageReq direction defaultBucket floorBucket =
     (case pr_Cursor pageReq of None \<Rightarrow> Inr (defaultBucket, [])
      | Some c \<Rightarrow>
          let encoded = Encode c in
          if encoded = '''' then Inr (defaultBucket, [])
          else case decodeBucketCursor encoded of
            Inl err \<Rightarrow> Inl (Wrapf ''start bucket from cursor'' err)
          | Inr (bucket, pageState) \<Rightarrow>
              (case direction of
                 walkDesc \<Rightarrow> if bucket > defaultBucket \<or> bucket < floorBucket then Inr (defaultBucket, []) else Inr (bucket, pageState)
               | walkAsc \<Rightarrow> if bucket < defaultBucket \<or> bucket > floorBucket then Inr (defaultBucket, []) else Inr (bucket, pageState)))"

record ('r, 'm) Repository =
  rp_driver :: "'r driver"
  rp_decrypt :: "'r \<Rightarrow> goerr + 'm"
  rp_bucket :: Sizer
  rp_maxBuckets :: nat
  rp_walkFanout :: nat

definition fillMessagePage ::
  "('r, 'm) Repository \<Rightarrow> walkDirection \<Rightarrow> int \<Rightarrow> int \<Rightarrow> PageRequest \<Rightarrow> nat list \<Rightarrow> (int \<Rightarrow> bool \<Rightarrow> bucket_query) \<Rightarrow>
   goerr + 'm pageResult" where
  "fillMessagePage r direction startBucket floorBucket pageReq initialPageState queryFn =
     walkBuckets (rp_bucket r) direction startBucket floorBucket (rp_maxBuckets r) (nat (pr_PageSize pageReq))
       initialPageState (rp_walkFanout r) (gocqlBucketFetcher (rp_driver r) (rp_decrypt r) queryFn)"

definition wrapf :: "string \<Rightarrow> goerr + 'a \<Rightarrow> goerr + 'a" where
  "wrapf s r = (case r of Inl e \<Rightarrow> Inl (Wrapf s e) | Inr x \<Rightarrow> Inr x)"

definition read_page ::
  "('r, 'm) Repository \<Rightarrow> string \<Rightarrow> walkDirection \<Rightarrow> int \<Rightarrow> int \<Rightarrow> PageRequest \<Rightarrow> (int \<Rightarrow> bool \<Rightarrow> bucket_query) \<Rightarrow>
   goerr + 'm pageResult" where
  "read_page r what direction defaultBucket floorBucket pageReq queryFn =
     wrapf what
       (case startBucketFromCursor pageReq direction defaultBucket floorBucket of
          Inl err \<Rightarrow> Inl err
        | Inr (startBucket, initialPageState) \<Rightarrow>
            fillMessagePage r direction startBucket floorBucket pageReq initialPageState queryFn)"

definition before_query :: "string \<Rightarrow> int \<Rightarrow> int \<Rightarrow> bool \<Rightarrow> bucket_query" where
  "before_query roomID before bucket firstBucket =
     \<lparr>bq_room = roomID, bq_bucket = bucket, bq_after = None, bq_before = (if firstBucket then Some before else None), bq_desc = True\<rparr>"

definition GetMessagesBefore :: "('r, 'm) Repository \<Rightarrow> string \<Rightarrow> int \<Rightarrow> int \<Rightarrow> PageRequest \<Rightarrow> goerr + 'm pageResult" where
  "GetMessagesBefore r roomID before floor pageReq =
     read_page r ''get messages before'' walkDesc (Of (rp_bucket r) before) (Of (rp_bucket r) floor) pageReq
       (before_query roomID before)"

definition between_query :: "string \<Rightarrow> int \<Rightarrow> int \<Rightarrow> int \<Rightarrow> int \<Rightarrow> bool \<Rightarrow> bucket_query" where
  "between_query roomID floorBucket since before bucket firstBucket =
     \<lparr>bq_room = roomID, bq_bucket = bucket, bq_after = (if bucket = floorBucket then Some since else None),
      bq_before = (if firstBucket then Some before else None), bq_desc = True\<rparr>"

definition GetMessagesBetweenDesc :: "('r, 'm) Repository \<Rightarrow> string \<Rightarrow> int \<Rightarrow> int \<Rightarrow> PageRequest \<Rightarrow> goerr + 'm pageResult" where
  "GetMessagesBetweenDesc r roomID since before pageReq =
     read_page r ''get messages between desc'' walkDesc (Of (rp_bucket r) before) (Of (rp_bucket r) since) pageReq
       (between_query roomID (Of (rp_bucket r) since) since before)"

definition after_query :: "string \<Rightarrow> int \<Rightarrow> int \<Rightarrow> bool \<Rightarrow> bucket_query" where
  "after_query roomID after bucket firstBucket =
     \<lparr>bq_room = roomID, bq_bucket = bucket, bq_after = (if firstBucket then Some after else None), bq_before = None, bq_desc = False\<rparr>"

definition GetMessagesAfter :: "('r, 'm) Repository \<Rightarrow> string \<Rightarrow> int \<Rightarrow> int \<Rightarrow> PageRequest \<Rightarrow> goerr + 'm pageResult" where
  "GetMessagesAfter r roomID after ceiling pageReq =
     read_page r ''get messages after'' walkAsc (Of (rp_bucket r) after) (Of (rp_bucket r) ceiling) pageReq
       (after_query roomID after)"

definition all_query :: "string \<Rightarrow> int \<Rightarrow> bool \<Rightarrow> bucket_query" where
  "all_query roomID bucket firstBucket =
     \<lparr>bq_room = roomID, bq_bucket = bucket, bq_after = None, bq_before = None, bq_desc = False\<rparr>"

definition GetAllMessagesAsc :: "('r, 'm) Repository \<Rightarrow> string \<Rightarrow> int \<Rightarrow> int \<Rightarrow> PageRequest \<Rightarrow> goerr + 'm pageResult" where
  "GetAllMessagesAsc r roomID floor ceiling pageReq =
     read_page r ''get all messages asc'' walkAsc (Of (rp_bucket r) floor) (Of (rp_bucket r) ceiling) pageReq
       (all_query roomID)"

end
