(* ===== verification/Bucket_Cursor.thy ===== *)
theory Bucket_Cursor
  imports Bucket_Walk
begin

text \<open>
  The pagination cursor: base 64 as the standard library writes it, the framing of bucket and page state, and
  what a client's cursor becomes when it comes back.
\<close>

section \<open>Base 64\<close>

lemma b64_alphabet_facts: "length b64_alphabet = 64" "distinct b64_alphabet"
  "CHR ''='' \<notin> set b64_alphabet" "CHR 0x0A \<notin> set b64_alphabet" "CHR 0x0D \<notin> set b64_alphabet"
  by (simp_all add: b64_alphabet_def)

lemma find_enumerate:
  "distinct xs \<Longrightarrow> i < length xs \<Longrightarrow> find (\<lambda>(j, d). d = xs ! i) (enumerate k xs) = Some (k + i, xs ! i)"
  by (induction xs arbitrary: i k) (auto simp: nth_Cons split: nat.splits)

lemma find_enumerate_None: "c \<notin> set xs \<Longrightarrow> find (\<lambda>(j, d). d = c) (enumerate k xs) = None"
  by (induction xs arbitrary: k) auto

lemma b64_val_char [simp]: "n < 64 \<Longrightarrow> b64_val (b64_char n) = Some n"
  using find_enumerate [of b64_alphabet n 0] b64_alphabet_facts by (simp add: b64_val_def b64_char_def)

lemma b64_val_pad [simp]: "b64_val CHR ''='' = None"
  using b64_alphabet_facts(3) by (simp add: b64_val_def find_enumerate_None)

lemma b64_char_plain: "n < 64 \<Longrightarrow> b64_char n \<noteq> CHR ''='' \<and> b64_char n \<noteq> CHR 0x0A \<and> b64_char n \<noteq> CHR 0x0D"
proof -
  assume "n < 64"
  then have "b64_char n \<in> set b64_alphabet" using b64_alphabet_facts(1) by (simp add: b64_char_def)
  then show ?thesis using b64_alphabet_facts(3-5) by metis
qed

definition bytes :: "nat list \<Rightarrow> bool" where
  "bytes bs \<longleftrightarrow> (\<forall>b \<in> set bs. b < 256)"

lemma bytes_simps [simp]: "bytes []" "bytes (b # bs) \<longleftrightarrow> b < 256 \<and> bytes bs" "bytes (xs @ ys) \<longleftrightarrow> bytes xs \<and> bytes ys"
  by (auto simp: bytes_def)

text \<open>The six-bit groups of up to three bytes, and the bytes back.\<close>

lemma groups_lt:
  assumes "a < 256" "b < 256" "c < (256::nat)"
  shows "a div 4 < 64" "a mod 4 * 16 < 64" "a mod 4 * 16 + b div 16 < 64" "b mod 16 * 4 < 64"
    "b mod 16 * 4 + c div 64 < 64" "c mod 64 < 64"
proof -
  have "a mod 4 < 4" "b div 16 < 16" "b mod 16 < 16" "c div 64 < 4" using assms by (auto simp: less_mult_imp_div_less)
  then show "a div 4 < 64" "a mod 4 * 16 < 64" "a mod 4 * 16 + b div 16 < 64" "b mod 16 * 4 < 64"
    "b mod 16 * 4 + c div 64 < 64" "c mod 64 < 64" using assms by (auto simp: less_mult_imp_div_less)
qed

lemma groups_back:
  assumes "a < 256" "b < 256" "c < (256::nat)"
  shows "a div 4 * 4 + a mod 4 * 16 div 16 = a" "a div 4 * 4 + (a mod 4 * 16 + b div 16) div 16 = a"
    "(a mod 4 * 16 + b div 16) mod 16 * 16 + b mod 16 * 4 div 4 = b"
    "(a mod 4 * 16 + b div 16) mod 16 * 16 + (b mod 16 * 4 + c div 64) div 4 = b"
    "(b mod 16 * 4 + c div 64) mod 4 * 64 + c mod 64 = c"
proof -
  have d: "b div 16 < 16" "c div 64 < 4" using assms by (auto simp: less_mult_imp_div_less)
  have "(a mod 4 * 16 + b div 16) div 16 = a mod 4" "(a mod 4 * 16 + b div 16) mod 16 = b div 16"
    "(b mod 16 * 4 + c div 64) div 4 = b mod 16" "(b mod 16 * 4 + c div 64) mod 4 = c div 64"
    using d by simp_all
  then show "a div 4 * 4 + a mod 4 * 16 div 16 = a" "a div 4 * 4 + (a mod 4 * 16 + b div 16) div 16 = a"
    "(a mod 4 * 16 + b div 16) mod 16 * 16 + b mod 16 * 4 div 4 = b"
    "(a mod 4 * 16 + b div 16) mod 16 * 16 + (b mod 16 * 4 + c div 64) div 4 = b"
    "(b mod 16 * 4 + c div 64) mod 4 * 64 + c mod 64 = c"
    by (simp_all add: div_mult_mod_eq)
qed

lemma decode_groups_Cons:
  "rest \<noteq> [] \<Longrightarrow> decode_groups (w # x # y # z # rest) =
     (case (b64_val w, b64_val x, b64_val y, b64_val z, decode_groups rest) of
        (Some a, Some b, Some c, Some d, Some bs) \<Rightarrow>
          Some ([a * 4 + b div 16, b mod 16 * 16 + c div 4, c mod 4 * 64 + d] @ bs)
      | _ \<Rightarrow> None)"
  by (cases rest) auto

lemma EncodeToString_Nil [simp]: "EncodeToString bs = [] \<longleftrightarrow> bs = []"
  by (induction bs rule: EncodeToString.induct) auto

lemma decode_encode: "bytes bs \<Longrightarrow> decode_groups (EncodeToString bs) = Some bs"
proof (induction bs rule: EncodeToString.induct)
  case (2 a)
  then show ?case using groups_lt [of a a a] groups_back [of a a a] by simp
next
  case (3 a b)
  then show ?case using groups_lt [of a b b] groups_back [of a b b] b64_char_plain by simp
next
  case (4 a b c bs)
  note g = groups_lt [of a b c] groups_back [of a b c]
  have d: "b div 16 < 16" "c div 64 < 4" using 4 by (simp_all add: less_mult_imp_div_less)
  show ?case
  proof (cases "bs = []")
    case True
    then show ?thesis using 4 g d b64_char_plain by (simp add: div_mult_mod_eq)
  next
    case False
    have step: "EncodeToString (a # b # c # bs) = b64_char (a div 4) # b64_char (a mod 4 * 16 + b div 16)
        # b64_char (b mod 16 * 4 + c div 64) # b64_char (c mod 64) # EncodeToString bs" by simp
    have "EncodeToString bs \<noteq> []" using False by simp
    then show ?thesis using 4 g d unfolding step by (subst decode_groups_Cons) (simp_all add: div_mult_mod_eq)
  qed
qed simp

lemma encode_no_newline: "bytes bs \<Longrightarrow> filter (\<lambda>c. c \<noteq> CHR 0x0A \<and> c \<noteq> CHR 0x0D) (EncodeToString bs) = EncodeToString bs"
proof (induction bs rule: EncodeToString.induct)
  case (2 a) then show ?case using groups_lt [of a a a] b64_char_plain by simp
next
  case (3 a b) then show ?case using groups_lt [of a b b] b64_char_plain by simp
next
  case (4 a b c bs) then show ?case using groups_lt [of a b c] b64_char_plain by simp
qed simp

lemma DecodeString_EncodeToString: "bytes bs \<Longrightarrow> DecodeString (EncodeToString bs) = Some bs"
  by (simp add: DecodeString_def encode_no_newline decode_encode)

lemma length_EncodeToString: "length (EncodeToString bs) = EncodedLen (length bs)"
proof (induction bs rule: EncodeToString.induct)
  case (4 a b c bs)
  have "(length bs + 2 + 3) div 3 = (length bs + 2) div 3 + 1" by (rule div_add_self2) simp
  then show ?case using 4 by (simp add: EncodedLen_def add.commute)
qed (simp_all add: EncodedLen_def)

lemma EncodedLen_mono: "m \<le> n \<Longrightarrow> EncodedLen m \<le> EncodedLen n"
  by (simp add: EncodedLen_def div_le_mono)

section \<open>Framing\<close>

lemma length_put_be [simp]: "length (put_be k n) = k"
  by (induction k arbitrary: n) auto

lemma bytes_put_be [simp]: "bytes (put_be k n)"
  by (induction k arbitrary: n) auto

lemma get_be_put_be: "get_be (put_be k n) = n mod 256 ^ k"
  by (induction k arbitrary: n) (simp_all add: get_be_def mod_mult2_eq)

lemma int64_uint64: "- (2 ^ 63) \<le> b \<Longrightarrow> b < 2 ^ 63 \<Longrightarrow> int64 (uint64 b) = b"
proof (cases "0 \<le> b")
  case True
  then show "b < 2 ^ 63 \<Longrightarrow> int64 (uint64 b) = b" by (simp add: uint64_def int64_def)
next
  case False
  assume "- (2 ^ 63) \<le> b"
  then have "b mod 2 ^ 64 = b + 2 ^ 64"
    using False mod_pos_pos_trivial [of "b + 2 ^ 64" "2 ^ 64"] by simp
  then show ?thesis using False \<open>- (2 ^ 63) \<le> b\<close> by (simp add: uint64_def int64_def nat_less_iff)
qed

lemma uint64_lt: "uint64 b < 256 ^ 8"
  by (simp add: uint64_def nat_less_iff)

definition int64_range :: "int \<Rightarrow> bool" where
  "int64_range b \<longleftrightarrow> - (2 ^ 63) \<le> b \<and> b < 2 ^ 63"

lemma cursor_frame:
  assumes "length ps \<le> 502"
  shows "get_be (take 8 (put_be 8 (uint64 b) @ put_be 2 (length ps) @ ps)) = uint64 b"
    "get_be (take 2 (drop 8 (put_be 8 (uint64 b) @ put_be 2 (length ps) @ ps))) = length ps"
    "drop 10 (put_be 8 (uint64 b) @ put_be 2 (length ps) @ ps) = ps"
  using assms uint64_lt [of b] by (simp_all add: get_be_put_be del: put_be.simps)

lemma decode_encode_cursor:
  assumes "bytes ps" "length ps \<le> maxEncodedPageState" "int64_range b"
  shows "\<exists>c. encodeBucketCursor b ps = Inr c \<and> c \<noteq> '''' \<and> decodeBucketCursor c = Inr (b, ps)
    \<and> NewCursor c = Inr \<lparr>cur_state = put_be 8 (uint64 b) @ put_be 2 (length ps) @ ps\<rparr>
    \<and> Encode \<lparr>cur_state = put_be 8 (uint64 b) @ put_be 2 (length ps) @ ps\<rparr> = c"
proof -
  define raw where "raw = put_be 8 (uint64 b) @ put_be 2 (length ps) @ ps"
  have len: "length ps \<le> 502" "length raw = 10 + length ps"
    using assms(2) by (simp_all add: cursor_sizes raw_def del: put_be.simps)
  have ne: "raw \<noteq> []" using len(2) by auto
  have raw_bytes: "bytes raw" using assms(1) by (simp add: raw_def del: put_be.simps)
  note frame = cursor_frame [OF len(1), of b, folded raw_def]
  define c where "c = EncodeToString raw"
  have small: "\<not> length c > EncodedLen maxCursorBytes"
    using EncodedLen_mono [of "length raw" 512] len by (simp add: c_def length_EncodeToString maxCursorBytes_def)
  have dec: "DecodeString c = Some raw" using raw_bytes by (simp add: c_def DecodeString_EncodeToString)
  have c: "c \<noteq> []" using ne by (simp add: c_def)
  have "encodeBucketCursor b ps = Inr c" using assms(2) by (simp add: encodeBucketCursor_def not_less c_def raw_def del: put_be.simps)
  moreover have "decodeBucketCursor c = Inr (b, ps)"
    unfolding decodeBucketCursor_def dec
    using small c len frame int64_uint64 assms(3) by (simp add: Let_def int64_range_def cursor_sizes)
  moreover have "NewCursor c = Inr \<lparr>cur_state = raw\<rparr>" using small c dec by (simp add: NewCursor_def)
  moreover have "Encode \<lparr>cur_state = raw\<rparr> = c" using ne by (simp add: Encode_def c_def)
  ultimately show ?thesis using c raw_def by blast
qed

lemma cursor_trip:
  assumes "bytes ps" "length ps \<le> maxEncodedPageState" "int64_range b"
  shows "\<exists>c req. encodeBucketCursor b ps = Inr c \<and> ParsePageRequest c n = Inr req
    \<and> (startBucketFromCursor req walkDesc dflt flr =
        Inr (if flr \<le> b \<and> b \<le> dflt then (b, ps) else (dflt, [])))
    \<and> (startBucketFromCursor req walkAsc dflt flr =
        Inr (if dflt \<le> b \<and> b \<le> flr then (b, ps) else (dflt, [])))
    \<and> 1 \<le> pr_PageSize req \<and> pr_PageSize req \<le> 100"
proof -
  obtain c where c: "encodeBucketCursor b ps = Inr c" "c \<noteq> ''''" "decodeBucketCursor c = Inr (b, ps)"
    "NewCursor c = Inr \<lparr>cur_state = put_be 8 (uint64 b) @ put_be 2 (length ps) @ ps\<rparr>"
    "Encode \<lparr>cur_state = put_be 8 (uint64 b) @ put_be 2 (length ps) @ ps\<rparr> = c"
    using decode_encode_cursor [OF assms] by blast
  define raw where "raw = put_be 8 (uint64 b) @ put_be 2 (length ps) @ ps"
  obtain req where req: "ParsePageRequest c n = Inr req" "pr_Cursor req = Some \<lparr>cur_state = raw\<rparr>"
    "1 \<le> pr_PageSize req \<and> pr_PageSize req \<le> 100"
    using c(4) by (simp add: ParsePageRequest_def raw_def Let_def defaultCassPageSize_def MaxPageSize_def)
  show ?thesis
    using c(1-3) c(5) req unfolding raw_def [symmetric]
    by (intro exI [of _ c] exI [of _ req]) (simp add: startBucketFromCursor_def Let_def not_less not_le)
qed

text \<open>C33: A cursor survives the trip to the client and back: for every bucket in the 64-bit range and every
  page state the encoder accepts, the next page request starts at exactly that bucket and page state,
  provided the bucket lies between the walk's default start and its floor; a cursor naming any other bucket
  restarts the walk at its default start.\<close>

theorem cursor_roundtrip:
  assumes "bytes ps" "length ps \<le> maxEncodedPageState" "int64_range b"
  shows "\<exists>c req. encodeBucketCursor b ps = Inr c \<and> ParsePageRequest c n = Inr req
    \<and> (startBucketFromCursor req walkDesc dflt flr =
        Inr (if flr \<le> b \<and> b \<le> dflt then (b, ps) else (dflt, [])))
    \<and> (startBucketFromCursor req walkAsc dflt flr =
        Inr (if dflt \<le> b \<and> b \<le> flr then (b, ps) else (dflt, [])))
    \<and> 1 \<le> pr_PageSize req \<and> pr_PageSize req \<le> 100"
  using cursor_trip [OF assms] by blast

theorem cursor_roundtrip_witness:
  "\<exists>c req. encodeBucketCursor (- 86400000) [1, 2, 255] = Inr c \<and> ParsePageRequest c 0 = Inr req
    \<and> startBucketFromCursor req walkDesc 0 (- 172800000) = Inr (- 86400000, [1, 2, 255])"
  using cursor_roundtrip [of "[1, 2, 255]" "- 86400000" 0 0 "- 172800000"]
  by (auto simp: cursor_sizes int64_range_def)

end
