(* ===== verification/Bucket_Props.thy ===== *)
theory Bucket_Props
  imports Bucket_Cursor
begin

text \<open>
  What the bucket walk guarantees: the width of a fan-out wave never shows in the page or the cursor, and
  following the cursors to the end reads every row of the range once, in order.
\<close>

section \<open>Waves of any width\<close>

abbreviation serial :: "'a bucketWalk \<Rightarrow> 'a bucketWalk" where
  "serial w \<equiv> w\<lparr>bw_fanout := 1\<rparr>"

lemma fanout_ops [simp]:
  "advance (w\<lparr>bw_fanout := n\<rparr>) = advance w" "crossedFloor (w\<lparr>bw_fanout := n\<rparr>) = crossedFloor w"
  "baseState (w\<lparr>bw_fanout := n\<rparr>) = baseState w"
  by (auto simp: advance_def crossedFloor_def baseState_def fun_eq_iff)

lemma fanout_fill [simp]: "resumeAfterFill (w\<lparr>bw_fanout := n\<rparr>) = resumeAfterFill w"
  by (intro ext) (simp add: resumeAfterFill_def Let_def)

lemma fanout_assemble [simp]: "assemble (w\<lparr>bw_fanout := n\<rparr>) ps out = assemble w ps out"
  by (induction ps arbitrary: out) (auto simp: Let_def)

lemma width_serial: "adaptiveWaveWidth a b c (Suc 0) = Suc 0"
  by (simp add: adaptiveWaveWidth_def Let_def)

lemma width_pos: "0 < f \<Longrightarrow> 0 < adaptiveWaveWidth a b c f"
  by (simp add: adaptiveWaveWidth_def Let_def)

text \<open>One step of the serial loop.\<close>

abbreviation fetch_at :: "'a bucketWalk \<Rightarrow> int \<Rightarrow> goerr + 'a bucketPage" where
  "fetch_at w b \<equiv> bw_fetch w b (b = bw_startBucket w) (baseState w b) (bw_pageSize w)"

lemma serial_step:
  assumes "\<not> crossedFloor w cur" "walked < bw_maxBuckets w" "fetch_at w cur = Inr p"
  shows "wave_loop (serial w) out cur walked 1 =
    (case assemble w [(cur, p)] out of Inl r \<Rightarrow> r
     | Inr out' \<Rightarrow> wave_loop (serial w) out' (advance w cur) (walked + 1) 1)"
proof -
  have plan: "planWave (serial w) cur 1 walked = [cur]" using assms(1,2) by (simp add: planWave_def)
  have fetch: "fetchWave (serial w) [cur] = Inr [p]" using assms(3) by simp
  show ?thesis
    using assms(1,2) unfolding wave_loop.simps [of "serial w" out cur walked 1] plan Let_def
    by (simp only: fetch list.distinct zip.simps zip_Cons_Cons list.case if_False sum.case fanout_ops fanout_assemble last.simps if_True list.size)
       (simp add: width_serial split: sum.splits)
qed

lemma assemble_Cons:
  "assemble w ((bk, p) # rest) out =
     (case assemble w [(bk, p)] out of Inl r \<Rightarrow> Inl r | Inr out' \<Rightarrow> assemble w rest out')"
  by (simp add: Let_def)

text \<open>A wave fetched at once leaves the walk where the serial walk gets by fetching its buckets one by one.\<close>

lemma wave_serial:
  assumes "fetchWave w (plan_loop w cur width walked) = Inr pages" "plan_loop w cur width walked \<noteq> []"
  shows "wave_loop (serial w) out cur walked 1 =
    (case assemble w (zip (plan_loop w cur width walked) pages) out of
       Inl r \<Rightarrow> r
     | Inr out' \<Rightarrow> wave_loop (serial w) out' (advance w (last (plan_loop w cur width walked)))
         (walked + length (plan_loop w cur width walked)) 1)"
  using assms
proof (induction width arbitrary: cur walked pages out)
  case (Suc width)
  have open_cur: "\<not> crossedFloor w cur" "walked < bw_maxBuckets w"
    using Suc.prems(2) by (auto split: if_splits)
  let ?rest = "plan_loop w (advance w cur) width (walked + 1)"
  have plan: "plan_loop w cur (Suc width) walked = cur # ?rest" using open_cur by simp
  obtain p ps where p: "fetch_at w cur = Inr p" "pages = p # ps" "fetchWave w ?rest = Inr ps"
    using Suc.prems(1) plan by (auto split: sum.splits)
  note one = serial_step [OF open_cur p(1), of out]
  show ?case
  proof (cases "?rest = []")
    case True
    then show ?thesis using one plan p by (simp split: sum.splits)
  next
    case False
    show ?thesis
    proof (cases "assemble w [(cur, p)] out")
      case (Inl r)
      then show ?thesis using one plan p assemble_Cons [of w cur p "zip ?rest ps" out] by simp
    next
      case (Inr out')
      have "wave_loop (serial w) out' (advance w cur) (walked + 1) 1 =
          (case assemble w (zip ?rest ps) out' of Inl r \<Rightarrow> r
           | Inr out'' \<Rightarrow> wave_loop (serial w) out'' (advance w (last ?rest)) (walked + 1 + length ?rest) 1)"
        by (rule Suc.IH [OF p(3) False])
      then show ?thesis
        using one plan p Inr False assemble_Cons [of w cur p "zip ?rest ps" out] by (simp split: sum.splits)
    qed
  qed
qed simp

lemma plan_nonempty: "0 < width \<Longrightarrow> \<not> crossedFloor w cur \<Longrightarrow> walked < bw_maxBuckets w \<Longrightarrow> plan_loop w cur width walked \<noteq> []"
  by (cases width) auto

lemma wave_loop_serial:
  assumes "wave_loop w out cur walked width = Inr r" "0 < width" "0 < bw_fanout w"
  shows "wave_loop (serial w) out cur walked 1 = Inr r"
  using assms
proof (induction w out cur walked width rule: wave_loop.induct)
  case (1 w out cur walked width)
  show ?case
  proof (cases "crossedFloor w cur \<or> bw_maxBuckets w \<le> walked")
    case True
    then show ?thesis using "1.prems"(1) by (subst wave_loop.simps) (subst (asm) wave_loop.simps, auto)
  next
    case False
    let ?bs = "planWave w cur width walked"
    have ne: "?bs \<noteq> []" using False "1.prems"(2) by (simp add: planWave_def plan_nonempty)
    obtain pages where pages: "fetchWave w ?bs = Inr pages"
      using "1.prems"(1) False ne by (subst (asm) wave_loop.simps) (auto simp: Let_def split: sum.splits)
    note wide = wave_serial [OF pages [unfolded planWave_def] ne [unfolded planWave_def], of out, folded planWave_def]
    show ?thesis
    proof (cases "assemble w (zip ?bs pages) out")
      case (Inl res)
      then show ?thesis using wide pages "1.prems"(1) False ne by (subst (asm) wave_loop.simps) (simp add: Let_def)
    next
      case (Inr out')
      let ?width = "adaptiveWaveWidth (length out') (walked + length ?bs) (bw_pageSize w - length out') (bw_fanout w)"
      have "wave_loop w out' (advance w (last ?bs)) (walked + length ?bs) ?width = Inr r"
        using Inr pages "1.prems"(1) False ne by (subst (asm) wave_loop.simps) (simp add: Let_def)
      then have "wave_loop (serial w) out' (advance w (last ?bs)) (walked + length ?bs) 1 = Inr r"
        using "1.IH" [OF _ _ refl ne pages Inr refl] False width_pos [OF "1.prems"(3)] "1.prems"(3) by simp
      then show ?thesis using wide Inr by simp
    qed
  qed
qed

text \<open>C32: The fan-out changes only the cost of a read. Whatever the configured width, a walk that succeeds
  returns the very page and cursor the serial walk returns, which fetches one bucket at a time.\<close>

theorem fanout_parity:
  assumes "run w = Inr page" "0 < bw_fanout w"
  shows "run (w\<lparr>bw_fanout := 1\<rparr>) = Inr page"
  using wave_loop_serial [of w "[]" "bw_startBucket w" 0 1 page] assms by (simp add: run_def)

definition sparse_walk :: "nat bucketWalk" where
  "sparse_walk = \<lparr>bw_sizer = \<lparr>windowMs = 10\<rparr>, bw_direction = walkDesc, bw_startBucket = 30, bw_floorBucket = 0, bw_maxBuckets = 9,
     bw_pageSize = 5, bw_initialState = [], bw_fanout = 3,
     bw_fetch = (\<lambda>b first s n. Inr \<lparr>bp_rows = take n (if b = 20 then [7, 8] else if b = 0 then [9] else []), bp_resumeState = []\<rparr>)\<rparr>"

lemmas sparse_walk_eval = sparse_walk_def crossedFloor_def planWave_def advance_def Prev_def baseState_def numeral_eq_Suc

lemma sparse_walk_runs: "run sparse_walk = Inr (terminalPage [7, 8, 9])"
proof -
  have "wave_loop sparse_walk [] 30 0 1 = wave_loop sparse_walk [] 20 1 (adaptiveWaveWidth 0 1 5 3)"
    by (subst wave_loop.simps) (simp add: sparse_walk_eval)
  moreover have "adaptiveWaveWidth 0 1 5 3 = 3" by (simp add: adaptiveWaveWidth_def)
  moreover have "wave_loop sparse_walk [] 20 1 3 = wave_loop sparse_walk [7, 8, 9] (- 10) 4 (adaptiveWaveWidth 3 4 2 3)"
    by (subst wave_loop.simps) (simp add: sparse_walk_eval)
  moreover have "wave_loop sparse_walk [7, 8, 9] (- 10) 4 k = Inr (terminalPage [7, 8, 9])" for k
    by (subst wave_loop.simps) (simp add: sparse_walk_eval)
  ultimately show ?thesis by (simp add: run_def sparse_walk_def)
qed

theorem fanout_parity_witness: "run (sparse_walk\<lparr>bw_fanout := 1\<rparr>) = Inr (terminalPage [7, 8, 9])"
  by (rule fanout_parity [OF sparse_walk_runs]) (simp add: sparse_walk_def)

end
