(* ===== verification/Bucket_Read.thy ===== *)
theory Bucket_Read
  imports Bucket_Props
begin

text \<open>
  Reading a whole range by following the cursors. \<open>bucket_source\<close> is the contract a bucket fetcher gives the
  walk (a fetch honours its limit exactly and its page state resumes after the rows it returned); \<open>cassandra\<close>
  is what the driver and the table promise. The four readers of the repository are instances of the first
  inside the second, so one proof of completeness serves them all.
\<close>

section \<open>The buckets of a range\<close>

definition step_bucket :: "walkDirection \<Rightarrow> int \<Rightarrow> int \<Rightarrow> int" where
  "step_bucket d win b = (if d = walkDesc then b - win else b + win)"

definition beyond :: "walkDirection \<Rightarrow> int \<Rightarrow> int \<Rightarrow> bool" where
  "beyond d flr b = (if d = walkDesc then b < flr else b > flr)"

function span :: "walkDirection \<Rightarrow> int \<Rightarrow> int \<Rightarrow> int \<Rightarrow> int list" where
  "span d win flr b = (if win \<le> 0 \<or> beyond d flr b then [] else b # span d win flr (step_bucket d win b))"
  by auto
termination
  by (relation "measure (\<lambda>(d, win, flr, b). nat (if d = walkDesc then b - flr + 1 else flr - b + 1))")
     (auto simp: beyond_def step_bucket_def split: if_splits)

declare span.simps [simp del]

lemma span_beyond: "beyond d flr b \<Longrightarrow> span d win flr b = []"
  by (simp add: span.simps)

lemma span_Cons: "0 < win \<Longrightarrow> \<not> beyond d flr b \<Longrightarrow> span d win flr b = b # span d win flr (step_bucket d win b)"
  by (subst span.simps) simp

lemma beyond_trans: "beyond d a b \<Longrightarrow> beyond d b c \<Longrightarrow> beyond d a c"
  by (auto simp: beyond_def split: if_splits)

lemma beyond_step: "0 < win \<Longrightarrow> beyond d b (step_bucket d win b)"
  by (simp add: beyond_def step_bucket_def)

lemma span_suffix: "c \<in> set (span d win flr b) \<Longrightarrow> \<exists>pre. span d win flr b = pre @ span d win flr c \<and> (pre = [] \<longleftrightarrow> c = b)"
proof (induction d win flr b rule: span.induct)
  case (1 d win flr b)
  show ?case
  proof (cases "c = b")
    case True then show ?thesis by simp
  next
    case False
    have opn: "0 < win" "\<not> beyond d flr b" using "1.prems" by (auto simp: span.simps split: if_splits)
    then have "c \<in> set (span d win flr (step_bucket d win b))" using "1.prems" False by (simp add: span_Cons)
    then obtain pre where "span d win flr (step_bucket d win b) = pre @ span d win flr c" using "1.IH" opn by auto
    then show ?thesis using opn False span_Cons by (intro exI [of _ "b # pre"]) simp
  qed
qed

lemma span_members: "c \<in> set (span d win flr b) \<Longrightarrow> \<not> beyond d flr c \<and> (c = b \<or> beyond d b c)"
proof (induction d win flr b rule: span.induct)
  case (1 d win flr b)
  have opn: "0 < win" "\<not> beyond d flr b" using "1.prems" by (auto simp: span.simps split: if_splits)
  then consider "c = b" | "c \<in> set (span d win flr (step_bucket d win b))" using "1.prems" by (auto simp: span_Cons)
  then show ?case
  proof cases
    case 2
    then show ?thesis using "1.IH" opn beyond_step [of win d b] beyond_trans [of d b "step_bucket d win b" c] by auto
  qed (use opn in simp)
qed

lemma span_next:
  assumes "c \<in> set (span d win flr b)" "0 < win"
  shows "beyond d flr (step_bucket d win c) \<or> step_bucket d win c \<in> set (span d win flr b)"
proof -
  obtain pre where "span d win flr b = pre @ span d win flr c" using span_suffix [OF assms(1)] by blast
  moreover have "span d win flr c = c # span d win flr (step_bucket d win c)"
    using span_members [OF assms(1)] assms(2) by (simp add: span_Cons)
  moreover have "\<not> beyond d flr x \<Longrightarrow> x \<in> set (span d win flr x)" for x
    using span_Cons [OF assms(2)] by simp
  ultimately show ?thesis by auto
qed

lemma walk_ops:
  "advance w b = step_bucket (bw_direction w) (windowMs (bw_sizer w)) b"
  "crossedFloor w b = beyond (bw_direction w) (bw_floorBucket w) b"
  by (auto simp: advance_def step_bucket_def crossedFloor_def beyond_def Prev_def Next_def)

section \<open>The contract of a bucket fetcher\<close>

definition content :: "(int \<Rightarrow> nat list \<Rightarrow> 'a list) \<Rightarrow> int list \<Rightarrow> nat list \<Rightarrow> 'a list" where
  "content R bs s = (case bs of [] \<Rightarrow> [] | b # cs \<Rightarrow> R b s @ concat (map (\<lambda>c. R c []) cs))"

lemma content_simps [simp]: "content R [] s = []" "content R (b # cs) s = R b s @ content R cs []"
  by (auto simp: content_def split: list.splits)

definition good_state :: "nat list \<Rightarrow> bool" where
  "good_state s \<longleftrightarrow> bytes s \<and> length s \<le> maxEncodedPageState"

text \<open>\<open>R b s\<close> are the rows of bucket \<open>b\<close> from page state \<open>s\<close> on; the first-bucket predicate matters only at the
  range's own first bucket \<open>b0\<close>.\<close>

locale bucket_source =
  fixes R :: "int \<Rightarrow> nat list \<Rightarrow> 'a list"
    and fetch :: "'a bucketFetcher"
    and valid :: "int \<Rightarrow> nat list \<Rightarrow> bool"
    and direction :: walkDirection
    and sizer :: Sizer
    and b0 :: int
    and flr :: int
  assumes window_pos: "0 < windowMs sizer"
    and valid_Nil: "valid b []"
    and fetch_ok: "valid b s \<Longrightarrow> 0 < n \<Longrightarrow> b = b0 \<and> first \<or> beyond direction b0 b \<Longrightarrow>
      \<exists>s'. fetch b first s n = Inr \<lparr>bp_rows = take n (R b s), bp_resumeState = s'\<rparr>
        \<and> (if s' = [] then length (R b s) \<le> n
           else n \<le> length (R b s) \<and> valid b s' \<and> good_state s' \<and> R b s' = drop n (R b s))"
begin

definition walk :: "int \<Rightarrow> nat list \<Rightarrow> nat \<Rightarrow> nat \<Rightarrow> nat \<Rightarrow> 'a bucketWalk" where
  "walk start s maxBuckets pageSize fanout =
     \<lparr>bw_sizer = sizer, bw_direction = direction, bw_startBucket = start, bw_floorBucket = flr, bw_maxBuckets = maxBuckets,
      bw_pageSize = pageSize, bw_initialState = s, bw_fanout = fanout, bw_fetch = fetch\<rparr>"

abbreviation rest :: "int \<Rightarrow> int list" where
  "rest b \<equiv> span direction (windowMs sizer) flr b"

text \<open>What a page leaves to be read: nothing, or the rows from its cursor on.\<close>

definition page_of :: "'a list \<Rightarrow> int \<Rightarrow> 'a pageResult \<Rightarrow> bool" where
  "page_of rows b p \<longleftrightarrow>
     (if pg_HasNext p then
        (\<exists>c s. encodeBucketCursor c s = Inr (pg_NextCursor p) \<and> c \<in> set (rest b) \<and> valid c s \<and> good_state s
          \<and> rows = pg_Rows p @ content R (rest c) s \<and> (pg_Rows p \<noteq> [] \<or> c \<noteq> b))
      else rows = pg_Rows p)"

lemma resume_page:
  assumes "int64_range c" "c \<in> set (rest b)" "valid c s" "s = [] \<or> good_state s"
    "rows = out @ content R (rest c) s" "out \<noteq> [] \<or> c \<noteq> b"
  shows "\<exists>p. resumeAtBucket out c s = Inr p \<and> page_of rows b p \<and> pg_Rows p = out"
proof -
  have g: "good_state s" using assms(4) by (auto simp: good_state_def)
  then obtain cur where "encodeBucketCursor c s = Inr cur"
    using decode_encode_cursor [of s c] assms(1) by (auto simp: good_state_def)
  then show ?thesis using assms g by (auto simp: resumeAtBucket_def page_of_def)
qed

lemma terminal_page: "rows = out \<Longrightarrow> page_of rows b (terminalPage out)"
  by (simp add: page_of_def terminalPage_def)

end

context bucket_source
begin

lemma walk_fields [simp]:
  "bw_sizer (walk b s m k f) = sizer" "bw_direction (walk b s m k f) = direction" "bw_startBucket (walk b s m k f) = b"
  "bw_floorBucket (walk b s m k f) = flr" "bw_maxBuckets (walk b s m k f) = m" "bw_pageSize (walk b s m k f) = k"
  "bw_initialState (walk b s m k f) = s" "bw_fanout (walk b s m k f) = f" "bw_fetch (walk b s m k f) = fetch"
  by (simp_all add: walk_def)

definition in_range :: "int \<Rightarrow> bool" where
  "in_range start \<longleftrightarrow> (start = b0 \<or> beyond direction b0 start) \<and> (\<forall>c \<in> set (rest start). int64_range c)"

lemma in_range_fetch:
  assumes "in_range start" "cur = start \<or> beyond direction start cur"
  shows "cur = b0 \<and> cur = start \<or> beyond direction b0 cur"
  using assms beyond_trans unfolding in_range_def by metis

text \<open>The page fills at a bucket: what the three ways to resume leave unread is exactly what is left.\<close>

lemma fill_page:
  assumes w: "w = walk start s0 m k f" and len: "length out < k"
    and range: "in_range start" "cur \<in> set (rest start)" "cur = start \<or> beyond direction start cur"
    and st: "s = baseState w cur" "valid cur s"
    and p: "fetch cur (cur = start) s k = Inr p" "taken = min (k - length out) (length (bp_rows p))"
    and full: "length (out @ take taken (bp_rows p)) = k"
  shows "\<exists>q. resumeAfterFill w (out @ take taken (bp_rows p)) cur p taken = Inr q
    \<and> page_of (out @ content R (rest cur) s) start q \<and> pg_Rows q = out @ take taken (bp_rows p)"
proof -
  have ok: "cur = b0 \<and> cur = start \<or> beyond direction b0 cur" using range(1,3) by (rule in_range_fetch)
  have k: "0 < k" using len by simp
  obtain s' where s': "bp_rows p = take k (R cur s)" "bp_resumeState p = s'"
    "if s' = [] then length (R cur s) \<le> k
     else k \<le> length (R cur s) \<and> valid cur s' \<and> good_state s' \<and> R cur s' = drop k (R cur s)"
    using fetch_ok [OF st(2) k ok] p(1) by auto
  have tk: "0 < taken" "taken \<le> k" "take taken (bp_rows p) = take taken (R cur s)"
    using full len p(2) s'(1) by (auto simp: min_def)
  have ir: "int64_range cur" using range by (simp add: in_range_def)
  have opn: "\<not> beyond direction flr cur" using span_members [OF range(2)] by simp
  have cur_rest: "content R (rest cur) s = R cur s @ content R (rest (step_bucket direction (windowMs sizer) cur)) []"
    using opn window_pos by (simp add: span_Cons)
  define out' where "out' = out @ take taken (bp_rows p)"
  have out': "out' \<noteq> []" using full k by (auto simp: out'_def)
  have "\<exists>q. resumeAfterFill w out' cur p taken = Inr q \<and> page_of (out @ content R (rest cur) s) start q \<and> pg_Rows q = out'"
  proof (cases "taken < length (bp_rows p)")
    case True
    obtain a where a: "fetch cur (cur = start) s taken = Inr a" "bp_resumeState a \<noteq> []"
      "valid cur (bp_resumeState a)" "good_state (bp_resumeState a)" "R cur (bp_resumeState a) = drop taken (R cur s)"
      using fetch_ok [OF st(2) tk(1) ok] True s'(1) by (auto split: if_splits)
    have "out @ content R (rest cur) s = out' @ content R (rest cur) (bp_resumeState a)"
      using cur_rest a(5) tk(3) opn window_pos by (simp add: out'_def span_Cons)
    then show ?thesis
      using resume_page [OF ir range(2) a(3), of "out @ content R (rest cur) s" out'] True a w st(1) out'
      by (simp add: resumeAfterFill_def)
  next
    case False
    then have all: "take taken (bp_rows p) = bp_rows p" by simp
    show ?thesis
    proof (cases "s' = []")
      case notdone: False
      have "out @ content R (rest cur) s = out' @ content R (rest cur) s'"
        using cur_rest s' all notdone opn window_pos by (simp add: out'_def span_Cons)
      then show ?thesis
        using resume_page [OF ir range(2), of s' "out @ content R (rest cur) s" out'] False notdone s' w out'
        by (simp add: resumeAfterFill_def)
    next
      case True
      let ?n = "step_bucket direction (windowMs sizer) cur"
      have rows: "out @ content R (rest cur) s = out' @ content R (rest ?n) []"
        using cur_rest s' all True by (simp add: out'_def)
      show ?thesis
      proof (cases "beyond direction flr ?n")
        case crossed: True
        then show ?thesis
          using rows False True s' w terminal_page [of "out'" "out'" start]
          by (simp add: resumeAfterFill_def walk_ops Let_def span_beyond terminalPage_def)
      next
        case inside: False
        obtain pre where "rest start = pre @ rest cur" using span_suffix [OF range(2)] by blast
        then have mem: "?n \<in> set (rest start)" using opn inside window_pos by (simp add: span_Cons)
        then show ?thesis
          using resume_page [OF _ mem valid_Nil, of "out @ content R (rest cur) s" out'] rows range(1) False True inside s' w out'
          by (simp add: resumeAfterFill_def walk_ops Let_def in_range_def)
      qed
    qed
  qed
  then show ?thesis by (simp add: out'_def)
qed

end

context bucket_source
begin

lemma fetch_page:
  assumes "valid b s" "0 < n" "b = b0 \<and> first \<or> beyond direction b0 b"
  shows "\<exists>p. fetch b first s n = Inr p \<and> bp_rows p = take n (R b s)
    \<and> (if bp_resumeState p = [] then length (R b s) \<le> n else n \<le> length (R b s))"
proof -
  obtain s' where "fetch b first s n = Inr \<lparr>bp_rows = take n (R b s), bp_resumeState = s'\<rparr>"
    "if s' = [] then length (R b s) \<le> n
     else n \<le> length (R b s) \<and> valid b s' \<and> good_state s' \<and> R b s' = drop n (R b s)"
    using fetch_ok [OF assms] by blast
  then show ?thesis by (simp split: if_splits)
qed

lemma loop_page:
  assumes "w = walk start s0 m k f" "0 < m" "in_range start" "valid start s0"
    "length out < k" "walked = 0 \<and> cur = start \<or> 0 < walked \<and> beyond direction start cur"
    "beyond direction flr cur \<or> cur \<in> set (rest start)"
  shows "\<exists>p. wave_loop (serial w) out cur walked 1 = Inr p
    \<and> page_of (out @ content R (rest cur) (baseState w cur)) start p \<and> length (pg_Rows p) \<le> k"
  using assms
proof (induction "m - walked" arbitrary: out cur walked rule: less_induct)
  case less
  note w = less.prems(1)
  have base: "valid cur (baseState w cur)" "0 < walked \<Longrightarrow> baseState w cur = []"
    using less.prems(1,4,6) valid_Nil by (auto simp: baseState_def beyond_def split: if_splits)
  consider (crossed) "beyond direction flr cur" | (budget) "\<not> beyond direction flr cur" "m \<le> walked"
    | (fetch) "\<not> beyond direction flr cur" "walked < m" by linarith
  then show ?case
  proof cases
    case crossed
    then show ?thesis
      using less.prems(5) w terminal_page [of out out start]
      by (subst wave_loop.simps) (simp add: walk_ops span_beyond terminalPage_def)
  next
    case budget
    then have mem: "cur \<in> set (rest start)" "0 < walked" using less.prems(2,7) by auto
    then have "cur \<noteq> start" "int64_range cur"
      using less.prems(3,6) by (auto simp: in_range_def beyond_def split: if_splits)
    then show ?thesis
      using resume_page [OF _ mem(1) valid_Nil, of "out @ content R (rest cur) (baseState w cur)" out] base mem(2) budget less.prems(5) w
      by (subst wave_loop.simps) (auto simp: walk_ops)
  next
    case fetch
    have mem: "cur \<in> set (rest start)" using fetch(1) less.prems(7) by blast
    have at_start: "cur = start \<or> beyond direction start cur" using less.prems(6) by blast
    have k: "0 < k" using less.prems(5) by simp
    obtain p where p: "fetch cur (cur = start) (baseState w cur) k = Inr p" "bp_rows p = take k (R cur (baseState w cur))"
      "if bp_resumeState p = [] then length (R cur (baseState w cur)) \<le> k else k \<le> length (R cur (baseState w cur))"
      using fetch_page [OF base(1) k in_range_fetch [OF less.prems(3) at_start]] by blast
    have step: "wave_loop (serial w) out cur walked 1 =
      (case assemble w [(cur, p)] out of Inl r \<Rightarrow> r
       | Inr out' \<Rightarrow> wave_loop (serial w) out' (advance w cur) (walked + 1) 1)"
      by (rule serial_step) (use fetch p(1) w in \<open>simp_all add: walk_ops\<close>)
    define taken where "taken = min (k - length out) (length (bp_rows p))"
    show ?thesis
    proof (cases "length (out @ take taken (bp_rows p)) = k")
      case True
      obtain q where q: "resumeAfterFill w (out @ take taken (bp_rows p)) cur p taken = Inr q"
        "page_of (out @ content R (rest cur) (baseState w cur)) start q" "pg_Rows q = out @ take taken (bp_rows p)"
        using fill_page [OF w less.prems(5,3) mem at_start refl base(1) p(1) taken_def True] by blast
      then show ?thesis using step True w by (simp add: taken_def [symmetric] Let_def)
    next
      case False
      have all: "take taken (bp_rows p) = R cur (baseState w cur)" "length (out @ R cur (baseState w cur)) < k"
        using False p(2,3) less.prems(5) by (cases "bp_resumeState p = []"; simp add: taken_def min_def split: if_splits)+
      have go: "wave_loop (serial w) out cur walked 1
          = wave_loop (serial w) (out @ R cur (baseState w cur)) (advance w cur) (walked + 1) 1"
      proof -
        have "assemble w [(cur, p)] out = Inr (out @ take taken (bp_rows p))"
          using False by (simp only: assemble.simps Let_def w walk_fields taken_def [symmetric] if_False)
        then show ?thesis using step all(1) by simp
      qed
      have adv: "advance w cur = step_bucket direction (windowMs sizer) cur" using w by (simp add: walk_ops)
      have past: "beyond direction start (advance w cur)"
        using adv at_start beyond_step [OF window_pos] beyond_trans by metis
      have inner: "beyond direction flr (advance w cur) \<or> advance w cur \<in> set (rest start)"
        using span_next [OF mem window_pos] adv by simp
      have less_budget: "m - (walked + 1) < m - walked" using fetch(2) by simp
      have moved: "walked + 1 = 0 \<and> advance w cur = start \<or> 0 < walked + 1 \<and> beyond direction start (advance w cur)"
        using past by simp
      obtain q where "wave_loop (serial w) (out @ R cur (baseState w cur)) (advance w cur) (walked + 1) 1 = Inr q"
        "page_of ((out @ R cur (baseState w cur)) @ content R (rest (advance w cur)) (baseState w (advance w cur))) start q"
        "length (pg_Rows q) \<le> k"
        using less.hyps [OF less_budget less.prems(1-4) all(2) moved inner] by blast
      moreover have "baseState w (advance w cur) = []"
        using past w by (auto simp: baseState_def beyond_def split: if_splits)
      ultimately show ?thesis using go adv fetch(1) window_pos by (simp add: span_Cons)
    qed
  qed
qed

text \<open>A page for any fan-out: no hypothesis on the width remains, since a wide wave fetches only buckets the
  contract covers.\<close>

lemma fetchWave_ok:
  assumes "w = walk start s0 m k f" "0 < k" "in_range start" "valid start s0" "set bs \<subseteq> set (rest start)"
  shows "\<exists>ps. fetchWave w bs = Inr ps"
  using assms(5)
proof (induction bs)
  case (Cons b bs)
  have "b = start \<or> beyond direction start b" using Cons.prems span_members [of b] by (meson list.set_intros(1) subsetD)
  moreover have "valid b (baseState w b)" using assms(1,4) valid_Nil by (auto simp: baseState_def)
  ultimately obtain p where "fetch b (b = start) (baseState w b) k = Inr p"
    using fetch_ok [OF _ assms(2) in_range_fetch [OF assms(3)]] by blast
  then show ?case using Cons assms(1) by auto
qed simp

end

context bucket_source
begin

lemma plan_in_span:
  "w = walk start s0 m k f \<Longrightarrow> set (plan_loop w cur width walked) \<subseteq> set (rest cur)"
proof (induction width arbitrary: cur walked)
  case (Suc width)
  then show ?case
    using window_pos Suc.IH [OF Suc.prems, of "step_bucket direction (windowMs sizer) cur" "Suc walked"]
    by (auto simp: walk_ops span_Cons)
qed simp

lemma span_subset: "c \<in> set (span d win fl b) \<Longrightarrow> set (span d win fl c) \<subseteq> set (span d win fl b)"
  using span_suffix by fastforce

lemma wide_eq:
  assumes "w = walk start s0 m k f" "0 < f" "0 < k" "in_range start" "valid start s0" "0 < width"
    "beyond direction flr cur \<or> cur \<in> set (rest start)"
  shows "wave_loop w out cur walked width = wave_loop (serial w) out cur walked 1"
  using assms
proof (induction w out cur walked width rule: wave_loop.induct)
  case (1 w out cur walked width)
  note w = "1.prems"(1)
  show ?case
  proof (cases "crossedFloor w cur \<or> bw_maxBuckets w \<le> walked")
    case True
    then show ?thesis
      unfolding wave_loop.simps [of w out cur walked width] wave_loop.simps [of "serial w" out cur walked 1] by auto
  next
    case False
    let ?bs = "planWave w cur width walked"
    have cur: "cur \<in> set (rest start)" using False "1.prems"(7) w by (simp add: walk_ops)
    have ne: "?bs \<noteq> []" using False "1.prems"(6) by (simp add: planWave_def plan_nonempty)
    have sub: "set ?bs \<subseteq> set (rest start)"
      using plan_in_span [OF w, of cur width walked] span_subset [OF cur] by (auto simp: planWave_def)
    obtain pages where pages: "fetchWave w ?bs = Inr pages" using fetchWave_ok [OF w "1.prems"(3-5) sub] by blast
    note wide = wave_serial [OF pages [unfolded planWave_def] ne [unfolded planWave_def], of out, folded planWave_def]
    show ?thesis
    proof (cases "assemble w (zip ?bs pages) out")
      case (Inl res)
      then show ?thesis
        using wide pages False ne unfolding wave_loop.simps [of w out cur walked width] by (simp add: Let_def)
    next
      case (Inr out')
      let ?width = "adaptiveWaveWidth (length out') (walked + length ?bs) (bw_pageSize w - length out') (bw_fanout w)"
      have "last ?bs \<in> set (rest start)" using sub ne by auto
      then have adv: "beyond direction flr (advance w (last ?bs)) \<or> advance w (last ?bs) \<in> set (rest start)"
        using span_next [OF _ window_pos] w by (simp add: walk_ops)
      have "0 < ?width" using w "1.prems"(2) by (intro width_pos) simp
      then have "wave_loop w out' (advance w (last ?bs)) (walked + length ?bs) ?width
          = wave_loop (serial w) out' (advance w (last ?bs)) (walked + length ?bs) 1"
        using "1.IH" [OF _ _ refl ne pages Inr refl w "1.prems"(2-5) _ adv] False by blast
      then show ?thesis
        using wide pages False ne Inr unfolding wave_loop.simps [of w out cur walked width] by (simp add: Let_def)
    qed
  qed
qed

text \<open>One page, at any fan-out.\<close>

lemma run_page:
  assumes "w = walk start s0 m k f" "0 < m" "0 < k" "0 < f" "in_range start" "valid start s0"
    "beyond direction flr start \<or> start \<in> set (rest start)"
  shows "\<exists>p. run w = Inr p \<and> page_of (content R (rest start) s0) start p \<and> length (pg_Rows p) \<le> k"
proof -
  have "baseState w start = s0" using assms(1) by (simp add: baseState_def)
  then show ?thesis
    using loop_page [OF assms(1,2,5,6), of "[]" 0 start] wide_eq [OF assms(1,4,3,5,6), of 1 start "[]" 0] assms(1,3,7)
    by (simp add: run_def)
qed

lemma start_in_rest: "beyond direction flr b \<or> b \<in> set (rest b)"
  using span_Cons [OF window_pos, of direction flr b] by (metis list.set_intros(1))

end

section \<open>Following the cursors\<close>

text \<open>A client that asks for a page, and for the next one as long as there is a cursor. \<open>None\<close> means that the
  given number of requests was not enough.\<close>

fun read_pages :: "nat \<Rightarrow> (PageRequest \<Rightarrow> goerr + 'm pageResult) \<Rightarrow> int \<Rightarrow> string \<Rightarrow> (goerr + 'm list list) option" where
  "read_pages 0 get n cursor = None"
| "read_pages (Suc fuel) get n cursor =
     (case ParsePageRequest cursor n of Inl e \<Rightarrow> Some (Inl e) | Inr req \<Rightarrow>
      case get req of Inl e \<Rightarrow> Some (Inl e) | Inr p \<Rightarrow>
      if \<not> pg_HasNext p then Some (Inr [pg_Rows p])
      else case read_pages fuel get n (pg_NextCursor p) of
        None \<Rightarrow> None | Some (Inl e) \<Rightarrow> Some (Inl e) | Some (Inr ps) \<Rightarrow> Some (Inr (pg_Rows p # ps)))"

context bucket_source
begin

text \<open>The request handler over this source.\<close>

definition serve :: "nat \<Rightarrow> nat \<Rightarrow> PageRequest \<Rightarrow> goerr + 'a pageResult" where
  "serve m fanout req = (case startBucketFromCursor req direction b0 flr of
     Inl err \<Rightarrow> Inl err
   | Inr (start, s) \<Rightarrow> walkBuckets sizer direction start flr m (nat (pr_PageSize req)) s fanout fetch)"

lemma walkBuckets_walk:
  "walkBuckets sizer direction start flr m k s fanout fetch = run (walk start s m k (if fanout < 1 then 1 else fanout))"
  by (simp add: walkBuckets_def walk_def)

lemma serve_page:
  assumes "startBucketFromCursor req direction b0 flr = Inr (start, s)" "0 < m" "1 \<le> pr_PageSize req" "in_range start" "valid start s"
  shows "\<exists>p. serve m fanout req = Inr p \<and> page_of (content R (rest start) s) start p \<and> int (length (pg_Rows p)) \<le> pr_PageSize req"
  using run_page [OF refl assms(2) _ _ assms(4,5) start_in_rest, of "nat (pr_PageSize req)" "if fanout < 1 then 1 else fanout"] assms(1,3)
  by (auto simp: serve_def walkBuckets_walk)

lemma parse_cursor:
  assumes "encodeBucketCursor c s = Inr cur" "good_state s" "int64_range c" "c = b0 \<or> beyond direction b0 c" "\<not> beyond direction flr c"
  shows "\<exists>req. ParsePageRequest cur n = Inr req \<and> startBucketFromCursor req direction b0 flr = Inr (c, s)
    \<and> 1 \<le> pr_PageSize req \<and> pr_PageSize req \<le> 100"
proof -
  obtain c' req where "encodeBucketCursor c s = Inr c'" "ParsePageRequest c' n = Inr req"
    "startBucketFromCursor req walkDesc b0 flr = Inr (if flr \<le> c \<and> c \<le> b0 then (c, s) else (b0, []))"
    "startBucketFromCursor req walkAsc b0 flr = Inr (if b0 \<le> c \<and> c \<le> flr then (c, s) else (b0, []))"
    "1 \<le> pr_PageSize req \<and> pr_PageSize req \<le> 100"
    using cursor_trip [of s c n b0 flr] assms(2,3) by (auto simp: good_state_def)
  then show ?thesis using assms(1,4,5) by (cases direction) (auto simp: beyond_def)
qed

end

context bucket_source
begin

lemma in_range_later:
  assumes "in_range start" "c \<in> set (rest start)"
  shows "in_range c" "int64_range c" "\<not> beyond direction flr c" "c = b0 \<or> beyond direction b0 c"
proof -
  have past: "c = start \<or> beyond direction start c" "\<not> beyond direction flr c" using span_members [OF assms(2)] by auto
  then show *: "c = b0 \<or> beyond direction b0 c" "\<not> beyond direction flr c"
    using assms(1) beyond_trans unfolding in_range_def by metis+
  show "int64_range c" "in_range c" using assms * span_subset [OF assms(2)] by (auto simp: in_range_def)
qed

text \<open>From any starting point the pages add up to what is left, however many buckets or rows a page covers.\<close>

lemma read_all:
  assumes "0 < m" "in_range start" "valid start s"
    "ParsePageRequest cur n = Inr req" "startBucketFromCursor req direction b0 flr = Inr (start, s)"
    "1 \<le> pr_PageSize req" "pr_PageSize req \<le> 100"
  shows "\<exists>fuel pages. read_pages fuel (serve m fanout) n cur = Some (Inr pages)
    \<and> concat pages = content R (rest start) s \<and> (\<forall>p \<in> set pages. length p \<le> 100)"
  using assms
proof (induction "length (content R (rest start) s) + length (rest start)" arbitrary: start s cur req rule: less_induct)
  case less
  obtain p where p: "serve m fanout req = Inr p" "page_of (content R (rest start) s) start p" "int (length (pg_Rows p)) \<le> pr_PageSize req"
    using serve_page [OF less.prems(5,1,6,2,3)] by blast
  have len: "length (pg_Rows p) \<le> 100" using p(3) less.prems(7) by simp
  show ?case
  proof (cases "pg_HasNext p")
    case False
    then show ?thesis
      using p len less.prems(4) by (intro exI [of _ 1] exI [of _ "[pg_Rows p]"]) (simp add: page_of_def)
  next
    case True
    obtain c s' where c: "encodeBucketCursor c s' = Inr (pg_NextCursor p)" "c \<in> set (rest start)" "valid c s'" "good_state s'"
      "content R (rest start) s = pg_Rows p @ content R (rest c) s'" "pg_Rows p \<noteq> [] \<or> c \<noteq> start"
      using p(2) unfolding page_of_def if_P [OF True] by blast
    note later = in_range_later [OF less.prems(2) c(2)]
    obtain pre where pre: "rest start = pre @ rest c" "pre = [] \<longleftrightarrow> c = start" using span_suffix [OF c(2)] by blast
    have shrink: "length (content R (rest c) s') + length (rest c) < length (content R (rest start) s) + length (rest start)"
    proof -
      have "length (content R (rest start) s) = length (pg_Rows p) + length (content R (rest c) s')"
        "length (rest start) = length pre + length (rest c)"
        by (subst c(5), simp) (subst pre(1), simp)
      moreover have "0 < length (pg_Rows p) \<or> 0 < length pre" using c(6) pre(2) by blast
      ultimately show ?thesis by linarith
    qed
    obtain req' where req': "ParsePageRequest (pg_NextCursor p) n = Inr req'"
      "startBucketFromCursor req' direction b0 flr = Inr (c, s')" "1 \<le> pr_PageSize req'" "pr_PageSize req' \<le> 100"
      using parse_cursor [OF c(1,4) later(2,4,3)] by blast
    obtain fuel pages where ih: "read_pages fuel (serve m fanout) n (pg_NextCursor p) = Some (Inr pages)"
      "concat pages = content R (rest c) s'" "\<forall>q \<in> set pages. length q \<le> 100"
      using less.hyps [OF shrink less.prems(1) later(1) c(3) req'] by blast
    then show ?thesis
      using p True c(5) len less.prems(4) by (intro exI [of _ "Suc fuel"] exI [of _ "pg_Rows p # pages"]) simp
  qed
qed

lemma first_request:
  "\<exists>req. ParsePageRequest '''' n = Inr req \<and> startBucketFromCursor req direction b0 flr = Inr (b0, [])
    \<and> 1 \<le> pr_PageSize req \<and> pr_PageSize req \<le> 100"
  by (simp add: ParsePageRequest_def NewCursor_def startBucketFromCursor_def Encode_def Let_def
      defaultCassPageSize_def MaxPageSize_def)

text \<open>The whole range, from the first request on.\<close>

lemma read_range:
  assumes "0 < m" "int64_range b0" "int64_range flr"
  shows "\<exists>fuel pages. read_pages fuel (serve m fanout) n '''' = Some (Inr pages)
    \<and> concat pages = content R (rest b0) [] \<and> (\<forall>p \<in> set pages. length p \<le> 100)"
proof -
  have "int64_range c" if "c \<in> set (rest b0)" for c
    using span_members [OF that] assms(2,3) by (auto simp: beyond_def int64_range_def split: if_splits)
  then have range: "in_range b0" by (simp add: in_range_def)
  obtain req where "ParsePageRequest '''' n = Inr req" "startBucketFromCursor req direction b0 flr = Inr (b0, [])"
    "1 \<le> pr_PageSize req" "pr_PageSize req \<le> 100" using first_request by blast
  from read_all [OF assms(1) range valid_Nil this] show ?thesis .
qed

end

end
