(* ===== verification/Bucket_Table.thy ===== *)
theory Bucket_Table
  imports Bucket_Read
begin

text \<open>
  The message table behind the bucket walk: what the driver promises, that the repository's fetcher then meets
  the walk's contract, and that each of the four readers, followed page by page, returns exactly the rows of
  its time range.
\<close>

section \<open>The table and the driver\<close>

text \<open>The rows a query selects from a partition, which is kept newest first.\<close>

definition select :: "(string \<Rightarrow> int \<Rightarrow> 'r list) \<Rightarrow> ('r \<Rightarrow> int) \<Rightarrow> bucket_query \<Rightarrow> 'r list" where
  "select part created q =
     (let rows = filter (\<lambda>r. (case bq_after q of None \<Rightarrow> True | Some t \<Rightarrow> t < created r)
                           \<and> (case bq_before q of None \<Rightarrow> True | Some t \<Rightarrow> created r < t)) (part (bq_room q) (bq_bucket q)) in
      if bq_desc q then rows else rev rows)"

text \<open>\<open>left q s\<close> are the rows of a query from page state \<open>s\<close> on. A page holds at most the requested number of
  rows, possibly fewer; an empty next state means that nothing is left, any other resumes right after the
  page and brings the scan closer to its end. A page state is a position in the partition: two queries that
  select the same rows of one partition understand each other's states.\<close>

locale cassandra =
  fixes drv :: "'r driver"
    and dec :: "'r \<Rightarrow> goerr + 'm"
    and plain :: "'r \<Rightarrow> 'm"
    and part :: "string \<Rightarrow> int \<Rightarrow> 'r list"
    and created :: "'r \<Rightarrow> int"
    and left :: "bucket_query \<Rightarrow> nat list \<Rightarrow> 'r list"
    and ok :: "bucket_query \<Rightarrow> nat list \<Rightarrow> bool"
    and todo :: "bucket_query \<Rightarrow> nat list \<Rightarrow> nat"
    and sizer :: Sizer
  assumes window_pos: "0 < windowMs sizer"
    and dec_plain: "dec r = Inr (plain r)"
    and part_bucket: "r \<in> set (part room b) \<Longrightarrow> Of sizer (created r) = b"
    and part_order: "distinct (part room b) \<and> sorted_wrt (\<lambda>x y. created y \<le> created x) (part room b)"
    and ok_Nil: "ok q []"
    and left_Nil: "left q [] = select part created q"
    and page: "ok q s \<Longrightarrow> 0 < n \<Longrightarrow> \<exists>j s'. drv q s n = (take j (left q s), s', None) \<and> j \<le> n
      \<and> (if s' = [] then length (left q s) \<le> j
         else j \<le> length (left q s) \<and> ok q s' \<and> good_state s' \<and> left q s' = drop j (left q s) \<and> todo q s' < todo q s)"
    and same_position: "bq_room q = bq_room q' \<Longrightarrow> bq_bucket q = bq_bucket q' \<Longrightarrow> bq_desc q = bq_desc q' \<Longrightarrow>
      select part created q = select part created q' \<Longrightarrow> ok q s = ok q' s \<and> left q s = left q' s"
begin

lemma scan_plain: "scanMessagesUpTo dec rs k = Inr (map plain (take k rs))"
proof (induction rs arbitrary: k)
  case (Cons r rs) then show ?case by (cases k) (simp_all add: dec_plain)
qed simp

text \<open>Draining: the loop ends with exactly the rows asked for, or all there are.\<close>

definition drained :: "bucket_query \<Rightarrow> nat list \<Rightarrow> nat \<Rightarrow> 'm list \<Rightarrow> nat list \<Rightarrow> bool" where
  "drained q s n rows s' \<longleftrightarrow> rows = map plain (take n (left q s))
     \<and> (if s' = [] then length (left q s) \<le> n
        else n \<le> length (left q s) \<and> ok q s' \<and> good_state s' \<and> left q s' = drop n (left q s))"

lemma drained_step:
  assumes "j \<le> n" "j \<le> length (left q s)" "left q s' = drop j (left q s)" "drained q s' (n - j) got s''"
  shows "drained q s n (map plain (take j (left q s)) @ got) s''"
proof -
  have "take n (left q s) = take j (left q s) @ take (n - j) (left q s')" "drop n (left q s) = drop (n - j) (left q s')"
    using assms(1,3) take_add [of j "n - j" "left q s"] by (simp_all add: drop_drop)
  moreover have "length (left q s') = length (left q s) - j" using assms(3) by simp
  ultimately show ?thesis using assms(1,2,4) by (auto simp: drained_def split: if_splits)
qed

lemma drain_spec:
  assumes "ok q s" "length rows < limit"
  shows "\<exists>s' got. drain drv dec q limit rows s = Some (Inr \<lparr>bp_rows = rows @ got, bp_resumeState = s'\<rparr>)
    \<and> drained q s (limit - length rows) got s'"
  using assms
proof (induction "todo q s" arbitrary: rows s rule: less_induct)
  case less
  let ?n = "limit - length rows"
  have n: "0 < ?n" using less.prems(2) by simp
  obtain j s' where p: "drv q s ?n = (take j (left q s), s', None)" "j \<le> ?n"
    "if s' = [] then length (left q s) \<le> j
     else j \<le> length (left q s) \<and> ok q s' \<and> good_state s' \<and> left q s' = drop j (left q s) \<and> todo q s' < todo q s"
    using page [OF less.prems(1) n] by blast
  define got where "got = map plain (take j (left q s))"
  have scan: "scanMessagesUpTo dec (take j (left q s)) ?n = Inr got" using p(2) by (simp add: scan_plain got_def min_def)
  have step: "drain drv dec q limit rows s = (if s' = [] then Some (Inr \<lparr>bp_rows = rows @ got, bp_resumeState = []\<rparr>)
      else drain drv dec q limit (rows @ got) s')"
    using less.prems(2) p(1) scan by (subst drain.simps) simp
  show ?case
  proof (cases "s' = []")
    case True
    then show ?thesis using step p(2,3) by (intro exI [of _ "[]"] exI [of _ got]) (simp add: drained_def got_def)
  next
    case False
    have s': "j \<le> length (left q s)" "ok q s'" "good_state s'" "left q s' = drop j (left q s)" "todo q s' < todo q s"
      using p(3) False by auto
    have len: "length got = j" using s'(1) by (simp add: got_def)
    show ?thesis
    proof (cases "j = ?n")
      case True
      then have "drain drv dec q limit (rows @ got) s' = Some (Inr \<lparr>bp_rows = rows @ got, bp_resumeState = s'\<rparr>)"
        using len less.prems(2) by (subst drain.simps) simp
      then show ?thesis
        using step False True s' by (intro exI [of _ s'] exI [of _ got]) (simp add: drained_def got_def)
    next
      case short: False
      then have more: "length (rows @ got) < limit" using len p(2) by simp
      obtain s'' got' where ih: "drain drv dec q limit (rows @ got) s' = Some (Inr \<lparr>bp_rows = (rows @ got) @ got', bp_resumeState = s''\<rparr>)"
        "drained q s' (limit - length (rows @ got)) got' s''"
        using less.hyps [OF s'(5,2) more] by blast
      have "limit - length (rows @ got) = ?n - j" using len by simp
      then have "drained q s ?n (got @ got') s''"
        using drained_step [OF p(2) s'(1,4)] ih(2) by (simp add: got_def)
      then show ?thesis using step False ih(1) by (intro exI [of _ s''] exI [of _ "got @ got'"]) simp
    qed
  qed
qed

text \<open>So a reader meets the walk's contract, provided its first-bucket bound changes nothing past the first
  bucket.\<close>

lemma reader_source:
  assumes "\<And>b f. bq_room (queryFn b f) = room \<and> bq_bucket (queryFn b f) = b \<and> bq_desc (queryFn b f) = desc"
    and "\<And>b. beyond direction b0 b \<Longrightarrow> select part created (queryFn b True) = select part created (queryFn b False)"
  shows "bucket_source (\<lambda>b s. map plain (left (queryFn b (b = b0)) s)) (gocqlBucketFetcher drv dec queryFn)
    (\<lambda>b s. ok (queryFn b (b = b0)) s) direction sizer b0"
proof
  fix b s first assume v: "ok (queryFn b (b = b0)) s" and flag: "b = b0 \<and> first \<or> beyond direction b0 b"
  fix n :: nat assume n: "0 < n"
  have sel: "select part created (queryFn b first) = select part created (queryFn b (b = b0))"
    using flag assms(2) by (cases first; cases "b = b0") (auto simp: beyond_def split: if_splits)
  have same: "ok (queryFn b first) t = ok (queryFn b (b = b0)) t \<and> left (queryFn b first) t = left (queryFn b (b = b0)) t" for t
    by (rule same_position) (use assms(1) sel in auto)
  obtain s' got where "drain drv dec (queryFn b first) n [] s = Some (Inr \<lparr>bp_rows = [] @ got, bp_resumeState = s'\<rparr>)"
    "drained (queryFn b first) s (n - length ([]::'m list)) got s'"
    using drain_spec [of "queryFn b first" s "[]" n] v n same by auto
  then show "\<exists>s'. gocqlBucketFetcher drv dec queryFn b first s n =
        Inr \<lparr>bp_rows = take n (map plain (left (queryFn b (b = b0)) s)), bp_resumeState = s'\<rparr>
      \<and> (if s' = [] then length (map plain (left (queryFn b (b = b0)) s)) \<le> n
         else n \<le> length (map plain (left (queryFn b (b = b0)) s)) \<and> ok (queryFn b (b = b0)) s' \<and> good_state s'
              \<and> map plain (left (queryFn b (b = b0)) s') = drop n (map plain (left (queryFn b (b = b0)) s)))"
    using same by (auto simp: gocqlBucketFetcher_def drained_def take_map drop_map split: if_splits)
qed (use window_pos ok_Nil in auto)

end

section \<open>The four readers\<close>

lemma quot_mono:
  assumes "0 < w" "t \<le> t'"
  shows "quot t w \<le> quot t' w"
proof -
  have "t div w \<le> t' div w" "- t' div w \<le> - t div w" using assms zdiv_mono1 by auto
  moreover have "0 \<le> - t div w" if "t < 0" using that assms(1) by (simp add: pos_imp_zdiv_nonneg_iff)
  moreover have "0 \<le> t' div w" if "\<not> t' < 0" using that assms(1) by (simp add: pos_imp_zdiv_nonneg_iff)
  ultimately show ?thesis using assms(2) by (auto simp: quot_def)
qed

lemma Of_less: "0 < windowMs s \<Longrightarrow> Of s t < Of s t' \<Longrightarrow> t < t'"
  using quot_mono [of "windowMs s" t' t] unfolding Of_def
  by (metis linorder_not_less mult_right_mono order_less_imp_le)

lemma Of_multiple: "windowMs s dvd Of s t"
  by (simp add: Of_def)

lemma span_complete:
  assumes "0 < win" "win dvd b - c" "c = b \<or> beyond d b c" "\<not> beyond d flr c"
  shows "c \<in> set (span d win flr b)"
  using assms
proof (induction d win flr b rule: span.induct)
  case (1 d win flr b)
  have opn: "\<not> beyond d flr b" using "1.prems"(3,4) by (auto simp: beyond_def split: if_splits)
  show ?case
  proof (cases "c = b")
    case True then show ?thesis using opn "1.prems"(1) by (simp add: span_Cons)
  next
    case False
    have dv: "win dvd step_bucket d win b - c"
    proof -
      have "step_bucket d win b - c = (b - c) - win \<or> step_bucket d win b - c = (b - c) + win"
        by (simp add: step_bucket_def)
      then show ?thesis using "1.prems"(2) by (metis dvd_add dvd_diff dvd_refl)
    qed
    have "c = step_bucket d win b \<or> beyond d (step_bucket d win b) c"
    proof -
      have "win \<le> \<bar>b - c\<bar>" using "1.prems"(2) False by (metis dvd_abs_iff abs_ge_zero eq_iff_diff_eq_0 not_le zdvd_not_zless abs_of_nonneg zero_less_abs_iff)
      then show ?thesis using "1.prems"(3) False by (auto simp: beyond_def step_bucket_def split: if_splits)
    qed
    then show ?thesis using "1.IH" [OF _ "1.prems"(1) dv _ "1.prems"(4)] opn "1.prems"(1) by (simp add: span_Cons)
  qed
qed

lemma span_sorted: "sorted_wrt (beyond d) (span d win flr b)"
proof (induction d win flr b rule: span.induct)
  case (1 d win flr b)
  show ?case
  proof (cases "win \<le> 0 \<or> beyond d flr b")
    case True then show ?thesis by (simp add: span.simps)
  next
    case False
    then have "beyond d b c" if "c \<in> set (span d win flr (step_bucket d win b))" for c
      using span_members [OF that] beyond_step [of win d b] beyond_trans [of d b "step_bucket d win b" c] by auto
    then show ?thesis using False 1 by (simp add: span_Cons)
  qed
qed

definition walk_order :: "('r \<Rightarrow> int) \<Rightarrow> walkDirection \<Rightarrow> 'r \<Rightarrow> 'r \<Rightarrow> bool" where
  "walk_order created d = (\<lambda>x y. if d = walkDesc then created y \<le> created x else created x \<le> created y)"

text \<open>A family of queries whose first-bucket bound is vacuous past the first bucket, and which together select
  the rows that \<open>keep\<close> describes.\<close>

locale room_query = cassandra +
  fixes queryFn :: "int \<Rightarrow> bool \<Rightarrow> bucket_query"
    and room :: string
    and direction :: walkDirection
    and b0 :: int
    and flr :: int
    and keep :: "'a \<Rightarrow> bool"
  assumes query_at: "bq_room (queryFn b f) = room \<and> bq_bucket (queryFn b f) = b \<and> bq_desc (queryFn b f) = (direction = walkDesc)"
    and bound_vacuous: "beyond direction b0 b \<Longrightarrow> select part created (queryFn b True) = select part created (queryFn b False)"
    and selects: "r \<in> set (part room b) \<Longrightarrow> b = b0 \<or> beyond direction b0 b \<Longrightarrow> \<not> beyond direction flr b \<Longrightarrow>
      r \<in> set (select part created (queryFn b (b = b0))) \<longleftrightarrow> keep r"
    and keep_range: "r \<in> set (part room b) \<Longrightarrow> keep r \<Longrightarrow> (b = b0 \<or> beyond direction b0 b) \<and> \<not> beyond direction flr b"
    and b0_multiple: "windowMs sizer dvd b0"

sublocale room_query \<subseteq> rd: bucket_source "\<lambda>b s. map plain (left (queryFn b (b = b0)) s)"
  "gocqlBucketFetcher drv dec queryFn" "\<lambda>b s. ok (queryFn b (b = b0)) s" direction sizer b0 flr
  by (rule reader_source [where room = room and desc = "direction = walkDesc"]) (use query_at bound_vacuous in auto)

text \<open>A client reads a range exactly: following the cursors ends, the pages hold at most a hundred rows, and
  together they are the rows of the range, each once and in the order of the walk.\<close>

definition reads_exactly ::
  "('r \<Rightarrow> 'm) \<Rightarrow> ('r \<Rightarrow> int) \<Rightarrow> walkDirection \<Rightarrow> (PageRequest \<Rightarrow> goerr + 'm pageResult) \<Rightarrow> int \<Rightarrow> 'r set \<Rightarrow> bool" where
  "reads_exactly plain created d get n S \<longleftrightarrow>
     (\<exists>fuel pages rows. read_pages fuel get n '''' = Some (Inr pages) \<and> concat pages = map plain rows
        \<and> (\<forall>p \<in> set pages. length p \<le> 100) \<and> distinct rows \<and> sorted_wrt (walk_order created d) rows \<and> set rows = S)"

lemma read_pages_wrapf:
  "read_pages fuel get n cur = Some (Inr pages) \<Longrightarrow> read_pages fuel (\<lambda>req. wrapf what (get req)) n cur = Some (Inr pages)"
proof (induction fuel arbitrary: cur pages)
  case (Suc fuel)
  then show ?case by (auto simp: wrapf_def split: sum.splits if_splits option.splits)
qed simp

context room_query
begin

definition serves :: "('a, 'b) Repository \<Rightarrow> bool" where
  "serves r \<longleftrightarrow> rp_driver r = drv \<and> rp_decrypt r = dec \<and> rp_bucket r = sizer \<and> 0 < rp_maxBuckets r"

abbreviation picked :: "int \<Rightarrow> 'a list" where
  "picked b \<equiv> select part created (queryFn b (b = b0))"

lemma picked_part: "r \<in> set (picked b) \<Longrightarrow> r \<in> set (part room b)"
  using query_at [of b "b = b0"] by (auto simp: select_def Let_def split: if_splits)

lemma picked_order: "distinct (picked b) \<and> sorted_wrt (walk_order created direction) (picked b)"
  using query_at [of b "b = b0"] part_order [of room b]
  by (auto simp: select_def Let_def walk_order_def sorted_wrt_rev intro: sorted_wrt_filter)

lemma bucket_order:
  assumes "x \<in> set (part room b)" "y \<in> set (part room c)" "beyond direction b c"
  shows "walk_order created direction x y" "x \<noteq> y"
  using assms part_bucket [of x room b] part_bucket [of y room c] Of_less [OF window_pos, of "created x" "created y"]
    Of_less [OF window_pos, of "created y" "created x"]
  by (auto simp: beyond_def walk_order_def split: if_splits)

lemma rows_order:
  "sorted_wrt (beyond direction) bs \<Longrightarrow>
    distinct (concat (map picked bs)) \<and> sorted_wrt (walk_order created direction) (concat (map picked bs))"
proof (induction bs)
  case (Cons b bs)
  have "walk_order created direction x y \<and> x \<noteq> y" if "x \<in> set (picked b)" "c \<in> set bs" "y \<in> set (picked c)" for x y c
    using bucket_order [OF picked_part [OF that(1)] picked_part [OF that(3)]] Cons.prems that(2) by auto
  then show ?case using Cons picked_order [of b] by (auto simp: sorted_wrt_append)
qed simp

lemma rows_range: "set (concat (map picked (span direction (windowMs sizer) flr b0))) = {r. \<exists>b. r \<in> set (part room b) \<and> keep r}"
proof (intro set_eqI iffI)
  fix r assume "r \<in> set (concat (map picked (span direction (windowMs sizer) flr b0)))"
  then obtain b where "b \<in> set (span direction (windowMs sizer) flr b0)" "r \<in> set (picked b)" by auto
  then show "r \<in> {r. \<exists>b. r \<in> set (part room b) \<and> keep r}"
    using selects [OF picked_part] span_members [of b direction "windowMs sizer" flr b0] picked_part by blast
next
  fix r assume "r \<in> {r. \<exists>b. r \<in> set (part room b) \<and> keep r}"
  then obtain b where b: "r \<in> set (part room b)" "keep r" by auto
  have "windowMs sizer dvd b0 - b" using part_bucket [OF b(1)] Of_multiple b0_multiple by (metis dvd_diff)
  then have "b \<in> set (span direction (windowMs sizer) flr b0)"
    using span_complete [OF window_pos] keep_range [OF b] by blast
  then show "r \<in> set (concat (map picked (span direction (windowMs sizer) flr b0)))"
    using selects [OF b(1)] keep_range [OF b] b(2) by auto
qed

lemma content_rows: "content (\<lambda>b s. map plain (left (queryFn b (b = b0)) s)) bs [] = map plain (concat (map picked bs))"
  by (induction bs) (simp_all add: left_Nil)

lemma pages_complete:
  assumes "serves r" "int64_range b0" "int64_range flr"
  shows "reads_exactly plain created direction (\<lambda>req. read_page r what direction b0 flr req queryFn) n
    {r. \<exists>b. r \<in> set (part room b) \<and> keep r}"
proof -
  have m: "0 < rp_maxBuckets r" using assms(1) by (simp add: serves_def)
  have eq: "(\<lambda>req. read_page r what direction b0 flr req queryFn)
      = (\<lambda>req. wrapf what (rd.serve (rp_maxBuckets r) (rp_walkFanout r) req))"
    using assms(1)
    by (intro ext) (simp add: read_page_def rd.serve_def fillMessagePage_def serves_def split: sum.split prod.split)
  let ?rows = "concat (map picked (span direction (windowMs sizer) flr b0))"
  obtain fuel pages where pages: "read_pages fuel (rd.serve (rp_maxBuckets r) (rp_walkFanout r)) n '''' = Some (Inr pages)"
    "concat pages = map plain ?rows" "\<forall>p \<in> set pages. length p \<le> 100"
    using rd.read_range [OF m assms(2,3), of "rp_walkFanout r" n] unfolding content_rows by blast
  show ?thesis
    unfolding reads_exactly_def eq
    by (intro exI [of _ fuel] exI [of _ pages] exI [of _ ?rows] conjI read_pages_wrapf pages rows_range
        conjunct1 [OF rows_order [OF span_sorted]] conjunct2 [OF rows_order [OF span_sorted]])
qed

end

context cassandra
begin

lemma part_before: "r \<in> set (part room b) \<Longrightarrow> b < Of sizer t \<Longrightarrow> created r < t"
  and part_after: "r \<in> set (part room b) \<Longrightarrow> Of sizer t < b \<Longrightarrow> t < created r"
  using Of_less [OF window_pos] part_bucket by blast+

lemma part_le: "r \<in> set (part room b) \<Longrightarrow> created r < t \<Longrightarrow> b \<le> Of sizer t"
  and part_ge: "r \<in> set (part room b) \<Longrightarrow> t < created r \<Longrightarrow> Of sizer t \<le> b"
  using part_before part_after by (meson less_asym linorder_not_less)+

lemmas query_defs = before_query_def between_query_def after_query_def all_query_def select_def Let_def beyond_def

end

sublocale cassandra \<subseteq> before: room_query drv dec plain part created left ok todo sizer "before_query roomID before" roomID walkDesc
    "Of sizer before" "Of sizer floor" "\<lambda>r. created r < before \<and> Of sizer floor \<le> Of sizer (created r)"
  for roomID before floor
  by unfold_locales
    (auto simp: query_defs part_bucket part_before Of_multiple dest: part_le intro!: filter_cong split: if_splits)

sublocale cassandra \<subseteq> between: room_query drv dec plain part created left ok todo sizer
    "between_query roomID (Of sizer since) since before" roomID walkDesc "Of sizer before" "Of sizer since"
    "\<lambda>r. since < created r \<and> created r < before"
  for roomID since before
  by unfold_locales
    (auto simp: query_defs part_bucket part_before part_after Of_multiple dest: part_le part_ge intro!: filter_cong split: if_splits)

sublocale cassandra \<subseteq> after: room_query drv dec plain part created left ok todo sizer "after_query roomID after" roomID walkAsc
    "Of sizer after" "Of sizer ceiling" "\<lambda>r. after < created r \<and> Of sizer (created r) \<le> Of sizer ceiling"
  for roomID after ceiling
  by unfold_locales
    (auto simp: query_defs part_bucket part_after Of_multiple dest: part_ge intro!: filter_cong split: if_splits)

sublocale cassandra \<subseteq> every: room_query drv dec plain part created left ok todo sizer "all_query roomID" roomID walkAsc
    "Of sizer floor" "Of sizer ceiling" "\<lambda>r. Of sizer floor \<le> Of sizer (created r) \<and> Of sizer (created r) \<le> Of sizer ceiling"
  for roomID floor ceiling
  by unfold_locales (auto simp: query_defs part_bucket Of_multiple)

context cassandra
begin

lemma readers:
  assumes "rp_driver r = drv" "rp_decrypt r = dec" "rp_bucket r = sizer" "0 < rp_maxBuckets r"
    "int64_range (Of sizer lo)" "int64_range (Of sizer hi)"
  shows "reads_exactly plain created walkDesc (GetMessagesBefore r roomID hi lo) n
      {x. \<exists>b. x \<in> set (part roomID b) \<and> created x < hi \<and> Of sizer lo \<le> Of sizer (created x)}"
    and "reads_exactly plain created walkDesc (GetMessagesBetweenDesc r roomID lo hi) n
      {x. \<exists>b. x \<in> set (part roomID b) \<and> lo < created x \<and> created x < hi}"
    and "reads_exactly plain created walkAsc (GetMessagesAfter r roomID lo hi) n
      {x. \<exists>b. x \<in> set (part roomID b) \<and> lo < created x \<and> Of sizer (created x) \<le> Of sizer hi}"
    and "reads_exactly plain created walkAsc (GetAllMessagesAsc r roomID lo hi) n
      {x. \<exists>b. x \<in> set (part roomID b) \<and> Of sizer lo \<le> Of sizer (created x) \<and> Of sizer (created x) \<le> Of sizer hi}"
  unfolding GetMessagesBefore_def [abs_def] GetMessagesBetweenDesc_def [abs_def] GetMessagesAfter_def [abs_def]
    GetAllMessagesAsc_def [abs_def] assms(3)
  by (rule before.pages_complete between.pages_complete after.pages_complete every.pages_complete;
      simp add: before.serves_def between.serves_def after.serves_def every.serves_def assms)+

end

section \<open>Reading a room completely\<close>

lemma Of_range:
  assumes "0 < windowMs s" "int64_range t"
  shows "int64_range (Of s t)"
proof -
  have le: "0 \<le> a \<Longrightarrow> 0 \<le> a div windowMs s * windowMs s \<and> a div windowMs s * windowMs s \<le> a" for a
    using assms(1) by (simp add: minus_mod_eq_div_mult [symmetric] zmod_le_nonneg_dividend)
  show ?thesis using le [of t] le [of "- t"] assms(2) by (auto simp: Of_def quot_def int64_range_def)
qed

text \<open>C4: Reading a room by following the cursors is complete and exact. For each of the four readers, whatever
  page size the client asks for, however the driver cuts its pages, however wide the fan-out and however small
  the bucket budget of one request, the client ends after finitely many requests; the pages, none over a
  hundred rows, together hold exactly the room's rows in the asked range, each once and in the reader's order.
  The driver and the table meet the contract \<open>cassandra\<close>.\<close>

theorem history_read_complete:
  assumes "cassandra (rp_driver r) (rp_decrypt r) plain part created left ok todo (rp_bucket r)" "0 < rp_maxBuckets r"
    "int64_range lo" "int64_range hi"
  shows "reads_exactly plain created walkDesc (GetMessagesBefore r roomID hi lo) n
      {x. \<exists>b. x \<in> set (part roomID b) \<and> created x < hi \<and> Of (rp_bucket r) lo \<le> Of (rp_bucket r) (created x)}
    \<and> reads_exactly plain created walkDesc (GetMessagesBetweenDesc r roomID lo hi) n
      {x. \<exists>b. x \<in> set (part roomID b) \<and> lo < created x \<and> created x < hi}
    \<and> reads_exactly plain created walkAsc (GetMessagesAfter r roomID lo hi) n
      {x. \<exists>b. x \<in> set (part roomID b) \<and> lo < created x \<and> Of (rp_bucket r) (created x) \<le> Of (rp_bucket r) hi}
    \<and> reads_exactly plain created walkAsc (GetAllMessagesAsc r roomID lo hi) n
      {x. \<exists>b. x \<in> set (part roomID b) \<and> Of (rp_bucket r) lo \<le> Of (rp_bucket r) (created x)
        \<and> Of (rp_bucket r) (created x) \<le> Of (rp_bucket r) hi}"
  using cassandra.readers [OF assms(1) refl refl refl assms(2) Of_range Of_range] cassandra.window_pos [OF assms(1)] assms(3,4)
  by blast

section \<open>A table in memory\<close>

text \<open>A driver over a small table: a page state is the offset in the selected rows, and no page holds more than
  two rows.\<close>

definition mem_left :: "(string \<Rightarrow> int \<Rightarrow> 'r list) \<Rightarrow> ('r \<Rightarrow> int) \<Rightarrow> bucket_query \<Rightarrow> nat list \<Rightarrow> 'r list" where
  "mem_left part created q s = drop (if s = [] then 0 else hd s) (select part created q)"

definition mem_ok :: "(string \<Rightarrow> int \<Rightarrow> 'r list) \<Rightarrow> ('r \<Rightarrow> int) \<Rightarrow> bucket_query \<Rightarrow> nat list \<Rightarrow> bool" where
  "mem_ok part created q s \<longleftrightarrow> s = [] \<or> length s = 1 \<and> hd s < length (select part created q)"

definition mem_driver :: "(string \<Rightarrow> int \<Rightarrow> 'r list) \<Rightarrow> ('r \<Rightarrow> int) \<Rightarrow> 'r driver" where
  "mem_driver part created q s n =
     (let rows = mem_left part created q s; j = min n 2 in
      (take j rows, if length rows \<le> j then [] else [(if s = [] then 0 else hd s) + j], None))"

definition sample_rows :: "(int \<times> string) list" where
  "sample_rows = [(3700, ''g''), (3100, ''f''), (3100, ''e''), (3050, ''d''), (1900, ''c''), (900, ''b''), (200, ''a'')]"

definition sample_part :: "string \<Rightarrow> int \<Rightarrow> (int \<times> string) list" where
  "sample_part room b = (if room = ''general'' then filter (\<lambda>r. Of \<lparr>windowMs = 1000\<rparr> (fst r) = b) sample_rows else [])"

definition sample_repo :: "(int \<times> string, string) Repository" where
  "sample_repo = \<lparr>rp_driver = mem_driver sample_part fst, rp_decrypt = (\<lambda>r. Inr (snd r)), rp_bucket = \<lparr>windowMs = 1000\<rparr>,
     rp_maxBuckets = 2, rp_walkFanout = 3\<rparr>"

lemma sample_short: "length (select sample_part fst q) < 256"
proof -
  have "length (sample_part room b) \<le> length sample_rows" for room b
    by (simp add: sample_part_def le_trans [OF length_filter_le])
  then have "length (select sample_part fst q) \<le> length sample_rows"
    by (auto simp: select_def Let_def intro: le_trans [OF length_filter_le])
  then show ?thesis by (simp add: sample_rows_def)
qed

interpretation mem: cassandra "mem_driver sample_part fst" "\<lambda>r. Inr (snd r)" snd sample_part fst "mem_left sample_part fst"
  "mem_ok sample_part fst" "\<lambda>q s. length (mem_left sample_part fst q s)" "\<lparr>windowMs = 1000\<rparr>"
proof
  fix q s and n :: nat assume ok: "mem_ok sample_part fst q s" and n: "0 < n"
  let ?left = "mem_left sample_part fst q s" and ?j = "min n 2"
  let ?next = "if length ?left \<le> ?j then [] else [(if s = [] then 0 else hd s) + ?j]"
  show "\<exists>j s'. mem_driver sample_part fst q s n = (take j ?left, s', None) \<and> j \<le> n
      \<and> (if s' = [] then length ?left \<le> j
         else j \<le> length ?left \<and> mem_ok sample_part fst q s' \<and> good_state s' \<and> mem_left sample_part fst q s' = drop j ?left
           \<and> length (mem_left sample_part fst q s') < length ?left)"
    using n sample_short [of q]
    by (intro exI [of _ ?j] exI [of _ ?next])
      (auto simp: mem_driver_def Let_def mem_left_def mem_ok_def good_state_def bytes_def maxEncodedPageState_def
        maxCursorBytes_def bucketCursorHeaderBytes_def add.commute)
next
  fix room b
  have "distinct sample_rows \<and> sorted_wrt (\<lambda>x y. fst y \<le> fst x) sample_rows" by (simp add: sample_rows_def)
  then show "distinct (sample_part room b) \<and> sorted_wrt (\<lambda>x y. fst y \<le> fst x) (sample_part room b)"
    by (simp add: sample_part_def sorted_wrt_filter)
qed (auto simp: sample_part_def mem_ok_def mem_left_def)

text \<open>Reading two rows a page between the bounds, newest first.\<close>

theorem history_read_complete_witness:
  "reads_exactly snd fst walkDesc (GetMessagesBetweenDesc sample_repo ''general'' 900 3700) 2
     {x. \<exists>b. x \<in> set (sample_part ''general'' b) \<and> 900 < fst x \<and> fst x < 3700}"
proof -
  have repo: "cassandra (rp_driver sample_repo) (rp_decrypt sample_repo) snd sample_part fst (mem_left sample_part fst)
    (mem_ok sample_part fst) (\<lambda>q s. length (mem_left sample_part fst q s)) (rp_bucket sample_repo)"
    using mem.cassandra_axioms by (simp add: sample_repo_def)
  show ?thesis
    using history_read_complete [OF repo, of 900 3700 "''general''" 2] by (simp add: sample_repo_def int64_range_def)
qed

end
