(* ===== verification/Mention.thy ===== *)
theory Mention
  imports Message_Model Err_Code
begin

text \<open>
  Mentions (\<open>src/pkg/mention/mention.go\<close>): finding the @-tokens of a message, resolving them to users and
  rewriting them for display. The regular expression of the package is a scanner here; the specification below
  says what its matches are without it.
\<close>

section \<open>The token grammar\<close>

text \<open>The character class \<open>[0-9a-zA-Z_-]\<close> and the class \<open>\s\<close> of the regular expression.\<close>

definition mention_char :: "char \<Rightarrow> bool" where
  "mention_char c \<longleftrightarrow> (let n = byte_val c in 48 \<le> n \<and> n \<le> 57 \<or> 97 \<le> n \<and> n \<le> 122 \<or> 65 \<le> n \<and> n \<le> 90 \<or> n = 95 \<or> n = 45)"

definition re_space :: "char \<Rightarrow> bool" where
  "re_space c \<longleftrightarrow> byte_val c \<in> {9, 10, 12, 13, 32}"

text \<open>The longest token at the front: runs of class characters separated by single dots.\<close>

fun token :: "string \<Rightarrow> string" where
  "token [] = []"
| "token (c # cs) =
     (if mention_char c then
        c # (case cs of d # e # rest \<Rightarrow> if d = CHR ''.'' \<and> mention_char e then d # token (e # rest) else token cs
             | _ \<Rightarrow> token cs)
      else [])"

lemma token_append: "\<exists>post. s = token s @ post"
  by (induction s rule: token.induct) (auto split: list.splits)

lemma token_length: "length (token s) \<le> length s"
  using token_append [of s] by (metis le_add1 length_append)

text \<open>All matches of the expression, leftmost first. The flag says that an @ here would be at the start of the
  content or right after white space.\<close>

function mention_scan :: "bool \<Rightarrow> string \<Rightarrow> string list" where
  "mention_scan b [] = []"
| "mention_scan b (c # cs) =
     (if b \<and> c = CHR ''@'' \<and> token cs \<noteq> [] then token cs # mention_scan False (drop (length (token cs)) cs)
      else mention_scan (re_space c) cs)"
  by pat_completeness auto
termination
  by (relation "measure (\<lambda>(b, s). length s)") auto

section \<open>Parsing and resolving\<close>

record ParseResult =
  ps_Accounts :: "string list"
  ps_MentionAll :: bool

definition add_match :: "ParseResult \<Rightarrow> string \<Rightarrow> ParseResult" where
  "add_match r m =
     (let account = ToLowerAscii m in
      if account = ''all'' then r\<lparr>ps_MentionAll := True\<rparr>
      else if account \<in> set (ps_Accounts r) then r
      else r\<lparr>ps_Accounts := ps_Accounts r @ [account]\<rparr>)"

definition ParseMentions :: "string \<Rightarrow> ParseResult" where
  "ParseMentions content = foldl add_match \<lparr>ps_Accounts = [], ps_MentionAll = False\<rparr> (mention_scan True content)"

text \<open>The fields of a user that resolution reads.\<close>

record mention_user =
  mu_ID :: string
  mu_Account :: string
  mu_SiteID :: string
  mu_ChineseName :: string
  mu_EngName :: string

record ResolveResult =
  rs_Participants :: "Participant list"
  rs_MentionAll :: bool
  rs_Accounts :: "string list"

definition participant_of :: "mention_user \<Rightarrow> Participant" where
  "participant_of u = \<lparr>pt_UserID = mu_ID u, pt_Account = mu_Account u, pt_SiteID = mu_SiteID u,
     pt_ChineseName = mu_ChineseName u, pt_EngName = mu_EngName u, pt_DisplayName = ''''\<rparr>"

definition all_participant :: Participant where
  "all_participant = \<lparr>pt_UserID = '''', pt_Account = ''all'', pt_SiteID = '''', pt_ChineseName = '''', pt_EngName = ''all'',
     pt_DisplayName = ''''\<rparr>"

definition ResolveFromParsed :: "ParseResult \<Rightarrow> (string \<rightharpoonup> mention_user) \<Rightarrow> ResolveResult" where
  "ResolveFromParsed parsed users =
     \<lparr>rs_Participants = map participant_of (List.map_filter users (ps_Accounts parsed))
        @ (if ps_MentionAll parsed then [all_participant] else []),
      rs_MentionAll = ps_MentionAll parsed, rs_Accounts = ps_Accounts parsed\<rparr>"

definition users_by_account :: "mention_user list \<Rightarrow> (string \<rightharpoonup> mention_user)" where
  "users_by_account us = foldl (\<lambda>m u. m(mu_Account u \<mapsto> u)) Map.empty us"

text \<open>The lookup may return users along with an error.\<close>

definition ResolveMentions ::
  "string \<Rightarrow> (string list \<Rightarrow> mention_user list \<times> goerr option) \<Rightarrow> ResolveResult \<times> goerr option" where
  "ResolveMentions content lookupFn =
     (let parsed = ParseMentions content in
      if ps_Accounts parsed = [] \<and> \<not> ps_MentionAll parsed then
        (\<lparr>rs_Participants = [], rs_MentionAll = ps_MentionAll parsed, rs_Accounts = ps_Accounts parsed\<rparr>, None)
      else if ps_Accounts parsed = [] then (ResolveFromParsed parsed Map.empty, None)
      else case lookupFn (ps_Accounts parsed) of (fetched, err) \<Rightarrow>
        (ResolveFromParsed parsed (users_by_account fetched), map_option (Wrapf ''find mentioned users'') err))"

section \<open>Rewriting\<close>

definition literalMentions :: "string \<rightharpoonup> string" where
  "literalMentions = [''all'' \<mapsto> ''All'', ''here'' \<mapsto> ''here'']"

definition LookupAccountsFromParsed :: "ParseResult \<Rightarrow> string list" where
  "LookupAccountsFromParsed parsed = filter (\<lambda>a. literalMentions a = None) (ps_Accounts parsed)"

definition render_token :: "(string \<rightharpoonup> string) \<Rightarrow> string \<Rightarrow> string" where
  "render_token names tok =
     (case literalMentions (ToLowerAscii tok) of Some name \<Rightarrow> name
      | None \<Rightarrow> (case names (ToLowerAscii tok) of
            Some name \<Rightarrow> if name \<noteq> '''' then name else CHR ''@'' # tok
          | None \<Rightarrow> CHR ''@'' # tok))"

function replace_scan :: "(string \<Rightarrow> string) \<Rightarrow> bool \<Rightarrow> string \<Rightarrow> string" where
  "replace_scan f b [] = []"
| "replace_scan f b (c # cs) =
     (if b \<and> c = CHR ''@'' \<and> token cs \<noteq> [] then f (token cs) @ replace_scan f False (drop (length (token cs)) cs)
      else c # replace_scan f (re_space c) cs)"
  by pat_completeness auto
termination
  by (relation "measure (\<lambda>(f, b, s). length s)") auto

definition ReplaceAccounts :: "string \<Rightarrow> (string \<rightharpoonup> string) \<Rightarrow> string" where
  "ReplaceAccounts content names = replace_scan (render_token names) True content"

section \<open>What is mentioned\<close>

text \<open>A mention occurs in a content: an @ at the start or right after white space, followed by a token.\<close>

definition mentioned_at :: "string \<Rightarrow> string \<Rightarrow> bool" where
  "mentioned_at content tok \<longleftrightarrow> tok \<noteq> [] \<and> (\<exists>pre post. content = pre @ CHR ''@'' # post \<and> tok = token post
     \<and> (pre = [] \<or> re_space (last pre)))"

lemma token_stop [simp]: "\<not> mention_char c \<Longrightarrow> token (c # cs) = []"
  by simp

declare token.simps(2) [simp del]

lemma token_cases:
  obtains (stop) "\<not> mention_char c" "token (c # cs) = []"
  | (run) "mention_char c" "token (c # cs) = c # token cs"
  | (dot) e rest where "mention_char c" "cs = CHR ''.'' # e # rest" "mention_char e" "token (c # cs) = c # CHR ''.'' # token (e # rest)"
proof (cases "mention_char c \<and> (\<exists>e rest. cs = CHR ''.'' # e # rest \<and> mention_char e)")
  case True
  then obtain e rest where e: "mention_char c" "cs = CHR ''.'' # e # rest" "mention_char e" by blast
  from e(1,3) have "token (c # cs) = c # CHR ''.'' # token (e # rest)" unfolding e(2) token.simps(2) [of c] by simp
  with e show ?thesis using dot by blast
next
  case False
  show ?thesis
  proof (cases "mention_char c")
    case True
    have "token (c # cs) = c # token cs"
    proof (cases cs)
      case (Cons d ds)
      show ?thesis
      proof (cases ds)
        case (Cons e es)
        then have "\<not> (d = CHR ''.'' \<and> mention_char e)" using True False \<open>cs = d # ds\<close> by blast
        then show ?thesis using True by (simp only: \<open>cs = d # ds\<close> Cons token.simps(2) [of c] list.case if_True if_False)
      qed (use True \<open>cs = d # ds\<close> in \<open>simp add: token.simps(2) [of c]\<close>)
    qed (use True in \<open>simp add: token.simps(2) [of c]\<close>)
    with True show ?thesis using run by blast
  next
    case False
    then show ?thesis using stop by simp
  qed
qed

lemma token_chars: "\<forall>x \<in> set (token s). mention_char x \<or> x = CHR ''.''"
proof (induction "length s" arbitrary: s rule: less_induct)
  case less
  show ?case
  proof (cases s)
    case (Cons c cs)
    show ?thesis
    proof (cases c cs rule: token_cases)
      case stop
      then show ?thesis using Cons by simp
    next
      case run
      then show ?thesis using less [of cs] Cons by simp
    next
      case (dot e rest)
      then show ?thesis using less [of "e # rest"] Cons by simp
    qed
  qed simp
qed

lemma token_no_space: "\<forall>x \<in> set (token s). \<not> re_space x \<and> x \<noteq> CHR ''@''"
proof
  fix x assume "x \<in> set (token s)"
  then have "mention_char x \<or> x = CHR ''.''" using token_chars by blast
  then show "\<not> re_space x \<and> x \<noteq> CHR ''@''"
    by (auto simp: mention_char_def re_space_def Let_def)
qed

definition occurs :: "bool \<Rightarrow> string \<Rightarrow> string \<Rightarrow> bool" where
  "occurs b s tok \<longleftrightarrow> tok \<noteq> [] \<and> (\<exists>pre post. s = pre @ CHR ''@'' # post \<and> tok = token post
     \<and> (if pre = [] then b else re_space (last pre)))"

lemma mentioned_at_occurs: "mentioned_at content tok \<longleftrightarrow> occurs True content tok"
  unfolding mentioned_at_def occurs_def by (rule conj_cong [OF refl]) (metis (full_types))

lemma occurs_Nil [simp]: "\<not> occurs b [] tok"
  by (simp add: occurs_def)

lemma occurs_Cons: "occurs b (c # cs) tok \<longleftrightarrow> b \<and> c = CHR ''@'' \<and> tok = token cs \<and> tok \<noteq> [] \<or> occurs (re_space c) cs tok"
  (is "?l \<longleftrightarrow> ?now \<or> ?later")
proof
  assume ?l
  then obtain pre post where p: "tok \<noteq> []" "c # cs = pre @ CHR ''@'' # post" "tok = token post"
    "if pre = [] then b else re_space (last pre)" unfolding occurs_def by blast
  show "?now \<or> ?later"
  proof (cases pre)
    case Nil then show ?thesis using p by simp
  next
    case (Cons d ds)
    then have "cs = ds @ CHR ''@'' # post" "if ds = [] then re_space c else re_space (last ds)"
      using p by (auto split: if_splits)
    then show ?thesis using p(1,3) unfolding occurs_def by blast
  qed
next
  assume "?now \<or> ?later"
  then show ?l
  proof
    assume ?now
    then have "tok \<noteq> []" "c # cs = [] @ CHR ''@'' # cs" "tok = token cs" "if ([]::string) = [] then b else re_space (last [])"
      by auto
    then show ?l unfolding occurs_def by blast
  next
    assume ?later
    then obtain pre post where p: "tok \<noteq> []" "cs = pre @ CHR ''@'' # post" "tok = token post"
      "if pre = [] then re_space c else re_space (last pre)" unfolding occurs_def by blast
    then show ?l unfolding occurs_def by (intro conjI exI [of _ "c # pre"] exI [of _ post]) (simp_all split: if_splits)
  qed
qed

lemma occurs_skip: "\<forall>x \<in> set w. \<not> re_space x \<and> x \<noteq> CHR ''@'' \<Longrightarrow> occurs False (w @ r) tok = occurs False r tok"
  by (induction w) (simp_all add: occurs_Cons)

lemma re_space_at [simp]: "\<not> re_space (CHR ''@'')"
  by (simp add: re_space_def)

lemma token_split: "token s @ drop (length (token s)) s = s"
  by (metis append_eq_conv_conj token_append)

lemma scan_occurs: "set (mention_scan b s) = {tok. occurs b s tok}"
proof (induction b s rule: mention_scan.induct)
  case (2 b c cs)
  show ?case
  proof (cases "b \<and> c = CHR ''@'' \<and> token cs \<noteq> []")
    case True
    have "occurs False (drop (length (token cs)) cs) tok = occurs False cs tok" for tok
      using occurs_skip [OF token_no_space, of cs "drop (length (token cs)) cs" tok] by (simp add: token_split)
    then show ?thesis using True "2.IH"(1) [OF True] by (auto simp: occurs_Cons)
  next
    case False
    then show ?thesis using "2.IH"(2) [OF False] by (auto simp: occurs_Cons)
  qed
qed simp

lemma parse_fold:
  assumes "distinct (ps_Accounts r)" "''all'' \<notin> set (ps_Accounts r)"
  shows "let r' = foldl add_match r ms in distinct (ps_Accounts r')
    \<and> set (ps_Accounts r') = set (ps_Accounts r) \<union> (ToLowerAscii ` set ms - {''all''})
    \<and> (ps_MentionAll r' \<longleftrightarrow> ps_MentionAll r \<or> (\<exists>m \<in> set ms. ToLowerAscii m = ''all''))"
  using assms
proof (induction ms arbitrary: r)
  case (Cons m ms)
  have keep: "distinct (ps_Accounts (add_match r m))" "''all'' \<notin> set (ps_Accounts (add_match r m))"
    using Cons.prems unfolding add_match_def Let_def by (simp_all split: if_split)
  have step: "set (ps_Accounts (add_match r m)) = set (ps_Accounts r) \<union> ({ToLowerAscii m} - {''all''})"
    "ps_MentionAll (add_match r m) \<longleftrightarrow> ps_MentionAll r \<or> ToLowerAscii m = ''all''"
    unfolding add_match_def Let_def by (auto split: if_split)
  from Cons.IH [OF keep] show ?case unfolding Let_def foldl_Cons step by auto
qed simp

text \<open>C37: Exactly the mentions of a message are found. An account is among the parsed ones exactly when the
  content holds it, in some casing, as a token after an @ at its start or right after white space; so an
  e-mail address is no mention. \<open>@all\<close> is reported as such and never as an account; no account is listed twice.\<close>

theorem mentions_exact:
  "(account \<in> set (ps_Accounts (ParseMentions content)) \<longleftrightarrow>
      account \<noteq> ''all'' \<and> (\<exists>tok. mentioned_at content tok \<and> account = ToLowerAscii tok))
   \<and> (ps_MentionAll (ParseMentions content) \<longleftrightarrow> (\<exists>tok. mentioned_at content tok \<and> ToLowerAscii tok = ''all''))
   \<and> distinct (ps_Accounts (ParseMentions content))"
proof -
  have all: "set (mention_scan True content) = {tok. mentioned_at content tok}"
    by (simp add: scan_occurs mentioned_at_occurs)
  show ?thesis
    using parse_fold [of "\<lparr>ps_Accounts = [], ps_MentionAll = False\<rparr>" "mention_scan True content"]
    unfolding ParseMentions_def Let_def all by auto
qed

text \<open>What no name is known for is left as it was written.\<close>

lemma replace_kept: "(\<And>tok. occurs b s tok \<Longrightarrow> f tok = CHR ''@'' # tok) \<Longrightarrow> replace_scan f b s = s"
proof (induction f b s rule: replace_scan.induct)
  case (2 f b c cs)
  show ?case
  proof (cases "b \<and> c = CHR ''@'' \<and> token cs \<noteq> []")
    case True
    have "occurs b (c # cs) tok" if "occurs False (drop (length (token cs)) cs) tok" for tok
      using that occurs_skip [OF token_no_space, of cs "drop (length (token cs)) cs" tok] True
      by (simp add: token_split occurs_Cons)
    then have "replace_scan f False (drop (length (token cs)) cs) = drop (length (token cs)) cs"
      using "2.IH"(1) [OF True] "2.prems" by blast
    moreover have "f (token cs) = CHR ''@'' # token cs" using "2.prems" True by (simp add: occurs_Cons)
    ultimately show ?thesis using True by (simp add: token_split)
  next
    case False
    have "replace_scan f (re_space c) cs = cs"
      by (rule "2.IH"(2) [OF False]) (use "2.prems" in \<open>simp add: occurs_Cons\<close>)
    then show ?thesis using False by (simp only: replace_scan.simps if_False)
  qed
qed simp

lemma ReplaceAccounts_kept:
  assumes "\<And>tok. mentioned_at content tok \<Longrightarrow> literalMentions (ToLowerAscii tok) = None \<and> names (ToLowerAscii tok) \<in> {None, Some ''''}"
  shows "ReplaceAccounts content names = content"
  unfolding ReplaceAccounts_def
proof (rule replace_kept)
  fix tok assume "occurs True content tok"
  then show "render_token names tok = CHR ''@'' # tok"
    using assms [of tok] by (auto simp: render_token_def mentioned_at_occurs)
qed

end
