(* ===== verification/Roomlist.thy ===== *)
theory Roomlist
  imports Mention Mongo_Model Js_Retry "HOL-Library.AList"
begin

text \<open>
  The room-list worker (\<open>src/roomlist-worker\<close>): the writes a canonical event implies (\<open>handler.go\<close>,
  \<open>projection.go\<close>), coalescing them in a batch (\<open>batch.go\<close>), the bulk writes (\<open>store_mongo.go\<close>) and the
  flusher that settles the messages of a batch (\<open>flush.go\<close>), driven by the loop of \<open>main.go\<close>. A \<open>time.Time\<close>
  is its distance to the epoch in nanoseconds; the store keeps milliseconds. A Go map is an association list
  with distinct keys: the code never depends on its order, and neither do the properties.
\<close>

section \<open>Times\<close>

definition zero_time :: int where "zero_time = - 62135596800 * 10 ^ 9"

definition UnixMilli :: "int \<Rightarrow> int" where "UnixMilli t = t div 10 ^ 6"

definition bson_time :: "int \<Rightarrow> bson" where "bson_time t = BTime (UnixMilli t)"

definition IsZero :: "int \<Rightarrow> bool" where "IsZero t \<longleftrightarrow> t = zero_time"

text \<open>The newest-row order of the message table (\<open>src/pkg/msgbucket/order.go\<close>).\<close>

definition NewerRow :: "int \<Rightarrow> string \<Rightarrow> int \<Rightarrow> string \<Rightarrow> bool" where
  "NewerRow tm mid curAt curID =
     (let a = UnixMilli tm; b = UnixMilli curAt in if a \<noteq> b then a > b else mid > curID)"

section \<open>From an event to its writes\<close>

record messageProjection =
  mp_ID :: string
  mp_RoomID :: string
  mp_UserAccount :: string
  mp_Content :: string
  mp_CreatedAt :: int
  mp_Type :: string
  mp_EditedAt :: "int option"
  mp_ThreadParentMessageID :: string
  mp_TShow :: bool

record eventProjection =
  ep_Event :: EventType
  ep_SiteID :: string
  ep_Message :: messageProjection

definition mp_IsHiddenThreadReply :: "messageProjection \<Rightarrow> bool" where
  "mp_IsHiddenThreadReply m = IsHiddenThreadReply (mp_ThreadParentMessageID m) (mp_TShow m)"

record writeIntents =
  wi_RoomID :: string
  wi_SystemMsg :: bool
  wi_LastMsgID :: string
  wi_LastMsgAt :: int
  wi_LastMentionAllAt :: int
  wi_SenderAccount :: string
  wi_SenderSeenAt :: int
  wi_MentionAccounts :: "string list"
  wi_MentionAt :: int

definition no_intents :: writeIntents where
  "no_intents = \<lparr>wi_RoomID = '''', wi_SystemMsg = False, wi_LastMsgID = '''', wi_LastMsgAt = zero_time,
     wi_LastMentionAllAt = zero_time, wi_SenderAccount = '''', wi_SenderSeenAt = zero_time, wi_MentionAccounts = [],
     wi_MentionAt = zero_time\<rparr>"

definition deriveIntents :: "eventProjection \<Rightarrow> writeIntents" where
  "deriveIntents evt =
     (let msg = ep_Message evt in
      if mp_RoomID msg = '''' \<or> mp_IsHiddenThreadReply msg then no_intents
      else if ep_Event evt = EventCreated then
        (let parsed = ParseMentions (mp_Content msg);
             i = no_intents\<lparr>wi_RoomID := mp_RoomID msg, wi_LastMsgID := mp_ID msg, wi_LastMsgAt := mp_CreatedAt msg,
               wi_SenderAccount := mp_UserAccount msg, wi_SenderSeenAt := mp_CreatedAt msg,
               wi_SystemMsg := IsSystemMessageType (mp_Type msg)\<rparr>;
             i = (if ps_MentionAll parsed then i\<lparr>wi_LastMentionAllAt := mp_CreatedAt msg\<rparr> else i) in
         if ps_Accounts parsed \<noteq> [] then
           i\<lparr>wi_MentionAccounts := ps_Accounts parsed, wi_MentionAt := mp_CreatedAt msg\<rparr>
         else i)
      else if ep_Event evt = EventUpdated then
        (case mp_EditedAt msg of None \<Rightarrow> no_intents
         | Some editedAt \<Rightarrow>
             let parsed = ParseMentions (mp_Content msg) in
             if ps_Accounts parsed = [] then no_intents
             else no_intents\<lparr>wi_RoomID := mp_RoomID msg, wi_MentionAccounts := ps_Accounts parsed, wi_MentionAt := editedAt\<rparr>)
      else no_intents)"

section \<open>The batch\<close>

type_synonym subKey = "string \<times> string"

record roomLastMsgUpdate =
  ru_msgID :: string
  ru_at :: int
  ru_lastMentionAllAt :: int
  ru_userAt :: int
  ru_userMsgID :: string

definition zero_update :: roomLastMsgUpdate where
  "zero_update = \<lparr>ru_msgID = '''', ru_at = zero_time, ru_lastMentionAllAt = zero_time, ru_userAt = zero_time, ru_userMsgID = ''''\<rparr>"

text \<open>A consumed message: what the stream says of it and its payload.\<close>

record heldMsg =
  hm_meta :: "nat option"
  hm_data :: string

record batch =
  b_rooms :: "(string \<times> roomLastMsgUpdate) list"
  b_lastSeen :: "(subKey \<times> int) list"
  b_mentions :: "(subKey \<times> int) list"
  b_held :: "heldMsg list"

definition newBatch :: batch where
  "newBatch = \<lparr>b_rooms = [], b_lastSeen = [], b_mentions = [], b_held = []\<rparr>"

definition index :: "'v \<Rightarrow> ('k \<times> 'v) list \<Rightarrow> 'k \<Rightarrow> 'v" where
  "index zero m k = (case map_of m k of None \<Rightarrow> zero | Some v \<Rightarrow> v)"

definition advance_room :: "writeIntents \<Rightarrow> roomLastMsgUpdate \<Rightarrow> roomLastMsgUpdate" where
  "advance_room i cur =
     (let cur = (if NewerRow (wi_LastMsgAt i) (wi_LastMsgID i) (ru_at cur) (ru_msgID cur)
           then cur\<lparr>ru_msgID := wi_LastMsgID i, ru_at := wi_LastMsgAt i\<rparr> else cur);
          cur = (if \<not> wi_SystemMsg i \<and> NewerRow (wi_LastMsgAt i) (wi_LastMsgID i) (ru_userAt cur) (ru_userMsgID cur)
           then cur\<lparr>ru_userAt := wi_LastMsgAt i, ru_userMsgID := wi_LastMsgID i\<rparr> else cur) in
      if wi_LastMentionAllAt i > ru_lastMentionAllAt cur then cur\<lparr>ru_lastMentionAllAt := wi_LastMentionAllAt i\<rparr> else cur)"

definition raise :: "'k \<Rightarrow> int \<Rightarrow> ('k \<times> int) list \<Rightarrow> ('k \<times> int) list" where
  "raise k t m = (if t > index zero_time m k then AList.update k t m else m)"

definition add_room :: "writeIntents \<Rightarrow> (string \<times> roomLastMsgUpdate) list \<Rightarrow> (string \<times> roomLastMsgUpdate) list" where
  "add_room i m = (if wi_LastMsgID i \<noteq> '''' then AList.update (wi_RoomID i) (advance_room i (index zero_update m (wi_RoomID i))) m else m)"

definition add_seen :: "writeIntents \<Rightarrow> (subKey \<times> int) list \<Rightarrow> (subKey \<times> int) list" where
  "add_seen i m = (if wi_SenderAccount i \<noteq> '''' then raise (wi_RoomID i, wi_SenderAccount i) (wi_SenderSeenAt i) m else m)"

definition add_mentions :: "writeIntents \<Rightarrow> (subKey \<times> int) list \<Rightarrow> (subKey \<times> int) list" where
  "add_mentions i m = foldl (\<lambda>m account. raise (wi_RoomID i, account) (wi_MentionAt i) m) m (wi_MentionAccounts i)"

definition batch_add :: "batch \<Rightarrow> writeIntents \<Rightarrow> heldMsg \<Rightarrow> batch" where
  "batch_add b i msg =
     \<lparr>b_rooms = add_room i (b_rooms b), b_lastSeen = add_seen i (b_lastSeen b), b_mentions = add_mentions i (b_mentions b),
      b_held = b_held b @ [msg]\<rparr>"

definition batch_empty :: "batch \<Rightarrow> bool" where
  "batch_empty b \<longleftrightarrow> b_held b = []"

section \<open>The writes\<close>

definition roomLastMsgFilter :: "string \<Rightarrow> string \<Rightarrow> int \<Rightarrow> filt" where
  "roomLastMsgFilter roomID msgID tm =
     FAnd [FEq ''_id'' (BStr roomID),
           FOr [FNotGte ''lastMsgAt'' (bson_time tm),
                FAnd [FEq ''lastMsgAt'' (bson_time tm), FLt ''lastMsgId'' (BStr msgID)]]]"

definition mentionFilter :: "subKey \<Rightarrow> int \<Rightarrow> filt" where
  "mentionFilter k tm =
     FAnd [FEq ''roomId'' (BStr (fst k)), FEq ''u.account'' (BStr (snd k)), FNotGte ''lastSeenAt'' (bson_time tm)]"

definition roomPointerUpdate :: "roomLastMsgUpdate \<Rightarrow> update" where
  "roomPointerUpdate u =
     (if \<not> IsZero (ru_userAt u) then
        [USet [(''lastMsgAt'', bson_time (ru_at u)), (''lastMsgId'', BStr (ru_msgID u)), (''updatedAt'', bson_time (ru_at u))]]
      else
        [UPipeSet [(''lastMsgAt'', EConst (bson_time (ru_at u))), (''lastMsgId'', EConst (BStr (ru_msgID u))),
                   (''updatedAt'', EConst (bson_time (ru_at u))),
                   (''lastUserMsgAt'', EIfNull (EField ''lastUserMsgAt'')
                      (ECond (EIfNull (EField ''lastMsgAt'') (EConst BNull)) (EConst BNull)
                         (EIfNull (EField ''createdAt'') ERemove) ERemove))]])"

type_synonym write_model = "filt \<times> update"

definition room_maxes :: "roomLastMsgUpdate \<Rightarrow> (string \<times> bson) list" where
  "room_maxes u =
     (if IsZero (ru_userAt u) then [] else [(''lastUserMsgAt'', bson_time (ru_userAt u))])
     @ (if IsZero (ru_lastMentionAllAt u) then [] else [(''lastMentionAllAt'', bson_time (ru_lastMentionAllAt u))])"

definition room_models :: "string \<times> roomLastMsgUpdate \<Rightarrow> write_model list" where
  "room_models e = (case e of (roomID, u) \<Rightarrow>
     (roomLastMsgFilter roomID (ru_msgID u) (ru_at u), roomPointerUpdate u)
     # (if room_maxes u = [] then [] else [(FEq ''_id'' (BStr roomID), [UMax (room_maxes u)])]))"

definition roomLastMsgModels :: "(string \<times> roomLastMsgUpdate) list \<Rightarrow> write_model list" where
  "roomLastMsgModels updates = concat (map room_models updates)"

definition seen_model :: "subKey \<times> int \<Rightarrow> write_model" where
  "seen_model e = (case e of (k, tm) \<Rightarrow>
     (FAnd [FEq ''roomId'' (BStr (fst k)), FEq ''u.account'' (BStr (snd k))], [UMax [(''lastSeenAt'', bson_time tm)]]))"

definition mention_model :: "subKey \<times> int \<Rightarrow> write_model" where
  "mention_model e = (case e of (k, tm) \<Rightarrow> (mentionFilter k tm, [USet [(''hasMention'', BBool True)]]))"

text \<open>The errors of a bulk write the classification tells apart: a bulk write exception with the codes of its
  write errors, whether it has a write concern error and whether it is labelled retryable; or anything else.\<close>

datatype bulk_err = BulkWriteException "int list" bool bool | OtherErr string

type_synonym bulk_write = "write_model list \<Rightarrow> doc list \<Rightarrow> bulk_err option \<times> doc list"

record mongoStore =
  roomCol :: bulk_write
  subCol :: bulk_write

record rl_store =
  st_rooms :: "doc list"
  st_subs :: "doc list"

text \<open>The empty guard of the typed collection (\<open>src/pkg/mongoutil/collection.go\<close>).\<close>

definition guarded :: "bulk_write \<Rightarrow> bulk_write" where
  "guarded bulk ws c = (if ws = [] then (None, c) else bulk ws c)"

definition BulkUpdateRoomLastMessage :: "mongoStore \<Rightarrow> (string \<times> roomLastMsgUpdate) list \<Rightarrow> rl_store \<Rightarrow> bulk_err option \<times> rl_store" where
  "BulkUpdateRoomLastMessage m updates st =
     (case guarded (roomCol m) (roomLastMsgModels updates) (st_rooms st) of (e, c) \<Rightarrow> (e, st\<lparr>st_rooms := c\<rparr>))"

definition BulkAdvanceLastSeen :: "mongoStore \<Rightarrow> (subKey \<times> int) list \<Rightarrow> rl_store \<Rightarrow> bulk_err option \<times> rl_store" where
  "BulkAdvanceLastSeen m updates st =
     (case guarded (subCol m) (map seen_model updates) (st_subs st) of (e, c) \<Rightarrow> (e, st\<lparr>st_subs := c\<rparr>))"

definition BulkSetMentions :: "mongoStore \<Rightarrow> (subKey \<times> int) list \<Rightarrow> rl_store \<Rightarrow> bulk_err option \<times> rl_store" where
  "BulkSetMentions m updates st =
     (case guarded (subCol m) (map mention_model updates) (st_subs st) of (e, c) \<Rightarrow> (e, st\<lparr>st_subs := c\<rparr>))"

section \<open>Flushing\<close>

definition permanentMongoCodes :: "int set" where
  "permanentMongoCodes = {2, 9, 14, 52, 66, 121, 11000, 10334, 16837}"

definition classifyFlushErr :: "bulk_err \<Rightarrow> proc_err" where
  "classifyFlushErr err = (case err of
     OtherErr _ \<Rightarrow> TransientErr
   | BulkWriteException codes writeConcern retryable \<Rightarrow>
       if codes = [] then TransientErr
       else if writeConcern \<or> retryable then TransientErr
       else if \<exists>code \<in> set codes. code \<notin> permanentMongoCodes then TransientErr
       else PermanentErr)"

type_synonym stage_codes = "(string \<times> int list) list"

text \<open>One stage's verdict: stop with a transient failure, or go on, with a rejection noted.\<close>

definition stage :: "string \<Rightarrow> bulk_err option \<Rightarrow> stage_codes \<Rightarrow> proc_err + stage_codes" where
  "stage name err noted = (case err of None \<Rightarrow> Inr noted
     | Some e \<Rightarrow> (case classifyFlushErr e of
         TransientErr \<Rightarrow> Inl TransientErr
       | PermanentErr \<Rightarrow> Inr (noted @ [(name, case e of BulkWriteException codes _ _ \<Rightarrow> codes | OtherErr _ \<Rightarrow> [])])))"

definition write_stage :: "mongoStore \<Rightarrow> batch \<Rightarrow> nat \<Rightarrow> stage_codes \<Rightarrow> rl_store \<Rightarrow> (proc_err + stage_codes) \<times> rl_store" where
  "write_stage m b n noted st =
     (if n = 0 then (case BulkUpdateRoomLastMessage m (b_rooms b) st of (e, st) \<Rightarrow> (stage ''room last message'' e noted, st))
      else if n = 1 then (case BulkAdvanceLastSeen m (b_lastSeen b) st of (e, st) \<Rightarrow> (stage ''subscription last seen'' e noted, st))
      else (case BulkSetMentions m (b_mentions b) st of (e, st) \<Rightarrow> (stage ''subscription mentions'' e noted, st)))"

record flushOutcome =
  fo_err :: "proc_err option"
  fo_stageCodes :: stage_codes

definition outcome_of :: "stage_codes \<Rightarrow> flushOutcome" where
  "outcome_of noted = (if noted = [] then \<lparr>fo_err = None, fo_stageCodes = []\<rparr> else \<lparr>fo_err = Some PermanentErr, fo_stageCodes = noted\<rparr>)"

definition write_batch :: "mongoStore \<Rightarrow> batch \<Rightarrow> rl_store \<Rightarrow> flushOutcome \<times> rl_store" where
  "write_batch m b st =
     (case write_stage m b 0 [] st of (Inl e, st) \<Rightarrow> (\<lparr>fo_err = Some e, fo_stageCodes = []\<rparr>, st)
      | (Inr noted, st) \<Rightarrow>
     (case write_stage m b 1 noted st of (Inl e, st) \<Rightarrow> (\<lparr>fo_err = Some e, fo_stageCodes = []\<rparr>, st)
      | (Inr noted, st) \<Rightarrow>
     (case write_stage m b 2 noted st of (Inl e, st) \<Rightarrow> (\<lparr>fo_err = Some e, fo_stageCodes = []\<rparr>, st)
      | (Inr noted, st) \<Rightarrow> (outcome_of noted, st))))"

text \<open>A settled message with the outcome it was settled with.\<close>

type_synonym settled = "heldMsg \<times> proc_err option \<times> settlement"

definition settle_batch :: "(int \<Rightarrow> int) \<Rightarrow> batch \<Rightarrow> proc_err option \<Rightarrow> settled list" where
  "settle_batch rnd b err = map (\<lambda>h. (h, err, settle rnd (hm_meta h) DefaultBackoff err)) (b_held b)"

record flusher =
  f_mentionBudget :: int
  f_pending :: batch

definition flusher_add :: "flusher \<Rightarrow> writeIntents \<Rightarrow> heldMsg \<Rightarrow> bool \<times> flusher" where
  "flusher_add f i msg =
     (let b = batch_add (f_pending f) i msg in
      (f_mentionBudget f > 0 \<and> int (length (b_mentions b)) \<ge> f_mentionBudget f, f\<lparr>f_pending := b\<rparr>))"

definition Flush :: "(int \<Rightarrow> int) \<Rightarrow> mongoStore \<Rightarrow> flusher \<Rightarrow> rl_store \<Rightarrow> settled list \<times> flusher \<times> rl_store" where
  "Flush rnd m f st =
     (if batch_empty (f_pending f) then ([], f, st)
      else case write_batch m (f_pending f) st of (out, st) \<Rightarrow>
        (settle_batch rnd (f_pending f) (fo_err out), f\<lparr>f_pending := newBatch\<rparr>, st))"

text \<open>One turn of the consume loop.\<close>

definition consume :: "(string \<Rightarrow> eventProjection option) \<Rightarrow> (int \<Rightarrow> int) \<Rightarrow> mongoStore \<Rightarrow> heldMsg \<Rightarrow> flusher \<Rightarrow> rl_store \<Rightarrow>
  settled list \<times> flusher \<times> rl_store" where
  "consume unmarshal rnd m msg f st =
     (case unmarshal (hm_data msg) of
        None \<Rightarrow> ([(msg, Some PermanentErr, settle rnd (hm_meta msg) DefaultBackoff (Some PermanentErr))], f, st)
      | Some evt \<Rightarrow> (case flusher_add f (deriveIntents evt) msg of (full, f) \<Rightarrow>
          if full then Flush rnd m f st else ([], f, st)))"

definition validateFlushBudget :: "int \<Rightarrow> int \<Rightarrow> int \<Rightarrow> fault option" where
  "validateFlushBudget interval timeout ackWait =
     (if interval \<le> 0 then Some (Err ''FLUSH_INTERVAL must be positive'')
      else if timeout \<le> 0 then Some (Err ''FLUSH_TIMEOUT must be positive'')
      else if ackWait \<le> 0 then Some (Err ''CONSUMER_ACK_WAIT must be positive'')
      else if 2 * timeout + interval \<ge> ackWait then Some (Err ''a held message outlives its ack deadline'')
      else None)"

end
