(* ===== verification/Roomlist_Docs.thy ===== *)
theory Roomlist_Docs
  imports Roomlist
begin

text \<open>
  What the room-list writes do to the documents: the contract of an unordered bulk write (\<open>bulk_server\<close>), the
  well-formed documents, and that every write only moves a document forward and, once it lands, has its effect
  whatever else is written in between.
\<close>

section \<open>The contract of a bulk write\<close>

fun update_first :: "filt \<Rightarrow> update \<Rightarrow> doc list \<Rightarrow> doc list" where
  "update_first f u [] = []"
| "update_first f u (d # c) = (if sat f d then upd u d # c else d # update_first f u c)"

definition apply_one :: "write_model \<Rightarrow> doc list \<Rightarrow> doc list" where
  "apply_one w c = update_first (fst w) (snd w) c"

text \<open>Unordered: the server takes the models in any order; a failed call may have applied any of them.\<close>

locale bulk_server =
  fixes bulk :: bulk_write
  assumes lands: "bulk ws c = (None, c') \<Longrightarrow> \<exists>ws'. mset ws' = mset ws \<and> c' = fold apply_one ws' c"
    and fails: "bulk ws c = (Some e, c') \<Longrightarrow> \<exists>ws'. mset ws' \<subseteq># mset ws \<and> c' = fold apply_one ws' c"
begin

lemma guarded_partly: "guarded bulk ws c = (e, c') \<Longrightarrow> \<exists>ws'. mset ws' \<subseteq># mset ws \<and> c' = fold apply_one ws' c"
  using lands [of ws c c'] fails [of ws c _ c'] unfolding guarded_def
  by (cases "ws = []"; cases e) (auto, (metis subset_mset.order_refl)+)

lemma guarded_lands: "guarded bulk ws c = (None, c') \<Longrightarrow> \<exists>ws'. mset ws' = mset ws \<and> c' = fold apply_one ws' c"
  using lands [of ws c c'] unfolding guarded_def by (cases "ws = []") auto

end

section \<open>Documents and what they record\<close>

definition timed :: "doc \<Rightarrow> string \<Rightarrow> bool" where
  "timed d f \<longleftrightarrow> d f = None \<or> (\<exists>t. d f = Some (BTime t))"

definition room_ok :: "doc \<Rightarrow> bool" where
  "room_ok d \<longleftrightarrow> (\<exists>r. d ''_id'' = Some (BStr r)) \<and> timed d ''createdAt'' \<and> timed d ''lastUserMsgAt'' \<and> timed d ''lastMentionAllAt''
     \<and> (d ''lastMsgAt'' = None \<or> (\<exists>t i. d ''lastMsgAt'' = Some (BTime t) \<and> d ''lastMsgId'' = Some (BStr i)))"

definition sub_ok :: "doc \<Rightarrow> bool" where
  "sub_ok d \<longleftrightarrow> (\<exists>r. d ''roomId'' = Some (BStr r)) \<and> (\<exists>a. d ''u.account'' = Some (BStr a)) \<and> timed d ''lastSeenAt''"

text \<open>A field has reached a time; the pointer has reached a message.\<close>

definition since :: "doc \<Rightarrow> string \<Rightarrow> int \<Rightarrow> bool" where
  "since d f t \<longleftrightarrow> (\<exists>t'. d f = Some (BTime t') \<and> t \<le> t')"

definition ptr_since :: "doc \<Rightarrow> int \<Rightarrow> string \<Rightarrow> bool" where
  "ptr_since d t i \<longleftrightarrow> (\<exists>t' i'. d ''lastMsgAt'' = Some (BTime t') \<and> d ''lastMsgId'' = Some (BStr i') \<and> (t < t' \<or> t = t' \<and> i \<le> i'))"

definition room_le :: "doc \<Rightarrow> doc \<Rightarrow> bool" where
  "room_le d d' \<longleftrightarrow> d' ''_id'' = d ''_id'' \<and> (\<forall>t i. ptr_since d t i \<longrightarrow> ptr_since d' t i)
     \<and> (\<forall>t. since d ''lastUserMsgAt'' t \<longrightarrow> since d' ''lastUserMsgAt'' t)
     \<and> (\<forall>t. since d ''lastMentionAllAt'' t \<longrightarrow> since d' ''lastMentionAllAt'' t)"

definition sub_le :: "doc \<Rightarrow> doc \<Rightarrow> bool" where
  "sub_le d d' \<longleftrightarrow> d' ''roomId'' = d ''roomId'' \<and> d' ''u.account'' = d ''u.account''
     \<and> (\<forall>t. since d ''lastSeenAt'' t \<longrightarrow> since d' ''lastSeenAt'' t)
     \<and> (d ''hasMention'' = Some (BBool True) \<longrightarrow> d' ''hasMention'' = Some (BBool True))"

lemma room_le_refl [simp]: "room_le d d" and sub_le_refl [simp]: "sub_le d d"
  by (simp_all add: room_le_def sub_le_def)

lemma room_le_trans: "room_le a b \<Longrightarrow> room_le b c \<Longrightarrow> room_le a c"
  and sub_le_trans: "sub_le a b \<Longrightarrow> sub_le b c \<Longrightarrow> sub_le a c"
  by (simp_all add: room_le_def sub_le_def)

definition hit :: "write_model \<Rightarrow> doc \<Rightarrow> doc" where
  "hit w d = (if sat (fst w) d then upd (snd w) d else d)"

lemma max_field_other [simp]: "g \<noteq> f \<Longrightarrow> max_field f v d g = d g"
  by (simp add: max_field_def split: option.splits)

lemma max_field_since:
  assumes "timed d f"
  shows "since (max_field f (BTime t) d) f t" "timed (max_field f (BTime t) d) f"
    "since d f t' \<Longrightarrow> since (max_field f (BTime t) d) f t'"
  using assms by (auto simp: timed_def since_def max_field_def split: if_splits)

text \<open>The two models of a room.\<close>

lemma field_is_str [simp]: "d f = Some (BStr x) \<Longrightarrow> field_is d f (BStr y) \<longleftrightarrow> x = y"
  and field_is_time [simp]: "d g = Some (BTime t) \<Longrightarrow> field_is d g (BTime t') \<longleftrightarrow> t = t'"
  by (simp_all add: field_is_def)

lemma pointer_sat:
  assumes "room_ok d" "d ''_id'' = Some (BStr r)"
  shows "sat (roomLastMsgFilter r' i tm) d \<longleftrightarrow> r' = r \<and> \<not> ptr_since d (UnixMilli tm) i"
proof -
  consider "d ''lastMsgAt'' = None" | t j where "d ''lastMsgAt'' = Some (BTime t)" "d ''lastMsgId'' = Some (BStr j)"
    using assms(1) unfolding room_ok_def by (elim conjE disjE exE) assumption+
  then show ?thesis
    by cases (use assms(2) in \<open>auto simp: roomLastMsgFilter_def bson_time_def ptr_since_def field_is_def\<close>)
qed

text \<open>What a system-only window leaves as the user position.\<close>

definition frozen :: "doc \<Rightarrow> bson option" where
  "frozen d = eval_expr d (EIfNull (EField ''lastUserMsgAt'')
     (ECond (EIfNull (EField ''lastMsgAt'') (EConst BNull)) (EConst BNull) (EIfNull (EField ''createdAt'') ERemove) ERemove))"

lemma pointer_upd:
  "upd (roomPointerUpdate u) d = d(''lastMsgAt'' \<mapsto> bson_time (ru_at u), ''lastMsgId'' \<mapsto> BStr (ru_msgID u),
     ''updatedAt'' \<mapsto> bson_time (ru_at u), ''lastUserMsgAt'' := (if IsZero (ru_userAt u) then frozen d else d ''lastUserMsgAt''))"
  by (auto simp: roomPointerUpdate_def apply_update_def set_fields_def frozen_def fun_upd_idem)

lemma frozen_keeps: "d ''lastUserMsgAt'' = Some (BTime t) \<Longrightarrow> frozen d = Some (BTime t)"
  by (simp add: frozen_def)

lemma frozen_timed:
  assumes "room_ok d"
  shows "frozen d = None \<or> (\<exists>t. frozen d = Some (BTime t))"
proof -
  have "timed d ''lastUserMsgAt''" "timed d ''createdAt''" using assms by (simp_all add: room_ok_def)
  then show ?thesis
    by (cases "d ''lastUserMsgAt''"; cases "d ''createdAt''") (auto simp: frozen_def timed_def)
qed

lemma pointer_hit:
  fixes u :: roomLastMsgUpdate and r' :: string
  assumes "room_ok d" "d ''_id'' = Some (BStr r)"
  defines "d' \<equiv> hit (roomLastMsgFilter r' (ru_msgID u) (ru_at u), roomPointerUpdate u) d"
  shows "room_ok d'" "room_le d d'" "r' = r \<Longrightarrow> ptr_since d' (UnixMilli (ru_at u)) (ru_msgID u)"
proof -
  let ?fire = "r' = r \<and> \<not> ptr_since d (UnixMilli (ru_at u)) (ru_msgID u)"
  have d': "d' = (if ?fire then upd (roomPointerUpdate u) d else d)"
    unfolding d'_def hit_def using pointer_sat [OF assms(1,2)] by simp
  have user: "timed (upd (roomPointerUpdate u) d) ''lastUserMsgAt''"
    using frozen_timed [OF assms(1)] assms(1) by (auto simp: pointer_upd timed_def room_ok_def)
  have keep: "since d ''lastUserMsgAt'' t \<Longrightarrow> since (upd (roomPointerUpdate u) d) ''lastUserMsgAt'' t" for t
    using frozen_keeps [of d] by (auto simp: pointer_upd since_def)
  have ptr: "ptr_since d t i \<Longrightarrow> \<not> ptr_since d (UnixMilli (ru_at u)) (ru_msgID u) \<Longrightarrow> ptr_since (upd (roomPointerUpdate u) d) t i" for t i
    by (auto simp: pointer_upd ptr_since_def bson_time_def)
  show "room_ok d'" using assms(1,2) user by (auto simp: d' room_ok_def pointer_upd timed_def bson_time_def)
  show "room_le d d'" using keep ptr by (simp add: d' room_le_def) (simp add: pointer_upd since_def)
  show "r' = r \<Longrightarrow> ptr_since d' (UnixMilli (ru_at u)) (ru_msgID u)"
    by (auto simp: d' pointer_upd ptr_since_def bson_time_def)
qed

lemma fold_max_other: "f \<notin> fst ` set kvs \<Longrightarrow> fold (\<lambda>(k, v). max_field k v) kvs d f = d f"
  by (induction kvs arbitrary: d) auto

lemma maxes_hit:
  fixes u :: roomLastMsgUpdate and r' :: string
  assumes "room_ok d" "d ''_id'' = Some (BStr r)"
  defines "d' \<equiv> hit (FEq ''_id'' (BStr r'), [UMax (room_maxes u)]) d"
  shows "room_ok d'" "room_le d d'"
    "r' = r \<Longrightarrow> \<not> IsZero (ru_userAt u) \<Longrightarrow> since d' ''lastUserMsgAt'' (UnixMilli (ru_userAt u))"
    "r' = r \<Longrightarrow> \<not> IsZero (ru_lastMentionAllAt u) \<Longrightarrow> since d' ''lastMentionAllAt'' (UnixMilli (ru_lastMentionAllAt u))"
proof -
  have d': "d' = (if r' = r then fold (\<lambda>(k, v). max_field k v) (room_maxes u) d else d)"
    using assms(2) by (auto simp: d'_def hit_def apply_update_def)
  have other: "f \<noteq> ''lastUserMsgAt'' \<Longrightarrow> f \<noteq> ''lastMentionAllAt'' \<Longrightarrow> d' f = d f" for f
    unfolding d' by (auto simp: room_maxes_def intro: fold_max_other)
  have at: "d' f = (if r' = r \<and> \<not> IsZero t then max_field f (BTime (UnixMilli t)) d f else d f)"
    if "(f, t) \<in> {(''lastUserMsgAt'', ru_userAt u), (''lastMentionAllAt'', ru_lastMentionAllAt u)}" for f t
    using that by (auto simp: d' room_maxes_def bson_time_def max_field_def split: option.splits)
  have field: "timed d' f \<and> (\<forall>t'. since d f t' \<longrightarrow> since d' f t') \<and> (r' = r \<and> \<not> IsZero t \<longrightarrow> since d' f (UnixMilli t))"
    if "d' f = (if r' = r \<and> \<not> IsZero t then max_field f (BTime (UnixMilli t)) d f else d f)" "timed d f" for f t
    using that max_field_since(1,2) [OF that(2), of "UnixMilli t"] max_field_since(3) [OF that(2)] unfolding since_def timed_def
    by (metis (no_types))
  have "timed d ''lastUserMsgAt''" "timed d ''lastMentionAllAt''" using assms(1) by (simp_all add: room_ok_def)
  note fields = field [OF at this(1), of "ru_userAt u"] field [OF at this(2), of "ru_lastMentionAllAt u"]
  show "room_ok d'" using assms(1) other fields by (auto simp: room_ok_def timed_def)
  show "room_le d d'" using other fields by (auto simp: room_le_def ptr_since_def)
  show "r' = r \<Longrightarrow> \<not> IsZero (ru_userAt u) \<Longrightarrow> since d' ''lastUserMsgAt'' (UnixMilli (ru_userAt u))"
    and "r' = r \<Longrightarrow> \<not> IsZero (ru_lastMentionAllAt u) \<Longrightarrow> since d' ''lastMentionAllAt'' (UnixMilli (ru_lastMentionAllAt u))"
    using fields by auto
qed

text \<open>The writes to a subscription.\<close>

lemma sub_keys:
  assumes "sub_ok d"
  obtains r a where "d ''roomId'' = Some (BStr r)" "d ''u.account'' = Some (BStr a)" "timed d ''lastSeenAt''"
  using assms unfolding sub_ok_def by (elim conjE exE) assumption

lemma seen_hit:
  fixes k :: subKey and tm :: int
  assumes "sub_ok d"
  defines "d' \<equiv> hit (seen_model (k, tm)) d"
  shows "sub_ok d'" "sub_le d d'"
    "d ''roomId'' = Some (BStr (fst k)) \<Longrightarrow> d ''u.account'' = Some (BStr (snd k)) \<Longrightarrow> since d' ''lastSeenAt'' (UnixMilli tm)"
proof -
  obtain r a where k: "d ''roomId'' = Some (BStr r)" "d ''u.account'' = Some (BStr a)" "timed d ''lastSeenAt''"
    using sub_keys [OF assms(1)] .
  have d': "d' = (if r = fst k \<and> a = snd k then max_field ''lastSeenAt'' (BTime (UnixMilli tm)) d else d)"
    using k(1,2) by (simp add: d'_def hit_def seen_model_def apply_update_def bson_time_def)
  note max = max_field_since [OF k(3), where t = "UnixMilli tm"]
  show "sub_ok d'" using k max(2) by (auto simp: d' sub_ok_def)
  show "sub_le d d'" using max(3) by (auto simp: d' sub_le_def)
  show "d ''roomId'' = Some (BStr (fst k)) \<Longrightarrow> d ''u.account'' = Some (BStr (snd k)) \<Longrightarrow> since d' ''lastSeenAt'' (UnixMilli tm)"
    using k(1,2) max(1) by (simp add: d')
qed

lemma mention_hit:
  fixes k :: subKey and tm :: int
  assumes "sub_ok d"
  defines "d' \<equiv> hit (mention_model (k, tm)) d"
  shows "sub_ok d'" "sub_le d d'"
    "d ''roomId'' = Some (BStr (fst k)) \<Longrightarrow> d ''u.account'' = Some (BStr (snd k)) \<Longrightarrow>
      d' ''hasMention'' = Some (BBool True) \<or> since d' ''lastSeenAt'' (UnixMilli tm)"
proof -
  obtain r a where k: "d ''roomId'' = Some (BStr r)" "d ''u.account'' = Some (BStr a)" "timed d ''lastSeenAt''"
    using sub_keys [OF assms(1)] .
  have "sat (FNotGte ''lastSeenAt'' (BTime (UnixMilli tm))) d \<longleftrightarrow> \<not> since d ''lastSeenAt'' (UnixMilli tm)"
    using k(3) by (auto simp: timed_def since_def)
  then have d': "d' = (if r = fst k \<and> a = snd k \<and> \<not> since d ''lastSeenAt'' (UnixMilli tm) then d(''hasMention'' \<mapsto> BBool True) else d)"
    using k(1,2) by (auto simp: d'_def hit_def mention_model_def mentionFilter_def apply_update_def bson_time_def set_fields_def)
  show "sub_ok d'" using k by (simp add: d' sub_ok_def timed_def)
  show "sub_le d d'" by (simp add: d' sub_le_def since_def)
  show "d ''roomId'' = Some (BStr (fst k)) \<Longrightarrow> d ''u.account'' = Some (BStr (snd k)) \<Longrightarrow>
      d' ''hasMention'' = Some (BBool True) \<or> since d' ''lastSeenAt'' (UnixMilli tm)"
    using k(1,2) by (simp add: d')
qed

section \<open>Collections that only move forward\<close>

lemma update_first_map: "length (filter (sat (fst w)) c) \<le> 1 \<Longrightarrow> apply_one w c = map (hit w) c"
proof (induction c)
  case (Cons d c)
  show ?case
  proof (cases "sat (fst w) d")
    case True
    then have "filter (sat (fst w)) c = []" using Cons.prems by simp
    then have "map (hit w) c = c" by (intro map_idI) (auto simp: hit_def filter_empty_conv)
    moreover have "hit w d = upd (snd w) d" using True by (simp add: hit_def)
    ultimately show ?thesis using True by (simp add: apply_one_def)
  next
    case False
    then show ?thesis using Cons by (simp add: apply_one_def hit_def)
  qed
qed (simp add: apply_one_def)

text \<open>A family of write models each of which aims at one key and moves a document forward.\<close>

locale forward_writes =
  fixes ok :: "doc \<Rightarrow> bool"
    and le :: "doc \<Rightarrow> doc \<Rightarrow> bool"
    and key :: "doc \<Rightarrow> 'k"
    and target :: "write_model \<Rightarrow> 'k"
    and allowed :: "write_model \<Rightarrow> bool"
  assumes le_refl: "le d d"
    and le_trans: "le a b \<Longrightarrow> le b c \<Longrightarrow> le a c"
    and le_key: "le d d' \<Longrightarrow> key d' = key d"
    and hits: "ok d \<Longrightarrow> allowed w \<Longrightarrow> ok (hit w d) \<and> le d (hit w d)"
    and aims: "ok d \<Longrightarrow> allowed w \<Longrightarrow> sat (fst w) d \<Longrightarrow> key d = target w"
begin

definition good :: "doc list \<Rightarrow> bool" where
  "good c \<longleftrightarrow> (\<forall>d \<in> set c. ok d) \<and> distinct (map key c)"

lemma one:
  assumes "good c" "allowed w"
  shows "apply_one w c = map (hit w) c" "good (map (hit w) c)" "list_all2 le c (map (hit w) c)"
proof -
  have "length (filter (sat (fst w)) c) \<le> length (filter (\<lambda>d. key d = target w) c)"
    using assms aims unfolding good_def by (induction c) auto
  then show "apply_one w c = map (hit w) c"
    using distinct_map_filter_le_1 [of key c "target w"] assms(1) update_first_map [of w c] by (simp add: good_def)
  have "key (hit w d) = key d" if "d \<in> set c" for d
    using that assms hits le_key unfolding good_def by blast
  then have "map key (map (hit w) c) = map key c" by simp
  then show "good (map (hit w) c)" using assms hits unfolding good_def by (metis (no_types, lifting) imageE set_map)
  show "list_all2 le c (map (hit w) c)"
    using assms hits unfolding good_def by (auto simp: list_all2_conv_all_nth)
qed

lemma le_list_trans: "list_all2 le a b \<Longrightarrow> list_all2 le b c \<Longrightarrow> list_all2 le a c"
  using le_trans by (auto simp: list_all2_conv_all_nth)

lemma many: "good c \<Longrightarrow> \<forall>w \<in> set ws. allowed w \<Longrightarrow> good (fold apply_one ws c) \<and> list_all2 le c (fold apply_one ws c)"
proof (induction ws arbitrary: c)
  case Nil then show ?case by (auto simp: list_all2_conv_all_nth le_refl)
next
  case (Cons w ws)
  note one = one [OF Cons.prems(1), of w]
  have "allowed w" using Cons.prems(2) by simp
  then show ?case using Cons.IH [of "apply_one w c"] one Cons.prems(2) le_list_trans by simp
qed

text \<open>What holds of the addressed document right after a write, and survives forward moves, holds at the end.\<close>

lemma lasting:
  assumes "good c" "\<forall>w \<in> set ws. allowed w" "w \<in> set ws" "d \<in> set (fold apply_one ws c)" "key d = k"
    and effect: "\<And>d. ok d \<Longrightarrow> key d = k \<Longrightarrow> P (hit w d)"
    and stays: "\<And>d d'. le d d' \<Longrightarrow> P d \<Longrightarrow> P d'"
  shows "P d"
proof -
  obtain us vs where ws: "ws = us @ w # vs" using assms(3) by (metis split_list)
  let ?c = "fold apply_one us c" and ?c' = "map (hit w) (fold apply_one us c)"
  have c: "good ?c" using many [OF assms(1)] assms(2) ws by simp
  note w = one [OF c, of w]
  have fin: "fold apply_one ws c = fold apply_one vs ?c'" "good ?c'" using w assms(2) ws by simp_all
  then have le: "list_all2 le ?c' (fold apply_one ws c)" using many [OF fin(2), of vs] assms(2) ws by simp
  obtain i where i: "i < length ?c" "d = fold apply_one ws c ! i" using assms(4) le
    by (metis in_set_conv_nth length_map list_all2_lengthD)
  have step: "le (?c ! i) (?c' ! i)" "ok (?c ! i)" using hits c assms(2) ws i(1) by (auto simp: good_def)
  have last: "le (?c' ! i) d" using le i by (auto simp: list_all2_conv_all_nth)
  have "key (?c ! i) = k" using le_key [OF step(1)] le_key [OF last] assms(5) by simp
  then show "P d" using effect [OF step(2)] stays [OF last] i(1) by simp
qed

end

section \<open>The two collections\<close>

definition room_model :: "write_model \<Rightarrow> bool" where
  "room_model w \<longleftrightarrow> (\<exists>e. w \<in> set (room_models e))"

definition sub_model :: "write_model \<Rightarrow> bool" where
  "sub_model w \<longleftrightarrow> (\<exists>e. w = seen_model e \<or> w = mention_model e)"

definition sub_key_of :: "doc \<Rightarrow> bson option \<times> bson option" where
  "sub_key_of d = (d ''roomId'', d ''u.account'')"

lemma room_model_cases:
  assumes "room_model w"
  obtains (ptr) r u where "w = (roomLastMsgFilter r (ru_msgID u) (ru_at u), roomPointerUpdate u)"
  | (maxes) r u where "w = (FEq ''_id'' (BStr r), [UMax (room_maxes u)])"
  using assms unfolding room_model_def room_models_def by (auto split: if_splits)

interpretation rooms: forward_writes room_ok room_le "\<lambda>d. d ''_id''" "\<lambda>w. map_of (eq_fields (fst w)) ''_id''" room_model
proof
  fix d w assume ok: "room_ok d" and w: "room_model w"
  obtain r where r: "d ''_id'' = Some (BStr r)" using ok unfolding room_ok_def by (elim conjE exE)
  show "room_ok (hit w d) \<and> room_le d (hit w d)"
    using w by (cases rule: room_model_cases) (simp_all add: pointer_hit [OF ok r] maxes_hit [OF ok r])
  show "d ''_id'' = map_of (eq_fields (fst w)) ''_id''" if "sat (fst w) d"
    using w that
    by (cases rule: room_model_cases) (auto simp: roomLastMsgFilter_def r)
qed (auto intro: room_le_trans simp: room_le_def)

interpretation subs: forward_writes sub_ok sub_le sub_key_of
  "\<lambda>w. (map_of (eq_fields (fst w)) ''roomId'', map_of (eq_fields (fst w)) ''u.account'')" sub_model
proof
  fix d w assume ok: "sub_ok d" and w: "sub_model w"
  obtain r a where k: "d ''roomId'' = Some (BStr r)" "d ''u.account'' = Some (BStr a)" using sub_keys [OF ok] .
  show "sub_ok (hit w d) \<and> sub_le d (hit w d)"
    using w seen_hit [OF ok] mention_hit [OF ok] unfolding sub_model_def by (metis surj_pair)
  show "sub_key_of d = (map_of (eq_fields (fst w)) ''roomId'', map_of (eq_fields (fst w)) ''u.account'')" if "sat (fst w) d"
    using w that k by (auto simp: sub_model_def sub_key_of_def seen_model_def mention_model_def mentionFilter_def)
qed (auto intro: sub_le_trans simp: sub_le_def sub_key_of_def)

end
