(* ===== verification/Roomlist_Worker.thy ===== *)
theory Roomlist_Worker
  imports Roomlist_Docs
begin

text \<open>
  The room-list worker as a state machine. The consume loop adds messages to the pending batch; the ticker and
  the early drain each swap the batch out and write it in three stages while messages keep arriving, so several
  flushes may be under way at once. The invariant ties what has been acknowledged to what the store holds.
\<close>

section \<open>Steps\<close>

record flight =
  fl_batch :: batch
  fl_stage :: nat
  fl_noted :: stage_codes

record worker =
  w_pending :: batch
  w_flights :: "flight list"
  w_store :: rl_store
  w_settled :: "settled list"
  w_consumed :: "heldMsg list"

text \<open>Every stage of every flush is its own step; the server may answer differently each time, within the set
  \<open>M\<close> of its behaviours.\<close>

inductive rl_step :: "(string \<Rightarrow> eventProjection option) \<Rightarrow> mongoStore set \<Rightarrow> worker \<Rightarrow> worker \<Rightarrow> bool"
  for unmarshal :: "string \<Rightarrow> eventProjection option" and M :: "mongoStore set" where
  malformed: "unmarshal (hm_data msg) = None \<Longrightarrow>
    rl_step unmarshal M w (w\<lparr>w_settled := w_settled w @ [(msg, Some PermanentErr, settle rnd (hm_meta msg) DefaultBackoff (Some PermanentErr))],
      w_consumed := w_consumed w @ [msg]\<rparr>)"
| hold: "unmarshal (hm_data msg) = Some evt \<Longrightarrow>
    rl_step unmarshal M w (w\<lparr>w_pending := batch_add (w_pending w) (deriveIntents evt) msg, w_consumed := w_consumed w @ [msg]\<rparr>)"
| swap: "\<not> batch_empty (w_pending w) \<Longrightarrow>
    rl_step unmarshal M w (w\<lparr>w_pending := newBatch,
      w_flights := w_flights w @ [\<lparr>fl_batch = w_pending w, fl_stage = 0, fl_noted = []\<rparr>]\<rparr>)"
| go_on: "w_flights w = fs @ fl # gs \<Longrightarrow> fl_stage fl < 3 \<Longrightarrow> m \<in> M \<Longrightarrow>
    write_stage m (fl_batch fl) (fl_stage fl) (fl_noted fl) (w_store w) = (Inr noted, st) \<Longrightarrow>
    rl_step unmarshal M w (w\<lparr>w_flights := fs @ fl\<lparr>fl_stage := fl_stage fl + 1, fl_noted := noted\<rparr> # gs, w_store := st\<rparr>)"
| give_up: "w_flights w = fs @ fl # gs \<Longrightarrow> fl_stage fl < 3 \<Longrightarrow> m \<in> M \<Longrightarrow>
    write_stage m (fl_batch fl) (fl_stage fl) (fl_noted fl) (w_store w) = (Inl e, st) \<Longrightarrow>
    rl_step unmarshal M w (w\<lparr>w_flights := fs @ gs, w_store := st, w_settled := w_settled w @ settle_batch rnd (fl_batch fl) (Some e)\<rparr>)"
| land: "w_flights w = fs @ fl # gs \<Longrightarrow> fl_stage fl = 3 \<Longrightarrow>
    rl_step unmarshal M w (w\<lparr>w_flights := fs @ gs,
      w_settled := w_settled w @ settle_batch rnd (fl_batch fl) (fo_err (outcome_of (fl_noted fl)))\<rparr>)"

definition fresh_worker :: "rl_store \<Rightarrow> worker" where
  "fresh_worker st = \<lparr>w_pending = newBatch, w_flights = [], w_store = st, w_settled = [], w_consumed = []\<rparr>"

definition reachable :: "(string \<Rightarrow> eventProjection option) \<Rightarrow> mongoStore set \<Rightarrow> rl_store \<Rightarrow> worker \<Rightarrow> bool" where
  "reachable unmarshal M st w \<longleftrightarrow> (rl_step unmarshal M)\<^sup>*\<^sup>* (fresh_worker st) w"

definition server :: "mongoStore \<Rightarrow> bool" where
  "server m \<longleftrightarrow> bulk_server (roomCol m) \<and> bulk_server (subCol m)"

section \<open>What a batch covers\<close>

definition real_time :: "int \<Rightarrow> bool" where
  "real_time t \<longleftrightarrow> UnixMilli zero_time < UnixMilli t"

definition row_le :: "int \<Rightarrow> string \<Rightarrow> int \<Rightarrow> string \<Rightarrow> bool" where
  "row_le t i t' i' \<longleftrightarrow> t < t' \<or> t = t' \<and> i \<le> i'"

lemma row_le_trans: "row_le t i t' i' \<Longrightarrow> row_le t' i' t'' i'' \<Longrightarrow> row_le t i t'' i''"
  by (auto simp: row_le_def)

lemma row_le_refl [simp]: "row_le t i t i"
  by (simp add: row_le_def)

lemma ptr_since_row: "ptr_since d t i \<longleftrightarrow> (\<exists>t' i'. d ''lastMsgAt'' = Some (BTime t') \<and> d ''lastMsgId'' = Some (BStr i') \<and> row_le t i t' i')"
  by (simp add: ptr_since_def row_le_def)

lemma ptr_since_mono: "ptr_since d t' i' \<Longrightarrow> row_le t i t' i' \<Longrightarrow> ptr_since d t i"
  unfolding ptr_since_row using row_le_trans by metis

lemma since_mono: "since d f t' \<Longrightarrow> t \<le> t' \<Longrightarrow> since d f t"
  by (auto simp: since_def)

lemma NewerRow_row: "NewerRow tm i cur j \<longleftrightarrow> \<not> row_le (UnixMilli tm) i (UnixMilli cur) j"
  by (auto simp: NewerRow_def row_le_def Let_def)

lemma UnixMilli_mono: "t \<le> t' \<Longrightarrow> UnixMilli t \<le> UnixMilli t'"
  by (simp add: UnixMilli_def zdiv_mono1)

definition room_covers :: "roomLastMsgUpdate \<Rightarrow> writeIntents \<Rightarrow> bool" where
  "room_covers u i \<longleftrightarrow> row_le (UnixMilli (wi_LastMsgAt i)) (wi_LastMsgID i) (UnixMilli (ru_at u)) (ru_msgID u)
     \<and> (\<not> wi_SystemMsg i \<longrightarrow> UnixMilli (wi_LastMsgAt i) \<le> UnixMilli (ru_userAt u))
     \<and> UnixMilli (wi_LastMentionAllAt i) \<le> UnixMilli (ru_lastMentionAllAt u)"

definition covers :: "batch \<Rightarrow> writeIntents \<Rightarrow> bool" where
  "covers b i \<longleftrightarrow>
     (wi_LastMsgID i \<noteq> '''' \<longrightarrow> (\<exists>u. map_of (b_rooms b) (wi_RoomID i) = Some u \<and> room_covers u i))
   \<and> (wi_SenderAccount i \<noteq> '''' \<and> real_time (wi_SenderSeenAt i) \<longrightarrow>
        (\<exists>t. map_of (b_lastSeen b) (wi_RoomID i, wi_SenderAccount i) = Some t \<and> UnixMilli (wi_SenderSeenAt i) \<le> UnixMilli t))
   \<and> (real_time (wi_MentionAt i) \<longrightarrow> (\<forall>a \<in> set (wi_MentionAccounts i).
        \<exists>t. map_of (b_mentions b) (wi_RoomID i, a) = Some t \<and> UnixMilli (wi_MentionAt i) \<le> UnixMilli t))"

lemma advance_room_covers: "room_covers (advance_room i u) i" "room_covers u j \<Longrightarrow> room_covers (advance_room i u) j"
proof -
  have tot: "row_le t' i' t x" if "\<not> row_le t x t' i'" for t x t' i'
    using that by (auto simp: row_le_def)
  have le: "UnixMilli t \<le> UnixMilli t'" if "row_le (UnixMilli t) x (UnixMilli t') y" for t t' x y
    using that by (auto simp: row_le_def)
  show "room_covers (advance_room i u) i"
    by (auto simp: room_covers_def advance_room_def Let_def NewerRow_row dest: le UnixMilli_mono intro: UnixMilli_mono)
  have grows: "row_le (UnixMilli (ru_at u)) (ru_msgID u) (UnixMilli (ru_at (advance_room i u))) (ru_msgID (advance_room i u))"
    "UnixMilli (ru_userAt u) \<le> UnixMilli (ru_userAt (advance_room i u))"
    "UnixMilli (ru_lastMentionAllAt u) \<le> UnixMilli (ru_lastMentionAllAt (advance_room i u))"
    by (auto simp: advance_room_def Let_def NewerRow_row dest!: tot dest: le intro: UnixMilli_mono)
  assume "room_covers u j"
  then show "room_covers (advance_room i u) j"
    using grows row_le_trans [OF _ grows(1)] by (auto simp: room_covers_def)
qed

lemma raise_covers:
  "real_time t \<Longrightarrow> \<exists>t'. map_of (raise k t m) k = Some t' \<and> UnixMilli t \<le> UnixMilli t'"
  "map_of m k' = Some s \<Longrightarrow> \<exists>t'. map_of (raise k t m) k' = Some t' \<and> UnixMilli s \<le> UnixMilli t'"
proof -
  have "t > zero_time" if "real_time t" using that UnixMilli_mono [of t zero_time] by (force simp: real_time_def)
  then show "real_time t \<Longrightarrow> \<exists>t'. map_of (raise k t m) k = Some t' \<and> UnixMilli t \<le> UnixMilli t'"
    by (auto simp: raise_def index_def update_conv' intro: UnixMilli_mono split: option.splits)
  show "map_of m k' = Some s \<Longrightarrow> \<exists>t'. map_of (raise k t m) k' = Some t' \<and> UnixMilli s \<le> UnixMilli t'"
    by (auto simp: raise_def index_def update_conv' intro: UnixMilli_mono)
qed

lemma raises_keep:
  "map_of m k = Some s \<Longrightarrow> \<exists>t'. map_of (foldl (\<lambda>m a. raise (r, a) t m) m as) k = Some t' \<and> UnixMilli s \<le> UnixMilli t'"
proof (induction as arbitrary: m s)
  case (Cons a as)
  obtain t' where "map_of (raise (r, a) t m) k = Some t'" "UnixMilli s \<le> UnixMilli t'" using raise_covers(2) [OF Cons.prems, of "(r, a)" t] by blast
  moreover from this obtain t'' where "map_of (foldl (\<lambda>m a. raise (r, a) t m) (raise (r, a) t m) as) k = Some t''" "UnixMilli t' \<le> UnixMilli t''"
    using Cons.IH by blast
  ultimately show ?case by simp
qed auto

lemma raises_covers:
  "real_time t \<Longrightarrow> a \<in> set as \<Longrightarrow> \<exists>t'. map_of (foldl (\<lambda>m a. raise (r, a) t m) m as) (r, a) = Some t' \<and> UnixMilli t \<le> UnixMilli t'"
proof (induction as arbitrary: m)
  case (Cons b as)
  obtain t' where t': "map_of (raise (r, b) t m) (r, b) = Some t'" "UnixMilli t \<le> UnixMilli t'" using raise_covers(1) [OF Cons.prems(1), of "(r, b)" m] by blast
  show ?case
  proof (cases "a \<in> set as")
    case True then show ?thesis using Cons.IH [OF Cons.prems(1)] by simp
  next
    case False
    then have "a = b" using Cons.prems(2) by simp
    obtain t'' where "map_of (foldl (\<lambda>m a. raise (r, a) t m) (raise (r, b) t m) as) (r, b) = Some t''" "UnixMilli t' \<le> UnixMilli t''"
      using raises_keep [OF t'(1)] by blast
    then show ?thesis using \<open>a = b\<close> t'(2) by simp
  qed
qed simp

lemma batch_add_covers: "covers (batch_add b i msg) i"
  unfolding covers_def batch_add_def batch.simps add_room_def add_seen_def add_mentions_def
  using advance_room_covers(1) raise_covers(1) raises_covers by (auto simp: update_conv')

lemma batch_add_keeps:
  assumes "covers b j"
  shows "covers (batch_add b i msg) j"
proof -
  have "\<exists>u. map_of (add_room i (b_rooms b)) (wi_RoomID j) = Some u \<and> room_covers u j"
    if "map_of (b_rooms b) (wi_RoomID j) = Some u" "room_covers u j" for u
    using that advance_room_covers(2) [of u j i] by (auto simp: add_room_def update_conv' index_def)
  moreover have "\<exists>t'. map_of (add_seen i (b_lastSeen b)) k = Some t' \<and> x \<le> UnixMilli t'"
    if "map_of (b_lastSeen b) k = Some t" "x \<le> UnixMilli t" for k t x
    using that raise_covers(2) [OF that(1), of "(wi_RoomID i, wi_SenderAccount i)" "wi_SenderSeenAt i"]
    by (auto simp: add_seen_def intro: order_trans)
  moreover have "\<exists>t'. map_of (add_mentions i (b_mentions b)) k = Some t' \<and> x \<le> UnixMilli t'"
    if "map_of (b_mentions b) k = Some t" "x \<le> UnixMilli t" for k t x
    using raises_keep [OF that(1), of "wi_RoomID i" "wi_MentionAt i" "wi_MentionAccounts i"] that(2) order_trans
    unfolding add_mentions_def by blast
  ultimately show ?thesis using assms unfolding covers_def batch_add_def batch.simps by meson
qed

section \<open>What the store has recorded\<close>

definition room_recorded :: "rl_store \<Rightarrow> writeIntents \<Rightarrow> bool" where
  "room_recorded st i \<longleftrightarrow> (wi_LastMsgID i \<noteq> '''' \<longrightarrow>
     (\<forall>d \<in> set (st_rooms st). d ''_id'' = Some (BStr (wi_RoomID i)) \<longrightarrow>
        ptr_since d (UnixMilli (wi_LastMsgAt i)) (wi_LastMsgID i)
        \<and> (\<not> wi_SystemMsg i \<and> real_time (wi_LastMsgAt i) \<longrightarrow> since d ''lastUserMsgAt'' (UnixMilli (wi_LastMsgAt i)))
        \<and> (real_time (wi_LastMentionAllAt i) \<longrightarrow> since d ''lastMentionAllAt'' (UnixMilli (wi_LastMentionAllAt i)))))"

definition seen_recorded :: "rl_store \<Rightarrow> writeIntents \<Rightarrow> bool" where
  "seen_recorded st i \<longleftrightarrow> (wi_SenderAccount i \<noteq> '''' \<and> real_time (wi_SenderSeenAt i) \<longrightarrow>
     (\<forall>d \<in> set (st_subs st). sub_key_of d = (Some (BStr (wi_RoomID i)), Some (BStr (wi_SenderAccount i))) \<longrightarrow>
        since d ''lastSeenAt'' (UnixMilli (wi_SenderSeenAt i))))"

definition mentions_recorded :: "rl_store \<Rightarrow> writeIntents \<Rightarrow> bool" where
  "mentions_recorded st i \<longleftrightarrow> (real_time (wi_MentionAt i) \<longrightarrow> (\<forall>a \<in> set (wi_MentionAccounts i).
     \<forall>d \<in> set (st_subs st). sub_key_of d = (Some (BStr (wi_RoomID i)), Some (BStr a)) \<longrightarrow>
        d ''hasMention'' = Some (BBool True) \<or> since d ''lastSeenAt'' (UnixMilli (wi_MentionAt i))))"

definition recorded :: "nat \<Rightarrow> rl_store \<Rightarrow> writeIntents \<Rightarrow> bool" where
  "recorded n st i \<longleftrightarrow> (0 < n \<longrightarrow> room_recorded st i) \<and> (1 < n \<longrightarrow> seen_recorded st i) \<and> (2 < n \<longrightarrow> mentions_recorded st i)"

definition store_good :: "rl_store \<Rightarrow> bool" where
  "store_good st \<longleftrightarrow> rooms.good (st_rooms st) \<and> subs.good (st_subs st)"

definition store_le :: "rl_store \<Rightarrow> rl_store \<Rightarrow> bool" where
  "store_le st st' \<longleftrightarrow> list_all2 room_le (st_rooms st) (st_rooms st') \<and> list_all2 sub_le (st_subs st) (st_subs st')"

lemma list_all2_pred: "list_all2 R xs ys \<Longrightarrow> y \<in> set ys \<Longrightarrow> \<exists>x \<in> set xs. R x y"
  by (metis in_set_conv_nth list_all2_conv_all_nth)

lemma recorded_forward:
  assumes "store_le st st'" "recorded n st i"
  shows "recorded n st' i"
proof -
  have room: "room_recorded st' i" if "room_recorded st i"
    unfolding room_recorded_def
  proof (intro impI ballI)
    fix d' assume id: "wi_LastMsgID i \<noteq> ''''" and d': "d' \<in> set (st_rooms st')" "d' ''_id'' = Some (BStr (wi_RoomID i))"
    obtain d where d: "d \<in> set (st_rooms st)" "room_le d d'" using list_all2_pred [OF _ d'(1)] assms(1) unfolding store_le_def by metis
    then have "d ''_id'' = Some (BStr (wi_RoomID i))" using d'(2) by (simp add: room_le_def)
    then show "ptr_since d' (UnixMilli (wi_LastMsgAt i)) (wi_LastMsgID i)
        \<and> (\<not> wi_SystemMsg i \<and> real_time (wi_LastMsgAt i) \<longrightarrow> since d' ''lastUserMsgAt'' (UnixMilli (wi_LastMsgAt i)))
        \<and> (real_time (wi_LastMentionAllAt i) \<longrightarrow> since d' ''lastMentionAllAt'' (UnixMilli (wi_LastMentionAllAt i)))"
      using that id d unfolding room_recorded_def room_le_def by simp
  qed
  have sub: "\<exists>d \<in> set (st_subs st). sub_le d d' \<and> sub_key_of d = sub_key_of d'" if "d' \<in> set (st_subs st')" for d'
    using assms(1) that list_all2_pred [of sub_le "st_subs st" "st_subs st'" d'] by (auto simp: store_le_def sub_key_of_def sub_le_def)
  have "seen_recorded st' i" if "seen_recorded st i"
    using that sub unfolding seen_recorded_def sub_le_def by metis
  moreover have "mentions_recorded st' i" if "mentions_recorded st i"
    using that sub unfolding mentions_recorded_def sub_le_def by metis
  ultimately show ?thesis using room assms(2) by (auto simp: recorded_def)
qed

section \<open>One stage\<close>

lemma mset_allowed: "mset ws' \<subseteq># mset ws \<Longrightarrow> \<forall>w \<in> set ws. P w \<Longrightarrow> \<forall>w \<in> set ws'. P w"
  by (meson in_multiset_in_set mset_subset_eqD)

lemma models_allowed:
  "\<forall>w \<in> set (roomLastMsgModels us). room_model w"
  "\<forall>w \<in> set (map seen_model ks). sub_model w" "\<forall>w \<in> set (map mention_model ks). sub_model w"
  by (auto simp: roomLastMsgModels_def room_model_def sub_model_def)

lemma rooms_le_refl: "list_all2 room_le c c" and subs_le_refl: "list_all2 sub_le c c"
  by (simp_all add: list_all2_same)

lemma room_stage:
  assumes "bulk_server (roomCol m)" "store_good st" "BulkUpdateRoomLastMessage m us st = (e, st')"
  shows "store_good st'" "store_le st st'"
    "e = None \<Longrightarrow> map_of us (wi_RoomID i) = Some u \<Longrightarrow> room_covers u i \<Longrightarrow> room_recorded st' i"
proof -
  let ?ws = "roomLastMsgModels us"
  obtain c' where c': "guarded (roomCol m) ?ws (st_rooms st) = (e, c')" "st' = st\<lparr>st_rooms := c'\<rparr>"
    using assms(3) unfolding BulkUpdateRoomLastMessage_def by (auto split: prod.splits)
  obtain ws' where ws': "mset ws' \<subseteq># mset ?ws" "c' = fold apply_one ws' (st_rooms st)"
    using bulk_server.guarded_partly [OF assms(1) c'(1)] by blast
  have good: "rooms.good (st_rooms st)" using assms(2) by (simp add: store_good_def)
  note many = rooms.many [OF good mset_allowed [OF ws'(1) models_allowed(1)]]
  show "store_good st'" "store_le st st'"
    using many assms(2) ws'(2) c'(2) by (simp_all add: store_good_def store_le_def subs_le_refl)
  assume land: "e = None" "map_of us (wi_RoomID i) = Some u" "room_covers u i"
  obtain vs where vs: "mset vs = mset ?ws" "c' = fold apply_one vs (st_rooms st)"
    using bulk_server.guarded_lands [OF assms(1)] c'(1) land(1) by blast
  have vset: "set vs = set ?ws" using vs(1) by (metis mset_eq_setD)
  have allowed: "\<forall>w \<in> set vs. room_model w" using vset models_allowed(1) by blast
  have entry: "set (room_models (wi_RoomID i, u)) \<subseteq> set vs"
    using map_of_SomeD [OF land(2)] unfolding vset roomLastMsgModels_def by fastforce
  note cov = land(3) [unfolded room_covers_def]
  have nonzero: "\<not> IsZero t'" if "real_time t" "UnixMilli t \<le> UnixMilli t'" for t t'
    using that by (auto simp: real_time_def IsZero_def)
  show "room_recorded st' i"
    unfolding room_recorded_def
  proof (intro impI ballI conjI)
    fix d assume d: "d \<in> set (st_rooms st')" "d ''_id'' = Some (BStr (wi_RoomID i))"
    then have d': "d \<in> set (fold apply_one vs (st_rooms st))" using c'(2) vs(2) by simp
    note last = rooms.lasting [OF good allowed _ d' d(2)]
    have "ptr_since d (UnixMilli (ru_at u)) (ru_msgID u)"
      by (rule last [of "(roomLastMsgFilter (wi_RoomID i) (ru_msgID u) (ru_at u), roomPointerUpdate u)"])
        (use entry pointer_hit(3) [OF _ _ refl] in \<open>auto simp: room_models_def room_le_def\<close>)
    then show "ptr_since d (UnixMilli (wi_LastMsgAt i)) (wi_LastMsgID i)" using ptr_since_mono cov by blast
    { assume nz: "\<not> IsZero (ru_userAt u)"
      have "since d ''lastUserMsgAt'' (UnixMilli (ru_userAt u))"
        by (rule last [of "(FEq ''_id'' (BStr (wi_RoomID i)), [UMax (room_maxes u)])"])
          (use entry nz maxes_hit(3) [OF _ _ refl nz] in \<open>auto simp: room_models_def room_le_def room_maxes_def\<close>) }
    moreover assume "\<not> wi_SystemMsg i \<and> real_time (wi_LastMsgAt i)"
    ultimately show "since d ''lastUserMsgAt'' (UnixMilli (wi_LastMsgAt i))"
      using cov nonzero since_mono by blast
  next
    fix d assume d: "d \<in> set (st_rooms st')" "d ''_id'' = Some (BStr (wi_RoomID i))" and "real_time (wi_LastMentionAllAt i)"
    then have nz: "\<not> IsZero (ru_lastMentionAllAt u)" using cov nonzero by blast
    have d': "d \<in> set (fold apply_one vs (st_rooms st))" using d(1) c'(2) vs(2) by simp
    have "since d ''lastMentionAllAt'' (UnixMilli (ru_lastMentionAllAt u))"
      by (rule rooms.lasting [OF good allowed _ d' d(2), of "(FEq ''_id'' (BStr (wi_RoomID i)), [UMax (room_maxes u)])"])
        (use entry nz maxes_hit(4) [OF _ _ refl nz] in \<open>auto simp: room_models_def room_le_def room_maxes_def\<close>)
    then show "since d ''lastMentionAllAt'' (UnixMilli (wi_LastMentionAllAt i))" using since_mono cov by blast
  qed
qed

lemma sub_stage:
  assumes "bulk_server (subCol m)" "store_good st" "guarded (subCol m) ws (st_subs st) = (e, c')" "\<forall>w \<in> set ws. sub_model w"
    "st' = st\<lparr>st_subs := c'\<rparr>"
  shows "store_good st'" "store_le st st'"
    "e = None \<Longrightarrow> w \<in> set ws \<Longrightarrow> d \<in> set c' \<Longrightarrow> sub_key_of d = k \<Longrightarrow> (\<And>d. sub_ok d \<Longrightarrow> sub_key_of d = k \<Longrightarrow> P (hit w d)) \<Longrightarrow>
       (\<And>d d'. sub_le d d' \<Longrightarrow> P d \<Longrightarrow> P d') \<Longrightarrow> P d"
proof -
  have good: "subs.good (st_subs st)" using assms(2) by (simp add: store_good_def)
  obtain ws' where ws': "mset ws' \<subseteq># mset ws" "c' = fold apply_one ws' (st_subs st)"
    using bulk_server.guarded_partly [OF assms(1,3)] by blast
  note many = subs.many [OF good mset_allowed [OF ws'(1) assms(4)]]
  show "store_good st'" "store_le st st'"
    using many assms(2,5) ws'(2) by (simp_all add: store_good_def store_le_def rooms_le_refl)
  assume land: "e = None" "w \<in> set ws" "d \<in> set c'" "sub_key_of d = k" "\<And>d. sub_ok d \<Longrightarrow> sub_key_of d = k \<Longrightarrow> P (hit w d)"
    "\<And>d d'. sub_le d d' \<Longrightarrow> P d \<Longrightarrow> P d'"
  obtain vs where vs: "mset vs = mset ws" "c' = fold apply_one vs (st_subs st)"
    using bulk_server.guarded_lands [OF assms(1)] assms(3) land(1) by blast
  have vset: "set vs = set ws" using vs(1) by (metis mset_eq_setD)
  show "P d"
    by (rule subs.lasting [of "st_subs st" vs w d k P]) (use good vset assms(4) land vs(2) in auto)
qed

lemma write_stage_forward:
  assumes "server m" "store_good st" "write_stage m b n noted st = (r, st')"
  shows "store_good st'" "store_le st st'"
proof -
  note sub = sub_stage(1,2) [OF _ assms(2) _ models_allowed(2) refl] sub_stage(1,2) [OF _ assms(2) _ models_allowed(3) refl]
  have "bulk_server (roomCol m)" "bulk_server (subCol m)" using assms(1) by (simp_all add: server_def)
  then show "store_good st'" "store_le st st'"
    using assms(3) room_stage(1,2) [OF _ assms(2)] sub unfolding write_stage_def
    by (auto simp: BulkAdvanceLastSeen_def BulkSetMentions_def split: prod.splits if_splits)
qed

lemma stage_clean: "stage name e noted = Inr noted' \<Longrightarrow> noted' = [] \<Longrightarrow> e = None \<and> noted = []"
  by (auto simp: stage_def split: option.splits proc_err.splits)

lemma stage_transient: "stage name e noted = Inl x \<Longrightarrow> x = TransientErr"
  by (auto simp: stage_def split: option.splits proc_err.splits)

lemma write_stage_transient: "write_stage m b n noted st = (Inl e, st') \<Longrightarrow> e = TransientErr"
  by (auto simp: write_stage_def dest: stage_transient split: prod.splits if_splits)

lemma write_stage_records:
  assumes "server m" "store_good st" "write_stage m b n noted st = (Inr [], st')" "covers b i" "n < 3" "noted = [] \<Longrightarrow> recorded n st i"
  shows "noted = []" "recorded (Suc n) st' i"
proof -
  have srv: "bulk_server (roomCol m)" "bulk_server (subCol m)" using assms(1) by (simp_all add: server_def)
  show clean: "noted = []"
    using assms(3) unfolding write_stage_def by (auto dest!: stage_clean split: prod.splits if_splits)
  have fwd: "recorded n st' i"
    using recorded_forward write_stage_forward [OF assms(1-3)] assms(6) clean by blast
  consider "n = 0" | "n = 1" | "n = 2" using assms(5) by linarith
  then show "recorded (Suc n) st' i"
  proof cases
    case 1
    then obtain e where e: "BulkUpdateRoomLastMessage m (b_rooms b) st = (e, st')" "e = None"
      using assms(3) unfolding write_stage_def by (auto dest: stage_clean split: prod.splits)
    have "room_recorded st' i"
      using room_stage(3) [OF srv(1) assms(2) e(1,2)] assms(4) unfolding covers_def room_recorded_def by blast
    then show ?thesis using 1 by (simp add: recorded_def)
  next
    case 2
    then obtain c' where e: "guarded (subCol m) (map seen_model (b_lastSeen b)) (st_subs st) = (None, c')" "st' = st\<lparr>st_subs := c'\<rparr>"
      using assms(3) unfolding write_stage_def BulkAdvanceLastSeen_def by (auto dest: stage_clean split: prod.splits)
    have "seen_recorded st' i"
      unfolding seen_recorded_def
    proof (intro impI ballI)
      fix d assume s: "wi_SenderAccount i \<noteq> '''' \<and> real_time (wi_SenderSeenAt i)" and d: "d \<in> set (st_subs st')"
        "sub_key_of d = (Some (BStr (wi_RoomID i)), Some (BStr (wi_SenderAccount i)))"
      obtain t where t: "((wi_RoomID i, wi_SenderAccount i), t) \<in> set (b_lastSeen b)" "UnixMilli (wi_SenderSeenAt i) \<le> UnixMilli t"
        using assms(4) s unfolding covers_def by (meson map_of_SomeD)
      have "since d ''lastSeenAt'' (UnixMilli t)"
        by (rule sub_stage(3) [OF srv(2) assms(2) e(1) models_allowed(2) refl refl, of "seen_model ((wi_RoomID i, wi_SenderAccount i), t)"])
          (use t d e(2) seen_hit(3) in \<open>auto simp: sub_key_of_def sub_le_def\<close>)
      then show "since d ''lastSeenAt'' (UnixMilli (wi_SenderSeenAt i))" using since_mono t(2) by blast
    qed
    then show ?thesis using 2 fwd by (simp add: recorded_def)
  next
    case 3
    then obtain c' where e: "guarded (subCol m) (map mention_model (b_mentions b)) (st_subs st) = (None, c')" "st' = st\<lparr>st_subs := c'\<rparr>"
      using assms(3) unfolding write_stage_def BulkSetMentions_def by (auto dest: stage_clean split: prod.splits)
    have "mentions_recorded st' i"
      unfolding mentions_recorded_def
    proof (intro impI ballI)
      fix a d assume s: "real_time (wi_MentionAt i)" "a \<in> set (wi_MentionAccounts i)" and d: "d \<in> set (st_subs st')"
        "sub_key_of d = (Some (BStr (wi_RoomID i)), Some (BStr a))"
      obtain t where t: "((wi_RoomID i, a), t) \<in> set (b_mentions b)" "UnixMilli (wi_MentionAt i) \<le> UnixMilli t"
        using assms(4) s unfolding covers_def by (meson map_of_SomeD)
      have "d ''hasMention'' = Some (BBool True) \<or> since d ''lastSeenAt'' (UnixMilli t)"
        by (rule sub_stage(3) [OF srv(2) assms(2) e(1) models_allowed(3) refl refl, of "mention_model ((wi_RoomID i, a), t)"])
          (use t d e(2) mention_hit(3) [where k = "(wi_RoomID i, a)" and tm = t] in \<open>auto simp: sub_key_of_def sub_le_def\<close>)
      then show "d ''hasMention'' = Some (BBool True) \<or> since d ''lastSeenAt'' (UnixMilli (wi_MentionAt i))"
        using since_mono t(2) by blast
    qed
    then show ?thesis using 3 fwd by (simp add: recorded_def)
  qed
qed

section \<open>The invariant\<close>

definition intents_of :: "(string \<Rightarrow> eventProjection option) \<Rightarrow> heldMsg \<Rightarrow> writeIntents option" where
  "intents_of unmarshal h = map_option deriveIntents (unmarshal (hm_data h))"

definition batch_covered :: "(string \<Rightarrow> eventProjection option) \<Rightarrow> batch \<Rightarrow> bool" where
  "batch_covered unmarshal b \<longleftrightarrow> (\<forall>h \<in> set (b_held b). \<exists>i. intents_of unmarshal h = Some i \<and> covers b i)"

definition flight_ok :: "(string \<Rightarrow> eventProjection option) \<Rightarrow> rl_store \<Rightarrow> flight \<Rightarrow> bool" where
  "flight_ok unmarshal st fl \<longleftrightarrow> fl_stage fl \<le> 3 \<and> batch_covered unmarshal (fl_batch fl)
     \<and> (fl_noted fl = [] \<longrightarrow> (\<forall>h \<in> set (b_held (fl_batch fl)). \<forall>i. intents_of unmarshal h = Some i \<longrightarrow> recorded (fl_stage fl) st i))"

definition settled_ok :: "(string \<Rightarrow> eventProjection option) \<Rightarrow> rl_store \<Rightarrow> settled \<Rightarrow> bool" where
  "settled_ok unmarshal st s \<longleftrightarrow> (case s of (h, err, verdict) \<Rightarrow>
     (verdict = Ack \<longleftrightarrow> err \<noteq> Some TransientErr)
     \<and> (err = None \<longrightarrow> (\<exists>i. intents_of unmarshal h = Some i \<and> recorded 3 st i)))"

definition worker_inv :: "(string \<Rightarrow> eventProjection option) \<Rightarrow> worker \<Rightarrow> bool" where
  "worker_inv unmarshal w \<longleftrightarrow> store_good (w_store w) \<and> batch_covered unmarshal (w_pending w)
     \<and> (\<forall>fl \<in> set (w_flights w). flight_ok unmarshal (w_store w) fl) \<and> (\<forall>s \<in> set (w_settled w). settled_ok unmarshal (w_store w) s)
     \<and> mset (w_consumed w) = mset (b_held (w_pending w)) + mset (concat (map (\<lambda>fl. b_held (fl_batch fl)) (w_flights w)))
         + mset (map fst (w_settled w))"

lemma settle_ack: "settle rnd meta backoff err = Ack \<longleftrightarrow> err \<noteq> Some TransientErr"
  by (auto simp: settle_def split: option.splits proc_err.splits)

lemma covered_new: "batch_covered unmarshal newBatch"
  by (simp add: batch_covered_def newBatch_def)

lemma covered_add:
  "batch_covered unmarshal b \<Longrightarrow> unmarshal (hm_data msg) = Some evt \<Longrightarrow>
    batch_covered unmarshal (batch_add b (deriveIntents evt) msg)"
proof -
  assume b: "batch_covered unmarshal b" and evt: "unmarshal (hm_data msg) = Some evt"
  have held: "b_held (batch_add b (deriveIntents evt) msg) = b_held b @ [msg]" by (simp add: batch_add_def)
  have "intents_of unmarshal msg = Some (deriveIntents evt)" using evt by (simp add: intents_of_def)
  then show ?thesis
    using b batch_add_covers batch_add_keeps unfolding batch_covered_def held by (metis Un_iff empty_iff empty_set insert_iff list.simps(15) set_append)
qed

lemma flight_forward: "flight_ok unmarshal st fl \<Longrightarrow> store_le st st' \<Longrightarrow> flight_ok unmarshal st' fl"
  using recorded_forward unfolding flight_ok_def by blast

lemma settled_forward: "settled_ok unmarshal st s \<Longrightarrow> store_le st st' \<Longrightarrow> settled_ok unmarshal st' s"
  using recorded_forward unfolding settled_ok_def by (cases s) blast

lemma settle_batch_fst: "map fst (settle_batch rnd b err) = b_held b"
  by (simp add: settle_batch_def comp_def)

lemma settle_batch_ok:
  assumes "err = None \<Longrightarrow> \<forall>h \<in> set (b_held b). \<exists>i. intents_of unmarshal h = Some i \<and> recorded 3 st i" "s \<in> set (settle_batch rnd b err)"
  shows "settled_ok unmarshal st s"
  using assms by (auto simp: settle_batch_def settled_ok_def settle_ack)

text \<open>A stage leaves every other flight and everything settled in order, and brings its own flight one stage on.\<close>

lemma stage_keeps:
  assumes "server m" "worker_inv unmarshal w" "write_stage m b n noted (w_store w) = (r, st)"
  shows "store_good st" "fl \<in> set (w_flights w) \<Longrightarrow> flight_ok unmarshal st fl" "s \<in> set (w_settled w) \<Longrightarrow> settled_ok unmarshal st s"
proof -
  have good: "store_good (w_store w)" using assms(2) by (simp add: worker_inv_def)
  note fwd = write_stage_forward [OF assms(1) good assms(3)]
  show "store_good st" by (rule fwd(1))
  show "fl \<in> set (w_flights w) \<Longrightarrow> flight_ok unmarshal st fl"
    using assms(2) flight_forward [OF _ fwd(2)] by (simp add: worker_inv_def)
  show "s \<in> set (w_settled w) \<Longrightarrow> settled_ok unmarshal st s"
    using assms(2) settled_forward [OF _ fwd(2)] by (simp add: worker_inv_def)
qed

lemma stage_advances:
  assumes "server m" "store_good st" "write_stage m (fl_batch fl) (fl_stage fl) (fl_noted fl) st = (Inr noted, st')"
    "flight_ok unmarshal st fl" "fl_stage fl < 3"
  shows "flight_ok unmarshal st' (fl\<lparr>fl_stage := fl_stage fl + 1, fl_noted := noted\<rparr>)"
proof -
  have rec: "recorded (Suc (fl_stage fl)) st' i" if "noted = []" "h \<in> set (b_held (fl_batch fl))" "intents_of unmarshal h = Some i" for h i
  proof -
    have cov: "covers (fl_batch fl) i" using assms(4) that(2,3) by (fastforce simp: flight_ok_def batch_covered_def)
    have prev: "fl_noted fl = [] \<Longrightarrow> recorded (fl_stage fl) st i" using assms(4) that(2,3) by (simp add: flight_ok_def)
    show ?thesis using write_stage_records(2) [OF assms(1,2) _ cov assms(5) prev] assms(3) that(1) by blast
  qed
  then show ?thesis using assms(4,5) by (auto simp: flight_ok_def)
qed

lemma step_inv:
  assumes "\<forall>m \<in> M. server m" "rl_step unmarshal M w w'" "worker_inv unmarshal w"
  shows "worker_inv unmarshal w'"
  using assms(2,3)
proof cases
  case (malformed msg rnd)
  then show ?thesis using assms(3) by (auto simp: worker_inv_def settled_ok_def settle_ack)
next
  case (hold msg evt)
  have "b_held (batch_add (w_pending w) (deriveIntents evt) msg) = b_held (w_pending w) @ [msg]" by (simp add: batch_add_def)
  then show ?thesis using hold assms(3) covered_add [of unmarshal "w_pending w" msg evt] by (simp add: worker_inv_def)
next
  case swap
  then show ?thesis using assms(3) covered_new by (auto simp: worker_inv_def flight_ok_def recorded_def newBatch_def)
next
  case (go_on fs fl gs m noted st)
  have srv: "server m" using assms(1) go_on(4) by blast
  note keep = stage_keeps [OF srv assms(3) go_on(5)]
  have fl: "flight_ok unmarshal (w_store w) fl" "store_good (w_store w)" using assms(3) go_on(2) by (simp_all add: worker_inv_def)
  show ?thesis
    using assms(3) keep stage_advances [OF srv fl(2) go_on(5) fl(1) go_on(3)] go_on(1,2) by (auto simp: worker_inv_def)
next
  case (give_up fs fl gs m e st rnd)
  have srv: "server m" using assms(1) give_up(4) by blast
  note keep = stage_keeps [OF srv assms(3) give_up(5)]
  show ?thesis
    using assms(3) keep settle_batch_ok [of "Some e" "fl_batch fl" unmarshal st] give_up(1,2)
    by (auto simp: worker_inv_def settle_batch_fst)
next
  case (land fs fl gs rnd)
  have fl: "flight_ok unmarshal (w_store w) fl" using assms(3) land(2) by (simp add: worker_inv_def)
  have "\<forall>h \<in> set (b_held (fl_batch fl)). \<exists>i. intents_of unmarshal h = Some i \<and> recorded 3 (w_store w) i"
    if "fo_err (outcome_of (fl_noted fl)) = None"
  proof -
    have "fl_noted fl = []" using that by (simp add: outcome_of_def split: if_splits)
    then show ?thesis using fl land(3) unfolding flight_ok_def batch_covered_def by metis
  qed
  then show ?thesis
    using assms(3) settle_batch_ok [of "fo_err (outcome_of (fl_noted fl))" "fl_batch fl" unmarshal "w_store w"] land(1,2)
    by (auto simp: worker_inv_def settle_batch_fst)
qed

lemma reachable_inv:
  assumes "\<forall>m \<in> M. server m" "store_good st" "reachable unmarshal M st w"
  shows "worker_inv unmarshal w"
proof -
  have init: "worker_inv unmarshal (fresh_worker st)"
    using assms(2) covered_new by (simp add: worker_inv_def fresh_worker_def newBatch_def)
  from assms(3) [unfolded reachable_def] show ?thesis
    by (induction rule: rtranclp_induct) (use init step_inv [OF assms(1)] in auto)
qed

section \<open>The room pointer\<close>

text \<open>The rows of a room among the consumed messages, and the row a document points at.\<close>

definition rows_of :: "(string \<Rightarrow> eventProjection option) \<Rightarrow> heldMsg list \<Rightarrow> string \<Rightarrow> (int \<times> string) set" where
  "rows_of unmarshal C r = {(UnixMilli (wi_LastMsgAt i), wi_LastMsgID i) | h i. h \<in> set C \<and> intents_of unmarshal h = Some i
     \<and> wi_LastMsgID i \<noteq> '''' \<and> wi_RoomID i = r}"

definition doc_rows :: "doc \<Rightarrow> (int \<times> string) set" where
  "doc_rows d = {(t, i). d ''lastMsgAt'' = Some (BTime t) \<and> d ''lastMsgId'' = Some (BStr i)}"

definition all_timed :: "(string \<Rightarrow> eventProjection option) \<Rightarrow> heldMsg list \<Rightarrow> bool" where
  "all_timed unmarshal C \<longleftrightarrow> (\<forall>h \<in> set C. \<forall>i. intents_of unmarshal h = Some i \<and> wi_LastMsgID i \<noteq> '''' \<longrightarrow> real_time (wi_LastMsgAt i))"

lemma rows_of_mono: "set C \<subseteq> set C' \<Longrightarrow> rows_of unmarshal C r \<subseteq> rows_of unmarshal C' r"
  by (auto simp: rows_of_def)

definition batch_from :: "(string \<Rightarrow> eventProjection option) \<Rightarrow> heldMsg list \<Rightarrow> batch \<Rightarrow> bool" where
  "batch_from unmarshal C b \<longleftrightarrow> (\<forall>(r, u) \<in> set (b_rooms b). (UnixMilli (ru_at u), ru_msgID u) \<in> rows_of unmarshal C r)"

lemma batch_from_mono: "batch_from unmarshal C b \<Longrightarrow> set C \<subseteq> set C' \<Longrightarrow> batch_from unmarshal C' b"
  using rows_of_mono unfolding batch_from_def by blast

lemma set_update_subset: "set (AList.update k v al) \<subseteq> insert (k, v) (set al)"
  by (induction al) auto

lemma advance_room_row:
  "(UnixMilli (ru_at (advance_room i u)), ru_msgID (advance_room i u)) =
     (if NewerRow (wi_LastMsgAt i) (wi_LastMsgID i) (ru_at u) (ru_msgID u) then (UnixMilli (wi_LastMsgAt i), wi_LastMsgID i)
      else (UnixMilli (ru_at u), ru_msgID u))"
  by (simp add: advance_room_def Let_def)

lemma batch_add_from:
  assumes "batch_from unmarshal C b" "intents_of unmarshal msg = Some i" "all_timed unmarshal (C @ [msg])"
  shows "batch_from unmarshal (C @ [msg]) (batch_add b i msg)"
proof (cases "wi_LastMsgID i = ''''")
  case True
  then have "b_rooms (batch_add b i msg) = b_rooms b" by (simp add: batch_add_def add_room_def)
  moreover have "batch_from unmarshal (C @ [msg]) b" by (rule batch_from_mono [OF assms(1)]) auto
  ultimately show ?thesis by (simp add: batch_from_def)
next
  case False
  let ?cur = "index zero_update (b_rooms b) (wi_RoomID i)" and ?C = "C @ [msg]"
  have own: "(UnixMilli (wi_LastMsgAt i), wi_LastMsgID i) \<in> rows_of unmarshal ?C (wi_RoomID i)"
    using assms(2) False unfolding rows_of_def by fastforce
  have real: "real_time (wi_LastMsgAt i)" using assms(2,3) False by (simp add: all_timed_def)
  have cur: "(UnixMilli (ru_at ?cur), ru_msgID ?cur) \<in> rows_of unmarshal ?C (wi_RoomID i)
      \<or> NewerRow (wi_LastMsgAt i) (wi_LastMsgID i) (ru_at ?cur) (ru_msgID ?cur)"
  proof (cases "map_of (b_rooms b) (wi_RoomID i)")
    case None
    then have "?cur = zero_update" by (simp add: index_def)
    then show ?thesis using real by (simp add: NewerRow_def zero_update_def real_time_def)
  next
    case (Some u)
    then have "(UnixMilli (ru_at u), ru_msgID u) \<in> rows_of unmarshal C (wi_RoomID i)"
      using assms(1) map_of_SomeD [OF Some] by (auto simp: batch_from_def)
    then show ?thesis using Some rows_of_mono [of C ?C] by (auto simp: index_def)
  qed
  have new: "(UnixMilli (ru_at (advance_room i ?cur)), ru_msgID (advance_room i ?cur)) \<in> rows_of unmarshal ?C (wi_RoomID i)"
    unfolding advance_room_row using own cur by auto
  have "(UnixMilli (ru_at u), ru_msgID u) \<in> rows_of unmarshal ?C r" if "(r, u) \<in> set (b_rooms b)" for r u
    using batch_from_mono [OF assms(1), of ?C] that by (auto simp: batch_from_def)
  then show ?thesis
    using new set_update_subset [of "wi_RoomID i" "advance_room i ?cur" "b_rooms b"] False
    by (auto simp: batch_from_def batch_add_def add_room_def)
qed

text \<open>A room write leaves the pointer or sets it to its own row.\<close>

lemma hit_rows:
  assumes "room_ok d" "w \<in> set (roomLastMsgModels us)"
  shows "doc_rows (hit w d) \<subseteq> doc_rows d \<union> {(UnixMilli (ru_at u), ru_msgID u) | r u. (r, u) \<in> set us \<and> d ''_id'' = Some (BStr r)}"
proof -
  obtain r u where u: "(r, u) \<in> set us" "w \<in> set (room_models (r, u))" using assms(2) by (auto simp: roomLastMsgModels_def)
  obtain r' where r': "d ''_id'' = Some (BStr r')" using assms(1) unfolding room_ok_def by (elim conjE exE)
  consider "w = (roomLastMsgFilter r (ru_msgID u) (ru_at u), roomPointerUpdate u)" | "w = (FEq ''_id'' (BStr r), [UMax (room_maxes u)])"
    using u(2) by (auto simp: room_models_def split: if_splits)
  then show ?thesis
  proof cases
    case 1
    then have "hit w d = (if r = r' \<and> \<not> ptr_since d (UnixMilli (ru_at u)) (ru_msgID u) then upd (roomPointerUpdate u) d else d)"
      using pointer_sat [OF assms(1) r'] by (simp add: hit_def)
    moreover have "doc_rows (upd (roomPointerUpdate u) d) = {(UnixMilli (ru_at u), ru_msgID u)}"
      by (auto simp: doc_rows_def pointer_upd bson_time_def)
    ultimately show ?thesis using u(1) r' by auto
  next
    case 2
    have "hit w d f = d f" if "f \<noteq> ''lastUserMsgAt''" "f \<noteq> ''lastMentionAllAt''" for f
      unfolding 2 hit_def using that by (auto simp: apply_update_def room_maxes_def intro: fold_max_other)
    then show ?thesis by (auto simp: doc_rows_def)
  qed
qed

end
