(* ===== verification/Roomlist_Props.thy ===== *)
theory Roomlist_Props
  imports Roomlist_Worker
begin

text \<open>
  What the room-list worker guarantees: an acknowledged message is in the store, nothing is lost or settled
  twice, the room pointer ends at the newest message, and the functions of the code are runs of the state
  machine.
\<close>

section \<open>Where the pointers come from\<close>

definition id_rows :: "(string \<Rightarrow> eventProjection option) \<Rightarrow> heldMsg list \<Rightarrow> bson option \<Rightarrow> (int \<times> string) set" where
  "id_rows unmarshal C v = (case v of Some (BStr r) \<Rightarrow> rows_of unmarshal C r | _ \<Rightarrow> {})"

lemma id_rows_Some [simp]: "id_rows unmarshal C (Some (BStr r)) = rows_of unmarshal C r"
  by (simp add: id_rows_def)

lemma id_rows_mono: "set C \<subseteq> set C' \<Longrightarrow> id_rows unmarshal C v \<subseteq> id_rows unmarshal C' v"
  unfolding id_rows_def by (auto dest: rows_of_mono split: option.splits bson.splits)


lemma fold_rows:
  assumes "rooms.good c" "set ws \<subseteq> set (roomLastMsgModels us)" "d \<in> set (fold apply_one ws c)"
  shows "\<exists>d0 \<in> set c. d0 ''_id'' = d ''_id''
    \<and> doc_rows d \<subseteq> doc_rows d0 \<union> {(UnixMilli (ru_at u), ru_msgID u) | r u. (r, u) \<in> set us \<and> d ''_id'' = Some (BStr r)}"
  using assms
proof (induction ws arbitrary: c)
  case (Cons w ws)
  have w: "room_model w" "w \<in> set (roomLastMsgModels us)" using Cons.prems(2) models_allowed(1) by auto
  note one = rooms.one [OF Cons.prems(1) w(1)]
  obtain d1 where d1: "d1 \<in> set (map (hit w) c)" "d1 ''_id'' = d ''_id''"
    "doc_rows d \<subseteq> doc_rows d1 \<union> {(UnixMilli (ru_at u), ru_msgID u) | r u. (r, u) \<in> set us \<and> d ''_id'' = Some (BStr r)}"
    using Cons.IH [of "apply_one w c"] Cons.prems(2,3) one by auto
  then obtain d0 where d0: "d0 \<in> set c" "d1 = hit w d0" by auto
  have ok: "room_ok d0" using Cons.prems(1) d0(1) by (simp add: rooms.good_def)
  have id: "d0 ''_id'' = d ''_id''" using rooms.hits [OF ok w(1)] d0(2) d1(2) by (simp add: room_le_def)
  then show ?case using d0 d1(3) hit_rows [OF ok w(2)] by (intro bexI [of _ d0]) auto
qed auto

definition origin_inv :: "(string \<Rightarrow> eventProjection option) \<Rightarrow> rl_store \<Rightarrow> worker \<Rightarrow> bool" where
  "origin_inv unmarshal st w \<longleftrightarrow> store_le st (w_store w)
     \<and> batch_from unmarshal (w_consumed w) (w_pending w) \<and> (\<forall>fl \<in> set (w_flights w). batch_from unmarshal (w_consumed w) (fl_batch fl))
     \<and> (\<forall>d \<in> set (st_rooms (w_store w)). \<exists>d0 \<in> set (st_rooms st). d0 ''_id'' = d ''_id''
          \<and> doc_rows d \<subseteq> doc_rows d0 \<union> id_rows unmarshal (w_consumed w) (d ''_id''))"

lemma store_le_trans: "store_le a b \<Longrightarrow> store_le b c \<Longrightarrow> store_le a c"
  using rooms.le_list_trans subs.le_list_trans unfolding store_le_def by blast

lemma store_le_refl: "store_le a a"
  by (simp add: store_le_def rooms_le_refl subs_le_refl)

lemma stage_rows:
  assumes "server m" "store_good st" "write_stage m b n noted st = (res, st')" "batch_from unmarshal C b" "d \<in> set (st_rooms st')"
  shows "\<exists>d0 \<in> set (st_rooms st). d0 ''_id'' = d ''_id''
    \<and> doc_rows d \<subseteq> doc_rows d0 \<union> id_rows unmarshal C (d ''_id'')"
proof (cases "n = 0")
  case True
  obtain e c' where c': "guarded (roomCol m) (roomLastMsgModels (b_rooms b)) (st_rooms st) = (e, c')" "st' = st\<lparr>st_rooms := c'\<rparr>"
    using assms(3) True unfolding write_stage_def BulkUpdateRoomLastMessage_def by (auto split: prod.splits)
  have srv: "bulk_server (roomCol m)" using assms(1) by (simp add: server_def)
  obtain ws' where ws': "mset ws' \<subseteq># mset (roomLastMsgModels (b_rooms b))" "c' = fold apply_one ws' (st_rooms st)"
    using bulk_server.guarded_partly [OF srv c'(1)] by blast
  have sub: "set ws' \<subseteq> set (roomLastMsgModels (b_rooms b))" using ws'(1) by (metis set_mset_mono set_mset_mset)
  have good: "rooms.good (st_rooms st)" using assms(2) by (simp add: store_good_def)
  have "d \<in> set (fold apply_one ws' (st_rooms st))" using assms(5) c'(2) ws'(2) by simp
  from fold_rows [OF good sub this] show ?thesis using assms(4) unfolding batch_from_def by fastforce
next
  case False
  then have "st_rooms st' = st_rooms st"
    using assms(3) unfolding write_stage_def BulkAdvanceLastSeen_def BulkSetMentions_def by (auto split: prod.splits if_splits)
  then show ?thesis using assms(5) by auto
qed

lemma origin_stage:
  assumes "server m" "store_good (w_store w)" "origin_inv unmarshal st w" "write_stage m (fl_batch fl) n noted (w_store w) = (res, st')"
    "fl \<in> set (w_flights w)"
  shows "store_le st st'" "d \<in> set (st_rooms st') \<Longrightarrow> \<exists>d0 \<in> set (st_rooms st). d0 ''_id'' = d ''_id''
    \<and> doc_rows d \<subseteq> doc_rows d0 \<union> id_rows unmarshal (w_consumed w) (d ''_id'')"
proof -
  show "store_le st st'"
    using store_le_trans write_stage_forward(2) [OF assms(1,2,4)] assms(3) by (auto simp: origin_inv_def)
  assume d: "d \<in> set (st_rooms st')"
  have src: "batch_from unmarshal (w_consumed w) (fl_batch fl)" using assms(3,5) by (simp add: origin_inv_def)
  obtain d1 where d1: "d1 \<in> set (st_rooms (w_store w))" "d1 ''_id'' = d ''_id''"
    "doc_rows d \<subseteq> doc_rows d1 \<union> id_rows unmarshal (w_consumed w) (d ''_id'')"
    using stage_rows [OF assms(1,2,4) src d] by blast
  obtain d0 where "d0 \<in> set (st_rooms st)" "d0 ''_id'' = d1 ''_id''"
    "doc_rows d1 \<subseteq> doc_rows d0 \<union> id_rows unmarshal (w_consumed w) (d1 ''_id'')"
    using assms(3) d1(1) unfolding origin_inv_def by blast
  then show "\<exists>d0 \<in> set (st_rooms st). d0 ''_id'' = d ''_id''
    \<and> doc_rows d \<subseteq> doc_rows d0 \<union> id_rows unmarshal (w_consumed w) (d ''_id'')"
    using d1 by (intro bexI [of _ d0]) auto
qed

lemma origin_consume:
  assumes "origin_inv unmarshal st w" "w_store w' = w_store w" "w_flights w' = w_flights w" "set (w_consumed w) \<subseteq> set (w_consumed w')"
    "batch_from unmarshal (w_consumed w') (w_pending w')"
  shows "origin_inv unmarshal st w'"
proof -
  note mono = id_rows_mono [OF assms(4), of unmarshal]
  have "\<exists>d0 \<in> set (st_rooms st). d0 ''_id'' = d ''_id''
      \<and> doc_rows d \<subseteq> doc_rows d0 \<union> id_rows unmarshal (w_consumed w') (d ''_id'')"
    if "d \<in> set (st_rooms (w_store w))" for d
  proof -
    obtain d0 where "d0 \<in> set (st_rooms st)" "d0 ''_id'' = d ''_id''"
      "doc_rows d \<subseteq> doc_rows d0 \<union> id_rows unmarshal (w_consumed w) (d ''_id'')"
      using assms(1) \<open>d \<in> set (st_rooms (w_store w))\<close> unfolding origin_inv_def by blast
    then show ?thesis using mono [of "d ''_id''"] by (intro bexI [of _ d0]) auto
  qed
  then show ?thesis using assms batch_from_mono [OF _ assms(4)] unfolding origin_inv_def by simp
qed

lemma step_origin:
  assumes "\<forall>m \<in> M. server m" "rl_step unmarshal M w w'" "worker_inv unmarshal w" "origin_inv unmarshal st w"
    "all_timed unmarshal (w_consumed w')"
  shows "origin_inv unmarshal st w'"
proof -
  have good: "store_good (w_store w)" using assms(3) by (simp add: worker_inv_def)
  have pend: "batch_from unmarshal (w_consumed w) (w_pending w)" using assms(4) by (simp add: origin_inv_def)
  from assms(2) show ?thesis
  proof cases
    case (malformed msg rnd)
    have "batch_from unmarshal (w_consumed w @ [msg]) (w_pending w)" by (rule batch_from_mono [OF pend]) auto
    then show ?thesis using malformed by (intro origin_consume [OF assms(4)]) auto
  next
    case (hold msg evt)
    have "intents_of unmarshal msg = Some (deriveIntents evt)" using hold(2) by (simp add: intents_of_def)
    then have "batch_from unmarshal (w_consumed w @ [msg]) (batch_add (w_pending w) (deriveIntents evt) msg)"
      using batch_add_from [OF pend] assms(5) hold(1) by simp
    then show ?thesis using hold by (intro origin_consume [OF assms(4)]) auto
  next
    case swap
    then show ?thesis using assms(4) by (auto simp: origin_inv_def newBatch_def batch_from_def)
  next
    case (go_on fs fl gs m noted st')
    have srv: "server m" and fl: "fl \<in> set (w_flights w)" using assms(1) go_on by auto
    show ?thesis using origin_stage [OF srv good assms(4) go_on(5) fl] assms(4) go_on(1,2) by (auto simp: origin_inv_def)
  next
    case (give_up fs fl gs m e st' rnd)
    have srv: "server m" and fl: "fl \<in> set (w_flights w)" using assms(1) give_up by auto
    show ?thesis using origin_stage [OF srv good assms(4) give_up(5) fl] assms(4) give_up(1,2) by (auto simp: origin_inv_def)
  next
    case (land fs fl gs rnd)
    then show ?thesis using assms(4) by (auto simp: origin_inv_def)
  qed
qed

lemma step_consumed: "rl_step unmarshal M w w' \<Longrightarrow> set (w_consumed w) \<subseteq> set (w_consumed w')"
  by (cases rule: rl_step.cases) auto

lemma all_timed_mono: "all_timed unmarshal C' \<Longrightarrow> set C \<subseteq> set C' \<Longrightarrow> all_timed unmarshal C"
  by (auto simp: all_timed_def)

lemma reachable_origin:
  assumes "\<forall>m \<in> M. server m" "store_good st" "reachable unmarshal M st w" "all_timed unmarshal (w_consumed w)"
  shows "origin_inv unmarshal st w"
  using assms(3) [unfolded reachable_def] assms(4)
proof (induction rule: rtranclp_induct)
  case base
  then show ?case using store_le_refl by (auto simp: origin_inv_def fresh_worker_def newBatch_def batch_from_def)
next
  case (step w w')
  have inv: "worker_inv unmarshal w" using reachable_inv [OF assms(1,2)] step.hyps(1) by (simp add: reachable_def)
  have "origin_inv unmarshal st w" using step.IH all_timed_mono [OF step.prems step_consumed [OF step.hyps(2)]] by blast
  then show ?case using step_origin [OF assms(1) step.hyps(2) inv _ step.prems] by blast
qed

section \<open>Guarantees\<close>

text \<open>C5: An acknowledged message is in the store. In every state the worker can reach, with flushes overlapping
  and failing in any way, a message settled as a success is recorded: the room pointer has reached it, the
  sender's read position and the @all mark too, and every mentioned account is badged or has read past it. A
  message is acknowledged exactly when its batch did not fail transiently, and each consumed message is either
  held in one batch or settled once: none is lost and none is settled twice.\<close>

theorem ack_means_recorded:
  assumes "\<forall>m \<in> M. server m" "store_good st" "reachable unmarshal M st w" "(h, err, verdict) \<in> set (w_settled w)"
  shows "(verdict = Ack \<longleftrightarrow> err \<noteq> Some TransientErr)
    \<and> (err = None \<longrightarrow> (\<exists>evt. unmarshal (hm_data h) = Some evt \<and> recorded 3 (w_store w) (deriveIntents evt)))
    \<and> mset (w_consumed w) = mset (b_held (w_pending w)) + mset (concat (map (\<lambda>fl. b_held (fl_batch fl)) (w_flights w)))
        + mset (map fst (w_settled w))"
proof -
  have inv: "worker_inv unmarshal w" by (rule reachable_inv [OF assms(1-3)])
  then have "settled_ok unmarshal (w_store w) (h, err, verdict)" using assms(4) by (simp add: worker_inv_def)
  then show ?thesis using inv unfolding worker_inv_def settled_ok_def intents_of_def by auto
qed

text \<open>C19: The room pointer ends at the newest message. Once every consumed message has been settled as a success,
  be it after redeliveries, the pointer of each room is a row of the room, and no consumed message of the room
  and not the pointer it started from is newer: coalescing, reordering and partly applied batches leave no
  trace.\<close>

theorem room_pointer_newest:
  assumes "\<forall>m \<in> M. server m" "store_good st" "reachable unmarshal M st w" "all_timed unmarshal (w_consumed w)"
    "\<forall>h \<in> set (w_consumed w). \<exists>verdict. (h, None, verdict) \<in> set (w_settled w)"
    "d \<in> set (st_rooms (w_store w))" "d ''_id'' = Some (BStr r)"
  shows "\<exists>d0 \<in> set (st_rooms st). d0 ''_id'' = Some (BStr r)
    \<and> doc_rows d \<subseteq> doc_rows d0 \<union> rows_of unmarshal (w_consumed w) r
    \<and> (\<forall>(t, i) \<in> doc_rows d0 \<union> rows_of unmarshal (w_consumed w) r. ptr_since d t i)"
proof -
  have inv: "worker_inv unmarshal w" by (rule reachable_inv [OF assms(1-3)])
  have orig: "origin_inv unmarshal st w" by (rule reachable_origin [OF assms(1-4)])
  obtain d0 where d0: "d0 \<in> set (st_rooms st)" "d0 ''_id'' = d ''_id''"
    "doc_rows d \<subseteq> doc_rows d0 \<union> id_rows unmarshal (w_consumed w) (d ''_id'')"
    using orig assms(6) unfolding origin_inv_def by blast
  have good: "rooms.good (st_rooms st)" using assms(2) by (simp add: store_good_def)
  have le: "list_all2 room_le (st_rooms st) (st_rooms (w_store w))" using orig by (simp add: origin_inv_def store_le_def)
  obtain d1 where d1: "d1 \<in> set (st_rooms st)" "room_le d1 d" using list_all2_pred [OF le assms(6)] by blast
  have "d1 = d0"
    using good d0(1,2) d1 unfolding rooms.good_def room_le_def by (metis (mono_tags, lifting) distinct_map inj_onD)
  then have old: "ptr_since d t i" if "(t, i) \<in> doc_rows d0" for t i
    using that d1(2) by (auto simp: doc_rows_def room_le_def ptr_since_row)
  have new: "ptr_since d t i" if "(t, i) \<in> rows_of unmarshal (w_consumed w) r" for t i
  proof -
    obtain h j where h: "h \<in> set (w_consumed w)" "intents_of unmarshal h = Some j" "wi_LastMsgID j \<noteq> ''''" "wi_RoomID j = r"
      "t = UnixMilli (wi_LastMsgAt j)" "i = wi_LastMsgID j" using \<open>(t, i) \<in> rows_of unmarshal (w_consumed w) r\<close> by (auto simp: rows_of_def)
    obtain verdict where "(h, None, verdict) \<in> set (w_settled w)" using assms(5) h(1) by blast
    then have "settled_ok unmarshal (w_store w) (h, None, verdict)" using inv by (simp add: worker_inv_def)
    then have "room_recorded (w_store w) j" using h(2) by (auto simp: settled_ok_def recorded_def)
    then show ?thesis using h(3-6) assms(6,7) by (auto simp: room_recorded_def)
  qed
  show ?thesis using d0 assms(7) old new by (intro bexI [of _ d0]) auto
qed

section \<open>The code is a run of the state machine\<close>

abbreviation worker_of :: "batch \<Rightarrow> flight list \<Rightarrow> rl_store \<Rightarrow> settled list \<Rightarrow> heldMsg list \<Rightarrow> worker" where
  "worker_of b fls st S C \<equiv> \<lparr>w_pending = b, w_flights = fls, w_store = st, w_settled = S, w_consumed = C\<rparr>"

definition flight_at :: "batch \<Rightarrow> nat \<Rightarrow> stage_codes \<Rightarrow> flight" where
  "flight_at b n noted = \<lparr>fl_batch = b, fl_stage = n, fl_noted = noted\<rparr>"

lemma stage_step:
  assumes "m \<in> M" "n < 3" "write_stage m b n noted st = (Inr noted', st')"
  shows "rl_step unmarshal M (worker_of p (fls @ [flight_at b n noted]) st S C) (worker_of p (fls @ [flight_at b (Suc n) noted']) st' S C)"
  using rl_step.go_on [of "worker_of p (fls @ [flight_at b n noted]) st S C" fls "flight_at b n noted" "[]" m M noted' st' unmarshal] assms
  by (simp add: flight_at_def)

lemma stage_stop:
  assumes "m \<in> M" "n < 3" "write_stage m b n noted st = (Inl e, st')"
  shows "rl_step unmarshal M (worker_of p (fls @ [flight_at b n noted]) st S C) (worker_of p fls st' (S @ settle_batch rnd b (Some e)) C)"
  using rl_step.give_up [of "worker_of p (fls @ [flight_at b n noted]) st S C" fls "flight_at b n noted" "[]" m M e st' unmarshal rnd] assms
  by (simp add: flight_at_def)

lemma stage_land:
  "rl_step unmarshal M (worker_of p (fls @ [flight_at b 3 noted]) st S C)
     (worker_of p fls st (S @ settle_batch rnd b (fo_err (outcome_of noted))) C)"
  using rl_step.land [of "worker_of p (fls @ [flight_at b 3 noted]) st S C" fls "flight_at b 3 noted" "[]" unmarshal M rnd]
  by (simp add: flight_at_def)

lemma write_steps:
  assumes "m \<in> M" "write_batch m b st = (out, st')"
  shows "(rl_step unmarshal M)\<^sup>*\<^sup>* (worker_of p (fls @ [flight_at b 0 []]) st S C)
    (worker_of p fls st' (S @ settle_batch rnd b (fo_err out)) C)"
proof -
  note go = stage_step [OF assms(1)] and stop = r_into_rtranclp [where r = "rl_step unmarshal M", OF stage_stop [OF assms(1)]]
  obtain r0 s0 where 0: "write_stage m b 0 [] st = (r0, s0)" by fastforce
  show ?thesis
  proof (cases r0)
    case (Inl e)
    then show ?thesis using 0 assms(2) stop [of 0 b "[]" st e s0] by (auto simp: write_batch_def)
  next
    case Inr0: (Inr n0)
    obtain r1 s1 where 1: "write_stage m b 1 n0 s0 = (r1, s1)" by fastforce
    note step0 = converse_rtranclp_into_rtranclp [where r = "rl_step unmarshal M", OF go [of 0 b "[]" st n0 s0]]
    show ?thesis
    proof (cases r1)
      case (Inl e)
      have "out = \<lparr>fo_err = Some e, fo_stageCodes = []\<rparr>" "st' = s1" using 0 1 Inr0 Inl assms(2) by (auto simp: write_batch_def)
      then show ?thesis using 0 1 Inr0 Inl step0 stop [of 1 b n0 s0 e s1] by simp
    next
      case Inr1: (Inr n1)
      obtain r2 s2 where 2: "write_stage m b 2 n1 s1 = (r2, s2)" by fastforce
      note step1 = converse_rtranclp_into_rtranclp [where r = "rl_step unmarshal M", OF go [of 1 b n0 s0 n1 s1]]
      show ?thesis
      proof (cases r2)
        case (Inl e)
        have "out = \<lparr>fo_err = Some e, fo_stageCodes = []\<rparr>" "st' = s2" using 0 1 2 Inr0 Inr1 Inl assms(2) by (auto simp: write_batch_def)
        then show ?thesis using 0 1 2 Inr0 Inr1 Inl step0 step1 stop [of 2 b n1 s1 e s2] by (simp add: numeral_2_eq_2)
      next
        case (Inr n2)
        have "out = outcome_of n2" "st' = s2" using 0 1 2 Inr0 Inr1 Inr assms(2) by (auto simp: write_batch_def)
        then show ?thesis
          using 0 1 2 Inr0 Inr1 Inr step0 step1 converse_rtranclp_into_rtranclp [where r = "rl_step unmarshal M", OF go [of 2 b n1 s1 n2 s2]]
            r_into_rtranclp [where r = "rl_step unmarshal M", OF stage_land [of unmarshal M p fls b n2 s2 S C rnd]] by (simp add: numeral_2_eq_2 numeral_3_eq_3)
      qed
    qed
  qed
qed

lemma Flush_steps:
  assumes "m \<in> M" "Flush rnd m f st = (out, f', st')"
  shows "(rl_step unmarshal M)\<^sup>*\<^sup>* (worker_of (f_pending f) fls st S C) (worker_of (f_pending f') fls st' (S @ out) C)"
proof (cases "batch_empty (f_pending f)")
  case True
  then show ?thesis using assms(2) by (simp add: Flush_def)
next
  case False
  obtain fo where fo: "write_batch m (f_pending f) st = (fo, st')" "out = settle_batch rnd (f_pending f) (fo_err fo)" "f_pending f' = newBatch"
    using assms(2) False by (auto simp: Flush_def split: prod.splits)
  have "rl_step unmarshal M (worker_of (f_pending f) fls st S C) (worker_of newBatch (fls @ [flight_at (f_pending f) 0 []]) st S C)"
    using rl_step.swap [of "worker_of (f_pending f) fls st S C" unmarshal M] False by (simp add: flight_at_def)
  then show ?thesis using write_steps [OF assms(1) fo(1), of unmarshal newBatch fls S C rnd] fo(2,3) by simp
qed

lemma consume_steps:
  assumes "m \<in> M" "consume unmarshal rnd m msg f st = (out, f', st')"
  shows "(rl_step unmarshal M)\<^sup>*\<^sup>* (worker_of (f_pending f) fls st S C) (worker_of (f_pending f') fls st' (S @ out) (C @ [msg]))"
proof (cases "unmarshal (hm_data msg)")
  case None
  then show ?thesis
    using rl_step.malformed [of unmarshal msg M "worker_of (f_pending f) fls st S C" rnd] assms(2) by (auto simp: consume_def)
next
  case (Some evt)
  let ?b = "batch_add (f_pending f) (deriveIntents evt) msg"
  have hold: "rl_step unmarshal M (worker_of (f_pending f) fls st S C) (worker_of ?b fls st S (C @ [msg]))"
    using rl_step.hold [of unmarshal msg evt M "worker_of (f_pending f) fls st S C"] Some by simp
  show ?thesis
    using hold assms(2) Some Flush_steps [OF assms(1), of rnd "f\<lparr>f_pending := ?b\<rparr>" st out f' st' unmarshal fls S "C @ [msg]"]
    by (auto simp: consume_def flusher_add_def Let_def split: if_splits intro: converse_rtranclp_into_rtranclp)
qed

section \<open>A worker over a store in memory\<close>

definition mem_bulk :: bulk_write where
  "mem_bulk ws c = (None, fold apply_one ws c)"

interpretation mem_bulk: bulk_server mem_bulk
  by unfold_locales (auto simp: mem_bulk_def)

definition mem_mongo :: mongoStore where
  "mem_mongo = \<lparr>roomCol = mem_bulk, subCol = mem_bulk\<rparr>"

lemma mem_server: "\<forall>m \<in> {mem_mongo}. server m"
  using mem_bulk.bulk_server_axioms by (simp add: server_def mem_mongo_def)

lemma mem_write: "fo_err (fst (write_batch mem_mongo b st)) = None"
  by (simp add: write_batch_def write_stage_def BulkUpdateRoomLastMessage_def BulkAdvanceLastSeen_def BulkSetMentions_def
      guarded_def mem_mongo_def mem_bulk_def stage_def outcome_of_def split: prod.splits)

definition hello :: "string \<Rightarrow> string \<Rightarrow> int \<Rightarrow> eventProjection" where
  "hello mid text t = \<lparr>ep_Event = EventCreated, ep_SiteID = ''s'', ep_Message = \<lparr>mp_ID = mid, mp_RoomID = ''r'', mp_UserAccount = ''alice'',
     mp_Content = text, mp_CreatedAt = t, mp_Type = '''', mp_EditedAt = None, mp_ThreadParentMessageID = '''', mp_TShow = False\<rparr>\<rparr>"

definition sample_unmarshal :: "string \<Rightarrow> eventProjection option" where
  "sample_unmarshal s = (if s = ''one'' then Some (hello ''m1'' ''hi @bob'' (5 * 10 ^ 9))
     else if s = ''two'' then Some (hello ''m2'' ''bye'' (9 * 10 ^ 9)) else None)"

definition sample_store :: rl_store where
  "sample_store = \<lparr>st_rooms = [[''_id'' \<mapsto> BStr ''r'']],
     st_subs = [[''roomId'' \<mapsto> BStr ''r'', ''u.account'' \<mapsto> BStr ''alice''], [''roomId'' \<mapsto> BStr ''r'', ''u.account'' \<mapsto> BStr ''bob'']]\<rparr>"

lemma sample_good: "store_good sample_store"
  by (simp add: store_good_def rooms.good_def subs.good_def sample_store_def room_ok_def sub_ok_def timed_def sub_key_of_def)

definition sample_msg :: "string \<Rightarrow> heldMsg" where
  "sample_msg s = \<lparr>hm_meta = Some 1, hm_data = s\<rparr>"

definition sample_batch :: batch where
  "sample_batch = batch_add (batch_add newBatch (deriveIntents (hello ''m1'' ''hi @bob'' (5 * 10 ^ 9))) (sample_msg ''one''))
     (deriveIntents (hello ''m2'' ''bye'' (9 * 10 ^ 9))) (sample_msg ''two'')"

definition sample_end :: worker where
  "sample_end = worker_of newBatch [] (snd (write_batch mem_mongo sample_batch sample_store))
     [(sample_msg ''one'', None, Ack), (sample_msg ''two'', None, Ack)] [sample_msg ''one'', sample_msg ''two'']"

lemma sample_held: "b_held sample_batch = [sample_msg ''one'', sample_msg ''two'']"
  by (simp add: sample_batch_def batch_add_def newBatch_def)

lemma sample_reachable: "reachable sample_unmarshal {mem_mongo} sample_store sample_end"
proof -
  let ?R = "(rl_step sample_unmarshal {mem_mongo})\<^sup>*\<^sup>*" and ?f0 = "\<lparr>f_mentionBudget = 0, f_pending = newBatch\<rparr>"
  let ?f1 = "?f0\<lparr>f_pending := batch_add newBatch (deriveIntents (hello ''m1'' ''hi @bob'' (5 * 10 ^ 9))) (sample_msg ''one'')\<rparr>"
  let ?f2 = "?f0\<lparr>f_pending := sample_batch\<rparr>"
  have 1: "consume sample_unmarshal (\<lambda>_. 0) mem_mongo (sample_msg ''one'') ?f0 sample_store = ([], ?f1, sample_store)"
    by (simp add: consume_def sample_unmarshal_def sample_msg_def flusher_add_def Let_def)
  have 2: "consume sample_unmarshal (\<lambda>_. 0) mem_mongo (sample_msg ''two'') ?f1 sample_store = ([], ?f2, sample_store)"
    by (simp add: consume_def sample_unmarshal_def sample_msg_def flusher_add_def Let_def sample_batch_def)
  have 3: "Flush (\<lambda>_. 0) mem_mongo ?f2 sample_store =
      ([(sample_msg ''one'', None, Ack), (sample_msg ''two'', None, Ack)], ?f0, snd (write_batch mem_mongo sample_batch sample_store))"
    using mem_write [of sample_batch sample_store]
    by (auto simp: Flush_def batch_empty_def sample_held settle_batch_def settle_def split: prod.splits)
  have m: "mem_mongo \<in> {mem_mongo}" by simp
  have "?R (fresh_worker sample_store) (worker_of (f_pending ?f1) [] sample_store [] [sample_msg ''one''])"
    using consume_steps [OF m 1, of "[]" "[]" "[]"] by (simp add: fresh_worker_def)
  moreover have "?R (worker_of (f_pending ?f1) [] sample_store [] [sample_msg ''one''])
      (worker_of (f_pending ?f2) [] sample_store [] [sample_msg ''one'', sample_msg ''two''])"
    using consume_steps [OF m 2, of "[]" "[]" "[sample_msg ''one'']"] by simp
  moreover have "?R (worker_of (f_pending ?f2) [] sample_store [] [sample_msg ''one'', sample_msg ''two'']) sample_end"
    using Flush_steps [OF m 3, of sample_unmarshal "[]" "[]" "[sample_msg ''one'', sample_msg ''two'']"] by (simp add: sample_end_def)
  ultimately show ?thesis unfolding reachable_def by (meson rtranclp_trans)
qed

theorem ack_means_recorded_witness: "recorded 3 (w_store sample_end) (deriveIntents (hello ''m1'' ''hi @bob'' (5 * 10 ^ 9)))"
proof -
  have "(sample_msg ''one'', None, Ack) \<in> set (w_settled sample_end)" by (simp add: sample_end_def)
  from ack_means_recorded [OF mem_server sample_good sample_reachable this] show ?thesis
    by (simp add: sample_unmarshal_def sample_msg_def)
qed

lemma hello_intents:
  "wi_LastMsgID (deriveIntents (hello mid text t)) = mid" "wi_LastMsgAt (deriveIntents (hello mid text t)) = t"
  "wi_RoomID (deriveIntents (hello mid text t)) = ''r''"
  by (simp_all add: deriveIntents_def hello_def mp_IsHiddenThreadReply_def IsHiddenThreadReply_def Let_def)

lemma rows_of_Cons: "intents_of unmarshal h = Some i \<Longrightarrow> wi_LastMsgID i \<noteq> '''' \<Longrightarrow> wi_RoomID i = r \<Longrightarrow>
    rows_of unmarshal (h # C) r = insert (UnixMilli (wi_LastMsgAt i), wi_LastMsgID i) (rows_of unmarshal C r)"
  unfolding rows_of_def by auto

lemma rows_of_Nil: "rows_of unmarshal [] r = {}"
  by (simp add: rows_of_def)

lemma sample_intents:
  "intents_of sample_unmarshal (sample_msg ''one'') = Some (deriveIntents (hello ''m1'' ''hi @bob'' (5 * 10 ^ 9)))"
  "intents_of sample_unmarshal (sample_msg ''two'') = Some (deriveIntents (hello ''m2'' ''bye'' (9 * 10 ^ 9)))"
  by (simp_all add: intents_of_def sample_unmarshal_def sample_msg_def)

lemma sample_rows: "rows_of sample_unmarshal (w_consumed sample_end) ''r'' = {(5000, ''m1''), (9000, ''m2'')}"
  using rows_of_Cons [OF sample_intents(1)] rows_of_Cons [OF sample_intents(2)]
  by (simp add: sample_end_def hello_intents rows_of_Nil UnixMilli_def)

theorem room_pointer_newest_witness: "\<exists>d \<in> set (st_rooms (w_store sample_end)). doc_rows d = {(9000, ''m2'')}"
proof -
  have timed: "all_timed sample_unmarshal (w_consumed sample_end)"
    by (simp add: all_timed_def sample_end_def sample_intents hello_intents real_time_def UnixMilli_def zero_time_def)
  have all: "\<forall>h \<in> set (w_consumed sample_end). \<exists>verdict. (h, None, verdict) \<in> set (w_settled sample_end)" by (auto simp: sample_end_def)
  have le: "list_all2 room_le (st_rooms sample_store) (st_rooms (w_store sample_end))"
    using reachable_origin [OF mem_server sample_good sample_reachable timed] by (simp add: origin_inv_def store_le_def)
  then obtain d where d: "st_rooms (w_store sample_end) = [d]" "d ''_id'' = Some (BStr ''r'')"
    by (auto simp: sample_store_def list_all2_Cons1 room_le_def)
  obtain d0 where "d0 \<in> set (st_rooms sample_store)" "doc_rows d \<subseteq> doc_rows d0 \<union> {(5000, ''m1''), (9000, ''m2'')}"
    "\<forall>(t, i) \<in> doc_rows d0 \<union> {(5000, ''m1''), (9000, ''m2'')}. ptr_since d t i"
    using room_pointer_newest [OF mem_server sample_good sample_reachable timed all, of d "''r''"] d unfolding sample_rows by auto
  then have "doc_rows d \<subseteq> {(5000, ''m1''), (9000, ''m2'')}" "ptr_since d 9000 ''m2''" by (auto simp: sample_store_def doc_rows_def)
  then have "doc_rows d = {(9000, ''m2'')}" by (auto simp: ptr_since_def doc_rows_def)
  then show ?thesis using d(1) by simp
qed

end
