(* ===== verification/Presence_Store.thy ===== *)
theory Presence_Store
  imports Err_Code Go_Text Gatekeeper "HOL-Library.AList" "HOL-Library.List_Lexorder" "HOL-Library.Char_ord"
begin

text \<open>
  The presence store (\<open>src/user-presence-service/presencestore/store.go\<close>). The state lives in Valkey: for
  every account a hash of connections, a manual override, an external (Teams) status and the materialized
  effective status, and for the site one sorted set of sweep deadlines. The Lua scripts are translated
  statement by statement; each runs atomically on the server.

  A call of the driver carries the server's clock and its fate: served, lost before it reached the server,
  or executed with the answer lost. Keys with a time to live disappear when they are next read after it.
  Times are milliseconds; Lua prints a number with fourteen digits, which is exact for every time before
  10^14, and a score of the sorted set is exact below 2^53.
\<close>

section \<open>Statuses\<close>

type_synonym PresenceStatus = string

definition StatusOnline :: PresenceStatus where "StatusOnline = ''online''"
definition StatusAway :: PresenceStatus where "StatusAway = ''away''"
definition StatusBusy :: PresenceStatus where "StatusBusy = ''busy''"
definition StatusOffline :: PresenceStatus where "StatusOffline = ''offline''"
definition StatusAppearOffline :: PresenceStatus where "StatusAppearOffline = ''appear_offline''"
definition StatusInCall :: PresenceStatus where "StatusInCall = ''in-call''"
definition StatusNone :: PresenceStatus where "StatusNone = ''''"

lemmas status_defs = StatusOnline_def StatusAway_def StatusBusy_def StatusOffline_def
  StatusAppearOffline_def StatusInCall_def StatusNone_def

section \<open>Lua strings and numbers\<close>

definition colon :: char where "colon = CHR '':''"

definition lua_str :: "int \<Rightarrow> string" where "lua_str n = Itoa n"

definition digit_of :: "char \<Rightarrow> nat option" where
  "digit_of c = (if c \<in> set ''0123456789'' then Some (length (takeWhile (\<lambda>d. d \<noteq> c) ''0123456789'')) else None)"

fun read_digits :: "nat \<Rightarrow> string \<Rightarrow> nat option" where
  "read_digits n [] = Some n"
| "read_digits n (c # cs) = (case digit_of c of None \<Rightarrow> None | Some d \<Rightarrow> read_digits (10 * n + d) cs)"

text \<open>\<open>tonumber\<close> on decimal integers, the only numerals the scripts write.\<close>

definition tonumber :: "string \<Rightarrow> int option" where
  "tonumber s =
     (case s of
        [] \<Rightarrow> None
      | c # cs \<Rightarrow>
          if c = CHR ''-'' then (if cs = [] then None else map_option (\<lambda>n. - int n) (read_digits 0 cs))
          else map_option int (read_digits 0 s))"

text \<open>A connection's value is \<open><away01>:<lastSeenMs>\<close>; a script fails when there is no colon or no number.\<close>

definition conn_value :: "string \<Rightarrow> int \<Rightarrow> string" where
  "conn_value away now = away @ colon # lua_str now"

definition away_part :: "string \<Rightarrow> string option" where
  "away_part v = (if colon \<in> set v then Some (takeWhile (\<lambda>c. c \<noteq> colon) v) else None)"

definition seen_part :: "string \<Rightarrow> int option" where
  "seen_part v = tonumber (tl (dropWhile (\<lambda>c. c \<noteq> colon) v))"

section \<open>The server's keys\<close>

record acct =
  a_conns :: "(string \<times> string) list"
  a_conns_exp :: "int option"
  a_manual :: "string option"
  a_status :: "string option"
  a_azure :: "string option"
  a_azure_exp :: "int option"

record valkey =
  vk_acct :: "string \<Rightarrow> acct"
  vk_sweep :: "(string \<times> int) list"

definition no_acct :: acct where
  "no_acct = \<lparr>a_conns = [], a_conns_exp = None, a_manual = None, a_status = None, a_azure = None, a_azure_exp = None\<rparr>"

definition no_presence :: valkey where
  "no_presence = \<lparr>vk_acct = \<lambda>_. no_acct, vk_sweep = []\<rparr>"

definition expired :: "int option \<Rightarrow> int \<Rightarrow> bool" where
  "expired e srv = (case e of None \<Rightarrow> False | Some t \<Rightarrow> t \<le> srv)"

definition touch_conns :: "int \<Rightarrow> acct \<Rightarrow> acct" where
  "touch_conns srv a = (if expired (a_conns_exp a) srv then a\<lparr>a_conns := [], a_conns_exp := None\<rparr> else a)"

definition touch_azure :: "int \<Rightarrow> acct \<Rightarrow> acct" where
  "touch_azure srv a = (if expired (a_azure_exp a) srv then a\<lparr>a_azure := None, a_azure_exp := None\<rparr> else a)"

definition hset :: "string \<Rightarrow> string \<Rightarrow> acct \<Rightarrow> acct" where
  "hset field v a = a\<lparr>a_conns := AList.update field v (a_conns a),
                     a_conns_exp := if a_conns a = [] then None else a_conns_exp a\<rparr>"

definition hdel :: "string \<Rightarrow> acct \<Rightarrow> acct" where
  "hdel field a = a\<lparr>a_conns := AList.delete field (a_conns a)\<rparr>"

definition pexpire_conns :: "int \<Rightarrow> int \<Rightarrow> acct \<Rightarrow> acct" where
  "pexpire_conns srv ttl a =
     (if ttl \<le> 0 then a\<lparr>a_conns := [], a_conns_exp := None\<rparr> else a\<lparr>a_conns_exp := Some (srv + ttl)\<rparr>)"

definition pexpire_azure :: "int \<Rightarrow> int \<Rightarrow> acct \<Rightarrow> acct" where
  "pexpire_azure srv ttl a =
     (if ttl \<le> 0 then a\<lparr>a_azure := None, a_azure_exp := None\<rparr> else a\<lparr>a_azure_exp := Some (srv + ttl)\<rparr>)"

section \<open>The scripts\<close>

record scan =
  sc_acct :: acct
  sc_live :: bool
  sc_active :: bool
  sc_next :: int

fun scan_conns :: "int \<Rightarrow> int \<Rightarrow> (string \<times> string) list \<Rightarrow> scan \<Rightarrow> bool \<times> scan" where
  "scan_conns now stale [] s = (True, s)"
| "scan_conns now stale ((field, v) # rest) s =
     (case (away_part v, seen_part v) of
        (Some away, Some lastSeen) \<Rightarrow>
          if stale < now - lastSeen
          then scan_conns now stale rest (s\<lparr>sc_acct := hdel field (sc_acct s)\<rparr>)
          else let d = lastSeen + stale in
            scan_conns now stale rest
              (s\<lparr>sc_live := True, sc_active := sc_active s \<or> away = ''0'',
                sc_next := if sc_next s = -1 \<or> d < sc_next s then d else sc_next s\<rparr>)
      | _ \<Rightarrow> (False, s))"

definition effective :: "bool \<Rightarrow> bool \<Rightarrow> string \<Rightarrow> string \<Rightarrow> PresenceStatus" where
  "effective anyLive anyActive m a =
     (if \<not> anyLive then ''offline''
      else if m = ''appear_offline'' then ''offline''
      else if m = ''away'' then ''away''
      else if a = ''in-call'' then ''in-call''
      else if m = ''online'' \<or> m = ''busy'' then m
      else if anyActive then ''online''
      else ''away'')"

definition or_empty :: "string option \<Rightarrow> string" where
  "or_empty s = (case s of Some x \<Rightarrow> x | None \<Rightarrow> '''')"

type_synonym reply = "bool \<times> PresenceStatus \<times> int"

text \<open>A script that fails leaves what it wrote before the failure.\<close>

definition compute :: "int \<Rightarrow> int \<Rightarrow> int \<Rightarrow> acct \<Rightarrow> reply option \<times> acct" where
  "compute srv now stale a0 =
     (let a = touch_azure srv (touch_conns srv a0);
          (ok, s) = scan_conns now stale (a_conns a) \<lparr>sc_acct = a, sc_live = False, sc_active = False, sc_next = -1\<rparr>;
          a' = sc_acct s;
          eff = effective (sc_live s) (sc_active s) (or_empty (a_manual a')) (or_empty (a_azure a')) in
      if \<not> ok then (None, a')
      else if a_status a' \<noteq> Some eff then (Some (True, eff, sc_next s), a'\<lparr>a_status := Some eff\<rparr>)
      else (Some (False, eff, sc_next s), a'))"

type_synonym script = "int \<Rightarrow> int \<Rightarrow> int \<Rightarrow> acct \<Rightarrow> reply option \<times> acct"

definition pingScript :: "string \<Rightarrow> int \<Rightarrow> script" where
  "pingScript connID ttl srv now stale a0 =
     (let a = touch_conns srv a0 in
      case map_of (a_conns a) connID of
        Some v \<Rightarrow>
          (case away_part v of
             None \<Rightarrow> (None, a)
           | Some away \<Rightarrow> (Some (False, '''', now + stale),
               pexpire_conns srv ttl (hset connID (conn_value away now) a)))
      | None \<Rightarrow> compute srv now stale (pexpire_conns srv ttl (hset connID (conn_value ''0'' now) a)))"

definition activityScript :: "string \<Rightarrow> string \<Rightarrow> int \<Rightarrow> script" where
  "activityScript connID away01 ttl srv now stale a0 =
     (let a = touch_conns srv a0 in
      compute srv now stale (pexpire_conns srv ttl (hset connID (conn_value away01 now) a)))"

definition byeScript :: "string \<Rightarrow> script" where
  "byeScript connID srv now stale a0 = compute srv now stale (hdel connID (touch_conns srv a0))"

definition manualScript :: "PresenceStatus \<Rightarrow> script" where
  "manualScript status srv now stale a =
     compute srv now stale (a\<lparr>a_manual := if status = '''' then None else Some status\<rparr>)"

definition externalScript :: "PresenceStatus \<Rightarrow> int \<Rightarrow> script" where
  "externalScript status ttl srv now stale a =
     compute srv now stale
       (if status = '''' then a\<lparr>a_azure := None, a_azure_exp := None\<rparr>
        else pexpire_azure srv ttl (a\<lparr>a_azure := Some status, a_azure_exp := None\<rparr>))"

definition sweepScript :: script where
  "sweepScript srv now stale a = compute srv now stale a"

section \<open>Calls\<close>

datatype fate = Served | Lost goerr | Unanswered goerr

record call =
  cl_srv :: int
  cl_fate :: fate

record Store =
  st_staleMs :: int
  st_connsTTL :: int
  st_quote :: "string \<Rightarrow> string"

definition script_error :: goerr where
  "script_error = Raw ''ERR Error running script''"

definition run_script :: "Store \<Rightarrow> call \<Rightarrow> script \<Rightarrow> string \<Rightarrow> int \<Rightarrow> valkey \<Rightarrow> (goerr + reply) \<times> valkey" where
  "run_script s c script account now v =
     (let (r, a) = script (cl_srv c) now (st_staleMs s) (vk_acct v account);
          v' = v\<lparr>vk_acct := (vk_acct v)(account := a)\<rparr>;
          err = (\<lambda>e. Inl (Wrapf (''presence script '' @ st_quote s account) e)) in
      case cl_fate c of
        Lost e \<Rightarrow> (err e, v)
      | Unanswered e \<Rightarrow> (err e, v')
      | Served \<Rightarrow> (case r of None \<Rightarrow> (err script_error, v') | Some rep \<Rightarrow> (Inr rep, v')))"

definition zrem :: "string \<Rightarrow> valkey \<Rightarrow> valkey" where
  "zrem account v = v\<lparr>vk_sweep := AList.delete account (vk_sweep v)\<rparr>"

definition zadd :: "int \<Rightarrow> string \<Rightarrow> valkey \<Rightarrow> valkey" where
  "zadd score account v = v\<lparr>vk_sweep := AList.update account score (vk_sweep v)\<rparr>"

definition reschedule :: "Store \<Rightarrow> call \<Rightarrow> string \<Rightarrow> int \<Rightarrow> valkey \<Rightarrow> goerr option \<times> valkey" where
  "reschedule s c account nextDeadline v =
     (let (name, v') = (if nextDeadline < 0 then (''sweep zrem '', zrem account v)
                        else (''sweep zadd '', zadd nextDeadline account v)) in
      case cl_fate c of
        Served \<Rightarrow> (None, v')
      | Lost e \<Rightarrow> (Some (Wrapf (name @ st_quote s account) e), v)
      | Unanswered e \<Rightarrow> (Some (Wrapf (name @ st_quote s account) e), v'))"

text \<open>\<open>mutate\<close> and its callers take the two calls they make and the process clock.\<close>

definition mutate :: "Store \<Rightarrow> call \<times> call \<Rightarrow> int \<Rightarrow> string \<Rightarrow> script \<Rightarrow> valkey \<Rightarrow> (goerr + bool \<times> PresenceStatus) \<times> valkey" where
  "mutate s cs now account script v =
     (case run_script s (fst cs) script account now v of
        (Inl e, v1) \<Rightarrow> (Inl e, v1)
      | (Inr (changed, eff, next_deadline), v1) \<Rightarrow>
          (case reschedule s (snd cs) account next_deadline v1 of
             (Some e, v2) \<Rightarrow> (Inl e, v2)
           | (None, v2) \<Rightarrow> (Inr (changed, eff), v2)))"

definition Ping :: "Store \<Rightarrow> call \<times> call \<Rightarrow> int \<Rightarrow> string \<Rightarrow> string \<Rightarrow> valkey \<Rightarrow> (goerr + bool \<times> PresenceStatus) \<times> valkey" where
  "Ping s cs now account connID = mutate s cs now account (pingScript connID (st_connsTTL s))"

definition SetActivity :: "Store \<Rightarrow> call \<times> call \<Rightarrow> int \<Rightarrow> string \<Rightarrow> string \<Rightarrow> bool \<Rightarrow> valkey \<Rightarrow> (goerr + bool \<times> PresenceStatus) \<times> valkey" where
  "SetActivity s cs now account connID away =
     mutate s cs now account (activityScript connID (if away then ''1'' else ''0'') (st_connsTTL s))"

definition RemoveConnection :: "Store \<Rightarrow> call \<times> call \<Rightarrow> int \<Rightarrow> string \<Rightarrow> string \<Rightarrow> valkey \<Rightarrow> (goerr + bool \<times> PresenceStatus) \<times> valkey" where
  "RemoveConnection s cs now account connID = mutate s cs now account (byeScript connID)"

definition SetManual :: "Store \<Rightarrow> call \<times> call \<Rightarrow> int \<Rightarrow> string \<Rightarrow> PresenceStatus \<Rightarrow> valkey \<Rightarrow> (goerr + bool \<times> PresenceStatus) \<times> valkey" where
  "SetManual s cs now account status = mutate s cs now account (manualScript status)"

definition SetExternal :: "Store \<Rightarrow> call \<times> call \<Rightarrow> int \<Rightarrow> string \<Rightarrow> PresenceStatus \<Rightarrow> int \<Rightarrow> valkey \<Rightarrow> (goerr + bool \<times> PresenceStatus) \<times> valkey" where
  "SetExternal s cs now account status ttl =
     (let statusArg = (if status = StatusNone then '''' else status) in
      mutate s cs now account (externalScript statusArg ttl))"

section \<open>Reads\<close>

text \<open>The members of the sorted set by score and then by name.\<close>

definition zorder :: "(string \<times> int) list \<Rightarrow> (string \<times> int) list" where
  "zorder z = sort_key (\<lambda>(m, sc). sc) (sort_key fst z)"

definition ActiveAccounts :: "call \<Rightarrow> valkey \<Rightarrow> goerr + string list" where
  "ActiveAccounts c v =
     (case cl_fate c of
        Served \<Rightarrow> Inr (map fst (zorder (vk_sweep v)))
      | Lost e \<Rightarrow> Inl (Wrapf ''active accounts zrange'' e)
      | Unanswered e \<Rightarrow> Inl (Wrapf ''active accounts zrange'' e))"

definition read_status :: "valkey \<Rightarrow> string \<Rightarrow> PresenceStatus" where
  "read_status v a = (case a_status (vk_acct v a) of None \<Rightarrow> StatusOffline | Some s \<Rightarrow> if s = '''' then StatusOffline else s)"

text \<open>The pipeline is one call: it fails as a whole or answers for every account asked for.\<close>

definition BatchGet :: "call \<Rightarrow> valkey \<Rightarrow> string list \<Rightarrow> goerr + (string \<rightharpoonup> PresenceStatus)" where
  "BatchGet c v accounts =
     (if accounts = [] then Inr Map.empty
      else case cl_fate c of
        Served \<Rightarrow> Inr (\<lambda>a. if a \<in> set accounts then Some (read_status v a) else None)
      | Lost e \<Rightarrow> Inl (Wrapf ''batch get'' e)
      | Unanswered e \<Rightarrow> Inl (Wrapf ''batch get'' e))"

section \<open>The sweep\<close>

record StatusChange =
  ch_Account :: string
  ch_Effective :: PresenceStatus

definition due :: "int \<Rightarrow> valkey \<Rightarrow> string list" where
  "due nowMs v = take 500 (map fst (filter (\<lambda>(m, sc). sc \<le> nowMs) (zorder (vk_sweep v))))"

fun sweep_loop :: "Store \<Rightarrow> (string \<Rightarrow> call \<times> call) \<Rightarrow> int \<Rightarrow> string list \<Rightarrow> StatusChange list \<Rightarrow> valkey
    \<Rightarrow> (StatusChange list \<times> goerr option) \<times> valkey" where
  "sweep_loop s net nowMs [] changes v = ((changes, None), v)"
| "sweep_loop s net nowMs (a # as) changes v =
     (case run_script s (fst (net a)) sweepScript a nowMs v of
        (Inl e, v1) \<Rightarrow> ((changes, Some e), v1)
      | (Inr (changed, eff, next_deadline), v1) \<Rightarrow>
          (case reschedule s (snd (net a)) a next_deadline v1 of
             (Some e, v2) \<Rightarrow> ((changes, Some e), v2)
           | (None, v2) \<Rightarrow>
               sweep_loop s net nowMs as
                 (if changed then changes @ [\<lparr>ch_Account = a, ch_Effective = eff\<rparr>] else changes) v2))"

definition Sweep :: "Store \<Rightarrow> call \<Rightarrow> (string \<Rightarrow> call \<times> call) \<Rightarrow> int \<Rightarrow> valkey \<Rightarrow> (StatusChange list \<times> goerr option) \<times> valkey" where
  "Sweep s c net nowMs v =
     (case cl_fate c of
        Served \<Rightarrow> sweep_loop s net nowMs (due nowMs v) [] v
      | Lost e \<Rightarrow> (([], Some (Wrapf ''sweep zrange'' e)), v)
      | Unanswered e \<Rightarrow> (([], Some (Wrapf ''sweep zrange'' e)), v))"

end
