(* ===== verification/Presence_Scripts.thy ===== *)
theory Presence_Scripts
  imports Presence_Store
begin

text \<open>
  What the Lua scripts of the presence store do to an account: the text form of a connection reads back as it
  was written, the shared tail prunes exactly the stale connections and materializes the precedence rule, and
  every script meets one contract, from which the store's operations inherit their effect.
\<close>

section \<open>Numbers and connection values\<close>

lemma digit_of_digit: "d < 10 \<Longrightarrow> digit_of (digit d) = Some d"
proof -
  have "\<forall>d \<in> {0..<10}. digit_of (digit d) = Some d" by (simp add: atLeastLessThan_nat_numeral digit_of_def digit_def)
  then show "d < 10 \<Longrightarrow> digit_of (digit d) = Some d" by auto
qed

lemma read_digits_append: "read_digits n (xs @ ys) = (case read_digits n xs of None \<Rightarrow> None | Some m \<Rightarrow> read_digits m ys)"
  by (induction xs arbitrary: n) (auto split: option.splits)

lemma read_nat_str: "read_digits 0 (nat_str n) = Some n"
proof (induction n rule: nat_str.induct)
  case (1 n)
  show ?case
  proof (cases "n < 10")
    case True
    then show ?thesis by (subst nat_str.simps) (simp add: digit_of_digit)
  next
    case False
    then have "read_digits 0 (nat_str (n div 10)) = Some (n div 10)" by (rule 1)
    then show ?thesis using False by (subst nat_str.simps) (simp add: read_digits_append digit_of_digit)
  qed
qed

lemma tonumber_lua_str: "tonumber (lua_str n) = Some n"
proof (cases "n < 0")
  case True
  then show ?thesis by (simp add: lua_str_def Itoa_def tonumber_def read_nat_str)
next
  case False
  obtain c cs where cs: "nat_str (nat n) = c # cs" using nat_str_not_Nil by (meson neq_Nil_conv)
  have "c \<in> digit_chars" using nat_str_digits [of "nat n"] cs by simp
  then have "c \<noteq> CHR ''-''" by (auto simp: digit_chars_def)
  moreover have "read_digits 0 (c # cs) = Some (nat n)" using read_nat_str [of "nat n"] cs by simp
  ultimately show ?thesis using False cs by (simp add: lua_str_def Itoa_def tonumber_def del: read_digits.simps)
qed

lemma conn_value_parts:
  assumes "colon \<notin> set f"
  shows "away_part (conn_value f n) = Some f" "seen_part (conn_value f n) = Some n"
proof -
  have "takeWhile (\<lambda>c. c \<noteq> colon) (conn_value f n) = f" "dropWhile (\<lambda>c. c \<noteq> colon) (conn_value f n) = colon # lua_str n"
    using assms unfolding conn_value_def by (simp_all add: takeWhile_append dropWhile_append)
  moreover have "colon \<in> set (conn_value f n)" by (simp add: conn_value_def)
  ultimately show "away_part (conn_value f n) = Some f" "seen_part (conn_value f n) = Some n"
    by (simp_all add: away_part_def seen_part_def tonumber_lua_str)
qed

lemma flag_no_colon: "f = ''0'' \<or> f = ''1'' \<Longrightarrow> colon \<notin> set f"
  by (auto simp: colon_def)

section \<open>Well-formed accounts and the precedence rule\<close>

definition conn_ok :: "string \<Rightarrow> bool" where
  "conn_ok v \<longleftrightarrow> (\<exists>f n. (f = ''0'' \<or> f = ''1'') \<and> 0 \<le> n \<and> v = conn_value f n)"

definition conns_ok :: "(string \<times> string) list \<Rightarrow> bool" where
  "conns_ok cs \<longleftrightarrow> distinct (map fst cs) \<and> (\<forall>(c, v) \<in> set cs. conn_ok v)"

definition seen :: "string \<Rightarrow> int" where "seen v = the (seen_part v)"
definition is_active :: "string \<Rightarrow> bool" where "is_active v \<longleftrightarrow> away_part v = Some ''0''"

definition fresh :: "int \<Rightarrow> int \<Rightarrow> string \<Rightarrow> bool" where "fresh now stale v \<longleftrightarrow> now - seen v \<le> stale"

text \<open>The rule the comment above the scripts states, over the connections an account has stored.\<close>

definition precedence :: "bool \<Rightarrow> bool \<Rightarrow> string option \<Rightarrow> string option \<Rightarrow> PresenceStatus" where
  "precedence live active manual external =
     (if \<not> live \<or> manual = Some StatusAppearOffline then StatusOffline
      else if manual = Some StatusAway then StatusAway
      else if external = Some StatusInCall then StatusInCall
      else if manual = Some StatusOnline then StatusOnline
      else if manual = Some StatusBusy then StatusBusy
      else if active then StatusOnline else StatusAway)"

definition rule :: "acct \<Rightarrow> PresenceStatus" where
  "rule a = precedence (a_conns a \<noteq> []) (\<exists>(c, v) \<in> set (a_conns a). is_active v) (a_manual a) (a_azure a)"

lemma or_empty_eq: "or_empty m = x \<longleftrightarrow> m = Some x" if "x \<noteq> ''''"
  using that by (auto simp: or_empty_def split: option.splits)

lemma effective_precedence: "effective live active (or_empty m) (or_empty a) = precedence live active m a"
  unfolding effective_def precedence_def status_defs by (simp add: or_empty_eq)

definition deadlines :: "int \<Rightarrow> (string \<times> string) list \<Rightarrow> int set" where
  "deadlines stale cs = (\<lambda>(c, v). seen v + stale) ` set cs"

definition earliest :: "int \<Rightarrow> int set \<Rightarrow> bool" where
  "earliest n D \<longleftrightarrow> (D = {} \<and> n = -1) \<or> (n \<in> D \<and> (\<forall>d \<in> D. n \<le> d))"

lemma conn_ok_cases:
  assumes "conn_ok v"
  obtains f where "f = ''0'' \<or> f = ''1''" "away_part v = Some f" "seen_part v = Some (seen v)" "0 \<le> seen v" "v = conn_value f (seen v)"
proof -
  obtain f n where fn: "f = ''0'' \<or> f = ''1''" "0 \<le> n" "v = conn_value f n" using assms unfolding conn_ok_def by blast
  note parts = conn_value_parts [OF flag_no_colon [OF fn(1)], of n, folded fn(3)]
  show ?thesis by (rule that [of f]) (use fn parts in \<open>simp_all add: seen_def\<close>)
qed

lemma seen_conn_value: "f = ''0'' \<or> f = ''1'' \<Longrightarrow> seen (conn_value f n) = n"
  using conn_value_parts [OF flag_no_colon] by (simp add: seen_def)

lemma conn_ok_conn_value: "f = ''0'' \<or> f = ''1'' \<Longrightarrow> 0 \<le> n \<Longrightarrow> conn_ok (conn_value f n)"
  unfolding conn_ok_def by blast

lemma is_active_conn_value: "f = ''0'' \<or> f = ''1'' \<Longrightarrow> is_active (conn_value f n) \<longleftrightarrow> f = ''0''"
  using conn_value_parts(1) [OF flag_no_colon] by (simp add: is_active_def)

section \<open>Pruning\<close>

lemma hdel_fields [simp]: "a_conns (hdel f a) = AList.delete f (a_conns a)" "a_manual (hdel f a) = a_manual a"
  "a_azure (hdel f a) = a_azure a" "a_status (hdel f a) = a_status a" "a_conns_exp (hdel f a) = a_conns_exp a" "a_azure_exp (hdel f a) = a_azure_exp a"
  by (simp_all add: hdel_def)

lemma earliest_insert:
  assumes "earliest n D" "0 \<le> d"  "\<forall>x \<in> D. 0 \<le> x"
  shows "earliest (if n = -1 \<or> d < n then d else n) (insert d D)"
  using assms unfolding earliest_def by auto

lemma scan_conns_ok:
  assumes "distinct (map fst xs)" "\<forall>(c, v) \<in> set xs. conn_ok v" "0 \<le> stale" "earliest (sc_next s) D" "\<forall>d \<in> D. 0 \<le> d"
  shows "\<exists>s'. scan_conns now stale xs s = (True, s')
    \<and> sc_acct s' = fold (\<lambda>(c, v) a. if fresh now stale v then a else hdel c a) xs (sc_acct s)
    \<and> (sc_live s' \<longleftrightarrow> sc_live s \<or> (\<exists>(c, v) \<in> set xs. fresh now stale v))
    \<and> (sc_active s' \<longleftrightarrow> sc_active s \<or> (\<exists>(c, v) \<in> set xs. fresh now stale v \<and> is_active v))
    \<and> earliest (sc_next s') (D \<union> deadlines stale (filter (\<lambda>(c, v). fresh now stale v) xs))"
  using assms
proof (induction xs arbitrary: s D)
  case (Cons x xs)
  obtain c v where x: "x = (c, v)" by force
  have "conn_ok v" using Cons.prems(2) x by simp
  then obtain f where f: "f = ''0'' \<or> f = ''1''" "away_part v = Some f" "seen_part v = Some (seen v)" "0 \<le> seen v" by (rule conn_ok_cases)
  have rest: "distinct (map fst xs)" "\<forall>(c, v) \<in> set xs. conn_ok v" using Cons.prems by auto
  show ?case
  proof (cases "fresh now stale v")
    case False
    then show ?thesis using Cons.IH [OF rest Cons.prems(3), of "s\<lparr>sc_acct := hdel c (sc_acct s)\<rparr>" D] Cons.prems f x
      by (simp add: fresh_def)
  next
    case True
    let ?d = "seen v + stale"
    let ?s = "s\<lparr>sc_live := True, sc_active := sc_active s \<or> f = ''0'', sc_next := if sc_next s = -1 \<or> ?d < sc_next s then ?d else sc_next s\<rparr>"
    have d: "0 \<le> ?d" using f(4) Cons.prems(3) by simp
    have e: "earliest (sc_next ?s) (insert ?d D)" using earliest_insert [OF Cons.prems(4) d Cons.prems(5)] by simp
    have step: "scan_conns now stale (x # xs) s = scan_conns now stale xs ?s"
      using True f x by (simp add: fresh_def Let_def)
    have D: "insert ?d D \<union> deadlines stale (filter (\<lambda>(c, v). fresh now stale v) xs)
      = D \<union> deadlines stale (filter (\<lambda>(c, v). fresh now stale v) (x # xs))"
      using True x by (simp add: deadlines_def)
    have "is_active v \<longleftrightarrow> f = ''0''" using f(2) by (simp add: is_active_def)
    moreover have "\<forall>y \<in> insert ?d D. 0 \<le> y" using d Cons.prems(5) by simp
    note Cons.IH [OF rest Cons.prems(3) e this]
    ultimately show ?thesis using True x unfolding step D by (simp add: disj_assoc)
  qed
qed (simp add: deadlines_def)

lemma delete_dead:
  assumes "distinct (map fst xs)"
  shows "fold (\<lambda>(c, v) a. if P v then a else hdel c a) xs a
    = a\<lparr>a_conns := filter (\<lambda>(c, v). \<forall>w. (c, w) \<in> set xs \<longrightarrow> P w) (a_conns a)\<rparr>"
  using assms
proof (induction xs arbitrary: a)
  case (Cons x xs)
  obtain c v where x: "x = (c, v)" by force
  have c: "(c, w) \<notin> set xs" for w using Cons.prems x by (auto simp: image_iff)
  show ?case using Cons.IH [of "if P v then a else hdel c a"] Cons.prems x c
    by (cases "P v") (auto simp: hdel_def AList.delete_eq intro!: arg_cong [of _ _ "\<lambda>cs. a\<lparr>a_conns := cs\<rparr>"] filter_cong)
qed simp

lemma own_dead:
  assumes "distinct (map fst xs)"
  shows "filter (\<lambda>(c, v). \<forall>w. (c, w) \<in> set xs \<longrightarrow> P w) xs = filter (\<lambda>(c, v). P v) xs"
  using assms by (intro filter_cong) (auto dest: eq_key_imp_eq_value)

lemma touch_fields [simp]:
  "a_manual (touch_conns srv a) = a_manual a" "a_status (touch_conns srv a) = a_status a" "a_azure (touch_conns srv a) = a_azure a"
  "a_manual (touch_azure srv a) = a_manual a" "a_status (touch_azure srv a) = a_status a" "a_conns (touch_azure srv a) = a_conns a"
  by (simp_all add: touch_conns_def touch_azure_def)

lemma conns_ok_filter: "conns_ok cs \<Longrightarrow> conns_ok (filter P cs)"
  unfolding conns_ok_def by (auto simp: distinct_map_filter)

lemma conns_ok_touch: "conns_ok (a_conns a) \<Longrightarrow> conns_ok (a_conns (touch_conns srv a))"
  by (simp add: touch_conns_def conns_ok_def)

definition computed :: "int \<Rightarrow> int \<Rightarrow> int \<Rightarrow> acct \<Rightarrow> acct" where
  "computed srv now stale a =
     (let b = (touch_azure srv (touch_conns srv a))\<lparr>a_conns := filter (\<lambda>(c, v). fresh now stale v) (a_conns (touch_conns srv a))\<rparr> in
      b\<lparr>a_status := Some (rule b)\<rparr>)"

text \<open>The shared tail never fails on a well-formed account: it drops the stale connections, materializes the
  rule on what is left, and reports the change and the earliest deadline.\<close>

lemma compute_ok:
  assumes "conns_ok (a_conns a)" "0 \<le> stale"
  shows "\<exists>nxt. compute srv now stale a
      = (Some (a_status a \<noteq> a_status (computed srv now stale a), rule (computed srv now stale a), nxt), computed srv now stale a)
    \<and> earliest nxt (deadlines stale (a_conns (computed srv now stale a)))"
proof -
  let ?a = "touch_azure srv (touch_conns srv a)"
  let ?s = "\<lparr>sc_acct = ?a, sc_live = False, sc_active = False, sc_next = -1\<rparr>"
  let ?cs = "filter (\<lambda>(c, v). fresh now stale v) (a_conns ?a)"
  have ok: "distinct (map fst (a_conns ?a))" "\<forall>(c, v) \<in> set (a_conns ?a). conn_ok v"
    using conns_ok_touch [OF assms(1)] unfolding conns_ok_def by auto
  obtain s where s: "scan_conns now stale (a_conns ?a) ?s = (True, s)"
    "sc_acct s = fold (\<lambda>(c, v) a. if fresh now stale v then a else hdel c a) (a_conns ?a) ?a"
    "sc_live s \<longleftrightarrow> (\<exists>(c, v) \<in> set (a_conns ?a). fresh now stale v)"
    "sc_active s \<longleftrightarrow> (\<exists>(c, v) \<in> set (a_conns ?a). fresh now stale v \<and> is_active v)"
    "earliest (sc_next s) (deadlines stale ?cs)"
    using scan_conns_ok [OF ok assms(2), of ?s "{}" now] by (auto simp: earliest_def)
  have a: "sc_acct s = ?a\<lparr>a_conns := ?cs\<rparr>"
    unfolding s(2) delete_dead [OF ok(1)] own_dead [OF ok(1)] ..
  have live: "sc_live s \<longleftrightarrow> ?cs \<noteq> []" unfolding s(3) by (auto simp: filter_empty_conv)
  have active: "sc_active s \<longleftrightarrow> (\<exists>(c, v) \<in> set ?cs. is_active v)" unfolding s(4) by auto
  have r: "effective (sc_live s) (sc_active s) (or_empty (a_manual (sc_acct s))) (or_empty (a_azure (sc_acct s))) = rule (sc_acct s)"
    unfolding a rule_def live active effective_precedence by simp
  have c: "computed srv now stale a = (sc_acct s)\<lparr>a_status := Some (rule (sc_acct s))\<rparr>"
    unfolding a computed_def Let_def by simp
  have st: "a_status (sc_acct s) = a_status a" "a_conns (sc_acct s) = ?cs" unfolding a by simp_all
  have rc: "rule (computed srv now stale a) = rule (sc_acct s)" unfolding c by (simp add: rule_def)
  have same: "a_status (sc_acct s) = Some (rule (sc_acct s)) \<Longrightarrow> (sc_acct s)\<lparr>a_status := Some (rule (sc_acct s))\<rparr> = sc_acct s"
    by (cases "sc_acct s") simp
  have "compute srv now stale a = (Some (a_status a \<noteq> a_status (computed srv now stale a), rule (computed srv now stale a), sc_next s), computed srv now stale a)"
    using s(1) same unfolding compute_def Let_def rc r [symmetric]
    by (auto simp: c r st(1))
  moreover have "a_conns (computed srv now stale a) = ?cs" unfolding c st(2) [symmetric] by simp
  ultimately show ?thesis using s(5) by auto
qed

lemma computed_fields:
  "a_status (computed srv now stale a) = Some (rule (computed srv now stale a))"
  "a_conns (computed srv now stale a) = filter (\<lambda>(c, v). fresh now stale v) (a_conns (touch_conns srv a))"
  "a_manual (computed srv now stale a) = a_manual a"
  "a_azure (computed srv now stale a) = a_azure (touch_azure srv a)"
  "a_azure_exp (computed srv now stale a) = a_azure_exp (touch_azure srv a)"
  by (simp_all add: computed_def Let_def rule_def touch_azure_def touch_conns_def)

section \<open>The contract of a script\<close>

text \<open>An account is sound when its connections are well formed and its materialized status is the rule on what
  is stored. Every script keeps an account sound, reports a change exactly when the materialized status
  changes, and answers with a deadline of a stored connection, or none when none is stored.\<close>

definition sound :: "acct \<Rightarrow> bool" where
  "sound a \<longleftrightarrow> conns_ok (a_conns a) \<and> (a_status a = Some (rule a) \<or> a_status a = None \<and> a_conns a = [])"

definition scheduled :: "int \<Rightarrow> int option \<Rightarrow> acct \<Rightarrow> bool" where
  "scheduled stale sc a = (case sc of None \<Rightarrow> a_conns a = [] | Some d \<Rightarrow> d \<in> deadlines stale (a_conns a))"

definition meets :: "int \<Rightarrow> acct \<Rightarrow> reply option \<times> acct \<Rightarrow> bool" where
  "meets stale a r = (case r of
       (Some (ch, eff, nxt), a') \<Rightarrow> sound a' \<and> a_status a' \<noteq> None \<and> (ch \<longleftrightarrow> a_status a \<noteq> a_status a')
         \<and> (ch \<longrightarrow> a_status a' = Some eff) \<and> scheduled stale (if nxt < 0 then None else Some nxt) a'
     | (None, _) \<Rightarrow> False)"

locale presence_script =
  fixes script :: script
  assumes meets_contract: "sound a \<Longrightarrow> 0 \<le> now \<Longrightarrow> 0 \<le> stale \<Longrightarrow> meets stale a (script srv now stale a)"
begin

lemma run_served:
  assumes "sound (vk_acct v account)" "0 \<le> now" "0 \<le> st_staleMs s" "cl_fate c = Served"
  obtains ch eff nxt a where "run_script s c script account now v = (Inr (ch, eff, nxt), v\<lparr>vk_acct := (vk_acct v)(account := a)\<rparr>)"
    "sound a" "a_status a \<noteq> None" "ch \<longleftrightarrow> a_status (vk_acct v account) \<noteq> a_status a" "ch \<Longrightarrow> a_status a = Some eff"
    "scheduled (st_staleMs s) (if nxt < 0 then None else Some nxt) a"
proof -
  obtain r a where ra: "script (cl_srv c) now (st_staleMs s) (vk_acct v account) = (r, a)" by force
  obtain ch eff nxt where "r = Some (ch, eff, nxt)"
    using meets_contract [OF assms(1-3), of "cl_srv c"] ra unfolding meets_def by (auto split: option.splits)
  then show ?thesis using that [of ch eff nxt a] meets_contract [OF assms(1-3), of "cl_srv c"] ra assms(4)
    unfolding meets_def run_script_def by (simp add: Let_def)
qed

lemma run_sound:
  assumes "sound (vk_acct v account)" "0 \<le> now" "0 \<le> st_staleMs s" "run_script s c script account now v = (r, v')"
  shows "\<exists>a. sound a \<and> (v' = v\<lparr>vk_acct := (vk_acct v)(account := a)\<rparr> \<or> v' = v)"
  using meets_contract [OF assms(1-3), of "cl_srv c"] assms(1,4)
  unfolding run_script_def meets_def by (auto simp: Let_def split: prod.splits fate.splits option.splits)

end

lemma deadlines_nonneg: "conns_ok cs \<Longrightarrow> 0 \<le> stale \<Longrightarrow> d \<in> deadlines stale cs \<Longrightarrow> 0 \<le> d"
  unfolding deadlines_def conns_ok_def by (auto elim!: conn_ok_cases dest!: bspec)

lemma deadlines_empty [simp]: "deadlines stale cs = {} \<longleftrightarrow> cs = []"
  by (simp add: deadlines_def)

lemma computed_sound: "conns_ok (a_conns a) \<Longrightarrow> sound (computed srv now stale a)"
  unfolding sound_def by (simp add: computed_fields(1,2) conns_ok_filter conns_ok_touch)

lemma compute_meets:
  assumes "conns_ok (a_conns b)" "0 \<le> stale" "a_status b = a_status a"
  shows "meets stale a (compute srv now stale b)"
proof -
  let ?c = "computed srv now stale b"
  obtain nxt where n: "compute srv now stale b = (Some (a_status b \<noteq> a_status ?c, rule ?c, nxt), ?c)" "earliest nxt (deadlines stale (a_conns ?c))"
    using compute_ok [OF assms(1,2)] by blast
  have s: "sound ?c" by (rule computed_sound [OF assms(1)])
  have "scheduled stale (if nxt < 0 then None else Some nxt) ?c"
    using n(2) deadlines_nonneg [of "a_conns ?c" stale nxt] s assms(2) deadlines_empty [of stale "a_conns ?c"]
    unfolding earliest_def scheduled_def sound_def by auto
  then show ?thesis using n(1) s assms(3) unfolding meets_def by (simp add: computed_fields(1))
qed

lemma alist_update_subset: "set (AList.update c v cs) \<subseteq> insert (c, v) (set cs)"
  by (induction cs) auto

lemma conns_ok_update:
  assumes "conns_ok cs" "conn_ok v"
  shows "conns_ok (AList.update c v cs)"
  using assms distinct_update [of cs c v] alist_update_subset [of c v cs] unfolding conns_ok_def by auto

lemma hset_pexpire_fields:
  assumes "0 < ttl"
  shows "a_conns (pexpire_conns srv ttl (hset c v a)) = AList.update c v (a_conns a)"
    "a_status (pexpire_conns srv ttl (hset c v a)) = a_status a"
    "a_manual (pexpire_conns srv ttl (hset c v a)) = a_manual a" "a_azure (pexpire_conns srv ttl (hset c v a)) = a_azure a"
  using assms by (simp_all add: pexpire_conns_def hset_def)

lemma map_of_update_active:
  assumes "distinct (map fst cs)" "map_of cs c = Some v" "is_active v \<longleftrightarrow> is_active w"
  shows "(\<exists>(c, v) \<in> set (AList.update c w cs). is_active v) \<longleftrightarrow> (\<exists>(c, v) \<in> set cs. is_active v)"
  using assms by (induction cs) (auto split: if_splits)

lemma update_member: "(c, v) \<in> set (AList.update c v cs)"
  by (induction cs) auto

lemma ping_known:
  assumes "sound a" "0 \<le> now" "0 < ttl" "map_of (a_conns (touch_conns srv a)) c = Some v"
  shows "\<exists>b. pingScript c ttl srv now stale a = (Some (False, '''', now + stale), b)
    \<and> (\<exists>f. (f = ''0'' \<or> f = ''1'') \<and> a_conns b = AList.update c (conn_value f now) (a_conns a) \<and> is_active v = is_active (conn_value f now))
    \<and> a_status b = a_status a \<and> a_manual b = a_manual a \<and> a_azure b = a_azure a"
proof -
  have t: "touch_conns srv a = a" using assms(4) unfolding touch_conns_def by (auto split: if_splits)
  have "(c, v) \<in> set (a_conns a)" using assms(4) map_of_SomeD unfolding t by fast
  then have "conn_ok v" using assms(1) unfolding sound_def conns_ok_def by blast
  then obtain f where f: "f = ''0'' \<or> f = ''1''" "away_part v = Some f" by (rule conn_ok_cases)
  let ?b = "pexpire_conns srv ttl (hset c (conn_value f now) a)"
  have "pingScript c ttl srv now stale a = (Some (False, '''', now + stale), ?b)"
    using assms(4) f(2) unfolding pingScript_def t Let_def by simp
  moreover have "is_active v = is_active (conn_value f now)"
    using is_active_conn_value [OF f(1), of now] f(2) by (simp add: is_active_def [of v])
  ultimately show ?thesis using f(1) hset_pexpire_fields [OF assms(3), of srv c "conn_value f now" a]
    by (intro exI [of _ ?b] conjI exI [of _ f])
qed

lemma ping_meets:
  assumes "sound a" "0 \<le> now" "0 \<le> stale" "0 < ttl"
  shows "meets stale a (pingScript c ttl srv now stale a)"
proof (cases "map_of (a_conns (touch_conns srv a)) c")
  case None
  then have "pingScript c ttl srv now stale a
    = compute srv now stale (pexpire_conns srv ttl (hset c (conn_value ''0'' now) (touch_conns srv a)))"
    by (simp add: pingScript_def)
  also have "meets stale a \<dots>"
    using assms conn_ok_conn_value [of "''0''" now]
    by (intro compute_meets) (simp_all add: hset_pexpire_fields conns_ok_update conns_ok_touch sound_def)
  finally show ?thesis .
next
  case (Some v)
  obtain b f where b: "pingScript c ttl srv now stale a = (Some (False, '''', now + stale), b)" "f = ''0'' \<or> f = ''1''"
    "a_conns b = AList.update c (conn_value f now) (a_conns a)" "is_active v = is_active (conn_value f now)"
    "a_status b = a_status a" "a_manual b = a_manual a" "a_azure b = a_azure a"
    using ping_known [OF assms(1,2,4) Some, of stale] by blast
  have m: "map_of (a_conns a) c = Some v" using Some by (auto simp: touch_conns_def split: if_splits)
  have ok: "conns_ok (a_conns a)" using assms(1) by (simp add: sound_def)
  have ne: "a_conns a \<noteq> []" using m by auto
  have "rule b = rule a" unfolding rule_def b(3,6,7)
    using map_of_update_active [OF _ m b(4)] ok ne by (simp add: conns_ok_def)
  moreover have "conns_ok (a_conns b)" unfolding b(3) by (rule conns_ok_update [OF ok conn_ok_conn_value [OF b(2) assms(2)]])
  ultimately have "sound b" "a_status b \<noteq> None" using assms(1) b(5) ne unfolding sound_def by auto
  moreover have "now + stale \<in> deadlines stale (a_conns b)"
    using update_member [of c "conn_value f now" "a_conns a"] seen_conn_value [OF b(2), of now] unfolding deadlines_def b(3) by force
  ultimately show ?thesis using b(1,5) assms(2,3) unfolding meets_def by (simp add: scheduled_def)
qed

lemma activity_meets:
  assumes "sound a" "0 \<le> now" "0 \<le> stale" "0 < ttl" "f = ''0'' \<or> f = ''1''"
  shows "meets stale a (activityScript c f ttl srv now stale a)"
  unfolding activityScript_def Let_def
  using assms conn_ok_conn_value [OF assms(5,2)]
  by (intro compute_meets) (simp_all add: hset_pexpire_fields conns_ok_update conns_ok_touch sound_def)

lemma conns_ok_delete: "conns_ok cs \<Longrightarrow> conns_ok (AList.delete c cs)"
  by (simp add: AList.delete_eq conns_ok_filter)

interpretation bye: presence_script "byeScript connID" for connID
  by unfold_locales
    (auto simp: byeScript_def conns_ok_delete conns_ok_touch sound_def intro!: compute_meets)

interpretation manual: presence_script "manualScript status" for status
  by unfold_locales (auto simp: manualScript_def sound_def intro!: compute_meets)

interpretation external: presence_script "externalScript status ttl" for status ttl
  by unfold_locales (auto simp: externalScript_def pexpire_azure_def sound_def intro!: compute_meets)

interpretation sweep: presence_script sweepScript
  by unfold_locales (auto simp: sweepScript_def sound_def intro!: compute_meets)

text \<open>Ping and activity set the hash's time to live, which the configuration requires to be positive.\<close>

locale presence_config =
  fixes s :: Store
  assumes ttl_positive: "0 < st_connsTTL s"
    and stale_nonneg: "0 \<le> st_staleMs s"

sublocale presence_config \<subseteq> ping: presence_script "pingScript connID (st_connsTTL s)" for connID
  by unfold_locales (rule ping_meets [OF _ _ _ ttl_positive])

sublocale presence_config \<subseteq> active: presence_script "activityScript connID ''0'' (st_connsTTL s)" for connID
  by unfold_locales (rule activity_meets [OF _ _ _ ttl_positive]; simp)

sublocale presence_config \<subseteq> idle: presence_script "activityScript connID ''1'' (st_connsTTL s)" for connID
  by unfold_locales (rule activity_meets [OF _ _ _ ttl_positive]; simp)

section \<open>The store and its sweep index\<close>

text \<open>An account is in step when it is sound and its entry in the sweep index is the deadline of one of its
  connections; it has an entry exactly when it has connections.\<close>

definition acct_in_step :: "int \<Rightarrow> valkey \<Rightarrow> string \<Rightarrow> bool" where
  "acct_in_step stale v account \<longleftrightarrow> sound (vk_acct v account) \<and> scheduled stale (map_of (vk_sweep v) account) (vk_acct v account)"

definition in_step :: "int \<Rightarrow> valkey \<Rightarrow> bool" where
  "in_step stale v \<longleftrightarrow> distinct (map fst (vk_sweep v)) \<and> (\<forall>account. acct_in_step stale v account)"

lemma sound_no_acct: "sound no_acct"
  by (simp add: no_acct_def sound_def conns_ok_def)

lemma in_step_empty: "in_step stale no_presence"
  by (simp add: in_step_def acct_in_step_def no_presence_def scheduled_def sound_no_acct) (simp add: no_acct_def)

lemma reschedule_served:
  assumes "cl_fate c = Served"
  shows "\<exists>v'. reschedule s c account nxt v = (None, v') \<and> vk_acct v' = vk_acct v
    \<and> map_of (vk_sweep v') = (map_of (vk_sweep v))(account := if nxt < 0 then None else Some nxt)
    \<and> (distinct (map fst (vk_sweep v)) \<longrightarrow> distinct (map fst (vk_sweep v')))"
  using assms by (auto simp: reschedule_def zrem_def zadd_def Let_def delete_conv' update_conv' distinct_update
      intro: AList.distinct_delete)

context presence_script
begin

lemma mutate_served:
  assumes "in_step (st_staleMs s) v" "0 \<le> now" "0 \<le> st_staleMs s" "cl_fate (fst cs) = Served" "cl_fate (snd cs) = Served"
  obtains ch eff v' where "mutate s cs now account script v = (Inr (ch, eff), v')" "in_step (st_staleMs s) v'"
    "ch \<longleftrightarrow> a_status (vk_acct v account) \<noteq> a_status (vk_acct v' account)" "ch \<Longrightarrow> a_status (vk_acct v' account) = Some eff"
    "\<And>b. b \<noteq> account \<Longrightarrow> vk_acct v' b = vk_acct v b" "a_status (vk_acct v' account) \<noteq> None"
proof -
  have "sound (vk_acct v account)" using assms(1) by (simp add: in_step_def acct_in_step_def)
  then obtain ch eff nxt a where r: "run_script s (fst cs) script account now v = (Inr (ch, eff, nxt), v\<lparr>vk_acct := (vk_acct v)(account := a)\<rparr>)"
    "sound a" "a_status a \<noteq> None" "ch \<longleftrightarrow> a_status (vk_acct v account) \<noteq> a_status a" "ch \<Longrightarrow> a_status a = Some eff"
    "scheduled (st_staleMs s) (if nxt < 0 then None else Some nxt) a"
    using run_served [OF _ assms(2,3,4)] by metis
  let ?v = "v\<lparr>vk_acct := (vk_acct v)(account := a)\<rparr>"
  obtain v' where v': "reschedule s (snd cs) account nxt ?v = (None, v')" "vk_acct v' = vk_acct ?v"
    "map_of (vk_sweep v') = (map_of (vk_sweep v))(account := if nxt < 0 then None else Some nxt)"
    "distinct (map fst (vk_sweep v)) \<Longrightarrow> distinct (map fst (vk_sweep v'))"
    using reschedule_served [OF assms(5), of s account nxt ?v] by auto
  have "in_step (st_staleMs s) v'"
    using assms(1) r(2,6) v'(2-4) by (simp add: in_step_def acct_in_step_def split: if_splits)
  then show ?thesis using that [of ch eff v'] r v' by (simp add: mutate_def)
qed

end

end
