(* ===== verification/Presence_Handler.thy ===== *)
theory Presence_Handler
  imports Presence_Scripts Subjects
begin

text \<open>
  The presence service above its store (\<open>src/user-presence-service\<close>: \<open>handler.go\<close>, \<open>sweeper.go\<close>,
  \<open>peer_client.go\<close>) and the job that copies Teams calls into it (\<open>sync/reconcile.go\<close>, \<open>sync/valkey.go\<close>).
  A handler takes the clock readings and the fates of the calls it makes and returns its error or reply, what
  it hands to the publisher, and the store. Publishing is best effort: its result is never looked at. The user
  directory, the transport to other sites, the JSON codec and Microsoft Graph are arguments.
\<close>

section \<open>Published states\<close>

record PresenceStateMsg =
  pst_Account :: string
  pst_SiteID :: string
  pst_Status :: PresenceStatus
  pst_Timestamp :: int

type_synonym publication = "string \<times> PresenceStateMsg"

definition PublishState :: "string \<Rightarrow> string \<Rightarrow> PresenceStatus \<Rightarrow> int \<Rightarrow> publication list" where
  "PublishState siteID account status now =
     [(Subjects.PresenceState account, \<lparr>pst_Account = account, pst_SiteID = siteID, pst_Status = status, pst_Timestamp = now\<rparr>)]"

section \<open>The fire-and-forget handlers\<close>

record presence_env =
  ph_store :: Store
  ph_siteID :: string
  ph_batchMax :: int

text \<open>The clock as the store reads it and as the handler reads it, and the two calls.\<close>

record tick =
  tk_store :: int
  tk_now :: int
  tk_calls :: "call \<times> call"

type_synonym handled = "goerr option \<times> publication list \<times> valkey"

definition after_store :: "presence_env \<Rightarrow> tick \<Rightarrow> string \<Rightarrow> string \<Rightarrow> (goerr + bool \<times> PresenceStatus) \<times> valkey \<Rightarrow> handled" where
  "after_store h t what account r =
     (case r of
        (Inl e, v) \<Rightarrow> (Some (Wrapf what e), [], v)
      | (Inr (changed, eff), v) \<Rightarrow> (None, if changed then PublishState (ph_siteID h) account eff (tk_now t) else [], v))"

definition missing_conn :: goerr where "missing_conn = bad_request ''missing account or connId''"

definition Hello :: "presence_env \<Rightarrow> tick \<Rightarrow> string \<Rightarrow> string \<Rightarrow> valkey \<Rightarrow> handled" where
  "Hello h t account connID v =
     (if account = '''' \<or> connID = '''' then (Some missing_conn, [], v)
      else after_store h t ''record hello'' account (SetActivity (ph_store h) (tk_calls t) (tk_store t) account connID False v))"

definition PingHandler :: "presence_env \<Rightarrow> tick \<Rightarrow> string \<Rightarrow> string \<Rightarrow> valkey \<Rightarrow> handled" where
  "PingHandler h t account connID v =
     (if account = '''' \<or> connID = '''' then (Some missing_conn, [], v)
      else after_store h t ''record ping'' account (Ping (ph_store h) (tk_calls t) (tk_store t) account connID v))"

definition Activity :: "presence_env \<Rightarrow> tick \<Rightarrow> string \<Rightarrow> string \<Rightarrow> bool \<Rightarrow> valkey \<Rightarrow> handled" where
  "Activity h t account connID away v =
     (if account = '''' \<or> connID = '''' then (Some missing_conn, [], v)
      else after_store h t ''record activity'' account (SetActivity (ph_store h) (tk_calls t) (tk_store t) account connID away v))"

definition Bye :: "presence_env \<Rightarrow> tick \<Rightarrow> string \<Rightarrow> string \<Rightarrow> valkey \<Rightarrow> handled" where
  "Bye h t account connID v =
     (if account = '''' \<or> connID = '''' then (Some missing_conn, [], v)
      else after_store h t ''remove connection'' account (RemoveConnection (ph_store h) (tk_calls t) (tk_store t) account connID v))"

section \<open>The manual override\<close>

record ManualStatusResponse =
  ms_Account :: string
  ms_Status :: PresenceStatus
  ms_SetAt :: int
  ms_Effective :: PresenceStatus

definition manual_statuses :: "PresenceStatus set" where
  "manual_statuses = {StatusNone, StatusOnline, StatusAway, StatusBusy, StatusAppearOffline}"

definition SetManualHandler :: "presence_env \<Rightarrow> tick \<Rightarrow> string \<Rightarrow> PresenceStatus \<Rightarrow> valkey
    \<Rightarrow> (goerr + ManualStatusResponse) \<times> publication list \<times> valkey" where
  "SetManualHandler h t account status v =
     (if account = '''' then (Inl (bad_request ''missing account''), [], v)
      else if status \<notin> manual_statuses then (Inl (bad_request ''invalid manual status''), [], v)
      else case SetManual (ph_store h) (tk_calls t) (tk_store t) account status v of
        (Inl e, v') \<Rightarrow> (Inl (Wrapf ''set manual'' e), [], v')
      | (Inr (changed, eff), v') \<Rightarrow>
          (Inr \<lparr>ms_Account = account, ms_Status = status, ms_SetAt = tk_now t, ms_Effective = eff\<rparr>,
           if changed then PublishState (ph_siteID h) account eff (tk_now t) else [], v'))"

section \<open>The sweeper\<close>

text \<open>One tick. A sweep that stops half way returns the changes it has made and an error; the tick then
  publishes none of them.\<close>

definition sweep_tick :: "presence_env \<Rightarrow> call \<Rightarrow> (string \<Rightarrow> call \<times> call) \<Rightarrow> int \<Rightarrow> valkey \<Rightarrow> handled" where
  "sweep_tick h c net now v =
     (case Sweep (ph_store h) c net now v of
        ((changes, Some e), v') \<Rightarrow> (Some e, [], v')
      | ((changes, None), v') \<Rightarrow>
          (None, concat (map (\<lambda>ch. PublishState (ph_siteID h) (ch_Account ch) (ch_Effective ch) now) changes), v'))"

section \<open>Queries\<close>

record PresenceQueryResponse =
  pq_States :: "PresenceStateMsg list"
  pq_Timestamp :: int

definition too_many :: "presence_env \<Rightarrow> goerr" where
  "too_many h = bad_request (''batch exceeds max of '' @ Itoa (ph_batchMax h) @ '' accounts'')"

definition QueryBatchPeer :: "presence_env \<Rightarrow> call \<Rightarrow> int \<Rightarrow> valkey \<Rightarrow> string list \<Rightarrow> goerr + PresenceQueryResponse" where
  "QueryBatchPeer h c now v accounts =
     (if accounts = [] then Inr \<lparr>pq_States = [], pq_Timestamp = now\<rparr>
      else if ph_batchMax h < int (length accounts) then Inl (too_many h)
      else case BatchGet c v accounts of
        Inl e \<Rightarrow> Inl (Wrapf ''batch get'' e)
      | Inr statuses \<Rightarrow>
          Inr \<lparr>pq_States = map (\<lambda>account.
                  \<lparr>pst_Account = account, pst_SiteID = ph_siteID h,
                   pst_Status = (case statuses account of None \<Rightarrow> StatusOffline | Some s \<Rightarrow> s), pst_Timestamp = now\<rparr>) accounts,
               pq_Timestamp = now\<rparr>)"

text \<open>The peer client: \<open>enc\<close>, \<open>decErr\<close> and \<open>decResp\<close> are the codec, \<open>request\<close> the NATS request.\<close>

definition QueryPeer :: "(string list \<Rightarrow> goerr + string) \<Rightarrow> (string \<Rightarrow> string \<Rightarrow> goerr + string) \<Rightarrow> (string \<Rightarrow> Error option)
    \<Rightarrow> (string \<Rightarrow> goerr + PresenceQueryResponse) \<Rightarrow> string \<Rightarrow> string list \<Rightarrow> goerr + PresenceStateMsg list" where
  "QueryPeer enc request decErr decResp siteID accounts =
     (case enc accounts of
        Inl e \<Rightarrow> Inl (Wrapf ''marshal peer presence query'' e)
      | Inr body \<Rightarrow>
          (case request (Subjects.PresenceQueryBatchPeer siteID) body of
             Inl e \<Rightarrow> Inl (Wrapf (''presence peer query to '' @ siteID) e)
           | Inr data \<Rightarrow>
               (case Parse decErr data of
                  Some e \<Rightarrow> Inl (Raw (''remote presence query: '' @ ec_Message e))
                | None \<Rightarrow>
                    (case decResp data of
                       Inl e \<Rightarrow> Inl (Wrapf ''unmarshal peer presence reply'' e)
                     | Inr resp \<Rightarrow> Inr (pq_States resp)))))"

text \<open>A user is an account and its home site. The groups finish in the order of the list \<open>sites\<close>.\<close>

type_synonym homes = "(string \<times> string) list"

definition site_accounts :: "homes \<Rightarrow> string \<Rightarrow> string list" where
  "site_accounts users site = map fst (filter (\<lambda>u. snd u = site) users)"

fun merge_sites :: "presence_env \<Rightarrow> call \<Rightarrow> valkey \<Rightarrow> (string \<Rightarrow> string list \<Rightarrow> goerr + PresenceStateMsg list) \<Rightarrow> homes
    \<Rightarrow> string list \<Rightarrow> (string \<rightharpoonup> PresenceStatus) \<Rightarrow> goerr + (string \<rightharpoonup> PresenceStatus)" where
  "merge_sites h c v peer users [] m = Inr m"
| "merge_sites h c v peer users (site # sites) m =
     (if site = ph_siteID h
      then (case BatchGet c v (site_accounts users site) of
              Inl e \<Rightarrow> Inl (Wrapf ''local batch get'' e)
            | Inr statuses \<Rightarrow> merge_sites h c v peer users sites (m ++ statuses))
      else (case peer site (site_accounts users site) of
              Inl e \<Rightarrow> merge_sites h c v peer users sites m
            | Inr states \<Rightarrow> merge_sites h c v peer users sites
                (fold (\<lambda>st m. m(pst_Account st \<mapsto> pst_Status st)) states m)))"

definition site_of :: "homes \<Rightarrow> string \<Rightarrow> string" where
  "site_of users account = (case map_of (rev users) account of None \<Rightarrow> '''' | Some s \<Rightarrow> s)"

definition QueryBatch :: "presence_env \<Rightarrow> call \<Rightarrow> int \<Rightarrow> valkey \<Rightarrow> (string list \<Rightarrow> goerr + homes)
    \<Rightarrow> (string \<Rightarrow> string list \<Rightarrow> goerr + PresenceStateMsg list) \<Rightarrow> (string list \<Rightarrow> string list) \<Rightarrow> string list
    \<Rightarrow> goerr + PresenceQueryResponse" where
  "QueryBatch h c now v findUsers peer order accounts =
     (if accounts = [] then Inr \<lparr>pq_States = [], pq_Timestamp = now\<rparr>
      else if ph_batchMax h < int (length accounts) then Inl (too_many h)
      else case findUsers accounts of
        Inl e \<Rightarrow> Inl (Wrapf ''resolve user home sites'' e)
      | Inr users \<Rightarrow>
          (case merge_sites h c v peer users (order (remdups (map snd users))) Map.empty of
             Inl e \<Rightarrow> Inl e
           | Inr statusByAccount \<Rightarrow>
               Inr \<lparr>pq_States = map (\<lambda>account.
                       \<lparr>pst_Account = account,
                        pst_SiteID = (if site_of users account = '''' then ph_siteID h else site_of users account),
                        pst_Status = (case statusByAccount account of
                            None \<Rightarrow> StatusOffline | Some s \<Rightarrow> if s = StatusNone then StatusOffline else s),
                        pst_Timestamp = now\<rparr>) accounts,
                    pq_Timestamp = now\<rparr>))"

end
