(* ===== verification/Presence_Worker.thy ===== *)
theory Presence_Worker
  imports Presence_Handler
begin

text \<open>
  The presence service as a whole. Every message runs in its own goroutine and several replicas share one
  Valkey, so the script of one request, its sweep entry and its publication interleave with those of others:
  \<open>p_step\<close> is that machine, with calls that fail. What holds in every interleaving is stated over it; what
  needs requests to be served one after the other is stated over \<open>served_run\<close>.
\<close>

section \<open>Interleaved requests\<close>

record pworld =
  pw_vk :: valkey
  pw_flights :: "(string \<times> reply) list"
  pw_out :: "(string \<times> PresenceStatus) list"
  pw_sent :: "publication list"

definition presence_scripts :: "Store \<Rightarrow> script set" where
  "presence_scripts s =
     {pingScript c (st_connsTTL s) | c. True} \<union> {activityScript c (if away then ''1'' else ''0'') (st_connsTTL s) | c away. True}
     \<union> {byeScript c | c. True} \<union> {manualScript st | st. True} \<union> {externalScript st ttl | st ttl. True} \<union> {sweepScript}"

inductive p_step :: "presence_env \<Rightarrow> pworld \<Rightarrow> pworld \<Rightarrow> bool" for h :: presence_env where
  script_runs: "script \<in> presence_scripts (ph_store h) \<Longrightarrow> 0 \<le> now \<Longrightarrow>
    run_script (ph_store h) c script account now (pw_vk w) = (r, v) \<Longrightarrow>
    p_step h w (w\<lparr>pw_vk := v, pw_flights := pw_flights w @ (case r of Inr rep \<Rightarrow> [(account, rep)] | Inl _ \<Rightarrow> [])\<rparr>)"
| rescheduled: "pw_flights w = fs @ (account, ch, eff, nxt) # gs \<Longrightarrow>
    reschedule (ph_store h) c account nxt (pw_vk w) = (e, v) \<Longrightarrow>
    p_step h w (w\<lparr>pw_vk := v, pw_flights := fs @ gs, pw_out := pw_out w @ (if e = None \<and> ch then [(account, eff)] else [])\<rparr>)"
| published: "pw_out w = fs @ (account, eff) # gs \<Longrightarrow>
    p_step h w (w\<lparr>pw_out := fs @ gs, pw_sent := pw_sent w @ PublishState (ph_siteID h) account eff now\<rparr>)"
| dropped: "pw_out w = fs @ ch # gs \<Longrightarrow> p_step h w (w\<lparr>pw_out := fs @ gs\<rparr>)"

inductive_cases p_stepE: "p_step h w w'"

definition pworld0 :: pworld where
  "pworld0 = \<lparr>pw_vk = no_presence, pw_flights = [], pw_out = [], pw_sent = []\<rparr>"

definition p_reachable :: "presence_env \<Rightarrow> pworld \<Rightarrow> bool" where
  "p_reachable h w \<longleftrightarrow> (p_step h)\<^sup>*\<^sup>* pworld0 w"

definition store_config :: "Store \<Rightarrow> bool" where
  "store_config s \<longleftrightarrow> 0 < st_connsTTL s \<and> 0 \<le> st_staleMs s"

lemma store_config_locale: "store_config s \<Longrightarrow> presence_config s"
  by (simp add: store_config_def presence_config_def)

context presence_config
begin

lemma all_scripts_meet: "script \<in> presence_scripts s \<Longrightarrow> presence_script script"
  unfolding presence_scripts_def
  using ping.presence_script_axioms active.presence_script_axioms idle.presence_script_axioms
    bye.presence_script_axioms manual.presence_script_axioms external.presence_script_axioms sweep.presence_script_axioms
  by auto

end

lemmas scripts_meet = presence_config.all_scripts_meet [OF store_config_locale]

section \<open>In every interleaving the materialized status is the rule\<close>

lemma reschedule_acct: "reschedule s c account nxt v = (e, v') \<Longrightarrow> vk_acct v' = vk_acct v"
  by (auto simp: reschedule_def zrem_def zadd_def Let_def split: fate.splits if_splits)

lemma step_sound:
  assumes "p_step h w w'" "store_config (ph_store h)" "\<forall>a. sound (vk_acct (pw_vk w) a)"
  shows "\<forall>a. sound (vk_acct (pw_vk w') a)"
  using assms(1)
proof (cases rule: p_step.cases)
  case (script_runs script now c account r v)
  have "presence_script script" by (rule scripts_meet [OF assms(2) script_runs(2)])
  note one = presence_script.run_sound [OF this _ script_runs(3) _ script_runs(4)]
  obtain a where "sound a" "v = (pw_vk w)\<lparr>vk_acct := (vk_acct (pw_vk w))(account := a)\<rparr> \<or> v = pw_vk w"
    using one assms(2,3) by (auto simp: store_config_def)
  then show ?thesis using assms(3) script_runs(1) by auto
next
  case (rescheduled fs account ch eff nxt gs c e v)
  then show ?thesis using assms(3) by (simp add: reschedule_acct)
qed (use assms(3) in simp_all)

lemma reachable_sound:
  assumes "p_reachable h w" "store_config (ph_store h)"
  shows "sound (vk_acct (pw_vk w) a)"
proof -
  have "\<forall>a. sound (vk_acct (pw_vk w) a)"
    using assms(1) unfolding p_reachable_def
  proof (induction rule: rtranclp_induct)
    case base
    then show ?case by (simp add: pworld0_def no_presence_def sound_no_acct)
  next
    case (step w w')
    then show ?case using step_sound [OF _ assms(2)] by blast
  qed
  then show ?thesis ..
qed

lemma rule_nonempty: "rule a \<noteq> ''''"
  unfolding rule_def precedence_def status_defs by simp

lemma rule_alone: "a_conns a = [] \<Longrightarrow> rule a = StatusOffline"
  unfolding rule_def precedence_def by simp

lemma read_status_rule: "sound (vk_acct v a) \<Longrightarrow> read_status v a = rule (vk_acct v a)"
  unfolding sound_def read_status_def by (auto simp: rule_nonempty rule_alone)

section \<open>The handlers are runs of the machine\<close>

definition in_world :: "pworld \<Rightarrow> publication list \<Rightarrow> valkey \<Rightarrow> pworld" where
  "in_world w pubs v = w\<lparr>pw_vk := v, pw_sent := pw_sent w @ pubs\<rparr>"

lemma mutate_steps:
  assumes "script \<in> presence_scripts (ph_store h)" "0 \<le> now" "mutate (ph_store h) cs now account script (pw_vk w) = (r, v)"
    "pubs = (case r of Inr (True, eff) \<Rightarrow> PublishState (ph_siteID h) account eff at_time | _ \<Rightarrow> [])"
  shows "(p_step h)\<^sup>*\<^sup>* w (in_world w pubs v)"
proof -
  obtain r1 v1 where r1: "run_script (ph_store h) (fst cs) script account now (pw_vk w) = (r1, v1)" by force
  note first = script_runs [OF assms(1,2) r1]
  show ?thesis
  proof (cases r1)
    case (Inl e)
    then have "in_world w pubs v = w\<lparr>pw_vk := v1, pw_flights := pw_flights w @ (case r1 of Inr rep \<Rightarrow> [(account, rep)] | Inl _ \<Rightarrow> [])\<rparr>"
      using assms(3,4) r1 by (auto simp: mutate_def in_world_def)
    then show ?thesis using first by auto
  next
    case (Inr rep)
    obtain ch eff nxt where rep: "rep = (ch, eff, nxt)" by (cases rep)
    let ?w1 = "w\<lparr>pw_vk := v1, pw_flights := pw_flights w @ [(account, ch, eff, nxt)]\<rparr>"
    obtain e v2 where e: "reschedule (ph_store h) (snd cs) account nxt (pw_vk ?w1) = (e, v2)" by force
    have w1: "p_step h w ?w1" using first Inr rep by simp
    note second = rescheduled [OF _ e, of "pw_flights w" ch eff "[]"]
    show ?thesis
    proof (cases "e = None \<and> ch")
      case True
      have "p_step h ?w1 (?w1\<lparr>pw_vk := v2, pw_flights := pw_flights w, pw_out := pw_out w @ [(account, eff)]\<rparr>)"
        using second True by simp
      moreover have "p_step h (?w1\<lparr>pw_vk := v2, pw_flights := pw_flights w, pw_out := pw_out w @ [(account, eff)]\<rparr>) (in_world w pubs v)"
        using published [of "?w1\<lparr>pw_vk := v2, pw_flights := pw_flights w, pw_out := pw_out w @ [(account, eff)]\<rparr>" "pw_out w" account eff "[]" h at_time]
          assms(3,4) r1 Inr rep e True by (auto simp: mutate_def in_world_def)
      ultimately show ?thesis using w1 by (meson converse_rtranclp_into_rtranclp r_into_rtranclp)
    next
      case False
      have "in_world w pubs v = ?w1\<lparr>pw_vk := v2, pw_flights := pw_flights w, pw_out := pw_out w\<rparr>"
        using assms(3,4) r1 Inr rep e False by (auto simp: mutate_def in_world_def split: option.splits)
      then have "p_step h ?w1 (in_world w pubs v)" using second False by (auto split: if_splits)
      then show ?thesis using w1 by (meson converse_rtranclp_into_rtranclp r_into_rtranclp)
    qed
  qed
qed

lemma presence_scripts_intros:
  "pingScript c (st_connsTTL s) \<in> presence_scripts s"
  "activityScript c (if away then ''1'' else ''0'') (st_connsTTL s) \<in> presence_scripts s"
  "byeScript c \<in> presence_scripts s" "manualScript st \<in> presence_scripts s" "externalScript st ttl \<in> presence_scripts s"
  "sweepScript \<in> presence_scripts s"
  unfolding presence_scripts_def by blast+

lemma in_world_same: "in_world w [] (pw_vk w) = w"
  by (simp add: in_world_def)

lemma after_store_steps:
  assumes "after_store h t what account (mutate (ph_store h) (tk_calls t) (tk_store t) account script (pw_vk w)) = (e, pubs, v)"
    "script \<in> presence_scripts (ph_store h)" "0 \<le> tk_store t"
  shows "(p_step h)\<^sup>*\<^sup>* w (in_world w pubs v)"
proof -
  obtain r v1 where r: "mutate (ph_store h) (tk_calls t) (tk_store t) account script (pw_vk w) = (r, v1)" by force
  have "v1 = v" "pubs = (case r of Inr (True, eff) \<Rightarrow> PublishState (ph_siteID h) account eff (tk_now t) | _ \<Rightarrow> [])"
    using assms(1) unfolding r after_store_def by (auto split: sum.splits bool.splits)
  then show ?thesis using mutate_steps [OF assms(2,3) r] by simp
qed

lemma handler_steps:
  assumes "0 \<le> tk_store t"
  shows "Hello h t account c (pw_vk w) = (e, pubs, v) \<Longrightarrow> (p_step h)\<^sup>*\<^sup>* w (in_world w pubs v)"
    "PingHandler h t account c (pw_vk w) = (e, pubs, v) \<Longrightarrow> (p_step h)\<^sup>*\<^sup>* w (in_world w pubs v)"
    "Activity h t account c away (pw_vk w) = (e, pubs, v) \<Longrightarrow> (p_step h)\<^sup>*\<^sup>* w (in_world w pubs v)"
    "Bye h t account c (pw_vk w) = (e, pubs, v) \<Longrightarrow> (p_step h)\<^sup>*\<^sup>* w (in_world w pubs v)"
  unfolding Hello_def PingHandler_def Activity_def Bye_def SetActivity_def Ping_def RemoveConnection_def
  using after_store_steps [OF _ presence_scripts_intros(1) assms] after_store_steps [OF _ presence_scripts_intros(2) assms]
    after_store_steps [OF _ presence_scripts_intros(2) [where away = False, simplified] assms]
    after_store_steps [OF _ presence_scripts_intros(3) assms]
  by (auto simp: in_world_same split: if_splits)

lemma manual_steps:
  assumes "SetManualHandler h t account status (pw_vk w) = (r, pubs, v)" "0 \<le> tk_store t"
  shows "(p_step h)\<^sup>*\<^sup>* w (in_world w pubs v)"
proof (cases "account = '''' \<or> status \<notin> manual_statuses")
  case True
  then have "pubs = []" "v = pw_vk w" using assms(1) unfolding SetManualHandler_def by (auto split: if_splits)
  then show ?thesis by (simp add: in_world_same)
next
  case False
  obtain r' v1 where m: "mutate (ph_store h) (tk_calls t) (tk_store t) account (manualScript status) (pw_vk w) = (r', v1)" by force
  have "v1 = v" "pubs = (case r' of Inr (True, eff) \<Rightarrow> PublishState (ph_siteID h) account eff (tk_now t) | _ \<Rightarrow> [])"
    using assms(1) False m unfolding SetManualHandler_def SetManual_def by (auto split: sum.splits bool.splits)
  then show ?thesis using mutate_steps [OF presence_scripts_intros(4) assms(2) m] by simp
qed

definition pending_changes :: "StatusChange list \<Rightarrow> (string \<times> PresenceStatus) list" where
  "pending_changes chs = map (\<lambda>ch. (ch_Account ch, ch_Effective ch)) chs"

lemma sweep_loop_steps:
  assumes "sweep_loop (ph_store h) net now as chs (pw_vk w) = ((chs', e), v)" "0 \<le> now"
  shows "\<exists>new. chs' = chs @ new \<and> (p_step h)\<^sup>*\<^sup>* w (w\<lparr>pw_vk := v, pw_out := pw_out w @ pending_changes new\<rparr>)"
  using assms(1)
proof (induction as arbitrary: chs w)
  case Nil
  then show ?case by (auto simp: pending_changes_def)
next
  case (Cons a as)
  obtain r1 v1 where r1: "run_script (ph_store h) (fst (net a)) sweepScript a now (pw_vk w) = (r1, v1)" by force
  note first = script_runs [OF presence_scripts_intros(6) assms(2) r1]
  show ?case
  proof (cases r1)
    case (Inl e')
    then show ?thesis using Cons.prems r1 first by (auto simp: pending_changes_def)
  next
    case (Inr rep)
    obtain ch eff nxt where rep: "rep = (ch, eff, nxt)" by (cases rep)
    let ?w1 = "w\<lparr>pw_vk := v1, pw_flights := pw_flights w @ [(a, ch, eff, nxt)]\<rparr>"
    obtain e2 v2 where e2: "reschedule (ph_store h) (snd (net a)) a nxt (pw_vk ?w1) = (e2, v2)" by force
    let ?new = "if e2 = None \<and> ch then [\<lparr>ch_Account = a, ch_Effective = eff\<rparr>] else []"
    let ?w2 = "w\<lparr>pw_vk := v2, pw_out := pw_out w @ pending_changes ?new\<rparr>"
    have "p_step h ?w1 ?w2" using rescheduled [OF _ e2, of "pw_flights w" ch eff "[]"] by (auto simp: pending_changes_def split: if_splits)
    then have w2: "(p_step h)\<^sup>*\<^sup>* w ?w2" using first Inr rep by (simp add: converse_rtranclp_into_rtranclp)
    show ?thesis
    proof (cases e2)
      case (Some e')
      then show ?thesis using Cons.prems r1 Inr rep e2 w2 by (auto simp: pending_changes_def)
    next
      case None
      then have "sweep_loop (ph_store h) net now as (chs @ ?new) (pw_vk ?w2) = ((chs', e), v)"
        using Cons.prems r1 Inr rep e2 by (auto split: if_splits)
      from Cons.IH [OF this] obtain new where new: "chs' = (chs @ ?new) @ new"
        "(p_step h)\<^sup>*\<^sup>* ?w2 (?w2\<lparr>pw_vk := v, pw_out := pw_out ?w2 @ pending_changes new\<rparr>)" by blast
      have eq: "?w2\<lparr>pw_vk := v, pw_out := pw_out ?w2 @ pending_changes new\<rparr> = w\<lparr>pw_vk := v, pw_out := pw_out w @ pending_changes (?new @ new)\<rparr>"
        by (simp add: pending_changes_def)
      have "(p_step h)\<^sup>*\<^sup>* w (w\<lparr>pw_vk := v, pw_out := pw_out w @ pending_changes (?new @ new)\<rparr>)"
        using rtranclp_trans [OF w2 new(2)] unfolding eq .
      moreover have "chs' = chs @ (?new @ new)" using new(1) by simp
      ultimately show ?thesis by blast
    qed
  qed
qed

lemma publish_pending:
  "(p_step h)\<^sup>*\<^sup>* (w\<lparr>pw_out := out @ pending_changes chs\<rparr>)
    (w\<lparr>pw_out := out, pw_sent := pw_sent w @ concat (map (\<lambda>ch. PublishState (ph_siteID h) (ch_Account ch) (ch_Effective ch) now) chs)\<rparr>)"
proof (induction chs arbitrary: w)
  case (Cons ch chs)
  let ?w = "w\<lparr>pw_sent := pw_sent w @ PublishState (ph_siteID h) (ch_Account ch) (ch_Effective ch) now\<rparr>"
  have "p_step h (w\<lparr>pw_out := out @ pending_changes (ch # chs)\<rparr>) (?w\<lparr>pw_out := out @ pending_changes chs\<rparr>)"
    using published [of "w\<lparr>pw_out := out @ pending_changes (ch # chs)\<rparr>" out "ch_Account ch" "ch_Effective ch" "pending_changes chs" h now]
    by (cases w) (simp add: pending_changes_def)
  moreover have "(p_step h)\<^sup>*\<^sup>* (?w\<lparr>pw_out := out @ pending_changes chs\<rparr>)
    (w\<lparr>pw_out := out, pw_sent := pw_sent w @ concat (map (\<lambda>ch. PublishState (ph_siteID h) (ch_Account ch) (ch_Effective ch) now) (ch # chs))\<rparr>)"
    using Cons.IH [of ?w] by (cases w) simp
  ultimately show ?case by (rule converse_rtranclp_into_rtranclp)
qed (simp add: pending_changes_def)

lemma drop_pending: "(p_step h)\<^sup>*\<^sup>* (w\<lparr>pw_out := out @ pending_changes chs\<rparr>) (w\<lparr>pw_out := out\<rparr>)"
proof (induction chs)
  case (Cons ch chs)
  have "p_step h (w\<lparr>pw_out := out @ pending_changes (ch # chs)\<rparr>) (w\<lparr>pw_out := out @ pending_changes chs\<rparr>)"
    using dropped [of "w\<lparr>pw_out := out @ pending_changes (ch # chs)\<rparr>" out "(ch_Account ch, ch_Effective ch)" "pending_changes chs" h]
    by (simp add: pending_changes_def)
  then show ?case using Cons.IH by (rule converse_rtranclp_into_rtranclp)
qed (simp add: pending_changes_def)

lemma tick_steps:
  assumes "sweep_tick h c net now (pw_vk w) = (e, pubs, v)" "0 \<le> now"
  shows "(p_step h)\<^sup>*\<^sup>* w (in_world w pubs v)"
proof (cases "cl_fate c")
  case Served
  obtain chs e' v' where l: "sweep_loop (ph_store h) net now (due now (pw_vk w)) [] (pw_vk w) = ((chs, e'), v')" by (metis prod.collapse)
  then have steps: "(p_step h)\<^sup>*\<^sup>* w (w\<lparr>pw_vk := v', pw_out := pw_out w @ pending_changes chs\<rparr>)"
    using sweep_loop_steps [OF l assms(2)] by auto
  have v: "v' = v" and pubs: "pubs = (case e' of None \<Rightarrow> concat (map (\<lambda>ch. PublishState (ph_siteID h) (ch_Account ch) (ch_Effective ch) now) chs) | Some _ \<Rightarrow> [])"
    using assms(1) l Served unfolding sweep_tick_def Sweep_def by (auto split: option.splits)
  have "(p_step h)\<^sup>*\<^sup>* (w\<lparr>pw_vk := v', pw_out := pw_out w @ pending_changes chs\<rparr>) (in_world w pubs v)"
    using publish_pending [where w = "w\<lparr>pw_vk := v'\<rparr>" and out = "pw_out w" and chs = chs and h = h and now = now]
      drop_pending [where w = "w\<lparr>pw_vk := v'\<rparr>" and out = "pw_out w" and chs = chs and h = h] v pubs
    by (cases e') (simp_all add: in_world_def)
  then show ?thesis using steps by (rule rtranclp_trans [rotated])
qed (use assms in \<open>auto simp: sweep_tick_def Sweep_def in_world_same\<close>)

end
