(* ===== verification/Presence_Sync.thy ===== *)
theory Presence_Sync
  imports Presence_Worker
begin

text \<open>
  The job that copies Teams calls into the presence store (\<open>src/user-presence-service/sync\<close>:
  \<open>reconcile.go\<close>, \<open>valkey.go\<close>). Two more Valkey keys belong to it: the set of accounts marked in a call and the
  hash of directory ids. Microsoft Graph is two arguments. A Go map is an association list; the order in
  which the code ranges over it is the argument \<open>shuffle\<close>.
\<close>

section \<open>State\<close>

record sync_state =
  sy_vk :: valkey
  sy_index :: "string list"
  sy_idmap :: "(string \<times> string) list"

type_synonym go_map = "(string \<times> string) list"

record GraphPresence =
  gp_ID :: string
  gp_Activity :: string

definition callActivities :: "string list" where
  "callActivities = [''InACall'', ''InAConferenceCall'', ''Presenting'']"

definition isInCall :: "GraphPresence \<Rightarrow> bool" where
  "isInCall p \<longleftrightarrow> gp_Activity p \<in> set callActivities"

text \<open>The answer of a call that only reads.\<close>

definition answer :: "call \<Rightarrow> string \<Rightarrow> 'a \<Rightarrow> goerr + 'a" where
  "answer c what x = (case cl_fate c of Served \<Rightarrow> Inr x | Lost e \<Rightarrow> Inl (Wrapf what e) | Unanswered e \<Rightarrow> Inl (Wrapf what e))"

text \<open>The answer of a call that writes: \<open>eff\<close> is what the server does.\<close>

definition command :: "call \<Rightarrow> string \<Rightarrow> ('s \<Rightarrow> 's) \<Rightarrow> 's \<Rightarrow> goerr option \<times> 's" where
  "command c what eff st =
     (case cl_fate c of Served \<Rightarrow> (None, eff st) | Lost e \<Rightarrow> (Some (Wrapf what e), st) | Unanswered e \<Rightarrow> (Some (Wrapf what e), eff st))"

section \<open>The index and the id map\<close>

definition Members :: "call \<Rightarrow> sync_state \<Rightarrow> goerr + string list" where
  "Members c st = answer c ''smembers in-call index'' (sy_index st)"

definition idx_Add :: "(string \<Rightarrow> string) \<Rightarrow> call \<Rightarrow> string \<Rightarrow> sync_state \<Rightarrow> goerr option \<times> sync_state" where
  "idx_Add quote c account =
     command c (''sadd in-call index '' @ quote account) (\<lambda>st. st\<lparr>sy_index := List.insert account (sy_index st)\<rparr>)"

definition idx_Remove :: "(string \<Rightarrow> string) \<Rightarrow> call \<Rightarrow> string \<Rightarrow> sync_state \<Rightarrow> goerr option \<times> sync_state" where
  "idx_Remove quote c account =
     command c (''srem in-call index '' @ quote account) (\<lambda>st. st\<lparr>sy_index := removeAll account (sy_index st)\<rparr>)"

definition idm_Store :: "call \<Rightarrow> go_map \<Rightarrow> sync_state \<Rightarrow> goerr option \<times> sync_state" where
  "idm_Store c mapping st =
     (if mapping = [] then (None, st)
      else command c ''hset id map'' (\<lambda>st. st\<lparr>sy_idmap := fold (\<lambda>(a, i). AList.update a i) mapping (sy_idmap st)\<rparr>) st)"

fun resolve_loop :: "go_map \<Rightarrow> string list \<Rightarrow> go_map \<Rightarrow> go_map" where
  "resolve_loop h [] out = out"
| "resolve_loop h (a # as) out =
     resolve_loop h as (case map_of h a of Some i \<Rightarrow> if i \<noteq> '''' then AList.update a i out else out | None \<Rightarrow> out)"

definition idm_Resolve :: "call \<Rightarrow> string list \<Rightarrow> sync_state \<Rightarrow> goerr + go_map" where
  "idm_Resolve c accounts st =
     (if accounts = [] then Inr [] else answer c ''hmget id map'' (resolve_loop (sy_idmap st) accounts []))"

section \<open>Resolving directory ids\<close>

definition fetchIDs :: "(string list \<Rightarrow> goerr + go_map) \<Rightarrow> string list \<Rightarrow> go_map" where
  "fetchIDs resolveAccountIDs missing = (case resolveAccountIDs missing of Inl e \<Rightarrow> [] | Inr resolved \<Rightarrow> resolved)"

definition resolveIDs :: "call \<Rightarrow> call \<Rightarrow> (string list \<Rightarrow> goerr + go_map) \<Rightarrow> string list \<Rightarrow> sync_state
    \<Rightarrow> (goerr + go_map) \<times> sync_state" where
  "resolveIDs cr cs resolveAccountIDs accounts st =
     (case idm_Resolve cr accounts st of
        Inl e \<Rightarrow> (Inl (Wrapf ''resolve id map'' e), st)
      | Inr idByAccount \<Rightarrow>
          let missing = filter (\<lambda>a. map_of idByAccount a = None) accounts in
          if missing = [] then (Inr idByAccount, st)
          else let filled = fetchIDs resolveAccountIDs missing in
            if filled = [] then (Inr idByAccount, st)
            else (Inr (fold (\<lambda>(a, i). AList.update a i) filled idByAccount), snd (idm_Store cs filled st)))"

section \<open>Applying one account\<close>

record apply_calls =
  ac_tick :: tick
  ac_index :: call

definition apply_status :: "presence_env \<Rightarrow> int \<Rightarrow> apply_calls \<Rightarrow> string \<Rightarrow> PresenceStatus \<Rightarrow> sync_state
    \<Rightarrow> goerr option \<times> publication list \<times> sync_state" where
  "apply_status h ttl n account status st =
     (let t = ac_tick n; quote = st_quote (ph_store h) in
      case SetExternal (ph_store h) (tk_calls t) (tk_store t) account status ttl (sy_vk st) of
        (Inl e, v) \<Rightarrow> (Some (Wrapf (''set external '' @ quote account) e), [], st\<lparr>sy_vk := v\<rparr>)
      | (Inr (changed, eff), v) \<Rightarrow>
          let pubs = (if changed then PublishState (ph_siteID h) account eff (tk_now t) else []) in
          if status = StatusNone
          then (case idx_Remove quote (ac_index n) account (st\<lparr>sy_vk := v\<rparr>) of
                  (Some e, st') \<Rightarrow> (Some (Wrapf (''index remove '' @ quote account) e), [], st')
                | (None, st') \<Rightarrow> (None, pubs, st'))
          else (case idx_Add quote (ac_index n) account (st\<lparr>sy_vk := v\<rparr>) of
                  (Some e, st') \<Rightarrow> (Some (Wrapf (''index add '' @ quote account) e), [], st')
                | (None, st') \<Rightarrow> (None, pubs, st')))"

section \<open>One reconciliation\<close>

fun apply_all :: "presence_env \<Rightarrow> int \<Rightarrow> (string \<Rightarrow> apply_calls) \<Rightarrow> PresenceStatus \<Rightarrow> string list
    \<Rightarrow> publication list \<times> sync_state \<Rightarrow> publication list \<times> sync_state" where
  "apply_all h ttl net status [] ps = ps"
| "apply_all h ttl net status (a # as) (pubs, st) =
     (case apply_status h ttl (net a) a status st of (e, new, st') \<Rightarrow> apply_all h ttl net status as (pubs @ new, st'))"

definition in_call_now :: "(string \<rightharpoonup> string) \<Rightarrow> GraphPresence list \<Rightarrow> string list" where
  "in_call_now accountByID presences =
     remdups (List.map_filter (\<lambda>p. if isInCall p then accountByID (gp_ID p) else None) presences)"

record reconcile_calls =
  rc_active :: call
  rc_resolve :: call
  rc_persist :: call
  rc_members :: call

text \<open>\<open>set_net\<close> and \<open>clear_net\<close> are the calls of the two loops, per account.\<close>

definition reconcile :: "presence_env \<Rightarrow> int \<Rightarrow> reconcile_calls \<Rightarrow> (string \<Rightarrow> apply_calls) \<Rightarrow> (string \<Rightarrow> apply_calls)
    \<Rightarrow> (string list \<Rightarrow> goerr + go_map) \<Rightarrow> (string list \<Rightarrow> goerr + GraphPresence list)
    \<Rightarrow> (go_map \<Rightarrow> go_map) \<Rightarrow> (string list \<Rightarrow> string list) \<Rightarrow> sync_state
    \<Rightarrow> goerr option \<times> publication list \<times> sync_state" where
  "reconcile h ttl rc set_net clear_net resolveAccountIDs getPresences shuffle shuffle_set st =
     (case ActiveAccounts (rc_active rc) (sy_vk st) of
        Inl e \<Rightarrow> (Some (Wrapf ''list active accounts'' e), [], st)
      | Inr accounts \<Rightarrow>
          (case resolveIDs (rc_resolve rc) (rc_persist rc) resolveAccountIDs accounts st of
             (Inl e, st1) \<Rightarrow> (Some e, [], st1)
           | (Inr idByAccount, st1) \<Rightarrow>
               let entries = shuffle idByAccount;
                   ids = map snd entries;
                   accountByID = fold (\<lambda>(a, i) m. m(i \<mapsto> a)) entries Map.empty in
               (case getPresences ids of
                  Inl e \<Rightarrow> (Some (Wrapf ''get presences'' e), [], st1)
                | Inr presences \<Rightarrow>
                    let current = in_call_now accountByID presences in
                    (case Members (rc_members rc) st1 of
                       Inl e \<Rightarrow> (Some (Wrapf ''read in-call index'' e), [], st1)
                     | Inr prev \<Rightarrow>
                         let (pubs1, st2) = apply_all h ttl set_net StatusInCall (shuffle_set current) ([], st1);
                             (pubs2, st3) = apply_all h ttl clear_net StatusNone
                               (filter (\<lambda>a. a \<notin> set current) prev) (pubs1, st2) in
                         (None, pubs2, st3)))))"

end
