(* ===== verification/Presence_Props.thy ===== *)
theory Presence_Props
  imports Presence_Sync
begin

text \<open>
  What the presence service guarantees: what clients read follows the precedence rule in every interleaving,
  silent users go offline, subscribers hear what the store says, a query over several sites loses only the
  sites that fail, and the Teams job marks exactly the accounts in a call.
\<close>

section \<open>Requests served one after the other\<close>

definition served :: "tick \<Rightarrow> bool" where
  "served t \<longleftrightarrow> 0 \<le> tk_store t \<and> cl_fate (fst (tk_calls t)) = Served \<and> cl_fate (snd (tk_calls t)) = Served"

definition served_net :: "(string \<Rightarrow> call \<times> call) \<Rightarrow> bool" where
  "served_net net \<longleftrightarrow> (\<forall>a. cl_fate (fst (net a)) = Served \<and> cl_fate (snd (net a)) = Served)"

inductive served_run :: "presence_env \<Rightarrow> valkey \<Rightarrow> publication list \<Rightarrow> bool" for h :: presence_env where
  start: "served_run h no_presence []"
| hello: "served_run h v sent \<Longrightarrow> served t \<Longrightarrow> Hello h t account c v = (e, pubs, v') \<Longrightarrow> served_run h v' (sent @ pubs)"
| ping: "served_run h v sent \<Longrightarrow> served t \<Longrightarrow> PingHandler h t account c v = (e, pubs, v') \<Longrightarrow> served_run h v' (sent @ pubs)"
| activity: "served_run h v sent \<Longrightarrow> served t \<Longrightarrow> Activity h t account c away v = (e, pubs, v') \<Longrightarrow> served_run h v' (sent @ pubs)"
| bye: "served_run h v sent \<Longrightarrow> served t \<Longrightarrow> Bye h t account c v = (e, pubs, v') \<Longrightarrow> served_run h v' (sent @ pubs)"
| manual: "served_run h v sent \<Longrightarrow> served t \<Longrightarrow> SetManualHandler h t account status v = (r, pubs, v') \<Longrightarrow> served_run h v' (sent @ pubs)"
| external: "served_run h (sy_vk st) sent \<Longrightarrow> served (ac_tick n) \<Longrightarrow> cl_fate (ac_index n) = Served \<Longrightarrow>
    apply_status h ttl n account status st = (e, pubs, st') \<Longrightarrow> served_run h (sy_vk st') (sent @ pubs)"
| sweep: "served_run h v sent \<Longrightarrow> 0 \<le> now \<Longrightarrow> cl_fate c = Served \<Longrightarrow> served_net net \<Longrightarrow>
    sweep_tick h c net now v = (e, pubs, v') \<Longrightarrow> served_run h v' (sent @ pubs)"

definition last_about :: "string \<Rightarrow> publication list \<Rightarrow> PresenceStatus option" where
  "last_about a sent = map_option (\<lambda>p. pst_Status (snd p)) (List.find (\<lambda>p. pst_Account (snd p) = a) (rev sent))"

definition told :: "valkey \<Rightarrow> publication list \<Rightarrow> bool" where
  "told v sent \<longleftrightarrow> (\<forall>a. last_about a sent = a_status (vk_acct v a))"

lemma last_about_append: "last_about a (sent @ pubs) = (case last_about a pubs of None \<Rightarrow> last_about a sent | Some s \<Rightarrow> Some s)"
  unfolding last_about_def by (induction pubs rule: rev_induct) auto

lemma last_about_publish: "last_about a (PublishState site b s t) = (if a = b then Some s else None)"
  by (simp add: last_about_def PublishState_def)

lemma last_about_Nil: "last_about a [] = None"
  by (simp add: last_about_def)

lemma told_one:
  assumes "told v sent" "\<And>b. b \<noteq> account \<Longrightarrow> vk_acct v' b = vk_acct v b"
    "ch \<longleftrightarrow> a_status (vk_acct v account) \<noteq> a_status (vk_acct v' account)" "ch \<Longrightarrow> a_status (vk_acct v' account) = Some eff"
  shows "told v' (sent @ (if ch then PublishState site account eff t else []))"
  unfolding told_def
proof
  fix a
  have "last_about a sent = a_status (vk_acct v a)" using assms(1) by (simp add: told_def)
  then show "last_about a (sent @ (if ch then PublishState site account eff t else [])) = a_status (vk_acct v' a)"
    using assms(2) [of a] assms(3,4) by (cases "a = account"; cases ch) (simp_all add: last_about_append last_about_publish last_about_Nil)
qed

definition serial_inv :: "presence_env \<Rightarrow> valkey \<Rightarrow> publication list \<Rightarrow> bool" where
  "serial_inv h v sent \<longleftrightarrow> in_step (st_staleMs (ph_store h)) v \<and> told v sent"

lemma mutate_serial:
  assumes "serial_inv h v sent" "store_config (ph_store h)" "script \<in> presence_scripts (ph_store h)" "served t"
  shows "\<exists>ch eff v'. mutate (ph_store h) (tk_calls t) (tk_store t) account script v = (Inr (ch, eff), v')
    \<and> serial_inv h v' (sent @ (if ch then PublishState (ph_siteID h) account eff now else []))"
proof -
  have p: "presence_script script" by (rule scripts_meet [OF assms(2,3)])
  have st: "in_step (st_staleMs (ph_store h)) v" "0 \<le> tk_store t" "0 \<le> st_staleMs (ph_store h)"
    "cl_fate (fst (tk_calls t)) = Served" "cl_fate (snd (tk_calls t)) = Served"
    using assms(1,2,4) by (simp_all add: serial_inv_def store_config_def served_def)
  obtain ch eff v' where m: "mutate (ph_store h) (tk_calls t) (tk_store t) account script v = (Inr (ch, eff), v')"
    "in_step (st_staleMs (ph_store h)) v'" "ch \<longleftrightarrow> a_status (vk_acct v account) \<noteq> a_status (vk_acct v' account)"
    "ch \<Longrightarrow> a_status (vk_acct v' account) = Some eff" "\<And>b. b \<noteq> account \<Longrightarrow> vk_acct v' b = vk_acct v b"
    by (rule presence_script.mutate_served [OF p st]) blast
  have "told v' (sent @ (if ch then PublishState (ph_siteID h) account eff now else []))"
    by (rule told_one [OF _ m(5,3,4)]) (use assms(1) in \<open>simp_all add: serial_inv_def\<close>)
  then show ?thesis using m(1,2) by (auto simp: serial_inv_def)
qed

lemma after_store_serial:
  assumes "after_store h t what account (mutate (ph_store h) (tk_calls t) (tk_store t) account script v) = (e, pubs, v')"
    "serial_inv h v sent" "store_config (ph_store h)" "served t" "script \<in> presence_scripts (ph_store h)"
  shows "serial_inv h v' (sent @ pubs)"
  using mutate_serial [OF assms(2,3,5,4), of account "tk_now t"] assms(1) by (auto simp: after_store_def)

definition change_pubs :: "presence_env \<Rightarrow> int \<Rightarrow> StatusChange list \<Rightarrow> publication list" where
  "change_pubs h now chs = concat (map (\<lambda>ch. PublishState (ph_siteID h) (ch_Account ch) (ch_Effective ch) now) chs)"

lemma sweep_loop_serial:
  assumes "sweep_loop (ph_store h) net now as chs v = ((chs', e), v')" "store_config (ph_store h)" "served_net net" "0 \<le> now"
    "serial_inv h v (sent @ change_pubs h now chs)"
  shows "e = None \<and> serial_inv h v' (sent @ change_pubs h now chs')"
  using assms(1,5)
proof (induction as arbitrary: v chs)
  case Nil
  then show ?case by simp
next
  case (Cons a as)
  let ?t = "\<lparr>tk_store = now, tk_now = now, tk_calls = net a\<rparr>"
  have "served ?t" using assms(3,4) by (simp add: served_def served_net_def)
  then obtain ch eff v1 where m: "mutate (ph_store h) (net a) now a sweepScript v = (Inr (ch, eff), v1)"
    "serial_inv h v1 ((sent @ change_pubs h now chs) @ (if ch then PublishState (ph_siteID h) a eff now else []))"
    using mutate_serial [OF Cons.prems(2) assms(2) presence_scripts_intros(6), of ?t a now] by auto
  let ?chs = "if ch then chs @ [\<lparr>ch_Account = a, ch_Effective = eff\<rparr>] else chs"
  have "serial_inv h v1 (sent @ change_pubs h now ?chs)" using m(2) by (auto simp: change_pubs_def)
  moreover have "sweep_loop (ph_store h) net now as ?chs v1 = ((chs', e), v')"
    using Cons.prems(1) m(1) unfolding mutate_def by (auto split: sum.splits option.splits prod.splits)
  ultimately show ?case using Cons.IH by blast
qed

lemma tick_serial:
  assumes "sweep_tick h c net now v = (e, pubs, v')" "cl_fate c = Served" "store_config (ph_store h)" "served_net net" "0 \<le> now"
    "serial_inv h v sent"
  shows "e = None \<and> serial_inv h v' (sent @ pubs)"
proof -
  obtain chs e' v1 where l: "sweep_loop (ph_store h) net now (due now v) [] v = ((chs, e'), v1)" by (metis prod.collapse)
  have "e' = None \<and> serial_inv h v1 (sent @ change_pubs h now chs)"
    using sweep_loop_serial [OF l assms(3-5)] assms(6) by (simp add: change_pubs_def)
  then show ?thesis using assms(1,2) l unfolding sweep_tick_def Sweep_def change_pubs_def by auto
qed

lemma apply_serial:
  assumes "apply_status h ttl n account status st = (e, pubs, st')" "serial_inv h (sy_vk st) sent" "store_config (ph_store h)"
    "served (ac_tick n)" "cl_fate (ac_index n) = Served"
  shows "serial_inv h (sy_vk st') (sent @ pubs)"
proof -
  let ?t = "ac_tick n"
  obtain ch eff v where m: "SetExternal (ph_store h) (tk_calls ?t) (tk_store ?t) account status ttl (sy_vk st) = (Inr (ch, eff), v)"
    "serial_inv h v (sent @ (if ch then PublishState (ph_siteID h) account eff (tk_now ?t) else []))"
    using mutate_serial [where account = account and now = "tk_now ?t", OF assms(2,3) presence_scripts_intros(5) assms(4)]
    unfolding SetExternal_def Let_def by blast
  show ?thesis using assms(1,5) m(2) unfolding apply_status_def idx_Remove_def idx_Add_def command_def
    by (auto simp: Let_def m(1) split: if_splits)
qed

lemma handler_serial:
  assumes "serial_inv h v sent" "store_config (ph_store h)" "served t"
  shows "Hello h t account c v = (e, pubs, v') \<Longrightarrow> serial_inv h v' (sent @ pubs)"
    "PingHandler h t account c v = (e, pubs, v') \<Longrightarrow> serial_inv h v' (sent @ pubs)"
    "Activity h t account c away v = (e, pubs, v') \<Longrightarrow> serial_inv h v' (sent @ pubs)"
    "Bye h t account c v = (e, pubs, v') \<Longrightarrow> serial_inv h v' (sent @ pubs)"
  unfolding Hello_def PingHandler_def Activity_def Bye_def SetActivity_def Ping_def RemoveConnection_def
  using after_store_serial [OF _ assms presence_scripts_intros(1)] after_store_serial [OF _ assms presence_scripts_intros(2)]
    after_store_serial [OF _ assms presence_scripts_intros(2) [where away = False, simplified]]
    after_store_serial [OF _ assms presence_scripts_intros(3)] assms(1)
  by (auto split: if_splits)

lemma manual_serial:
  assumes "serial_inv h v sent" "store_config (ph_store h)" "served t" "SetManualHandler h t account status v = (r, pubs, v')"
  shows "serial_inv h v' (sent @ pubs)"
proof -
  obtain ch eff v1 where m: "SetManual (ph_store h) (tk_calls t) (tk_store t) account status v = (Inr (ch, eff), v1)"
    "serial_inv h v1 (sent @ (if ch then PublishState (ph_siteID h) account eff (tk_now t) else []))"
    using mutate_serial [where account = account and now = "tk_now t", OF assms(1,2) presence_scripts_intros(4) assms(3)]
    unfolding SetManual_def by blast
  show ?thesis using assms(1,4) m(2) unfolding SetManualHandler_def by (auto simp: m(1) split: if_splits)
qed

lemma served_run_inv:
  assumes "served_run h v sent" "store_config (ph_store h)"
  shows "serial_inv h v sent"
  using assms(1)
proof induction
  case start
  have "told no_presence []" by (simp add: told_def no_presence_def no_acct_def last_about_Nil)
  then show ?case by (simp add: serial_inv_def in_step_empty)
next
  case (external st sent n ttl account status e pubs st')
  show ?case by (rule apply_serial [OF external.hyps(4) external.IH assms(2) external.hyps(2,3)])
next
  case (sweep v sent now c net e pubs v')
  then show ?case using tick_serial [OF sweep.hyps(5,3) assms(2) sweep.hyps(4,2) sweep.IH] by simp
next
  case (hello v sent t account c e pubs v')
  then show ?case by (intro handler_serial(1) [OF hello.IH assms(2)])
next
  case (ping v sent t account c e pubs v')
  then show ?case by (intro handler_serial(2) [OF ping.IH assms(2)])
next
  case (activity v sent t account c away e pubs v')
  then show ?case by (intro handler_serial(3) [OF activity.IH assms(2)])
next
  case (bye v sent t account c e pubs v')
  then show ?case by (intro handler_serial(4) [OF bye.IH assms(2)])
next
  case (manual v sent t account status r pubs v')
  then show ?case by (intro manual_serial [OF manual.IH assms(2)])
qed

section \<open>The sweep\<close>

definition swept :: "Store \<Rightarrow> (string \<Rightarrow> call \<times> call) \<Rightarrow> int \<Rightarrow> valkey \<Rightarrow> string \<Rightarrow> acct" where
  "swept s net now v a = computed (cl_srv (fst (net a))) now (st_staleMs s) (vk_acct v a)"

lemma sweep_run:
  assumes "sound (vk_acct v a)" "0 \<le> st_staleMs s" "cl_fate (fst (net a)) = Served"
  shows "\<exists>nxt. run_script s (fst (net a)) sweepScript a now v
    = (Inr (a_status (vk_acct v a) \<noteq> a_status (swept s net now v a), rule (swept s net now v a), nxt),
       v\<lparr>vk_acct := (vk_acct v)(a := swept s net now v a)\<rparr>)"
proof -
  obtain nxt where "compute (cl_srv (fst (net a))) now (st_staleMs s) (vk_acct v a)
      = (Some (a_status (vk_acct v a) \<noteq> a_status (swept s net now v a), rule (swept s net now v a), nxt), swept s net now v a)"
    using compute_ok [OF _ assms(2), of "vk_acct v a" "cl_srv (fst (net a))" now] assms(1) unfolding swept_def sound_def by blast
  then show ?thesis using assms(3) by (intro exI [of _ nxt]) (simp add: run_script_def sweepScript_def Let_def)
qed

lemma sweep_loop_exact:
  assumes "distinct as" "\<forall>a \<in> set as. sound (vk_acct v a)" "0 \<le> st_staleMs s" "served_net net"
  shows "\<exists>v'. sweep_loop s net now as chs v
      = ((chs @ map (\<lambda>a. \<lparr>ch_Account = a, ch_Effective = rule (swept s net now v a)\<rparr>)
                  (filter (\<lambda>a. a_status (vk_acct v a) \<noteq> a_status (swept s net now v a)) as), None), v')
    \<and> vk_acct v' = (\<lambda>a. if a \<in> set as then swept s net now v a else vk_acct v a)"
  using assms(1,2)
proof (induction as arbitrary: v chs)
  case (Cons a as)
  have fates: "cl_fate (fst (net a)) = Served" "cl_fate (snd (net a)) = Served" using assms(4) by (simp_all add: served_net_def)
  obtain nxt where r: "run_script s (fst (net a)) sweepScript a now v
    = (Inr (a_status (vk_acct v a) \<noteq> a_status (swept s net now v a), rule (swept s net now v a), nxt),
       v\<lparr>vk_acct := (vk_acct v)(a := swept s net now v a)\<rparr>)"
    using sweep_run [where net = net and a = a and v = v and s = s and now = now] assms(3) fates(1) Cons.prems(2) by auto
  obtain v2 where v2: "reschedule s (snd (net a)) a nxt (v\<lparr>vk_acct := (vk_acct v)(a := swept s net now v a)\<rparr>) = (None, v2)"
    "vk_acct v2 = (vk_acct v)(a := swept s net now v a)"
    using reschedule_served [OF fates(2), of s a nxt "v\<lparr>vk_acct := (vk_acct v)(a := swept s net now v a)\<rparr>"] by auto
  have same: "b \<in> set as \<Longrightarrow> vk_acct v2 b = vk_acct v b" "b \<in> set as \<Longrightarrow> swept s net now v2 b = swept s net now v b" for b
    using Cons.prems(1) v2(2) by (auto simp: swept_def)
  let ?chs = "if a_status (vk_acct v a) \<noteq> a_status (swept s net now v a)
    then chs @ [\<lparr>ch_Account = a, ch_Effective = rule (swept s net now v a)\<rparr>] else chs"
  have IH: "\<exists>v'. sweep_loop s net now as ?chs v2
      = ((?chs @ map (\<lambda>a. \<lparr>ch_Account = a, ch_Effective = rule (swept s net now v2 a)\<rparr>)
                  (filter (\<lambda>a. a_status (vk_acct v2 a) \<noteq> a_status (swept s net now v2 a)) as), None), v')
    \<and> vk_acct v' = (\<lambda>a. if a \<in> set as then swept s net now v2 a else vk_acct v2 a)"
    using Cons.prems same(1) by (intro Cons.IH) auto
  have f: "filter (\<lambda>a. a_status (vk_acct v2 a) \<noteq> a_status (swept s net now v2 a)) as
      = filter (\<lambda>a. a_status (vk_acct v a) \<noteq> a_status (swept s net now v a)) as"
    using same by (intro filter_cong) auto
  have m: "map (\<lambda>a. \<lparr>ch_Account = a, ch_Effective = rule (swept s net now v2 a)\<rparr>) (filter P as)
      = map (\<lambda>a. \<lparr>ch_Account = a, ch_Effective = rule (swept s net now v a)\<rparr>) (filter P as)" for P
    using same by (intro map_cong) auto
  obtain v' where v': "sweep_loop s net now as ?chs v2 = ((?chs @ map (\<lambda>a. \<lparr>ch_Account = a, ch_Effective = rule (swept s net now v a)\<rparr>)
                  (filter (\<lambda>a. a_status (vk_acct v a) \<noteq> a_status (swept s net now v a)) as), None), v')"
    "vk_acct v' = (\<lambda>a. if a \<in> set as then swept s net now v2 a else vk_acct v2 a)"
    using IH unfolding f m by blast
  have "vk_acct v' = (\<lambda>b. if b \<in> set (a # as) then swept s net now v b else vk_acct v b)"
    unfolding v'(2) by (rule ext) (use same v2(2) Cons.prems(1) in \<open>auto simp: swept_def\<close>)
  moreover have "sweep_loop s net now (a # as) chs v = sweep_loop s net now as ?chs v2" by (simp add: r v2(1))
  ultimately show ?case unfolding v'(1) by simp
qed simp

lemma due_sound:
  assumes "in_step stale v"
  shows "distinct (due now v)" "\<forall>a \<in> set (due now v). sound (vk_acct v a)"
proof -
  have "mset (map fst (zorder (vk_sweep v))) = mset (map fst (vk_sweep v))" by (simp add: zorder_def)
  then have "distinct (map fst (zorder (vk_sweep v)))" using assms unfolding in_step_def by (metis mset_eq_imp_distinct_iff)
  then show "distinct (due now v)" unfolding due_def by (simp add: distinct_map_filter)
  show "\<forall>a \<in> set (due now v). sound (vk_acct v a)" using assms by (simp add: in_step_def acct_in_step_def)
qed

lemma due_all:
  assumes "map_of (vk_sweep v) a = Some sc" "sc \<le> now" "length (filter (\<lambda>(m, sc). sc \<le> now) (vk_sweep v)) \<le> 500"
  shows "a \<in> set (due now v)"
proof -
  have perm: "mset (zorder (vk_sweep v)) = mset (vk_sweep v)" by (simp add: zorder_def)
  have "length (filter (\<lambda>(m, sc). sc \<le> now) (zorder (vk_sweep v))) = length (filter (\<lambda>(m, sc). sc \<le> now) (vk_sweep v))"
    by (metis mset_filter perm size_mset)
  then have all: "due now v = map fst (filter (\<lambda>(m, sc). sc \<le> now) (zorder (vk_sweep v)))" using assms(3) by (simp add: due_def)
  have "(a, sc) \<in> set (zorder (vk_sweep v))" using assms(1) map_of_SomeD perm by (metis mset_eq_setD)
  then show ?thesis using assms(2) unfolding all by force
qed

definition silent :: "int \<Rightarrow> int \<Rightarrow> acct \<Rightarrow> bool" where
  "silent stale now a \<longleftrightarrow> list_all (\<lambda>(c, v). stale < now - seen v) (a_conns a)"

lemma silent_swept:
  assumes "silent (st_staleMs s) now (vk_acct v a)"
  shows "a_conns (swept s net now v a) = []"
  using assms unfolding swept_def computed_fields(2) silent_def touch_conns_def
  by (auto simp: filter_empty_conv fresh_def list_all_iff)

lemma tick_exact:
  assumes "in_step (st_staleMs (ph_store h)) v" "0 \<le> st_staleMs (ph_store h)" "served_net net" "cl_fate c = Served"
  shows "\<exists>v'. sweep_tick h c net now v
      = (None, change_pubs h now (map (\<lambda>a. \<lparr>ch_Account = a, ch_Effective = rule (swept (ph_store h) net now v a)\<rparr>)
          (filter (\<lambda>a. a_status (vk_acct v a) \<noteq> a_status (swept (ph_store h) net now v a)) (due now v))), v')
    \<and> vk_acct v' = (\<lambda>a. if a \<in> set (due now v) then swept (ph_store h) net now v a else vk_acct v a)"
  using sweep_loop_exact [OF due_sound(1) [OF assms(1), of now] due_sound(2) [OF assms(1), of now] assms(2,3), of now "[]"] assms(4)
  unfolding sweep_tick_def Sweep_def change_pubs_def by auto

lemma silent_due:
  assumes "in_step (st_staleMs s) v" "silent (st_staleMs s) now (vk_acct v a)" "a_conns (vk_acct v a) \<noteq> []"
    "length (filter (\<lambda>(m, sc). sc \<le> now) (vk_sweep v)) \<le> 500"
  shows "a \<in> set (due now v)"
proof -
  have "scheduled (st_staleMs s) (map_of (vk_sweep v) a) (vk_acct v a)" using assms(1) by (simp add: in_step_def acct_in_step_def)
  then obtain d where d: "map_of (vk_sweep v) a = Some d" "d \<in> deadlines (st_staleMs s) (a_conns (vk_acct v a))"
    using assms(3) by (auto simp: scheduled_def split: option.splits)
  then have "d \<le> now" using assms(2) by (force simp: deadlines_def silent_def list_all_iff)
  then show ?thesis by (rule due_all [OF d(1) _ assms(4)])
qed

lemma sound_status: "sound a \<Longrightarrow> a_conns a \<noteq> [] \<Longrightarrow> a_status a = Some (rule a)"
  by (auto simp: sound_def)



text \<open>C22: Subscribers hear what the store says. When the calls of a run are served one after the other, the last
  state published about an account is the one materialized in the store, which is what a query would return;
  nothing has been published about an account exactly when nothing is materialized for it.\<close>

theorem subscribers_follow_store:
  assumes "served_run h v sent" "store_config (ph_store h)"
  shows "last_about a sent = a_status (vk_acct v a)
    \<and> (case last_about a sent of Some s \<Rightarrow> read_status v a = s | None \<Rightarrow> read_status v a = StatusOffline)"
proof -
  have inv: "serial_inv h v sent" by (rule served_run_inv [OF assms])
  then have "last_about a sent = a_status (vk_acct v a)" by (simp add: serial_inv_def told_def)
  moreover have "sound (vk_acct v a)" using inv by (simp add: serial_inv_def in_step_def acct_in_step_def)
  ultimately show ?thesis using rule_nonempty [of "vk_acct v a"]
    by (auto simp: read_status_def sound_def split: option.splits)
qed

section \<open>A concrete run\<close>

text \<open>The default configuration, and the store after one client has said hello.\<close>

definition default_store :: Store where
  "default_store = \<lparr>st_staleMs = 45000, st_connsTTL = 300000, st_quote = \<lambda>s. s\<rparr>"

definition presence_demo :: presence_env where
  "presence_demo = \<lparr>ph_store = default_store, ph_siteID = ''site-a'', ph_batchMax = 100\<rparr>"

definition call_at :: "int \<Rightarrow> call" where "call_at t = \<lparr>cl_srv = t, cl_fate = Served\<rparr>"

definition tick_at :: "int \<Rightarrow> tick" where
  "tick_at t = \<lparr>tk_store = t, tk_now = t, tk_calls = (call_at t, call_at t)\<rparr>"

interpretation defaults: presence_config default_store
  by unfold_locales (simp_all add: default_store_def)

definition after_hello :: valkey where
  "after_hello = \<lparr>vk_acct = (\<lambda>_. no_acct)(''ann'' :=
      \<lparr>a_conns = [(''c1'', conn_value ''0'' 1000)], a_conns_exp = Some 301000, a_manual = None, a_status = Some ''online'', a_azure = None, a_azure_exp = None\<rparr>),
     vk_sweep = [(''ann'', 46000)]\<rparr>"

lemma flag_parts: "away_part (conn_value ''0'' n) = Some ''0''" "seen_part (conn_value ''0'' n) = Some n"
  "away_part (conn_value ''1'' n) = Some ''1''" "seen_part (conn_value ''1'' n) = Some n"
  by (rule conn_value_parts; rule flag_no_colon; simp)+

lemma hello_run:
  "Hello presence_demo (tick_at 1000) ''ann'' ''c1'' no_presence = (None, PublishState ''site-a'' ''ann'' ''online'' 1000, after_hello)"
  by (simp add: Hello_def SetActivity_def mutate_def run_script_def activityScript_def compute_def touch_azure_def touch_conns_def expired_def
      hset_def pexpire_conns_def flag_parts reschedule_def zadd_def after_store_def effective_def or_empty_def
      presence_demo_def default_store_def tick_at_def call_at_def no_presence_def no_acct_def after_hello_def Let_def)

lemma demo_config: "store_config (ph_store presence_demo)"
  by (simp add: presence_demo_def store_config_def default_store_def)

lemma served_tick_at: "0 \<le> t \<Longrightarrow> served (tick_at t)"
  by (simp add: tick_at_def call_at_def served_def)

lemma demo_served: "served_run presence_demo after_hello (PublishState ''site-a'' ''ann'' ''online'' 1000)"
  using served_run.hello [OF served_run.start served_tick_at hello_run] by simp

lemma demo_reachable: "p_reachable presence_demo (in_world pworld0 (PublishState ''site-a'' ''ann'' ''online'' 1000) after_hello)"
  unfolding p_reachable_def
  by (rule handler_steps(1) [where t = "tick_at 1000" and account = "''ann''" and c = "''c1''"])
    (use hello_run in \<open>simp_all add: pworld0_def tick_at_def\<close>)



theorem subscribers_follow_store_witness:
  "last_about ''ann'' (PublishState ''site-a'' ''ann'' ''online'' 1000) = Some ''online'' \<and> read_status after_hello ''ann'' = ''online''"
  using subscribers_follow_store [OF demo_served demo_config, of "''ann''"] by (simp add: last_about_publish)

section \<open>Queries over several sites\<close>

lemma fold_states: "fold (\<lambda>st m. m(pst_Account st \<mapsto> pst_Status st)) (map (\<lambda>a. \<lparr>pst_Account = a, pst_SiteID = x, pst_Status = f a, pst_Timestamp = t\<rparr>) as) m
    = (\<lambda>a. if a \<in> set as then Some (f a) else m a)"
  by (induction as arbitrary: m) (auto simp: fun_eq_iff)

lemma QueryBatchPeer_states:
  assumes "QueryBatchPeer h c t v as = Inr resp"
  shows "pq_States resp = map (\<lambda>a. \<lparr>pst_Account = a, pst_SiteID = ph_siteID h, pst_Status = read_status v a, pst_Timestamp = t\<rparr>) as"
  using assms by (auto simp: QueryBatchPeer_def BatchGet_def split: if_splits fate.splits)

lemma read_status_nonempty: "read_status v a \<noteq> ''''"
  by (simp add: read_status_def StatusOffline_def split: option.splits)

text \<open>A site is up when its leaf endpoint answers the request it is sent, from its own store, and the answer
  decodes; a site that is down leaves the request without an answer.\<close>

definition site_up :: "(string list \<Rightarrow> goerr + string) \<Rightarrow> (string \<Rightarrow> string \<Rightarrow> goerr + string) \<Rightarrow> (string \<Rightarrow> Error option)
    \<Rightarrow> (string \<Rightarrow> goerr + PresenceQueryResponse) \<Rightarrow> (string \<Rightarrow> valkey) \<Rightarrow> string \<Rightarrow> string list \<Rightarrow> bool" where
  "site_up enc request decErr decResp stores site as \<longleftrightarrow>
     (\<exists>body data resp hs cs t. enc as = Inr body \<and> request (Subjects.PresenceQueryBatchPeer site) body = Inr data
        \<and> Parse decErr data = None \<and> decResp data = Inr resp \<and> QueryBatchPeer hs cs t (stores site) as = Inr resp)"

lemma site_up_states:
  assumes "site_up enc request decErr decResp stores site as"
  shows "\<exists>x t. QueryPeer enc request decErr decResp site as
    = Inr (map (\<lambda>a. \<lparr>pst_Account = a, pst_SiteID = x, pst_Status = read_status (stores site) a, pst_Timestamp = t\<rparr>) as)"
proof -
  obtain body data resp hs cs t where u: "enc as = Inr body" "request (Subjects.PresenceQueryBatchPeer site) body = Inr data"
    "Parse decErr data = None" "decResp data = Inr resp" "QueryBatchPeer hs cs t (stores site) as = Inr resp"
    using assms unfolding site_up_def by blast
  then have "QueryPeer enc request decErr decResp site as = Inr (pq_States resp)" by (simp add: QueryPeer_def)
  then show ?thesis using QueryBatchPeer_states [OF u(5)] by auto
qed

lemma merge_sites_exact:
  assumes "distinct (map fst users)" "cl_fate c = Served"
    "\<And>site. site \<in> set sites \<Longrightarrow> site \<noteq> ph_siteID h \<Longrightarrow>
       if up site then \<exists>x t. peer site (site_accounts users site)
           = Inr (map (\<lambda>a. \<lparr>pst_Account = a, pst_SiteID = x, pst_Status = read_status (stores site) a, pst_Timestamp = t\<rparr>) (site_accounts users site))
       else \<exists>e. peer site (site_accounts users site) = Inl e"
  shows "merge_sites h c v peer users sites m = Inr (\<lambda>a. case map_of users a of
        Some site \<Rightarrow> if site \<in> set sites \<and> (site = ph_siteID h \<or> up site)
          then Some (read_status (if site = ph_siteID h then v else stores site) a) else m a
      | None \<Rightarrow> m a)"
  using assms(3)
proof (induction sites arbitrary: m)
  case Nil
  then show ?case by (auto simp: fun_eq_iff split: option.splits)
next
  case (Cons site sites)
  have acc: "a \<in> set (site_accounts users site) \<longleftrightarrow> map_of users a = Some site" for a
    using assms(1) by (force simp: site_accounts_def)
  have IH: "merge_sites h c v peer users sites m' = Inr (\<lambda>a. case map_of users a of
        Some site \<Rightarrow> if site \<in> set sites \<and> (site = ph_siteID h \<or> up site)
          then Some (read_status (if site = ph_siteID h then v else stores site) a) else m' a
      | None \<Rightarrow> m' a)" for m'
    using Cons.prems by (intro Cons.IH) simp
  consider (own) "site = ph_siteID h" | (up) "site \<noteq> ph_siteID h" "up site" | (down) "site \<noteq> ph_siteID h" "\<not> up site" by blast
  then show ?case
  proof cases
    case own
    have "\<exists>f. BatchGet c v (site_accounts users site) = Inr f \<and> f = (\<lambda>a. if a \<in> set (site_accounts users site) then Some (read_status v a) else None)"
      using assms(2) by (auto simp: BatchGet_def)
    then show ?thesis using own IH acc by (auto simp: fun_eq_iff map_add_def split: option.splits)
  next
    case up
    then obtain x t where "peer site (site_accounts users site)
        = Inr (map (\<lambda>a. \<lparr>pst_Account = a, pst_SiteID = x, pst_Status = read_status (stores site) a, pst_Timestamp = t\<rparr>) (site_accounts users site))"
      using Cons.prems [of site] by auto
    then show ?thesis using up IH acc by (auto simp: fold_states fun_eq_iff split: option.splits)
  next
    case down
    then obtain e where "peer site (site_accounts users site) = Inl e" using Cons.prems [of site] by auto
    then show ?thesis using down IH by (auto simp: fun_eq_iff split: option.splits)
  qed
qed

text \<open>A query over several sites loses only the sites that fail. Whatever order the sites answer in, a query
  within the batch limit returns one state per requested account, in request order, whose status is what the
  account's home site stores: read locally when the home is here, through the peer when it is elsewhere and up,
  and offline when the peer fails or the account is unknown.\<close>

theorem query_degrades_by_site:
  assumes "accounts \<noteq> []" "int (length accounts) \<le> ph_batchMax h" "findUsers accounts = Inr users" "distinct (map fst users)"
    "cl_fate c = Served" "set (order (remdups (map snd users))) = set (map snd users)"
    "\<And>site. site \<in> set (map snd users) \<Longrightarrow> site \<noteq> ph_siteID h \<Longrightarrow>
       if up site then site_up enc request decErr decResp stores site (site_accounts users site)
       else \<exists>e. QueryPeer enc request decErr decResp site (site_accounts users site) = Inl e"
  shows "\<exists>resp. QueryBatch h c now v findUsers (QueryPeer enc request decErr decResp) order accounts = Inr resp
    \<and> map pst_Account (pq_States resp) = accounts
    \<and> map pst_Status (pq_States resp) = map (\<lambda>a. case map_of users a of
          None \<Rightarrow> StatusOffline
        | Some site \<Rightarrow> if site = ph_siteID h then read_status v a
            else if up site then read_status (stores site) a else StatusOffline) accounts"
proof -
  let ?m = "\<lambda>a. case map_of users a of
        Some site \<Rightarrow> if site \<in> set (order (remdups (map snd users))) \<and> (site = ph_siteID h \<or> up site)
          then Some (read_status (if site = ph_siteID h then v else stores site) a) else None
      | None \<Rightarrow> None"
  have peers: "if up site then \<exists>x t. QueryPeer enc request decErr decResp site (site_accounts users site)
           = Inr (map (\<lambda>a. \<lparr>pst_Account = a, pst_SiteID = x, pst_Status = read_status (stores site) a, pst_Timestamp = t\<rparr>) (site_accounts users site))
       else \<exists>e. QueryPeer enc request decErr decResp site (site_accounts users site) = Inl e"
    if "site \<in> set (order (remdups (map snd users)))" "site \<noteq> ph_siteID h" for site
    using assms(7) [of site] that assms(6) site_up_states by auto
  have m: "merge_sites h c v (QueryPeer enc request decErr decResp) users (order (remdups (map snd users))) Map.empty = Inr ?m"
    by (rule merge_sites_exact [where up = up and stores = stores, OF assms(4,5)]) (rule peers)
  have site: "map_of users a = Some site \<Longrightarrow> site \<in> set (order (remdups (map snd users)))" for a site
    unfolding assms(6) using map_of_SomeD [of users a site] by force
  have st: "(case ?m a of None \<Rightarrow> StatusOffline | Some s \<Rightarrow> if s = StatusNone then StatusOffline else s)
      = (case map_of users a of None \<Rightarrow> StatusOffline
        | Some site \<Rightarrow> if site = ph_siteID h then read_status v a else if up site then read_status (stores site) a else StatusOffline)" for a
    using site [of a] read_status_nonempty by (cases "map_of users a") (simp_all add: StatusNone_def)
  show ?thesis unfolding QueryBatch_def using assms(1,2,3) m st by (auto simp: comp_def)
qed

lemma local_failure_is_fatal:
  assumes "BatchGet c v (site_accounts users (ph_siteID h)) = Inl e" "ph_siteID h \<in> set sites"
  shows "merge_sites h c v peer users sites m = Inl (Wrapf ''local batch get'' e)"
  using assms(2) by (induction sites arbitrary: m) (auto simp: assms(1) split: sum.splits)

theorem query_degrades_by_site_witness:
  "\<exists>resp. QueryBatch presence_demo (call_at 5) 5 after_hello (\<lambda>_. Inr [(''ann'', ''site-a''), (''bob'', ''site-b''), (''cid'', ''site-c'')])
      (QueryPeer (\<lambda>_. Inr ''q'') (\<lambda>subj _. if subj = Subjects.PresenceQueryBatchPeer ''site-b'' then Inr ''r'' else Inl (Raw ''timeout''))
        (\<lambda>_. None) (\<lambda>_. QueryBatchPeer presence_demo (call_at 5) 5 no_presence [''bob'']))
      rev [''cid'', ''ann'', ''bob'', ''dan''] = Inr resp
    \<and> map pst_Status (pq_States resp) = [StatusOffline, StatusOnline, StatusOffline, StatusOffline]"
proof -
  let ?users = "[(''ann'', ''site-a''), (''bob'', ''site-b''), (''cid'', ''site-c'')]"
  let ?req = "\<lambda>subj _. if subj = Subjects.PresenceQueryBatchPeer ''site-b'' then Inr ''r'' else Inl (Raw ''timeout'')"
  let ?dec = "\<lambda>_. QueryBatchPeer presence_demo (call_at 5) 5 no_presence [''bob'']"
  have ne: "Subjects.PresenceQueryBatchPeer ''site-c'' \<noteq> Subjects.PresenceQueryBatchPeer ''site-b''"
    by (simp add: Subjects.PresenceQueryBatchPeer_def Sprintf.simps)
  have acc: "site_accounts ?users ''site-b'' = [''bob'']" "site_accounts ?users ''site-c'' = [''cid'']"
    by (simp_all add: site_accounts_def)
  have "\<exists>r. QueryBatchPeer presence_demo (call_at 5) 5 no_presence [''bob''] = Inr r"
    by (simp add: QueryBatchPeer_def BatchGet_def presence_demo_def call_at_def)
  then have up: "site_up (\<lambda>_. Inr ''q'') ?req (\<lambda>_. None) ?dec (\<lambda>_. no_presence) ''site-b'' [''bob'']"
    unfolding site_up_def by (auto simp: Parse_def)
  have down: "\<exists>e. QueryPeer (\<lambda>_. Inr ''q'') ?req (\<lambda>_. None) ?dec ''site-c'' [''cid''] = Inl e"
    using ne by (simp add: QueryPeer_def)
  have lim: "ph_batchMax presence_demo = 100" and f: "cl_fate (call_at 5) = Served" by (simp_all add: presence_demo_def call_at_def)
  have hyp: "if s = ''site-b'' then site_up (\<lambda>_. Inr ''q'') ?req (\<lambda>_. None) ?dec (\<lambda>_. no_presence) s (site_accounts ?users s)
       else \<exists>e. QueryPeer (\<lambda>_. Inr ''q'') ?req (\<lambda>_. None) ?dec s (site_accounts ?users s) = Inl e"
    if "s \<in> set (map snd ?users)" "s \<noteq> ph_siteID presence_demo" for s
  proof -
    have "s = ''site-b'' \<or> s = ''site-c''" using that by (auto simp: presence_demo_def)
    then show ?thesis using up down acc by (elim disjE) simp_all
  qed
  have "\<exists>resp. QueryBatch presence_demo (call_at 5) 5 after_hello (\<lambda>_. Inr ?users) (QueryPeer (\<lambda>_. Inr ''q'') ?req (\<lambda>_. None) ?dec)
      rev [''cid'', ''ann'', ''bob'', ''dan''] = Inr resp
    \<and> map pst_Account (pq_States resp) = [''cid'', ''ann'', ''bob'', ''dan'']
    \<and> map pst_Status (pq_States resp) = map (\<lambda>a. case map_of ?users a of
          None \<Rightarrow> StatusOffline
        | Some site \<Rightarrow> if site = ph_siteID presence_demo then read_status after_hello a
            else if site = ''site-b'' then read_status no_presence a else StatusOffline) [''cid'', ''ann'', ''bob'', ''dan'']"
    by (rule query_degrades_by_site [where up = "\<lambda>s. s = ''site-b''" and stores = "\<lambda>_. no_presence"])
      ((rule hyp; assumption) | (simp add: lim f insert_commute; fail))+
  moreover have "read_status after_hello ''ann'' = StatusOnline" by (simp add: read_status_def after_hello_def StatusOnline_def)
  moreover have "read_status no_presence ''bob'' = StatusOffline" by (simp add: read_status_def no_presence_def no_acct_def)
  ultimately show ?thesis by (auto simp: presence_demo_def)
qed

section \<open>A known connection that pings hides one that died\<close>

text \<open>A user's first tab is active and dies without a word; the second is idle and pings every thirty
  seconds, with a sweep before every ping.\<close>

definition two_tabs :: valkey where
  "two_tabs = \<lparr>vk_acct = (\<lambda>_. no_acct)(''ann'' :=
      \<lparr>a_conns = [(''c1'', conn_value ''0'' 1000), (''c2'', conn_value ''1'' 1000)], a_conns_exp = Some 301000, a_manual = None,
       a_status = Some ''online'', a_azure = None, a_azure_exp = None\<rparr>),
     vk_sweep = [(''ann'', 46000)]\<rparr>"

fun pinging :: "nat \<Rightarrow> valkey" where
  "pinging 0 = two_tabs"
| "pinging (Suc n) =
     (let t = 31000 + 30000 * int n;
          (e1, p1, v1) = sweep_tick presence_demo (call_at t) (\<lambda>_. (call_at t, call_at t)) t (pinging n);
          (e2, p2, v2) = PingHandler presence_demo (tick_at t) ''ann'' ''c2'' v1 in v2)"

lemma two_tabs_reached: "served_run presence_demo two_tabs (PublishState ''site-a'' ''ann'' ''online'' 1000)"
proof -
  have "Activity presence_demo (tick_at 1000) ''ann'' ''c2'' True after_hello = (None, [], two_tabs)"
    by (simp add: Activity_def SetActivity_def mutate_def run_script_def activityScript_def compute_def touch_azure_def touch_conns_def expired_def
        hset_def pexpire_conns_def flag_parts reschedule_def zadd_def after_store_def effective_def or_empty_def
        presence_demo_def default_store_def tick_at_def call_at_def after_hello_def two_tabs_def Let_def)
  from served_run.activity [OF demo_served served_tick_at [of 1000] this] show ?thesis by simp
qed

lemma pinging_state:
  "pinging n = \<lparr>vk_acct = (\<lambda>_. no_acct)(''ann'' :=
      \<lparr>a_conns = [(''c1'', conn_value ''0'' 1000), (''c2'', conn_value ''1'' (1000 + 30000 * int n))], a_conns_exp = Some (301000 + 30000 * int n),
       a_manual = None, a_status = Some ''online'', a_azure = None, a_azure_exp = None\<rparr>),
     vk_sweep = [(''ann'', 46000 + 30000 * int n)]\<rparr>"
proof (induction n)
  case (Suc n)
  let ?t = "31000 + 30000 * int n"
  have "sweep_tick presence_demo (call_at ?t) (\<lambda>_. (call_at ?t, call_at ?t)) ?t (pinging n) = (None, [], pinging n)"
    unfolding Suc by (simp add: sweep_tick_def Sweep_def call_at_def due_def zorder_def)
  moreover have "PingHandler presence_demo (tick_at ?t) ''ann'' ''c2'' (pinging n)
      = (None, [], \<lparr>vk_acct = (\<lambda>_. no_acct)(''ann'' :=
      \<lparr>a_conns = [(''c1'', conn_value ''0'' 1000), (''c2'', conn_value ''1'' ?t)], a_conns_exp = Some (331000 + 30000 * int n),
       a_manual = None, a_status = Some ''online'', a_azure = None, a_azure_exp = None\<rparr>),
     vk_sweep = [(''ann'', 76000 + 30000 * int n)]\<rparr>)"
    unfolding Suc
    by (simp add: PingHandler_def Ping_def mutate_def run_script_def pingScript_def touch_conns_def expired_def
        hset_def pexpire_conns_def flag_parts reschedule_def zadd_def after_store_def
        presence_demo_def default_store_def tick_at_def call_at_def Let_def)
  ultimately show ?case by (simp add: Let_def fun_upd_def)
qed (simp add: two_tabs_def fun_upd_def)

text \<open>A dead connection is not pruned while another connection of the account pings. However long the idle
  second tab keeps pinging, and although a sweep runs before every ping, the account reads online because of
  the first tab, whose last sign of life was at time 1000; counting live connections only, it would be away.
  The ping of a known connection moves the account's only sweep deadline past the one that is overdue.\<close>

theorem pings_hide_dead_connection:
  "served_run presence_demo two_tabs (PublishState ''site-a'' ''ann'' ''online'' 1000) \<and> pinging 0 = two_tabs
   \<and> read_status (pinging n) ''ann'' = StatusOnline
   \<and> filter (\<lambda>(c, v). fresh (1000 + 30000 * int n) 45000 v \<and> is_active v) (a_conns (vk_acct (pinging n) ''ann''))
      = (if n \<le> 1 then [(''c1'', conn_value ''0'' 1000)] else [])"
  using two_tabs_reached unfolding pinging_state
  by (auto simp: two_tabs_def read_status_def StatusOnline_def fresh_def is_active_def flag_parts seen_conn_value)

section \<open>Copying Teams calls\<close>

definition all_sound :: "valkey \<Rightarrow> bool" where "all_sound v \<longleftrightarrow> (\<forall>a. sound (vk_acct v a))"

lemma run_frame: "run_script s c script account now v = (r, v') \<Longrightarrow> b \<noteq> account \<Longrightarrow> vk_acct v' b = vk_acct v b"
  by (auto simp: run_script_def Let_def split: prod.splits fate.splits option.splits)

lemma mutate_frame:
  assumes "mutate s cs now account script v = (r, v')" "b \<noteq> account"
  shows "vk_acct v' b = vk_acct v b"
proof -
  obtain r1 v1 where r: "run_script s (fst cs) script account now v = (r1, v1)" by force
  show ?thesis using assms(1) run_frame [OF r assms(2)] r reschedule_acct
    unfolding mutate_def by (fastforce split: sum.splits prod.splits option.splits)
qed

lemma mutate_sound:
  assumes "mutate s cs now account script v = (r, v')" "presence_script script" "all_sound v" "0 \<le> now" "0 \<le> st_staleMs s"
  shows "all_sound v'"
proof -
  obtain r1 v1 where r: "run_script s (fst cs) script account now v = (r1, v1)" by force
  have "all_sound v1" using presence_script.run_sound [OF assms(2) _ assms(4,5) r] assms(3) unfolding all_sound_def by auto
  then show ?thesis using assms(1) r reschedule_acct
    unfolding mutate_def all_sound_def by (fastforce split: sum.splits prod.splits option.splits)
qed

lemma external_effect:
  assumes "sound (vk_acct v a)" "0 \<le> now" "0 \<le> st_staleMs s" "cl_fate (fst cs) = Served" "cl_fate (snd cs) = Served" "status = StatusNone \<or> 0 < ttl"
  shows "\<exists>ch eff v'. SetExternal s cs now a status ttl v = (Inr (ch, eff), v')
    \<and> a_azure (vk_acct v' a) = (if status = StatusNone then None else Some status)"
proof -
  let ?arg = "if status = StatusNone then '''' else status"
  let ?b = "if ?arg = '''' then (vk_acct v a)\<lparr>a_azure := None, a_azure_exp := None\<rparr>
    else pexpire_azure (cl_srv (fst cs)) ttl ((vk_acct v a)\<lparr>a_azure := Some ?arg, a_azure_exp := None\<rparr>)"
  have ok: "conns_ok (a_conns ?b)" using assms(1) by (simp add: sound_def pexpire_azure_def)
  obtain nxt where c: "compute (cl_srv (fst cs)) now (st_staleMs s) ?b = (Some (a_status ?b \<noteq> a_status (computed (cl_srv (fst cs)) now (st_staleMs s) ?b),
      rule (computed (cl_srv (fst cs)) now (st_staleMs s) ?b), nxt), computed (cl_srv (fst cs)) now (st_staleMs s) ?b)"
    using compute_ok [OF ok assms(3)] by blast
  have az: "a_azure (computed (cl_srv (fst cs)) now (st_staleMs s) ?b) = (if status = StatusNone then None else Some status)"
    using assms(6) unfolding computed_fields(4) by (auto simp: touch_azure_def expired_def pexpire_azure_def StatusNone_def)
  have x: "externalScript ?arg ttl (cl_srv (fst cs)) now (st_staleMs s) (vk_acct v a) = compute (cl_srv (fst cs)) now (st_staleMs s) ?b"
    by (simp add: externalScript_def)
  let ?v1 = "v\<lparr>vk_acct := (vk_acct v)(a := computed (cl_srv (fst cs)) now (st_staleMs s) ?b)\<rparr>"
  obtain v2 where v2: "reschedule s (snd cs) a nxt ?v1 = (None, v2)" "vk_acct v2 = vk_acct ?v1"
    using reschedule_served [OF assms(5), of s a nxt ?v1] by blast
  have "run_script s (fst cs) (externalScript ?arg ttl) a now v = (Inr (a_status ?b \<noteq> a_status (computed (cl_srv (fst cs)) now (st_staleMs s) ?b),
      rule (computed (cl_srv (fst cs)) now (st_staleMs s) ?b), nxt), ?v1)"
    using assms(4) unfolding run_script_def x c by simp
  then have "SetExternal s cs now a status ttl v = (Inr (a_status ?b \<noteq> a_status (computed (cl_srv (fst cs)) now (st_staleMs s) ?b),
      rule (computed (cl_srv (fst cs)) now (st_staleMs s) ?b)), v2)"
    unfolding SetExternal_def Let_def mutate_def using v2(1) by (simp only: prod.case sum.case option.case)
  then show ?thesis using az v2(2) by auto
qed

definition applied :: "apply_calls \<Rightarrow> bool" where
  "applied n \<longleftrightarrow> cl_fate (fst (tk_calls (ac_tick n))) = Served \<and> cl_fate (snd (tk_calls (ac_tick n))) = Served \<and> cl_fate (ac_index n) = Served"

lemma command_cases:
  assumes "command c what f st = (e, st')"
  shows "st' = st \<or> st' = f st" "cl_fate c = Served \<Longrightarrow> e = None \<and> st' = f st"
  using assms by (auto simp: command_def split: fate.splits)

lemma apply_status_parts:
  assumes "apply_status h ttl n account status st = (e, pubs, st')"
  obtains r v where "SetExternal (ph_store h) (tk_calls (ac_tick n)) (tk_store (ac_tick n)) account status ttl (sy_vk st) = (r, v)"
    "sy_vk st' = v"
    "sy_index st' = sy_index st \<or> sy_index st' = (if status = StatusNone then removeAll account (sy_index st) else List.insert account (sy_index st))"
    "isl r \<or> cl_fate (ac_index n) \<noteq> Served \<or> sy_index st' = (if status = StatusNone then removeAll account (sy_index st) else List.insert account (sy_index st))"
proof -
  obtain r v where m: "SetExternal (ph_store h) (tk_calls (ac_tick n)) (tk_store (ac_tick n)) account status ttl (sy_vk st) = (r, v)" by force
  show ?thesis
    by (rule that [OF m]; use assms in \<open>auto simp: apply_status_def Let_def m idx_Remove_def idx_Add_def command_def
        split: sum.splits prod.splits if_splits fate.splits option.splits\<close>)
qed

lemma apply_status_frame:
  assumes "apply_status h ttl n account status st = (e, pubs, st')" "b \<noteq> account"
  shows "vk_acct (sy_vk st') b = vk_acct (sy_vk st) b" "b \<in> set (sy_index st') \<longleftrightarrow> b \<in> set (sy_index st)"
proof -
  obtain r v where m: "SetExternal (ph_store h) (tk_calls (ac_tick n)) (tk_store (ac_tick n)) account status ttl (sy_vk st) = (r, v)" "sy_vk st' = v"
    "sy_index st' = sy_index st \<or> sy_index st' = (if status = StatusNone then removeAll account (sy_index st) else List.insert account (sy_index st))"
    by (rule apply_status_parts [OF assms(1)])
  show "vk_acct (sy_vk st') b = vk_acct (sy_vk st) b" unfolding m(2)
    using mutate_frame [OF _ assms(2)] m(1) unfolding SetExternal_def Let_def by blast
  show "b \<in> set (sy_index st') \<longleftrightarrow> b \<in> set (sy_index st)" using m(3) assms(2) by (auto split: if_splits)
qed

lemma apply_status_sound:
  assumes "apply_status h ttl n account status st = (e, pubs, st')" "all_sound (sy_vk st)" "0 \<le> tk_store (ac_tick n)" "store_config (ph_store h)"
  shows "all_sound (sy_vk st')"
proof -
  obtain r v where m: "SetExternal (ph_store h) (tk_calls (ac_tick n)) (tk_store (ac_tick n)) account status ttl (sy_vk st) = (r, v)" "sy_vk st' = v"
    by (rule apply_status_parts [OF assms(1)])
  show ?thesis unfolding m(2)
    using mutate_sound [OF _ external.presence_script_axioms assms(2,3)] m(1) assms(4)
    unfolding SetExternal_def Let_def store_config_def by blast
qed

lemma apply_status_effect:
  assumes "apply_status h ttl n a status st = (e, pubs, st')" "all_sound (sy_vk st)" "0 \<le> tk_store (ac_tick n)" "store_config (ph_store h)"
    "applied n" "0 < ttl"
  shows "a_azure (vk_acct (sy_vk st') a) = (if status = StatusNone then None else Some status)"
    "a \<in> set (sy_index st') \<longleftrightarrow> status \<noteq> StatusNone"
proof -
  obtain r v where m: "SetExternal (ph_store h) (tk_calls (ac_tick n)) (tk_store (ac_tick n)) a status ttl (sy_vk st) = (r, v)" "sy_vk st' = v"
    "isl r \<or> cl_fate (ac_index n) \<noteq> Served \<or> sy_index st' = (if status = StatusNone then removeAll a (sy_index st) else List.insert a (sy_index st))"
    by (rule apply_status_parts [OF assms(1)])
  have s: "sound (vk_acct (sy_vk st) a)" "0 \<le> st_staleMs (ph_store h)" using assms(2,4) by (simp_all add: all_sound_def store_config_def)
  obtain ch eff where e: "r = Inr (ch, eff)" "a_azure (vk_acct v a) = (if status = StatusNone then None else Some status)"
    using external_effect [OF s(1) assms(3) s(2), of "tk_calls (ac_tick n)" status ttl] assms(5,6) m(1) by (auto simp: applied_def)
  then show "a_azure (vk_acct (sy_vk st') a) = (if status = StatusNone then None else Some status)"
    "a \<in> set (sy_index st') \<longleftrightarrow> status \<noteq> StatusNone"
    using m(2,3) assms(5) by (auto simp: applied_def)
qed

lemma apply_all_effect:
  assumes "apply_all h ttl net status as (pubs, st) = (pubs', st')" "all_sound (sy_vk st)" "\<And>a. 0 \<le> tk_store (ac_tick (net a))"
    "store_config (ph_store h)" "0 < ttl"
  shows "all_sound (sy_vk st')
    \<and> (a \<notin> set as \<longrightarrow> vk_acct (sy_vk st') a = vk_acct (sy_vk st) a \<and> (a \<in> set (sy_index st') \<longleftrightarrow> a \<in> set (sy_index st)))
    \<and> (a \<in> set as \<longrightarrow> applied (net a) \<longrightarrow>
        a_azure (vk_acct (sy_vk st') a) = (if status = StatusNone then None else Some status) \<and> (a \<in> set (sy_index st') \<longleftrightarrow> status \<noteq> StatusNone))"
  using assms(1,2)
proof (induction as arbitrary: pubs st)
  case (Cons b as)
  obtain e new st1 where b: "apply_status h ttl (net b) b status st = (e, new, st1)" by (metis prod.collapse)
  have s1: "all_sound (sy_vk st1)" by (rule apply_status_sound [OF b Cons.prems(2) assms(3,4)])
  have rest: "apply_all h ttl net status as (pubs @ new, st1) = (pubs', st')" using Cons.prems(1) b by simp
  note IH = Cons.IH [OF rest s1]
  note eff = apply_status_effect [OF b Cons.prems(2) assms(3,4) _ assms(5)]
  show ?case
  proof (cases "a = b")
    case True
    then show ?thesis using IH eff by (cases "b \<in> set as") auto
  next
    case False
    then show ?thesis using IH apply_status_frame [OF b False] by auto
  qed
qed simp

lemma account_of_id:
  assumes "distinct (map snd es)"
  shows "fold (\<lambda>(a, i) m. m(i \<mapsto> a)) es m i = Some a \<longleftrightarrow> (a, i) \<in> set es \<or> i \<notin> snd ` set es \<and> m i = Some a"
  using assms by (induction es arbitrary: m) (auto simp: image_iff split: if_splits)

lemma resolveIDs_store: "resolveIDs cr cs f accounts st = (r, st') \<Longrightarrow> sy_vk st' = sy_vk st \<and> sy_index st' = sy_index st"
  by (auto simp: resolveIDs_def idm_Store_def command_def Let_def split: sum.splits if_splits fate.splits)

text \<open>The Teams job marks exactly the accounts that are in a call, and one account's failure never affects
  another. When the reads of a run are answered and directory ids are unique, every active account whose
  directory entry shows a call ends marked in the store and in the index, every account of the index that is
  in no call ends cleared in both, each as far as its own calls are served, whatever happens to the others;
  no other account is touched.\<close>

theorem reconcile_marks_calls:
  assumes "all_sound (sy_vk st)" "store_config (ph_store h)" "0 < ttl"
    "cl_fate (rc_active rc) = Served" "cl_fate (rc_members rc) = Served"
    "resolveIDs (rc_resolve rc) (rc_persist rc) resolveAccountIDs (map fst (zorder (vk_sweep (sy_vk st)))) st = (Inr ids, st1)"
    "distinct (map snd (shuffle ids))" "set (shuffle ids) = set ids" "getPresences (map snd (shuffle ids)) = Inr presences"
    "\<And>xs. set (shuffle_set xs) = set xs"
    "\<And>a. 0 \<le> tk_store (ac_tick (set_net a))" "\<And>a. 0 \<le> tk_store (ac_tick (clear_net a))"
    "in_call \<longleftrightarrow> (\<exists>p \<in> set presences. isInCall p \<and> (a, gp_ID p) \<in> set ids)"
  shows "\<exists>pubs st'. reconcile h ttl rc set_net clear_net resolveAccountIDs getPresences shuffle shuffle_set st = (None, pubs, st')
    \<and> (in_call \<longrightarrow> applied (set_net a) \<longrightarrow> a_azure (vk_acct (sy_vk st') a) = Some StatusInCall \<and> a \<in> set (sy_index st'))
    \<and> (\<not> in_call \<longrightarrow> a \<in> set (sy_index st) \<longrightarrow> applied (clear_net a) \<longrightarrow> a_azure (vk_acct (sy_vk st') a) = None \<and> a \<notin> set (sy_index st'))
    \<and> (\<not> in_call \<longrightarrow> a \<notin> set (sy_index st) \<longrightarrow> vk_acct (sy_vk st') a = vk_acct (sy_vk st) a \<and> a \<notin> set (sy_index st'))"
proof -
  let ?by = "fold (\<lambda>(a, i) m. m(i \<mapsto> a)) (shuffle ids) Map.empty"
  let ?cur = "in_call_now ?by presences"
  let ?prev = "filter (\<lambda>a. a \<notin> set ?cur) (sy_index st1)"
  have by_id: "?by i = Some b \<longleftrightarrow> (b, i) \<in> set ids" for i b
    using account_of_id [OF assms(7), of Map.empty i b] assms(8) by simp
  have "a \<in> set ?cur \<longleftrightarrow> (\<exists>p \<in> set presences. isInCall p \<and> ?by (gp_ID p) = Some a)"
    unfolding in_call_now_def by (auto simp: List.map_filter_def image_iff split: if_splits intro!: bexI)
  then have cur: "a \<in> set ?cur \<longleftrightarrow> in_call" unfolding by_id assms(13) .
  have st1: "sy_vk st1 = sy_vk st" "sy_index st1 = sy_index st" using resolveIDs_store [OF assms(6)] by simp_all
  obtain pubs2 st2 where s2: "apply_all h ttl set_net StatusInCall (shuffle_set ?cur) ([], st1) = (pubs2, st2)" by (metis prod.collapse)
  obtain pubs3 st3 where s3: "apply_all h ttl clear_net StatusNone ?prev (pubs2, st2) = (pubs3, st3)" by (metis prod.collapse)
  note one = apply_all_effect [where a = a, OF s2 _ assms(11,2,3)]
  have e2: "all_sound (sy_vk st2)" using one assms(1) st1 by simp
  note two = apply_all_effect [where a = a, OF s3 e2 assms(12,2,3)]
  have "reconcile h ttl rc set_net clear_net resolveAccountIDs getPresences shuffle shuffle_set st = (None, pubs3, st3)"
    unfolding reconcile_def ActiveAccounts_def Members_def answer_def Let_def
    using assms(4,5,6,9) s2 s3 by simp
  moreover have "StatusInCall \<noteq> StatusNone" by (simp add: status_defs)
  ultimately show ?thesis using one two cur assms(1,10) st1 by auto
qed

text \<open>One account in a call, one still in the index whose call is over and whose calls succeed.\<close>

definition demo_sync :: sync_state where
  "demo_sync = \<lparr>sy_vk = after_hello, sy_index = [''old''], sy_idmap = [(''ann'', ''id-1'')]\<rparr>"

definition demo_apply :: "string \<Rightarrow> apply_calls" where
  "demo_apply a = \<lparr>ac_tick = tick_at 2000, ac_index = call_at 2000\<rparr>"

definition demo_rc :: reconcile_calls where
  "demo_rc = \<lparr>rc_active = call_at 2000, rc_resolve = call_at 2000, rc_persist = call_at 2000, rc_members = call_at 2000\<rparr>"

lemma demo_all_sound: "all_sound after_hello"
  using served_run_inv [OF demo_served demo_config] by (simp add: serial_inv_def in_step_def acct_in_step_def all_sound_def)

theorem reconcile_marks_calls_witness:
  "\<exists>pubs st'. reconcile presence_demo 300000 demo_rc demo_apply demo_apply (\<lambda>_. Inr [])
      (\<lambda>_. Inr [\<lparr>gp_ID = ''id-1'', gp_Activity = ''InACall''\<rparr>]) (\<lambda>m. m) (\<lambda>xs. xs) demo_sync = (None, pubs, st')
    \<and> a_azure (vk_acct (sy_vk st') ''ann'') = Some StatusInCall \<and> ''ann'' \<in> set (sy_index st')"
proof -
  have f: "cl_fate (rc_active demo_rc) = Served" "cl_fate (rc_members demo_rc) = Served" by (simp_all add: demo_rc_def call_at_def)
  have r: "resolveIDs (rc_resolve demo_rc) (rc_persist demo_rc) (\<lambda>_. Inr []) (map fst (zorder (vk_sweep (sy_vk demo_sync)))) demo_sync
      = (Inr [(''ann'', ''id-1'')], demo_sync)"
    by (simp add: resolveIDs_def idm_Resolve_def demo_rc_def call_at_def demo_sync_def after_hello_def zorder_def answer_def)
  have s: "all_sound (sy_vk demo_sync)" using demo_all_sound by (simp add: demo_sync_def)
  have t: "0 \<le> tk_store (ac_tick (demo_apply a))" "applied (demo_apply a)" for a
    by (simp_all add: demo_apply_def tick_at_def applied_def call_at_def)
  have "\<exists>pubs st'. reconcile presence_demo 300000 demo_rc demo_apply demo_apply (\<lambda>_. Inr [])
      (\<lambda>_. Inr [\<lparr>gp_ID = ''id-1'', gp_Activity = ''InACall''\<rparr>]) (\<lambda>m. m) (\<lambda>xs. xs) demo_sync = (None, pubs, st')
    \<and> (True \<longrightarrow> applied (demo_apply ''ann'') \<longrightarrow> a_azure (vk_acct (sy_vk st') ''ann'') = Some StatusInCall \<and> ''ann'' \<in> set (sy_index st'))
    \<and> (\<not> True \<longrightarrow> ''ann'' \<in> set (sy_index demo_sync) \<longrightarrow> applied (demo_apply ''ann'') \<longrightarrow>
          a_azure (vk_acct (sy_vk st') ''ann'') = None \<and> ''ann'' \<notin> set (sy_index st'))
    \<and> (\<not> True \<longrightarrow> ''ann'' \<notin> set (sy_index demo_sync) \<longrightarrow>
          vk_acct (sy_vk st') ''ann'' = vk_acct (sy_vk demo_sync) ''ann'' \<and> ''ann'' \<notin> set (sy_index st'))"
    by (rule reconcile_marks_calls [where presences = "[\<lparr>gp_ID = ''id-1'', gp_Activity = ''InACall''\<rparr>]", OF s demo_config _ f r]) (simp_all add: t isInCall_def callActivities_def)
  then show ?thesis using t(2) by auto
qed

end
