(* ===== verification/Thread_Count.thy ===== *)
theory Thread_Count
  imports Bucket_Walk
begin

text \<open>
  The reply count of a thread (\<open>src/pkg/threadcount\<close>), which message-worker, bot-message-worker and
  history-service keep on the two copies of the parent message. The tables are explicit: the replies of a
  thread (a deleted reply leaves its row), and the parent in \<open>messages_by_id\<close> and \<open>messages_by_room\<close>. The calls of
  the driver may fail; the batch that writes both copies is not logged, so a failed one may have written either.
  Between two calls other writers may change the tables: \<open>tc_before\<close> is what they do before each call.
\<close>

section \<open>Tables and calls\<close>

record reply_row =
  rr_deleted :: bool
  rr_created :: int

record parentCounts =
  pc_replies :: "int option"
  pc_lastReplyAt :: "int option"

definition no_counts :: parentCounts where "no_counts = \<lparr>pc_replies = None, pc_lastReplyAt = None\<rparr>"

record Parent =
  pa_MessageID :: string
  pa_RoomID :: string
  pa_CreatedAt :: int
  pa_Bucket :: int
  pa_ThreadRoomID :: string

type_synonym room_key = "string \<times> int \<times> int \<times> string"

record tc_tables =
  tb_replies :: "string \<Rightarrow> reply_row list"
  tb_by_id :: "string \<Rightarrow> parentCounts option"
  tb_by_room :: "room_key \<Rightarrow> parentCounts option"

text \<open>The fate of a batch: done, or failed having written the copies the flags say.\<close>

datatype batch_fate = Done | Partial goerr bool bool

datatype call_no = CRead | CScan | CRecount | CRecountSave | CReread | CSave

record tc_calls =
  tc_fail :: "call_no \<Rightarrow> goerr option"
  tc_batch :: "call_no \<Rightarrow> batch_fate"
  tc_before :: "call_no \<Rightarrow> tc_tables \<Rightarrow> tc_tables"
  tc_draw :: "int \<Rightarrow> int"

section \<open>Policy\<close>

record Policy =
  po_ScanLimit :: int
  po_ReanchorBudget :: int
  po_ReconcileRowLimit :: int

definition DefaultScanLimit :: int where "DefaultScanLimit = 1000"
definition DefaultReanchorBudget :: int where "DefaultReanchorBudget = 50"
definition DefaultReconcileRowLimit :: int where "DefaultReconcileRowLimit = 50000"

definition Validate :: "Policy \<Rightarrow> goerr option" where
  "Validate p =
     (if po_ScanLimit p \<le> 0 then Some (Raw (''THREAD_COUNT_SCAN_LIMIT must be positive, got '' @ Itoa (po_ScanLimit p)
          @ '': at or below zero an uncounted thread is read to its end''))
      else if po_ReanchorBudget p < 0 then Some (Raw (''THREAD_COUNT_REANCHOR_BUDGET must not be negative, got '' @ Itoa (po_ReanchorBudget p)
          @ '' (0 stops re-deriving the count)''))
      else if po_ReconcileRowLimit p < 0 then Some (Raw (''THREAD_COUNT_RECONCILE_ROW_LIMIT must not be negative, got '' @ Itoa (po_ReconcileRowLimit p)
          @ '' (0 leaves a recount uncapped)''))
      else None)"

definition DefaultPolicy :: Policy where
  "DefaultPolicy = \<lparr>po_ScanLimit = DefaultScanLimit, po_ReanchorBudget = DefaultReanchorBudget, po_ReconcileRowLimit = DefaultReconcileRowLimit\<rparr>"

definition NewParent :: "string \<Rightarrow> string \<Rightarrow> string \<Rightarrow> int \<Rightarrow> Sizer \<Rightarrow> Parent" where
  "NewParent messageID roomID threadRoomID createdAt bucket =
     \<lparr>pa_MessageID = messageID, pa_RoomID = roomID, pa_CreatedAt = createdAt, pa_Bucket = Of bucket createdAt, pa_ThreadRoomID = threadRoomID\<rparr>"

record Result =
  re_Count :: int
  re_TLM :: "int option"

section \<open>Counting\<close>

definition newer :: "int option \<Rightarrow> int \<Rightarrow> int option" where
  "newer newest t = (case newest of None \<Rightarrow> Some t | Some n \<Rightarrow> if n < t then Some t else newest)"

fun count_loop :: "int \<Rightarrow> reply_row list \<Rightarrow> int \<Rightarrow> int \<Rightarrow> int option \<Rightarrow> int \<times> int option \<times> bool" where
  "count_loop limit [] live rd newest = (live, newest, True)"
| "count_loop limit (r # rs) live rd newest =
     (if 0 < limit \<and> limit < rd + 1 then (live, newest, False)
      else if rr_deleted r then count_loop limit rs live (rd + 1) newest
      else count_loop limit rs (live + 1) (rd + 1) (newer newest (rr_created r)))"

definition countReplies :: "goerr option \<Rightarrow> tc_tables \<Rightarrow> string \<Rightarrow> int \<Rightarrow> goerr + (int \<times> int option \<times> bool)" where
  "countReplies err t threadRoomID limit =
     (let rows = (if 0 < limit then take (nat (limit + 1)) (tb_replies t threadRoomID) else tb_replies t threadRoomID);
          counted = count_loop limit rows 0 0 None in
      case err of Some e \<Rightarrow> Inl (Wrapf (''count replies in thread '' @ threadRoomID) e) | None \<Rightarrow> Inr counted)"

section \<open>Reading and writing the parent\<close>

definition readCounts :: "goerr option \<Rightarrow> tc_tables \<Rightarrow> string \<Rightarrow> goerr + parentCounts" where
  "readCounts err t parentMessageID =
     (case err of
        Some e \<Rightarrow> Inl (Wrapf (''read parent '' @ parentMessageID @ '' reply count'') e)
      | None \<Rightarrow> Inr (case tb_by_id t parentMessageID of None \<Rightarrow> no_counts | Some c \<Rightarrow> c))"

definition rereadCounts :: "goerr option \<Rightarrow> tc_tables \<Rightarrow> string \<Rightarrow> parentCounts \<Rightarrow> parentCounts" where
  "rereadCounts err t parentMessageID saved =
     (case readCounts err t parentMessageID of
        Inl e \<Rightarrow> saved
      | Inr fresh \<Rightarrow> if pc_replies fresh = None then saved else fresh)"

text \<open>An UPDATE writes the named columns and makes the row when there is none.\<close>

definition put_counts :: "int \<Rightarrow> int option \<Rightarrow> bool \<Rightarrow> parentCounts option \<Rightarrow> parentCounts option" where
  "put_counts replies lastReplyAt writeTime row =
     Some (let c = (case row of None \<Rightarrow> no_counts | Some c \<Rightarrow> c) in
           \<lparr>pc_replies = Some replies, pc_lastReplyAt = if writeTime then lastReplyAt else pc_lastReplyAt c\<rparr>)"

definition room_key_of :: "Parent \<Rightarrow> room_key" where
  "room_key_of p = (pa_RoomID p, pa_Bucket p, pa_CreatedAt p, pa_MessageID p)"

definition write_by_id :: "Parent \<Rightarrow> int \<Rightarrow> int option \<Rightarrow> bool \<Rightarrow> tc_tables \<Rightarrow> tc_tables" where
  "write_by_id p replies at_time writeTime t =
     t\<lparr>tb_by_id := (tb_by_id t)(pa_MessageID p := put_counts replies at_time writeTime (tb_by_id t (pa_MessageID p)))\<rparr>"

definition write_by_room :: "Parent \<Rightarrow> int \<Rightarrow> int option \<Rightarrow> bool \<Rightarrow> tc_tables \<Rightarrow> tc_tables" where
  "write_by_room p replies at_time writeTime t =
     t\<lparr>tb_by_room := (tb_by_room t)(room_key_of p := put_counts replies at_time writeTime (tb_by_room t (room_key_of p)))\<rparr>"

definition writeToBothRows :: "batch_fate \<Rightarrow> Parent \<Rightarrow> int \<Rightarrow> int option \<Rightarrow> bool \<Rightarrow> tc_tables \<Rightarrow> goerr option \<times> tc_tables" where
  "writeToBothRows fate p replies at_time writeTime t =
     (case fate of
        Done \<Rightarrow> (None, write_by_room p replies at_time writeTime (write_by_id p replies at_time writeTime t))
      | Partial e a b \<Rightarrow>
          (Some (Wrapf (''save reply count on parent '' @ pa_MessageID p) e),
           (if b then write_by_room p replies at_time writeTime else id) ((if a then write_by_id p replies at_time writeTime else id) t)))"

section \<open>Keeping the count\<close>

definition keepNewer :: "int option \<Rightarrow> int option \<Rightarrow> int option" where
  "keepNewer saved replyAt =
     (case replyAt of
        None \<Rightarrow> saved
      | Some r \<Rightarrow> (case saved of Some s \<Rightarrow> if r < s then saved else Some r | None \<Rightarrow> Some r))"

definition plus_count :: "int option \<Rightarrow> int \<Rightarrow> int" where
  "plus_count saved change = max (case saved of Some s \<Rightarrow> s + change | None \<Rightarrow> change) 0"

definition shortEnough :: "parentCounts \<Rightarrow> int \<Rightarrow> bool" where
  "shortEnough c limit = (case pc_replies c of None \<Rightarrow> True | Some n \<Rightarrow> n < limit)"

definition ShouldReanchor :: "(int \<Rightarrow> int) \<Rightarrow> int \<Rightarrow> int \<Rightarrow> bool" where
  "ShouldReanchor draw saved budget =
     (if saved \<le> 0 \<or> budget \<le> 0 then False else if saved \<le> budget then True else draw saved < budget)"

definition maintain_err :: "Parent \<Rightarrow> goerr \<Rightarrow> goerr" where
  "maintain_err p e = Wrapf (''maintain thread '' @ pa_ThreadRoomID p @ '' count'') e"

definition saveCounts :: "tc_calls \<Rightarrow> Parent \<Rightarrow> int \<Rightarrow> int option \<Rightarrow> bool \<Rightarrow> tc_tables \<Rightarrow> (goerr + Result) \<times> tc_tables" where
  "saveCounts n p replies lastReplyAt writeTime t =
     (case writeToBothRows (tc_batch n CSave) p replies lastReplyAt writeTime (tc_before n CSave t) of
        (Some e, t') \<Rightarrow> (Inl (maintain_err p e), t')
      | (None, t') \<Rightarrow> (Inr \<lparr>re_Count = replies, re_TLM = lastReplyAt\<rparr>, t'))"

definition Reconcile :: "tc_calls \<Rightarrow> Parent \<Rightarrow> Policy \<Rightarrow> tc_tables \<Rightarrow> (goerr + Result) \<times> tc_tables" where
  "Reconcile n p pol t0 =
     (let t = tc_before n CRecount t0; what = ''reconcile thread '' @ pa_ThreadRoomID p in
      case countReplies (tc_fail n CRecount) t (pa_ThreadRoomID p) (po_ReconcileRowLimit pol) of
        Inl e \<Rightarrow> (Inl (Wrapf what e), t)
      | Inr (replies, newest, reachedEnd) \<Rightarrow>
          if \<not> reachedEnd
          then (Inl (Raw (what @ '': thread holds more than the '' @ Itoa (po_ReconcileRowLimit pol) @ '' rows a full recount may read'')), t)
          else (case writeToBothRows (tc_batch n CRecountSave) p replies newest True (tc_before n CRecountSave t) of
              (Some e, t') \<Rightarrow> (Inl (Wrapf what e), t')
            | (None, t') \<Rightarrow> (Inr \<lparr>re_Count = replies, re_TLM = newest\<rparr>, t')))"

definition changeWithoutCounting :: "tc_calls \<Rightarrow> Parent \<Rightarrow> parentCounts \<Rightarrow> int \<Rightarrow> int option \<Rightarrow> tc_tables \<Rightarrow> (goerr + Result) \<times> tc_tables" where
  "changeWithoutCounting n p saved change replyAt t =
     (let lastReplyAt = keepNewer (pc_lastReplyAt saved) replyAt in
      saveCounts n p (plus_count (pc_replies saved) change) lastReplyAt (replyAt \<noteq> None) t)"

definition countFromReplies :: "tc_calls \<Rightarrow> Parent \<Rightarrow> Policy \<Rightarrow> parentCounts \<Rightarrow> int \<Rightarrow> int option \<Rightarrow> tc_tables \<Rightarrow> (goerr + Result) \<times> tc_tables" where
  "countFromReplies n p pol saved change replyAt t0 =
     (let t = tc_before n CScan t0 in
      case countReplies (tc_fail n CScan) t (pa_ThreadRoomID p) (po_ScanLimit pol) of
        Inl e \<Rightarrow> (Inl (maintain_err p e), t)
      | Inr (found, newestFound, reachedEnd) \<Rightarrow>
          if reachedEnd then saveCounts n p found (keepNewer newestFound replyAt) True t
          else let replies = max found (plus_count (pc_replies saved) change) in
            if replies = 0
            then (case Reconcile n p pol t of
                    (Inl e, t') \<Rightarrow> (Inl (Wrapf (''maintain thread '' @ pa_ThreadRoomID p @ '' count: refusing to save an unproven zero'') e), t')
                  | (Inr res, t') \<Rightarrow> (Inr res, t'))
            else let lastReplyAt = keepNewer (keepNewer (pc_lastReplyAt saved) newestFound) replyAt in
              saveCounts n p replies lastReplyAt (lastReplyAt \<noteq> None) t)"

definition Maintain :: "tc_calls \<Rightarrow> Parent \<Rightarrow> Policy \<Rightarrow> int \<Rightarrow> int option \<Rightarrow> bool \<Rightarrow> tc_tables \<Rightarrow> (goerr + Result) \<times> tc_tables" where
  "Maintain n p pol change0 replyAt isRetry t0 =
     (let t = tc_before n CRead t0 in
      case readCounts (tc_fail n CRead) t (pa_MessageID p) of
        Inl e \<Rightarrow> (Inl (maintain_err p e), t)
      | Inr saved \<Rightarrow>
          let change = (if isRetry then 0 else change0) in
          if shortEnough saved (po_ScanLimit pol) then countFromReplies n p pol saved change replyAt t
          else if \<not> isRetry \<and> ShouldReanchor (tc_draw n) (the (pc_replies saved)) (po_ReanchorBudget pol)
          then (case Reconcile n p pol t of
                  (Inr res, t') \<Rightarrow> (Inr res, t')
                | (Inl e, t') \<Rightarrow>
                    let t2 = tc_before n CReread t';
                        saved' = rereadCounts (tc_fail n CReread) t2 (pa_MessageID p) saved in
                    changeWithoutCounting n p saved' change replyAt t2)
          else changeWithoutCounting n p saved change replyAt t)"

end
