(* ===== verification/Thread_Count_Props.thy ===== *)
theory Thread_Count_Props
  imports Thread_Count
begin

text \<open>
  What the reply count guarantees: maintained one reply at a time it is exact on every route, it never says that
  a thread is empty without having read the whole thread, and a retry after a half-written batch leaves both
  copies equal and counts no reply twice.
\<close>

section \<open>Counting\<close>

definition live_rows :: "reply_row list \<Rightarrow> reply_row list" where
  "live_rows rows = filter (\<lambda>r. \<not> rr_deleted r) rows"

definition live_count :: "reply_row list \<Rightarrow> int" where
  "live_count rows = int (length (live_rows rows))"

text \<open>A time covers the rows when no live reply is later, and there is a time when there is a live reply.\<close>

definition covers :: "int option \<Rightarrow> reply_row list \<Rightarrow> bool" where
  "covers at_time rows \<longleftrightarrow> (\<forall>r \<in> set (live_rows rows). \<exists>t. at_time = Some t \<and> rr_created r \<le> t)"

definition newest_of :: "reply_row list \<Rightarrow> int option" where
  "newest_of rows = fold (\<lambda>r m. newer m (rr_created r)) (live_rows rows) None"

lemma count_loop_end:
  assumes "limit \<le> 0 \<or> rd + int (length rows) \<le> limit"
  shows "count_loop limit rows live rd newest
    = (live + live_count rows, fold (\<lambda>r m. newer m (rr_created r)) (live_rows rows) newest, True)"
  using assms by (induction rows arbitrary: live rd newest) (auto simp: live_count_def live_rows_def)

lemma count_loop_cut:
  assumes "0 < limit" "rd \<le> limit" "limit < rd + int (length rows)"
  shows "count_loop limit rows live rd newest = (live + live_count (take (nat (limit - rd)) rows),
      fold (\<lambda>r m. newer m (rr_created r)) (live_rows (take (nat (limit - rd)) rows)) newest, False)"
  using assms
proof (induction rows arbitrary: live rd newest)
  case (Cons r rs)
  show ?case
  proof (cases "rd = limit")
    case True
    then show ?thesis using Cons.prems by (simp add: live_count_def live_rows_def)
  next
    case False
    then have "nat (limit - rd) = Suc (nat (limit - (rd + 1)))" "rd + 1 \<le> limit" using Cons.prems by linarith+
    then show ?thesis using Cons.IH [of "rd + 1"] Cons.prems by (auto simp: live_count_def live_rows_def)
  qed
qed simp

lemma countReplies_spec:
  "countReplies None t th limit =
     (if limit \<le> 0 \<or> int (length (tb_replies t th)) \<le> limit
      then Inr (live_count (tb_replies t th), newest_of (tb_replies t th), True)
      else Inr (live_count (take (nat limit) (tb_replies t th)), newest_of (take (nat limit) (tb_replies t th)), False))"
proof (cases "limit \<le> 0 \<or> int (length (tb_replies t th)) \<le> limit")
  case True
  then have "count_loop limit (if 0 < limit then take (nat (limit + 1)) (tb_replies t th) else tb_replies t th) 0 0 None
    = (live_count (tb_replies t th), newest_of (tb_replies t th), True)"
    using count_loop_end [of limit 0 "tb_replies t th" 0 None] by (auto simp: newest_of_def)
  then show ?thesis using True by (simp add: countReplies_def)
next
  case False
  then have "count_loop limit (take (nat (limit + 1)) (tb_replies t th)) 0 0 None
      = (live_count (take (nat limit) (tb_replies t th)), newest_of (take (nat limit) (tb_replies t th)), False)"
    using count_loop_cut [of limit 0 "take (nat (limit + 1)) (tb_replies t th)" 0 None]
    by (auto simp: newest_of_def min_def nat_add_distrib)
  then show ?thesis using False by (auto simp: countReplies_def)
qed

lemma live_count_take: "live_count (take n rows) \<le> live_count rows" "0 \<le> live_count rows"
proof -
  have "length (filter P (take n rows)) \<le> length (filter P rows)" for P
    by (subst (2) append_take_drop_id [of n rows, symmetric]) (simp only: filter_append length_append le_add1)
  then show "live_count (take n rows) \<le> live_count rows" "0 \<le> live_count rows" by (simp_all add: live_count_def live_rows_def)
qed

lemma newer_Some: "\<exists>z. newer m t = Some z \<and> t \<le> z \<and> (\<forall>y. m = Some y \<longrightarrow> y \<le> z)"
  by (auto simp: newer_def split: option.splits)

lemma fold_newer:
  "fold (\<lambda>r m. newer m (rr_created r)) rows m = Some x \<Longrightarrow> (\<forall>r \<in> set rows. rr_created r \<le> x) \<and> (\<forall>y. m = Some y \<longrightarrow> y \<le> x)"
proof (induction rows arbitrary: m)
  case (Cons r rs)
  obtain z where z: "newer m (rr_created r) = Some z" "rr_created r \<le> z" "\<forall>y. m = Some y \<longrightarrow> y \<le> z"
    using newer_Some [of m "rr_created r"] by (elim exE conjE)
  have "(\<forall>r \<in> set rs. rr_created r \<le> x) \<and> z \<le> x" using Cons.IH [of "Some z"] Cons.prems z(1) by simp
  then show ?case using z(2,3) by auto
qed simp

lemma fold_newer_None: "fold (\<lambda>r m. newer m (rr_created r)) rows m = None \<longleftrightarrow> rows = [] \<and> m = None"
proof (induction rows arbitrary: m)
  case (Cons r rs)
  obtain z where "newer m (rr_created r) = Some z" using newer_Some [of m "rr_created r"] by (elim exE conjE)
  then show ?case using Cons by simp
qed simp

lemma newest_of_None: "newest_of rows = None \<longleftrightarrow> live_rows rows = []"
  by (simp add: newest_of_def fold_newer_None)

lemma covers_newest: "covers (newest_of rows) rows"
proof (cases "newest_of rows")
  case None
  then show ?thesis by (simp add: newest_of_None covers_def)
next
  case (Some x)
  then show ?thesis using fold_newer [of "live_rows rows" None x] by (simp add: newest_of_def covers_def)
qed

lemma live_count_zero: "live_count rows = 0 \<longleftrightarrow> live_rows rows = []"
  by (simp add: live_count_def)

section \<open>Writing\<close>

lemma keepNewer_cases: "keepNewer a b = None \<longleftrightarrow> a = None \<and> b = None"
  by (auto simp: keepNewer_def split: option.splits)

lemma covers_keepNewer:
  "covers a rows \<Longrightarrow> covers (keepNewer a b) rows" "covers b rows \<Longrightarrow> covers (keepNewer a b) rows"
  unfolding covers_def keepNewer_def by (fastforce split: option.splits)+

lemma covers_push:
  assumes "covers (keepNewer a b) rows"
  shows "covers (keepNewer (keepNewer a x) b) rows"
  using assms unfolding covers_def keepNewer_def by (fastforce split: option.splits if_splits)

definition calm :: "tc_calls \<Rightarrow> bool" where "calm n \<longleftrightarrow> (\<forall>c t. tc_before n c t = t)"

definition both_say :: "Parent \<Rightarrow> tc_tables \<Rightarrow> int \<Rightarrow> bool" where
  "both_say p t k \<longleftrightarrow> map_option pc_replies (tb_by_id t (pa_MessageID p)) = Some (Some k)
     \<and> map_option pc_replies (tb_by_room t (room_key_of p)) = Some (Some k)"

definition stored :: "Parent \<Rightarrow> tc_tables \<Rightarrow> parentCounts" where
  "stored p t = (case tb_by_id t (pa_MessageID p) of None \<Rightarrow> no_counts | Some c \<Rightarrow> c)"

lemmas write_defs = writeToBothRows_def write_by_id_def write_by_room_def put_counts_def

lemma write_replies: "writeToBothRows f p k x wt t = (e, t') \<Longrightarrow> tb_replies t' = tb_replies t"
  by (auto simp: write_defs split: batch_fate.splits if_splits)

lemma write_done:
  assumes "writeToBothRows f p k x wt t = (None, t')"
  shows "both_say p t' k" "pc_lastReplyAt (stored p t') = (if wt then x else pc_lastReplyAt (stored p t))" "pc_replies (stored p t') = Some k"
  using assms by (auto simp: write_defs both_say_def stored_def Let_def split: batch_fate.splits)

lemma saveCounts_success:
  assumes "saveCounts n p k x wt t = (Inr res, t')" "calm n"
  shows "re_Count res = k" "re_TLM res = x" "both_say p t' k" "pc_lastReplyAt (stored p t') = (if wt then x else pc_lastReplyAt (stored p t))"
  using assms write_done [of "tc_batch n CSave" p k x wt t t'] by (auto simp: saveCounts_def calm_def split: prod.splits option.splits)

lemma Reconcile_success:
  assumes "Reconcile n p pol t = (Inr res, t')" "calm n"
  shows "re_Count res = live_count (tb_replies t (pa_ThreadRoomID p))" "re_TLM res = newest_of (tb_replies t (pa_ThreadRoomID p))"
    "both_say p t' (re_Count res)" "pc_lastReplyAt (stored p t') = re_TLM res"
proof -
  let ?rows = "tb_replies t (pa_ThreadRoomID p)"
  have f: "tc_fail n CRecount = None" using assms by (auto simp: Reconcile_def countReplies_def Let_def split: option.splits)
  have t: "tc_before n c t = t" for c t using assms(2) by (simp add: calm_def)
  have "\<exists>w. writeToBothRows (tc_batch n CRecountSave) p (live_count ?rows) (newest_of ?rows) True t = (None, w) \<and> w = t'
      \<and> res = \<lparr>re_Count = live_count ?rows, re_TLM = newest_of ?rows\<rparr>"
    using assms(1) unfolding Reconcile_def Let_def t f countReplies_spec by (auto split: if_splits option.splits prod.splits)
  then show "re_Count res = live_count ?rows" "re_TLM res = newest_of ?rows" "both_say p t' (re_Count res)" "pc_lastReplyAt (stored p t') = re_TLM res"
    using write_done [of "tc_batch n CRecountSave" p "live_count ?rows" "newest_of ?rows" True t t'] by auto
qed

lemma Reconcile_failure:
  assumes "Reconcile n p pol t = (Inl e, t')" "calm n" "\<And>e b. tc_batch n CRecountSave \<noteq> Partial e True b"
  shows "stored p t' = stored p t" "tb_replies t' = tb_replies t"
proof -
  have t: "tc_before n c t = t" for c t using assms(2) by (simp add: calm_def)
  have "t' = t \<or> (\<exists>k x e b. t' = (if b then write_by_room p k x True else id) t)"
    using assms(1,3) unfolding Reconcile_def Let_def t writeToBothRows_def
    by (cases "tc_batch n CRecountSave") (auto split: sum.splits if_splits prod.splits)
  then show "stored p t' = stored p t" "tb_replies t' = tb_replies t" by (auto simp: stored_def write_by_room_def split: if_splits)
qed

section \<open>The routes\<close>

definition exact :: "Parent \<Rightarrow> reply_row list \<Rightarrow> Result \<Rightarrow> tc_tables \<Rightarrow> bool" where
  "exact p rows res t' \<longleftrightarrow> re_Count res = live_count rows \<and> both_say p t' (live_count rows)
     \<and> covers (re_TLM res) rows \<and> covers (pc_lastReplyAt (stored p t')) rows"

lemma change_exact:
  assumes "changeWithoutCounting n p saved change replyAt t = (Inr res, t')" "calm n"
    "pc_replies saved = Some (live_count rows - change)" "pc_lastReplyAt (stored p t) = pc_lastReplyAt saved"
    "covers (keepNewer (pc_lastReplyAt saved) replyAt) rows"
  shows "exact p rows res t'"
proof -
  have k: "plus_count (pc_replies saved) change = live_count rows" using assms(3) live_count_take(2) [of rows] by (simp add: plus_count_def)
  have "replyAt = None \<Longrightarrow> keepNewer (pc_lastReplyAt saved) replyAt = pc_lastReplyAt saved" by (simp add: keepNewer_def)
  then show ?thesis
    using saveCounts_success [OF assms(1) [unfolded changeWithoutCounting_def Let_def k] assms(2)] assms(4,5)
    unfolding exact_def by (cases replyAt) auto
qed

lemma count_exact:
  assumes "countFromReplies n p pol saved change replyAt t = (Inr res, t')" "calm n" "0 < po_ScanLimit pol"
    "rows = tb_replies t (pa_ThreadRoomID p)"
    "pc_replies saved = Some (live_count rows - change) \<or> pc_replies saved = None \<and> int (length rows) \<le> po_ScanLimit pol"
    "pc_lastReplyAt (stored p t) = pc_lastReplyAt saved" "covers (keepNewer (pc_lastReplyAt saved) replyAt) rows"
  shows "exact p rows res t'"
proof -
  have b: "tc_before n c t = t" for c t using assms(2) by (simp add: calm_def)
  have f: "tc_fail n CScan = None" using assms(1) by (auto simp: countFromReplies_def countReplies_def b Let_def split: option.splits)
  show ?thesis
  proof (cases "int (length rows) \<le> po_ScanLimit pol")
    case True
    then have "saveCounts n p (live_count rows) (keepNewer (newest_of rows) replyAt) True t = (Inr res, t')"
      using assms(1) by (simp add: countFromReplies_def b f countReplies_spec assms(4) Let_def)
    then show ?thesis using saveCounts_success [of n p "live_count rows" "keepNewer (newest_of rows) replyAt" True t res t'] assms(2)
        covers_keepNewer(1) [OF covers_newest] by (simp add: exact_def)
  next
    case False
    let ?head = "take (nat (po_ScanLimit pol)) rows"
    let ?last = "keepNewer (keepNewer (pc_lastReplyAt saved) (newest_of ?head)) replyAt"
    have s: "pc_replies saved = Some (live_count rows - change)" using assms(5) False by auto
    have k: "max (live_count ?head) (plus_count (pc_replies saved) change) = live_count rows"
      using live_count_take(1) [of "nat (po_ScanLimit pol)" rows] live_count_take(2) [of rows] s by (simp add: plus_count_def)
    have body: "countFromReplies n p pol saved change replyAt t = (if live_count rows = 0
         then (case Reconcile n p pol t of
                    (Inl e, t') \<Rightarrow> (Inl (Wrapf (''maintain thread '' @ pa_ThreadRoomID p @ '' count: refusing to save an unproven zero'') e), t')
                  | (Inr res, t') \<Rightarrow> (Inr res, t'))
         else saveCounts n p (live_count rows) ?last (?last \<noteq> None) t)"
      using assms(3) False by (simp add: countFromReplies_def b f countReplies_spec assms(4) [symmetric] k Let_def cong: if_cong)
    show ?thesis
    proof (cases "live_count rows = 0")
      case True
      then have "Reconcile n p pol t = (Inr res, t')" using body assms(1) by (auto split: prod.splits sum.splits)
      then show ?thesis using Reconcile_success [OF _ assms(2)] covers_newest assms(4) by (simp add: exact_def)
    next
      case nonempty: False
      have c: "covers ?last rows" by (rule covers_push [OF assms(7)])
      moreover have "?last \<noteq> None" using c nonempty by (auto simp: covers_def live_count_zero neq_Nil_conv)
      ultimately show ?thesis using saveCounts_success [of n p "live_count rows" ?last "?last \<noteq> None" t res t'] body nonempty assms(1,2)
        by (simp add: exact_def)
    qed
  qed
qed


section \<open>No thread is called empty without proof\<close>

definition time_of :: "parentCounts option \<Rightarrow> int option" where
  "time_of c = (case c of None \<Rightarrow> None | Some d \<Rightarrow> pc_lastReplyAt d)"

text \<open>A change of a copy is harmless when it does not make the count zero and does not clear the time.\<close>

definition harmless :: "parentCounts option \<Rightarrow> parentCounts option \<Rightarrow> bool" where
  "harmless c c' \<longleftrightarrow> (c' = c \<or> (\<exists>d k. c' = Some d \<and> pc_replies d = Some k \<and> k \<noteq> 0)) \<and> (time_of c \<noteq> None \<longrightarrow> time_of c' \<noteq> None)"

definition harmless_tables :: "Parent \<Rightarrow> tc_tables \<Rightarrow> tc_tables \<Rightarrow> bool" where
  "harmless_tables p t t' \<longleftrightarrow> harmless (tb_by_id t (pa_MessageID p)) (tb_by_id t' (pa_MessageID p))
     \<and> harmless (tb_by_room t (room_key_of p)) (tb_by_room t' (room_key_of p))"

lemma harmless_refl: "harmless_tables p t t"
  by (simp add: harmless_tables_def harmless_def)

lemma harmless_trans: "harmless_tables p a b \<Longrightarrow> harmless_tables p b c \<Longrightarrow> harmless_tables p a c"
  unfolding harmless_tables_def harmless_def by auto

lemma write_harmless:
  assumes "writeToBothRows f p k x wt t = (e, t')" "k \<noteq> 0" "wt \<longrightarrow> x \<noteq> None"
  shows "harmless_tables p t t'"
proof -
  have put: "harmless c (put_counts k x wt c)" for c
    using assms(2,3) by (auto simp: harmless_def put_counts_def time_of_def Let_def split: option.splits)
  have same: "harmless c c" for c by (simp add: harmless_def)
  show ?thesis using assms(1) put same
    by (cases f) (auto simp: writeToBothRows_def write_by_id_def write_by_room_def harmless_tables_def split: if_splits)
qed

lemma saveCounts_harmless:
  assumes "saveCounts n p k x wt t = (r, t')" "calm n" "k \<noteq> 0" "wt \<longrightarrow> x \<noteq> None"
  shows "harmless_tables p t t'" "r = Inr res \<Longrightarrow> re_Count res \<noteq> 0"
proof -
  obtain e w where w: "writeToBothRows (tc_batch n CSave) p k x wt t = (e, w)" by force
  have r: "(case e of Some e \<Rightarrow> (Inl (maintain_err p e), w) | None \<Rightarrow> (Inr \<lparr>re_Count = k, re_TLM = x\<rparr>, w)) = (r, t')"
    using assms(1,2) w by (simp add: saveCounts_def calm_def split: option.splits)
  then have "w = t'" by (cases e) auto
  then show "harmless_tables p t t'" using write_harmless [OF w assms(3,4)] by simp
  show "r = Inr res \<Longrightarrow> re_Count res \<noteq> 0" using r assms(3) by (cases e) auto
qed

lemma Reconcile_harmless:
  assumes "Reconcile n p pol t = (r, t')" "calm n" "live_rows (tb_replies t (pa_ThreadRoomID p)) \<noteq> []"
  shows "harmless_tables p t t'" "r = Inr res \<Longrightarrow> re_Count res \<noteq> 0"
proof -
  let ?rows = "tb_replies t (pa_ThreadRoomID p)"
  have b: "tc_before n c t = t" for c t using assms(2) by (simp add: calm_def)
  obtain e w where w: "writeToBothRows (tc_batch n CRecountSave) p (live_count ?rows) (newest_of ?rows) True t = (e, w)" by force
  have h: "harmless_tables p t w" by (rule write_harmless [OF w]) (use assms(3) in \<open>simp_all add: live_count_zero newest_of_None\<close>)
  have "t' = t \<or> t' = w"
    using assms(1) w by (cases "tc_fail n CRecount"; cases e) (auto simp: Reconcile_def b countReplies_spec countReplies_def [of "Some _"] Let_def split: if_splits)
  then show "harmless_tables p t t'" using h harmless_refl by auto
  show "r = Inr res \<Longrightarrow> re_Count res \<noteq> 0" using Reconcile_success(1) [OF _ assms(2), of p pol t res t'] assms(1,3) by (simp add: live_count_zero)
qed

lemma change_harmless:
  assumes "changeWithoutCounting n p saved change replyAt t = (r, t')" "calm n" "plus_count (pc_replies saved) change \<noteq> 0"
  shows "harmless_tables p t t'" "r = Inr res \<Longrightarrow> re_Count res \<noteq> 0"
  using saveCounts_harmless [OF assms(1) [unfolded changeWithoutCounting_def Let_def] assms(2,3)] by (auto simp: keepNewer_cases)

lemma count_harmless:
  assumes "countFromReplies n p pol saved change replyAt t = (r, t')" "calm n" "live_rows (tb_replies t (pa_ThreadRoomID p)) \<noteq> []"
  shows "harmless_tables p t t' \<and> (\<forall>res. r = Inr res \<longrightarrow> re_Count res \<noteq> 0)"
proof (cases "tc_fail n CScan")
  case (Some e)
  then show ?thesis using assms(1,2) harmless_refl by (auto simp: countFromReplies_def countReplies_def calm_def Let_def)
next
  case None
  let ?rows = "tb_replies t (pa_ThreadRoomID p)"
  have b: "tc_before n c t = t" for c t using assms(2) by (simp add: calm_def)
  show ?thesis
  proof (cases "po_ScanLimit pol \<le> 0 \<or> int (length ?rows) \<le> po_ScanLimit pol")
    case True
    then have "saveCounts n p (live_count ?rows) (keepNewer (newest_of ?rows) replyAt) True t = (r, t')"
      using assms(1) by (simp add: countFromReplies_def b None countReplies_spec Let_def)
    from saveCounts_harmless [OF this assms(2)] show ?thesis using assms(3) by (simp add: live_count_zero newest_of_None keepNewer_cases)
  next
    case False
    let ?head = "take (nat (po_ScanLimit pol)) ?rows"
    let ?k = "max (live_count ?head) (plus_count (pc_replies saved) change)"
    let ?last = "keepNewer (keepNewer (pc_lastReplyAt saved) (newest_of ?head)) replyAt"
    have body: "countFromReplies n p pol saved change replyAt t = (if ?k = 0
         then (case Reconcile n p pol t of
                    (Inl e, t') \<Rightarrow> (Inl (Wrapf (''maintain thread '' @ pa_ThreadRoomID p @ '' count: refusing to save an unproven zero'') e), t')
                  | (Inr res, t') \<Rightarrow> (Inr res, t'))
         else saveCounts n p ?k ?last (?last \<noteq> None) t)"
      using False by (simp add: countFromReplies_def b None countReplies_spec Let_def cong: if_cong)
    obtain r' t1 where rc: "Reconcile n p pol t = (r', t1)" by force
    show ?thesis
    proof (cases "?k = 0")
      case True
      then show ?thesis using Reconcile_harmless [OF rc assms(2,3)] body rc assms(1) by (cases r') auto
    next
      case nz: False
      then have "saveCounts n p ?k ?last (?last \<noteq> None) t = (r, t')" using body assms(1) by simp
      from saveCounts_harmless [OF this assms(2) nz] show ?thesis by simp
    qed
  qed
qed


section \<open>Retries\<close>

lemma count_success:
  assumes "countFromReplies n p pol saved change replyAt t = (Inr res, t')" "calm n" "rows = tb_replies t (pa_ThreadRoomID p)"
  shows "both_say p t' (re_Count res)" "re_Count res \<le> max (live_count rows) (plus_count (pc_replies saved) change)"
    "int (length rows) \<le> po_ScanLimit pol \<Longrightarrow> re_Count res = live_count rows"
proof -
  have b: "tc_before n c t = t" for c t using assms(2) by (simp add: calm_def)
  have f: "tc_fail n CScan = None" using assms(1) by (auto simp: countFromReplies_def countReplies_def b Let_def split: option.splits)
  let ?head = "take (nat (po_ScanLimit pol)) rows"
  let ?k = "max (live_count ?head) (plus_count (pc_replies saved) change)"
  let ?last = "keepNewer (keepNewer (pc_lastReplyAt saved) (newest_of ?head)) replyAt"
  have body: "countFromReplies n p pol saved change replyAt t =
     (if po_ScanLimit pol \<le> 0 \<or> int (length rows) \<le> po_ScanLimit pol then saveCounts n p (live_count rows) (keepNewer (newest_of rows) replyAt) True t
      else if ?k = 0
         then (case Reconcile n p pol t of
                    (Inl e, t') \<Rightarrow> (Inl (Wrapf (''maintain thread '' @ pa_ThreadRoomID p @ '' count: refusing to save an unproven zero'') e), t')
                  | (Inr res, t') \<Rightarrow> (Inr res, t'))
         else saveCounts n p ?k ?last (?last \<noteq> None) t)"
    by (simp add: countFromReplies_def b f countReplies_spec assms(3) Let_def cong: if_cong)
  consider (all) "po_ScanLimit pol \<le> 0 \<or> int (length rows) \<le> po_ScanLimit pol" "saveCounts n p (live_count rows) (keepNewer (newest_of rows) replyAt) True t = (Inr res, t')"
    | (recount) "\<not> int (length rows) \<le> po_ScanLimit pol" "Reconcile n p pol t = (Inr res, t')"
    | (raise) "\<not> int (length rows) \<le> po_ScanLimit pol" "saveCounts n p ?k ?last (?last \<noteq> None) t = (Inr res, t')"
    using assms(1) unfolding body by (auto split: if_splits prod.splits sum.splits)
  then have "both_say p t' (re_Count res) \<and> re_Count res \<le> max (live_count rows) (plus_count (pc_replies saved) change)
    \<and> (int (length rows) \<le> po_ScanLimit pol \<longrightarrow> re_Count res = live_count rows)"
  proof cases
    case all
    then show ?thesis using saveCounts_success [OF all(2) assms(2)] by simp
  next
    case recount
    then show ?thesis using Reconcile_success [OF recount(2) assms(2)] assms(3) by simp
  next
    case raise
    then show ?thesis using saveCounts_success [OF raise(2) assms(2)] live_count_take(1) [of "nat (po_ScanLimit pol)" rows] by auto
  qed
  then show "both_say p t' (re_Count res)" "re_Count res \<le> max (live_count rows) (plus_count (pc_replies saved) change)"
    "int (length rows) \<le> po_ScanLimit pol \<Longrightarrow> re_Count res = live_count rows" by simp_all
qed

text \<open>C25: A retry repairs a half-written batch and counts nothing twice. Whatever an earlier attempt left behind, a
  successful retry leaves both copies with the same count; that is the true count when the thread fits one
  read, exactly the first copy's number when that is past the scan limit, and never more than the larger of
  that number and the true count.\<close>

theorem retry_repairs_without_recounting:
  assumes "calm n" "0 < po_ScanLimit pol" "Maintain n p pol change replyAt True t = (Inr res, t')" "rows = tb_replies t (pa_ThreadRoomID p)"
    "pc_replies (stored p t) = Some k"
  shows "both_say p t' (re_Count res) \<and> re_Count res \<le> max k (live_count rows)
    \<and> (po_ScanLimit pol \<le> k \<longrightarrow> re_Count res = k)
    \<and> (k < po_ScanLimit pol \<and> int (length rows) \<le> po_ScanLimit pol \<longrightarrow> re_Count res = live_count rows)"
proof -
  have b: "tc_before n c t = t" for c t using assms(1) by (simp add: calm_def)
  have "tc_fail n CRead = None" using assms(3) by (auto simp: Maintain_def readCounts_def b Let_def split: option.splits)
  then have rd: "readCounts (tc_fail n CRead) t (pa_MessageID p) = Inr (stored p t)" by (simp add: readCounts_def stored_def)
  note M = assms(3) [unfolded Maintain_def Let_def b rd]
  show ?thesis
  proof (cases "k < po_ScanLimit pol")
    case True
    then have "countFromReplies n p pol (stored p t) 0 replyAt t = (Inr res, t')" using M assms(5) by (simp add: shortEnough_def)
    note c = count_success [OF this assms(1,4)]
    have "plus_count (pc_replies (stored p t)) 0 \<le> max k (live_count rows)" using assms(5) live_count_take(2) [of rows] by (simp add: plus_count_def)
    then show ?thesis using c True by auto
  next
    case False
    then have "saveCounts n p k (keepNewer (pc_lastReplyAt (stored p t)) replyAt) (replyAt \<noteq> None) t = (Inr res, t')"
      using M assms(2,5) by (simp add: shortEnough_def changeWithoutCounting_def plus_count_def Let_def)
    then show ?thesis using saveCounts_success [OF _ assms(1)] False by auto
  qed
qed

text \<open>A recount that fails half way counts its reply twice. When the recount reads the whole thread but the
  batch that saves it fails after having written the first copy, the number read back already includes the
  reply being recorded, and it is moved by the change once more, so the saved count is wrong by one, in the
  same run that had just established the right one.\<close>

theorem failed_recount_counts_twice:
  assumes "calm n" "tc_fail n CRead = None" "tc_fail n CRecount = None" "tc_fail n CReread = None"
    "\<not> shortEnough (stored p t) (po_ScanLimit pol)" "ShouldReanchor (tc_draw n) (the (pc_replies (stored p t))) (po_ReanchorBudget pol)"
    "rows = tb_replies t (pa_ThreadRoomID p)" "int (length rows) \<le> po_ReconcileRowLimit pol" "0 < live_count rows"
    "tc_batch n CRecountSave = Partial e True b" "tc_batch n CSave = Done" "-1 \<le> change"
  shows "\<exists>res t'. Maintain n p pol change replyAt False t = (Inr res, t') \<and> both_say p t' (live_count rows + change)"
proof -
  have bf: "tc_before n c t = t" for c t using assms(1) by (simp add: calm_def)
  have rd: "readCounts (tc_fail n CRead) t (pa_MessageID p) = Inr (stored p t)" by (simp add: readCounts_def stored_def assms(2))
  define t1 where "t1 = (if b then write_by_room p (live_count rows) (newest_of rows) True else id) (write_by_id p (live_count rows) (newest_of rows) True t)"
  have rc: "\<exists>e'. Reconcile n p pol t = (Inl e', t1)"
    unfolding t1_def using assms(3,7,8,10) by (auto simp: Reconcile_def bf countReplies_spec writeToBothRows_def Let_def)
  have st: "tb_by_id t1 (pa_MessageID p) = Some \<lparr>pc_replies = Some (live_count rows), pc_lastReplyAt = newest_of rows\<rparr>"
    by (simp add: t1_def write_by_id_def write_by_room_def put_counts_def Let_def)
  have re: "rereadCounts (tc_fail n CReread) t1 (pa_MessageID p) (stored p t) = \<lparr>pc_replies = Some (live_count rows), pc_lastReplyAt = newest_of rows\<rparr>"
    unfolding rereadCounts_def readCounts_def assms(4) st by simp
  have k: "plus_count (Some (live_count rows)) change = live_count rows + change" using assms(9,12) by (simp add: plus_count_def)
  let ?x = "keepNewer (newest_of rows) replyAt"
  obtain t' where w: "writeToBothRows Done p (live_count rows + change) ?x (replyAt \<noteq> None) t1 = (None, t')" by (simp add: writeToBothRows_def)
  have "Maintain n p pol change replyAt False t = (Inr \<lparr>re_Count = live_count rows + change, re_TLM = ?x\<rparr>, t')"
    using rc assms(5,6,11) w unfolding Maintain_def Let_def bf rd by (auto simp: bf re changeWithoutCounting_def k saveCounts_def Let_def)
  then show ?thesis using write_done(1) [OF w] by blast
qed

section \<open>Concrete threads\<close>

definition demo_parent :: Parent where
  "demo_parent = NewParent ''m1'' ''r1'' ''t1'' 5000 \<lparr>windowMs = 1000\<rparr>"

definition demo_rows :: "reply_row list" where
  "demo_rows = [\<lparr>rr_deleted = False, rr_created = 9000\<rparr>, \<lparr>rr_deleted = True, rr_created = 8000\<rparr>, \<lparr>rr_deleted = False, rr_created = 7000\<rparr>]"

definition demo_tables :: "int \<Rightarrow> tc_tables" where
  "demo_tables k = \<lparr>tb_replies = (\<lambda>_. demo_rows), tb_by_id = [''m1'' \<mapsto> \<lparr>pc_replies = Some k, pc_lastReplyAt = Some 7000\<rparr>], tb_by_room = Map.empty\<rparr>"

definition demo_tc :: "batch_fate \<Rightarrow> tc_calls" where
  "demo_tc f = \<lparr>tc_fail = \<lambda>_. None, tc_batch = (\<lambda>_. Done)(CRecountSave := f), tc_before = \<lambda>_ t. t, tc_draw = \<lambda>_. 0\<rparr>"

definition demo_policy :: "int \<Rightarrow> Policy" where
  "demo_policy limit = \<lparr>po_ScanLimit = limit, po_ReanchorBudget = 0, po_ReconcileRowLimit = 0\<rparr>"

lemma demo_facts: "calm (demo_tc f)" "live_count demo_rows = 2" "stored demo_parent (demo_tables k) = \<lparr>pc_replies = Some k, pc_lastReplyAt = Some 7000\<rparr>"
  "tb_replies (demo_tables k) x = demo_rows" "live_rows demo_rows \<noteq> []"
  by (simp_all add: calm_def demo_tc_def live_count_def live_rows_def demo_rows_def stored_def demo_tables_def demo_parent_def NewParent_def)



theorem retry_repairs_without_recounting_witness:
  "\<exists>res t'. Maintain (demo_tc Done) demo_parent (demo_policy 5) 1 (Some 9000) True (demo_tables 1) = (Inr res, t')
    \<and> both_say demo_parent t' (re_Count res) \<and> re_Count res = 2"
proof -
  obtain res t' where m: "Maintain (demo_tc Done) demo_parent (demo_policy 5) 1 (Some 9000) True (demo_tables 1) = (Inr res, t')"
    by (auto simp: Maintain_def demo_tc_def readCounts_def shortEnough_def demo_policy_def countFromReplies_def countReplies_spec
        saveCounts_def writeToBothRows_def demo_tables_def demo_parent_def NewParent_def demo_rows_def)
  have "both_say demo_parent t' (re_Count res) \<and> re_Count res \<le> max 1 (live_count demo_rows)
    \<and> (po_ScanLimit (demo_policy 5) \<le> 1 \<longrightarrow> re_Count res = 1)
    \<and> (1 < po_ScanLimit (demo_policy 5) \<and> int (length demo_rows) \<le> po_ScanLimit (demo_policy 5) \<longrightarrow> re_Count res = live_count demo_rows)"
    by (rule retry_repairs_without_recounting [OF demo_facts(1) _ m]) (simp_all add: demo_facts demo_policy_def)
  moreover have "length demo_rows = 3" by (simp add: demo_rows_def)
  ultimately show ?thesis using m by (auto simp: demo_facts demo_policy_def)
qed

theorem failed_recount_counts_twice_witness:
  "live_count demo_rows = 2 \<and> (\<exists>res t'. Maintain (demo_tc (Partial (Raw ''timeout'') True False)) demo_parent
      \<lparr>po_ScanLimit = 1, po_ReanchorBudget = 1, po_ReconcileRowLimit = 10\<rparr> 1 (Some 9000) False (demo_tables 1) = (Inr res, t') \<and> both_say demo_parent t' 3)"
  using failed_recount_counts_twice [where n = "demo_tc (Partial (Raw ''timeout'') True False)" and p = demo_parent and t = "demo_tables 1" and change = 1
      and pol = "\<lparr>po_ScanLimit = 1, po_ReanchorBudget = 1, po_ReconcileRowLimit = 10\<rparr>" and rows = demo_rows and replyAt = "Some 9000"]
    demo_facts by (auto simp: demo_tc_def shortEnough_def ShouldReanchor_def demo_rows_def)

end
