(* ===== verification/Hist_Degrade.thy ===== *)
theory Hist_Degrade
  imports Js_Retry
begin

text \<open>
  The site's \<open>history degraded\<close> marker: the shared record in MongoDB (\<open>src/pkg/histdegrade/histdegrade.go\<close>) and
  the tracker every message-worker pod keeps of it (\<open>src/message-worker/degrade.go\<close>). The tracker is shared by
  the pod's workers and guarded by a lock that is released around every call, so each critical section is a
  definition of its own; the operations compose them, and a step relation interleaves the sections of any number
  of calls in any number of pods. Clock readings are nanoseconds; a zero \<open>time.Time\<close> is \<open>None\<close>.
\<close>

section \<open>The shared marker\<close>

record Marker =
  mk_SiteID :: string
  mk_DegradedSince :: int
  mk_UpdatedAt :: int

type_synonym marker_store = "string \<rightharpoonup> Marker"

definition hd_Set :: "string \<Rightarrow> int \<Rightarrow> marker_store \<Rightarrow> marker_store" where
  "hd_Set siteID sinceMillis st = st(siteID \<mapsto>
     (case st siteID of
        None \<Rightarrow> \<lparr>mk_SiteID = siteID, mk_DegradedSince = sinceMillis, mk_UpdatedAt = sinceMillis\<rparr>
      | Some m \<Rightarrow> m\<lparr>mk_UpdatedAt := sinceMillis\<rparr>))"

definition hd_Clear :: "string \<Rightarrow> marker_store \<Rightarrow> marker_store" where
  "hd_Clear siteID st = st(siteID := None)"

definition hd_Get :: "string \<Rightarrow> marker_store \<Rightarrow> Marker option" where
  "hd_Get siteID st = st siteID"

text \<open>The reader history-service puts in front of the store: \<open>cached\<close> is what its cache answers, \<open>recheck\<close> what the
  same cache answers inside the shared flight, \<open>get\<close> the store. The result comes with the entry the cache gains.\<close>

datatype reader_err = ReadFailed string | CtxDone

definition DegradedSince ::
  "int option option \<Rightarrow> bool \<Rightarrow> int option option \<Rightarrow> (string + Marker option) \<Rightarrow> (reader_err + int option) \<times> int option option" where
  "DegradedSince cached cancelled recheck get =
     (case cached of
        Some v \<Rightarrow> (Inr v, None)
      | None \<Rightarrow>
          (let (res, added) =
             (case recheck of
                Some v \<Rightarrow> (Inr v, None)
              | None \<Rightarrow> (case get of
                    Inl e \<Rightarrow> (Inl (ReadFailed e), None)
                  | Inr marker \<Rightarrow> (Inr (map_option mk_DegradedSince marker), Some (map_option mk_DegradedSince marker))))
           in (if cancelled then Inl CtxDone else res, added)))"

section \<open>The tracker\<close>

record degradeTracker =
  dt_degraded :: bool
  dt_firstFailureSince :: "int option"
  dt_markerSynced :: bool
  dt_lastBacklogAt :: "int option"
  dt_drainTailSince :: "int option"

definition newDegradeTracker :: degradeTracker where
  "newDegradeTracker = \<lparr>dt_degraded = False, dt_firstFailureSince = None, dt_markerSynced = False,
     dt_lastBacklogAt = None, dt_drainTailSince = None\<rparr>"

definition backlogCheckInterval :: int where "backlogCheckInterval = 5 * Second"
definition minDrainTailGrace :: int where "minDrainTailGrace = 5 * Minute"

definition deriveDrainTailGrace :: "int list \<Rightarrow> int" where
  "deriveDrainTailGrace backoff =
     (if backoff = [] then minDrainTailGrace
      else if 2 * last backoff > minDrainTailGrace then 2 * last backoff else minDrainTailGrace)"

definition drainTailGrace :: int where "drainTailGrace = deriveDrainTailGrace DefaultBackoff"

definition markLocked :: "bool \<Rightarrow> degradeTracker \<Rightarrow> degradeTracker" where
  "markLocked degraded t =
     (let t' = t\<lparr>dt_degraded := degraded\<rparr> in if \<not> degraded then t'\<lparr>dt_drainTailSince := None\<rparr> else t')"

definition setSynced :: "bool \<Rightarrow> degradeTracker \<Rightarrow> degradeTracker" where
  "setSynced degraded t = (markLocked degraded t)\<lparr>dt_markerSynced := True\<rparr>"

text \<open>\<open>OnWriteFailure\<close>: the first section decides whether the marker is to be written and with which time; the
  second runs when that write succeeded and says whether it has to be undone.\<close>

definition fail_lock :: "int \<Rightarrow> int \<Rightarrow> degradeTracker \<Rightarrow> degradeTracker \<times> int option" where
  "fail_lock markDelay now t =
     (let first = (case dt_firstFailureSince t of None \<Rightarrow> now | Some f \<Rightarrow> f);
          t1 = t\<lparr>dt_firstFailureSince := Some first\<rparr> in
      if \<not> dt_degraded t1 \<and> now - first < markDelay then (t1\<lparr>dt_drainTailSince := None\<rparr>, None)
      else let skipWrite = dt_degraded t1 \<and> dt_markerSynced t1;
               t2 = (markLocked True t1)\<lparr>dt_drainTailSince := None\<rparr>;
               t3 = (if \<not> skipWrite then t2\<lparr>dt_markerSynced := False\<rparr> else t2) in
           (t3, if skipWrite then None else Some (first div Millisecond)))"

definition fail_done :: "degradeTracker \<Rightarrow> degradeTracker \<times> bool" where
  "fail_done t = (if \<not> dt_degraded t then (t, True) else (t\<lparr>dt_markerSynced := True\<rparr>, False))"

text \<open>\<open>OnWriteSuccess\<close>: the read under the shared lock, the retired clock, the throttle and the drain grace.\<close>

definition ok_read :: "degradeTracker \<Rightarrow> bool \<times> bool" where
  "ok_read t = (dt_degraded t, dt_firstFailureSince t \<noteq> None)"

definition ok_retire :: "degradeTracker \<Rightarrow> degradeTracker" where
  "ok_retire t = t\<lparr>dt_firstFailureSince := None\<rparr>"

definition ok_throttle :: "int \<Rightarrow> degradeTracker \<Rightarrow> degradeTracker \<times> bool" where
  "ok_throttle now t =
     (case dt_lastBacklogAt t of
        Some l \<Rightarrow> if now - l < backlogCheckInterval then (t, False) else (t\<lparr>dt_lastBacklogAt := Some now\<rparr>, True)
      | None \<Rightarrow> (t\<lparr>dt_lastBacklogAt := Some now\<rparr>, True))"

definition drainTailGraceElapsed :: "int \<Rightarrow> degradeTracker \<Rightarrow> degradeTracker \<times> bool" where
  "drainTailGraceElapsed now t =
     (case dt_drainTailSince t of
        None \<Rightarrow> (t\<lparr>dt_drainTailSince := Some now\<rparr>, False)
      | Some s \<Rightarrow> (t, now - s \<ge> drainTailGrace))"

text \<open>\<open>Refresh\<close>: the guard, which is checked before and after the read, and the adoption of what was read.\<close>

definition unsynced :: "degradeTracker \<Rightarrow> bool" where
  "unsynced t \<longleftrightarrow> dt_degraded t \<and> \<not> dt_markerSynced t"

definition refresh_apply :: "bool \<Rightarrow> degradeTracker \<Rightarrow> degradeTracker" where
  "refresh_apply found t = (if unsynced t then t else setSynced found t)"

section \<open>The operations, run without interruption\<close>

text \<open>A call of the store succeeds, fails without effect, or fails after its effect.\<close>

datatype call_fate = Landed | Lost | Ambiguous

definition lands :: "call_fate \<Rightarrow> bool" where "lands f \<longleftrightarrow> f \<noteq> Lost"

definition OnWriteFailure ::
  "int \<Rightarrow> string \<Rightarrow> int \<Rightarrow> call_fate \<Rightarrow> call_fate \<Rightarrow> degradeTracker \<times> marker_store \<Rightarrow> degradeTracker \<times> marker_store" where
  "OnWriteFailure markDelay siteID now set_fate clear_fate s =
     (case s of (t, st) \<Rightarrow>
      (case fail_lock markDelay now t of
         (t1, None) \<Rightarrow> (t1, st)
       | (t1, Some since) \<Rightarrow>
           (let st1 = (if lands set_fate then hd_Set siteID since st else st) in
            if set_fate \<noteq> Landed then (t1, st1)
            else (case fail_done t1 of
                (t2, undo) \<Rightarrow> (t2, if undo \<and> lands clear_fate then hd_Clear siteID st1 else st1)))))"

text \<open>The backlog is the pair of undelivered and unacknowledged counts, or an error.\<close>

definition OnWriteSuccess ::
  "string \<Rightarrow> int \<Rightarrow> (nat \<times> nat) option \<Rightarrow> call_fate \<Rightarrow> degradeTracker \<times> marker_store \<Rightarrow> degradeTracker \<times> marker_store" where
  "OnWriteSuccess siteID now backlog clear_fate s =
     (case s of (t0, st) \<Rightarrow>
      (case ok_read t0 of (degraded, pendingDebounce) \<Rightarrow>
       (let t = (if pendingDebounce then ok_retire t0 else t0) in
        if \<not> degraded then (t, st)
        else (case ok_throttle now t of
            (t1, False) \<Rightarrow> (t1, st)
          | (t1, True) \<Rightarrow>
              (case backlog of
                 None \<Rightarrow> (t1, st)
               | Some (pending, ackPending) \<Rightarrow>
                   if pending > 0 then (t1, st)
                   else (case (if ackPending > 0 then drainTailGraceElapsed now t1 else (t1, True)) of
                       (t2, False) \<Rightarrow> (t2, st)
                     | (t2, True) \<Rightarrow>
                         (let st1 = (if lands clear_fate then hd_Clear siteID st else st) in
                          if clear_fate \<noteq> Landed then (t2, st1) else (setSynced False t2, st1))))))))"

definition Refresh :: "string \<Rightarrow> bool \<Rightarrow> degradeTracker \<times> marker_store \<Rightarrow> degradeTracker \<times> marker_store" where
  "Refresh siteID get_ok s =
     (case s of (t, st) \<Rightarrow>
        if unsynced t then (t, st)
        else if \<not> get_ok then (t, st)
        else (refresh_apply (hd_Get siteID st \<noteq> None) t, st))"

end
