(* ===== verification/Degrade_Steps.thy ===== *)
theory Degrade_Steps
  imports Hist_Degrade
begin

text \<open>
  The trackers of all pods at once (\<open>src/message-worker/degrade.go\<close>). A task is a call that has released the lock
  and has a section or a store call still to do; any number of tasks of any pod may be under way, and each of
  their remaining pieces runs alone. The log records the write failures a pod was told of and the decisions to
  remove the marker.
\<close>

section \<open>The machine\<close>

text \<open>The pieces, in the order the code has them: \<open>OnWriteFailure\<close> (the section after the clock was read, the write of the marker,
  the second section, the removal of a marker that came back after a recovery), \<open>OnWriteSuccess\<close> (the read, the retired clock
  with the health that was read, the clock, the throttle, the backlog, the grace, the removal, the section after it) and \<open>Refresh\<close>.\<close>

datatype task =
    FailLock int
  | FailSet int
  | FailDone
  | FailUndo
  | OkRead
  | OkRetire bool
  | OkNow
  | OkThrottle int
  | OkBacklog int
  | OkGrace int nat
  | OkClear
  | OkSynced
  | RefRead
  | RefGet
  | RefApply bool

text \<open>What the outside answers: the clock, the fate of a store call, the backlog.\<close>

record h_answer =
  an_now :: int
  an_fate :: call_fate
  an_backlog :: "(nat \<times> nat) option"

text \<open>What a piece records: a failure report with its clock reading; the decision to write the marker with its time and whether the
  pod was healthy; the end of a run of failures; the start of the drain tail; the decision to remove the marker, with the clock
  reading and the count of unacknowledged messages it was taken on.\<close>

datatype log_note = Failed int | Marked int bool | Retired | Tail int | Decided int nat

fun run_task ::
  "int \<Rightarrow> string \<Rightarrow> h_answer \<Rightarrow> task \<Rightarrow> degradeTracker \<times> marker_store \<Rightarrow> (degradeTracker \<times> marker_store) \<times> task option \<times> log_note list" where
  "run_task markDelay siteID a (FailLock now) (t, st) =
     (case fail_lock markDelay now t of (t1, since) \<Rightarrow>
        ((t1, st), map_option FailSet since,
         Failed now # (case since of None \<Rightarrow> [] | Some ms \<Rightarrow> [Marked ms (\<not> dt_degraded t)])))"
| "run_task markDelay siteID a (FailSet since) (t, st) =
     ((t, if lands (an_fate a) then hd_Set siteID since st else st),
      if an_fate a = Landed then Some FailDone else None, [])"
| "run_task markDelay siteID a FailDone (t, st) =
     (case fail_done t of (t1, undo) \<Rightarrow> ((t1, st), if undo then Some FailUndo else None, []))"
| "run_task markDelay siteID a FailUndo (t, st) =
     ((t, if lands (an_fate a) then hd_Clear siteID st else st), None, [])"
| "run_task markDelay siteID a OkRead (t, st) =
     (case ok_read t of (degraded, pendingDebounce) \<Rightarrow>
        ((t, st), if pendingDebounce then Some (OkRetire degraded) else if degraded then Some OkNow else None, []))"
| "run_task markDelay siteID a (OkRetire degraded) (t, st) =
     ((ok_retire t, st), if degraded then Some OkNow else None, [Retired])"
| "run_task markDelay siteID a OkNow (t, st) = ((t, st), Some (OkThrottle (an_now a)), [])"
| "run_task markDelay siteID a (OkThrottle now) (t, st) =
     (case ok_throttle now t of (t1, go_on) \<Rightarrow> ((t1, st), if go_on then Some (OkBacklog now) else None, []))"
| "run_task markDelay siteID a (OkBacklog now) (t, st) =
     (case an_backlog a of
        None \<Rightarrow> ((t, st), None, [])
      | Some (pending, ackPending) \<Rightarrow>
          if pending > 0 then ((t, st), None, [])
          else if ackPending > 0 then ((t, st), Some (OkGrace now ackPending), [])
          else ((t, st), Some OkClear, [Decided now 0]))"
| "run_task markDelay siteID a (OkGrace now ackPending) (t, st) =
     (case drainTailGraceElapsed now t of (t1, elapsed) \<Rightarrow>
        ((t1, st), if elapsed then Some OkClear else None,
         if elapsed then [Decided now ackPending] else if dt_drainTailSince t = None then [Tail now] else []))"
| "run_task markDelay siteID a OkClear (t, st) =
     ((t, if lands (an_fate a) then hd_Clear siteID st else st),
      if an_fate a = Landed then Some OkSynced else None, [])"
| "run_task markDelay siteID a OkSynced (t, st) = ((setSynced False t, st), None, [])"
| "run_task markDelay siteID a RefRead (t, st) = ((t, st), if unsynced t then None else Some RefGet, [])"
| "run_task markDelay siteID a RefGet (t, st) =
     ((t, st), if an_fate a = Landed then Some (RefApply (hd_Get siteID st \<noteq> None)) else None, [])"
| "run_task markDelay siteID a (RefApply found) (t, st) = ((refresh_apply found t, st), None, [])"

record hsys =
  hs_clock :: int
  hs_store :: marker_store
  hs_pod :: "nat \<Rightarrow> degradeTracker"
  hs_tasks :: "(nat \<times> task) list"
  hs_log :: "(nat \<times> log_note) list"

definition start_op :: "task \<Rightarrow> int \<Rightarrow> bool" where
  "start_op k now \<longleftrightarrow> k = FailLock now \<or> k = OkRead \<or> k = RefRead"

inductive h_step :: "int \<Rightarrow> string \<Rightarrow> hsys \<Rightarrow> hsys \<Rightarrow> bool" for markDelay siteID where
  h_tick: "0 \<le> d \<Longrightarrow> h_step markDelay siteID s (s\<lparr>hs_clock := hs_clock s + d\<rparr>)"
| h_start: "start_op k (hs_clock s) \<Longrightarrow>
    h_step markDelay siteID s (s\<lparr>hs_tasks := hs_tasks s @ [(p, k)]\<rparr>)"
| h_run: "hs_tasks s = xs @ (p, k) # ys \<Longrightarrow> an_now a = hs_clock s \<Longrightarrow>
    run_task markDelay siteID a k (hs_pod s p, hs_store s) = ((t, st), next, notes) \<Longrightarrow>
    h_step markDelay siteID s
      (s\<lparr>hs_store := st, hs_pod := (hs_pod s)(p := t),
         hs_tasks := xs @ (case next of None \<Rightarrow> [] | Some k' \<Rightarrow> [(p, k')]) @ ys,
         hs_log := hs_log s @ map (Pair p) notes\<rparr>)"

inductive_cases h_stepE: "h_step markDelay siteID s s'"

definition h_init :: "int \<Rightarrow> hsys \<Rightarrow> bool" where
  "h_init now s \<longleftrightarrow> hs_clock s = now \<and> hs_pod s = (\<lambda>_. newDegradeTracker) \<and> hs_tasks s = [] \<and> hs_log s = []"

inductive h_reach :: "int \<Rightarrow> string \<Rightarrow> hsys \<Rightarrow> bool" for markDelay siteID where
  h_start0: "h_init now s \<Longrightarrow> h_reach markDelay siteID s"
| h_next: "h_reach markDelay siteID s \<Longrightarrow> h_step markDelay siteID s s' \<Longrightarrow> h_reach markDelay siteID s'"

section \<open>The operations are runs of the machine\<close>

text \<open>A call run without interruption: its pieces one after the other, with the answers in turn.\<close>

fun run_all :: "int \<Rightarrow> string \<Rightarrow> h_answer list \<Rightarrow> task \<Rightarrow> degradeTracker \<times> marker_store \<Rightarrow> degradeTracker \<times> marker_store" where
  "run_all markDelay siteID [] k s = s"
| "run_all markDelay siteID (a # as) k s =
     (case run_task markDelay siteID a k s of
        (s', None, _) \<Rightarrow> s'
      | (s', Some k', _) \<Rightarrow> run_all markDelay siteID as k' s')"

lemmas tracker_defs = fail_lock_def fail_done_def ok_read_def ok_retire_def ok_throttle_def drainTailGraceElapsed_def
  refresh_apply_def setSynced_def markLocked_def unsynced_def

section \<open>What the log records\<close>

text \<open>The failures of a pod since it last saw a write succeed.\<close>

fun run_of :: "nat \<Rightarrow> (nat \<times> log_note) list \<Rightarrow> int list \<Rightarrow> int list" where
  "run_of p [] acc = acc"
| "run_of p ((q, n) # l) acc =
     run_of p l (if q \<noteq> p then acc else case n of Failed t \<Rightarrow> acc @ [t] | Retired \<Rightarrow> [] | _ \<Rightarrow> acc)"

definition head :: "'a list \<Rightarrow> 'a option" where
  "head xs = (case xs of [] \<Rightarrow> None | x # _ \<Rightarrow> Some x)"

text \<open>The drain tail of a pod started at a reading, and no failure was reported to the pod since.\<close>

definition tail_from :: "nat \<Rightarrow> int \<Rightarrow> (nat \<times> log_note) list \<Rightarrow> bool" where
  "tail_from p x l \<longleftrightarrow> (\<exists>pre post. l = pre @ (p, Tail x) # post \<and> (\<forall>t. (p, Failed t) \<notin> set post))"

text \<open>What came before a note justifies it; and every note of the log was justified.\<close>

definition note_ok :: "int \<Rightarrow> (nat \<times> log_note) list \<Rightarrow> nat \<Rightarrow> log_note \<Rightarrow> bool" where
  "note_ok markDelay pre p n =
     (case n of
        Marked ms fresh \<Rightarrow> \<exists>f fs. run_of p pre [] = f # fs \<and> ms = f div Millisecond
                             \<and> (fresh \<longrightarrow> markDelay \<le> last (f # fs) - f)
      | Decided now ackPending \<Rightarrow> ackPending = 0 \<or> (\<exists>x. tail_from p x pre \<and> x + drainTailGrace \<le> now)
      | _ \<Rightarrow> True)"

definition justified :: "int \<Rightarrow> (nat \<times> log_note) list \<Rightarrow> bool" where
  "justified markDelay l \<longleftrightarrow> (\<forall>pre p n post. l = pre @ (p, n) # post \<longrightarrow> note_ok markDelay pre p n)"

lemma run_of_append: "run_of p (l @ l') acc = run_of p l' (run_of p l acc)"
  by (induction p l acc rule: run_of.induct) auto

lemma run_of_other: "q \<noteq> p \<Longrightarrow> run_of p (map (Pair q) ns) acc = acc"
  by (induction ns) auto

lemma tail_from_append:
  "tail_from p x l \<Longrightarrow> \<forall>t. (p, Failed t) \<notin> set l' \<Longrightarrow> tail_from p x (l @ l')"
  by (auto simp: tail_from_def) (metis Un_iff append_Cons append_assoc set_append)

lemma tail_from_new: "tail_from p x (l @ [(p, Tail x)])"
  unfolding tail_from_def by (rule exI [of _ l], rule exI [of _ "[]"]) simp

lemma justified_snoc:
  assumes "justified md l" "note_ok md l p n"
  shows "justified md (l @ [(p, n)])"
proof -
  have "note_ok md pre q m" if "l @ [(p, n)] = pre @ (q, m) # post" for pre q m post
  proof (cases post rule: rev_cases)
    case Nil
    then show ?thesis using that assms(2) by simp
  next
    case (snoc post' z)
    then have "l = pre @ (q, m) # post'" using that by simp
    then show ?thesis using assms(1) unfolding justified_def by blast
  qed
  then show ?thesis unfolding justified_def by blast
qed

section \<open>The invariant\<close>

definition pod_inv :: "nat \<Rightarrow> (nat \<times> log_note) list \<Rightarrow> degradeTracker \<Rightarrow> bool" where
  "pod_inv p l t \<longleftrightarrow> dt_firstFailureSince t = head (run_of p l [])
     \<and> (\<forall>x. dt_drainTailSince t = Some x \<longrightarrow> tail_from p x l)"

definition h_inv :: "int \<Rightarrow> hsys \<Rightarrow> bool" where
  "h_inv markDelay s \<longleftrightarrow> justified markDelay (hs_log s) \<and> (\<forall>p. pod_inv p (hs_log s) (hs_pod s p))"

lemma pod_inv_other: "pod_inv p l t \<Longrightarrow> q \<noteq> p \<Longrightarrow> pod_inv p (l @ map (Pair q) ns) t"
  by (auto simp: pod_inv_def run_of_append run_of_other intro: tail_from_append)

lemma head_run: "dt_firstFailureSince t = head R \<Longrightarrow> 
   R @ [now] = (case dt_firstFailureSince t of None \<Rightarrow> now | Some f \<Rightarrow> f) # tl (R @ [now])"
  by (cases R) (auto simp: head_def)

lemma fail_lock_inv:
  assumes "pod_inv p l t" and r: "fail_lock md now t = (t', since)"
  shows "dt_drainTailSince t' = None" "dt_firstFailureSince t' = head (run_of p l [] @ [now])"
    "since = Some ms \<Longrightarrow> \<exists>f fs. run_of p l [] @ [now] = f # fs \<and> ms = f div Millisecond
        \<and> (\<not> dt_degraded t \<longrightarrow> md \<le> last (f # fs) - f)"
proof -
  let ?R = "run_of p l []"
  let ?f = "case dt_firstFailureSince t of None \<Rightarrow> now | Some f \<Rightarrow> f"
  have f: "?R @ [now] = ?f # tl (?R @ [now])" using assms(1) by (intro head_run) (simp add: pod_inv_def)
  have l: "last (?f # tl (?R @ [now])) = now" by (subst f [symmetric]) simp
  show "dt_drainTailSince t' = None" using r by (auto simp: fail_lock_def Let_def split: if_splits)
  show "dt_firstFailureSince t' = head (?R @ [now])"
    using r by (subst f) (auto simp: fail_lock_def Let_def head_def markLocked_def split: if_splits)
  show "\<exists>f fs. ?R @ [now] = f # fs \<and> ms = f div Millisecond \<and> (\<not> dt_degraded t \<longrightarrow> md \<le> last (f # fs) - f)"
    if "since = Some ms"
  proof (intro exI conjI)
    show "?R @ [now] = ?f # tl (?R @ [now])" by (rule f)
    show "ms = ?f div Millisecond" using r that by (auto simp: fail_lock_def Let_def split: if_splits)
    show "\<not> dt_degraded t \<longrightarrow> md \<le> last (?f # tl (?R @ [now])) - ?f"
      unfolding l using r that by (auto simp: fail_lock_def Let_def split: if_splits)
  qed
qed

text \<open>A piece that records nothing changes neither clock, or stops the tail.\<close>

lemma quiet_task:
  assumes "run_task md siteID a k (t, st) = ((t', st'), nx, [])"
  shows "dt_firstFailureSince t' = dt_firstFailureSince t"
    "dt_drainTailSince t' = dt_drainTailSince t \<or> dt_drainTailSince t' = None"
  using assms by (cases k; auto simp: tracker_defs Let_def split: option.splits if_splits prod.splits)+

lemma task_notes:
  assumes "run_task md siteID a k (t, st) = ((t', st'), nx, ns)" "\<nexists>now. k = FailLock now"
  shows "ns = []
    \<or> (ns = [Retired] \<and> dt_firstFailureSince t' = None \<and> dt_drainTailSince t' = dt_drainTailSince t)
    \<or> (\<exists>x. ns = [Tail x] \<and> dt_firstFailureSince t' = dt_firstFailureSince t \<and> dt_drainTailSince t' = Some x)
    \<or> (\<exists>now ack. ns = [Decided now ack] \<and> dt_firstFailureSince t' = dt_firstFailureSince t
         \<and> dt_drainTailSince t' = dt_drainTailSince t
         \<and> (ack = 0 \<or> (\<exists>x. dt_drainTailSince t = Some x \<and> x + drainTailGrace \<le> now)))"
  using assms by (cases k) (auto simp: tracker_defs Let_def split: option.splits if_splits prod.splits)

lemma decided_inv:
  assumes "pod_inv p l t" "justified md l" "dt_firstFailureSince t' = dt_firstFailureSince t"
    "dt_drainTailSince t' = dt_drainTailSince t" "ns = [Decided now ack]"
    "ack = 0 \<or> (\<exists>x. dt_drainTailSince t = Some x \<and> x + drainTailGrace \<le> now)"
  shows "pod_inv p (l @ map (Pair p) ns) t' \<and> justified md (l @ map (Pair p) ns)"
proof -
  have "note_ok md l p (Decided now ack)" using assms(1, 6) by (auto simp: note_ok_def pod_inv_def)
  then show ?thesis using assms by (auto simp: pod_inv_def run_of_append intro!: justified_snoc tail_from_append)
qed

lemma run_task_inv:
  assumes "run_task md siteID a k (t, st) = ((t', st'), nx, ns)" "pod_inv p l t" "justified md l"
  shows "pod_inv p (l @ map (Pair p) ns) t'" "justified md (l @ map (Pair p) ns)"
proof -
  have "pod_inv p (l @ map (Pair p) ns) t' \<and> justified md (l @ map (Pair p) ns)"
  proof (cases "\<exists>now. k = FailLock now")
    case True
    then obtain now where k: "k = FailLock now" by blast
    obtain since where r: "fail_lock md now t = (t', since)"
      and ns: "ns = Failed now # (case since of None \<Rightarrow> [] | Some ms \<Rightarrow> [Marked ms (\<not> dt_degraded t)])"
      using assms(1) k by (cases "fail_lock md now t") auto
    note f = fail_lock_inv [OF assms(2) r]
    have j: "justified md (l @ [(p, Failed now)])" using assms(3) by (rule justified_snoc) (simp add: note_ok_def)
    show ?thesis
    proof (cases since)
      case None
      then show ?thesis using j f(1, 2) by (simp add: ns pod_inv_def run_of_append)
    next
      case (Some ms)
      have "note_ok md (l @ [(p, Failed now)]) p (Marked ms (\<not> dt_degraded t))"
        using f(3) [OF Some] by (simp add: note_ok_def run_of_append)
      from justified_snoc [OF j this] show ?thesis using f(1, 2) Some by (simp add: ns pod_inv_def run_of_append)
    qed
  next
    case False
    from task_notes [OF assms(1) this] show ?thesis
    proof (elim disjE exE conjE)
      assume "ns = []"
      then show ?thesis using quiet_task [of md siteID a k t st t' st' nx] assms by (auto simp: pod_inv_def)
    next
      assume "ns = [Retired]" "dt_firstFailureSince t' = None" "dt_drainTailSince t' = dt_drainTailSince t"
      then show ?thesis using assms(2, 3)
        by (auto simp: pod_inv_def run_of_append head_def note_ok_def intro!: justified_snoc tail_from_append)
    next
      fix x assume "ns = [Tail x]" "dt_firstFailureSince t' = dt_firstFailureSince t" "dt_drainTailSince t' = Some x"
      then show ?thesis using assms(2, 3)
        by (auto simp: pod_inv_def run_of_append note_ok_def intro!: justified_snoc tail_from_new)
    next
      fix now ack assume "ns = [Decided now ack]" "dt_firstFailureSince t' = dt_firstFailureSince t"
        "dt_drainTailSince t' = dt_drainTailSince t" "ack = 0"
      then show ?thesis using assms(2, 3) by (intro decided_inv [where now = now and ack = ack]) auto
    next
      fix now ack x assume "ns = [Decided now ack]" "dt_firstFailureSince t' = dt_firstFailureSince t"
        "dt_drainTailSince t' = dt_drainTailSince t" "dt_drainTailSince t = Some x" "x + drainTailGrace \<le> now"
      then show ?thesis using assms(2, 3) by (intro decided_inv [where now = now and ack = ack]) auto
    qed
  qed
  then show "pod_inv p (l @ map (Pair p) ns) t'" "justified md (l @ map (Pair p) ns)" by blast+
qed

lemma h_step_inv: "h_step md siteID s s' \<Longrightarrow> h_inv md s \<Longrightarrow> h_inv md s'"
proof (induction rule: h_step.induct)
  case (h_run s xs p k ys a t st nx ns)
  have i: "pod_inv p (hs_log s) (hs_pod s p)" "justified md (hs_log s)" using h_run.prems by (simp_all add: h_inv_def)
  note r = run_task_inv [OF h_run.hyps(3) i]
  have "pod_inv q (hs_log s @ map (Pair p) ns) (((hs_pod s)(p := t)) q)" for q
    using r(1) pod_inv_other [of q "hs_log s" "hs_pod s q" p ns] h_run.prems by (auto simp: h_inv_def)
  then show ?case using r(2) by (simp add: h_inv_def)
qed (auto simp: h_inv_def)

lemma h_init_inv: "h_init now s \<Longrightarrow> h_inv md s"
  by (auto simp: h_init_def h_inv_def pod_inv_def justified_def newDegradeTracker_def head_def)

lemma h_reach_inv: "h_reach md siteID s \<Longrightarrow> h_inv md s"
  by (induction rule: h_reach.induct) (auto intro: h_init_inv h_step_inv)

section \<open>Running the machine\<close>

text \<open>A schedule picks every step: time passes, a call starts in a pod, or the piece of the task at a position runs.\<close>

datatype h_move = Tick int | Start nat task | Run nat h_answer

fun do_move :: "int \<Rightarrow> string \<Rightarrow> h_move \<Rightarrow> hsys \<Rightarrow> hsys option" where
  "do_move md siteID (Tick d) s = (if 0 \<le> d then Some (s\<lparr>hs_clock := hs_clock s + d\<rparr>) else None)"
| "do_move md siteID (Start p k) s =
     (if start_op k (hs_clock s) then Some (s\<lparr>hs_tasks := hs_tasks s @ [(p, k)]\<rparr>) else None)"
| "do_move md siteID (Run i a) s =
     (if i < length (hs_tasks s) then
        (case hs_tasks s ! i of (p, k) \<Rightarrow>
          (case run_task md siteID (a\<lparr>an_now := hs_clock s\<rparr>) k (hs_pod s p, hs_store s) of ((t, st), nx, ns) \<Rightarrow>
            Some (s\<lparr>hs_store := st, hs_pod := (hs_pod s)(p := t),
                 hs_tasks := take i (hs_tasks s) @ (case nx of None \<Rightarrow> [] | Some k' \<Rightarrow> [(p, k')]) @ drop (Suc i) (hs_tasks s),
                 hs_log := hs_log s @ map (Pair p) ns\<rparr>)))
      else None)"

fun do_moves :: "int \<Rightarrow> string \<Rightarrow> h_move list \<Rightarrow> hsys \<Rightarrow> hsys option" where
  "do_moves md siteID [] s = Some s"
| "do_moves md siteID (m # ms) s = (case do_move md siteID m s of None \<Rightarrow> None | Some s' \<Rightarrow> do_moves md siteID ms s')"

lemma do_move_step: "do_move md siteID m s = Some s' \<Longrightarrow> h_step md siteID s s'"
proof (cases m)
  case (Run i a)
  assume m: "do_move md siteID m s = Some s'"
  obtain p k where pk: "hs_tasks s ! i = (p, k)" by (cases "hs_tasks s ! i")
  obtain t st nx ns where r: "run_task md siteID (a\<lparr>an_now := hs_clock s\<rparr>) k (hs_pod s p, hs_store s) = ((t, st), nx, ns)"
    by (metis prod.collapse)
  have i: "i < length (hs_tasks s)" using m Run by (auto split: if_splits)
  have "hs_tasks s = take i (hs_tasks s) @ (p, k) # drop (Suc i) (hs_tasks s)"
    using id_take_nth_drop [OF i] pk by simp
  from h_run [OF this _ r] show ?thesis using m Run i pk r by simp
qed (auto intro: h_step.intros split: if_splits)

lemma do_moves_reach: "do_moves md siteID ms s = Some s' \<Longrightarrow> h_reach md siteID s \<Longrightarrow> h_reach md siteID s'"
  by (induction ms arbitrary: s) (auto split: option.splits dest!: do_move_step intro: h_next)

definition h_empty :: hsys where
  "h_empty = \<lparr>hs_clock = 0, hs_store = Map.empty, hs_pod = (\<lambda>_. newDegradeTracker), hs_tasks = [], hs_log = []\<rparr>"

lemma h_empty_reach: "h_reach md siteID h_empty"
  by (rule h_start0 [of 0]) (simp add: h_init_def h_empty_def)

section \<open>Properties\<close>

text \<open>The operations of the tracker, run without interruption, are runs of the machine whose steps are their
  critical sections and store calls: reporting a failure, reporting a success and refreshing give the tracker
  and the shared marker that the pieces of the call give one after the other.\<close>

theorem tracker_operations_are_runs:
  "OnWriteFailure markDelay siteID now f g (t, st)
     = run_all markDelay siteID [a, a\<lparr>an_fate := f\<rparr>, a, a\<lparr>an_fate := g\<rparr>] (FailLock now) (t, st)
   \<and> OnWriteSuccess siteID now backlog f (t, st)
     = run_all markDelay siteID (replicate 8 \<lparr>an_now = now, an_fate = f, an_backlog = backlog\<rparr>) OkRead (t, st)
   \<and> Refresh siteID get_ok (t, st)
     = run_all markDelay siteID (replicate 3 (a\<lparr>an_fate := if get_ok then Landed else Lost\<rparr>)) RefRead (t, st)"
proof (intro conjI)
  show "OnWriteFailure markDelay siteID now f g (t, st)
     = run_all markDelay siteID [a, a\<lparr>an_fate := f\<rparr>, a, a\<lparr>an_fate := g\<rparr>] (FailLock now) (t, st)"
    by (simp add: OnWriteFailure_def Let_def split: prod.splits option.splits)
  show "OnWriteSuccess siteID now backlog f (t, st)
     = run_all markDelay siteID (replicate 8 \<lparr>an_now = now, an_fate = f, an_backlog = backlog\<rparr>) OkRead (t, st)"
    by (simp add: OnWriteSuccess_def Let_def ok_read_def numeral_eq_Suc split: prod.splits option.splits bool.splits)
  show "Refresh siteID get_ok (t, st)
     = run_all markDelay siteID (replicate 3 (a\<lparr>an_fate := if get_ok then Landed else Lost\<rparr>)) RefRead (t, st)"
    by (simp add: Refresh_def numeral_eq_Suc)
qed


text \<open>An outage of one pod, marked after half a minute, and its recovery.\<close>

definition good_answer :: "nat \<Rightarrow> h_answer" where
  "good_answer ackPending = \<lparr>an_now = 0, an_fate = Landed, an_backlog = Some (0, ackPending)\<rparr>"

definition outage_run :: "h_move list" where
  "outage_run = [Start 0 (FailLock 0), Run 0 (good_answer 1), Tick (30 * Second), Start 0 (FailLock (30 * Second)),
     Run 0 (good_answer 1), Run 0 (good_answer 1), Run 0 (good_answer 1),
     Start 0 OkRead, Run 0 (good_answer 1), Run 0 (good_answer 1), Run 0 (good_answer 1), Run 0 (good_answer 1), Run 0 (good_answer 1), Run 0 (good_answer 1),
     Tick (20 * Minute),
     Start 0 OkRead, Run 0 (good_answer 1), Run 0 (good_answer 1), Run 0 (good_answer 1), Run 0 (good_answer 1), Run 0 (good_answer 1)]"

lemmas run_eval_rules = good_answer_def h_empty_def newDegradeTracker_def start_op_def tracker_defs Let_def duration_defs
  drainTailGrace_def deriveDrainTailGrace_def DefaultBackoff_def minDrainTailGrace_def backlogCheckInterval_def lands_def

lemma outage_log:
  "map_option hs_log (do_moves (30 * Second) ''s1'' outage_run h_empty)
     = Some [(0, Failed 0), (0, Failed (30 * Second)), (0, Marked 0 True), (0, Retired), (0, Tail (30 * Second)),
             (0, Decided (30 * Second + 20 * Minute) 1)]"
  by (simp add: outage_run_def run_eval_rules)


end
