(* ===== verification/Msg_Settle.thy ===== *)
theory Msg_Settle
  imports Hist_Degrade Err_Code "HOL-Library.Word"
begin

text \<open>
  How message-worker resolves a processed message (\<open>src/message-worker/settle.go\<close>): which Cassandra failures are
  specific to a message (\<open>src/pkg/cassutil/cqlclass.go\<close>), the cap on destroyed messages
  (\<open>src/message-worker/droplimit.go\<close>, whose counters are 64-bit words), the drop policy (\<open>handler.go\<close>) and the decision itself.
\<close>

section \<open>The errors of the worker\<close>

text \<open>An error of the worker: one of the error package, one wrapped with a message, one tagged as a history failure, one the
  Cassandra driver reports with a protocol code, and the two sentinels the handler asks for.\<close>

datatype mw_err =
    MGo goerr
  | MWrap string mw_err
  | historyWriteError mw_err
  | RequestError int string
  | errMessageNotFound
  | ErrUserNotFound

fun mw_IsPermanent :: "mw_err \<Rightarrow> Error option" where
  "mw_IsPermanent (MGo e) = IsPermanent e"
| "mw_IsPermanent (MWrap _ e) = mw_IsPermanent e"
| "mw_IsPermanent (historyWriteError e) = mw_IsPermanent e"
| "mw_IsPermanent _ = None"

fun isHistoryWriteError :: "mw_err \<Rightarrow> bool" where
  "isHistoryWriteError (historyWriteError e) \<longleftrightarrow> True"
| "isHistoryWriteError (MWrap _ e) \<longleftrightarrow> isHistoryWriteError e"
| "isHistoryWriteError _ \<longleftrightarrow> False"

text \<open>\<open>errors.As\<close> with a \<open>gocql.RequestError\<close> target.\<close>

fun as_RequestError :: "mw_err \<Rightarrow> int option" where
  "as_RequestError (RequestError code _) = Some code"
| "as_RequestError (MWrap _ e) = as_RequestError e"
| "as_RequestError (historyWriteError e) = as_RequestError e"
| "as_RequestError _ = None"

fun is_errMessageNotFound :: "mw_err \<Rightarrow> bool" where
  "is_errMessageNotFound errMessageNotFound \<longleftrightarrow> True"
| "is_errMessageNotFound (MWrap _ e) \<longleftrightarrow> is_errMessageNotFound e"
| "is_errMessageNotFound (historyWriteError e) \<longleftrightarrow> is_errMessageNotFound e"
| "is_errMessageNotFound _ \<longleftrightarrow> False"

fun is_ErrUserNotFound :: "mw_err \<Rightarrow> bool" where
  "is_ErrUserNotFound ErrUserNotFound \<longleftrightarrow> True"
| "is_ErrUserNotFound (MWrap _ e) \<longleftrightarrow> is_ErrUserNotFound e"
| "is_ErrUserNotFound (historyWriteError e) \<longleftrightarrow> is_ErrUserNotFound e"
| "is_ErrUserNotFound _ \<longleftrightarrow> False"

section \<open>Failures specific to a message\<close>

datatype CQLClass = CQLInfra | CQLRequest

definition CQLClass_String :: "CQLClass \<Rightarrow> string" where
  "CQLClass_String c = (if c = CQLRequest then ''request'' else ''infra'')"

definition ErrCodeInvalid :: int where "ErrCodeInvalid = 0x2200"
definition ErrCodeSyntax :: int where "ErrCodeSyntax = 0x2000"

definition ClassifyCQL :: "mw_err \<Rightarrow> CQLClass" where
  "ClassifyCQL err =
     (case as_RequestError err of
        None \<Rightarrow> CQLInfra
      | Some code \<Rightarrow> if code = ErrCodeInvalid \<or> code = ErrCodeSyntax then CQLRequest else CQLInfra)"

definition CQLCode :: "mw_err \<Rightarrow> string" where
  "CQLCode err =
     (case as_RequestError err of
        None \<Rightarrow> ''none''
      | Some code \<Rightarrow> if code = ErrCodeInvalid then ''invalid'' else if code = ErrCodeSyntax then ''syntax'' else ''other'')"

section \<open>The cap on destroyed messages\<close>

record dropLimiter =
  dl_max :: "64 word"
  dl_window :: int
  dl_windowStart :: "int option"
  dl_count :: "64 word"

definition newDropLimiter :: "64 word \<Rightarrow> int \<Rightarrow> dropLimiter" where
  "newDropLimiter maxPerWindow window = \<lparr>dl_max = maxPerWindow, dl_window = window, dl_windowStart = None, dl_count = 0\<rparr>"

text \<open>A zero start is longer ago than any window.\<close>

definition window_over :: "int \<Rightarrow> dropLimiter \<Rightarrow> bool" where
  "window_over now l = (case dl_windowStart l of None \<Rightarrow> True | Some s \<Rightarrow> now - s \<ge> dl_window l)"

definition Allow :: "int \<Rightarrow> dropLimiter option \<Rightarrow> bool \<times> dropLimiter option" where
  "Allow now limiter =
     (case limiter of
        None \<Rightarrow> (False, None)
      | Some l \<Rightarrow>
          (let l1 = (if window_over now l then l\<lparr>dl_windowStart := Some now, dl_count := 0\<rparr> else l) in
           if dl_count l1 \<ge> dl_max l1 then (False, Some l1)
           else (True, Some (l1\<lparr>dl_count := dl_count l1 + 1\<rparr>))))"

section \<open>The decision\<close>

record dropPolicy =
  dp_RetryWindow :: int
  dp_Enabled :: bool
  dp_limiter :: "dropLimiter option"

definition newDropPolicy :: "int \<Rightarrow> bool \<Rightarrow> 64 word \<Rightarrow> dropPolicy" where
  "newDropPolicy retryWindow enabled maxDropsPerMinute =
     \<lparr>dp_RetryWindow = retryWindow, dp_Enabled = enabled, dp_limiter = Some (newDropLimiter maxDropsPerMinute Minute)\<rparr>"

text \<open>The counters the worker emits.\<close>

datatype hist_metric = HistoryWriteFailure string | DropSuppressed string | TerminalPermanent | Dropped string

definition dropSuppressedDisabled :: string where "dropSuppressedDisabled = ''disabled''"
definition dropSuppressedRateLimited :: string where "dropSuppressedRateLimited = ''rate_limited''"

text \<open>The metadata of a message is its delivery count, when it can be read.\<close>

definition retriedFor :: "nat option \<Rightarrow> int \<times> bool" where
  "retriedFor meta = (case meta of None \<Rightarrow> (0, False) | Some numDelivered \<Rightarrow> (MinWindow DefaultBackoff (int numDelivered), True))"

definition deliveriesToDrop :: "int \<Rightarrow> nat" where
  "deliveriesToDrop window = DeliveriesFor DefaultBackoff window"

text \<open>What a pod keeps between messages, and what the outside answers while one is settled.\<close>

record settle_state =
  ss_tracker :: degradeTracker
  ss_store :: marker_store
  ss_drop :: dropPolicy

record settle_env =
  se_siteID :: string
  se_markDelay :: int
  se_now :: int
  se_rnd :: "int \<Rightarrow> int"
  se_set :: call_fate
  se_clear :: call_fate
  se_backlog :: "(nat \<times> nat) option"
  se_ack :: bool

definition with_tracker :: "degradeTracker \<times> marker_store \<Rightarrow> settle_state \<Rightarrow> settle_state" where
  "with_tracker ts s = s\<lparr>ss_tracker := fst ts, ss_store := snd ts\<rparr>"

definition jsretry_Settle :: "settle_env \<Rightarrow> nat option \<Rightarrow> mw_err option \<Rightarrow> settlement" where
  "jsretry_Settle n meta err = settle (se_rnd n) meta DefaultBackoff
     (map_option (\<lambda>e. if mw_IsPermanent e \<noteq> None then PermanentErr else TransientErr) err)"

definition suppressDrop :: "settle_env \<Rightarrow> nat option \<Rightarrow> mw_err \<Rightarrow> string \<Rightarrow> settlement \<times> hist_metric list" where
  "suppressDrop n meta err reason = (jsretry_Settle n meta (Some err), [DropSuppressed reason])"

definition Handler_settle ::
  "settle_env \<Rightarrow> nat option \<Rightarrow> mw_err option \<Rightarrow> settle_state \<Rightarrow> settlement \<times> hist_metric list \<times> settle_state" where
  "Handler_settle n meta err s =
     (case err of
        None \<Rightarrow>
          (jsretry_Settle n meta None, [],
           with_tracker (OnWriteSuccess (se_siteID n) (se_now n) (se_backlog n) (se_clear n) (ss_tracker s, ss_store s)) s)
      | Some e \<Rightarrow>
          if mw_IsPermanent e \<noteq> None then (jsretry_Settle n meta err, [], s)
          else if \<not> isHistoryWriteError e then (jsretry_Settle n meta err, [], s)
          else let class = ClassifyCQL e; m1 = [HistoryWriteFailure (CQLClass_String class)] in
            if class = CQLInfra then
              (jsretry_Settle n meta err, m1,
               with_tracker (OnWriteFailure (se_markDelay n) (se_siteID n) (se_now n) (se_set n) (se_clear n) (ss_tracker s, ss_store s)) s)
            else (case retriedFor meta of (retried, measurable) \<Rightarrow>
              if \<not> measurable \<or> retried < dp_RetryWindow (ss_drop s) then (jsretry_Settle n meta err, m1, s)
              else if \<not> dp_Enabled (ss_drop s) then
                (case suppressDrop n meta e dropSuppressedDisabled of (r, m) \<Rightarrow> (r, m1 @ m, s))
              else (case Allow (se_now n) (dp_limiter (ss_drop s)) of
                  (False, l) \<Rightarrow>
                    (case suppressDrop n meta e dropSuppressedRateLimited of
                       (r, m) \<Rightarrow> (r, m1 @ m, s\<lparr>ss_drop := (ss_drop s)\<lparr>dp_limiter := l\<rparr>\<rparr>))
                | (True, l) \<Rightarrow>
                    (Ack, m1 @ [TerminalPermanent] @ (if se_ack n then [Dropped (CQLCode e)] else []),
                     s\<lparr>ss_drop := (ss_drop s)\<lparr>dp_limiter := l\<rparr>\<rparr>))))"

section \<open>How many messages the cap lets through\<close>

text \<open>The times at which a sequence of requests was granted.\<close>

fun drop_times :: "int list \<Rightarrow> dropLimiter \<Rightarrow> int list" where
  "drop_times [] l = []"
| "drop_times (t # ts) l =
     (case Allow t (Some l) of
        (ok, Some l') \<Rightarrow> (if ok then [t] else []) @ drop_times ts l'
      | (ok, None) \<Rightarrow> [])"

definition drops_in :: "int \<Rightarrow> int \<Rightarrow> int list \<Rightarrow> int" where
  "drops_in a b ts = int (length (filter (\<lambda>t. a \<le> t \<and> t < b) ts))"

definition ceil_div :: "int \<Rightarrow> int \<Rightarrow> int" where
  "ceil_div d w = - ((- d) div w)"

lemma ceil_div_mono: "0 < w \<Longrightarrow> d \<le> d' \<Longrightarrow> ceil_div d w \<le> ceil_div d' w"
  by (simp add: ceil_div_def zdiv_mono1)

lemma ceil_div_pos: "0 < w \<Longrightarrow> 0 < d \<Longrightarrow> 1 \<le> ceil_div d w"
  using pos_imp_zdiv_neg_iff [of w "- d"] by (simp add: ceil_div_def)

lemma ceil_div_step: "0 < w \<Longrightarrow> ceil_div d w = ceil_div (d - w) w + 1"
proof -
  assume w: "0 < w"
  have "- d div w = (- (d - w) + (- 1) * w) div w" by simp
  also have "\<dots> = - 1 + - (d - w) div w" using w by (subst div_mult_self1) auto
  finally show ?thesis by (simp add: ceil_div_def)
qed

lemma drops_in_Cons: "drops_in a b (t # ts) = (if a \<le> t \<and> t < b then 1 else 0) + drops_in a b ts"
  by (simp add: drops_in_def)

lemma drops_in_Nil: "drops_in a b [] = 0"
  by (simp add: drops_in_def)

text \<open>What windows that open at \<open>x\<close> or later can still let through in the interval.\<close>

definition room_from :: "int \<Rightarrow> int \<Rightarrow> int \<Rightarrow> int \<Rightarrow> int \<Rightarrow> int" where
  "room_from M w a b x =
     (if b \<le> x then 0 else if a \<le> x then M * ceil_div (b - x) w else M * (ceil_div (b - a) w + 1) - 1)"

definition room_left :: "int \<Rightarrow> int \<Rightarrow> int \<Rightarrow> int \<Rightarrow> int \<Rightarrow> int \<Rightarrow> int" where
  "room_left M w a b s c = (if s + w \<le> a then 0 else M - c) + room_from M w a b (s + w)"

lemma room_from_nonneg:
  assumes "0 < M" "0 < w" "a < b" shows "0 \<le> room_from M w a b x"
proof -
  have "0 \<le> M * ceil_div (b - x) w" if "x < b" using ceil_div_pos [of w "b - x"] assms that by simp
  moreover have "1 \<le> M * (ceil_div (b - a) w + 1)"
    using mult_mono [of 1 M 1 "ceil_div (b - a) w + 1"] ceil_div_pos [of w "b - a"] assms by simp
  ultimately show ?thesis by (auto simp: room_from_def)
qed

lemma room_open:
  assumes "0 < M" "0 < w" "a < b" "x \<le> t" "t < b"
  shows "(if a \<le> t then 1 else 0) + room_left M w a b t 1 \<le> room_from M w a b x"
proof -
  let ?N = "\<lambda>d. ceil_div d w"
  have mono: "M * ?N d \<le> M * ?N d'" if "d \<le> d'" for d d' using ceil_div_mono [OF assms(2) that] assms(1) by simp
  have later: "room_from M w a b (t + w) \<le> M * ?N (b - t) - M" if "a \<le> t + w"
  proof (cases "b \<le> t + w")
    case True
    have "M * 1 \<le> M * ?N (b - t)" using ceil_div_pos [of w "b - t"] assms by (intro mult_left_mono) auto
    with True show ?thesis by (simp add: room_from_def)
  next
    case False
    with that show ?thesis using ceil_div_step [OF assms(2), of "b - t"]
      by (simp add: room_from_def algebra_simps)
  qed
  show ?thesis
  proof (cases "a \<le> t")
    case True
    then have "(if a \<le> t then 1 else 0) + room_left M w a b t 1 \<le> M * ?N (b - t)"
      using later assms by (simp add: room_left_def)
    also have "\<dots> \<le> room_from M w a b x"
    proof (cases "a \<le> x")
      case True
      then show ?thesis using mono [of "b - t" "b - x"] assms by (simp add: room_from_def)
    next
      case False
      have "M * ?N (b - t) \<le> M * ?N (b - a)" using mono [of "b - t" "b - a"] True by simp
      then have "M * ?N (b - t) \<le> M * (?N (b - a) + 1) - 1"
        unfolding distrib_left mult_1_right using assms(1) by linarith
      then show ?thesis using False assms by (simp add: room_from_def)
    qed
    finally show ?thesis .
  next
    case False
    then have x: "room_from M w a b x = M * ?N (b - a) + M - 1" using assms by (simp add: room_from_def algebra_simps)
    show ?thesis
    proof (cases "t + w < a")
      case True
      then show ?thesis using False x assms by (simp add: room_left_def room_from_def algebra_simps)
    next
      case ge: False
      have "M * ?N (b - t) - M \<le> M * ?N (b - a)"
        using ceil_div_step [OF assms(2), of "b - t"] mono [of "b - t - w" "b - a"] ge by (simp add: algebra_simps)
      then show ?thesis using False x later ge assms by (auto simp: room_left_def)
    qed
  qed
qed

lemma Allow_same_window:
  assumes "dl_windowStart l = Some s" "t - s < dl_window l"
  shows "Allow t (Some l) = (if dl_max l \<le> dl_count l then (False, Some l) else (True, Some (l\<lparr>dl_count := dl_count l + 1\<rparr>)))"
  using assms by (simp add: Allow_def window_over_def)

lemma Allow_new_window:
  assumes "window_over t l" "0 < dl_max l"
  shows "Allow t (Some l) = (True, Some (l\<lparr>dl_windowStart := Some t, dl_count := 1\<rparr>))"
  using assms by (simp add: Allow_def Let_def not_le)

lemma drops_after: "sorted (t # ts) \<Longrightarrow> b \<le> t \<Longrightarrow> drops_in a b (drop_times (t # ts) l) = 0"
proof -
  have sub: "set (drop_times ts l) \<subseteq> set ts" for ts l
    by (induction ts arbitrary: l) (auto split: prod.splits option.splits)
  assume "sorted (t # ts)" "b \<le> t"
  then have "\<forall>x \<in> set (t # ts). b \<le> x" by auto
  then have "\<forall>x \<in> set (drop_times (t # ts) l). b \<le> x" using sub [of "t # ts" l] by blast
  then have "filter (\<lambda>x. a \<le> x \<and> x < b) (drop_times (t # ts) l) = []" unfolding filter_empty_conv by force
  then show ?thesis unfolding drops_in_def by simp
qed

lemma uint_succ_below: "c < m \<Longrightarrow> uint (c + 1) = uint c + 1" for c m :: "64 word"
proof -
  assume "c < m"
  then have "unat c < unat m" by (simp add: word_less_nat_alt)
  then have "unat c + 1 < 2 ^ 64" using unsigned_less [of m, where ?'a = nat] by simp
  then have "unat (c + 1) = unat c + 1" by (simp add: unat_word_ariths)
  then have "int (unat (c + 1)) = int (unat c) + 1" by simp
  then show ?thesis by simp
qed

lemma drops_in_window:
  assumes "0 < w" "a < b" "0 < M" "sorted (s # ts)" "dl_windowStart l = Some s" "dl_window l = w" "uint (dl_max l) = M"
    "dl_count l \<le> dl_max l"
  shows "drops_in a b (drop_times ts l) \<le> room_left M w a b s (uint (dl_count l))"
  using assms(4-)
proof (induction ts arbitrary: s l)
  case Nil
  have "uint (dl_count l) \<le> uint (dl_max l)" using Nil.prems by (simp add: word_le_def)
  then show ?case using room_from_nonneg [OF assms(3, 1, 2), of "s + w"] Nil.prems by (simp add: drops_in_Nil room_left_def)
next
  case (Cons t ts)
  have pos: "0 < dl_max l" using Cons.prems assms(3) by (simp add: word_less_def)
  have le: "uint (dl_count l) \<le> uint (dl_max l)" using Cons.prems by (simp add: word_le_def)
  show ?case
  proof (cases "t - s < w")
    case True
    show ?thesis
    proof (cases "dl_max l \<le> dl_count l")
      case full: True
      then have "drop_times (t # ts) l = drop_times ts l" using Cons.prems True by (simp add: Allow_same_window)
      then show ?thesis using Cons.IH [of s l] Cons.prems by simp
    next
      case False
      let ?l = "l\<lparr>dl_count := dl_count l + 1\<rparr>"
      have u: "uint (dl_count l + 1) = uint (dl_count l) + 1"
        using False by (intro uint_succ_below [of _ "dl_max l"]) simp
      have "drop_times (t # ts) l = t # drop_times ts ?l" using Cons.prems True False by (simp add: Allow_same_window)
      moreover have "dl_count ?l \<le> dl_max ?l" using False u by (simp add: word_le_def)
      then have "drops_in a b (drop_times ts ?l) \<le> room_left M w a b s (uint (dl_count l) + 1)"
        using Cons.IH [of s ?l] Cons.prems u by simp
      ultimately show ?thesis using True by (auto simp: drops_in_Cons room_left_def)
    qed
  next
    case False
    let ?l = "l\<lparr>dl_windowStart := Some t, dl_count := 1\<rparr>"
    have "window_over t l" using False Cons.prems by (simp add: window_over_def)
    then have d: "drop_times (t # ts) l = t # drop_times ts ?l" using pos by (simp add: Allow_new_window)
    show ?thesis
    proof (cases "b \<le> t")
      case True
      then have "drops_in a b (drop_times (t # ts) l) = 0" using Cons.prems by (intro drops_after) auto
      then show ?thesis using room_from_nonneg [OF assms(3, 1, 2), of "s + w"] le Cons.prems by (simp add: room_left_def)
    next
      case tb: False
      have "1 \<le> uint (dl_max l)" using Cons.prems assms(3) by simp
      then have "(1 :: 64 word) \<le> dl_max l" by (simp add: word_le_def)
      then have "drops_in a b (drop_times ts ?l) \<le> room_left M w a b t 1" using Cons.IH [of t ?l] Cons.prems by simp
      moreover have "(if a \<le> t then 1 else 0) + room_left M w a b t 1 \<le> room_from M w a b (s + w)"
        using room_open [OF assms(3, 1, 2), of "s + w" t] False tb by simp
      ultimately show ?thesis unfolding d drops_in_Cons using tb le Cons.prems by (auto simp: room_left_def)
    qed
  qed
qed

text \<open>C17: The brake on destroyed messages holds over every interval of time, not only over its own windows: whatever the
  requests, in an interval of any length a pod grants at most the cap times (the number of windows the interval
  takes, rounded up, plus one), less one; so an interval no longer than the window passes at most twice the cap less one.\<close>

theorem drops_bounded:
  assumes "0 < window" and "0 < maxPerWindow" and "sorted calls" and "a < b"
  shows "drops_in a b (drop_times calls (newDropLimiter maxPerWindow window))
           \<le> uint maxPerWindow * (ceil_div (b - a) window + 1) - 1"
proof (cases calls)
  case Nil
  have "1 * 1 \<le> uint maxPerWindow * (ceil_div (b - a) window + 1)"
    using ceil_div_pos [of window "b - a"] assms by (intro mult_mono) (auto simp: word_less_def)
  then show ?thesis using Nil by (simp add: drops_in_Nil)
next
  case (Cons t ts)
  let ?M = "uint maxPerWindow" and ?fresh = "newDropLimiter maxPerWindow window"
  let ?l = "?fresh\<lparr>dl_windowStart := Some t, dl_count := 1\<rparr>"
  have M: "0 < ?M" using assms(2) by (simp add: word_less_def)
  have r: "room_from ?M window a b (min a t - 1) = ?M * (ceil_div (b - a) window + 1) - 1"
    using assms(4) by (simp add: room_from_def)
  have d: "drop_times calls ?fresh = t # drop_times ts ?l"
    unfolding Cons using assms(2) by (auto simp: window_over_def newDropLimiter_def Allow_def Let_def)
  show ?thesis
  proof (cases "b \<le> t")
    case True
    then have "drops_in a b (drop_times calls ?fresh) = 0" unfolding Cons using assms(3) Cons by (intro drops_after) auto
    then show ?thesis using room_from_nonneg [OF M assms(1, 4), of "min a t - 1"] r by simp
  next
    case False
    have "(1 :: 64 word) \<le> maxPerWindow" using assms(2) by (simp add: word_le_def word_less_def)
    then have "drops_in a b (drop_times ts ?l) \<le> room_left ?M window a b t 1"
      using drops_in_window [of window a b ?M t ts ?l] assms M Cons by (simp add: newDropLimiter_def)
    moreover have "(if a \<le> t then 1 else 0) + room_left ?M window a b t 1 \<le> room_from ?M window a b (min a t - 1)"
      using room_open [OF M assms(1, 4), of "min a t - 1" t] False by simp
    ultimately show ?thesis using r False by (auto simp: d drops_in_Cons)
  qed
qed

theorem drops_bounded_witness:
  "drops_in 5 15 (drop_times [0, 9, 9, 10, 10, 11] (newDropLimiter 2 10)) = 3
   \<and> drops_in 5 15 (drop_times [0, 9, 9, 10, 10, 11] (newDropLimiter 2 10)) \<le> 2 * (ceil_div (15 - 5) 10 + 1) - 1"
proof -
  have "drop_times [0, 9, 9, 10, 10, 11] (newDropLimiter 2 10) = [0, 9, 10, 10]" by code_simp
  then show ?thesis using drops_bounded [of 10 2 "[0, 9, 9, 10, 10, 11]" 5 15] by (simp add: drops_in_def)
qed

section \<open>What is destroyed\<close>

lemma MinWindow_mono:
  assumes "m \<le> n" shows "MinWindow DefaultBackoff (int m) \<le> MinWindow DefaultBackoff (int n)"
proof -
  have "DefaultBackoff \<noteq> []" by (simp add: DefaultBackoff_def)
  then show ?thesis using assms by (auto simp: MinWindow_sum intro!: sum_mono2 less_imp_le [OF minJitter_pos])
qed

lemma window_elapsed:
  assumes "0 < window"
  shows "window \<le> MinWindow DefaultBackoff (int n) \<longleftrightarrow> deliveriesToDrop window \<le> n"
proof -
  have d: "DefaultBackoff \<noteq> []" by (simp add: DefaultBackoff_def)
  note spec = DeliveriesFor_spec [OF d assms, folded deliveriesToDrop_def]
  show ?thesis using spec MinWindow_mono [of "deliveriesToDrop window" n] by (meson dual_order.trans not_le)
qed

text \<open>The Cassandra rejected the statement of this very message.\<close>

definition rejected :: "mw_err \<Rightarrow> bool" where
  "rejected e \<longleftrightarrow> isHistoryWriteError e \<and> (as_RequestError e = Some ErrCodeInvalid \<or> as_RequestError e = Some ErrCodeSyntax)"

lemma rejected_class: "isHistoryWriteError e \<Longrightarrow> ClassifyCQL e = CQLRequest \<longleftrightarrow> rejected e"
  by (auto simp: ClassifyCQL_def rejected_def split: option.splits)

text \<open>C6: A message that was not persisted is destroyed only when it is condemned. The worker acknowledges a message whose
  processing failed exactly when the failure is permanent, or when the history store rejected the statement as invalid or
  malformed, the delivery count can be read and has reached the number of deliveries that the retry window takes, dropping
  is enabled and the brake grants the drop. Every other failure (an unreachable cluster, a failure of another store, an
  unknown error) is negatively acknowledged with a delay, whatever the number of deliveries; and only a failure of the
  cluster touches the tracker of the site's marker.\<close>

theorem settle_destroys_only_condemned:
  assumes "0 < dp_RetryWindow (ss_drop s)" and "Handler_settle n meta (Some e) s = (r, ms, s')"
  shows "(r = Ack \<longleftrightarrow> mw_IsPermanent e \<noteq> None
            \<or> (rejected e \<and> (\<exists>k. meta = Some k \<and> deliveriesToDrop (dp_RetryWindow (ss_drop s)) \<le> k)
                \<and> dp_Enabled (ss_drop s) \<and> fst (Allow (se_now n) (dp_limiter (ss_drop s)))))
       \<and> (r \<noteq> Ack \<longrightarrow> r = NakWithDelay (backoffFor (se_rnd n) meta DefaultBackoff))
       \<and> ((ss_tracker s', ss_store s') = (ss_tracker s, ss_store s)
            \<or> (isHistoryWriteError e \<and> ClassifyCQL e = CQLInfra \<and> r \<noteq> Ack))"
proof -
  have w: "dp_RetryWindow (ss_drop s) \<le> MinWindow DefaultBackoff (int k)
      \<longleftrightarrow> deliveriesToDrop (dp_RetryWindow (ss_drop s)) \<le> k" for k
    using window_elapsed [OF assms(1)] .
  have nak: "mw_IsPermanent e = None \<Longrightarrow> jsretry_Settle n meta (Some e) = NakWithDelay (backoffFor (se_rnd n) meta DefaultBackoff)"
    "mw_IsPermanent e \<noteq> None \<Longrightarrow> jsretry_Settle n meta (Some e) = Ack"
    by (auto simp: jsretry_Settle_def settle_def)
  show ?thesis
  proof (cases "mw_IsPermanent e \<noteq> None \<or> \<not> isHistoryWriteError e")
    case True
    show ?thesis
    proof (cases "mw_IsPermanent e = None")
      case perm: False
      with assms(2) have "r = jsretry_Settle n meta (Some e)" "s' = s" by (auto simp: Handler_settle_def)
      with nak(2) [OF perm] perm show ?thesis by simp
    next
      case np: True
      with True assms(2) have "r = jsretry_Settle n meta (Some e)" "s' = s" by (auto simp: Handler_settle_def)
      with nak(1) [OF np] np True show ?thesis by (simp add: rejected_def)
    qed
  next
    case False
    then have h: "mw_IsPermanent e = None" "isHistoryWriteError e" by auto
    show ?thesis
    proof (cases "ClassifyCQL e")
      case CQLInfra
      then have "\<not> rejected e" using rejected_class [OF h(2)] by auto
      then show ?thesis using assms(2) nak h CQLInfra by (auto simp: Handler_settle_def Let_def)
    next
      case CQLRequest
      then have rj: "rejected e" using rejected_class [OF h(2)] by auto
      note go = assms(2) [unfolded Handler_settle_def] h CQLRequest
      show ?thesis
      proof (cases "\<exists>k. meta = Some k \<and> deliveriesToDrop (dp_RetryWindow (ss_drop s)) \<le> k")
        case False
        then have "\<not> snd (retriedFor meta) \<or> fst (retriedFor meta) < dp_RetryWindow (ss_drop s)"
          using w [symmetric] by (cases meta) (auto simp: retriedFor_def)
        then have "r = jsretry_Settle n meta (Some e)" "s' = s" using go by (auto simp: Let_def case_prod_unfold)
        with nak(1) [OF h(1)] h(1) False show ?thesis by simp
      next
        case True
        then have m: "retriedFor meta = (fst (retriedFor meta), True)" "\<not> fst (retriedFor meta) < dp_RetryWindow (ss_drop s)"
          using w by (auto simp: retriedFor_def not_less)
        have "r = (if dp_Enabled (ss_drop s) \<and> fst (Allow (se_now n) (dp_limiter (ss_drop s))) then Ack
                   else jsretry_Settle n meta (Some e))
            \<and> ss_tracker s' = ss_tracker s \<and> ss_store s' = ss_store s"
          using go m by (cases "Allow (se_now n) (dp_limiter (ss_drop s))"; cases "retriedFor meta")
            (auto simp: Let_def suppressDrop_def split: if_splits bool.splits)
        with nak(1) [OF h(1)] h(1) rj True show ?thesis by simp
      qed
    qed
  qed
qed

definition poison :: mw_err where
  "poison = MWrap ''save message'' (historyWriteError (MWrap ''save message m1'' (RequestError ErrCodeInvalid ''null key'')))"

definition settle_demo_env :: settle_env where
  "settle_demo_env = \<lparr>se_siteID = ''s1'', se_markDelay = 30 * Second, se_now = 7, se_rnd = (\<lambda>_. 0), se_set = Landed, se_clear = Landed,
     se_backlog = Some (0, 0), se_ack = True\<rparr>"

definition settle_demo_state :: settle_state where
  "settle_demo_state = \<lparr>ss_tracker = newDegradeTracker, ss_store = Map.empty, ss_drop = newDropPolicy (6 * Second) True 10\<rparr>"

theorem settle_destroys_only_condemned_witness:
  "fst (Handler_settle settle_demo_env (Some 5) (Some poison) settle_demo_state) = Ack
   \<and> fst (Handler_settle settle_demo_env (Some 3) (Some poison) settle_demo_state) \<noteq> Ack"
proof -
  have w: "0 < dp_RetryWindow (ss_drop settle_demo_state)" by (simp add: settle_demo_state_def newDropPolicy_def duration_defs)
  have d: "deliveriesToDrop (dp_RetryWindow (ss_drop settle_demo_state)) = 4" by code_simp
  have e: "dp_Enabled (ss_drop settle_demo_state)" "fst (Allow (se_now settle_demo_env) (dp_limiter (ss_drop settle_demo_state)))"
    "rejected poison" "mw_IsPermanent poison = None"
    by (simp_all add: settle_demo_state_def settle_demo_env_def newDropPolicy_def newDropLimiter_def Allow_def window_over_def rejected_def poison_def)
  show ?thesis
    using settle_destroys_only_condemned [OF w, of settle_demo_env "Some 5" poison]
      settle_destroys_only_condemned [OF w, of settle_demo_env "Some 3" poison] d e
    by (cases "Handler_settle settle_demo_env (Some 5) (Some poison) settle_demo_state"; cases "Handler_settle settle_demo_env (Some 3) (Some poison) settle_demo_state")
       (simp del: not_None_eq)
qed

end
