(* ===== verification/Cass_Rows.thy ===== *)
theory Cass_Rows
  imports Msg_Settle Message_Model Thread_Count "HOL-Library.Product_Lexorder"
begin

text \<open>
  The message tables and message-worker's Cassandra store (\<open>src/message-worker/store_cassandra.go\<close>), with the split of
  a message into encrypted and plain columns (\<open>src/pkg/atrest/split.go\<close>). Cassandra keeps a write time (microseconds) with every
  cell and resolves conflicts cell by cell, and the code relies on it, so the tables here have cells with write times.
  Which of two values written with the same time stays is the database's choice, an argument. A batch that fails
  may have executed any of its statements. Encryption is an argument.
\<close>

section \<open>Cells, rows, tables\<close>

datatype cval =
    VNull
  | VStr string
  | VInt int
  | VBool bool
  | VTime int
  | VPart CassParticipant
  | VParts "CassParticipant list"
  | VBlobs "string list"
  | VCard Card
  | VAction CardAction
  | VQuote QuotedParentMessage
  | VMeta string

text \<open>A row: whether its primary key was inserted, and its cells.\<close>

record cass_row =
  row_inserted :: bool
  row_cells :: "string \<Rightarrow> (cval \<times> int) option"

definition no_row :: cass_row where "no_row = \<lparr>row_inserted = False, row_cells = (\<lambda>_. None)\<rparr>"

definition message_columns :: "string list" where
  "message_columns = [''room_id'', ''created_at'', ''sender'', ''msg'', ''site_id'', ''updated_at'', ''mentions'', ''type'', ''sys_msg_data'',
     ''tshow'', ''quoted_parent_message'', ''attachments'', ''card'', ''card_action'', ''visible_to'', ''thread_room_id'', ''thread_parent_id'',
     ''thread_parent_created_at'', ''enc_payload'', ''enc_meta'', ''tcount'', ''thread_last_msg_at'', ''deleted'', ''edited_at'',
     ''reactions'', ''pinned_at'', ''pinned_by'']"

definition cell :: "cass_row \<Rightarrow> string \<Rightarrow> cval" where
  "cell r c = (case row_cells r c of None \<Rightarrow> VNull | Some (v, _) \<Rightarrow> v)"

text \<open>A SELECT finds a row that was inserted or that has a value in some column.\<close>

definition row_exists :: "cass_row \<Rightarrow> bool" where
  "row_exists r \<longleftrightarrow> row_inserted r \<or> (\<exists>c \<in> set message_columns. cell r c \<noteq> VNull)"

type_synonym thread_key = "string \<times> int \<times> string"

record cass_tables =
  ct_by_id :: "string \<Rightarrow> cass_row"
  ct_by_room :: "room_key \<Rightarrow> cass_row"
  ct_by_thread :: "thread_key \<Rightarrow> cass_row"
  ct_thread_keys :: "thread_key list"

datatype target = ById string | ByRoom room_key | ByThread thread_key

text \<open>A statement: an INSERT or an UPDATE of some columns of a row, with a write time of its own or with the client's clock.\<close>

record stmt =
  st_target :: target
  st_insert :: bool
  st_cols :: "(string \<times> cval) list"
  st_using :: "int option"

section \<open>Executing statements\<close>

type_synonym tie_break = "cval \<Rightarrow> cval \<Rightarrow> cval"

definition merge_cell :: "tie_break \<Rightarrow> cval \<times> int \<Rightarrow> (cval \<times> int) option \<Rightarrow> cval \<times> int" where
  "merge_cell tie new old =
     (case old of
        None \<Rightarrow> new
      | Some (v, ts) \<Rightarrow>
          if snd new > ts then new else if snd new < ts then (v, ts) else (tie v (fst new), ts))"

definition write_cell :: "tie_break \<Rightarrow> int \<Rightarrow> string \<times> cval \<Rightarrow> cass_row \<Rightarrow> cass_row" where
  "write_cell tie ts cv r =
     r\<lparr>row_cells := (row_cells r)(fst cv := Some (merge_cell tie (snd cv, ts) (row_cells r (fst cv))))\<rparr>"

definition write_row :: "tie_break \<Rightarrow> int \<Rightarrow> stmt \<Rightarrow> cass_row \<Rightarrow> cass_row" where
  "write_row tie clock s r =
     fold (write_cell tie (case st_using s of None \<Rightarrow> clock | Some ts \<Rightarrow> ts)) (st_cols s)
       (r\<lparr>row_inserted := row_inserted r \<or> st_insert s\<rparr>)"

definition exec_stmt :: "tie_break \<Rightarrow> int \<Rightarrow> stmt \<Rightarrow> cass_tables \<Rightarrow> cass_tables" where
  "exec_stmt tie clock s t =
     (case st_target s of
        ById k \<Rightarrow> t\<lparr>ct_by_id := (ct_by_id t)(k := write_row tie clock s (ct_by_id t k))\<rparr>
      | ByRoom k \<Rightarrow> t\<lparr>ct_by_room := (ct_by_room t)(k := write_row tie clock s (ct_by_room t k))\<rparr>
      | ByThread k \<Rightarrow> t\<lparr>ct_by_thread := (ct_by_thread t)(k := write_row tie clock s (ct_by_thread t k)),
                      ct_thread_keys := List.insert k (ct_thread_keys t)\<rparr>)"

text \<open>The fate of a call: it succeeds, or fails with an error after the statements whose position satisfies the predicate.\<close>

datatype cass_fate = CassOk | CassErr mw_err "nat \<Rightarrow> bool"

fun exec_some :: "tie_break \<Rightarrow> int \<Rightarrow> (nat \<Rightarrow> bool) \<Rightarrow> nat \<Rightarrow> stmt list \<Rightarrow> cass_tables \<Rightarrow> cass_tables" where
  "exec_some tie clock done_at i [] t = t"
| "exec_some tie clock done_at i (s # ss) t =
     exec_some tie clock done_at (i + 1) ss (if done_at i then exec_stmt tie clock s t else t)"

definition executeBatch :: "tie_break \<Rightarrow> int \<Rightarrow> cass_fate \<Rightarrow> stmt list \<Rightarrow> cass_tables \<Rightarrow> mw_err option \<times> cass_tables" where
  "executeBatch tie clock fate ss t =
     (case fate of
        CassOk \<Rightarrow> (None, exec_some tie clock (\<lambda>_. True) 0 ss t)
      | CassErr e done_at \<Rightarrow> (Some e, exec_some tie clock done_at 0 ss t))"

section \<open>Binding values\<close>

definition toMentionSet :: "Participant list \<Rightarrow> CassParticipant list" where
  "toMentionSet ms = map (\<lambda>m. \<lparr>cp_ID = pt_UserID m, cp_EngName = pt_EngName m, cp_CompanyName = pt_ChineseName m, cp_AppID = '''',
     cp_AppName = '''', cp_IsBot = False, cp_Account = pt_Account m\<rparr>) ms"

text \<open>A nil pointer and an empty collection are null.\<close>

definition bind_sender :: "CassParticipant option \<Rightarrow> cval" where
  "bind_sender s = (case s of None \<Rightarrow> VNull | Some p \<Rightarrow> VPart p)"
definition bind_parts :: "CassParticipant list \<Rightarrow> cval" where
  "bind_parts ps = (if ps = [] then VNull else VParts ps)"
definition bind_blobs :: "string list \<Rightarrow> cval" where
  "bind_blobs bs = (if bs = [] then VNull else VBlobs bs)"
definition bind_blob :: "string \<Rightarrow> cval" where
  "bind_blob b = (if b = [] then VNull else VStr b)"
definition bind_card :: "Card option \<Rightarrow> cval" where
  "bind_card c = (case c of None \<Rightarrow> VNull | Some c \<Rightarrow> VCard c)"
definition bind_action :: "CardAction option \<Rightarrow> cval" where
  "bind_action c = (case c of None \<Rightarrow> VNull | Some c \<Rightarrow> VAction c)"
definition bind_time :: "int option \<Rightarrow> cval" where
  "bind_time t = (case t of None \<Rightarrow> VNull | Some t \<Rightarrow> VTime t)"

text \<open>The user-defined type has no column for the decoded attachments and for the transient flag.\<close>

definition bind_quote :: "QuotedParentMessage option \<Rightarrow> cval" where
  "bind_quote q = (case q of None \<Rightarrow> VNull | Some q \<Rightarrow> VQuote (q\<lparr>qp_DecodedAttachments := [], qp_TShow := False\<rparr>))"

section \<open>Encryption\<close>

record QuotedParentEncrypted =
  qe_Msg :: string
  qe_Attachments :: "string list"

record EncryptedFields =
  ef_Msg :: string
  ef_Attachments :: "string list"
  ef_Card :: "Card option"
  ef_CardAction :: "CardAction option"
  ef_QuotedParentContent :: "QuotedParentEncrypted option"

text \<open>The fields of \<open>cassandra.Message\<close> the store fills before it encrypts.\<close>

record cass_message =
  cm_RoomID :: string
  cm_MessageID :: string
  cm_Msg :: string
  cm_Attachments :: "string list"
  cm_Card :: "Card option"
  cm_CardAction :: "CardAction option"
  cm_QuotedParentMessage :: "QuotedParentMessage option"

definition SplitForEncryption :: "cass_message \<Rightarrow> EncryptedFields" where
  "SplitForEncryption m =
     \<lparr>ef_Msg = cm_Msg m, ef_Attachments = cm_Attachments m, ef_Card = cm_Card m, ef_CardAction = cm_CardAction m,
      ef_QuotedParentContent =
        (case cm_QuotedParentMessage m of
           None \<Rightarrow> None
         | Some q \<Rightarrow> if qp_Msg q \<noteq> '''' \<or> qp_Attachments q \<noteq> []
                     then Some \<lparr>qe_Msg = qp_Msg q, qe_Attachments = qp_Attachments q\<rparr> else None)\<rparr>"

definition StripEncryptedFields :: "cass_message \<Rightarrow> cass_message" where
  "StripEncryptedFields m = m\<lparr>cm_Msg := '''', cm_Attachments := [], cm_Card := None, cm_CardAction := None,
     cm_QuotedParentMessage := map_option (\<lambda>q. q\<lparr>qp_Msg := '''', qp_Attachments := []\<rparr>) (cm_QuotedParentMessage m)\<rparr>"

text \<open>A cipher encrypts the fields of a room with a fresh random nonce, and opens a payload with the nonce it was made with.\<close>

record Cipher =
  Encrypt :: "string \<Rightarrow> EncryptedFields \<Rightarrow> string \<Rightarrow> mw_err + string"
  Decrypt :: "string \<Rightarrow> string \<Rightarrow> string \<Rightarrow> mw_err + EncryptedFields"

definition ApplyDecryptedFields :: "cass_message \<Rightarrow> EncryptedFields \<Rightarrow> QuotedParentMessage \<Rightarrow> cass_message" where
  "ApplyDecryptedFields m enc blank =
     (let m1 = m\<lparr>cm_Msg := ef_Msg enc, cm_Attachments := ef_Attachments enc, cm_Card := ef_Card enc, cm_CardAction := ef_CardAction enc\<rparr> in
      case ef_QuotedParentContent enc of
        None \<Rightarrow> m1
      | Some c \<Rightarrow>
          (let q = (case cm_QuotedParentMessage m1 of None \<Rightarrow> blank | Some q \<Rightarrow> q) in
           m1\<lparr>cm_QuotedParentMessage := Some (q\<lparr>qp_Msg := qe_Msg c, qp_Attachments := qe_Attachments c\<rparr>)\<rparr>))"

definition EncodeAttachments :: "(Attachment \<Rightarrow> string option) \<Rightarrow> Attachment list \<Rightarrow> string list" where
  "EncodeAttachments marshal atts = List.map_filter marshal atts"

definition buildCassandraMessage :: "(Attachment \<Rightarrow> string option) \<Rightarrow> Message \<Rightarrow> cass_message" where
  "buildCassandraMessage marshal msg =
     \<lparr>cm_RoomID = m_RoomID msg, cm_MessageID = m_ID msg, cm_Msg = m_Content msg, cm_Attachments = m_Attachments msg,
      cm_Card = m_Card msg, cm_CardAction = m_CardAction msg,
      cm_QuotedParentMessage =
        map_option (\<lambda>q. q\<lparr>qp_Attachments := EncodeAttachments marshal (qp_DecodedAttachments q)\<rparr>) (m_QuotedParentMessage msg)\<rparr>"

section \<open>The store\<close>

text \<open>What the store is built with: the bucket size, the cipher (absent when encryption is off), the thread-count policy, the tie break
  of the database and the encoder of an attachment.\<close>

record cass_store =
  cs_bucket :: Sizer
  cs_cipher :: "Cipher option"
  cs_threadPolicy :: Policy
  cs_tie :: tie_break
  cs_marshal :: "Attachment \<Rightarrow> string option"

text \<open>What the outside decides while one write runs: the client's clock, the nonce drawn, the fate of the batch, and the calls and the
  redelivery flag of the reply count.\<close>

record cass_call =
  cc_clock :: int
  cc_nonce :: string
  cc_fate :: cass_fate
  cc_tc :: tc_calls
  cc_redelivery :: bool

definition writeTS :: "int \<Rightarrow> int" where "writeTS createdAt = createdAt * 1000"

definition strip_cols :: "(string \<times> cval) list" where
  "strip_cols = [(''msg'', VNull), (''attachments'', VNull), (''card'', VNull), (''card_action'', VNull)]"

definition strip :: "target \<Rightarrow> stmt" where
  "strip k = \<lparr>st_target = k, st_insert = False, st_cols = strip_cols, st_using = None\<rparr>"

definition stripLegacyPlaintextByRoom :: "room_key \<Rightarrow> stmt" where "stripLegacyPlaintextByRoom k = strip (ByRoom k)"
definition stripLegacyPlaintextByID :: "string \<Rightarrow> stmt" where "stripLegacyPlaintextByID k = strip (ById k)"
definition stripLegacyPlaintextThread :: "thread_key \<Rightarrow> stmt" where "stripLegacyPlaintextThread k = strip (ByThread k)"

text \<open>The columns the INSERTs share, the plain body, and the columns of a thread reply.\<close>

definition meta_cols :: "Message \<Rightarrow> CassParticipant option \<Rightarrow> string \<Rightarrow> QuotedParentMessage option \<Rightarrow> (string \<times> cval) list" where
  "meta_cols msg sender siteID quote =
     [(''sender'', bind_sender sender), (''site_id'', VStr siteID), (''updated_at'', VTime (m_CreatedAt msg)),
      (''mentions'', bind_parts (toMentionSet (m_Mentions msg))), (''type'', VStr (m_Type msg)), (''sys_msg_data'', bind_blob (m_SysMsgData msg)),
      (''tshow'', VBool (m_TShow msg)), (''quoted_parent_message'', bind_quote quote), (''visible_to'', VStr (m_VisibleTo msg))]"

definition body_cols :: "Message \<Rightarrow> (string \<times> cval) list" where
  "body_cols msg = [(''msg'', VStr (m_Content msg)), (''attachments'', bind_blobs (m_Attachments msg)),
     (''card'', bind_card (m_Card msg)), (''card_action'', bind_action (m_CardAction msg))]"

definition enc_cols :: "string \<Rightarrow> string \<Rightarrow> (string \<times> cval) list" where
  "enc_cols payload nonce = [(''enc_payload'', VStr payload), (''enc_meta'', VMeta nonce)]"

definition id_cols :: "Message \<Rightarrow> (string \<times> cval) list" where
  "id_cols msg = [(''created_at'', VTime (m_CreatedAt msg)), (''room_id'', VStr (m_RoomID msg))]"

definition reply_cols :: "Message \<Rightarrow> string \<Rightarrow> (string \<times> cval) list" where
  "reply_cols msg threadRoomID = [(''thread_room_id'', VStr threadRoomID), (''thread_parent_id'', VStr (m_ThreadParentMessageID msg)),
     (''thread_parent_created_at'', bind_time (m_ThreadParentMessageCreatedAt msg))]"

definition room_key_msg :: "cass_store \<Rightarrow> Message \<Rightarrow> room_key" where
  "room_key_msg s msg = (m_RoomID msg, Of (cs_bucket s) (m_CreatedAt msg), m_CreatedAt msg, m_ID msg)"

definition thread_key_msg :: "string \<Rightarrow> Message \<Rightarrow> thread_key" where
  "thread_key_msg threadRoomID msg = (threadRoomID, m_CreatedAt msg, m_ID msg)"

definition insert_stmt :: "target \<Rightarrow> (string \<times> cval) list \<Rightarrow> int option \<Rightarrow> stmt" where
  "insert_stmt k cols ts = \<lparr>st_target = k, st_insert = True, st_cols = cols, st_using = ts\<rparr>"

definition plain_stmts :: "cass_store \<Rightarrow> Message \<Rightarrow> CassParticipant option \<Rightarrow> string \<Rightarrow> stmt list" where
  "plain_stmts s msg sender siteID =
     (let cols = meta_cols msg sender siteID (m_QuotedParentMessage msg) @ body_cols msg; ts = Some (writeTS (m_CreatedAt msg)) in
      [insert_stmt (ByRoom (room_key_msg s msg)) cols ts, insert_stmt (ById (m_ID msg)) (id_cols msg @ cols) ts])"

definition enc_stmts :: "cass_store \<Rightarrow> Message \<Rightarrow> cass_message \<Rightarrow> CassParticipant option \<Rightarrow> string \<Rightarrow> string \<Rightarrow> string \<Rightarrow> stmt list" where
  "enc_stmts s msg cm sender siteID payload nonce =
     (let cols = meta_cols msg sender siteID (cm_QuotedParentMessage cm) @ enc_cols payload nonce in
      [insert_stmt (ByRoom (room_key_msg s msg)) cols None, stripLegacyPlaintextByRoom (room_key_msg s msg),
       insert_stmt (ById (m_ID msg)) (id_cols msg @ cols) None, stripLegacyPlaintextByID (m_ID msg)])"

text \<open>Encrypting a message gives the payload and the message without its body.\<close>

definition encrypt_message :: "cass_store \<Rightarrow> Cipher \<Rightarrow> string \<Rightarrow> Message \<Rightarrow> mw_err + (string \<times> cass_message)" where
  "encrypt_message s cipher nonce msg =
     (let cm = buildCassandraMessage (cs_marshal s) msg in
      case Encrypt cipher (cm_RoomID cm) (SplitForEncryption cm) nonce of
        Inl e \<Rightarrow> Inl (MWrap (''encrypt message '' @ cm_MessageID cm @ '' in room '' @ cm_RoomID cm) e)
      | Inr payload \<Rightarrow> Inr (payload, StripEncryptedFields cm))"

definition saveMessageEncrypted ::
  "cass_store \<Rightarrow> Cipher \<Rightarrow> cass_call \<Rightarrow> Message \<Rightarrow> CassParticipant option \<Rightarrow> string \<Rightarrow> cass_tables \<Rightarrow> mw_err option \<times> cass_tables" where
  "saveMessageEncrypted s cipher n msg sender siteID t =
     (case encrypt_message s cipher (cc_nonce n) msg of
        Inl e \<Rightarrow> (Some e, t)
      | Inr (payload, cm) \<Rightarrow>
          (case executeBatch (cs_tie s) (cc_clock n) (cc_fate n) (enc_stmts s msg cm sender siteID payload (cc_nonce n)) t of
             (err, t') \<Rightarrow> (map_option (MWrap (''save message '' @ m_ID msg)) err, t')))"

definition SaveMessage ::
  "cass_store \<Rightarrow> cass_call \<Rightarrow> Message \<Rightarrow> CassParticipant option \<Rightarrow> string \<Rightarrow> cass_tables \<Rightarrow> mw_err option \<times> cass_tables" where
  "SaveMessage s n msg sender siteID t =
     (case cs_cipher s of
        Some cipher \<Rightarrow> saveMessageEncrypted s cipher n msg sender siteID t
      | None \<Rightarrow>
          (case executeBatch (cs_tie s) (cc_clock n) (cc_fate n) (plain_stmts s msg sender siteID) t of
             (err, t') \<Rightarrow> (map_option (MWrap (''save message '' @ m_ID msg)) err, t')))"

section \<open>Thread replies\<close>

definition plain_reply_stmts :: "cass_store \<Rightarrow> Message \<Rightarrow> CassParticipant option \<Rightarrow> string \<Rightarrow> string \<Rightarrow> stmt list" where
  "plain_reply_stmts s msg sender siteID threadRoomID =
     (let cols = meta_cols msg sender siteID (m_QuotedParentMessage msg) @ body_cols msg; ts = Some (writeTS (m_CreatedAt msg)) in
      [insert_stmt (ById (m_ID msg)) (id_cols msg @ reply_cols msg threadRoomID @ cols) ts,
       insert_stmt (ByThread (thread_key_msg threadRoomID msg))
         ([(''room_id'', VStr (m_RoomID msg)), (''thread_parent_id'', VStr (m_ThreadParentMessageID msg))] @ cols) ts]
      @ (if m_TShow msg then [insert_stmt (ByRoom (room_key_msg s msg)) (reply_cols msg threadRoomID @ cols) ts] else []))"

definition enc_reply_stmts ::
  "cass_store \<Rightarrow> Message \<Rightarrow> cass_message \<Rightarrow> CassParticipant option \<Rightarrow> string \<Rightarrow> string \<Rightarrow> string \<Rightarrow> string \<Rightarrow> stmt list" where
  "enc_reply_stmts s msg cm sender siteID threadRoomID payload nonce =
     (let cols = meta_cols msg sender siteID (cm_QuotedParentMessage cm) @ enc_cols payload nonce in
      [insert_stmt (ById (m_ID msg)) (id_cols msg @ reply_cols msg threadRoomID @ cols) None, stripLegacyPlaintextByID (m_ID msg),
       insert_stmt (ByThread (thread_key_msg threadRoomID msg))
         ([(''room_id'', VStr (m_RoomID msg)), (''thread_parent_id'', VStr (m_ThreadParentMessageID msg))] @ cols) None,
       stripLegacyPlaintextThread (thread_key_msg threadRoomID msg)]
      @ (if m_TShow msg then [insert_stmt (ByRoom (room_key_msg s msg)) (reply_cols msg threadRoomID @ cols) None,
                              stripLegacyPlaintextByRoom (room_key_msg s msg)] else []))"

text \<open>The columns the reply count reads and writes, seen as the tables of its own theory. A thread is read from the newest reply on.\<close>

definition int_cell :: "cass_row \<Rightarrow> string \<Rightarrow> int option" where
  "int_cell r c = (case cell r c of VInt n \<Rightarrow> Some n | VTime n \<Rightarrow> Some n | _ \<Rightarrow> None)"

definition counts_of :: "cass_row \<Rightarrow> parentCounts option" where
  "counts_of r = (if row_exists r then Some \<lparr>pc_replies = int_cell r ''tcount'', pc_lastReplyAt = int_cell r ''thread_last_msg_at''\<rparr> else None)"

definition thread_rows :: "cass_tables \<Rightarrow> string \<Rightarrow> thread_key list" where
  "thread_rows t th = rev (sort_key (\<lambda>(_, created, i). (created, i)) (filter (\<lambda>k. fst k = th) (ct_thread_keys t)))"

definition tc_view :: "cass_tables \<Rightarrow> tc_tables" where
  "tc_view t =
     \<lparr>tb_replies = (\<lambda>th. map (\<lambda>k. \<lparr>rr_deleted = (cell (ct_by_thread t k) ''deleted'' = VBool True), rr_created = fst (snd k)\<rparr>) (thread_rows t th)),
      tb_by_id = (\<lambda>i. counts_of (ct_by_id t i)), tb_by_room = (\<lambda>k. counts_of (ct_by_room t k))\<rparr>"

definition opt_cell :: "(int \<Rightarrow> cval) \<Rightarrow> int option \<Rightarrow> cval" where
  "opt_cell f v = (case v of None \<Rightarrow> VNull | Some n \<Rightarrow> f n)"

definition put_row_counts :: "int \<Rightarrow> parentCounts option \<Rightarrow> cass_row \<Rightarrow> cass_row" where
  "put_row_counts clock c r =
     (if c = counts_of r then r
      else case c of
        None \<Rightarrow> r
      | Some c \<Rightarrow> r\<lparr>row_cells := (row_cells r)(''tcount'' := Some (opt_cell VInt (pc_replies c), clock),
                                              ''thread_last_msg_at'' := Some (opt_cell VTime (pc_lastReplyAt c), clock))\<rparr>)"

definition put_counts_back :: "int \<Rightarrow> Parent \<Rightarrow> tc_tables \<Rightarrow> cass_tables \<Rightarrow> cass_tables" where
  "put_counts_back clock p v t =
     t\<lparr>ct_by_id := (ct_by_id t)(pa_MessageID p := put_row_counts clock (tb_by_id v (pa_MessageID p)) (ct_by_id t (pa_MessageID p))),
       ct_by_room := (ct_by_room t)(room_key_of p := put_row_counts clock (tb_by_room v (room_key_of p)) (ct_by_room t (room_key_of p)))\<rparr>"

definition alone :: "tc_calls \<Rightarrow> tc_calls" where "alone n = n\<lparr>tc_before := (\<lambda>_ t. t)\<rparr>"

definition countAndSetParentTcount :: "cass_store \<Rightarrow> cass_call \<Rightarrow> Message \<Rightarrow> string \<Rightarrow> cass_tables \<Rightarrow> (mw_err + int option) \<times> cass_tables" where
  "countAndSetParentTcount s n msg threadRoomID t =
     (case m_ThreadParentMessageCreatedAt msg of
        None \<Rightarrow> (Inr None, t)
      | Some parentCreatedAt \<Rightarrow>
          (let parent = NewParent (m_ThreadParentMessageID msg) (m_RoomID msg) threadRoomID parentCreatedAt (cs_bucket s) in
           case Maintain (alone (cc_tc n)) parent (cs_threadPolicy s) 1 (Some (m_CreatedAt msg)) (cc_redelivery n) (tc_view t) of
             (Inl e, v) \<Rightarrow> (Inl (MWrap ''maintain parent tcount'' (MGo e)), put_counts_back (cc_clock n) parent v t)
           | (Inr res, v) \<Rightarrow> (Inr (Some (re_Count res)), put_counts_back (cc_clock n) parent v t)))"

definition after_batch :: "cass_store \<Rightarrow> cass_call \<Rightarrow> Message \<Rightarrow> string \<Rightarrow> stmt list \<Rightarrow> cass_tables \<Rightarrow> (mw_err + int option) \<times> cass_tables" where
  "after_batch s n msg threadRoomID ss t =
     (case executeBatch (cs_tie s) (cc_clock n) (cc_fate n) ss t of
        (Some e, t') \<Rightarrow> (Inl (MWrap (''save thread message '' @ m_ID msg) e), t')
      | (None, t') \<Rightarrow> countAndSetParentTcount s n msg threadRoomID t')"

definition saveThreadMessageEncrypted ::
  "cass_store \<Rightarrow> Cipher \<Rightarrow> cass_call \<Rightarrow> Message \<Rightarrow> CassParticipant option \<Rightarrow> string \<Rightarrow> string \<Rightarrow> cass_tables \<Rightarrow> (mw_err + int option) \<times> cass_tables" where
  "saveThreadMessageEncrypted s cipher n msg sender siteID threadRoomID t =
     (case encrypt_message s cipher (cc_nonce n) msg of
        Inl e \<Rightarrow> (Inl e, t)
      | Inr (payload, cm) \<Rightarrow> after_batch s n msg threadRoomID (enc_reply_stmts s msg cm sender siteID threadRoomID payload (cc_nonce n)) t)"

definition SaveThreadMessage ::
  "cass_store \<Rightarrow> cass_call \<Rightarrow> Message \<Rightarrow> CassParticipant option \<Rightarrow> string \<Rightarrow> string \<Rightarrow> cass_tables \<Rightarrow> (mw_err + int option) \<times> cass_tables" where
  "SaveThreadMessage s n msg sender siteID threadRoomID t =
     (case cs_cipher s of
        Some cipher \<Rightarrow> saveThreadMessageEncrypted s cipher n msg sender siteID threadRoomID t
      | None \<Rightarrow> after_batch s n msg threadRoomID (plain_reply_stmts s msg sender siteID threadRoomID) t)"

section \<open>Reads and the stamp on the parent\<close>

text \<open>A null column scans as the zero value of its Go type.\<close>

definition go_zero_time :: int where "go_zero_time = - 62135596800000"

definition str_cell :: "cass_row \<Rightarrow> string \<Rightarrow> string" where
  "str_cell r c = (case cell r c of VStr s \<Rightarrow> s | _ \<Rightarrow> '''')"
definition part_cell :: "cass_row \<Rightarrow> string \<Rightarrow> CassParticipant" where
  "part_cell r c = (case cell r c of VPart p \<Rightarrow> p | _ \<Rightarrow> no_participant)"
definition parts_cell :: "cass_row \<Rightarrow> string \<Rightarrow> CassParticipant list" where
  "parts_cell r c = (case cell r c of VParts ps \<Rightarrow> ps | _ \<Rightarrow> [])"
definition time_cell :: "cass_row \<Rightarrow> string \<Rightarrow> int" where
  "time_cell r c = (case int_cell r c of Some t \<Rightarrow> t | None \<Rightarrow> go_zero_time)"
definition meta_cell :: "cass_row \<Rightarrow> string \<Rightarrow> string option" where
  "meta_cell r c = (case cell r c of VMeta m \<Rightarrow> Some m | _ \<Rightarrow> None)"

text \<open>A conditional UPDATE of one column: applied only when the row exists. It is a lightweight transaction, so its write time is
  later than that of everything it read.\<close>

definition stamp_row :: "string \<Rightarrow> int \<Rightarrow> cass_row \<Rightarrow> bool \<times> cass_row" where
  "stamp_row threadRoomID clock r =
     (if row_exists r then (True, r\<lparr>row_cells := (row_cells r)(''thread_room_id'' := Some (VStr threadRoomID, clock))\<rparr>) else (False, r))"

text \<open>A conditional statement that fails may have been applied.\<close>

datatype cas_fate = CasOk | CasErr mw_err bool

definition run_cas :: "cas_fate \<Rightarrow> string \<Rightarrow> int \<Rightarrow> cass_row \<Rightarrow> (mw_err + bool) \<times> cass_row" where
  "run_cas fate threadRoomID clock r =
     (case fate of
        CasOk \<Rightarrow> (case stamp_row threadRoomID clock r of (applied, r') \<Rightarrow> (Inr applied, r'))
      | CasErr e landed \<Rightarrow> (Inl e, if landed then snd (stamp_row threadRoomID clock r) else r))"

definition UpdateParentMessageThreadRoomID ::
  "cass_store \<Rightarrow> int \<Rightarrow> cas_fate \<Rightarrow> cas_fate \<Rightarrow> string \<Rightarrow> string \<Rightarrow> int \<Rightarrow> string \<Rightarrow> cass_tables \<Rightarrow> (mw_err + bool) \<times> cass_tables" where
  "UpdateParentMessageThreadRoomID s clock fate1 fate2 parentMessageID roomID parentCreatedAt threadRoomID t =
     (let (res1, r1) = run_cas fate1 threadRoomID clock (ct_by_id t parentMessageID);
          t1 = t\<lparr>ct_by_id := (ct_by_id t)(parentMessageID := r1)\<rparr> in
      case res1 of
        Inl e \<Rightarrow> (Inl (MWrap (''set thread_room_id on parent '' @ parentMessageID @ '' in messages_by_id'') e), t1)
      | Inr byIDApplied \<Rightarrow>
          (let key = (roomID, Of (cs_bucket s) parentCreatedAt, parentCreatedAt, parentMessageID);
               (res2, r2) = run_cas fate2 threadRoomID clock (ct_by_room t1 key);
               t2 = t1\<lparr>ct_by_room := (ct_by_room t1)(key := r2)\<rparr> in
           case res2 of
             Inl e \<Rightarrow> (Inl (MWrap (''set thread_room_id on parent '' @ parentMessageID @ '' in messages_by_room'') e), t2)
           | Inr applied \<Rightarrow> (Inr (byIDApplied \<and> applied), t2)))"

definition GetQuotedParentSnapshot ::
  "cass_store \<Rightarrow> mw_err option \<Rightarrow> string \<Rightarrow> cass_tables \<Rightarrow> mw_err + QuotedParentMessage option" where
  "GetQuotedParentSnapshot s err messageID t =
     (case err of
        Some e \<Rightarrow> Inl (MWrap (''get quoted parent snapshot for message '' @ messageID) e)
      | None \<Rightarrow>
          (let r = ct_by_id t messageID;
               snap = (\<lambda>msg. \<lparr>qp_MessageID = messageID, qp_RoomID = str_cell r ''room_id'', qp_Sender = part_cell r ''sender'',
                 qp_CreatedAt = time_cell r ''created_at'', qp_Msg = msg, qp_Mentions = parts_cell r ''mentions'', qp_Attachments = [],
                 qp_DecodedAttachments = [], qp_MessageLink = '''', qp_ThreadParentID = str_cell r ''thread_parent_id'',
                 qp_ThreadParentCreatedAt = int_cell r ''thread_parent_created_at'', qp_TShow = False\<rparr>) in
           if \<not> row_exists r then Inr None
           else (case cs_cipher s of
               Some cipher \<Rightarrow>
                 if str_cell r ''enc_payload'' \<noteq> '''' then
                   (case meta_cell r ''enc_meta'' of
                      None \<Rightarrow> Inl (MGo (Raw (''quoted parent '' @ messageID @ '' has enc_payload but no enc_meta'')))
                    | Some nonce \<Rightarrow>
                        (case Decrypt cipher (str_cell r ''room_id'') (str_cell r ''enc_payload'') nonce of
                           Inl e \<Rightarrow> Inl (MWrap (''decrypt quoted parent '' @ messageID) e)
                         | Inr opened \<Rightarrow> Inr (Some (snap (ef_Msg opened)))))
                 else Inr (Some (snap (str_cell r ''msg'')))
             | None \<Rightarrow> Inr (Some (snap (str_cell r ''msg''))))))"

definition GetMessageCreatedAt :: "mw_err option \<Rightarrow> string \<Rightarrow> cass_tables \<Rightarrow> mw_err + int option" where
  "GetMessageCreatedAt err messageID t =
     (case err of
        Some e \<Rightarrow> Inl (MWrap (''get createdAt for message '' @ messageID) e)
      | None \<Rightarrow> Inr (if row_exists (ct_by_id t messageID) then Some (time_cell (ct_by_id t messageID) ''created_at'') else None))"

definition GetMessageSender :: "mw_err option \<Rightarrow> string \<Rightarrow> cass_tables \<Rightarrow> mw_err + CassParticipant" where
  "GetMessageSender err messageID t =
     (let what = MWrap (''get sender for message '' @ messageID) in
      case err of
        Some e \<Rightarrow> Inl (what e)
      | None \<Rightarrow> if row_exists (ct_by_id t messageID) then Inr (part_cell (ct_by_id t messageID) ''sender'') else Inl (what errMessageNotFound))"

end
