(* ===== verification/Thread_Store.thy ===== *)
theory Thread_Store
  imports Msg_Settle Chat_Model
begin

text \<open>
  The MongoDB side of message-worker's threads (\<open>src/message-worker/store_mongo.go\<close>): the thread rooms, the thread
  subscriptions, which a unique index keeps to one per room and account, and the room subscriptions with their
  history windows and unread threads. A call may fail before or after its write took effect, and an upsert may lose the race
  against a concurrent one; the fate of a call is an argument, and so is the readiness of the index it relies on.
\<close>

section \<open>Collections\<close>

record ThreadRoom =
  trm_ID :: string
  trm_ParentMessageID :: string
  trm_ThreadParentCreatedAt :: int
  trm_RoomID :: string
  trm_SiteID :: string
  trm_LastMsgAt :: int
  trm_LastMsgID :: string
  trm_ReplyAccounts :: "string list"
  trm_CreatedAt :: int
  trm_UpdatedAt :: int
  trm_ParentStamped :: bool
  trm_ParentSubscribed :: bool

text \<open>A room subscription, in the fields this store reads and writes.\<close>

record membership =
  mb_roomId :: string
  mb_account :: string
  mb_historySharedSince :: "int option"
  mb_threadUnread :: "string list"

record thread_db =
  td_rooms :: "ThreadRoom list"
  td_subs :: "string \<times> string \<Rightarrow> ThreadSubscription option"
  td_members :: "membership list"

text \<open>The fate of a write: it succeeds; it fails with an error, before or after its effect; or the insert of an upsert is
  refused as a duplicate after another writer changed the collections. The last also stands for an update of many documents
  that fails half way, with the function of what it did.\<close>

datatype mongo_fate = MgOk | MgErr mw_err bool | MgDup mw_err "thread_db \<Rightarrow> thread_db"

record mg_call =
  mg_gate1 :: "mw_err option"
  mg_gate2 :: "mw_err option"
  mg_fate :: mongo_fate
  mg_fate2 :: mongo_fate
  mg_read :: "mw_err option"

definition write_call :: "mongo_fate \<Rightarrow> string \<Rightarrow> (thread_db \<Rightarrow> thread_db) \<Rightarrow> thread_db \<Rightarrow> mw_err option \<times> thread_db" where
  "write_call fate what f db =
     (case fate of
        MgOk \<Rightarrow> (None, f db)
      | MgErr e landed \<Rightarrow> (Some (MWrap what e), if landed then f db else db)
      | MgDup e other \<Rightarrow> (Some (MWrap what e), other db))"

definition gated :: "mw_err option \<Rightarrow> (thread_db \<Rightarrow> mw_err option \<times> thread_db) \<Rightarrow> thread_db \<Rightarrow> mw_err option \<times> thread_db" where
  "gated gate m db = (case gate of Some e \<Rightarrow> (Some e, db) | None \<Rightarrow> m db)"

text \<open>\<open>$addToSet\<close> with \<open>$each\<close>.\<close>

definition addToSet :: "string list \<Rightarrow> string list \<Rightarrow> string list" where
  "addToSet new old = fold (\<lambda>x xs. if x \<in> set xs then xs else xs @ [x]) new old"

text \<open>Updates of the room with an id.\<close>

definition update_room :: "string \<Rightarrow> (ThreadRoom \<Rightarrow> ThreadRoom) \<Rightarrow> thread_db \<Rightarrow> thread_db" where
  "update_room i f db = db\<lparr>td_rooms := map (\<lambda>r. if trm_ID r = i then f r else r) (td_rooms db)\<rparr>"

section \<open>Thread rooms\<close>

definition room_of_parent :: "string \<Rightarrow> thread_db \<Rightarrow> ThreadRoom option" where
  "room_of_parent parentMessageID db = find (\<lambda>r. trm_ParentMessageID r = parentMessageID) (td_rooms db)"

definition insert_room :: "ThreadRoom \<Rightarrow> thread_db \<Rightarrow> thread_db" where
  "insert_room r db = db\<lparr>td_rooms := td_rooms db @ [r]\<rparr>"

definition EnsureThreadRoom :: "mg_call \<Rightarrow> ThreadRoom \<Rightarrow> thread_db \<Rightarrow> (mw_err + ThreadRoom \<times> bool) \<times> thread_db" where
  "EnsureThreadRoom n room db =
     (let what = ''ensure thread room for parent '' @ trm_ParentMessageID room in
      case mg_gate1 n of Some e \<Rightarrow> (Inl e, db) | None \<Rightarrow>
      (case mg_gate2 n of Some e \<Rightarrow> (Inl e, db) | None \<Rightarrow>
       (case room_of_parent (trm_ParentMessageID room) db of
          Some existing \<Rightarrow>
            (case mg_fate n of MgErr e _ \<Rightarrow> (Inl (MWrap what e), db) | _ \<Rightarrow> (Inr (existing, False), db))
        | None \<Rightarrow>
            (case mg_fate n of
               MgOk \<Rightarrow> (Inr (room, True), insert_room room db)
             | MgErr e landed \<Rightarrow> (Inl (MWrap what e), if landed then insert_room room db else db)
             | MgDup e other \<Rightarrow>
                 (let db' = other db in
                  case mg_read n of
                    Some ferr \<Rightarrow> (Inl (MWrap (''read thread room after upsert race for parent '' @ trm_ParentMessageID room) ferr), db')
                  | None \<Rightarrow>
                      (case room_of_parent (trm_ParentMessageID room) db' of
                         Some stored \<Rightarrow> (Inr (stored, False), db')
                       | None \<Rightarrow> (Inl (MWrap what e), db')))))))"

definition MarkParentStamped :: "mg_call \<Rightarrow> string \<Rightarrow> thread_db \<Rightarrow> mw_err option \<times> thread_db" where
  "MarkParentStamped n threadRoomID =
     write_call (mg_fate n) (''mark parent stamped on thread room '' @ threadRoomID)
       (update_room threadRoomID (\<lambda>r. r\<lparr>trm_ParentStamped := True\<rparr>))"

definition MarkParentSubscribed :: "mg_call \<Rightarrow> string \<Rightarrow> thread_db \<Rightarrow> mw_err option \<times> thread_db" where
  "MarkParentSubscribed n threadRoomID =
     write_call (mg_fate n) (''mark parent subscribed on thread room '' @ threadRoomID)
       (update_room threadRoomID (\<lambda>r. r\<lparr>trm_ParentSubscribed := True\<rparr>))"

definition UpdateThreadRoomLastMessage ::
  "mg_call \<Rightarrow> string \<Rightarrow> string \<Rightarrow> string list \<Rightarrow> int \<Rightarrow> thread_db \<Rightarrow> mw_err option \<times> thread_db" where
  "UpdateThreadRoomLastMessage n threadRoomID lastMsgID replyAccounts lastMsgAt =
     write_call (mg_fate n) ''update thread room last message''
       (update_room threadRoomID (\<lambda>r. r\<lparr>trm_LastMsgAt := lastMsgAt, trm_LastMsgID := lastMsgID, trm_UpdatedAt := lastMsgAt,
          trm_ReplyAccounts := addToSet replyAccounts (trm_ReplyAccounts r)\<rparr>))"

definition AddReplyAccounts :: "mg_call \<Rightarrow> string \<Rightarrow> string list \<Rightarrow> thread_db \<Rightarrow> mw_err option \<times> thread_db" where
  "AddReplyAccounts n threadRoomID accounts db =
     (if accounts = [] then (None, db)
      else write_call (mg_fate n) (''add reply accounts to thread room '' @ threadRoomID)
        (update_room threadRoomID (\<lambda>r. r\<lparr>trm_ReplyAccounts := addToSet accounts (trm_ReplyAccounts r)\<rparr>)) db)"

section \<open>Thread subscriptions\<close>

definition tsub_key :: "ThreadSubscription \<Rightarrow> string \<times> string" where
  "tsub_key sub = (ts_ThreadRoomID sub, ts_UserAccount sub)"

definition put_sub :: "ThreadSubscription \<Rightarrow> thread_db \<Rightarrow> thread_db" where
  "put_sub sub db = db\<lparr>td_subs := (td_subs db)(tsub_key sub := Some sub)\<rparr>"

definition put_sub_if_absent :: "ThreadSubscription \<Rightarrow> thread_db \<Rightarrow> thread_db" where
  "put_sub_if_absent sub db = (if td_subs db (tsub_key sub) = None then put_sub sub db else db)"

text \<open>A duplicate is refused by the unique index.\<close>

definition dup_err :: mw_err where "dup_err = MGo (Raw ''E11000 duplicate key'')"

definition InsertThreadSubscription :: "mg_call \<Rightarrow> ThreadSubscription \<Rightarrow> thread_db \<Rightarrow> mw_err option \<times> thread_db" where
  "InsertThreadSubscription n sub = gated (mg_gate1 n) (\<lambda>db.
     if td_subs db (tsub_key sub) \<noteq> None
     then (case mg_fate n of MgErr e _ \<Rightarrow> (Some (MWrap ''insert thread subscription'' e), db)
           | _ \<Rightarrow> (Some (MWrap ''insert thread subscription'' dup_err), db))
     else write_call (mg_fate n) ''insert thread subscription'' (put_sub sub) db)"

definition mw_UpsertThreadSubscription :: "mg_call \<Rightarrow> ThreadSubscription \<Rightarrow> thread_db \<Rightarrow> mw_err option \<times> thread_db" where
  "mw_UpsertThreadSubscription n sub = gated (mg_gate1 n)
     (write_call (mg_fate n) ''upsert thread subscription'' (put_sub_if_absent sub))"

text \<open>\<open>$max\<close> on \<open>lastSeenAt\<close>.\<close>

definition max_seen :: "int \<Rightarrow> ThreadSubscription \<Rightarrow> ThreadSubscription" where
  "max_seen t sub = sub\<lparr>ts_LastSeenAt := opt_max (ts_LastSeenAt sub) (Some t)\<rparr>"

definition advance_sub :: "string \<times> string \<Rightarrow> int \<Rightarrow> thread_db \<Rightarrow> thread_db" where
  "advance_sub k t db = db\<lparr>td_subs := (td_subs db)(k := map_option (max_seen t) (td_subs db k))\<rparr>"

definition upsert_advancing :: "ThreadSubscription \<Rightarrow> int \<Rightarrow> thread_db \<Rightarrow> thread_db" where
  "upsert_advancing sub t db = advance_sub (tsub_key sub) t (put_sub_if_absent (sub\<lparr>ts_LastSeenAt := None\<rparr>) db)"

definition UpsertThreadSubscriptionAdvancingLastSeen ::
  "mg_call \<Rightarrow> ThreadSubscription \<Rightarrow> int \<Rightarrow> thread_db \<Rightarrow> mw_err option \<times> thread_db" where
  "UpsertThreadSubscriptionAdvancingLastSeen n sub t = gated (mg_gate1 n) (\<lambda>db.
     case mg_fate n of
       MgDup e other \<Rightarrow>
         (let db1 = other db; what = ''upsert thread subscription advancing lastSeen'' in
          case write_call (mg_fate2 n) ''advance thread subscription lastSeen after upsert race'' (advance_sub (tsub_key sub) t) db1 of
            (Some raceErr, db2) \<Rightarrow> (Some raceErr, db2)
          | (None, db2) \<Rightarrow> if td_subs db1 (tsub_key sub) = None then (Some (MWrap what e), db2) else (None, db2))
     | _ \<Rightarrow> write_call (mg_fate n) ''upsert thread subscription advancing lastSeen'' (upsert_advancing sub t) db)"

definition mark_mention :: "ThreadSubscription \<Rightarrow> thread_db \<Rightarrow> thread_db" where
  "mark_mention sub db =
     db\<lparr>td_subs := (td_subs db)(tsub_key sub :=
       map_option (\<lambda>old. if (case ts_LastSeenAt old of None \<Rightarrow> False | Some l \<Rightarrow> l \<ge> ts_CreatedAt sub) then old
                         else old\<lparr>ts_HasMention := True, ts_UpdatedAt := ts_UpdatedAt sub\<rparr>) (td_subs db (tsub_key sub)))\<rparr>"

definition MarkThreadSubscriptionMention :: "mg_call \<Rightarrow> ThreadSubscription \<Rightarrow> thread_db \<Rightarrow> mw_err option \<times> thread_db" where
  "MarkThreadSubscriptionMention n sub = gated (mg_gate1 n) (\<lambda>db.
     case write_call (mg_fate n) ''mark thread subscription mention'' (put_sub_if_absent (sub\<lparr>ts_HasMention := True\<rparr>)) db of
       (Some e, db1) \<Rightarrow> (Some e, db1)
     | (None, db1) \<Rightarrow> write_call (mg_fate2 n) ''mark thread subscription mention (existing)'' (mark_mention sub) db1)"

definition AdvanceThreadSubscriptionLastSeen :: "mg_call \<Rightarrow> string \<Rightarrow> string \<Rightarrow> int \<Rightarrow> thread_db \<Rightarrow> mw_err option \<times> thread_db" where
  "AdvanceThreadSubscriptionLastSeen n threadRoomID account t =
     write_call (mg_fate n) (''advance thread lastSeenAt for '' @ account) (advance_sub (threadRoomID, account) t)"

section \<open>Room subscriptions\<close>

definition add_unread :: "string \<Rightarrow> string \<Rightarrow> string list \<Rightarrow> thread_db \<Rightarrow> thread_db" where
  "add_unread roomID parentMessageID accounts db =
     db\<lparr>td_members := map (\<lambda>m. if mb_roomId m = roomID \<and> mb_account m \<in> set accounts
          then m\<lparr>mb_threadUnread := addToSet [parentMessageID] (mb_threadUnread m)\<rparr> else m) (td_members db)\<rparr>"

definition mw_AddThreadUnread :: "mg_call \<Rightarrow> string \<Rightarrow> string \<Rightarrow> string list \<Rightarrow> thread_db \<Rightarrow> mw_err option \<times> thread_db" where
  "mw_AddThreadUnread n roomID parentMessageID accounts db =
     (if accounts = [] then (None, db)
      else write_call (mg_fate n) (''add thread unread '' @ parentMessageID) (add_unread roomID parentMessageID accounts) db)"

text \<open>The window of every account with a subscription in the room.\<close>

definition GetHistorySharedSince ::
  "mg_call \<Rightarrow> string \<Rightarrow> string list \<Rightarrow> thread_db \<Rightarrow> mw_err + (string \<Rightarrow> int option option)" where
  "GetHistorySharedSince n roomID accounts db =
     (if accounts = [] then Inr Map.empty
      else case mg_read n of
        Some e \<Rightarrow> Inl (MWrap (''query history windows for room '' @ roomID) e)
      | None \<Rightarrow> Inr (foldl (\<lambda>out m. out(mb_account m \<mapsto> mb_historySharedSince m)) Map.empty
          (filter (\<lambda>m. mb_roomId m = roomID \<and> mb_account m \<in> set accounts) (td_members db))))"

end
