(* ===== verification/Msg_Handler.thy ===== *)
theory Msg_Handler
  imports Cass_Rows Thread_Store Mention Federation
begin

text \<open>
  message-worker's handler (\<open>src/message-worker/handler.go\<close>): from the canonical event to the history tables, the thread's
  room and subscriptions, the unread marks, the federated copies and the badge. The handler is a chain of calls any of which
  may fail; a computation here takes the world and gives a result or an error with the world the calls made so far have left.
  Everything from outside is answered by the environment, call by call: the fates of the store calls, the user directory, the identifiers drawn,
  the health of the site's history, the encoders and the publishers.
\<close>

section \<open>Computations\<close>

record mw_world =
  w_cass :: cass_tables
  w_db :: thread_db
  w_published :: published
  w_calls :: nat

type_synonym 'a mw = "mw_world \<Rightarrow> (mw_err + 'a) \<times> mw_world"

definition ret :: "'a \<Rightarrow> 'a mw" where "ret x w = (Inr x, w)"

definition bnd :: "'a mw \<Rightarrow> ('a \<Rightarrow> 'b mw) \<Rightarrow> 'b mw" where
  "bnd m f w = (case m w of (Inl e, w') \<Rightarrow> (Inl e, w') | (Inr x, w') \<Rightarrow> f x w')"

definition throw :: "mw_err \<Rightarrow> 'a mw" where "throw e w = (Inl e, w)"

text \<open>The error of a computation changed: wrapped with a message, or tagged as a history failure (\<open>store_history.go\<close>).\<close>

definition map_err :: "(mw_err \<Rightarrow> mw_err) \<Rightarrow> 'a mw \<Rightarrow> 'a mw" where
  "map_err f m w = (case m w of (Inl e, w') \<Rightarrow> (Inl (f e), w') | r \<Rightarrow> r)"

definition wrapping :: "string \<Rightarrow> 'a mw \<Rightarrow> 'a mw" where "wrapping s = map_err (MWrap s)"

definition historyStore :: "'a mw \<Rightarrow> 'a mw" where "historyStore = map_err historyWriteError"

text \<open>The number of the call that is made now.\<close>

definition next_call :: "nat mw" where "next_call w = (Inr (w_calls w), w\<lparr>w_calls := Suc (w_calls w)\<rparr>)"

definition on_db :: "(thread_db \<Rightarrow> mw_err option \<times> thread_db) \<Rightarrow> unit mw" where
  "on_db f w = (case f (w_db w) of (err, d) \<Rightarrow> (case err of Some e \<Rightarrow> Inl e | None \<Rightarrow> Inr (), w\<lparr>w_db := d\<rparr>))"

fun for_each :: "('a \<Rightarrow> unit mw) \<Rightarrow> 'a list \<Rightarrow> unit mw" where
  "for_each f [] = ret ()"
| "for_each f (x # xs) = bnd (f x) (\<lambda>_. for_each f xs)"

section \<open>The environment\<close>

text \<open>The directory reports a missing user as an error of its own. A Go map is walked in an order the runtime picks: \<open>me_order\<close>.\<close>

record mw_env =
  me_siteID :: string
  me_store :: cass_store
  me_cass :: "nat \<Rightarrow> cass_call"
  me_stamp :: "nat \<Rightarrow> cas_fate \<times> cas_fate"
  me_readErr :: "nat \<Rightarrow> mw_err option"
  me_mongo :: "nat \<Rightarrow> mg_call"
  me_degraded :: "nat \<Rightarrow> bool"
  me_uuid :: "nat \<Rightarrow> string"
  me_now :: "nat \<Rightarrow> int"
  me_user :: "string \<Rightarrow> mw_err + mention_user"
  me_users :: "string list \<Rightarrow> mention_user list \<times> goerr option"
  me_publish :: "nat \<Rightarrow> publish_fn"
  me_codec :: relay_codec
  me_encSub :: "ThreadSubscription \<Rightarrow> string option"
  me_encUnread :: "ThreadUnreadAddedEvent \<Rightarrow> int \<Rightarrow> string option"
  me_encEvent :: "MessageEvent \<Rightarrow> string option"
  me_attempt :: "nat option"
  me_order :: "string list \<Rightarrow> string list"
  me_decode :: "string \<Rightarrow> MessageEvent option"

definition cass_clock :: "mw_env \<Rightarrow> nat \<Rightarrow> int" where "cass_clock h i = cc_clock (me_cass h i)"

text \<open>The calls of the history store.\<close>

definition h_SaveMessage :: "mw_env \<Rightarrow> Message \<Rightarrow> CassParticipant option \<Rightarrow> string \<Rightarrow> unit mw" where
  "h_SaveMessage h msg sender siteID = bnd next_call (\<lambda>i. historyStore (\<lambda>w.
     case SaveMessage (me_store h) (me_cass h i) msg sender siteID (w_cass w) of
       (err, t) \<Rightarrow> (case err of Some e \<Rightarrow> Inl e | None \<Rightarrow> Inr (), w\<lparr>w_cass := t\<rparr>)))"

definition h_SaveThreadMessage :: "mw_env \<Rightarrow> Message \<Rightarrow> CassParticipant option \<Rightarrow> string \<Rightarrow> string \<Rightarrow> int option mw" where
  "h_SaveThreadMessage h msg sender siteID threadRoomID = bnd next_call (\<lambda>i. historyStore (\<lambda>w.
     case SaveThreadMessage (me_store h) (me_cass h i) msg sender siteID threadRoomID (w_cass w) of
       (r, t) \<Rightarrow> (r, w\<lparr>w_cass := t\<rparr>)))"

definition h_GetMessageSender :: "mw_env \<Rightarrow> string \<Rightarrow> CassParticipant mw" where
  "h_GetMessageSender h messageID = bnd next_call (\<lambda>i. historyStore (\<lambda>w. (GetMessageSender (me_readErr h i) messageID (w_cass w), w)))"

definition h_GetQuotedParentSnapshot :: "mw_env \<Rightarrow> string \<Rightarrow> QuotedParentMessage option mw" where
  "h_GetQuotedParentSnapshot h messageID = bnd next_call (\<lambda>i. historyStore (\<lambda>w.
     (GetQuotedParentSnapshot (me_store h) (me_readErr h i) messageID (w_cass w), w)))"

definition h_GetMessageCreatedAt :: "mw_env \<Rightarrow> string \<Rightarrow> int option mw" where
  "h_GetMessageCreatedAt h messageID = bnd next_call (\<lambda>i. historyStore (\<lambda>w. (GetMessageCreatedAt (me_readErr h i) messageID (w_cass w), w)))"

definition h_UpdateParentMessageThreadRoomID :: "mw_env \<Rightarrow> string \<Rightarrow> string \<Rightarrow> int \<Rightarrow> string \<Rightarrow> bool mw" where
  "h_UpdateParentMessageThreadRoomID h parentMessageID roomID parentCreatedAt threadRoomID = bnd next_call (\<lambda>i. historyStore (\<lambda>w.
     case UpdateParentMessageThreadRoomID (me_store h) (cass_clock h i) (fst (me_stamp h i)) (snd (me_stamp h i))
            parentMessageID roomID parentCreatedAt threadRoomID (w_cass w) of
       (r, t) \<Rightarrow> (r, w\<lparr>w_cass := t\<rparr>)))"

text \<open>A call of the thread store.\<close>

definition h_db :: "mw_env \<Rightarrow> (mg_call \<Rightarrow> thread_db \<Rightarrow> mw_err option \<times> thread_db) \<Rightarrow> unit mw" where
  "h_db h f = bnd next_call (\<lambda>i. on_db (f (me_mongo h i)))"

definition h_EnsureThreadRoom :: "mw_env \<Rightarrow> ThreadRoom \<Rightarrow> (ThreadRoom \<times> bool) mw" where
  "h_EnsureThreadRoom h room = bnd next_call (\<lambda>i w.
     case EnsureThreadRoom (me_mongo h i) room (w_db w) of (r, d) \<Rightarrow> (r, w\<lparr>w_db := d\<rparr>))"

definition h_GetHistorySharedSince :: "mw_env \<Rightarrow> string \<Rightarrow> string list \<Rightarrow> (string \<Rightarrow> int option option) mw" where
  "h_GetHistorySharedSince h roomID accounts = bnd next_call (\<lambda>i w. (GetHistorySharedSince (me_mongo h i) roomID accounts (w_db w), w))"

text \<open>Publishing: what was handed to the broker is kept, whether or not the call reports success.\<close>

definition pub_failed :: "string \<Rightarrow> mw_err" where "pub_failed s = MGo (Raw s)"

definition mw_marshal_failed :: "string \<Rightarrow> mw_err" where
  "mw_marshal_failed what = MGo (case Err_Code.MarshalFailed what (Raw ''json'') of Inr e \<Rightarrow> e | Inl _ \<Rightarrow> Raw what)"

definition h_outbox :: "mw_env \<Rightarrow> string \<Rightarrow> string \<Rightarrow> InboxEventType \<Rightarrow> string \<Rightarrow> string \<Rightarrow> unit mw" where
  "h_outbox h roomID dest eventType payload dedupID = bnd next_call (\<lambda>i w.
     case Publish (me_codec h) (me_publish h i) (me_siteID h) roomID dest eventType payload dedupID (me_now h i) (me_now h i) of
       (err, sent) \<Rightarrow>
         (case err of
            None \<Rightarrow> Inr ()
          | Some (outbox_err.MarshalFailed what) \<Rightarrow> Inl (mw_marshal_failed what)
          | Some UnknownEventType \<Rightarrow> Inl (pub_failed ''unknown event type'')
          | Some MissingDedupID \<Rightarrow> Inl (pub_failed ''missing dedup id'')
          | Some (PublishFailed _) \<Rightarrow> Inl (pub_failed ''publish''),
          w\<lparr>w_published := w_published w @ sent\<rparr>))"

definition h_publish :: "mw_env \<Rightarrow> string \<Rightarrow> string \<Rightarrow> string \<Rightarrow> unit mw" where
  "h_publish h subj data msgID = bnd next_call (\<lambda>i w.
     (case me_publish h i subj data msgID of None \<Rightarrow> Inr () | Some _ \<Rightarrow> Inl (pub_failed ''publish''),
      w\<lparr>w_published := w_published w @ [(subj, data, msgID)]\<rparr>))"

section \<open>Federated copies\<close>

definition bool_str :: "bool \<Rightarrow> string" where "bool_str b = (if b then ''true'' else ''false'')"

definition buildThreadSubscription :: "string \<Rightarrow> Message \<Rightarrow> string \<Rightarrow> string \<Rightarrow> string \<Rightarrow> string \<Rightarrow> int \<Rightarrow> ThreadSubscription" where
  "buildThreadSubscription newID msg threadRoomID userID userAccount siteID now =
     \<lparr>ts_ID = newID, ts_ParentMessageID = m_ThreadParentMessageID msg, ts_RoomID = m_RoomID msg, ts_ThreadRoomID = threadRoomID,
      ts_UserID = userID, ts_UserAccount = userAccount, ts_SiteID = siteID, ts_LastSeenAt = None, ts_HasMention = False,
      ts_CreatedAt = now, ts_UpdatedAt = now\<rparr>"

definition h_buildSub :: "mw_env \<Rightarrow> Message \<Rightarrow> string \<Rightarrow> string \<Rightarrow> string \<Rightarrow> string \<Rightarrow> int \<Rightarrow> ThreadSubscription mw" where
  "h_buildSub h msg threadRoomID userID userAccount siteID now =
     bnd next_call (\<lambda>i. ret (buildThreadSubscription (me_uuid h i) msg threadRoomID userID userAccount siteID now))"

definition thread_sub_dedup :: "ThreadSubscription \<Rightarrow> string \<Rightarrow> string \<Rightarrow> string" where
  "thread_sub_dedup sub msgID ownerSiteID =
     Sprintf ''thread-sub-inbox:%s:%s:%s:%s:%s'' [ts_ThreadRoomID sub, ts_UserID sub, msgID, bool_str (ts_HasMention sub), ownerSiteID]"

definition publishThreadSubInboxIfRemote :: "mw_env \<Rightarrow> ThreadSubscription \<Rightarrow> string \<Rightarrow> string \<Rightarrow> unit mw" where
  "publishThreadSubInboxIfRemote h sub ownerSiteID msgID =
     (if ownerSiteID = '''' then ret ()
      else if ownerSiteID = me_siteID h then ret ()
      else case me_encSub h sub of
        None \<Rightarrow> throw (mw_marshal_failed ''thread subscription'')
      | Some payload \<Rightarrow>
          wrapping (''publish thread subscription outbox to '' @ ownerSiteID)
            (h_outbox h (ts_RoomID sub) ownerSiteID InboxThreadSubscriptionUpserted payload (thread_sub_dedup sub msgID ownerSiteID)))"

definition lookupOwnerSiteID :: "mw_env \<Rightarrow> string \<Rightarrow> string mw" where
  "lookupOwnerSiteID h account =
     (case me_user h account of
        Inl e \<Rightarrow> if is_ErrUserNotFound e then ret '''' else throw (MWrap (''lookup user '' @ account) e)
      | Inr u \<Rightarrow> ret (mu_SiteID u))"

section \<open>The first reply of a thread\<close>

text \<open>The subscription of the parent's author: written by the given operation, then federated, then recorded on the thread room.\<close>

definition subscribe_parent ::
  "mw_env \<Rightarrow> (mg_call \<Rightarrow> ThreadSubscription \<Rightarrow> thread_db \<Rightarrow> mw_err option \<times> thread_db) \<Rightarrow> string \<Rightarrow> Message \<Rightarrow> string \<Rightarrow> string \<Rightarrow> CassParticipant \<Rightarrow> int \<Rightarrow> unit mw" where
  "subscribe_parent h write_op what msg eventSiteID threadRoomID parentSender now =
     bnd (wrapping ''lookup parent owner site'' (lookupOwnerSiteID h (cp_Account parentSender))) (\<lambda>parentOwnerSite.
     bnd (h_buildSub h msg threadRoomID (cp_ID parentSender) (cp_Account parentSender) eventSiteID now) (\<lambda>parentSub.
     bnd (wrapping what (h_db h (\<lambda>c. write_op c parentSub))) (\<lambda>_.
     bnd (if parentOwnerSite \<noteq> '''' then wrapping ''publish parent thread subscription inbox''
            (publishThreadSubInboxIfRemote h parentSub parentOwnerSite (m_ID msg)) else ret ()) (\<lambda>_.
     wrapping ''mark parent subscribed'' (h_db h (\<lambda>c. MarkParentSubscribed c threadRoomID))))))"

text \<open>The stamp on the parent, recorded on the thread room only when both rows took it.\<close>

definition stamp_parent :: "mw_env \<Rightarrow> Message \<Rightarrow> int \<Rightarrow> string \<Rightarrow> unit mw" where
  "stamp_parent h msg parentCreatedAt threadRoomID =
     bnd (wrapping ''stamp thread_room_id on parent message''
           (h_UpdateParentMessageThreadRoomID h (m_ThreadParentMessageID msg) (m_RoomID msg) parentCreatedAt threadRoomID)) (\<lambda>applied.
     if applied then wrapping ''mark parent stamped'' (h_db h (\<lambda>c. MarkParentStamped c threadRoomID)) else ret ())"

text \<open>A read of the parent's sender, with a missing parent told apart from a failure.\<close>

definition parent_sender :: "mw_env \<Rightarrow> string \<Rightarrow> CassParticipant option mw" where
  "parent_sender h parentID w =
     (case h_GetMessageSender h parentID w of
        (Inr p, w') \<Rightarrow> (Inr (Some p), w')
      | (Inl e, w') \<Rightarrow> if is_errMessageNotFound e then (Inr None, w') else (Inl (MWrap ''get parent message sender'' e), w'))"

definition handleFirstThreadReply ::
  "mw_env \<Rightarrow> Message \<Rightarrow> string \<Rightarrow> string \<Rightarrow> mention_user option \<Rightarrow> int \<Rightarrow> bool \<Rightarrow> string list mw" where
  "handleFirstThreadReply h msg eventSiteID threadRoomID replier now isMigration =
     bnd (parent_sender h (m_ThreadParentMessageID msg)) (\<lambda>found.
     case found of
       None \<Rightarrow> ret []
     | Some parentSender \<Rightarrow>
         bnd (wrapping ''add parent author to thread room replyAccounts'' (h_db h (\<lambda>c. AddReplyAccounts c threadRoomID [cp_Account parentSender]))) (\<lambda>_.
         bnd (if \<not> isMigration then
                bnd (subscribe_parent h InsertThreadSubscription ''insert parent author thread subscription'' msg eventSiteID threadRoomID parentSender now) (\<lambda>_.
                case replier of
                  Some rep \<Rightarrow>
                    if m_UserID msg \<noteq> cp_ID parentSender then
                      bnd (h_buildSub h msg threadRoomID (m_UserID msg) (m_UserAccount msg) eventSiteID now) (\<lambda>replierSub.
                      bnd (wrapping ''insert replier thread subscription'' (h_db h (\<lambda>c. InsertThreadSubscription c replierSub))) (\<lambda>_.
                      wrapping ''publish replier thread subscription inbox'' (publishThreadSubInboxIfRemote h replierSub (mu_SiteID rep) (m_ID msg))))
                    else ret ()
                | None \<Rightarrow> ret ())
              else ret ()) (\<lambda>_.
         bnd (case m_ThreadParentMessageCreatedAt msg of
                Some parentCreatedAt \<Rightarrow> stamp_parent h msg parentCreatedAt threadRoomID
              | None \<Rightarrow> ret ()) (\<lambda>_.
         ret [cp_Account parentSender]))))"

section \<open>Later replies\<close>

definition healParentThreadSub :: "mw_env \<Rightarrow> Message \<Rightarrow> string \<Rightarrow> string \<Rightarrow> CassParticipant \<Rightarrow> int \<Rightarrow> unit mw" where
  "healParentThreadSub h msg eventSiteID threadRoomID parentSender now =
     subscribe_parent h mw_UpsertThreadSubscription ''heal parent author thread subscription'' msg eventSiteID threadRoomID parentSender now"

definition writeReplierThreadSub :: "mw_env \<Rightarrow> Message \<Rightarrow> string \<Rightarrow> string \<Rightarrow> mention_user \<Rightarrow> int \<Rightarrow> unit mw" where
  "writeReplierThreadSub h msg eventSiteID threadRoomID replier now =
     bnd (h_buildSub h msg threadRoomID (m_UserID msg) (m_UserAccount msg) eventSiteID now) (\<lambda>replierSub.
     bnd (wrapping ''upsert replier thread subscription'' (h_db h (\<lambda>c. UpsertThreadSubscriptionAdvancingLastSeen c replierSub (m_CreatedAt msg)))) (\<lambda>_.
     wrapping ''publish replier thread subscription inbox'' (publishThreadSubInboxIfRemote h replierSub (mu_SiteID replier) (m_ID msg))))"

definition handleSubsequentThreadReply ::
  "mw_env \<Rightarrow> Message \<Rightarrow> string \<Rightarrow> ThreadRoom \<Rightarrow> mention_user option \<Rightarrow> int \<Rightarrow> bool \<Rightarrow> (string \<times> string list \<times> bool) mw" where
  "handleSubsequentThreadReply h msg eventSiteID existingRoom replier now isMigration =
     (let followers = trm_ReplyAccounts existingRoom; room = trm_ID existingRoom in
      bnd (parent_sender h (m_ThreadParentMessageID msg)) (\<lambda>found.
      bnd (case found of Some parentSender \<Rightarrow>
             if \<not> isMigration \<and> \<not> trm_ParentSubscribed existingRoom
             then healParentThreadSub h msg eventSiteID room parentSender now else ret ()
           | None \<Rightarrow> ret ()) (\<lambda>_.
      bnd (case replier of
             Some rep \<Rightarrow>
               if \<not> isMigration \<and> (case found of Some parentSender \<Rightarrow> m_UserID msg \<noteq> cp_ID parentSender | None \<Rightarrow> True)
               then bnd (writeReplierThreadSub h msg eventSiteID room rep now) (\<lambda>_. ret True) else ret False
           | None \<Rightarrow> ret False) (\<lambda>replierLastSeenAdvanced.
      bnd (wrapping ''update thread room last message'' (h_db h (\<lambda>c. UpdateThreadRoomLastMessage c room (m_ID msg)
             (m_UserAccount msg # (case found of Some parentSender \<Rightarrow> [cp_Account parentSender] | None \<Rightarrow> [])) now))) (\<lambda>_.
      bnd (if \<not> trm_ParentStamped existingRoom then
             (case (found, m_ThreadParentMessageCreatedAt msg) of
                (Some _, Some parentCreatedAt) \<Rightarrow> stamp_parent h msg parentCreatedAt room
              | _ \<Rightarrow> ret ())
           else ret ()) (\<lambda>_.
      ret (room, followers @ (case found of Some parentSender \<Rightarrow> [cp_Account parentSender] | None \<Rightarrow> []), replierLastSeenAdvanced)))))))"

definition new_thread_room :: "string \<Rightarrow> Message \<Rightarrow> string \<Rightarrow> ThreadRoom" where
  "new_thread_room newID msg eventSiteID =
     \<lparr>trm_ID = newID, trm_ParentMessageID = m_ThreadParentMessageID msg,
      trm_ThreadParentCreatedAt = (case m_ThreadParentMessageCreatedAt msg of Some t \<Rightarrow> t | None \<Rightarrow> m_CreatedAt msg),
      trm_RoomID = m_RoomID msg, trm_SiteID = eventSiteID, trm_LastMsgAt = m_CreatedAt msg, trm_LastMsgID = m_ID msg,
      trm_ReplyAccounts = [m_UserAccount msg], trm_CreatedAt = m_CreatedAt msg, trm_UpdatedAt = m_CreatedAt msg,
      trm_ParentStamped = False, trm_ParentSubscribed = False\<rparr>"

definition handleThreadRoomAndSubscriptions ::
  "mw_env \<Rightarrow> Message \<Rightarrow> string \<Rightarrow> mention_user option \<Rightarrow> bool \<Rightarrow> (string \<times> string list \<times> bool) mw" where
  "handleThreadRoomAndSubscriptions h msg eventSiteID replier isMigration =
     (let now = m_CreatedAt msg in
      bnd next_call (\<lambda>i.
      bnd (wrapping ''ensure thread room'' (h_EnsureThreadRoom h (new_thread_room (me_uuid h i) msg eventSiteID))) (\<lambda>(stored, created).
      if created then
        bnd (handleFirstThreadReply h msg eventSiteID (trm_ID stored) replier now isMigration) (\<lambda>followers. ret (trm_ID stored, followers, False))
      else handleSubsequentThreadReply h msg eventSiteID stored replier now isMigration)))"

section \<open>Mentions and unread marks\<close>

definition mentionVisible :: "int option \<Rightarrow> int option \<Rightarrow> bool" where
  "mentionVisible historySharedSince parentCreatedAt =
     (case historySharedSince of
        None \<Rightarrow> True
      | Some since \<Rightarrow> (case parentCreatedAt of None \<Rightarrow> False | Some t \<Rightarrow> \<not> t < since))"

definition mention_candidates :: "Message \<Rightarrow> Participant list" where
  "mention_candidates msg = filter (\<lambda>p. pt_Account p \<noteq> ''all'' \<and> pt_UserID p \<noteq> m_UserID msg) (m_Mentions msg)"

definition mark_one_mention :: "mw_env \<Rightarrow> Message \<Rightarrow> string \<Rightarrow> string \<Rightarrow> Participant \<Rightarrow> unit mw" where
  "mark_one_mention h msg threadRoomID eventSiteID p =
     bnd (h_buildSub h msg threadRoomID (pt_UserID p) (pt_Account p) eventSiteID (m_CreatedAt msg)) (\<lambda>sub0.
     let sub = sub0\<lparr>ts_HasMention := True\<rparr> in
     bnd (wrapping (''mark thread subscription mention for user '' @ pt_UserID p) (h_db h (\<lambda>c. MarkThreadSubscriptionMention c sub))) (\<lambda>_.
     wrapping (''publish thread mention inbox for user '' @ pt_UserID p) (publishThreadSubInboxIfRemote h sub (pt_SiteID p) (m_ID msg))))"

definition markThreadMentions :: "mw_env \<Rightarrow> Message \<Rightarrow> string \<Rightarrow> string \<Rightarrow> bool \<Rightarrow> string list mw" where
  "markThreadMentions h msg threadRoomID eventSiteID isMigration =
     (let candidates = mention_candidates msg in
      if candidates = [] then ret []
      else
        bnd (wrapping ''get history windows for thread mentions'' (h_GetHistorySharedSince h (m_RoomID msg) (map pt_Account candidates))) (\<lambda>windows.
        let seen = filter (\<lambda>p. case windows (pt_Account p) of None \<Rightarrow> False
                             | Some hss \<Rightarrow> mentionVisible hss (m_ThreadParentMessageCreatedAt msg)) candidates;
            mentionedAccounts = map pt_Account seen in
        bnd (if isMigration then ret () else for_each (mark_one_mention h msg threadRoomID eventSiteID) seen) (\<lambda>_.
        bnd (if mentionedAccounts \<noteq> []
             then wrapping ''add mentioned accounts to thread room replyAccounts'' (h_db h (\<lambda>c. AddReplyAccounts c threadRoomID mentionedAccounts))
             else ret ()) (\<lambda>_.
        ret mentionedAccounts))))"

text \<open>The recipients without the sender and without repetitions.\<close>

fun unread_accounts :: "string list \<Rightarrow> string list \<Rightarrow> string list" where
  "unread_accounts seen [] = []"
| "unread_accounts seen (a # as) = (if a \<in> set seen then unread_accounts seen as else a # unread_accounts (a # seen) as)"

definition sites_by_account :: "mention_user list \<Rightarrow> (string \<rightharpoonup> string)" where
  "sites_by_account us = foldl (\<lambda>m u. m(mu_Account u \<mapsto> mu_SiteID u)) Map.empty us"

definition remote_sites :: "string \<Rightarrow> (string \<rightharpoonup> string) \<Rightarrow> string list \<Rightarrow> string list" where
  "remote_sites siteID site_of accounts = remdups (filter (\<lambda>s. s \<noteq> '''' \<and> s \<noteq> siteID) (List.map_filter site_of accounts))"

definition federate_unread :: "mw_env \<Rightarrow> string \<Rightarrow> string \<Rightarrow> string \<Rightarrow> (string \<rightharpoonup> string) \<Rightarrow> string list \<Rightarrow> int \<Rightarrow> string \<Rightarrow> unit mw" where
  "federate_unread h roomID parentMessageID msgID site_of accounts now site =
     (case me_encUnread h \<lparr>tu_RoomID = roomID, tu_ParentMessageID = parentMessageID,
                          tu_Accounts = filter (\<lambda>a. site_of a = Some site) accounts\<rparr> now of
        None \<Rightarrow> throw (mw_marshal_failed ''thread_unread_added event'')
      | Some payload \<Rightarrow>
          wrapping (''federate thread_unread_added to '' @ site)
            (h_outbox h roomID site InboxThreadUnreadAdded payload (Sprintf ''thread-unread:%s:%s:%s'' [parentMessageID, msgID, site])))"

definition fanOutThreadUnread :: "mw_env \<Rightarrow> string \<Rightarrow> string \<Rightarrow> string \<Rightarrow> string \<Rightarrow> string list \<Rightarrow> unit mw" where
  "fanOutThreadUnread h roomID parentMessageID msgID sender recipients =
     (let accounts = unread_accounts [sender] recipients in
      if accounts = [] then ret ()
      else
        bnd (wrapping ''add thread unread'' (h_db h (\<lambda>c. mw_AddThreadUnread c roomID parentMessageID accounts))) (\<lambda>_.
        case me_users h accounts of
          (us, Some e) \<Rightarrow> throw (MWrap ''lookup thread-unread recipients'' (MGo e))
        | (us, None) \<Rightarrow>
            (let site_of = sites_by_account us in
             bnd next_call (\<lambda>i.
             for_each (federate_unread h roomID parentMessageID msgID site_of accounts (me_now h i))
               (me_order h (remote_sites (me_siteID h) site_of accounts))))))"

section \<open>The badge\<close>

definition badge_event :: "mw_env \<Rightarrow> Message \<Rightarrow> int \<Rightarrow> int \<Rightarrow> MessageEvent" where
  "badge_event h msg newTcount now =
     \<lparr>ev_Event = EventThreadReplyAdded,
      ev_Message = empty_Message\<lparr>m_ID := m_ID msg, m_RoomID := m_RoomID msg, m_ThreadParentMessageID := m_ThreadParentMessageID msg\<rparr>,
      ev_SiteID = me_siteID h, ev_ReactionDelta = None, ev_Timestamp = now, ev_NewTCount = Some newTcount,
      ev_NewThreadLastMsgAt = Some (m_CreatedAt msg), ev_QuotedParentUnverified = False, ev_ThreadParentSenderAccount = '''',
      ev_PreviewMessage = None\<rparr>"

definition publishThreadReplyEvent :: "mw_env \<Rightarrow> Message \<Rightarrow> int \<Rightarrow> unit mw" where
  "publishThreadReplyEvent h msg newTcount =
     bnd next_call (\<lambda>i.
     case me_encEvent h (badge_event h msg newTcount (me_now h i)) of
       None \<Rightarrow> throw (mw_marshal_failed ''thread reply event'')
     | Some data \<Rightarrow> h_publish h (ServerBroadcastThreadTCount (me_siteID h)) data '''')"

definition is_degraded :: "mw_env \<Rightarrow> bool mw" where
  "is_degraded h = bnd next_call (\<lambda>i. ret (me_degraded h i))"

definition publishThreadReplyEventIfLive :: "mw_env \<Rightarrow> Message \<Rightarrow> int \<Rightarrow> unit mw" where
  "publishThreadReplyEventIfLive h msg tcount =
     bnd (is_degraded h) (\<lambda>degraded. if degraded then ret () else publishThreadReplyEvent h msg tcount)"

section \<open>Quotes\<close>

definition authoritativeQuoteMatchesConversation :: "Message \<Rightarrow> QuotedParentMessage \<Rightarrow> bool" where
  "authoritativeQuoteMatchesConversation msg snap =
     (if qp_RoomID snap \<noteq> m_RoomID msg then False
      else if m_ThreadParentMessageID msg = '''' then qp_ThreadParentID snap = ''''
      else qp_ThreadParentID snap = m_ThreadParentMessageID msg
        \<or> (qp_ThreadParentID snap = '''' \<and> qp_MessageID snap = m_ThreadParentMessageID msg))"

definition set_quote :: "QuotedParentMessage option \<Rightarrow> MessageEvent \<Rightarrow> MessageEvent" where
  "set_quote q evt = evt\<lparr>ev_Message := (ev_Message evt)\<lparr>m_QuotedParentMessage := q\<rparr>\<rparr>"

definition reprojectUnverifiedQuote :: "mw_env \<Rightarrow> MessageEvent \<Rightarrow> MessageEvent mw" where
  "reprojectUnverifiedQuote h evt =
     (case m_QuotedParentMessage (ev_Message evt) of
        None \<Rightarrow> ret evt
      | Some q \<Rightarrow>
          if \<not> ev_QuotedParentUnverified evt then ret evt
          else
            bnd (wrapping (''get authoritative quoted parent '' @ qp_MessageID q) (h_GetQuotedParentSnapshot h (qp_MessageID q))) (\<lambda>found.
            let evt1 = evt\<lparr>ev_QuotedParentUnverified := False\<rparr> in
            case found of
              None \<Rightarrow>
                bnd (is_degraded h) (\<lambda>degraded.
                if degraded then throw (MGo (Raw (''quoted parent '' @ qp_MessageID q @ '' not yet persisted during degraded window'')))
                else ret (set_quote None evt1))
            | Some snap \<Rightarrow>
                if \<not> authoritativeQuoteMatchesConversation (ev_Message evt1) snap then ret (set_quote None evt1)
                else ret (set_quote (Some (snap\<lparr>qp_MessageLink := qp_MessageLink q\<rparr>)) evt1)))"

section \<open>The handler\<close>

definition senderFrom :: "mention_user \<Rightarrow> string \<Rightarrow> CassParticipant" where
  "senderFrom u account = \<lparr>cp_ID = mu_ID u, cp_EngName = mu_EngName u, cp_CompanyName = mu_ChineseName u, cp_AppID = '''', cp_AppName = '''',
     cp_IsBot = False, cp_Account = account\<rparr>"

definition parentResolveAttempts :: nat where "parentResolveAttempts = 2"

definition parentResolveExhausted :: "mw_env \<Rightarrow> bool" where
  "parentResolveExhausted h = (case me_attempt h of None \<Rightarrow> False | Some attempt \<Rightarrow> attempt \<ge> parentResolveAttempts)"

text \<open>The user the message is written for, and the sender of the row: none for a system message without a user, the event's own
  identity when the directory does not answer.\<close>

definition resolve_sender :: "mw_env \<Rightarrow> Message \<Rightarrow> mention_user option \<times> CassParticipant option" where
  "resolve_sender h msg =
     (case me_user h (m_UserAccount msg) of
        Inr u \<Rightarrow> (Some u, Some (senderFrom u (m_UserAccount msg)))
      | Inl e \<Rightarrow>
          if IsSystemMessageType (m_Type msg) then (None, None)
          else (let u = \<lparr>mu_ID = m_UserID msg, mu_Account = m_UserAccount msg, mu_SiteID = '''', mu_ChineseName = '''',
                         mu_EngName = m_UserDisplayName msg\<rparr> in
                (Some u, Some (senderFrom u (m_UserAccount msg)))))"

definition resolve_parent_time :: "mw_env \<Rightarrow> Message \<Rightarrow> Message mw" where
  "resolve_parent_time h msg =
     (case m_ThreadParentMessageCreatedAt msg of
        Some _ \<Rightarrow> ret msg
      | None \<Rightarrow>
          bnd (wrapping ''resolve thread parent createdAt'' (h_GetMessageCreatedAt h (m_ThreadParentMessageID msg))) (\<lambda>found.
          case found of
            Some createdAt \<Rightarrow> ret (msg\<lparr>m_ThreadParentMessageCreatedAt := Some createdAt\<rparr>)
          | None \<Rightarrow>
              if \<not> parentResolveExhausted h
              then throw (MGo (Raw (''thread parent '' @ m_ThreadParentMessageID msg @ '' not yet persisted in messages_by_id'')))
              else ret msg))"

text \<open>The best-effort advance of the replier's own mark: a failure is only logged.\<close>

definition advance_replier :: "mw_env \<Rightarrow> string \<Rightarrow> Message \<Rightarrow> unit mw" where
  "advance_replier h threadRoomID msg w =
     (case h_db h (\<lambda>c. AdvanceThreadSubscriptionLastSeen c threadRoomID (m_UserAccount msg) (m_CreatedAt msg)) w of (_, w') \<Rightarrow> (Inr (), w'))"

definition process_reply ::
  "mw_env \<Rightarrow> Message \<Rightarrow> string \<Rightarrow> mention_user option \<Rightarrow> CassParticipant option \<Rightarrow> bool \<Rightarrow> unit mw" where
  "process_reply h msg0 siteID user sender isMigration =
     bnd (resolve_parent_time h msg0) (\<lambda>msg.
     bnd (wrapping ''handle thread room and subscriptions'' (handleThreadRoomAndSubscriptions h msg siteID user isMigration))
       (\<lambda>(threadRoomID, followers, replierLastSeenAdvanced).
     bnd (if \<not> replierLastSeenAdvanced then advance_replier h threadRoomID msg else ret ()) (\<lambda>_.
     bnd (wrapping ''mark thread mentions'' (markThreadMentions h msg threadRoomID siteID isMigration)) (\<lambda>mentionedAccounts.
     bnd (if \<not> isMigration
          then wrapping ''fan out thread unread'' (fanOutThreadUnread h (m_RoomID msg) (m_ThreadParentMessageID msg) (m_ID msg) (m_UserAccount msg)
                 (followers @ mentionedAccounts))
          else ret ()) (\<lambda>_.
     bnd (wrapping ''save thread message'' (h_SaveThreadMessage h msg sender siteID threadRoomID)) (\<lambda>newTcount.
     case newTcount of
       Some n \<Rightarrow> if isMigration then ret () else wrapping ''publish thread reply event'' (publishThreadReplyEventIfLive h msg n)
     | None \<Rightarrow> ret ()))))))"

definition process_event :: "mw_env \<Rightarrow> MessageEvent \<Rightarrow> bool \<Rightarrow> unit mw" where
  "process_event h evt0 isMigration =
     (let resolved = fst (ResolveMentions (m_Content (ev_Message evt0)) (me_users h));
          evt1 = evt0\<lparr>ev_Message := (ev_Message evt0)\<lparr>m_Mentions := rs_Participants resolved\<rparr>\<rparr>;
          (user, sender) = resolve_sender h (ev_Message evt1) in
      bnd (wrapping ''re-project unverified quote'' (reprojectUnverifiedQuote h evt1)) (\<lambda>evt.
      let msg = ev_Message evt in
      if m_ThreadParentMessageID msg \<noteq> '''' then process_reply h msg (ev_SiteID evt) user sender isMigration
      else wrapping ''save message'' (h_SaveMessage h msg sender (ev_SiteID evt))))"

definition malformed_event :: mw_err where
  "malformed_event = MGo (PermErr (Error CodeBadRequest '''' ''malformed message event'' Map.empty None))"

definition processMessage :: "mw_env \<Rightarrow> string \<Rightarrow> bool \<Rightarrow> unit mw" where
  "processMessage h data isMigration =
     (case me_decode h data of None \<Rightarrow> throw malformed_event | Some evt \<Rightarrow> process_event h evt isMigration)"

definition HandleJetStreamMsg ::
  "mw_env \<Rightarrow> settle_env \<Rightarrow> nat option \<Rightarrow> string \<Rightarrow> bool \<Rightarrow> mw_world \<times> settle_state \<Rightarrow> settlement \<times> hist_metric list \<times> mw_world \<times> settle_state" where
  "HandleJetStreamMsg h n meta data isMigration s =
     (case processMessage h data isMigration (fst s) of (r, w) \<Rightarrow>
      (case Handler_settle n meta (case r of Inl e \<Rightarrow> Some e | Inr _ \<Rightarrow> None) (snd s) of
         (st, ms, ss) \<Rightarrow> (st, ms, w, ss)))"

end
