(* ===== verification/Msg_Rules.thy ===== *)
theory Msg_Rules
  imports Msg_Handler
begin

text \<open>
  Reasoning about the computations of message-worker's handler: triples with one postcondition for the result and one for the
  error, the rules of the constructs, and the two facts most proofs rest on: which part of the world a call can change, and
  that the thread store only grows.
\<close>

named_theorems mw_rules

section \<open>Triples\<close>

definition triple :: "(mw_world \<Rightarrow> bool) \<Rightarrow> 'a mw \<Rightarrow> ('a \<Rightarrow> mw_world \<Rightarrow> bool) \<Rightarrow> (mw_err \<Rightarrow> mw_world \<Rightarrow> bool) \<Rightarrow> bool" where
  "triple P m Q E \<longleftrightarrow> (\<forall>w. P w \<longrightarrow> (case m w of (Inr x, w') \<Rightarrow> Q x w' | (Inl e, w') \<Rightarrow> E e w'))"

lemma triple_ok: "triple P m Q E \<Longrightarrow> P w \<Longrightarrow> m w = (Inr x, w') \<Longrightarrow> Q x w'"
  by (auto simp: triple_def split: prod.splits sum.splits)

lemma triple_err: "triple P m Q E \<Longrightarrow> P w \<Longrightarrow> m w = (Inl e, w') \<Longrightarrow> E e w'"
  by (auto simp: triple_def split: prod.splits sum.splits)

lemma tripleI: "(\<And>w x w'. P w \<Longrightarrow> m w = (Inr x, w') \<Longrightarrow> Q x w') \<Longrightarrow> (\<And>w e w'. P w \<Longrightarrow> m w = (Inl e, w') \<Longrightarrow> E e w') \<Longrightarrow> triple P m Q E"
  by (auto simp: triple_def split: prod.splits sum.splits)

lemma triple_conseq:
  "triple P m Q E \<Longrightarrow> (\<And>w. P' w \<Longrightarrow> P w) \<Longrightarrow> (\<And>x w. Q x w \<Longrightarrow> Q' x w) \<Longrightarrow> (\<And>e w. E e w \<Longrightarrow> E' e w) \<Longrightarrow> triple P' m Q' E'"
  by (fastforce simp: triple_def split: prod.splits sum.splits)

lemma triple_ret [mw_rules]: "(\<And>w. P w \<Longrightarrow> Q x w) \<Longrightarrow> triple P (ret x) Q E"
  by (simp add: triple_def ret_def)

lemma triple_throw [mw_rules]: "(\<And>w. P w \<Longrightarrow> E e w) \<Longrightarrow> triple P (throw e) Q E"
  by (simp add: triple_def throw_def)

lemma triple_bnd:
  assumes "triple P m R E" "\<And>x. triple (R x) (f x) Q E"
  shows "triple P (bnd m f) Q E"
proof (rule tripleI)
  fix w x w' assume p: "P w" "bnd m f w = (Inr x, w')"
  then obtain y w1 where "m w = (Inr y, w1)" "f y w1 = (Inr x, w')" by (auto simp: bnd_def split: prod.splits sum.splits)
  with p(1) triple_ok [OF assms(1)] triple_ok [OF assms(2)] show "Q x w'" by blast
next
  fix w e w' assume p: "P w" "bnd m f w = (Inl e, w')"
  then consider "m w = (Inl e, w')" | y w1 where "m w = (Inr y, w1)" "f y w1 = (Inl e, w')"
    by (auto simp: bnd_def split: prod.splits sum.splits)
  then show "E e w'" using p(1) triple_err [OF assms(1)] triple_ok [OF assms(1)] triple_err [OF assms(2)] by cases blast+
qed

lemma triple_map_err [mw_rules]: "triple P m Q (\<lambda>e. E (f e)) \<Longrightarrow> triple P (map_err f m) Q E"
  by (fastforce simp: triple_def map_err_def split: prod.splits sum.splits)

lemma triple_wrapping [mw_rules]: "triple P m Q (\<lambda>e. E (MWrap s e)) \<Longrightarrow> triple P (wrapping s m) Q E"
  unfolding wrapping_def by (rule triple_map_err)

lemma triple_if [mw_rules]: "(b \<Longrightarrow> triple P m Q E) \<Longrightarrow> (\<not> b \<Longrightarrow> triple P m' Q E) \<Longrightarrow> triple P (if b then m else m') Q E"
  by simp

lemma triple_option [mw_rules]:
  "(x = None \<Longrightarrow> triple P m Q E) \<Longrightarrow> (\<And>y. x = Some y \<Longrightarrow> triple P (f y) Q E) \<Longrightarrow> triple P (case x of None \<Rightarrow> m | Some y \<Rightarrow> f y) Q E"
  by (cases x) auto

lemma triple_case_prod [mw_rules]: "(\<And>a b. x = (a, b) \<Longrightarrow> triple P (f a b) Q E) \<Longrightarrow> triple P (case x of (a, b) \<Rightarrow> f a b) Q E"
  by (cases x) auto

lemma triple_let [mw_rules]: "triple P (f x) Q E \<Longrightarrow> triple P (let y = x in f y) Q E"
  by simp

text \<open>An invariant: kept by the computation whatever its outcome.\<close>

definition keeps :: "(mw_world \<Rightarrow> bool) \<Rightarrow> 'a mw \<Rightarrow> bool" where
  "keeps I m \<longleftrightarrow> triple I m (\<lambda>_. I) (\<lambda>_. I)"

lemma keepsI: "(\<And>w r w'. I w \<Longrightarrow> m w = (r, w') \<Longrightarrow> I w') \<Longrightarrow> keeps I m"
  unfolding keeps_def by (rule tripleI) blast+

lemma keepsD: "keeps I m \<Longrightarrow> I w \<Longrightarrow> m w = (r, w') \<Longrightarrow> I w'"
  unfolding keeps_def by (cases r) (auto dest: triple_ok triple_err)

named_theorems keep_rules

lemma keeps_ret [keep_rules]: "keeps I (ret x)" by (simp add: keeps_def triple_def ret_def)
lemma keeps_throw [keep_rules]: "keeps I (throw e)" by (simp add: keeps_def triple_def throw_def)
lemma keeps_bnd [keep_rules]: "keeps I m \<Longrightarrow> (\<And>x. keeps I (f x)) \<Longrightarrow> keeps I (bnd m f)"
  unfolding keeps_def by (rule triple_bnd)
lemma keeps_map_err [keep_rules]: "keeps I m \<Longrightarrow> keeps I (map_err f m)"
  unfolding keeps_def by (rule triple_map_err) 
lemma keeps_wrapping [keep_rules]: "keeps I m \<Longrightarrow> keeps I (wrapping s m)"
  by (simp add: wrapping_def keep_rules)
lemma keeps_historyStore [keep_rules]: "keeps I m \<Longrightarrow> keeps I (historyStore m)"
  by (simp add: historyStore_def keep_rules)
lemma keeps_if [keep_rules]: "(b \<Longrightarrow> keeps I m) \<Longrightarrow> (\<not> b \<Longrightarrow> keeps I m') \<Longrightarrow> keeps I (if b then m else m')" by simp
lemma keeps_option [keep_rules]:
  "(x = None \<Longrightarrow> keeps I m) \<Longrightarrow> (\<And>y. x = Some y \<Longrightarrow> keeps I (f y)) \<Longrightarrow> keeps I (case x of None \<Rightarrow> m | Some y \<Rightarrow> f y)" by (cases x) auto
lemma keeps_sum [keep_rules]:
  "(\<And>y. x = Inl y \<Longrightarrow> keeps I (f y)) \<Longrightarrow> (\<And>y. x = Inr y \<Longrightarrow> keeps I (g y)) \<Longrightarrow> keeps I (case x of Inl y \<Rightarrow> f y | Inr y \<Rightarrow> g y)" by (cases x) auto
lemma keeps_prod [keep_rules]: "(\<And>a b. x = (a, b) \<Longrightarrow> keeps I (f a b)) \<Longrightarrow> keeps I (case x of (a, b) \<Rightarrow> f a b)" by (cases x) auto
lemma keeps_let [keep_rules]: "keeps I (f x) \<Longrightarrow> keeps I (let y = x in f y)" by simp
lemma keeps_for_each [keep_rules]: "(\<And>x. x \<in> set xs \<Longrightarrow> keeps I (f x)) \<Longrightarrow> keeps I (for_each f xs)"
  by (induction xs) (auto intro: keep_rules)

end
