(* ===== verification/Cass_Props.thy ===== *)
theory Cass_Props
  imports Cass_Rows
begin

text \<open>
  What message-worker's writes leave in the history tables. A plain create is pinned to the time of the message, so a
  redelivery never takes back an edit. An encrypted create is not pinned, so its two cells, payload and nonce, always come from
  one attempt and the message stays readable however often and however partially it was written; the price is that a
  redelivery does take back an edit.
\<close>

section \<open>Rows under statements\<close>

text \<open>The row at a target, whichever table it is in.\<close>

definition row_at :: "cass_tables \<Rightarrow> target \<Rightarrow> cass_row" where
  "row_at t k = (case k of ById i \<Rightarrow> ct_by_id t i | ByRoom i \<Rightarrow> ct_by_room t i | ByThread i \<Rightarrow> ct_by_thread t i)"

lemma row_at_simps [simp]:
  "row_at t (ById i) = ct_by_id t i" "row_at t (ByRoom j) = ct_by_room t j" "row_at t (ByThread l) = ct_by_thread t l"
  by (simp_all add: row_at_def)

lemma row_at_exec: "row_at (exec_stmt tie clock s t) k = (if k = st_target s then write_row tie clock s (row_at t k) else row_at t k)"
  by (auto simp: row_at_def exec_stmt_def split: target.splits)

definition stmt_time :: "int \<Rightarrow> stmt \<Rightarrow> int" where
  "stmt_time clock s = (case st_using s of None \<Rightarrow> clock | Some ts \<Rightarrow> ts)"

lemma fold_write_inserted [simp]: "row_inserted (fold (write_cell tie ts) cvs r) = row_inserted r"
  by (induction cvs arbitrary: r) (simp_all add: write_cell_def)

lemma fold_write_cells:
  "distinct (map fst cvs) \<Longrightarrow> row_cells (fold (write_cell tie ts) cvs r) c =
     (case map_of cvs c of None \<Rightarrow> row_cells r c | Some v \<Rightarrow> Some (merge_cell tie (v, ts) (row_cells r c)))"
proof (induction cvs arbitrary: r)
  case (Cons cv cvs)
  show ?case
  proof (cases "fst cv = c")
    case True
    with Cons.prems have "map_of cvs c = None" by (auto simp: map_of_eq_None_iff)
    with True Cons show ?thesis by (cases cv) (simp add: write_cell_def)
  next
    case False
    with Cons show ?thesis by (cases cv) (simp add: write_cell_def split: option.splits)
  qed
qed simp

lemma write_row_inserted [simp]: "row_inserted (write_row tie clock s r) = (row_inserted r \<or> st_insert s)"
  by (simp add: write_row_def)

lemma write_row_cells:
  "distinct (map fst (st_cols s)) \<Longrightarrow> row_cells (write_row tie clock s r) c =
     (case map_of (st_cols s) c of None \<Rightarrow> row_cells r c | Some v \<Rightarrow> Some (merge_cell tie (v, stmt_time clock s) (row_cells r c)))"
  by (simp add: write_row_def stmt_time_def fold_write_cells split: option.splits)

text \<open>A property of one row that every statement on the row keeps is kept by a batch, whatever part of it was executed.\<close>

lemma exec_some_keeps:
  assumes "P (row_at t k)" and "\<And>s r. s \<in> set ss \<Longrightarrow> st_target s = k \<Longrightarrow> P r \<Longrightarrow> P (write_row tie clock s r)"
  shows "P (row_at (exec_some tie clock f i ss t) k)"
  using assms
proof (induction ss arbitrary: i t)
  case (Cons s ss)
  have "P (row_at (if f i then exec_stmt tie clock s t else t) k)" using Cons.prems(1) Cons.prems(2) [of s "row_at t k"] by (auto simp: row_at_exec)
  then show ?case using Cons.IH Cons.prems(2) by simp
qed simp

lemma executeBatch_keeps:
  assumes "executeBatch tie clock fate ss t = (err, t')" and "P (row_at t k)"
    and "\<And>s r. s \<in> set ss \<Longrightarrow> st_target s = k \<Longrightarrow> P r \<Longrightarrow> P (write_row tie clock s r)"
  shows "P (row_at t' k)"
  using assms exec_some_keeps [of P t k ss tie clock] by (auto simp: executeBatch_def split: cass_fate.splits)

text \<open>What a statement of a successful batch makes of every row it may find, and the later ones keep, holds at the end.\<close>

lemma exec_some_establishes:
  assumes "ins \<in> set ss" and "st_target ins = k" and "J (row_at t k)"
    and "\<And>r. J r \<Longrightarrow> P (write_row tie clock ins r)"
    and "\<And>s r. s \<in> set ss \<Longrightarrow> st_target s = k \<Longrightarrow> J r \<Longrightarrow> J (write_row tie clock s r)"
    and "\<And>s r. s \<in> set ss \<Longrightarrow> st_target s = k \<Longrightarrow> P r \<Longrightarrow> P (write_row tie clock s r)"
  shows "P (row_at (exec_some tie clock (\<lambda>_. True) i ss t) k)"
  using assms
proof (induction ss arbitrary: i t)
  case (Cons s ss)
  have j: "J (row_at (exec_stmt tie clock s t) k)" using Cons.prems(3) Cons.prems(5) [of s "row_at t k"] by (auto simp: row_at_exec)
  show ?case
  proof (cases "s = ins")
    case True
    then have "P (row_at (exec_stmt tie clock s t) k)" using Cons.prems(2, 3, 4) by (simp add: row_at_exec)
    then show ?thesis using exec_some_keeps [of P _ k ss] Cons.prems(6) by simp
  next
    case False
    then have "P (row_at (exec_some tie clock (\<lambda>_. True) (i + 1) ss (exec_stmt tie clock s t)) k)"
      by (intro Cons.IH) (use Cons.prems j in auto)
    then show ?thesis by simp
  qed
qed simp

lemma executeBatch_establishes:
  assumes "executeBatch tie clock fate ss t = (None, t')" and "ins \<in> set ss" and "st_target ins = k" and "J (row_at t k)"
    and "\<And>r. J r \<Longrightarrow> P (write_row tie clock ins r)"
    and "\<And>s r. s \<in> set ss \<Longrightarrow> st_target s = k \<Longrightarrow> J r \<Longrightarrow> J (write_row tie clock s r)"
    and "\<And>s r. s \<in> set ss \<Longrightarrow> st_target s = k \<Longrightarrow> P r \<Longrightarrow> P (write_row tie clock s r)"
  shows "P (row_at t' k)"
proof -
  have "t' = exec_some tie clock (\<lambda>_. True) 0 ss t" using assms(1) by (auto simp: executeBatch_def split: cass_fate.splits)
  moreover have "P (row_at (exec_some tie clock (\<lambda>_. True) 0 ss t) k)"
    by (rule exec_some_establishes [where P = P and J = J, OF assms(2-4)]) (fact assms)+
  ultimately show ?thesis by simp
qed

lemmas col_defs = meta_cols_def body_cols_def enc_cols_def id_cols_def reply_cols_def strip_cols_def
lemmas stmt_defs = plain_stmts_def enc_stmts_def plain_reply_stmts_def enc_reply_stmts_def insert_stmt_def strip_def
  stripLegacyPlaintextByRoom_def stripLegacyPlaintextByID_def stripLegacyPlaintextThread_def

text \<open>No statement names a column twice.\<close>

lemma stmts_distinct:
  "s \<in> set (plain_stmts st msg p site) \<union> set (enc_stmts st msg cm p site pl no) \<union> set (plain_reply_stmts st msg p site th)
       \<union> set (enc_reply_stmts st msg cm p site th pl no) \<Longrightarrow> distinct (map fst (st_cols s))"
  by (auto simp: stmt_defs col_defs Let_def split: if_splits)

section \<open>Plain creates never take back an edit\<close>

text \<open>A column of a row holds a value written at a time.\<close>

definition holds :: "string \<Rightarrow> cval \<times> int \<Rightarrow> cass_row \<Rightarrow> bool" where
  "holds c vt r \<longleftrightarrow> row_cells r c = Some vt"

lemma newer_cell_stays:
  assumes "holds c (v, ts) r" and "stmt_time clock s < ts" and "distinct (map fst (st_cols s))"
  shows "holds c (v, ts) (write_row tie clock s r)"
  using assms by (auto simp: holds_def write_row_cells merge_cell_def split: option.splits)

lemma plain_time: "s \<in> set (plain_stmts st msg p site) \<union> set (plain_reply_stmts st msg p site th) \<Longrightarrow> stmt_time clock s = writeTS (m_CreatedAt msg)"
  by (auto simp: stmt_defs Let_def stmt_time_def split: if_splits)

text \<open>The reply count writes its own two columns only.\<close>

definition count_columns :: "string set" where "count_columns = {''tcount'', ''thread_last_msg_at''}"

lemma put_row_counts_cells: "c \<notin> count_columns \<Longrightarrow> row_cells (put_row_counts clock v r) c = row_cells r c"
  by (auto simp: put_row_counts_def count_columns_def split: option.splits)

lemma put_row_counts_inserted [simp]: "row_inserted (put_row_counts clock v r) = row_inserted r"
  by (auto simp: put_row_counts_def split: option.splits)

lemma put_counts_back_row:
  assumes "\<And>v r. P r \<Longrightarrow> P (put_row_counts clock v r)" and "P (row_at t k)"
  shows "P (row_at (put_counts_back clock p v t) k)"
  using assms by (cases k) (auto simp: put_counts_back_def)

lemma count_keeps_row:
  assumes "countAndSetParentTcount s n msg th t = (r, t')" and "P (row_at t k)" and "\<And>v r. P r \<Longrightarrow> P (put_row_counts (cc_clock n) v r)"
  shows "P (row_at t' k)"
  using assms put_counts_back_row [of P "cc_clock n"]
  by (auto simp: countAndSetParentTcount_def Let_def split: option.splits prod.splits sum.splits)


text \<open>A store without encryption, a call that succeeds, and a message of the room r1 sent at time 5.\<close>

definition demo_cass_store :: "Cipher option \<Rightarrow> cass_store" where
  "demo_cass_store cipher = \<lparr>cs_bucket = \<lparr>windowMs = 86400000\<rparr>, cs_cipher = cipher, cs_threadPolicy = DefaultPolicy,
     cs_tie = (\<lambda>old new. new), cs_marshal = (\<lambda>_. None)\<rparr>"

definition demo_cass_call :: "int \<Rightarrow> string \<Rightarrow> cass_fate \<Rightarrow> cass_call" where
  "demo_cass_call clock nonce fate = \<lparr>cc_clock = clock, cc_nonce = nonce, cc_fate = fate, 
     cc_tc = \<lparr>tc_fail = (\<lambda>_. None), tc_batch = (\<lambda>_. Done), tc_before = (\<lambda>_ t. t), tc_draw = (\<lambda>_. 0)\<rparr>, cc_redelivery = False\<rparr>"

definition no_tables :: cass_tables where
  "no_tables = \<lparr>ct_by_id = (\<lambda>_. no_row), ct_by_room = (\<lambda>_. no_row), ct_by_thread = (\<lambda>_. no_row), ct_thread_keys = []\<rparr>"

definition first_message :: Message where
  "first_message = empty_Message\<lparr>m_ID := ''m1'', m_RoomID := ''r1'', m_Content := ''helo'', m_CreatedAt := 5\<rparr>"

text \<open>An edit of the body at time 7.\<close>

definition edit_body :: "string \<Rightarrow> cass_tables \<Rightarrow> cass_tables" where
  "edit_body body t = exec_stmt (\<lambda>old new. new) 7000 \<lparr>st_target = ById ''m1'', st_insert = False, st_cols = [(''msg'', VStr body)], st_using = None\<rparr> t"


section \<open>Encrypted creates stay readable\<close>

text \<open>The attempts at one message: each draws its nonce, reads the clock and meets its fate; the sender is resolved anew each time.\<close>

definition save_attempt :: "cass_store \<Rightarrow> Message \<Rightarrow> string \<Rightarrow> cass_call \<times> CassParticipant option \<Rightarrow> cass_tables \<Rightarrow> cass_tables" where
  "save_attempt s msg siteID a t = snd (SaveMessage s (fst a) msg (snd a) siteID t)"

text \<open>The two cells of an encrypted row come from one encryption of the message, made at one of the given times.\<close>

definition sealed :: "Cipher \<Rightarrow> EncryptedFields \<Rightarrow> string \<Rightarrow> int set \<Rightarrow> cass_row \<Rightarrow> bool" where
  "sealed cipher f room clocks r \<longleftrightarrow>
     (row_cells r ''enc_payload'' = None \<and> row_cells r ''enc_meta'' = None)
     \<or> (\<exists>p nonce ts. row_cells r ''enc_payload'' = Some (VStr p, ts) \<and> row_cells r ''enc_meta'' = Some (VMeta nonce, ts)
           \<and> Encrypt cipher room f nonce = Inr p \<and> ts \<in> clocks)"

lemma sealed_mono: "sealed cipher f room A r \<Longrightarrow> A \<subseteq> B \<Longrightarrow> sealed cipher f room B r"
  by (auto simp: sealed_def)

lemma map_of_enc [simp]:
  "s \<in> set (enc_stmts st msg cm p site pl no) \<Longrightarrow> st_insert s \<Longrightarrow> map_of (st_cols s) ''enc_payload'' = Some (VStr pl)"
  "s \<in> set (enc_stmts st msg cm p site pl no) \<Longrightarrow> st_insert s \<Longrightarrow> map_of (st_cols s) ''enc_meta'' = Some (VMeta no)"
  "s \<in> set (enc_stmts st msg cm p site pl no) \<Longrightarrow> \<not> st_insert s \<Longrightarrow> map_of (st_cols s) ''enc_payload'' = None"
  "s \<in> set (enc_stmts st msg cm p site pl no) \<Longrightarrow> \<not> st_insert s \<Longrightarrow> map_of (st_cols s) ''enc_meta'' = None"
  by (auto simp: stmt_defs col_defs Let_def)

text \<open>The pair of one attempt.\<close>

definition sealed_by :: "string \<Rightarrow> string \<Rightarrow> int \<Rightarrow> cass_row \<Rightarrow> bool" where
  "sealed_by p nonce ts r \<longleftrightarrow> row_cells r ''enc_payload'' = Some (VStr p, ts) \<and> row_cells r ''enc_meta'' = Some (VMeta nonce, ts)"

text \<open>Two equal values at one time leave that value.\<close>

definition tie_ok :: "tie_break \<Rightarrow> bool" where "tie_ok tie \<longleftrightarrow> (\<forall>v. tie v v = v)"

lemma enc_stmt_seals:
  assumes "st \<in> set (enc_stmts s msg cm p site pl nonce)" and "sealed cipher f room clocks r \<or> sealed_by pl nonce clock r"
    and "clock \<notin> clocks" and "tie_ok tie"
  shows "sealed cipher f room clocks (write_row tie clock st r) \<or> sealed_by pl nonce clock (write_row tie clock st r)"
proof -
  have d: "distinct (map fst (st_cols st))" using assms(1) stmts_distinct by blast
  have ts: "stmt_time clock st = clock" using assms(1) by (auto simp: stmt_defs Let_def stmt_time_def)
  show ?thesis
    by (cases "st_insert st")
      (use assms in \<open>auto simp: write_row_cells [OF d] ts sealed_def sealed_by_def merge_cell_def tie_ok_def\<close>)
qed

lemma attempt_sealed:
  fixes s msg defines "f \<equiv> SplitForEncryption (buildCassandraMessage (cs_marshal s) msg)"
  assumes "cs_cipher s = Some cipher" and "tie_ok (cs_tie s)"
    and "sealed cipher f (m_RoomID msg) clocks (row_at t k)" and "cc_clock (fst a) \<notin> clocks"
  shows "sealed cipher f (m_RoomID msg) (insert (cc_clock (fst a)) clocks) (row_at (save_attempt s msg siteID a t) k)"
proof (cases "encrypt_message s cipher (cc_nonce (fst a)) msg")
  case (Inl e)
  then show ?thesis using assms by (auto simp: save_attempt_def SaveMessage_def saveMessageEncrypted_def intro: sealed_mono)
next
  case (Inr pc)
  obtain pl cm where pc: "pc = (pl, cm)" by fastforce
  have enc: "Encrypt cipher (m_RoomID msg) f (cc_nonce (fst a)) = Inr pl"
    using Inr pc by (auto simp: encrypt_message_def Let_def buildCassandraMessage_def f_def split: sum.splits)
  obtain err t' where b: "executeBatch (cs_tie s) (cc_clock (fst a)) (cc_fate (fst a)) (enc_stmts s msg cm (snd a) siteID pl (cc_nonce (fst a))) t = (err, t')"
    by fastforce
  have "sealed cipher f (m_RoomID msg) clocks (row_at t' k) \<or> sealed_by pl (cc_nonce (fst a)) (cc_clock (fst a)) (row_at t' k)"
    by (rule executeBatch_keeps [where P = "\<lambda>r. sealed cipher f (m_RoomID msg) clocks r \<or> sealed_by pl (cc_nonce (fst a)) (cc_clock (fst a)) r", OF b])
      (use assms enc_stmt_seals in blast)+
  moreover have "save_attempt s msg siteID a t = t'"
    using Inr pc b assms(2) by (simp add: save_attempt_def SaveMessage_def saveMessageEncrypted_def)
  ultimately show ?thesis using enc by (auto simp: sealed_def sealed_by_def)
qed

text \<open>The room of the row, once written, is the message's.\<close>

definition row_in_room :: "string \<Rightarrow> cass_row \<Rightarrow> bool" where
  "row_in_room room r \<longleftrightarrow> (case row_cells r ''room_id'' of None \<Rightarrow> True | Some (v, _) \<Rightarrow> v = VStr room)"

lemma in_room_write:
  "st \<in> set (enc_stmts s msg cm p site pl nonce) \<Longrightarrow> row_in_room (m_RoomID msg) r \<Longrightarrow> tie_ok tie \<Longrightarrow> row_in_room (m_RoomID msg) (write_row tie clock st r)"
  by (auto simp: row_in_room_def stmt_defs col_defs Let_def write_row_def write_cell_def merge_cell_def tie_ok_def split: option.splits if_splits)

text \<open>A successful attempt leaves the row of the message inserted, in its room, with its payload.\<close>

definition written :: "string \<Rightarrow> cass_row \<Rightarrow> bool" where
  "written room r \<longleftrightarrow> row_inserted r \<and> row_in_room room r \<and> row_cells r ''room_id'' \<noteq> None \<and> row_cells r ''enc_payload'' \<noteq> None"

lemma write_row_keeps_cell:
  "row_cells r c \<noteq> None \<Longrightarrow> distinct (map fst (st_cols st)) \<Longrightarrow> row_cells (write_row tie clock st r) c \<noteq> None"
  by (simp add: write_row_cells split: option.splits)

lemma written_write:
  assumes "st \<in> set (enc_stmts s msg cm p site pl nonce)" "written (m_RoomID msg) r" "tie_ok tie"
  shows "written (m_RoomID msg) (write_row tie clock st r)"
  using assms write_row_keeps_cell [of r _ st tie clock] stmts_distinct [of st s msg p site cm pl nonce]
  by (simp add: written_def in_room_write del: not_None_eq)

lemma insert_writes:
  "row_in_room (m_RoomID msg) r \<Longrightarrow> tie_ok tie \<Longrightarrow>
    written (m_RoomID msg) (write_row tie clock (insert_stmt (ById (m_ID msg)) (id_cols msg @ meta_cols msg sender siteID q @ enc_cols pl nonce) None) r)"
  by (auto simp: written_def row_in_room_def insert_stmt_def col_defs write_row_def write_cell_def merge_cell_def tie_ok_def split: option.splits if_splits)

lemma SaveMessage_error: "fst (SaveMessage s n msg p siteID t) = fst (SaveMessage s n msg p siteID t')"
  by (auto simp: SaveMessage_def saveMessageEncrypted_def executeBatch_def split: option.splits sum.splits cass_fate.splits prod.splits)

lemma attempt_in_room:
  assumes "cs_cipher s = Some cipher" "tie_ok (cs_tie s)" "row_in_room (m_RoomID msg) (row_at t k)"
  shows "row_in_room (m_RoomID msg) (row_at (save_attempt s msg siteID a t) k)"
    and "written (m_RoomID msg) (row_at t k) \<Longrightarrow> written (m_RoomID msg) (row_at (save_attempt s msg siteID a t) k)"
    and "fst (SaveMessage s (fst a) msg (snd a) siteID t) = None \<Longrightarrow> k = ById (m_ID msg) \<Longrightarrow> written (m_RoomID msg) (row_at (save_attempt s msg siteID a t) k)"
proof -
  have "row_in_room (m_RoomID msg) (row_at (save_attempt s msg siteID a t) k)
      \<and> (written (m_RoomID msg) (row_at t k) \<longrightarrow> written (m_RoomID msg) (row_at (save_attempt s msg siteID a t) k))
      \<and> (fst (SaveMessage s (fst a) msg (snd a) siteID t) = None \<longrightarrow> k = ById (m_ID msg) \<longrightarrow> written (m_RoomID msg) (row_at (save_attempt s msg siteID a t) k))"
  proof (cases "encrypt_message s cipher (cc_nonce (fst a)) msg")
    case (Inl e)
    then show ?thesis using assms by (simp add: save_attempt_def SaveMessage_def saveMessageEncrypted_def)
  next
    case (Inr pc)
    obtain pl cm where pc: "pc = (pl, cm)" by fastforce
    let ?ss = "enc_stmts s msg cm (snd a) siteID pl (cc_nonce (fst a))"
    obtain err t' where b: "executeBatch (cs_tie s) (cc_clock (fst a)) (cc_fate (fst a)) ?ss t = (err, t')" by fastforce
    have at: "save_attempt s msg siteID a t = t'" "fst (SaveMessage s (fst a) msg (snd a) siteID t) = None \<longleftrightarrow> err = None"
      using Inr pc b assms(1) by (simp_all add: save_attempt_def SaveMessage_def saveMessageEncrypted_def)
    have "row_in_room (m_RoomID msg) (row_at t' k)"
      by (rule executeBatch_keeps [where P = "row_in_room (m_RoomID msg)", OF b assms(3)]) (use in_room_write assms(2) in blast)
    moreover have "written (m_RoomID msg) (row_at t' k)" if "written (m_RoomID msg) (row_at t k)"
      by (rule executeBatch_keeps [where P = "written (m_RoomID msg)", OF b that]) (use written_write assms(2) in blast)
    moreover have "written (m_RoomID msg) (row_at t' k)" if "err = None" "k = ById (m_ID msg)"
      by (rule executeBatch_establishes [where P = "written (m_RoomID msg)" and J = "row_in_room (m_RoomID msg)"
            and ins = "insert_stmt (ById (m_ID msg)) (id_cols msg @ meta_cols msg (snd a) siteID (cm_QuotedParentMessage cm) @ enc_cols pl (cc_nonce (fst a))) None"
            and ss = ?ss and fate = "cc_fate (fst a)" and tie = "cs_tie s" and clock = "cc_clock (fst a)" and t = t])
        (use b that assms written_write in_room_write insert_writes in \<open>auto simp: enc_stmts_def Let_def insert_stmt_def\<close>)
    ultimately show ?thesis using at by blast
  qed
  then show "row_in_room (m_RoomID msg) (row_at (save_attempt s msg siteID a t) k)"
    "written (m_RoomID msg) (row_at t k) \<Longrightarrow> written (m_RoomID msg) (row_at (save_attempt s msg siteID a t) k)"
    "fst (SaveMessage s (fst a) msg (snd a) siteID t) = None \<Longrightarrow> k = ById (m_ID msg) \<Longrightarrow> written (m_RoomID msg) (row_at (save_attempt s msg siteID a t) k)"
    by blast+
qed

lemma attempts_invariant:
  fixes s msg defines "f \<equiv> SplitForEncryption (buildCassandraMessage (cs_marshal s) msg)"
  assumes "cs_cipher s = Some cipher" and "tie_ok (cs_tie s)" and "distinct (map (\<lambda>a. cc_clock (fst a)) as)"
    and "clocks \<inter> set (map (\<lambda>a. cc_clock (fst a)) as) = {}"
    and "sealed cipher f (m_RoomID msg) clocks (row_at t (ById (m_ID msg)))" and "row_in_room (m_RoomID msg) (row_at t (ById (m_ID msg)))"
  shows "sealed cipher f (m_RoomID msg) (clocks \<union> set (map (\<lambda>a. cc_clock (fst a)) as)) (row_at (fold (save_attempt s msg siteID) as t) (ById (m_ID msg)))
    \<and> (written (m_RoomID msg) (row_at t (ById (m_ID msg))) \<or> (\<exists>a \<in> set as. fst (SaveMessage s (fst a) msg (snd a) siteID t0) = None)
       \<longrightarrow> written (m_RoomID msg) (row_at (fold (save_attempt s msg siteID) as t) (ById (m_ID msg))))"
  using assms(4-)
proof (induction as arbitrary: t clocks)
  case (Cons a as)
  let ?t = "save_attempt s msg siteID a t" and ?k = "ById (m_ID msg)"
  have seal: "sealed cipher f (m_RoomID msg) (insert (cc_clock (fst a)) clocks) (row_at ?t ?k)"
    unfolding f_def by (rule attempt_sealed [OF assms(2, 3)]) (use Cons.prems in \<open>simp_all add: f_def\<close>)
  have room: "row_in_room (m_RoomID msg) (row_at ?t ?k)" "written (m_RoomID msg) (row_at t ?k) \<Longrightarrow> written (m_RoomID msg) (row_at ?t ?k)"
    "fst (SaveMessage s (fst a) msg (snd a) siteID t0) = None \<Longrightarrow> written (m_RoomID msg) (row_at ?t ?k)"
    using attempt_in_room [OF assms(2, 3) Cons.prems(4)] SaveMessage_error [of s "fst a" msg "snd a" siteID t t0] by simp_all
  have fresh: "distinct (map (\<lambda>a. cc_clock (fst a)) as)" "insert (cc_clock (fst a)) clocks \<inter> set (map (\<lambda>a. cc_clock (fst a)) as) = {}"
    using Cons.prems(1, 2) by auto
  show ?case using Cons.IH [OF fresh seal room(1)] room(2, 3) by auto
qed simp

text \<open>C7: With encryption on, a message can be read back as long as one attempt at it succeeded: whatever attempts came before and after, with
  whatever nonces, and whichever part of their batches was executed, the snapshot of the message has its content and its room. The attempts
  read distinct client clocks; the cipher opens what it sealed under the nonce of the sealing, and a sealed payload is not empty.\<close>

theorem encrypted_message_readable:
  assumes "cs_cipher s = Some cipher" and "tie_ok (cs_tie s)"
    and "\<forall>room f nonce p. Encrypt cipher room f nonce = Inr p \<longrightarrow> p \<noteq> '''' \<and> Decrypt cipher room p nonce = Inr f"
    and "distinct (map (\<lambda>a. cc_clock (fst a)) as)"
    and "a \<in> set as" and "fst (SaveMessage s (fst a) msg (snd a) siteID no_tables) = None"
  shows "\<exists>snap. GetQuotedParentSnapshot s None (m_ID msg) (fold (save_attempt s msg siteID) as no_tables) = Inr (Some snap)
     \<and> qp_Msg snap = m_Content msg \<and> qp_RoomID snap = m_RoomID msg"
proof -
  let ?r = "row_at (fold (save_attempt s msg siteID) as no_tables) (ById (m_ID msg))"
  let ?f = "SplitForEncryption (buildCassandraMessage (cs_marshal s) msg)"
  have start: "sealed cipher ?f (m_RoomID msg) {} (row_at no_tables (ById (m_ID msg)))" "row_in_room (m_RoomID msg) (row_at no_tables (ById (m_ID msg)))"
    by (simp_all add: sealed_def row_in_room_def no_tables_def no_row_def)
  have "sealed cipher ?f (m_RoomID msg) ({} \<union> set (map (\<lambda>a. cc_clock (fst a)) as)) ?r \<and> written (m_RoomID msg) ?r"
    using attempts_invariant [where s = s and msg = msg and as = as and clocks = "{}" and t = no_tables and siteID = siteID and t0 = no_tables
      and cipher = cipher, OF assms(1, 2, 4) _ start] assms(5, 6) by auto
  then obtain p nonce ts ts' where cells: "row_cells ?r ''enc_payload'' = Some (VStr p, ts)" "row_cells ?r ''enc_meta'' = Some (VMeta nonce, ts)"
      "Encrypt cipher (m_RoomID msg) ?f nonce = Inr p" "row_inserted ?r" "row_cells ?r ''room_id'' = Some (VStr (m_RoomID msg), ts')"
    by (auto simp: sealed_def written_def row_in_room_def)
  moreover have "ef_Msg ?f = m_Content msg" by (simp add: SplitForEncryption_def buildCassandraMessage_def)
  ultimately show ?thesis using assms(1, 3)
    by (simp add: GetQuotedParentSnapshot_def Let_def row_exists_def str_cell_def meta_cell_def cell_def)
qed

text \<open>A cipher that hides nothing: the payload is the marked body, and every nonce opens it.\<close>

definition demo_cipher :: Cipher where
  "demo_cipher = \<lparr>Encrypt = (\<lambda>room f nonce. if ef_Attachments f = [] \<and> ef_Card f = None \<and> ef_CardAction f = None \<and> ef_QuotedParentContent f = None
       then Inr (CHR ''*'' # ef_Msg f) else Inl (MGo (Raw ''unsupported''))),
     Decrypt = (\<lambda>room p nonce. Inr \<lparr>ef_Msg = tl p, ef_Attachments = [], ef_Card = None, ef_CardAction = None, ef_QuotedParentContent = None\<rparr>)\<rparr>"

text \<open>A failed attempt that wrote one row, one that succeeds, and a late redelivery that wrote the other.\<close>

definition demo_attempts :: "(cass_call \<times> CassParticipant option) list" where
  "demo_attempts = [(demo_cass_call 6000 ''n1'' (CassErr (MGo (Raw ''timeout'')) (\<lambda>i. i = 0)), None), (demo_cass_call 8000 ''n2'' CassOk, None),
     (demo_cass_call 7000 ''n3'' (CassErr (MGo (Raw ''timeout'')) (\<lambda>i. i = 2)), None)]"

theorem encrypted_message_readable_witness:
  "\<exists>snap. GetQuotedParentSnapshot (demo_cass_store (Some demo_cipher)) None ''m1''
       (fold (save_attempt (demo_cass_store (Some demo_cipher)) first_message ''s1'') demo_attempts no_tables) = Inr (Some snap)
     \<and> qp_Msg snap = ''helo'' \<and> qp_RoomID snap = ''r1''"
proof -
  have m: "m_ID first_message = ''m1''" "m_Content first_message = ''helo''" "m_RoomID first_message = ''r1''" by (simp_all add: first_message_def)
  have law: "\<forall>room f nonce p. Encrypt demo_cipher room f nonce = Inr p \<longrightarrow> p \<noteq> '''' \<and> Decrypt demo_cipher room p nonce = Inr f"
    by (simp add: demo_cipher_def)
  have ok: "fst (SaveMessage (demo_cass_store (Some demo_cipher)) (demo_cass_call 8000 ''n2'' CassOk) first_message None ''s1'' no_tables) = None"
    by (simp add: SaveMessage_def saveMessageEncrypted_def demo_cass_store_def demo_cass_call_def encrypt_message_def demo_cipher_def
      buildCassandraMessage_def SplitForEncryption_def first_message_def empty_Message_def executeBatch_def)
  show ?thesis
    using encrypted_message_readable [where s = "demo_cass_store (Some demo_cipher)" and msg = first_message and as = demo_attempts and siteID = "''s1''"
      and a = "(demo_cass_call 8000 ''n2'' CassOk, None)", OF _ _ law] ok m
    by (simp add: demo_cass_store_def tie_ok_def demo_attempts_def demo_cass_call_def)
qed

section \<open>What an encrypted redelivery does\<close>

text \<open>An encrypted edit: the new payload and nonce, at the client's clock.\<close>

definition edit_encrypted :: "string \<Rightarrow> string \<Rightarrow> int \<Rightarrow> cass_tables \<Rightarrow> cass_tables" where
  "edit_encrypted payload nonce clock t =
     exec_stmt (\<lambda>old new. new) clock \<lparr>st_target = ById ''m1'', st_insert = False, st_cols = enc_cols payload nonce, st_using = None\<rparr> t"

theorem encrypted_redelivery_undoes_edit:
  "map_sum (\<lambda>_. ()) (map_option qp_Msg) (GetQuotedParentSnapshot (demo_cass_store (Some demo_cipher)) None ''m1''
       (snd (SaveMessage (demo_cass_store (Some demo_cipher)) (demo_cass_call 9000 ''n2'' CassOk) first_message None ''s1''
         (edit_encrypted ''*hello'' ''n9'' 7000
           (snd (SaveMessage (demo_cass_store (Some demo_cipher)) (demo_cass_call 6000 ''n1'' CassOk) first_message None ''s1'' no_tables)))))) = Inr (Some ''helo'')"
  by (simp add: SaveMessage_def saveMessageEncrypted_def demo_cass_store_def demo_cass_call_def encrypt_message_def demo_cipher_def
      buildCassandraMessage_def SplitForEncryption_def StripEncryptedFields_def first_message_def empty_Message_def executeBatch_def edit_encrypted_def
      exec_stmt_def write_row_def write_cell_def merge_cell_def stmt_defs col_defs Let_def no_tables_def no_row_def
      GetQuotedParentSnapshot_def row_exists_def str_cell_def meta_cell_def cell_def)

end
