(* ===== verification/Msg_Props.thy ===== *)
theory Msg_Props
  imports Msg_Rules Cass_Props Gatekeeper_Props
begin

text \<open>
  What message-worker promises: a message that is acknowledged is in the tables, or the error it is acknowledged with condemns it;
  a quote the gatekeeper could not verify is replaced by the stored message of the same conversation or dropped; a mention
  reaches only accounts whose membership shows them the thread.
\<close>

section \<open>The rows of a message\<close>

text \<open>A row was inserted and every one of the columns holds the value written at the time, what the tie break made of it, or something
  later.\<close>

definition row_recorded :: "tie_break \<Rightarrow> (string \<times> cval) list \<Rightarrow> int \<Rightarrow> cass_row \<Rightarrow> bool" where
  "row_recorded tie cols ts r \<longleftrightarrow> row_inserted r \<and>
     (\<forall>(c, v) \<in> set cols. \<exists>v' ts'. row_cells r c = Some (v', ts') \<and> (ts < ts' \<or> ts = ts' \<and> (v' = v \<or> (\<exists>u. v' = tie u v))))"

lemma recorded_insert:
  assumes "st_insert s" "st_cols s = cols" "stmt_time clock s = ts" "distinct (map fst cols)"
  shows "row_recorded tie cols ts (write_row tie clock s r)"
  using assms by (fastforce simp: row_recorded_def write_row_cells merge_cell_def split: option.splits)

lemma recorded_write:
  assumes "row_recorded tie cols ts r" "distinct (map fst (st_cols s))"
    and "\<And>c v v'. (c, v) \<in> set cols \<Longrightarrow> map_of (st_cols s) c = Some v' \<Longrightarrow> v' = v"
  shows "row_recorded tie cols ts (write_row tie clock s r)"
proof -
  have "\<exists>v' ts'. row_cells (write_row tie clock s r) c = Some (v', ts') \<and> (ts < ts' \<or> ts = ts' \<and> (v' = v \<or> (\<exists>u. v' = tie u v)))"
    if cv: "(c, v) \<in> set cols" for c v
  proof -
    obtain w ts1 where old: "row_cells r c = Some (w, ts1)" "ts < ts1 \<or> ts = ts1 \<and> (w = v \<or> (\<exists>u. w = tie u v))"
      using assms(1) cv by (fastforce simp: row_recorded_def)
    show ?thesis
    proof (cases "map_of (st_cols s) c")
      case None
      then show ?thesis using old by (simp add: write_row_cells assms(2))
    next
      case (Some x)
      then have "x = v" using assms(3) cv by blast
      then show ?thesis using old Some by (auto simp: write_row_cells assms(2) merge_cell_def)
    qed
  qed
  then show ?thesis using assms(1) by (auto simp: row_recorded_def)
qed

text \<open>The columns of the body and the write time of a create: plain, or encrypted with the nonce of the call.\<close>

definition create_cols ::
  "cass_store \<Rightarrow> cass_call \<Rightarrow> Message \<Rightarrow> CassParticipant option \<Rightarrow> string \<Rightarrow> ((string \<times> cval) list \<times> int) option" where
  "create_cols s n msg sender siteID =
     (case cs_cipher s of
        None \<Rightarrow> Some (meta_cols msg sender siteID (m_QuotedParentMessage msg) @ body_cols msg, writeTS (m_CreatedAt msg))
      | Some cipher \<Rightarrow>
          (case encrypt_message s cipher (cc_nonce n) msg of
             Inl _ \<Rightarrow> None
           | Inr (payload, cm) \<Rightarrow> Some (meta_cols msg sender siteID (cm_QuotedParentMessage cm) @ enc_cols payload (cc_nonce n), cc_clock n)))"

definition thread_cols :: "Message \<Rightarrow> (string \<times> cval) list" where
  "thread_cols msg = [(''room_id'', VStr (m_RoomID msg)), (''thread_parent_id'', VStr (m_ThreadParentMessageID msg))]"

text \<open>The rows of a message outside threads, and of a reply in a thread room.\<close>

definition message_rows :: "cass_store \<Rightarrow> cass_call \<Rightarrow> Message \<Rightarrow> CassParticipant option \<Rightarrow> string \<Rightarrow> cass_tables \<Rightarrow> bool" where
  "message_rows s n msg sender siteID t \<longleftrightarrow>
     (case create_cols s n msg sender siteID of
        None \<Rightarrow> False
      | Some (cols, ts) \<Rightarrow>
          row_recorded (cs_tie s) (id_cols msg @ cols) ts (ct_by_id t (m_ID msg))
          \<and> row_recorded (cs_tie s) cols ts (ct_by_room t (room_key_msg s msg)))"

definition reply_rows :: "cass_store \<Rightarrow> cass_call \<Rightarrow> Message \<Rightarrow> CassParticipant option \<Rightarrow> string \<Rightarrow> string \<Rightarrow> cass_tables \<Rightarrow> bool" where
  "reply_rows s n msg sender siteID threadRoomID t \<longleftrightarrow>
     (case create_cols s n msg sender siteID of
        None \<Rightarrow> False
      | Some (cols, ts) \<Rightarrow>
          row_recorded (cs_tie s) (id_cols msg @ reply_cols msg threadRoomID @ cols) ts (ct_by_id t (m_ID msg))
          \<and> row_recorded (cs_tie s) (thread_cols msg @ cols) ts
              (ct_by_thread t (thread_key_msg threadRoomID msg))
          \<and> (m_TShow msg \<longrightarrow> row_recorded (cs_tie s) (reply_cols msg threadRoomID @ cols) ts (ct_by_room t (room_key_msg s msg))))"

text \<open>The statements of a create, plain or encrypted: one insert per row, and strips of columns the insert does not name.\<close>

definition cols_distinct :: "(string \<times> cval) list \<Rightarrow> bool" where "cols_distinct cols \<longleftrightarrow> distinct (map fst cols)"

definition cols_apart :: "(string \<times> cval) list \<Rightarrow> (string \<times> cval) list \<Rightarrow> bool" where
  "cols_apart a b \<longleftrightarrow> fst ` set a \<inter> fst ` set b = {}"

definition create_batch :: "(target \<times> (string \<times> cval) list) list \<Rightarrow> int \<Rightarrow> int \<Rightarrow> stmt list \<Rightarrow> bool" where
  "create_batch rows ts clock ss \<longleftrightarrow>
     list_all (\<lambda>(k, cols). list_ex (\<lambda>s. st_target s = k \<and> st_insert s \<and> st_cols s = cols \<and> stmt_time clock s = ts) ss) rows
     \<and> list_all (\<lambda>s. cols_distinct (st_cols s)
          \<and> list_all (\<lambda>(k, cols). st_target s \<noteq> k \<or> st_cols s = cols \<or> cols_apart (st_cols s) cols) rows) ss"

lemma create_batch_records:
  assumes "create_batch rows ts clock ss" and "executeBatch tie clock fate ss t = (None, t')" and "(k, cols) \<in> set rows"
  shows "row_recorded tie cols ts (row_at t' k)"
proof -
  obtain ins where s: "ins \<in> set ss" "st_target ins = k" "st_insert ins" "st_cols ins = cols" "stmt_time clock ins = ts"
    using assms(1, 3) by (auto simp: create_batch_def list_all_iff list_ex_iff)
  have all: "distinct (map fst (st_cols st))" "st_target st = k \<Longrightarrow> st_cols st = cols \<or> fst ` set (st_cols st) \<inter> fst ` set cols = {}"
    if "st \<in> set ss" for st
  proof -
    have "\<forall>x \<in> set rows. case x of (k, cols) \<Rightarrow> st_target st \<noteq> k \<or> st_cols st = cols \<or> cols_apart (st_cols st) cols"
      using assms(1) that by (simp add: create_batch_def list_all_iff)
    from bspec [OF this assms(3)] show "st_target st = k \<Longrightarrow> st_cols st = cols \<or> fst ` set (st_cols st) \<inter> fst ` set cols = {}"
      by (simp add: cols_apart_def)
    show "distinct (map fst (st_cols st))" using assms(1) that by (simp add: create_batch_def list_all_iff cols_distinct_def)
  qed
  have keep: "row_recorded tie cols ts (write_row tie clock st r)" if st: "st \<in> set ss" "st_target st = k" and r: "row_recorded tie cols ts r" for st r
  proof (rule recorded_write [OF r])
    show "distinct (map fst (st_cols st))" using all st by simp
    show "v' = v" if cv: "(c, v) \<in> set cols" and v': "map_of (st_cols st) c = Some v'" for c v v'
    proof (cases "st_cols st = cols")
      case True
      then show ?thesis using v' map_of_is_SomeI [OF _ cv] all(1) [OF s(1)] s(4) by simp
    next
      case False
      then have "fst ` set (st_cols st) \<inter> fst ` set cols = {}" using all st by blast
      moreover have "c \<in> fst ` set (st_cols st)" "c \<in> fst ` set cols" using map_of_SomeD [OF v'] cv by force+
      ultimately show ?thesis by blast
    qed
  qed
  show ?thesis
    by (rule executeBatch_establishes [where P = "row_recorded tie cols ts" and J = "\<lambda>_. True", OF assms(2) s(1, 2)])
      (use keep s recorded_insert all(1) [OF s(1)] in auto)
qed

text \<open>The columns of the rows, each named once and none of them stripped when encrypted.\<close>

lemma plain_cols_distinct [simp]:
  "cols_distinct (meta_cols msg sender siteID q @ body_cols msg)"
  "cols_distinct (id_cols msg @ meta_cols msg sender siteID q @ body_cols msg)"
  "cols_distinct (id_cols msg @ reply_cols msg th @ meta_cols msg sender siteID q @ body_cols msg)"
  "cols_distinct (thread_cols msg @ meta_cols msg sender siteID q @ body_cols msg)"
  "cols_distinct (reply_cols msg th @ meta_cols msg sender siteID q @ body_cols msg)"
  by (simp_all add: cols_distinct_def col_defs thread_cols_def)

lemma enc_cols_distinct [simp]:
  "cols_distinct (meta_cols msg sender siteID q @ enc_cols pl no)"
  "cols_distinct (id_cols msg @ meta_cols msg sender siteID q @ enc_cols pl no)"
  "cols_distinct (id_cols msg @ reply_cols msg th @ meta_cols msg sender siteID q @ enc_cols pl no)"
  "cols_distinct (thread_cols msg @ meta_cols msg sender siteID q @ enc_cols pl no)"
  "cols_distinct (reply_cols msg th @ meta_cols msg sender siteID q @ enc_cols pl no)"
  "cols_distinct strip_cols"
  by (simp_all add: cols_distinct_def col_defs thread_cols_def)

lemma enc_cols_apart [simp]:
  "cols_apart strip_cols (meta_cols msg sender siteID q @ enc_cols pl no)"
  "cols_apart strip_cols (id_cols msg @ meta_cols msg sender siteID q @ enc_cols pl no)"
  "cols_apart strip_cols (id_cols msg @ reply_cols msg th @ meta_cols msg sender siteID q @ enc_cols pl no)"
  "cols_apart strip_cols (thread_cols msg @ meta_cols msg sender siteID q @ enc_cols pl no)"
  "cols_apart strip_cols (reply_cols msg th @ meta_cols msg sender siteID q @ enc_cols pl no)"
  by (simp_all add: cols_apart_def col_defs thread_cols_def)

lemma save_batches:
  "create_batch [(ByRoom (room_key_msg s msg), meta_cols msg sender siteID (m_QuotedParentMessage msg) @ body_cols msg),
      (ById (m_ID msg), id_cols msg @ meta_cols msg sender siteID (m_QuotedParentMessage msg) @ body_cols msg)]
      (writeTS (m_CreatedAt msg)) clock (plain_stmts s msg sender siteID)"
  "create_batch [(ByRoom (room_key_msg s msg), meta_cols msg sender siteID q @ enc_cols pl no),
      (ById (m_ID msg), id_cols msg @ meta_cols msg sender siteID q @ enc_cols pl no)]
      clock clock (enc_stmts s msg (cm\<lparr>cm_QuotedParentMessage := q\<rparr>) sender siteID pl no)"
  by (simp_all add: create_batch_def stmt_defs stmt_time_def Let_def)

lemma reply_batches:
  "create_batch ([(ById (m_ID msg), id_cols msg @ reply_cols msg th @ meta_cols msg sender siteID (m_QuotedParentMessage msg) @ body_cols msg),
      (ByThread (thread_key_msg th msg), thread_cols msg
         @ meta_cols msg sender siteID (m_QuotedParentMessage msg) @ body_cols msg)]
      @ (if m_TShow msg then [(ByRoom (room_key_msg s msg), reply_cols msg th @ meta_cols msg sender siteID (m_QuotedParentMessage msg) @ body_cols msg)] else []))
      (writeTS (m_CreatedAt msg)) clock (plain_reply_stmts s msg sender siteID th)"
  "create_batch ([(ById (m_ID msg), id_cols msg @ reply_cols msg th @ meta_cols msg sender siteID q @ enc_cols pl no),
      (ByThread (thread_key_msg th msg), thread_cols msg
         @ meta_cols msg sender siteID q @ enc_cols pl no)]
      @ (if m_TShow msg then [(ByRoom (room_key_msg s msg), reply_cols msg th @ meta_cols msg sender siteID q @ enc_cols pl no)] else []))
      clock clock (enc_reply_stmts s msg (cm\<lparr>cm_QuotedParentMessage := q\<rparr>) sender siteID th pl no)"
  by (cases "m_TShow msg"; simp add: create_batch_def stmt_defs stmt_time_def Let_def flip: thread_cols_def append_Cons)+

lemma SaveMessage_rows:
  assumes "SaveMessage s n msg sender siteID t = (None, t')"
  shows "message_rows s n msg sender siteID t'"
proof (cases "cs_cipher s")
  case None
  then have "executeBatch (cs_tie s) (cc_clock n) (cc_fate n) (plain_stmts s msg sender siteID) t = (None, t')"
    using assms by (auto simp: SaveMessage_def split: prod.splits)
  from create_batch_records [OF save_batches(1) this] show ?thesis
    using None by (simp add: message_rows_def create_cols_def) (metis row_at_simps(1, 2))
next
  case (Some cipher)
  then obtain pl cm where e: "encrypt_message s cipher (cc_nonce n) msg = Inr (pl, cm)"
    and b: "executeBatch (cs_tie s) (cc_clock n) (cc_fate n) (enc_stmts s msg cm sender siteID pl (cc_nonce n)) t = (None, t')"
    using assms by (auto simp: SaveMessage_def saveMessageEncrypted_def split: prod.splits sum.splits)
  from create_batch_records [OF save_batches(2) [where cm = cm and q = "cm_QuotedParentMessage cm"]] b
  show ?thesis using Some e by (simp add: message_rows_def create_cols_def) (metis row_at_simps(1, 2))
qed

text \<open>The reply count leaves what the batch recorded.\<close>

lemma recorded_counts:
  assumes "row_recorded tie cols ts r" "fst ` set cols \<inter> count_columns = {}"
  shows "row_recorded tie cols ts (put_row_counts clock v r)"
proof -
  have "row_cells (put_row_counts clock v r) c = row_cells r c" if "(c, x) \<in> set cols" for c x
    using that assms(2) by (intro put_row_counts_cells) force
  then show ?thesis using assms(1) by (fastforce simp: row_recorded_def)
qed

lemma after_batch_records:
  assumes "create_batch rows ts (cc_clock n) ss" and "after_batch s n msg th ss t = (Inr c, t')" and "(k, cols) \<in> set rows"
    and "fst ` set cols \<inter> count_columns = {}"
  shows "row_recorded (cs_tie s) cols ts (row_at t' k)"
proof -
  obtain t1 where b: "executeBatch (cs_tie s) (cc_clock n) (cc_fate n) ss t = (None, t1)" "countAndSetParentTcount s n msg th t1 = (Inr c, t')"
    using assms(2) by (auto simp: after_batch_def split: prod.splits option.splits)
  show ?thesis
    by (rule count_keeps_row [where P = "row_recorded (cs_tie s) cols ts", OF b(2) create_batch_records [OF assms(1) b(1) assms(3)]])
      (rule recorded_counts [OF _ assms(4)])
qed

lemma reply_columns_uncounted:
  "fst ` set (id_cols msg @ reply_cols msg th @ meta_cols msg sender siteID q @ body_cols msg) \<inter> count_columns = {}"
  "fst ` set (thread_cols msg @ meta_cols msg sender siteID q @ body_cols msg) \<inter> count_columns = {}"
  "fst ` set (reply_cols msg th @ meta_cols msg sender siteID q @ body_cols msg) \<inter> count_columns = {}"
  "fst ` set (id_cols msg @ reply_cols msg th @ meta_cols msg sender siteID q @ enc_cols pl no) \<inter> count_columns = {}"
  "fst ` set (thread_cols msg @ meta_cols msg sender siteID q @ enc_cols pl no) \<inter> count_columns = {}"
  "fst ` set (reply_cols msg th @ meta_cols msg sender siteID q @ enc_cols pl no) \<inter> count_columns = {}"
  by (simp_all add: col_defs thread_cols_def count_columns_def)

lemma SaveThreadMessage_rows:
  assumes "SaveThreadMessage s n msg sender siteID th t = (Inr c, t')"
  shows "reply_rows s n msg sender siteID th t'"
proof (cases "cs_cipher s")
  case None
  then have b: "after_batch s n msg th (plain_reply_stmts s msg sender siteID th) t = (Inr c, t')"
    using assms by (simp add: SaveThreadMessage_def)
  note rec = after_batch_records [OF reply_batches(1) b]
  show ?thesis using None rec [OF _ reply_columns_uncounted(1), of "ById (m_ID msg)"] rec [OF _ reply_columns_uncounted(2), of "ByThread (thread_key_msg th msg)"]
      rec [OF _ reply_columns_uncounted(3), of "ByRoom (room_key_msg s msg)"]
    by (simp add: reply_rows_def create_cols_def)
next
  case (Some cipher)
  then obtain pl cm where e: "encrypt_message s cipher (cc_nonce n) msg = Inr (pl, cm)"
    and b: "after_batch s n msg th (enc_reply_stmts s msg (cm\<lparr>cm_QuotedParentMessage := cm_QuotedParentMessage cm\<rparr>) sender siteID th pl (cc_nonce n)) t = (Inr c, t')"
    using assms by (auto simp: SaveThreadMessage_def saveThreadMessageEncrypted_def split: prod.splits sum.splits)
  note rec = after_batch_records [OF reply_batches(2) b]
  show ?thesis using Some e rec [OF _ reply_columns_uncounted(4), of "ById (m_ID msg)"] rec [OF _ reply_columns_uncounted(5), of "ByThread (thread_key_msg th msg)"]
      rec [OF _ reply_columns_uncounted(6), of "ByRoom (room_key_msg s msg)"]
    by (simp add: reply_rows_def create_cols_def)
qed

section \<open>An acknowledged message is message_stored\<close>

lemma triple_any: "triple P m (\<lambda>_ _. True) (\<lambda>_ _. True)"
  by (rule tripleI) simp_all

lemma triple_after:
  assumes "triple P m R (\<lambda>_ _. True)" and "\<And>x w. R x w \<Longrightarrow> triple (\<lambda>w'. w' = w) (f x) Q (\<lambda>_ _. True)"
  shows "triple P (bnd m f) Q (\<lambda>_ _. True)"
  by (rule triple_bnd [OF assms(1)]) (use assms(2) in \<open>fastforce simp: triple_def\<close>)

lemma triple_drop: "(\<And>x. triple (\<lambda>_. True) (f x) Q (\<lambda>_ _. True)) \<Longrightarrow> triple P (bnd m f) Q (\<lambda>_ _. True)"
  by (rule triple_bnd [OF triple_any]) auto

lemma triple_wrapping_any: "triple P m Q (\<lambda>_ _. True) \<Longrightarrow> triple P (wrapping s m) Q (\<lambda>_ _. True)"
  by (rule triple_wrapping) simp

text \<open>What the handler may change of a message on its way to the tables.\<close>

definition enriched :: "Message \<Rightarrow> Message \<Rightarrow> bool" where
  "enriched msg msg' \<longleftrightarrow> (\<exists>ms q tp. msg' = msg\<lparr>m_Mentions := ms, m_QuotedParentMessage := q, m_ThreadParentMessageCreatedAt := tp\<rparr>)"

lemma enriched_same: "enriched msg msg' \<Longrightarrow> m_ID msg' = m_ID msg \<and> m_Content msg' = m_Content msg \<and> m_RoomID msg' = m_RoomID msg
    \<and> m_ThreadParentMessageID msg' = m_ThreadParentMessageID msg"
  by (auto simp: enriched_def)

lemma enriched_trans: "enriched a b \<Longrightarrow> enriched b c \<Longrightarrow> enriched a c"
  unfolding enriched_def by (elim exE, rule exI, rule exI, rule exI) simp

definition message_stored :: "mw_env \<Rightarrow> Message \<Rightarrow> string \<Rightarrow> cass_tables \<Rightarrow> bool" where
  "message_stored h msg siteID t \<longleftrightarrow>
     (\<exists>msg' sender i. enriched msg msg' \<and>
        (if m_ThreadParentMessageID msg = '''' then message_rows (me_store h) (me_cass h i) msg' sender siteID t
         else \<exists>th. reply_rows (me_store h) (me_cass h i) msg' sender siteID th t))"

lemma h_SaveMessage_rows:
  "triple P (h_SaveMessage h msg sender siteID) (\<lambda>_ w. \<exists>i. message_rows (me_store h) (me_cass h i) msg sender siteID (w_cass w)) (\<lambda>_ _. True)"
  unfolding h_SaveMessage_def historyStore_def
  by (rule triple_drop, rule triple_map_err, rule tripleI) (auto split: prod.splits option.splits dest: SaveMessage_rows)

lemma h_SaveThreadMessage_rows:
  "triple P (h_SaveThreadMessage h msg sender siteID th) (\<lambda>_ w. \<exists>i. reply_rows (me_store h) (me_cass h i) msg sender siteID th (w_cass w)) (\<lambda>_ _. True)"
  unfolding h_SaveThreadMessage_def historyStore_def
  by (rule triple_drop, rule triple_map_err, rule tripleI) (auto split: prod.splits, metis SaveThreadMessage_rows)

text \<open>Publishing the badge leaves the tables.\<close>

lemma keeps_next_call [keep_rules]: "(\<And>w n. I w \<Longrightarrow> I (w\<lparr>w_calls := n\<rparr>)) \<Longrightarrow> keeps I next_call"
  by (rule keepsI) (auto simp: next_call_def)

lemma publish_keeps_cass: "keeps (\<lambda>w. w_cass w = t) (publishThreadReplyEventIfLive h msg c)"
  unfolding publishThreadReplyEventIfLive_def publishThreadReplyEvent_def is_degraded_def h_publish_def
  by (intro keep_rules; (simp; fail)?) (auto intro!: keepsI)

lemma resolve_parent_time_enriched:
  "triple P (resolve_parent_time h msg) (\<lambda>msg' _. \<exists>tp. msg' = msg\<lparr>m_ThreadParentMessageCreatedAt := tp\<rparr>) (\<lambda>_ _. True)"
proof (cases "m_ThreadParentMessageCreatedAt msg")
  case (Some x)
  then have "msg = msg\<lparr>m_ThreadParentMessageCreatedAt := Some x\<rparr>" by simp
  then have "\<exists>tp. msg = msg\<lparr>m_ThreadParentMessageCreatedAt := tp\<rparr>" ..
  then show ?thesis using Some by (simp add: resolve_parent_time_def triple_def ret_def)
next
  case None
  then have "msg = msg\<lparr>m_ThreadParentMessageCreatedAt := None\<rparr>" by simp
  then have "\<exists>tp. msg = msg\<lparr>m_ThreadParentMessageCreatedAt := tp\<rparr>" ..
  then show ?thesis unfolding resolve_parent_time_def None option.case
    by (intro triple_drop triple_option triple_if triple_ret triple_throw) (assumption | rule TrueI | (rule exI, rule refl))+
qed

lemma process_reply_stores:
  "triple P (process_reply h msg siteID user sender isMigration)
     (\<lambda>_ w. \<exists>i th tp. reply_rows (me_store h) (me_cass h i) (msg\<lparr>m_ThreadParentMessageCreatedAt := tp\<rparr>) sender siteID th (w_cass w)) (\<lambda>_ _. True)"
  unfolding process_reply_def
proof (rule triple_after [OF resolve_parent_time_enriched], goal_cases)
  case (1 msg' w)
  then obtain tp where msg': "msg' = msg\<lparr>m_ThreadParentMessageCreatedAt := tp\<rparr>" ..
  let ?R = "\<lambda>th w. \<exists>i. reply_rows (me_store h) (me_cass h i) msg' sender siteID th (w_cass w)"
  have pub: "triple (\<lambda>w'. w' = w1) (wrapping x (publishThreadReplyEventIfLive h msg' n)) (\<lambda>_. ?R th) (\<lambda>_ _. True)" if "?R th w1" for w1 x n th
    by (rule triple_wrapping_any, rule triple_conseq [OF publish_keeps_cass [unfolded keeps_def, of "w_cass w1"]]) (use that in auto)
  have save: "triple (\<lambda>_. True) (bnd (wrapping ''save thread message'' (h_SaveThreadMessage h msg' sender siteID th)) (\<lambda>newTcount.
     case newTcount of
       Some n \<Rightarrow> if isMigration then ret () else wrapping ''publish thread reply event'' (publishThreadReplyEventIfLive h msg' n)
     | None \<Rightarrow> ret ())) (\<lambda>_. ?R th) (\<lambda>_ _. True)" for th
    by (rule triple_after [OF triple_wrapping_any [OF h_SaveThreadMessage_rows]])
      (auto intro!: triple_ret triple_if pub split: option.split)
  show ?case
    by (rule triple_drop, rule triple_case_prod, rule triple_case_prod, rule triple_drop, rule triple_drop, rule triple_drop,
        rule triple_conseq [OF save]) (use msg' in blast)+
qed

lemma reproject_enriched:
  "triple P (reprojectUnverifiedQuote h evt)
     (\<lambda>evt' _. (\<exists>q. ev_Message evt' = (ev_Message evt)\<lparr>m_QuotedParentMessage := q\<rparr>) \<and> ev_SiteID evt' = ev_SiteID evt) (\<lambda>_ _. True)"
proof -
  have same: "\<exists>q. ev_Message evt = (ev_Message evt)\<lparr>m_QuotedParentMessage := q\<rparr>" by (rule exI [of _ "m_QuotedParentMessage (ev_Message evt)"]) simp
  have set: "(\<exists>q'. ev_Message (set_quote q (evt\<lparr>ev_QuotedParentUnverified := False\<rparr>)) = (ev_Message evt)\<lparr>m_QuotedParentMessage := q'\<rparr>)
      \<and> ev_SiteID (set_quote q (evt\<lparr>ev_QuotedParentUnverified := False\<rparr>)) = ev_SiteID evt" for q
    by (simp add: set_quote_def) (rule exI, rule refl)
  show ?thesis
    unfolding reprojectUnverifiedQuote_def Let_def
    by (intro triple_drop triple_option triple_if triple_ret triple_throw) (use same set in \<open>blast+\<close>)
qed

lemma process_event_stores:
  "triple P (process_event h evt isMigration) (\<lambda>_ w. message_stored h (ev_Message evt) (ev_SiteID evt) (w_cass w)) (\<lambda>_ _. True)"
proof -
  obtain ms user sender where env: "ms = rs_Participants (fst (ResolveMentions (m_Content (ev_Message evt)) (me_users h)))"
    "resolve_sender h ((ev_Message evt)\<lparr>m_Mentions := ms\<rparr>) = (user, sender)" by fastforce
  let ?evt1 = "evt\<lparr>ev_Message := (ev_Message evt)\<lparr>m_Mentions := ms\<rparr>\<rparr>"
  have eq: "process_event h evt isMigration =
      bnd (wrapping ''re-project unverified quote'' (reprojectUnverifiedQuote h ?evt1)) (\<lambda>evt.
      if m_ThreadParentMessageID (ev_Message evt) \<noteq> '''' then process_reply h (ev_Message evt) (ev_SiteID evt) user sender isMigration
      else wrapping ''save message'' (h_SaveMessage h (ev_Message evt) sender (ev_SiteID evt)))"
    using env by (simp add: process_event_def Let_def)
  show ?thesis unfolding eq
  proof (rule triple_after [OF triple_wrapping_any [OF reproject_enriched]], goal_cases)
    case (1 evt' w)
    then obtain q where q: "ev_Message evt' = (ev_Message evt)\<lparr>m_Mentions := ms, m_QuotedParentMessage := q\<rparr>" "ev_SiteID evt' = ev_SiteID evt" by auto
    have e: "enriched (ev_Message evt) (ev_Message evt')" "enriched (ev_Message evt) ((ev_Message evt')\<lparr>m_ThreadParentMessageCreatedAt := tp\<rparr>)" for tp
      unfolding enriched_def q by (rule exI [of _ ms], rule exI [of _ q], rule exI [of _ "m_ThreadParentMessageCreatedAt (ev_Message evt)"], simp)
        (rule exI [of _ ms], rule exI [of _ q], rule exI [of _ tp], simp)
    have tp: "m_ThreadParentMessageID (ev_Message evt') = m_ThreadParentMessageID (ev_Message evt)" by (simp add: q)
    show ?case
    proof (rule triple_if)
      assume "m_ThreadParentMessageID (ev_Message evt') \<noteq> ''''"
      then show "triple (\<lambda>w'. w' = w) (process_reply h (ev_Message evt') (ev_SiteID evt') user sender isMigration)
          (\<lambda>_ w. message_stored h (ev_Message evt) (ev_SiteID evt) (w_cass w)) (\<lambda>_ _. True)"
        by (intro triple_conseq [OF process_reply_stores]) (use e tp q in \<open>auto simp: message_stored_def\<close>)
    next
      assume "\<not> m_ThreadParentMessageID (ev_Message evt') \<noteq> ''''"
      then show "triple (\<lambda>w'. w' = w) (wrapping ''save message'' (h_SaveMessage h (ev_Message evt') sender (ev_SiteID evt')))
          (\<lambda>_ w. message_stored h (ev_Message evt) (ev_SiteID evt) (w_cass w)) (\<lambda>_ _. True)"
        by (intro triple_wrapping_any triple_conseq [OF h_SaveMessage_rows]) (use e tp q in \<open>auto simp: message_stored_def\<close>)
    qed
  qed
qed

lemma handler_ack:
  assumes "Handler_settle n meta (Some e) s = (Ack, ms, s')"
  shows "mw_IsPermanent e \<noteq> None \<or> (isHistoryWriteError e \<and> ClassifyCQL e \<noteq> CQLInfra)"
  using assms by (auto simp: Handler_settle_def jsretry_Settle_def settle_def Let_def split: if_splits)


text \<open>A worker on the site s1 whose every call succeeds and whose directory knows nobody.\<close>

definition demo_mw :: mw_env where
  "demo_mw = \<lparr>me_siteID = ''s1'', me_store = demo_cass_store None, me_cass = (\<lambda>_. demo_cass_call 6000 ''n'' CassOk), me_stamp = (\<lambda>_. (CasOk, CasOk)),
     me_readErr = (\<lambda>_. None), me_mongo = (\<lambda>_. \<lparr>mg_gate1 = None, mg_gate2 = None, mg_fate = MgOk, mg_fate2 = MgOk, mg_read = None\<rparr>),
     me_degraded = (\<lambda>_. False), me_uuid = (\<lambda>_. ''t1''), me_now = (\<lambda>_. 0), me_user = (\<lambda>_. Inl ErrUserNotFound), me_users = (\<lambda>_. ([], None)),
     me_publish = (\<lambda>_ _ _ _. None), me_codec = \<lparr>encInboxEvent = (\<lambda>_. None), encOutboxEvent = (\<lambda>_. None), decOutboxEvent = (\<lambda>_. None)\<rparr>, me_encSub = (\<lambda>_. None), me_encUnread = (\<lambda>_ _. None),
     me_encEvent = (\<lambda>_. None), me_attempt = None, me_order = (\<lambda>xs. xs),
     me_decode = (\<lambda>_. Some \<lparr>ev_Event = EventCreated, ev_Message = first_message, ev_SiteID = ''s1'', ev_ReactionDelta = None, ev_Timestamp = 5, ev_NewTCount = None,
       ev_NewThreadLastMsgAt = None, ev_QuotedParentUnverified = False, ev_ThreadParentSenderAccount = '''', ev_PreviewMessage = None\<rparr>)\<rparr>"

definition demo_world :: mw_world where
  "demo_world = \<lparr>w_cass = no_tables, w_db = \<lparr>td_rooms = [], td_subs = (\<lambda>_. None), td_members = []\<rparr>, w_published = [], w_calls = 0\<rparr>"


section \<open>Quotes the gatekeeper could not verify\<close>

text \<open>The worker accepts a stored message only where the gatekeeper would have.\<close>

lemma worker_quote_rule:
  assumes "authoritativeQuoteMatchesConversation msg snap"
  shows "qp_RoomID snap = m_RoomID msg \<and> same_conversation snap (qp_MessageID snap) (m_ThreadParentMessageID msg) (m_RoomID msg)"
  using assms by (auto simp: authoritativeQuoteMatchesConversation_def same_conversation_def split: if_splits)

lemma snapshot_id: "GetQuotedParentSnapshot s err i t = Inr (Some snap) \<Longrightarrow> qp_MessageID snap = i"
  by (auto simp: GetQuotedParentSnapshot_def Let_def split: option.splits if_splits sum.splits)

text \<open>C11: A quote the gatekeeper let through unverified never reaches the tables as the sender wrote it. After the worker's own look-up the event is
  no longer marked; it has no quote, or the quote is the stored message with the quoted id, in the room of the message
  and in a conversation the gatekeeper's own rule accepts, with only the link taken over.\<close>

theorem unverified_quote_replaced:
  assumes "reprojectUnverifiedQuote h evt w = (Inr evt', w')" and "m_QuotedParentMessage (ev_Message evt) = Some q" and "ev_QuotedParentUnverified evt"
  shows "\<not> ev_QuotedParentUnverified evt'
    \<and> (\<forall>q'. m_QuotedParentMessage (ev_Message evt') = Some q' \<longrightarrow>
        (\<exists>snap. GetQuotedParentSnapshot (me_store h) None (qp_MessageID q) (w_cass w) = Inr (Some snap) \<and> q' = snap\<lparr>qp_MessageLink := qp_MessageLink q\<rparr>
           \<and> qp_RoomID snap = m_RoomID (ev_Message evt)
           \<and> same_conversation snap (qp_MessageID q) (m_ThreadParentMessageID (ev_Message evt)) (m_RoomID (ev_Message evt))))"
proof -
  let ?w = "w\<lparr>w_calls := Suc (w_calls w)\<rparr>"
  let ?get = "GetQuotedParentSnapshot (me_store h) (me_readErr h (w_calls w)) (qp_MessageID q) (w_cass w)"
  have noerr: "?get = Inr x \<Longrightarrow> GetQuotedParentSnapshot (me_store h) None (qp_MessageID q) (w_cass w) = Inr x" for x
    by (auto simp: GetQuotedParentSnapshot_def split: option.splits)
  have run: "reprojectUnverifiedQuote h evt w = bnd (wrapping (''get authoritative quoted parent '' @ qp_MessageID q) (historyStore (\<lambda>w. (?get, w)))) (\<lambda>found.
            let evt1 = evt\<lparr>ev_QuotedParentUnverified := False\<rparr> in
            case found of
              None \<Rightarrow>
                bnd (is_degraded h) (\<lambda>degraded.
                if degraded then throw (MGo (Raw (''quoted parent '' @ qp_MessageID q @ '' not yet persisted during degraded window'')))
                else ret (set_quote None evt1))
            | Some snap \<Rightarrow>
                if \<not> authoritativeQuoteMatchesConversation (ev_Message evt1) snap then ret (set_quote None evt1)
                else ret (set_quote (Some (snap\<lparr>qp_MessageLink := qp_MessageLink q\<rparr>)) evt1)) ?w"
    using assms(2, 3) by (simp add: reprojectUnverifiedQuote_def h_GetQuotedParentSnapshot_def bnd_def next_call_def wrapping_def historyStore_def map_err_def)
  show ?thesis
  proof (cases ?get)
    case (Inl e)
    then show ?thesis using assms(1) unfolding run by (simp add: bnd_def wrapping_def historyStore_def map_err_def)
  next
    case (Inr found)
    show ?thesis
    proof (cases found)
      case None
      then show ?thesis using assms(1) Inr unfolding run
        by (auto simp: bnd_def wrapping_def historyStore_def map_err_def is_degraded_def next_call_def ret_def throw_def set_quote_def split: if_splits)
    next
      case (Some snap)
      then have "evt' = set_quote (if authoritativeQuoteMatchesConversation (ev_Message evt) snap then Some (snap\<lparr>qp_MessageLink := qp_MessageLink q\<rparr>) else None)
          (evt\<lparr>ev_QuotedParentUnverified := False\<rparr>)"
        using assms(1) Inr unfolding run by (auto simp: bnd_def wrapping_def historyStore_def map_err_def ret_def)
      then show ?thesis using Inr Some noerr worker_quote_rule [of "ev_Message evt" snap] snapshot_id [of "me_store h"]
        by (auto simp: set_quote_def split: if_splits)
    qed
  qed
qed

text \<open>A message that quotes the stored one under a forged text.\<close>

definition forged_quote :: QuotedParentMessage where
  "forged_quote = \<lparr>qp_MessageID = ''m1'', qp_RoomID = ''r1'', qp_Sender = no_participant, qp_CreatedAt = 0, qp_Msg = ''forged'', qp_Mentions = [], qp_Attachments = [],
     qp_DecodedAttachments = [], qp_MessageLink = ''link'', qp_ThreadParentID = '''', qp_ThreadParentCreatedAt = None, qp_TShow = False\<rparr>"

definition quoting_event :: MessageEvent where
  "quoting_event = \<lparr>ev_Event = EventCreated, ev_Message = first_message\<lparr>m_ID := ''m2'', m_QuotedParentMessage := Some forged_quote\<rparr>, ev_SiteID = ''s1'', ev_ReactionDelta = None,
     ev_Timestamp = 5, ev_NewTCount = None, ev_NewThreadLastMsgAt = None, ev_QuotedParentUnverified = True, ev_ThreadParentSenderAccount = '''', ev_PreviewMessage = None\<rparr>"

definition world_with_hello :: mw_world where
  "world_with_hello = demo_world\<lparr>w_cass := snd (SaveMessage (demo_cass_store None) (demo_cass_call 6000 ''n'' CassOk) first_message None ''s1'' no_tables)\<rparr>"

theorem unverified_quote_replaced_witness:
  "\<exists>evt' w' q'. reprojectUnverifiedQuote demo_mw quoting_event world_with_hello = (Inr evt', w') \<and> \<not> ev_QuotedParentUnverified evt'
     \<and> m_QuotedParentMessage (ev_Message evt') = Some q' \<and> qp_Msg q' = ''helo'' \<and> qp_RoomID q' = ''r1'' \<and> qp_MessageLink q' = ''link''"
proof -
  have row: "row_exists (ct_by_id (w_cass world_with_hello) ''m1'')" "cell (ct_by_id (w_cass world_with_hello) ''m1'') ''msg'' = VStr ''helo''"
    "cell (ct_by_id (w_cass world_with_hello) ''m1'') ''room_id'' = VStr ''r1''" "cell (ct_by_id (w_cass world_with_hello) ''m1'') ''thread_parent_id'' = VNull"
    by (simp_all add: world_with_hello_def demo_world_def SaveMessage_def demo_cass_store_def demo_cass_call_def executeBatch_def stmt_defs col_defs Let_def first_message_def
      empty_Message_def exec_stmt_def write_row_def write_cell_def merge_cell_def no_tables_def no_row_def row_exists_def cell_def)
  then obtain snap where snap: "GetQuotedParentSnapshot (demo_cass_store None) None ''m1'' (w_cass world_with_hello) = Inr (Some snap)" "qp_Msg snap = ''helo''"
      "qp_RoomID snap = ''r1''" "qp_ThreadParentID snap = ''''"
    by (simp add: GetQuotedParentSnapshot_def Let_def demo_cass_store_def str_cell_def)
  have ev: "m_QuotedParentMessage (ev_Message quoting_event) = Some forged_quote" "ev_QuotedParentUnverified quoting_event"
    "qp_MessageID forged_quote = ''m1''" "m_RoomID (ev_Message quoting_event) = ''r1''" "m_ThreadParentMessageID (ev_Message quoting_event) = ''''"
    "qp_MessageLink forged_quote = ''link''" "me_store demo_mw = demo_cass_store None" "me_readErr demo_mw = (\<lambda>_. None)"
    by (simp_all add: quoting_event_def forged_quote_def first_message_def empty_Message_def demo_mw_def)
  have "\<exists>evt' w' q'. reprojectUnverifiedQuote demo_mw quoting_event world_with_hello = (Inr evt', w') \<and> m_QuotedParentMessage (ev_Message evt') = Some q'"
    using ev snap by (simp add: reprojectUnverifiedQuote_def h_GetQuotedParentSnapshot_def bnd_def next_call_def wrapping_def historyStore_def map_err_def
      authoritativeQuoteMatchesConversation_def ret_def set_quote_def)
  then obtain evt' w' q' where run: "reprojectUnverifiedQuote demo_mw quoting_event world_with_hello = (Inr evt', w')" "m_QuotedParentMessage (ev_Message evt') = Some q'"
    by blast
  from unverified_quote_replaced [OF run(1) ev(1, 2)] run snap ev show ?thesis by fastforce
qed

text \<open>The gatekeeper lets a message of the channel quote a reply that was also sent to the channel; the worker drops such a quote.\<close>

theorem worker_drops_channel_reply_quote:
  assumes "qp_TShow snap" and "qp_RoomID snap = m_RoomID msg" and "qp_ThreadParentID snap \<noteq> ''''" and "m_ThreadParentMessageID msg = ''''"
  shows "checkQuoteThreadContext g snap (qp_MessageID snap) (m_ThreadParentMessageID msg) (m_RoomID msg) = None \<and> \<not> authoritativeQuoteMatchesConversation msg snap"
  using assms by (simp add: checkQuoteThreadContext_def authoritativeQuoteMatchesConversation_def)

section \<open>A reply to a message that is not message_stored\<close>

text \<open>A count that succeeds has written both rows of the parent.\<close>

lemma writeToBothRows_counts:
  "writeToBothRows fate p k at_time b t = (None, t') \<Longrightarrow> \<exists>c. tb_by_id t' (pa_MessageID p) = Some c \<and> pc_replies c \<noteq> None"
  by (auto simp: writeToBothRows_def write_by_id_def write_by_room_def put_counts_def Let_def split: batch_fate.splits)

lemma saveCounts_counts: "saveCounts n p k at_time b t = (Inr res, t') \<Longrightarrow> \<exists>c. tb_by_id t' (pa_MessageID p) = Some c \<and> pc_replies c \<noteq> None"
  by (auto simp: saveCounts_def split: prod.splits option.splits dest: writeToBothRows_counts)

lemma Reconcile_counts: "Reconcile n p pol t = (Inr res, t') \<Longrightarrow> \<exists>c. tb_by_id t' (pa_MessageID p) = Some c \<and> pc_replies c \<noteq> None"
  by (auto simp: Reconcile_def Let_def split: prod.splits option.splits sum.splits if_splits dest: writeToBothRows_counts)

lemma Maintain_counts:
  assumes "Maintain n p pol change at_time retry t = (Inr res, t')"
  shows "\<exists>c. tb_by_id t' (pa_MessageID p) = Some c \<and> pc_replies c \<noteq> None"
  using assms
  by (auto simp: Maintain_def countFromReplies_def changeWithoutCounting_def Let_def
      split: sum.splits if_splits prod.splits dest!: saveCounts_counts Reconcile_counts)

lemma other_row_kept:
  assumes "executeBatch tie clock fate ss t = (err, t')" and "\<And>s. s \<in> set ss \<Longrightarrow> st_target s \<noteq> k"
  shows "row_at t' k = row_at t k"
  by (rule executeBatch_keeps [where P = "\<lambda>r. r = row_at t k", OF assms(1)]) (use assms(2) in auto)

text \<open>The reply count makes a row for a parent that has none: the row has a count and nothing else, so the parent is then found, with a sender without
  an account and the zero time.\<close>

theorem reply_makes_phantom_parent:
  assumes "SaveThreadMessage s n msg sender siteID th t = (Inr (Some c), t')" and "\<not> row_exists (ct_by_id t (m_ThreadParentMessageID msg))"
    and "m_ID msg \<noteq> m_ThreadParentMessageID msg"
  shows "GetMessageSender None (m_ThreadParentMessageID msg) t' = Inr no_participant
    \<and> GetMessageCreatedAt None (m_ThreadParentMessageID msg) t' = Inr (Some go_zero_time)"
proof -
  let ?p = "m_ThreadParentMessageID msg"
  obtain ss t1 where b: "executeBatch (cs_tie s) (cc_clock n) (cc_fate n) ss t = (None, t1)" "countAndSetParentTcount s n msg th t1 = (Inr (Some c), t')"
      "\<And>st. st \<in> set ss \<Longrightarrow> st_target st \<noteq> ById ?p"
  proof (cases "cs_cipher s")
    case None
    then show ?thesis using assms(1, 3) that [of "plain_reply_stmts s msg sender siteID th"]
      by (fastforce simp: SaveThreadMessage_def after_batch_def stmt_defs Let_def split: prod.splits option.splits if_splits)
  next
    case (Some cipher)
    then obtain pl cm where e: "encrypt_message s cipher (cc_nonce n) msg = Inr (pl, cm)"
      "after_batch s n msg th (enc_reply_stmts s msg cm sender siteID th pl (cc_nonce n)) t = (Inr (Some c), t')"
      using assms(1) by (auto simp: SaveThreadMessage_def saveThreadMessageEncrypted_def split: sum.splits)
    then show ?thesis using assms(3) that [of "enc_reply_stmts s msg cm sender siteID th pl (cc_nonce n)"]
      by (fastforce simp: after_batch_def stmt_defs Let_def split: prod.splits option.splits if_splits)
  qed
  have r: "ct_by_id t1 ?p = ct_by_id t ?p" using other_row_kept [OF b(1) b(3)] by simp
  obtain pt p v res where m: "m_ThreadParentMessageCreatedAt msg = Some pt" "p = NewParent ?p (m_RoomID msg) th pt (cs_bucket s)"
    "Maintain (alone (cc_tc n)) p (cs_threadPolicy s) 1 (Some (m_CreatedAt msg)) (cc_redelivery n) (tc_view t1) = (Inr res, v)"
    "t' = put_counts_back (cc_clock n) p v t1"
    using b(2) by (auto simp: countAndSetParentTcount_def Let_def split: option.splits prod.splits sum.splits)
  have pid: "pa_MessageID p = ?p" by (simp add: m(2) NewParent_def)
  obtain cs k where cs: "tb_by_id v ?p = Some cs" "pc_replies cs = Some k" using Maintain_counts [OF m(3)] pid by auto
  have null: "cell (ct_by_id t ?p) x = VNull" if "x \<in> set message_columns" for x using assms(2) that by (auto simp: row_exists_def)
  have row: "ct_by_id t' ?p = (ct_by_id t ?p)\<lparr>row_cells := (row_cells (ct_by_id t ?p))(''tcount'' := Some (opt_cell VInt (pc_replies cs), cc_clock n),
      ''thread_last_msg_at'' := Some (opt_cell VTime (pc_lastReplyAt cs), cc_clock n))\<rparr>"
    using cs r assms(2) by (simp add: m(4) put_counts_back_def pid put_row_counts_def counts_of_def)
  have "row_exists (ct_by_id t' ?p)" using cs(2) by (simp add: row row_exists_def message_columns_def cell_def opt_cell_def)
  moreover have "cell (ct_by_id t' ?p) ''sender'' = VNull" "cell (ct_by_id t' ?p) ''created_at'' = VNull"
    using null [of "''sender''"] null [of "''created_at''"] by (simp_all add: row cell_def message_columns_def)
  ultimately show ?thesis by (simp add: GetMessageSender_def GetMessageCreatedAt_def part_cell_def time_cell_def int_cell_def)
qed

end
