(* ===== verification/Msg_Threads.thy ===== *)
theory Msg_Threads
  imports Msg_Props
begin

text \<open>
  The thread side of message-worker's handler: who is subscribed after a reply, and whom a mention reaches. The operations of the
  thread store keep what is there when no other writer interferes; the handler's computations inherit it.
\<close>

section \<open>Calls without interference\<close>

text \<open>Every call runs alone: it takes effect or fails, before or after its effect.\<close>

definition undisturbed :: "mw_env \<Rightarrow> bool" where
  "undisturbed h \<longleftrightarrow> (\<forall>i. case (mg_fate (me_mongo h i), mg_fate2 (me_mongo h i)) of (MgDup _ _, _) \<Rightarrow> False | (_, MgDup _ _) \<Rightarrow> False | _ \<Rightarrow> True)"

lemma undisturbed_fates: "undisturbed h \<Longrightarrow> mg_fate (me_mongo h i) \<noteq> MgDup e f" "undisturbed h \<Longrightarrow> mg_fate2 (me_mongo h i) \<noteq> MgDup e f"
  by (auto simp: undisturbed_def split: mongo_fate.splits prod.splits) (metis mongo_fate.exhaust)+

text \<open>A write without interference keeps what its effect keeps.\<close>

lemma write_call_keeps:
  "(\<And>d. I d \<Longrightarrow> I (f d)) \<Longrightarrow> I d \<Longrightarrow> (\<And>e g. fate \<noteq> MgDup e g) \<Longrightarrow> write_call fate what f d = (r, d') \<Longrightarrow> I d'"
  by (auto simp: write_call_def split: mongo_fate.splits if_splits)

definition db_keeps :: "(thread_db \<Rightarrow> bool) \<Rightarrow> mw_env \<Rightarrow> (mg_call \<Rightarrow> thread_db \<Rightarrow> mw_err option \<times> thread_db) \<Rightarrow> bool" where
  "db_keeps I h f \<longleftrightarrow> (\<forall>i d r d'. I d \<longrightarrow> f (me_mongo h i) d = (r, d') \<longrightarrow> I d')"

lemma keeps_h_db: "db_keeps I h f \<Longrightarrow> keeps (\<lambda>w. I (w_db w)) (h_db h f)"
  unfolding h_db_def by (intro keep_rules keepsI) (auto simp: on_db_def db_keeps_def split: prod.splits)

text \<open>A subscription that is there stays.\<close>

definition subscribed :: "string \<Rightarrow> string \<Rightarrow> thread_db \<Rightarrow> bool" where
  "subscribed th account d \<longleftrightarrow> td_subs d (th, account) \<noteq> None"

lemma effects_keep_subscribed [simp]:
  "subscribed th a (update_room i f d) = subscribed th a d"
  "subscribed th a d \<Longrightarrow> subscribed th a (put_sub sub d)"
  "subscribed th a d \<Longrightarrow> subscribed th a (put_sub_if_absent sub d)"
  "subscribed th a (advance_sub k t d) = subscribed th a d"
  "subscribed th a (mark_mention sub d) = subscribed th a d"
  "subscribed th a (add_unread room p as d) = subscribed th a d"
  by (auto simp: subscribed_def update_room_def put_sub_def put_sub_if_absent_def advance_sub_def mark_mention_def add_unread_def)

lemma effects_make_subscribed [simp]:
  "subscribed (ts_ThreadRoomID sub) (ts_UserAccount sub) (put_sub sub d)"
  "subscribed (ts_ThreadRoomID sub) (ts_UserAccount sub) (put_sub_if_absent sub d)"
  "subscribed (ts_ThreadRoomID sub) (ts_UserAccount sub) (upsert_advancing sub t d)"
  by (auto simp: subscribed_def put_sub_def put_sub_if_absent_def tsub_key_def upsert_advancing_def advance_sub_def)

lemma store_ops_keep_subscribed:
  assumes "undisturbed h"
  shows "db_keeps (subscribed th a) h (\<lambda>c. MarkParentStamped c x)" "db_keeps (subscribed th a) h (\<lambda>c. MarkParentSubscribed c x)"
    "db_keeps (subscribed th a) h (\<lambda>c. UpdateThreadRoomLastMessage c x m as t)" "db_keeps (subscribed th a) h (\<lambda>c. AddReplyAccounts c x as)"
    "db_keeps (subscribed th a) h (\<lambda>c. InsertThreadSubscription c sub)" "db_keeps (subscribed th a) h (\<lambda>c. mw_UpsertThreadSubscription c sub)"
    "db_keeps (subscribed th a) h (\<lambda>c. UpsertThreadSubscriptionAdvancingLastSeen c sub t)"
  using undisturbed_fates [OF assms]
  by (auto simp: db_keeps_def MarkParentStamped_def MarkParentSubscribed_def UpdateThreadRoomLastMessage_def AddReplyAccounts_def InsertThreadSubscription_def
      mw_UpsertThreadSubscription_def UpsertThreadSubscriptionAdvancingLastSeen_def gated_def write_call_def upsert_advancing_def
      split: option.splits if_splits mongo_fate.splits)

lemma ensure_keeps_subscribed:
  assumes "undisturbed h" "subscribed th a d" "EnsureThreadRoom (me_mongo h i) room d = (r, d')" shows "subscribed th a d'"
  using assms(2, 3) undisturbed_fates [OF assms(1)]
  by (auto simp: EnsureThreadRoom_def Let_def insert_room_def subscribed_def split: option.splits mongo_fate.splits if_splits)

text \<open>An account among the followers of a thread room stays, and the room stays.\<close>

definition has_thread_room :: "string \<Rightarrow> thread_db \<Rightarrow> bool" where
  "has_thread_room th d \<longleftrightarrow> (\<exists>r \<in> set (td_rooms d). trm_ID r = th)"

definition follows :: "string \<Rightarrow> string \<Rightarrow> thread_db \<Rightarrow> bool" where
  "follows th account d \<longleftrightarrow> (\<exists>r \<in> set (td_rooms d). trm_ID r = th \<and> account \<in> set (trm_ReplyAccounts r))"

lemma set_addToSet [simp]: "set (addToSet new old) = set new \<union> set old"
  by (induction new arbitrary: old) (auto simp: addToSet_def)

lemma follows_has_room: "follows th a d \<Longrightarrow> has_thread_room th d"
  by (auto simp: follows_def has_thread_room_def)

lemma effects_keep_follows [simp]:
  "follows th a (put_sub sub d) = follows th a d"
  "follows th a (put_sub_if_absent sub d) = follows th a d"
  "follows th a (advance_sub k t d) = follows th a d"
  "follows th a (upsert_advancing sub t d) = follows th a d"
  by (auto simp: follows_def put_sub_def put_sub_if_absent_def advance_sub_def upsert_advancing_def)

lemma update_room_follows:
  assumes "follows th a d" "\<And>r. set (trm_ReplyAccounts r) \<subseteq> set (trm_ReplyAccounts (f r))" "\<And>r. trm_ID (f r) = trm_ID r"
  shows "follows th a (update_room i f d)"
proof -
  obtain r where r: "r \<in> set (td_rooms d)" "trm_ID r = th" "a \<in> set (trm_ReplyAccounts r)" using assms(1) by (auto simp: follows_def)
  have "(if trm_ID r = i then f r else r) \<in> set (td_rooms (update_room i f d))" using r(1) by (simp add: update_room_def)
  moreover have "trm_ID (if trm_ID r = i then f r else r) = th" "a \<in> set (trm_ReplyAccounts (if trm_ID r = i then f r else r))"
    using r(2, 3) assms(2) [of r] assms(3) [of r] by auto
  ultimately show ?thesis unfolding follows_def by blast
qed

lemma update_room_adds:
  assumes "has_thread_room th d" "\<And>r. a \<in> set (trm_ReplyAccounts (f r))" "\<And>r. trm_ID (f r) = trm_ID r"
  shows "follows th a (update_room th f d)"
proof -
  obtain r where r: "r \<in> set (td_rooms d)" "trm_ID r = th" using assms(1) by (auto simp: has_thread_room_def)
  then have "f r \<in> set (td_rooms (update_room th f d))" by (force simp: update_room_def)
  then show ?thesis using r(2) assms(2, 3) unfolding follows_def by metis
qed

lemma store_ops_keep_follows:
  assumes "undisturbed h"
  shows "db_keeps (follows th a) h (\<lambda>c. MarkParentStamped c x)" "db_keeps (follows th a) h (\<lambda>c. MarkParentSubscribed c x)"
    "db_keeps (follows th a) h (\<lambda>c. UpdateThreadRoomLastMessage c x m as t)" "db_keeps (follows th a) h (\<lambda>c. AddReplyAccounts c x as)"
    "db_keeps (follows th a) h (\<lambda>c. InsertThreadSubscription c sub)" "db_keeps (follows th a) h (\<lambda>c. mw_UpsertThreadSubscription c sub)"
    "db_keeps (follows th a) h (\<lambda>c. UpsertThreadSubscriptionAdvancingLastSeen c sub t)"
  using undisturbed_fates [OF assms]
  by (auto simp: db_keeps_def MarkParentStamped_def MarkParentSubscribed_def UpdateThreadRoomLastMessage_def AddReplyAccounts_def InsertThreadSubscription_def
      mw_UpsertThreadSubscription_def UpsertThreadSubscriptionAdvancingLastSeen_def gated_def write_call_def
      intro!: update_room_follows split: option.splits if_splits mongo_fate.splits)

section \<open>Computations keep what the store keeps\<close>

text \<open>A property of the thread store that every operation keeps.\<close>

definition stable :: "mw_env \<Rightarrow> (thread_db \<Rightarrow> bool) \<Rightarrow> bool" where
  "stable h I \<longleftrightarrow> (\<forall>x as m t sub. db_keeps I h (\<lambda>c. MarkParentStamped c x) \<and> db_keeps I h (\<lambda>c. MarkParentSubscribed c x)
     \<and> db_keeps I h (\<lambda>c. UpdateThreadRoomLastMessage c x m as t) \<and> db_keeps I h (\<lambda>c. AddReplyAccounts c x as)
     \<and> db_keeps I h (\<lambda>c. InsertThreadSubscription c sub) \<and> db_keeps I h (\<lambda>c. mw_UpsertThreadSubscription c sub)
     \<and> db_keeps I h (\<lambda>c. UpsertThreadSubscriptionAdvancingLastSeen c sub t))"

lemma stable_subscribed: "undisturbed h \<Longrightarrow> stable h (subscribed th a)"
  by (simp add: stable_def store_ops_keep_subscribed)

lemma stable_follows: "undisturbed h \<Longrightarrow> stable h (follows th a)"
  by (simp add: stable_def store_ops_keep_follows)

lemma keeps_stable [keep_rules]:
  assumes "stable h I"
  shows "keeps (\<lambda>w. I (w_db w)) (h_db h (\<lambda>c. MarkParentStamped c x))" "keeps (\<lambda>w. I (w_db w)) (h_db h (\<lambda>c. MarkParentSubscribed c x))"
    "keeps (\<lambda>w. I (w_db w)) (h_db h (\<lambda>c. UpdateThreadRoomLastMessage c x m as t))" "keeps (\<lambda>w. I (w_db w)) (h_db h (\<lambda>c. AddReplyAccounts c x as))"
    "keeps (\<lambda>w. I (w_db w)) (h_db h (\<lambda>c. InsertThreadSubscription c sub))" "keeps (\<lambda>w. I (w_db w)) (h_db h (\<lambda>c. mw_UpsertThreadSubscription c sub))"
    "keeps (\<lambda>w. I (w_db w)) (h_db h (\<lambda>c. UpsertThreadSubscriptionAdvancingLastSeen c sub t))"
  using assms by (auto simp: stable_def intro!: keeps_h_db)

lemma keeps_db_outbox [keep_rules]: "keeps (\<lambda>w. I (w_db w)) (h_outbox h room dest ty payload dedup)"
  unfolding h_outbox_def by (intro keep_rules keepsI) (auto split: prod.splits)

lemma keeps_db_publish_sub [keep_rules]: "keeps (\<lambda>w. I (w_db w)) (publishThreadSubInboxIfRemote h sub owner m)"
  unfolding publishThreadSubInboxIfRemote_def by (intro keep_rules)

lemma keeps_db_lookup [keep_rules]: "keeps (\<lambda>w. I (w_db w)) (lookupOwnerSiteID h account)"
  unfolding lookupOwnerSiteID_def by (intro keep_rules)

lemma keeps_db_build [keep_rules]: "keeps (\<lambda>w. I (w_db w)) (h_buildSub h msg th u a site now)"
  unfolding h_buildSub_def by (intro keep_rules) simp

lemma keeps_db_stamp [keep_rules]: "stable h I \<Longrightarrow> keeps (\<lambda>w. I (w_db w)) (stamp_parent h msg pt th)"
  unfolding stamp_parent_def h_UpdateParentMessageThreadRoomID_def by (intro keep_rules) (auto intro!: keepsI split: prod.splits)

lemma keeps_db_parent_sender [keep_rules]: "keeps (\<lambda>w. I (w_db w)) (parent_sender h i)"
proof -
  have "keeps (\<lambda>w. I (w_db w)) (h_GetMessageSender h i)"
    unfolding h_GetMessageSender_def by (intro keep_rules) (auto intro!: keepsI)
  then show ?thesis unfolding parent_sender_def
    by (intro keepsI) (auto split: prod.splits sum.splits if_splits dest: keepsD)
qed

section \<open>Who is subscribed after a reply\<close>

lemma triple_est:
  assumes "triple P m (\<lambda>_. I) (\<lambda>_ _. True)" "\<And>x. keeps I (f x)"
  shows "triple P (bnd m f) (\<lambda>_. I) (\<lambda>_ _. True)"
  by (rule triple_bnd [OF assms(1)], rule triple_conseq [OF assms(2) [unfolded keeps_def]]) (assumption | rule TrueI)+

lemma keeps_triple: "keeps I m \<Longrightarrow> triple I m (\<lambda>_. I) (\<lambda>_ _. True)"
  unfolding keeps_def by (erule triple_conseq) simp_all

text \<open>A subscription that was built is for the account it was built for.\<close>

lemma built_sub [simp]:
  "ts_ThreadRoomID (buildThreadSubscription i msg th u a site now) = th" "ts_UserAccount (buildThreadSubscription i msg th u a site now) = a"
  by (simp_all add: buildThreadSubscription_def)

lemma build_triple:
  "triple P (h_buildSub h msg th u a site now) (\<lambda>sub _. ts_ThreadRoomID sub = th \<and> ts_UserAccount sub = a) (\<lambda>_ _. True)"
  unfolding h_buildSub_def by (rule triple_drop, rule triple_ret) simp

text \<open>The operations that subscribe.\<close>

definition subscribes :: "mw_env \<Rightarrow> (mg_call \<Rightarrow> ThreadSubscription \<Rightarrow> thread_db \<Rightarrow> mw_err option \<times> thread_db) \<Rightarrow> bool" where
  "subscribes h f \<longleftrightarrow> (\<forall>i sub d d'. f (me_mongo h i) sub d = (None, d') \<longrightarrow> subscribed (ts_ThreadRoomID sub) (ts_UserAccount sub) d')"

lemma ops_subscribe:
  assumes "undisturbed h"
  shows "subscribes h InsertThreadSubscription" "subscribes h mw_UpsertThreadSubscription" "subscribes h (\<lambda>c sub. UpsertThreadSubscriptionAdvancingLastSeen c sub t)"
  using undisturbed_fates [OF assms]
  by (auto simp: subscribes_def InsertThreadSubscription_def mw_UpsertThreadSubscription_def UpsertThreadSubscriptionAdvancingLastSeen_def gated_def write_call_def
      split: option.splits if_splits mongo_fate.splits)

lemma subscribes_triple:
  assumes "subscribes h f" "ts_ThreadRoomID sub = th" "ts_UserAccount sub = a"
  shows "triple P (wrapping s (h_db h (\<lambda>c. f c sub))) (\<lambda>_ w. subscribed th a (w_db w)) (\<lambda>_ _. True)"
  unfolding h_db_def
  by (rule triple_wrapping_any, rule triple_drop, rule tripleI)
    (use assms in \<open>auto simp: on_db_def subscribes_def split: prod.splits option.splits\<close>)

text \<open>Building a subscription, writing it and telling the account's own site.\<close>

lemma build_and_subscribe:
  assumes "subscribes h f" "\<And>sub. keeps (\<lambda>w. subscribed th a (w_db w)) (g sub)"
  shows "triple P (bnd (h_buildSub h msg th u a site now) (\<lambda>sub. bnd (wrapping s (h_db h (\<lambda>c. f c sub))) (\<lambda>_. g sub))) (\<lambda>_ w. subscribed th a (w_db w)) (\<lambda>_ _. True)"
  by (rule triple_after [OF build_triple], rule triple_est [OF subscribes_triple [OF assms(1)]]) (use assms(2) in auto)

lemma subscribe_parent_triple:
  assumes "undisturbed h" "subscribes h f"
  shows "triple P (subscribe_parent h f what msg site th p now) (\<lambda>_ w. subscribed th (cp_Account p) (w_db w)) (\<lambda>_ _. True)"
  unfolding subscribe_parent_def
  by (rule triple_drop, rule build_and_subscribe [OF assms(2)]) (intro keep_rules stable_subscribed assms(1))

text \<open>A read reports a missing message only when there is none.\<close>

definition honest_reads :: "mw_env \<Rightarrow> bool" where
  "honest_reads h \<longleftrightarrow> (\<forall>i. case me_readErr h i of None \<Rightarrow> True | Some e \<Rightarrow> \<not> is_errMessageNotFound e)"

lemma parent_sender_found:
  assumes "honest_reads h"
  shows "triple (\<lambda>w. GetMessageSender None i (w_cass w) = Inr p) (parent_sender h i) (\<lambda>found _. found = Some p) (\<lambda>_ _. True)"
proof (rule tripleI)
  fix w found w' assume "GetMessageSender None i (w_cass w) = Inr p" "parent_sender h i w = (Inr found, w')"
  then show "found = Some p" using assms [unfolded honest_reads_def, rule_format, of "w_calls w"]
    by (auto simp: parent_sender_def h_GetMessageSender_def bnd_def next_call_def historyStore_def map_err_def GetMessageSender_def Let_def
        split: option.splits if_splits)
qed simp

lemma keeps_db_reply_sub [keep_rules]: "stable h I \<Longrightarrow> keeps (\<lambda>w. I (w_db w)) (writeReplierThreadSub h msg site th rep now)"
  unfolding writeReplierThreadSub_def by (intro keep_rules)

lemma keeps_db_subscribe_parent [keep_rules]:
  "stable h I \<Longrightarrow> keeps (\<lambda>w. I (w_db w)) (subscribe_parent h InsertThreadSubscription what msg site th p now)"
  "stable h I \<Longrightarrow> keeps (\<lambda>w. I (w_db w)) (healParentThreadSub h msg site th p now)"
  unfolding healParentThreadSub_def subscribe_parent_def by (intro keep_rules; assumption?)+

text \<open>The first reply subscribes the author of the parent and the replier, and makes the author a follower.\<close>

lemma first_reply_author:
  assumes "undisturbed h" "honest_reads h"
  shows "triple (\<lambda>w. GetMessageSender None (m_ThreadParentMessageID msg) (w_cass w) = Inr p)
     (handleFirstThreadReply h msg site th rep now False) (\<lambda>_ w. subscribed th (cp_Account p) (w_db w)) (\<lambda>_ _. True)"
  unfolding handleFirstThreadReply_def
proof (rule triple_after [OF parent_sender_found [OF assms(2)]], goal_cases)
  case (1 found w)
  show ?case unfolding 1 option.case simp_thms if_True
    by (rule triple_drop, rule triple_est, rule triple_est [OF subscribe_parent_triple [OF assms(1) ops_subscribe(1) [OF assms(1)]]])
      (intro keep_rules stable_subscribed assms(1))+
qed

lemma first_reply_replier:
  assumes "undisturbed h" "honest_reads h" "m_UserID msg \<noteq> cp_ID p"
  shows "triple (\<lambda>w. GetMessageSender None (m_ThreadParentMessageID msg) (w_cass w) = Inr p)
     (handleFirstThreadReply h msg site th (Some rep) now False) (\<lambda>_ w. subscribed th (m_UserAccount msg) (w_db w)) (\<lambda>_ _. True)"
  unfolding handleFirstThreadReply_def
proof (rule triple_after [OF parent_sender_found [OF assms(2)]], goal_cases)
  case (1 found w)
  have cond: "(m_UserID msg \<noteq> cp_ID p) = True" using assms(3) by simp
  show ?case unfolding 1 option.case simp_thms if_True cond
    by (rule triple_drop, rule triple_est, rule triple_drop, rule build_and_subscribe [OF ops_subscribe(1) [OF assms(1)]])
      (intro keep_rules stable_subscribed assms(1))+
qed

text \<open>Later replies subscribe the author unless the thread room says it was done, and the replier; both become followers.\<close>

lemma later_reply_author:
  assumes "undisturbed h" "honest_reads h" "\<not> trm_ParentSubscribed room"
  shows "triple (\<lambda>w. GetMessageSender None (m_ThreadParentMessageID msg) (w_cass w) = Inr p)
     (handleSubsequentThreadReply h msg site room rep now False) (\<lambda>_ w. subscribed (trm_ID room) (cp_Account p) (w_db w)) (\<lambda>_ _. True)"
  unfolding handleSubsequentThreadReply_def Let_def
proof (rule triple_after [OF parent_sender_found [OF assms(2)]], goal_cases)
  case (1 found w)
  have cond: "(\<not> False \<and> \<not> trm_ParentSubscribed room) = True" using assms(3) by simp
  show ?case unfolding 1 option.case cond if_True healParentThreadSub_def
    by (rule triple_est [OF subscribe_parent_triple [OF assms(1) ops_subscribe(2) [OF assms(1)]]])
      (intro keep_rules stable_subscribed assms(1))
qed

lemma later_reply_replier:
  assumes "undisturbed h" "honest_reads h" "m_UserID msg \<noteq> cp_ID p"
  shows "triple (\<lambda>w. GetMessageSender None (m_ThreadParentMessageID msg) (w_cass w) = Inr p)
     (handleSubsequentThreadReply h msg site room (Some rep) now False) (\<lambda>_ w. subscribed (trm_ID room) (m_UserAccount msg) (w_db w)) (\<lambda>_ _. True)"
  unfolding handleSubsequentThreadReply_def Let_def
proof (rule triple_after [OF parent_sender_found [OF assms(2)]], goal_cases)
  case (1 found w)
  have cond: "(\<not> False \<and> m_UserID msg \<noteq> cp_ID p) = True" using assms(3) by simp
  show ?case unfolding 1 option.case cond if_True writeReplierThreadSub_def
    by (rule triple_drop, rule triple_est, rule triple_est,
        rule build_and_subscribe [where f = "\<lambda>c sub. UpsertThreadSubscriptionAdvancingLastSeen c sub (m_CreatedAt msg)"])
      (intro keep_rules stable_subscribed ops_subscribe assms(1))+
qed

lemma has_room_update: "(\<And>r. trm_ID (f r) = trm_ID r) \<Longrightarrow> has_thread_room th (update_room i f d) = has_thread_room th d"
  by (auto simp: has_thread_room_def update_room_def)

lemma effects_keep_room [simp]:
  "has_thread_room th (put_sub sub d) = has_thread_room th d"
  "has_thread_room th (put_sub_if_absent sub d) = has_thread_room th d"
  "has_thread_room th (upsert_advancing sub t d) = has_thread_room th d"
  "has_thread_room th (advance_sub k t d) = has_thread_room th d"
  by (auto simp: has_thread_room_def put_sub_def put_sub_if_absent_def advance_sub_def upsert_advancing_def)

lemma stable_has_room: "undisturbed h \<Longrightarrow> stable h (has_thread_room th)"
  using undisturbed_fates [of h]
  by (auto simp: stable_def db_keeps_def MarkParentStamped_def MarkParentSubscribed_def UpdateThreadRoomLastMessage_def AddReplyAccounts_def InsertThreadSubscription_def
      mw_UpsertThreadSubscription_def UpsertThreadSubscriptionAdvancingLastSeen_def gated_def write_call_def has_room_update
      split: option.splits if_splits mongo_fate.splits)

lemma update_follows_triple:
  assumes "undisturbed h" "a \<in> set as"
  shows "triple (\<lambda>w. has_thread_room th (w_db w)) (wrapping s (h_db h (\<lambda>c. UpdateThreadRoomLastMessage c th m as t))) (\<lambda>_ w. follows th a (w_db w)) (\<lambda>_ _. True)"
    and "triple (\<lambda>w. has_thread_room th (w_db w)) (wrapping s (h_db h (\<lambda>c. AddReplyAccounts c th as))) (\<lambda>_ w. follows th a (w_db w)) (\<lambda>_ _. True)"
  by (rule triple_wrapping_any, rule tripleI;
      use assms undisturbed_fates [OF assms(1)] in \<open>auto simp: h_db_def bnd_def next_call_def on_db_def UpdateThreadRoomLastMessage_def AddReplyAccounts_def write_call_def
        intro!: update_room_adds split: option.splits mongo_fate.splits prod.splits if_splits\<close>)+

lemma triple_keep_then:
  assumes "keeps I m" "\<And>x. triple I (f x) Q (\<lambda>_ _. True)"
  shows "triple I (bnd m f) Q (\<lambda>_ _. True)"
  by (rule triple_bnd [OF keeps_triple [OF assms(1)] assms(2)])

lemma later_reply_follows:
  assumes "undisturbed h" "honest_reads h" "a = m_UserAccount msg \<or> a = cp_Account p"
  shows "triple (\<lambda>w. GetMessageSender None (m_ThreadParentMessageID msg) (w_cass w) = Inr p \<and> has_thread_room (trm_ID room) (w_db w))
     (handleSubsequentThreadReply h msg site room rep now isMig) (\<lambda>_ w. follows (trm_ID room) a (w_db w)) (\<lambda>_ _. True)"
  unfolding handleSubsequentThreadReply_def Let_def
proof (rule triple_bnd [where R = "\<lambda>found w. found = Some p \<and> has_thread_room (trm_ID room) (w_db w)"], goal_cases)
  case 1
  have k: "keeps (\<lambda>w. has_thread_room (trm_ID room) (w_db w)) (parent_sender h (m_ThreadParentMessageID msg))" by (intro keep_rules)
  show ?case
    by (rule tripleI) (use triple_ok [OF parent_sender_found [OF assms(2)]] keepsD [OF k] in blast)+
next
  case (2 found)
  show ?case
  proof (cases "found = Some p")
    case True
    have a: "a \<in> set (m_UserAccount msg # [cp_Account p])" using assms(3) by auto
    have "triple (\<lambda>w. has_thread_room (trm_ID room) (w_db w)) (bnd (if \<not> isMig \<and> \<not> trm_ParentSubscribed room
             then healParentThreadSub h msg site (trm_ID room) p now else ret ()) (\<lambda>_.
      bnd (case rep of
             Some rep \<Rightarrow>
               if \<not> isMig \<and> m_UserID msg \<noteq> cp_ID p
               then bnd (writeReplierThreadSub h msg site (trm_ID room) rep now) (\<lambda>_. ret True) else ret False
           | None \<Rightarrow> ret False) (\<lambda>adv.
      bnd (wrapping ''update thread room last message'' (h_db h (\<lambda>c. UpdateThreadRoomLastMessage c (trm_ID room) (m_ID msg)
             (m_UserAccount msg # [cp_Account p]) now))) (\<lambda>_. f adv)))) (\<lambda>_ w. follows (trm_ID room) a (w_db w)) (\<lambda>_ _. True)"
      if "\<And>adv. keeps (\<lambda>w. follows (trm_ID room) a (w_db w)) (f adv)" for f
      by (rule triple_keep_then, (intro keep_rules stable_has_room assms(1))[1], rule triple_keep_then, (intro keep_rules stable_has_room assms(1))[1],
          rule triple_est [OF update_follows_triple(1) [OF assms(1) a] that])
    then show ?thesis unfolding True option.case
      by (rule triple_conseq) (auto intro!: keep_rules stable_follows assms(1) split: option.splits)
  next
    case False
    then show ?thesis by (simp add: triple_def)
  qed
qed

lemma first_reply_keeps_follows:
  assumes "undisturbed h"
  shows "keeps (\<lambda>w. follows th a (w_db w)) (handleFirstThreadReply h msg site th rep now isMig)"
  unfolding handleFirstThreadReply_def by (intro keep_rules stable_follows assms)

lemma first_reply_author_follows:
  assumes "undisturbed h" "honest_reads h"
  shows "triple (\<lambda>w. GetMessageSender None (m_ThreadParentMessageID msg) (w_cass w) = Inr p \<and> has_thread_room th (w_db w))
     (handleFirstThreadReply h msg site th rep now isMig) (\<lambda>_ w. follows th (cp_Account p) (w_db w)) (\<lambda>_ _. True)"
  unfolding handleFirstThreadReply_def
proof (rule triple_bnd [where R = "\<lambda>found w. found = Some p \<and> has_thread_room th (w_db w)"], goal_cases)
  case 1
  have k: "keeps (\<lambda>w. has_thread_room th (w_db w)) (parent_sender h (m_ThreadParentMessageID msg))" by (intro keep_rules)
  show ?case
    by (rule tripleI) (use triple_ok [OF parent_sender_found [OF assms(2)]] keepsD [OF k] in blast)+
next
  case (2 found)
  show ?case
  proof (cases "found = Some p")
    case True
    have "triple (\<lambda>w. has_thread_room th (w_db w)) (bnd (wrapping ''add parent author to thread room replyAccounts'' (h_db h (\<lambda>c. AddReplyAccounts c th [cp_Account p]))) f)
        (\<lambda>_ w. follows th (cp_Account p) (w_db w)) (\<lambda>_ _. True)" if "\<And>x. keeps (\<lambda>w. follows th (cp_Account p) (w_db w)) (f x)" for f
      by (rule triple_est [OF update_follows_triple(2) [OF assms(1)] that]) simp
    then show ?thesis unfolding True option.case
      by (rule triple_conseq) (auto intro!: keep_rules stable_follows assms(1) split: option.splits)
  next
    case False
    then show ?thesis by (simp add: triple_def)
  qed
qed

text \<open>What ensuring the thread room gives.\<close>

lemma ensure_result:
  assumes "undisturbed h" "EnsureThreadRoom (me_mongo h i) room d = (Inr (troom, created), d')"
  shows "(created \<and> troom = room \<and> d' = insert_room room d \<and> room_of_parent (trm_ParentMessageID room) d = None)
    \<or> (\<not> created \<and> d' = d \<and> room_of_parent (trm_ParentMessageID room) d = Some troom)"
  using assms(2) undisturbed_fates [OF assms(1)]
  by (auto simp: EnsureThreadRoom_def Let_def split: option.splits mongo_fate.splits)

lemma room_of_parent_in: "room_of_parent i d = Some r \<Longrightarrow> has_thread_room (trm_ID r) d"
  by (auto simp: room_of_parent_def has_thread_room_def find_Some_iff)


text \<open>A message of bob, stored, and a reply of al to it.\<close>

definition bob :: CassParticipant where
  "bob = \<lparr>cp_ID = ''u1'', cp_EngName = ''Bob'', cp_CompanyName = '''', cp_AppID = '''', cp_AppName = '''', cp_IsBot = False, cp_Account = ''bob''\<rparr>"

definition world_with_parent :: mw_world where
  "world_with_parent = demo_world\<lparr>w_cass := snd (SaveMessage (demo_cass_store None) (demo_cass_call 6000 ''n'' CassOk) first_message (Some bob) ''s1'' no_tables)\<rparr>"

definition als_reply :: Message where
  "als_reply = first_message\<lparr>m_ID := ''m2'', m_UserID := ''u2'', m_UserAccount := ''al'', m_CreatedAt := 9, m_ThreadParentMessageID := ''m1''\<rparr>"

definition al :: mention_user where
  "al = \<lparr>mu_ID = ''u2'', mu_Account = ''al'', mu_SiteID = ''s1'', mu_ChineseName = '''', mu_EngName = ''Al''\<rparr>"

lemma demo_mw_calls:
  "me_mongo demo_mw i = \<lparr>mg_gate1 = None, mg_gate2 = None, mg_fate = MgOk, mg_fate2 = MgOk, mg_read = None\<rparr>" "me_readErr demo_mw i = None"
  "me_user demo_mw a = Inl ErrUserNotFound" "me_siteID demo_mw = ''s1''" "me_uuid demo_mw i = ''t1''"
  by (simp_all add: demo_mw_def)

lemma bobs_message: "GetMessageSender None ''m1'' (w_cass world_with_parent) = Inr bob"
  by (simp add: world_with_parent_def demo_world_def SaveMessage_def demo_cass_store_def demo_cass_call_def executeBatch_def stmt_defs col_defs Let_def first_message_def
      empty_Message_def exec_stmt_def write_row_def write_cell_def merge_cell_def no_tables_def no_row_def row_exists_def cell_def GetMessageSender_def
      part_cell_def bind_sender_def)


section \<open>Whom a mention reaches\<close>

lemma bnd_Inr: "m w = (Inr x, w1) \<Longrightarrow> bnd m f w = f x w1"
  by (simp add: bnd_def)

text \<open>An account whose membership of the room shows it the thread: its history window is open, or starts no later than the parent.\<close>

definition may_see_thread :: "Message \<Rightarrow> thread_db \<Rightarrow> string \<Rightarrow> bool" where
  "may_see_thread msg d account \<longleftrightarrow> (\<exists>m \<in> set (td_members d). mb_roomId m = m_RoomID msg \<and> mb_account m = account
     \<and> (\<forall>since. mb_historySharedSince m = Some since \<longrightarrow> (\<exists>t. m_ThreadParentMessageCreatedAt msg = Some t \<and> since \<le> t)))"

lemma mentionVisible_iff: "mentionVisible hss pt \<longleftrightarrow> (\<forall>since. hss = Some since \<longrightarrow> (\<exists>t. pt = Some t \<and> since \<le> t))"
  by (auto simp: mentionVisible_def split: option.splits)

lemma foldl_windows: "foldl (\<lambda>out m. out(mb_account m \<mapsto> mb_historySharedSince m)) f ms a = Some x \<Longrightarrow>
    f a = Some x \<or> (\<exists>m \<in> set ms. mb_account m = a \<and> mb_historySharedSince m = x)"
proof (induction ms arbitrary: f)
  case (Cons m ms)
  from Cons.IH [of "f(mb_account m \<mapsto> mb_historySharedSince m)"] Cons.prems show ?case by (auto split: if_splits)
qed simp

lemma windows_from_members:
  assumes "GetHistorySharedSince c room accounts d = Inr windows" "windows a = Some hss"
  shows "\<exists>m \<in> set (td_members d). mb_roomId m = room \<and> mb_account m = a \<and> mb_historySharedSince m = hss"
  using assms by (auto simp: GetHistorySharedSince_def split: if_splits option.splits dest!: foldl_windows)

text \<open>The subscriptions outside a set of keys are as they were.\<close>

definition subs_outside :: "(string \<times> string) set \<Rightarrow> (string \<times> string \<Rightarrow> ThreadSubscription option) \<Rightarrow> thread_db \<Rightarrow> bool" where
  "subs_outside K f d \<longleftrightarrow> (\<forall>k. k \<notin> K \<longrightarrow> td_subs d k = f k)"

lemma subs_outside_D: "subs_outside K f d \<Longrightarrow> td_subs d k \<noteq> f k \<Longrightarrow> k \<in> K"
  unfolding subs_outside_def by blast

lemma mark_mention_outside:
  assumes "undisturbed h" "(ts_ThreadRoomID sub, ts_UserAccount sub) \<in> K"
  shows "db_keeps (subs_outside K f) h (\<lambda>c. MarkThreadSubscriptionMention c sub)"
  using assms(2) undisturbed_fates [OF assms(1)]
  by (auto simp: db_keeps_def subs_outside_def MarkThreadSubscriptionMention_def gated_def write_call_def put_sub_if_absent_def put_sub_def mark_mention_def tsub_key_def
      split: option.splits if_splits mongo_fate.splits prod.splits)

lemma reply_accounts_outside: "undisturbed h \<Longrightarrow> db_keeps (subs_outside K f) h (\<lambda>c. AddReplyAccounts c x as)"
  using undisturbed_fates [of h]
  by (auto simp: db_keeps_def subs_outside_def AddReplyAccounts_def write_call_def update_room_def split: if_splits mongo_fate.splits)

lemma mark_one_outside:
  assumes "undisturbed h" "(th, pt_Account p) \<in> K"
  shows "keeps (\<lambda>w. subs_outside K f (w_db w)) (mark_one_mention h msg th site p)"
proof -
  have db: "keeps (\<lambda>w. subs_outside K f (w_db w)) (bnd (wrapping s (h_db h (\<lambda>c. MarkThreadSubscriptionMention c sub))) (\<lambda>_. g))"
    if "ts_ThreadRoomID sub = th \<and> ts_UserAccount sub = pt_Account p" "keeps (\<lambda>w. subs_outside K f (w_db w)) g" for s sub g
    by (intro keeps_bnd keeps_wrapping keeps_h_db mark_mention_outside assms(1)) (use that assms(2) in auto)
  have build: "triple (\<lambda>w. subs_outside K f (w_db w)) (h_buildSub h msg th u a site now)
      (\<lambda>sub w. (ts_ThreadRoomID sub = th \<and> ts_UserAccount sub = a) \<and> subs_outside K f (w_db w)) (\<lambda>_ w. subs_outside K f (w_db w))" for u a now
    unfolding h_buildSub_def by (rule triple_bnd [where R = "\<lambda>_ w. subs_outside K f (w_db w)"]) (auto simp: triple_def next_call_def ret_def)
  show ?thesis unfolding keeps_def mark_one_mention_def Let_def
  proof (rule triple_bnd [OF build], goal_cases)
    case (1 sub)
    show ?case
    proof (cases "ts_ThreadRoomID sub = th \<and> ts_UserAccount sub = pt_Account p")
      case True
      then have "ts_ThreadRoomID (sub\<lparr>ts_HasMention := True\<rparr>) = th \<and> ts_UserAccount (sub\<lparr>ts_HasMention := True\<rparr>) = pt_Account p" by simp
      note mark = db [OF this keeps_wrapping [OF keeps_db_publish_sub], unfolded keeps_def]
      show ?thesis by (rule triple_conseq [OF mark]) simp_all
    next
      case False
      then show ?thesis unfolding triple_def by blast
    qed
  qed
qed

text \<open>C10: A mention in a thread changes the subscription of an account only when the account is mentioned, is not the sender, and holds a membership of the
  room whose history window shows it the parent of the thread; and only such accounts are returned as recipients of the unread
  mark. This holds for every outcome of the calls, the failures included, when no other writer interferes.\<close>

theorem mentions_respect_history_window:
  assumes "undisturbed h" and "markThreadMentions h msg th site isMigration w = (r, w')"
  shows "(td_subs (w_db w') (t, a) \<noteq> td_subs (w_db w) (t, a) \<longrightarrow>
            t = th \<and> (\<exists>p \<in> set (m_Mentions msg). pt_Account p = a \<and> pt_UserID p \<noteq> m_UserID msg) \<and> may_see_thread msg (w_db w) a \<and> \<not> isMigration)
    \<and> (\<forall>accounts. r = Inr accounts \<longrightarrow> (\<forall>b \<in> set accounts. (\<exists>p \<in> set (m_Mentions msg). pt_Account p = b \<and> pt_UserID p \<noteq> m_UserID msg)
          \<and> may_see_thread msg (w_db w) b))"
proof (cases "mention_candidates msg = []")
  case True
  then show ?thesis using assms(2) by (auto simp: markThreadMentions_def Let_def ret_def)
next
  case False
  let ?w = "w\<lparr>w_calls := Suc (w_calls w)\<rparr>"
  let ?get = "GetHistorySharedSince (me_mongo h (w_calls w)) (m_RoomID msg) (map pt_Account (mention_candidates msg)) (w_db w)"
  show ?thesis
  proof (cases ?get)
    case (Inl e)
    then show ?thesis using assms(2) False
      by (auto simp: markThreadMentions_def Let_def bnd_def wrapping_def map_err_def h_GetHistorySharedSince_def next_call_def)
  next
    case (Inr windows)
    let ?seen = "filter (\<lambda>p. case windows (pt_Account p) of None \<Rightarrow> False
                             | Some hss \<Rightarrow> mentionVisible hss (m_ThreadParentMessageCreatedAt msg)) (mention_candidates msg)"
    let ?rest = "bnd (if isMigration then ret () else for_each (mark_one_mention h msg th site) ?seen) (\<lambda>_.
        bnd (if map pt_Account ?seen \<noteq> []
             then wrapping ''add mentioned accounts to thread room replyAccounts'' (h_db h (\<lambda>c. AddReplyAccounts c th (map pt_Account ?seen)))
             else ret ()) (\<lambda>_.
        ret (map pt_Account ?seen)))"
    let ?K = "if isMigration then {} else (\<lambda>p. (th, pt_Account p)) ` set ?seen"
    have get: "wrapping ''get history windows for thread mentions'' (h_GetHistorySharedSince h (m_RoomID msg) (map pt_Account (mention_candidates msg))) w = (Inr windows, ?w)"
      using Inr by (simp add: wrapping_def map_err_def h_GetHistorySharedSince_def bnd_def next_call_def)
    have "markThreadMentions h msg th site isMigration w = ?rest ?w"
      unfolding markThreadMentions_def Let_def if_not_P [OF False] by (rule bnd_Inr) (rule get)
    then have run: "?rest ?w = (r, w')" using assms(2) by simp
    have see: "(\<exists>q \<in> set (m_Mentions msg). pt_Account q = pt_Account p \<and> pt_UserID q \<noteq> m_UserID msg) \<and> may_see_thread msg (w_db w) (pt_Account p)"
      if "p \<in> set ?seen" for p
      using that windows_from_members [OF Inr] by (fastforce simp: mention_candidates_def may_see_thread_def mentionVisible_iff split: option.splits)
    have keep: "keeps (\<lambda>w. subs_outside ?K (td_subs (w_db ?w)) (w_db w)) ?rest"
      by (intro keeps_bnd keeps_if keeps_ret keeps_for_each mark_one_outside keeps_wrapping keeps_h_db reply_accounts_outside assms(1)) auto
    have "subs_outside ?K (td_subs (w_db ?w)) (w_db ?w)" by (simp add: subs_outside_def)
    from keepsD [OF keep this run] have "subs_outside ?K (td_subs (w_db ?w)) (w_db w')" .
    then have "td_subs (w_db w') (t, a) \<noteq> td_subs (w_db w) (t, a) \<Longrightarrow> (t, a) \<in> ?K" 
      by (intro subs_outside_D [of ?K "td_subs (w_db ?w)" "w_db w'"]) simp_all
    moreover have "accounts = map pt_Account ?seen" if "r = Inr accounts" for accounts
      using run that by (auto simp: bnd_def ret_def split: prod.splits sum.splits)
    ultimately show ?thesis using see by (auto split: if_splits)
  qed
qed

text \<open>A reply that mentions a member who joined after the parent was written, and somebody outside the room.\<close>

definition mention_of :: "string \<Rightarrow> string \<Rightarrow> Participant" where
  "mention_of i account = \<lparr>pt_UserID = i, pt_Account = account, pt_SiteID = ''s1'', pt_ChineseName = '''', pt_EngName = '''', pt_DisplayName = ''''\<rparr>"

definition mentioning_reply :: Message where
  "mentioning_reply = als_reply\<lparr>m_Mentions := [mention_of ''u3'' ''carol'', mention_of ''u4'' ''dave''], m_ThreadParentMessageCreatedAt := Some 5\<rparr>"

definition world_with_members :: mw_world where
  "world_with_members = world_with_parent\<lparr>w_db := \<lparr>td_rooms = [], td_subs = (\<lambda>_. None),
     td_members = [\<lparr>mb_roomId = ''r1'', mb_account = ''carol'', mb_historySharedSince = Some 7, mb_threadUnread = []\<rparr>]\<rparr>\<rparr>"

theorem mentions_respect_history_window_witness:
  "\<exists>r w'. markThreadMentions demo_mw mentioning_reply ''t1'' ''s1'' False world_with_members = (r, w')
     \<and> td_subs (w_db w') (''t1'', ''carol'') = None \<and> td_subs (w_db w') (''t1'', ''dave'') = None"
proof -
  obtain r w' where run: "markThreadMentions demo_mw mentioning_reply ''t1'' ''s1'' False world_with_members = (r, w')" by fastforce
  have env: "undisturbed demo_mw" by (simp add: undisturbed_def demo_mw_calls)
  have hidden: "\<not> may_see_thread mentioning_reply (w_db world_with_members) ''carol''" "\<not> may_see_thread mentioning_reply (w_db world_with_members) ''dave''"
    by (simp_all add: may_see_thread_def world_with_members_def mentioning_reply_def)
  have none: "td_subs (w_db world_with_members) k = None" for k by (simp add: world_with_members_def)
  from mentions_respect_history_window [OF env run, of "''t1''" "''carol''"] mentions_respect_history_window [OF env run, of "''t1''" "''dave''"] hidden none run
  show ?thesis by (metis (no_types, lifting))
qed

end
