(* ===== verification/Member_Cache.thy ===== *)
theory Member_Cache
  imports Err_Code Chat_Model
begin

text \<open>
  The cached member list of a room (\<open>src/pkg/roomsubcache\<close>): the Valkey entry with its envelope and generations of keys, the
  read-through lookup that re-validates an entry before it expires and serves it on when the source is down, and the loader over the
  subscriptions and users collections. The fates of the Valkey calls, the answers of MongoDB and the JSON encoding are arguments.
  Times are nanoseconds, the stamp of an entry is in milliseconds.
\<close>

section \<open>Entries\<close>

record Member =
  rm_ID :: string
  rm_Account :: string
  rm_RoomType :: RoomType
  rm_IsBot :: bool
  rm_Muted :: bool
  rm_HistorySharedSince :: "int option"
  rm_HomeSiteID :: string
  rm_IsSubscribed :: bool

record Entry =
  bx_V :: "Member list"
  bx_CachedAt :: int

definition Usable :: "Entry \<Rightarrow> bool" where "Usable b \<longleftrightarrow> bx_CachedAt b \<noteq> 0"

text \<open>The key space of Valkey: a value and the time it expires.\<close>

type_synonym valkey = "string \<Rightarrow> (string \<times> int) option"

record entry_codec =
  enc_entry :: "Entry \<Rightarrow> string option"
  dec_entry :: "string \<Rightarrow> Entry option"

definition DefaultMaxValueBytes :: nat where "DefaultMaxValueBytes = 16 * 1024 * 1024"

definition cacheKeySchemaVersion :: string where "cacheKeySchemaVersion = ''v5''"
definition legacyCacheKeySchemaVersions :: "string list" where "legacyCacheKeySchemaVersions = [''v4'', ''v3'']"

definition generation_key :: "string \<Rightarrow> string \<Rightarrow> string" where
  "generation_key v roomID = ''room:'' @ v @ '':'' @ roomID @ '':subs''"

definition cacheKey :: "string \<Rightarrow> string" where "cacheKey roomID = generation_key cacheKeySchemaVersion roomID"

definition allGenerationKeys :: "string \<Rightarrow> string list" where
  "allGenerationKeys roomID = cacheKey roomID # map (\<lambda>v. generation_key v roomID) legacyCacheKeySchemaVersions"

section \<open>The Valkey tier\<close>

text \<open>An expired key is absent.\<close>

definition vk_read :: "int \<Rightarrow> string \<Rightarrow> valkey \<Rightarrow> string option" where
  "vk_read now k s = (case s k of None \<Rightarrow> None | Some (raw, deadline) \<Rightarrow> if now < deadline then Some raw else None)"

definition valkeyCache_Get :: "entry_codec \<Rightarrow> nat \<Rightarrow> bool \<Rightarrow> int \<Rightarrow> string \<Rightarrow> valkey \<Rightarrow> Entry option" where
  "valkeyCache_Get codec maxValueBytes failed now roomID s =
     (if roomID = '''' then None
      else if failed then None
      else case vk_read now (cacheKey roomID) s of
        None \<Rightarrow> None
      | Some raw \<Rightarrow>
          if maxValueBytes > 0 \<and> length raw > maxValueBytes then None
          else if raw = '''' then None
          else (case dec_entry codec raw of None \<Rightarrow> None | Some e \<Rightarrow> if Usable e then Some e else None))"

definition valkeyCache_Slide :: "bool \<Rightarrow> int \<Rightarrow> int \<Rightarrow> string \<Rightarrow> valkey \<Rightarrow> valkey" where
  "valkeyCache_Slide failed now ttl roomID s =
     (if roomID = '''' \<or> ttl \<le> 0 \<or> failed then s
      else case vk_read now (cacheKey roomID) s of None \<Rightarrow> s | Some raw \<Rightarrow> s(cacheKey roomID := Some (raw, now + ttl)))"

text \<open>A write that reports a failure may have landed.\<close>

datatype vk_fate = VkOk | VkErr bool

definition valkeyCache_Set :: "entry_codec \<Rightarrow> vk_fate \<Rightarrow> int \<Rightarrow> int \<Rightarrow> string \<Rightarrow> Member list \<Rightarrow> valkey \<Rightarrow> goerr option \<times> valkey" where
  "valkeyCache_Set codec fate now ttl roomID members s =
     (if roomID = '''' then (Some (Raw ''roomsubcache: empty roomID''), s)
      else case enc_entry codec \<lparr>bx_V = members, bx_CachedAt = now div 1000000\<rparr> of
        None \<Rightarrow> (Some (Wrapf (''set cached subscriptions for room '' @ roomID) (Raw ''valkey set json: marshal'')), s)
      | Some raw \<Rightarrow>
          (let s' = s(cacheKey roomID := Some (raw, now + ttl)) in
           case fate of
             VkOk \<Rightarrow> (None, s')
           | VkErr landed \<Rightarrow> (Some (Wrapf (''set cached subscriptions for room '' @ roomID) (Raw ''valkey set json'')), if landed then s' else s)))"

text \<open>A deletion is best effort: the predicate says which keys went.\<close>

definition valkeyCache_Invalidate :: "(string \<Rightarrow> bool) \<Rightarrow> string \<Rightarrow> valkey \<Rightarrow> valkey" where
  "valkeyCache_Invalidate gone roomID s =
     (if roomID = '''' then s else (\<lambda>k. if k \<in> set (allGenerationKeys roomID) \<and> gone k then None else s k))"

section \<open>The lookup\<close>

definition RefreshAfter :: "int \<Rightarrow> int" where "RefreshAfter ttl = ttl div 4 * 3"

definition Fresh :: "int \<Rightarrow> int \<Rightarrow> int \<Rightarrow> bool" where
  "Fresh cachedAt now ttl \<longleftrightarrow> now - cachedAt * 1000000 < RefreshAfter ttl"

record Lookup =
  lk_cache :: bool
  lk_ttl :: int
  lk_codec :: entry_codec
  lk_max :: nat

definition NewLookup :: "bool \<Rightarrow> int \<Rightarrow> entry_codec \<Rightarrow> nat \<Rightarrow> Lookup" where
  "NewLookup cache ttl codec mx = \<lparr>lk_cache = (cache \<and> \<not> ttl \<le> 0), lk_ttl = ttl, lk_codec = codec, lk_max = mx\<rparr>"

text \<open>What the outside decides during one read: the time, whether the two reads of the cache fail, the answer of the loader, the fates of the
  write and of the slide, and whether the caller gave up while waiting.\<close>

record mc_call =
  mc_now :: int
  mc_get1 :: bool
  mc_get2 :: bool
  mc_load :: "goerr + Member list"
  mc_set :: vk_fate
  mc_slide :: bool
  mc_cancelled :: bool

definition Lookup_write :: "Lookup \<Rightarrow> mc_call \<Rightarrow> string \<Rightarrow> Member list \<Rightarrow> valkey \<Rightarrow> valkey" where
  "Lookup_write l n roomID members s = snd (valkeyCache_Set (lk_codec l) (mc_set n) (mc_now n) (lk_ttl l) roomID members s)"

definition serveHit :: "Lookup \<Rightarrow> mc_call \<Rightarrow> string \<Rightarrow> Entry \<Rightarrow> valkey \<Rightarrow> Member list \<times> valkey" where
  "serveHit l n roomID entry s =
     (if Fresh (bx_CachedAt entry) (mc_now n) (lk_ttl l) then (bx_V entry, s)
      else case mc_load n of
        Inl _ \<Rightarrow> (bx_V entry, valkeyCache_Slide (mc_slide n) (mc_now n) (lk_ttl l) roomID s)
      | Inr loaded \<Rightarrow> (loaded, Lookup_write l n roomID loaded s))"

definition miss_flight :: "Lookup \<Rightarrow> mc_call \<Rightarrow> string \<Rightarrow> valkey \<Rightarrow> (goerr + Member list) \<times> valkey" where
  "miss_flight l n roomID s =
     (case valkeyCache_Get (lk_codec l) (lk_max l) (mc_get2 n) (mc_now n) roomID s of
        Some entry \<Rightarrow> (Inr (bx_V entry), s)
      | None \<Rightarrow>
          (case mc_load n of
             Inl e \<Rightarrow> (Inl (Wrapf (''load members for room '' @ roomID) e), s)
           | Inr loaded \<Rightarrow> (Inr loaded, Lookup_write l n roomID loaded s)))"

definition GetMembers :: "Lookup \<Rightarrow> mc_call \<Rightarrow> string \<Rightarrow> valkey \<Rightarrow> (goerr + Member list) \<times> valkey" where
  "GetMembers l n roomID s =
     (if \<not> lk_cache l then
        (case mc_load n of Inl e \<Rightarrow> (Inl (Wrapf (''load members for room '' @ roomID) e), s) | Inr members \<Rightarrow> (Inr members, s))
      else case valkeyCache_Get (lk_codec l) (lk_max l) (mc_get1 n) (mc_now n) roomID s of
        Some entry \<Rightarrow> (case serveHit l n roomID entry s of (members, s') \<Rightarrow> (Inr members, s'))
      | None \<Rightarrow>
          (case miss_flight l n roomID s of (res, s') \<Rightarrow>
             if mc_cancelled n then (Inl Canceled, s')
             else (case res of Inl e \<Rightarrow> (Inl (Wrapf (''get members for room '' @ roomID) e), s') | Inr members \<Rightarrow> (Inr members, s'))))"

definition Lookup_Invalidate :: "Lookup \<Rightarrow> (string \<Rightarrow> bool) \<Rightarrow> string \<Rightarrow> valkey \<Rightarrow> valkey" where
  "Lookup_Invalidate l gone roomID s = (if \<not> lk_cache l then s else valkeyCache_Invalidate gone roomID s)"

section \<open>The loader\<close>

record sub_doc =
  sd_roomId :: string
  sd_userID :: string
  sd_account :: string
  sd_isBot :: bool
  sd_roomType :: RoomType
  sd_muted :: bool
  sd_historySharedSince :: "int option"
  sd_isSubscribed :: bool

definition member_of_doc :: "sub_doc \<Rightarrow> Member" where
  "member_of_doc d = \<lparr>rm_ID = sd_userID d, rm_Account = sd_account d, rm_RoomType = sd_roomType d, rm_IsBot = sd_isBot d, rm_Muted = sd_muted d,
     rm_HistorySharedSince = sd_historySharedSince d, rm_HomeSiteID = '''', rm_IsSubscribed = sd_isSubscribed d\<rparr>"

text \<open>A read through a cursor: it may fail at once, at a document that does not decode, or while it fetches, after some documents.\<close>

datatype cursor_end = CursorOk | FindErr goerr | DecodeErr nat goerr | IterErr nat goerr

definition cursor_docs :: "cursor_end \<Rightarrow> 'a list \<Rightarrow> 'a list" where
  "cursor_docs c docs = (case c of CursorOk \<Rightarrow> docs | FindErr _ \<Rightarrow> [] | DecodeErr n _ \<Rightarrow> take n docs | IterErr n _ \<Rightarrow> take n docs)"

definition cursor_err :: "string \<Rightarrow> string \<Rightarrow> string \<Rightarrow> cursor_end \<Rightarrow> goerr option" where
  "cursor_err finding decoding iterating c =
     (case c of CursorOk \<Rightarrow> None | FindErr e \<Rightarrow> Some (Wrapf finding e) | DecodeErr _ e \<Rightarrow> Some (Wrapf decoding e) | IterErr _ e \<Rightarrow> Some (Wrapf iterating e))"

definition fillHomeSites :: "cursor_end \<Rightarrow> (string \<times> string) list option \<Rightarrow> string \<Rightarrow> Member list \<Rightarrow> goerr + Member list" where
  "fillHomeSites c users roomID members =
     (case users of
        None \<Rightarrow> Inr members
      | Some docs \<Rightarrow>
          if members = [] then Inr members
          else case cursor_err (''find home sites for room '' @ roomID @ '' members'') ''decode user home site'' ''iterate user home sites'' c of
            Some e \<Rightarrow> Inl e
          | None \<Rightarrow>
              (let siteByAccount = foldl (\<lambda>m (account, siteID). m(account \<mapsto> siteID)) Map.empty
                     (filter (\<lambda>d. fst d \<in> rm_Account ` set members) docs) in
               Inr (map (\<lambda>m. m\<lparr>rm_HomeSiteID := (case siteByAccount (rm_Account m) of Some x \<Rightarrow> x | None \<Rightarrow> '''')\<rparr>) members)))"

definition NewMongoLoader :: "cursor_end \<Rightarrow> cursor_end \<Rightarrow> sub_doc list \<Rightarrow> (string \<times> string) list option \<Rightarrow> string \<Rightarrow> goerr + Member list" where
  "NewMongoLoader subs_read users_read subscriptions users roomID =
     (case cursor_err (''find subscriptions for room '' @ roomID) ''decode subscription'' ''iterate subscriptions'' subs_read of
        Some e \<Rightarrow> Inl e
      | None \<Rightarrow> fillHomeSites users_read users roomID (map member_of_doc (filter (\<lambda>d. sd_roomId d = roomID) subscriptions)))"

section \<open>What is served was confirmed\<close>

text \<open>The life of the cache: reads, each with the answer the source of truth gave or would have given, and invalidations. The log keeps the
  answers with their times in milliseconds.\<close>

inductive cache_life :: "Lookup \<Rightarrow> (string \<times> int \<times> Member list) list \<Rightarrow> valkey \<Rightarrow> bool" for l where
  life_start: "cache_life l [] (\<lambda>_. None)"
| life_read: "cache_life l hist s \<Longrightarrow> GetMembers l n room s = (r, s') \<Longrightarrow>
    cache_life l ((case mc_load n of Inr ms \<Rightarrow> [(room, mc_now n div 1000000, ms)] | Inl _ \<Rightarrow> []) @ hist) s'"
| life_bust: "cache_life l hist s \<Longrightarrow> cache_life l hist (Lookup_Invalidate l gone room s)"

definition entries_logged :: "entry_codec \<Rightarrow> (string \<times> int \<times> Member list) list \<Rightarrow> valkey \<Rightarrow> bool" where
  "entries_logged codec hist s \<longleftrightarrow> (\<forall>room raw deadline. s (cacheKey room) = Some (raw, deadline) \<longrightarrow>
     (\<exists>e. dec_entry codec raw = Some e \<and> (room, bx_CachedAt e, bx_V e) \<in> set hist))"

lemma cacheKey_inj: "cacheKey a = cacheKey b \<longleftrightarrow> a = b"
  by (simp add: cacheKey_def generation_key_def)

lemma entries_logged_mono: "entries_logged codec hist s \<Longrightarrow> set hist \<subseteq> set hist' \<Longrightarrow> entries_logged codec hist' s"
  unfolding entries_logged_def by blast

lemma slide_logged: "entries_logged codec hist s \<Longrightarrow> entries_logged codec hist (valkeyCache_Slide failed now ttl room s)"
  by (fastforce simp: entries_logged_def valkeyCache_Slide_def vk_read_def cacheKey_inj split: option.splits if_splits prod.splits)

lemma invalidate_logged: "entries_logged codec hist s \<Longrightarrow> entries_logged codec hist (Lookup_Invalidate l gone room s)"
  by (auto simp: entries_logged_def Lookup_Invalidate_def valkeyCache_Invalidate_def)

lemma put_logged:
  assumes "entries_logged codec hist s" "dec_entry codec raw = Some e" "(room, bx_CachedAt e, bx_V e) \<in> set hist"
  shows "entries_logged codec hist (s(cacheKey room := Some (raw, deadline)))"
  using assms unfolding entries_logged_def by (simp add: cacheKey_inj)

lemma write_logged:
  assumes "entries_logged (lk_codec l) hist s" "\<forall>e raw. enc_entry (lk_codec l) e = Some raw \<longrightarrow> dec_entry (lk_codec l) raw = Some e"
  shows "entries_logged (lk_codec l) ((room, mc_now n div 1000000, ms) # hist) (Lookup_write l n room ms s)"
proof -
  let ?e = "\<lparr>bx_V = ms, bx_CachedAt = mc_now n div 1000000\<rparr>" and ?h = "(room, mc_now n div 1000000, ms) # hist"
  have same: "entries_logged (lk_codec l) ?h s" by (rule entries_logged_mono [OF assms(1)]) auto
  show ?thesis
  proof (cases "enc_entry (lk_codec l) ?e")
    case None
    then show ?thesis using same by (auto simp: Lookup_write_def valkeyCache_Set_def)
  next
    case (Some raw)
    then have "entries_logged (lk_codec l) ?h (s(cacheKey room := Some (raw, d)))" for d
      using assms(2) by (intro put_logged [OF same, of raw ?e]) simp_all
    then show ?thesis using Some same by (cases "mc_set n") (auto simp: Lookup_write_def valkeyCache_Set_def Let_def)
  qed
qed

lemma read_logged:
  assumes "entries_logged (lk_codec l) hist s" "\<forall>e raw. enc_entry (lk_codec l) e = Some raw \<longrightarrow> dec_entry (lk_codec l) raw = Some e"
    and "GetMembers l n room s = (r, s')"
  shows "entries_logged (lk_codec l) ((case mc_load n of Inr ms \<Rightarrow> [(room, mc_now n div 1000000, ms)] | Inl _ \<Rightarrow> []) @ hist) s'"
proof -
  have same: "entries_logged (lk_codec l) ((case mc_load n of Inr ms \<Rightarrow> [(room, mc_now n div 1000000, ms)] | Inl _ \<Rightarrow> []) @ hist) s"
    by (rule entries_logged_mono [OF assms(1)]) auto
  show ?thesis
    using assms(3) same slide_logged [OF same] write_logged [OF assms(1, 2)]
    by (auto simp: GetMembers_def serveHit_def miss_flight_def split: if_splits option.splits sum.splits prod.splits)
qed

lemma life_logged:
  assumes "cache_life l hist s" "\<forall>e raw. enc_entry (lk_codec l) e = Some raw \<longrightarrow> dec_entry (lk_codec l) raw = Some e"
  shows "entries_logged (lk_codec l) hist s"
  using assms(1)
proof (induction rule: cache_life.induct)
  case life_start
  then show ?case by (simp add: entries_logged_def)
next
  case (life_read hist s n room r s')
  then show ?case using read_logged assms(2) by blast
next
  case (life_bust hist s gone room)
  then show ?case by (simp add: invalidate_logged)
qed

lemma Get_logged:
  assumes "entries_logged codec hist s" "valkeyCache_Get codec mx failed now room s = Some e"
  shows "(room, bx_CachedAt e, bx_V e) \<in> set hist"
  using assms by (fastforce simp: entries_logged_def valkeyCache_Get_def vk_read_def split: if_splits option.splits)

text \<open>A second read at the same moment finds nothing new.\<close>

lemma Get_again: "valkeyCache_Get codec mx False now room s = None \<Longrightarrow> valkeyCache_Get codec mx failed now room s = None"
  by (auto simp: valkeyCache_Get_def split: if_splits)

text \<open>C16: In every life of the cache, with reads, failed and half-done writes, slides, invalidations and expiries in any order, a member list that is served is
  one the source of truth gave for that room: at this moment, or at the time of the entry's stamp. In the second case the stamp is within
  three quarters of the retention, unless the source is unreachable now or the first read of the cache failed.\<close>

theorem served_members_confirmed:
  assumes "cache_life l hist s" and "\<forall>e raw. enc_entry (lk_codec l) e = Some raw \<longrightarrow> dec_entry (lk_codec l) raw = Some e"
    and "GetMembers l n room s = (Inr ms, s')"
  shows "mc_load n = Inr ms
     \<or> (\<exists>t. (room, t, ms) \<in> set hist \<and> (Fresh t (mc_now n) (lk_ttl l) \<or> (\<exists>e. mc_load n = Inl e) \<or> mc_get1 n))"
proof -
  note inv = life_logged [OF assms(1, 2)]
  show ?thesis
  proof (cases "lk_cache l")
    case False
    then show ?thesis using assms(3) by (auto simp: GetMembers_def split: sum.splits)
  next
    case cache: True
    show ?thesis
    proof (cases "valkeyCache_Get (lk_codec l) (lk_max l) (mc_get1 n) (mc_now n) room s")
      case (Some e)
      then have "ms = bx_V e \<and> (Fresh (bx_CachedAt e) (mc_now n) (lk_ttl l) \<or> (\<exists>x. mc_load n = Inl x)) \<or> mc_load n = Inr ms"
        using assms(3) cache by (auto simp: GetMembers_def serveHit_def split: if_splits sum.splits)
      then show ?thesis using Get_logged [OF inv Some] by blast
    next
      case None
      show ?thesis
      proof (cases "valkeyCache_Get (lk_codec l) (lk_max l) (mc_get2 n) (mc_now n) room s")
        case no: None
        then show ?thesis using assms(3) cache None by (auto simp: GetMembers_def miss_flight_def split: if_splits sum.splits)
      next
        case (Some e)
        then have "mc_get1 n" using None Get_again [of "lk_codec l" "lk_max l" "mc_now n" room s] by (cases "mc_get1 n") auto
        moreover have "ms = bx_V e" using assms(3) cache None Some by (auto simp: GetMembers_def miss_flight_def split: if_splits)
        ultimately show ?thesis using Get_logged [OF inv Some] by blast
      qed
    qed
  qed
qed

text \<open>A codec for the empty list only, a lookup with a retention of 90 minutes, and a read that fills it.\<close>

definition demo_lookup :: Lookup where
  "demo_lookup = NewLookup True (90 * 60 * 1000000000)
     \<lparr>enc_entry = (\<lambda>e. if e = \<lparr>bx_V = [], bx_CachedAt = 7\<rparr> then Some ''e'' else None), dec_entry = (\<lambda>_. Some \<lparr>bx_V = [], bx_CachedAt = 7\<rparr>)\<rparr> 0"

definition demo_read :: "int \<Rightarrow> goerr + Member list \<Rightarrow> mc_call" where
  "demo_read now answer = \<lparr>mc_now = now, mc_get1 = False, mc_get2 = False, mc_load = answer, mc_set = VkOk, mc_slide = False, mc_cancelled = False\<rparr>"

text \<open>Eighty minutes later, with the source down, the entry is still served.\<close>

theorem served_members_confirmed_witness:
  "fst (GetMembers demo_lookup (demo_read (7000000 + 80 * 60 * 1000000000) (Inl (Raw ''down''))) ''r1''
     (snd (GetMembers demo_lookup (demo_read 7000000 (Inr [])) ''r1'' (\<lambda>_. None)))) = Inr []"
proof -
  let ?s = "snd (GetMembers demo_lookup (demo_read 7000000 (Inr [])) ''r1'' (\<lambda>_. None))"
  let ?n = "demo_read (7000000 + 80 * 60 * 1000000000) (Inl (Raw ''down''))"
  have "cache_life demo_lookup ((case mc_load (demo_read 7000000 (Inr [])) of Inr ms \<Rightarrow> [(''r1'', mc_now (demo_read 7000000 (Inr [])) div 1000000, ms)] | Inl _ \<Rightarrow> []) @ []) ?s"
    by (rule cache_life.life_read [OF cache_life.life_start]) (simp add: prod_eq_iff)
  then have life: "cache_life demo_lookup [(''r1'', 7, [])] ?s" by (simp add: demo_read_def)
  have codec: "\<forall>e raw. enc_entry (lk_codec demo_lookup) e = Some raw \<longrightarrow> dec_entry (lk_codec demo_lookup) raw = Some e"
    by (simp add: demo_lookup_def NewLookup_def)
  have s: "?s = (\<lambda>_. None)(cacheKey ''r1'' := Some (''e'', 7000000 + 90 * 60 * 1000000000))"
    by (simp add: GetMembers_def demo_lookup_def NewLookup_def demo_read_def valkeyCache_Get_def vk_read_def miss_flight_def Lookup_write_def valkeyCache_Set_def Let_def)
  obtain ms s' where run: "GetMembers demo_lookup ?n ''r1'' ?s = (Inr ms, s')"
    unfolding s by (simp add: GetMembers_def demo_lookup_def NewLookup_def demo_read_def valkeyCache_Get_def vk_read_def Usable_def serveHit_def Fresh_def RefreshAfter_def)
  show ?thesis using served_members_confirmed [OF life codec run] run by (auto simp: demo_read_def)
qed

end
