(* ===== verification/Notify.thy ===== *)
theory Notify
  imports Mention Member_Cache Js_Retry Message_Model Gatekeeper "HOL-Library.AList"
begin

text \<open>
  notification-worker (\<open>src/notification-worker\<close>): which members of a room get a push for a message, and the batches the pushes are sent
  in. The record \<open>HandlerDeps\<close> holds the collaborators the handler is built with; the implementations of this repository are
  defined before it. The member list comes from the cache of \<open>Member_Cache\<close>, whose state the handler threads through.
\<close>

section \<open>Settings\<close>

record notifSettings =
  ns_muteAll :: bool
  ns_allowPriority :: bool
  ns_showInCall :: bool
  ns_priorityContacts :: "string list"

definition zero_settings :: notifSettings where
  "zero_settings = \<lparr>ns_muteAll = False, ns_allowPriority = False, ns_showInCall = False, ns_priorityContacts = []\<rparr>"

definition isPriority :: "notifSettings \<Rightarrow> string \<Rightarrow> bool" where
  "isPriority ns account \<longleftrightarrow> account \<noteq> '''' \<and> account \<in> set (ns_priorityContacts ns)"

definition boolValue :: "bool option \<Rightarrow> bool" where "boolValue p \<longleftrightarrow> p = Some True"

definition resolveNotifSettings :: "UserSettings option \<Rightarrow> notifSettings" where
  "resolveNotifSettings s =
     (case s of
        None \<Rightarrow> zero_settings
      | Some s \<Rightarrow> \<lparr>ns_muteAll = boolValue (us_MuteAllNotifications s), ns_allowPriority = boolValue (us_AlwaysAllowPriorityNotifications s),
          ns_showInCall = boolValue (us_ShowNotificationsInCall s), ns_priorityContacts = filter (\<lambda>a. a \<noteq> '''') (us_PriorityContacts s)\<rparr>)"

text \<open>A user document: the account, whether it is active (\<open>None\<close> when the field is missing) and the settings.\<close>

record user_doc =
  ud_account :: string
  ud_active :: "bool option"
  ud_settings :: "UserSettings option"

definition appendChunk ::
  "cursor_end \<Rightarrow> user_doc list \<Rightarrow> string list \<Rightarrow> (string \<rightharpoonup> notifSettings) \<Rightarrow> goerr option \<times> (string \<rightharpoonup> notifSettings)" where
  "appendChunk c users chunk out =
     (cursor_err ''find user settings'' ''decode user settings'' ''iterate user settings'' c,
      foldl (\<lambda>m d. if ud_account d = '''' then m else m(ud_account d \<mapsto> resolveNotifSettings (ud_settings d))) out
        (cursor_docs c (filter (\<lambda>d. ud_account d \<in> set chunk \<and> ud_active d \<noteq> Some False) users)))"

function split_chunks :: "nat \<Rightarrow> 'a list \<Rightarrow> 'a list list" where
  "split_chunks k xs = (if k = 0 \<or> xs = [] then [] else take k xs # split_chunks k (drop k xs))"
  by pat_completeness auto
termination
  by (relation "measure (\<lambda>(k, xs). length xs)") auto

declare split_chunks.simps [simp del]

lemma split_chunks_Nil [simp]: "split_chunks k [] = []"
  by (simp add: split_chunks.simps)

definition chunkStrings :: "string list \<Rightarrow> int \<Rightarrow> string list list" where
  "chunkStrings xs n = (if n \<le> 0 \<or> int (length xs) \<le> n then [xs] else split_chunks (nat n) xs)"

text \<open>The chunks are read one after the other; a failure ends the loop with what was collected. The answer of each chunk is an argument, its
  number first.\<close>

fun settings_loop :: "(nat \<Rightarrow> cursor_end) \<Rightarrow> user_doc list \<Rightarrow> nat \<Rightarrow> string list list \<Rightarrow> (string \<rightharpoonup> notifSettings) \<Rightarrow> (string \<rightharpoonup> notifSettings)" where
  "settings_loop answer users i [] out = out"
| "settings_loop answer users i (chunk # chunks) out =
     (case appendChunk (answer i) users chunk out of
        (Some _, out') \<Rightarrow> out'
      | (None, out') \<Rightarrow> settings_loop answer users (i + 1) chunks out')"

definition mongoUserSettings_Snapshot :: "int \<Rightarrow> (nat \<Rightarrow> cursor_end) \<Rightarrow> user_doc list \<Rightarrow> string list \<Rightarrow> (string \<rightharpoonup> notifSettings)" where
  "mongoUserSettings_Snapshot batchSize answer users accounts =
     (if accounts = [] then Map.empty
      else settings_loop answer users 0 (chunkStrings accounts (if batchSize \<le> 0 then 512 else batchSize)) Map.empty)"

section \<open>Presence\<close>

type_synonym PresenceStatus = string

definition isDND :: "PresenceStatus \<Rightarrow> bool" where "isDND p = False"
definition isPresenting :: "PresenceStatus \<Rightarrow> bool" where "isPresenting p = False"

definition nw_isInCall :: "PresenceStatus \<Rightarrow> bool" where "nw_isInCall p \<longleftrightarrow> p = ''busy'' \<or> p = ''in-call''"

definition shouldPush :: "PresenceStatus \<Rightarrow> notifSettings \<Rightarrow> bool \<Rightarrow> bool" where
  "shouldPush p ns isPrioritySender =
     (if ns_allowPriority ns \<and> isPrioritySender then True
      else if ns_muteAll ns then False
      else if isDND p \<or> isPresenting p then False
      else if nw_isInCall p \<and> \<not> ns_showInCall ns then False
      else True)"

text \<open>The bulk lookup: every chunk is asked for on its own; a chunk that is not answered, answered with an error or unreadable adds nothing. The chunks
  finish in any order, the order in which their answers are merged.\<close>

definition presence_chunk :: "(string list \<Rightarrow> string option) \<Rightarrow> (string \<Rightarrow> string \<Rightarrow> goerr + string) \<Rightarrow> (string \<Rightarrow> Error option) \<Rightarrow>
    (string \<Rightarrow> (string \<rightharpoonup> PresenceStatus) option) \<Rightarrow> string \<Rightarrow> string list \<Rightarrow> (string \<rightharpoonup> PresenceStatus)" where
  "presence_chunk enc request decErr dec subj ch =
     (case enc ch of
        None \<Rightarrow> Map.empty
      | Some data \<Rightarrow>
          (case request subj data of
             Inl _ \<Rightarrow> Map.empty
           | Inr reply \<Rightarrow>
               if Parse decErr reply \<noteq> None then Map.empty
               else (case dec reply of None \<Rightarrow> Map.empty | Some presences \<Rightarrow> presences)))"

definition bulkPresence_Snapshot :: "(string list \<Rightarrow> string option) \<Rightarrow> (string \<Rightarrow> string \<Rightarrow> goerr + string) \<Rightarrow> (string \<Rightarrow> Error option) \<Rightarrow>
    (string \<Rightarrow> (string \<rightharpoonup> PresenceStatus) option) \<Rightarrow> (string list list \<Rightarrow> string list list) \<Rightarrow> string \<Rightarrow> int \<Rightarrow> string list \<Rightarrow> (string \<rightharpoonup> PresenceStatus)" where
  "bulkPresence_Snapshot enc request decErr dec finish siteID batchSize accounts =
     (if accounts = [] then Map.empty
      else foldl (\<lambda>out ch. out ++ presence_chunk enc request decErr dec (PresenceSnapshot siteID) ch) Map.empty
        (finish (chunkStrings accounts (if batchSize \<le> 0 then 512 else batchSize))))"

section \<open>Threads\<close>

record ParentMessageInfo =
  pi_SenderAccount :: string
  pi_CreatedAt :: int

text \<open>The followers of a thread: the reply accounts of its thread room, none when there is no room yet.\<close>

definition threadFollowers_Lookup :: "goerr option \<Rightarrow> (string \<times> string list) list \<Rightarrow> string \<Rightarrow> goerr + string list" where
  "threadFollowers_Lookup err rooms parentMessageID =
     (if parentMessageID = '''' then Inr []
      else case err of
        Some e \<Rightarrow> Inl (Wrapf (''find thread room by parent '' @ parentMessageID) e)
      | None \<Rightarrow> (case map_of rooms parentMessageID of
            None \<Rightarrow> Inr []
          | Some replyAccounts \<Rightarrow> Inr (filter (\<lambda>a. a \<noteq> '''') replyAccounts)))"

definition FetchParent ::
  "(string \<Rightarrow> string \<Rightarrow> goerr + string) \<Rightarrow> (string \<Rightarrow> goerr + string) \<Rightarrow> (string \<Rightarrow> Error option) \<Rightarrow> (string \<Rightarrow> goerr + ParentMessageInfo) \<Rightarrow>
   string \<Rightarrow> string \<Rightarrow> string \<Rightarrow> string \<Rightarrow> (goerr + ParentMessageInfo) go" where
  "FetchParent request encReq decErr decMsg account roomID siteID messageID =
     (case encReq messageID of
        Inl err \<Rightarrow> map_sum id Inl (MarshalFailed ''GetMessageByID request'' err)
      | Inr reqBytes \<Rightarrow>
          (case request (MsgGet account roomID siteID) reqBytes of
             Inl err \<Rightarrow> map_sum id (\<lambda>e. Inl (the e)) (RequestFailure (''history request for parent '' @ messageID) (Some err))
           | Inr data \<Rightarrow>
               (case (case Parse decErr data of Some ee \<Rightarrow> if Valid (ec_Code ee) then Some ee else None | None \<Rightarrow> None) of
                  Some ee \<Rightarrow> Inr (Inl (Typed ee))
                | None \<Rightarrow>
                    (case decMsg data of Inl err \<Rightarrow> Inr (Inl (Wrapf (''unmarshal parent message '' @ messageID) err))
                     | Inr parent \<Rightarrow> Inr (Inr parent)))))"

section \<open>Badge counts\<close>

definition natsBadgeClient_Counts ::
  "(string \<Rightarrow> string \<Rightarrow> goerr + string) \<Rightarrow> (string \<Rightarrow> string list \<Rightarrow> goerr + string) \<Rightarrow> (string \<Rightarrow> Error option) \<Rightarrow> (string \<Rightarrow> goerr + (string \<times> int) list) \<Rightarrow>
   string \<Rightarrow> string \<Rightarrow> string list \<Rightarrow> goerr + (string \<times> int) list" where
  "natsBadgeClient_Counts request encReq decErr decResp siteID roomID accounts =
     (case encReq roomID accounts of
        Inl err \<Rightarrow> Inl (Wrapf (''marshal badge count batch request for site '' @ siteID) err)
      | Inr reqBytes \<Rightarrow>
          (case request (BadgeCountBatch siteID) reqBytes of
             Inl err \<Rightarrow> Inl (Wrapf (''badge count batch request to site '' @ siteID) err)
           | Inr data \<Rightarrow>
               (case (case Parse decErr data of Some ee \<Rightarrow> if Valid (ec_Code ee) then Some ee else None | None \<Rightarrow> None) of
                  Some ee \<Rightarrow> Inl (Typed ee)
                | None \<Rightarrow>
                    (case decResp data of Inl err \<Rightarrow> Inl (Wrapf (''unmarshal badge count batch response from site '' @ siteID) err)
                     | Inr counts \<Rightarrow> Inr counts))))"

section \<open>Eligibility\<close>

definition isDirect :: "RoomType \<Rightarrow> bool" where "isDirect t \<longleftrightarrow> t = RoomTypeDM \<or> t = RoomTypeBotDM"

definition EligibleForPush :: "Member \<Rightarrow> RoomType \<Rightarrow> bool \<Rightarrow> bool \<Rightarrow> bool" where
  "EligibleForPush m roomType isLargeRoom mentioned =
     (if rm_IsBot m then False else if isDirect roomType then True else if mentioned then True else \<not> isLargeRoom)"

definition isRestricted :: "Member \<Rightarrow> Message \<Rightarrow> bool \<Rightarrow> int option \<Rightarrow> bool" where
  "isRestricted m msg isThreadOnlyReply parentCreatedAt =
     (case rm_HistorySharedSince m of
        None \<Rightarrow> False
      | Some since \<Rightarrow>
          if isThreadOnlyReply then (case parentCreatedAt of None \<Rightarrow> True | Some t \<Rightarrow> t < since)
          else m_CreatedAt msg < since)"

definition isNotifiable :: "string \<Rightarrow> bool" where "isNotifiable msgType = (\<not> IsSystemMessageType msgType)"

definition shortRoomType :: "RoomType \<Rightarrow> string" where
  "shortRoomType t = (if t = RoomTypeDM \<or> t = RoomTypeBotDM then ''d'' else if t = RoomTypeDiscussion then ''p'' else ''c'')"

section \<open>The push event and its emission\<close>

record PushNotificationData =
  pd_RoomID :: string
  pd_MessageID :: string
  pd_Type :: string
  pd_Sender :: "Participant option"
  pd_ThreadMessageID :: string
  pd_FileName :: string
  pd_FileType :: string
  pd_ParentRoomID :: string
  pd_PushTime :: string
  pd_AlsoSendToChannel :: bool

record PushNotificationEvent =
  pn_ID :: string
  pn_Accounts :: "string list"
  pn_Title :: string
  pn_Body :: string
  pn_Data :: PushNotificationData
  pn_RoomID :: string
  pn_Timestamp :: int
  pn_UnreadCounts :: "(string \<times> int) list"

definition clampPayloadCap :: "int \<Rightarrow> int" where
  "clampPayloadCap n = (if n \<le> 0 then 0 else if n > 9223372036854775807 then 9223372036854775807 else n)"

definition mobileEmitter_Emit ::
  "(PushNotificationEvent \<Rightarrow> goerr + string) \<Rightarrow> (string \<Rightarrow> string \<Rightarrow> string \<Rightarrow> goerr option) \<Rightarrow> string \<Rightarrow> int \<Rightarrow> PushNotificationEvent \<Rightarrow> goerr option go" where
  "mobileEmitter_Emit enc publish sendSubject maxPayloadBytes evt =
     (case enc evt of
        Inl err \<Rightarrow> map_sum id Some (MarshalFailed ''push batch'' err)
      | Inr data \<Rightarrow>
          if maxPayloadBytes > 0 \<and> int (length data) > maxPayloadBytes then
            Inr (Some (PermErr (Error CodeInternal '''' (''push batch '' @ pn_ID evt @ '' exceeds NATS max_payload: wire='' @ Itoa (int (length data))
              @ '', cap='' @ Itoa maxPayloadBytes) Map.empty None)))
          else (case publish sendSubject data (pn_ID evt) of
              None \<Rightarrow> Inr None
            | Some err \<Rightarrow> Inr (Some (Wrapf (''publish push batch '' @ pn_ID evt) err))))"

section \<open>The handler\<close>

text \<open>The collaborators. A missing one is \<open>None\<close>. \<open>hd_emit\<close> is asked with the number of the batch, and the badge counts of a site may
  come in any order.\<close>

record HandlerDeps =
  hd_Members :: Lookup
  hd_read :: mc_call
  hd_gone :: "string \<Rightarrow> bool"
  hd_Followers :: "string \<Rightarrow> goerr + string list"
  hd_Parent :: "string \<Rightarrow> string \<Rightarrow> string \<Rightarrow> string \<Rightarrow> goerr + ParentMessageInfo"
  hd_Presence :: "string list \<Rightarrow> (string \<rightharpoonup> PresenceStatus)"
  hd_Settings :: "string list \<Rightarrow> (string \<rightharpoonup> notifSettings)"
  hd_Hook :: "Message \<Rightarrow> Member \<Rightarrow> goerr + bool"
  hd_Emitter :: "nat \<Rightarrow> PushNotificationEvent \<Rightarrow> goerr option"
  hd_RoomMeta :: "(string \<Rightarrow> goerr + Meta) option"
  hd_MentionNames :: "(string list \<Rightarrow> (string \<rightharpoonup> string) \<times> goerr option) option"
  hd_BadgeClient :: "(string \<Rightarrow> string \<Rightarrow> string list \<Rightarrow> goerr + (string \<times> int) list) option"
  hd_LargeRoomThreshold :: int
  hd_RecipientBatchSize :: int
  hd_decode :: "string \<Rightarrow> MessageEvent option"
  hd_decodeAttachment :: "string \<Rightarrow> Attachment option"
  hd_now :: int
  hd_rfc3339 :: "int \<Rightarrow> string"
  hd_attempt :: "nat option"
  hd_order :: "string list \<Rightarrow> string list"

definition defaultRecipientBatchSize :: int where "defaultRecipientBatchSize = 100"
definition maxMentionLookups :: nat where "maxMentionLookups = 50"

definition NewHandler :: "HandlerDeps \<Rightarrow> HandlerDeps" where
  "NewHandler deps =
     deps\<lparr>hd_LargeRoomThreshold := (if hd_LargeRoomThreshold deps \<le> 0 then 500 else hd_LargeRoomThreshold deps),
       hd_RecipientBatchSize := (if hd_RecipientBatchSize deps \<le> 0 then defaultRecipientBatchSize else hd_RecipientBatchSize deps)\<rparr>"

definition attachmentFileInfo :: "(string \<Rightarrow> Attachment option) \<Rightarrow> string list \<Rightarrow> string \<times> string" where
  "attachmentFileInfo dec attachments =
     (case List.map_filter dec attachments of [] \<Rightarrow> ('''', '''') | a # _ \<Rightarrow> (at_Title a, at_FileType a))"

definition mentionNames_Resolve ::
  "(string list \<Rightarrow> mention_user list \<times> goerr option) \<Rightarrow> string list \<Rightarrow> (string \<rightharpoonup> string) \<times> goerr option" where
  "mentionNames_Resolve find_users accounts =
     (if accounts = [] then (Map.empty, None)
      else case find_users accounts of (us, err) \<Rightarrow>
        (foldl (\<lambda>out u. let name = CombineWithFallback (mu_EngName u) (mu_ChineseName u) '''' in
            if name = '''' then out else out(ToLowerAscii (mu_Account u) \<mapsto> name)) Map.empty us,
         map_option (Wrapf ''find mentioned users'') err))"

definition resolveBody :: "HandlerDeps \<Rightarrow> string \<Rightarrow> ParseResult \<Rightarrow> string" where
  "resolveBody h content parsed =
     (if ps_Accounts parsed = [] \<and> \<not> ps_MentionAll parsed then content
      else
        let names = (case hd_MentionNames h of
              None \<Rightarrow> Map.empty
            | Some resolve \<Rightarrow>
                (let lookup = LookupAccountsFromParsed parsed in
                 if lookup = [] then Map.empty else fst (resolve (take maxMentionLookups lookup)))) in
        ReplaceAccounts content names)"

definition resolveTitle :: "HandlerDeps \<Rightarrow> string \<Rightarrow> RoomType \<Rightarrow> Participant \<Rightarrow> string" where
  "resolveTitle h roomID roomType sender =
     (case hd_RoomMeta h of
        Some get \<Rightarrow>
          if \<not> isDirect roomType then
            (case get roomID of Inr meta \<Rightarrow> if mt_Name meta \<noteq> '''' then mt_Name meta else pt_Account sender | Inl _ \<Rightarrow> pt_Account sender)
          else pt_Account sender
      | None \<Rightarrow> pt_Account sender)"

definition put_counts_of :: "(string \<times> int) list \<Rightarrow> (string \<times> int) list \<Rightarrow> (string \<times> int) list" where
  "put_counts_of new old = foldl (\<lambda>m (k, v). AList.update k v m) old new"

definition fetchUnreadCounts :: "HandlerDeps \<Rightarrow> string \<Rightarrow> string list \<Rightarrow> (string \<rightharpoonup> string) \<Rightarrow> (string \<times> int) list" where
  "fetchUnreadCounts h roomID accounts siteByAccount =
     (case hd_BadgeClient h of
        None \<Rightarrow> []
      | Some counts \<Rightarrow>
          (let site_of = (\<lambda>a. case siteByAccount a of None \<Rightarrow> '''' | Some x \<Rightarrow> x);
               sites = remdups (filter (\<lambda>x. x \<noteq> '''') (map site_of accounts)) in
           foldl (\<lambda>merged site. case counts site roomID (filter (\<lambda>a. site_of a = site) accounts) of
               Inl _ \<Rightarrow> merged | Inr c \<Rightarrow> put_counts_of c merged) [] (hd_order h sites)))"

definition filterUnreadCounts :: "(string \<times> int) list \<Rightarrow> string list \<Rightarrow> (string \<times> int) list" where
  "filterUnreadCounts unreadCounts batchAccounts =
     (if unreadCounts = [] then []
      else List.map_filter (\<lambda>a. map_option (\<lambda>n. (a, n)) (map_of unreadCounts a)) (remdups batchAccounts))"

definition nw_parentResolveAttempts :: nat where "nw_parentResolveAttempts = 2"

definition nw_parentResolveExhausted :: "HandlerDeps \<Rightarrow> bool" where
  "nw_parentResolveExhausted h = (case hd_attempt h of None \<Rightarrow> False | Some attempt_no \<Rightarrow> attempt_no \<ge> nw_parentResolveAttempts)"

text \<open>The followers, the parent's time and its author, for a reply that is hidden from the channel.\<close>

definition thread_context :: "HandlerDeps \<Rightarrow> MessageEvent \<Rightarrow> goerr + (string list \<times> int option \<times> string)" where
  "thread_context h evt =
     (let msg = ev_Message evt in
      if \<not> Message_IsHiddenThreadReply msg then Inr ([], None, '''')
      else case hd_Followers h (m_ThreadParentMessageID msg) of
        Inl e \<Rightarrow> Inl (Wrapf (''lookup thread room for parent '' @ m_ThreadParentMessageID msg) e)
      | Inr followers \<Rightarrow>
          if m_ThreadParentMessageCreatedAt msg \<noteq> None \<and> ev_ThreadParentSenderAccount evt \<noteq> ''''
          then Inr (followers, m_ThreadParentMessageCreatedAt msg, ev_ThreadParentSenderAccount evt)
          else (case hd_Parent h (m_UserAccount msg) (m_RoomID msg) (ev_SiteID evt) (m_ThreadParentMessageID msg) of
              Inl perr \<Rightarrow>
                (case Terminal perr of
                   Some ee \<Rightarrow> if nw_parentResolveExhausted h then Inl (PermErr ee)
                     else Inl (Wrapf (''fetch thread parent '' @ m_ThreadParentMessageID msg) perr)
                 | None \<Rightarrow> Inl (Wrapf (''fetch thread parent '' @ m_ThreadParentMessageID msg) perr))
            | Inr parent \<Rightarrow> Inr (followers, Some (pi_CreatedAt parent), pi_SenderAccount parent)))"

text \<open>The members whose unread state changes, and of them those the hook and the routing let through.\<close>

definition is_mentioned :: "Message \<Rightarrow> Member \<Rightarrow> bool" where
  "is_mentioned msg m \<longleftrightarrow> (let parsed = ParseMentions (m_Content msg) in ps_MentionAll parsed \<or> rm_Account m \<in> set (ps_Accounts parsed))"

definition in_audience :: "Message \<Rightarrow> string list \<Rightarrow> int option \<Rightarrow> string \<Rightarrow> Member \<Rightarrow> bool" where
  "in_audience msg followers parentCreatedAt parentSenderAccount m =
     (let threadOnly = Message_IsHiddenThreadReply msg in
      if rm_ID m = m_UserID msg then False
      else if rm_Muted m then False
      else if isRestricted m msg threadOnly parentCreatedAt then False
      else if threadOnly \<and> \<not> (rm_Account m \<in> set followers \<or> rm_Account m = parentSenderAccount) \<and> \<not> is_mentioned msg m then False
      else True)"

definition hook_allows :: "HandlerDeps \<Rightarrow> Message \<Rightarrow> Member \<Rightarrow> bool" where
  "hook_allows h msg m = (case hd_Hook h msg m of Inl _ \<Rightarrow> True | Inr allow \<Rightarrow> allow)"

definition is_candidate :: "HandlerDeps \<Rightarrow> Message \<Rightarrow> RoomType \<Rightarrow> bool \<Rightarrow> Member \<Rightarrow> bool" where
  "is_candidate h msg roomType isLargeRoom m \<longleftrightarrow> hook_allows h msg m \<and> EligibleForPush m roomType isLargeRoom (is_mentioned msg m)"

definition survivors_of :: "HandlerDeps \<Rightarrow> Message \<Rightarrow> Member list \<Rightarrow> string list" where
  "survivors_of h msg candidates =
     (let accounts = map rm_Account candidates; settings = hd_Settings h accounts; snapshot = hd_Presence h accounts in
      sort (map rm_Account (filter (\<lambda>c.
        let ns = (case settings (rm_Account c) of None \<Rightarrow> zero_settings | Some ns \<Rightarrow> ns);
            p = (case snapshot (rm_Account c) of None \<Rightarrow> '''' | Some p \<Rightarrow> p) in
        shouldPush p ns (isPriority ns (m_UserAccount msg))) candidates)))"

definition push_template :: "HandlerDeps \<Rightarrow> Message \<Rightarrow> RoomType \<Rightarrow> PushNotificationEvent" where
  "push_template h msg roomType =
     (let sender = \<lparr>pt_UserID = m_UserID msg, pt_Account = m_UserAccount msg, pt_SiteID = '''', pt_ChineseName = '''', pt_EngName = '''',
            pt_DisplayName = SenderDisplayName msg\<rparr>;
          (fileName, fileType) = attachmentFileInfo (hd_decodeAttachment h) (m_Attachments msg) in
      \<lparr>pn_ID = '''', pn_Accounts = [], pn_Title = resolveTitle h (m_RoomID msg) roomType sender,
       pn_Body = resolveBody h (m_Content msg) (ParseMentions (m_Content msg)),
       pn_Data = \<lparr>pd_RoomID = m_RoomID msg, pd_MessageID = m_ID msg, pd_Type = shortRoomType roomType, pd_Sender = Some sender,
         pd_ThreadMessageID = m_ThreadParentMessageID msg, pd_FileName = fileName, pd_FileType = fileType, pd_ParentRoomID = '''',
         pd_PushTime = hd_rfc3339 h (hd_now h), pd_AlsoSendToChannel = m_TShow msg\<rparr>,
       pn_RoomID = m_RoomID msg, pn_Timestamp = hd_now h, pn_UnreadCounts = []\<rparr>)"

definition batch_event :: "HandlerDeps \<Rightarrow> Message \<Rightarrow> RoomType \<Rightarrow> (string \<times> int) list \<Rightarrow> nat \<Rightarrow> string list \<Rightarrow> PushNotificationEvent" where
  "batch_event h msg roomType unreadCounts batchIdx batchAccounts =
     (push_template h msg roomType)\<lparr>pn_ID := m_ID msg @ ''-b'' @ Itoa (int batchIdx), pn_Accounts := batchAccounts,
        pn_UnreadCounts := filterUnreadCounts unreadCounts batchAccounts\<rparr>"

text \<open>The loop over the batches: every one is tried, the failures are collected.\<close>

fun emit_loop :: "HandlerDeps \<Rightarrow> Message \<Rightarrow> RoomType \<Rightarrow> (string \<times> int) list \<Rightarrow> nat \<Rightarrow> string list list \<Rightarrow> goerr list \<times> PushNotificationEvent list" where
  "emit_loop h msg roomType unread i [] = ([], [])"
| "emit_loop h msg roomType unread i (b # bs) =
     (let evt = batch_event h msg roomType unread i b;
          (errs, evts) = emit_loop h msg roomType unread (i + 1) bs in
      ((case hd_Emitter h i evt of None \<Rightarrow> errs | Some err \<Rightarrow> Wrapf (''emit push batch '' @ Itoa (int i)) err # errs), evt # evts))"

definition allBatchErrsPermanent :: "goerr list \<Rightarrow> bool" where
  "allBatchErrsPermanent errs \<longleftrightarrow> (\<forall>e \<in> set errs. IsPermanent e \<noteq> None)"

definition emit_result :: "Message \<Rightarrow> goerr list \<Rightarrow> goerr option" where
  "emit_result msg emitErrs =
     (if emitErrs = [] then None
      else let text = ''emit push batches for message '' @ m_ID msg @ '': '' @ err_text (Joined emitErrs) in
        if allBatchErrsPermanent emitErrs then Some (PermErr (Error CodeInternal '''' text Map.empty None))
        else Some (Raw text))"

definition push_to :: "HandlerDeps \<Rightarrow> Message \<Rightarrow> Member list \<Rightarrow> Member list \<Rightarrow> goerr option \<times> PushNotificationEvent list" where
  "push_to h msg members audience =
     (let roomType = rm_RoomType (hd members); isLargeRoom = (int (length members) > hd_LargeRoomThreshold h);
          badgeAccounts = map rm_Account audience;
          siteByAccount = foldl (\<lambda>mp m. mp(rm_Account m \<mapsto> rm_HomeSiteID m)) Map.empty audience;
          candidates = filter (is_candidate h msg roomType isLargeRoom) audience;
          survivors = survivors_of h msg candidates;
          unread = fetchUnreadCounts h (m_RoomID msg) badgeAccounts siteByAccount in
      if survivors = [] then (None, [])
      else case emit_loop h msg roomType unread 0 (split_chunks (nat (hd_RecipientBatchSize h)) survivors) of
        (emitErrs, evts) \<Rightarrow> (emit_result msg emitErrs, evts))"

definition malformed_push :: goerr where
  "malformed_push = PermErr (Error CodeBadRequest '''' ''malformed message event'' Map.empty None)"

definition HandleMessage :: "HandlerDeps \<Rightarrow> string \<Rightarrow> valkey \<Rightarrow> goerr option \<times> PushNotificationEvent list \<times> valkey" where
  "HandleMessage h data s =
     (case hd_decode h data of
        None \<Rightarrow> (Some malformed_push, [], s)
      | Some evt \<Rightarrow>
          if ev_Event evt \<noteq> EventCreated \<and> ev_Event evt \<noteq> '''' then (None, [], s)
          else
            let msg = ev_Message evt;
                s1 = (if m_Type msg \<in> {MessageTypeMembersAdded, MessageTypeMemberLeft, MessageTypeMemberRemoved}
                      then Lookup_Invalidate (hd_Members h) (hd_gone h) (m_RoomID msg) s else s) in
            if \<not> isNotifiable (m_Type msg) then (None, [], s1)
            else case GetMembers (hd_Members h) (hd_read h) (m_RoomID msg) s1 of
              (Inl e, s2) \<Rightarrow> (Some (Wrapf (''get members for room '' @ m_RoomID msg) e), [], s2)
            | (Inr members, s2) \<Rightarrow>
                if members = [] then (None, [], s2)
                else (case thread_context h evt of
                    Inl e \<Rightarrow> (Some e, [], s2)
                  | Inr (followers, parentCreatedAt, parentSenderAccount) \<Rightarrow>
                      (let audience = filter (in_audience msg followers parentCreatedAt parentSenderAccount) members in
                       if audience = [] then (None, [], s2)
                       else case push_to h msg members audience of (err, evts) \<Rightarrow> (err, evts, s2))))"

definition notify_deliver :: "HandlerDeps \<Rightarrow> (int \<Rightarrow> int) \<Rightarrow> nat option \<Rightarrow> bool \<Rightarrow> string \<Rightarrow> valkey \<Rightarrow> settlement \<times> PushNotificationEvent list \<times> valkey" where
  "notify_deliver h rnd meta isMigrationLive data s =
     (if isMigrationLive then (Ack, [], s)
      else case HandleMessage h data s of (err, evts, s') \<Rightarrow>
        (settle rnd meta DefaultBackoff (map_option (\<lambda>e. if IsPermanent e \<noteq> None then PermanentErr else TransientErr) err), evts, s'))"

end
