(* ===== verification/Notify_Props.thy ===== *)
theory Notify_Props
  imports Notify
begin

text \<open>
  What notification-worker promises: exactly the members that deserve a push are named in the batches; nothing that could be retried is
  acknowledged away; and with the deduplication of the push stream, redeliveries of one recipient list reach every recipient
  exactly once.
\<close>

section \<open>Who deserves a push\<close>

text \<open>The rule, stated on its own: the member is another person of the room, has not muted it, can see the message (or the parent of the thread), takes
  part in the thread when the message is hidden in one, is not vetoed, is addressed directly, mentioned, or in a room
  that is not large; and has not muted everything nor is in a call, unless a priority contact may pierce.\<close>

definition can_see :: "Message \<Rightarrow> int option \<Rightarrow> Member \<Rightarrow> bool" where
  "can_see msg parentCreatedAt m \<longleftrightarrow> (\<forall>since. rm_HistorySharedSince m = Some since \<longrightarrow>
     (if m_ThreadParentMessageID msg \<noteq> '''' \<and> \<not> m_TShow msg then (\<exists>t. parentCreatedAt = Some t \<and> since \<le> t) else since \<le> m_CreatedAt msg))"

definition mentioned_in :: "Message \<Rightarrow> Member \<Rightarrow> bool" where
  "mentioned_in msg m \<longleftrightarrow> ps_MentionAll (ParseMentions (m_Content msg)) \<or> rm_Account m \<in> set (ps_Accounts (ParseMentions (m_Content msg)))"

definition takes_part :: "Message \<Rightarrow> string list \<Rightarrow> string \<Rightarrow> Member \<Rightarrow> bool" where
  "takes_part msg followers author m \<longleftrightarrow> m_ThreadParentMessageID msg = '''' \<or> m_TShow msg \<or> rm_Account m \<in> set followers \<or> rm_Account m = author \<or> mentioned_in msg m"

definition concerned :: "Message \<Rightarrow> string list \<times> int option \<times> string \<Rightarrow> Member \<Rightarrow> bool" where
  "concerned msg ctx m \<longleftrightarrow> (case ctx of (followers, parentCreatedAt, author) \<Rightarrow>
     rm_ID m \<noteq> m_UserID msg \<and> \<not> rm_Muted m \<and> can_see msg parentCreatedAt m \<and> takes_part msg followers author m)"

definition addressed :: "HandlerDeps \<Rightarrow> Message \<Rightarrow> Member list \<Rightarrow> Member \<Rightarrow> bool" where
  "addressed h msg members m \<longleftrightarrow> hd_Hook h msg m \<noteq> Inr False \<and> \<not> rm_IsBot m \<and>
     (rm_RoomType (hd members) \<in> {RoomTypeDM, RoomTypeBotDM} \<or> mentioned_in msg m \<or> int (length members) \<le> hd_LargeRoomThreshold h)"

text \<open>The settings and the presence of the account, as the two lookups over the addressed accounts gave them.\<close>

definition reachable_now :: "notifSettings option \<Rightarrow> PresenceStatus option \<Rightarrow> string \<Rightarrow> bool" where
  "reachable_now settings presence sender \<longleftrightarrow>
     (\<exists>ns. settings = Some ns \<and> ns_allowPriority ns \<and> sender \<noteq> '''' \<and> sender \<in> set (ns_priorityContacts ns))
     \<or> ((\<forall>ns. settings = Some ns \<longrightarrow> \<not> ns_muteAll ns)
        \<and> (presence \<in> {Some ''busy'', Some ''in-call''} \<longrightarrow> (\<exists>ns. settings = Some ns \<and> ns_showInCall ns)))"

definition push_list :: "HandlerDeps \<Rightarrow> Message \<Rightarrow> string list \<times> int option \<times> string \<Rightarrow> Member list \<Rightarrow> string list" where
  "push_list h msg ctx members =
     (let addressees = filter (\<lambda>m. concerned msg ctx m \<and> addressed h msg members m) members; accounts = map rm_Account addressees in
      sort (filter (\<lambda>a. reachable_now (hd_Settings h accounts a) (hd_Presence h accounts a) (m_UserAccount msg)) accounts))"

lemma in_audience_iff: "in_audience msg followers parentCreatedAt author m = concerned msg (followers, parentCreatedAt, author) m"
  by (auto simp: in_audience_def concerned_def Let_def isRestricted_def can_see_def takes_part_def Message_IsHiddenThreadReply_def IsHiddenThreadReply_def
      is_mentioned_def mentioned_in_def split: option.splits)

lemma is_candidate_iff:
  "is_candidate h msg (rm_RoomType (hd members)) (int (length members) > hd_LargeRoomThreshold h) m = addressed h msg members m"
  by (auto simp: is_candidate_def addressed_def hook_allows_def EligibleForPush_def isDirect_def is_mentioned_def mentioned_in_def Let_def split: sum.splits)

lemma shouldPush_iff:
  "shouldPush (case presence of None \<Rightarrow> '''' | Some p \<Rightarrow> p) (case settings of None \<Rightarrow> zero_settings | Some ns \<Rightarrow> ns)
     (isPriority (case settings of None \<Rightarrow> zero_settings | Some ns \<Rightarrow> ns) sender) = reachable_now settings presence sender"
  by (auto simp: shouldPush_def reachable_now_def isPriority_def isDND_def isPresenting_def nw_isInCall_def zero_settings_def split: option.splits)

lemma survivors_push_list:
  "survivors_of h msg (filter (is_candidate h msg (rm_RoomType (hd members)) (int (length members) > hd_LargeRoomThreshold h))
      (filter (in_audience msg followers parentCreatedAt author) members)) = push_list h msg (followers, parentCreatedAt, author) members"
  by (simp add: survivors_of_def push_list_def Let_def is_candidate_iff in_audience_iff shouldPush_iff filter_map o_def conj_commute)

section \<open>Batches\<close>

lemma concat_split_chunks: "0 < k \<Longrightarrow> concat (split_chunks k xs) = xs"
proof (induction k xs rule: split_chunks.induct)
  case (1 k xs)
  then show ?case by (subst split_chunks.simps) simp
qed

lemma split_chunks_bound: "c \<in> set (split_chunks k xs) \<Longrightarrow> length c \<le> k \<and> c \<noteq> []"
proof (induction k xs rule: split_chunks.induct)
  case (1 k xs)
  from 1(2) 1(1) show ?case unfolding split_chunks.simps [of k xs] by (auto split: if_splits)
qed

lemma batch_event_fields [simp]:
  "pn_ID (batch_event h msg rt u i b) = m_ID msg @ ''-b'' @ Itoa (int i)" "pn_Accounts (batch_event h msg rt u i b) = b"
  by (simp_all add: batch_event_def)

lemma emit_loop_events:
  "snd (emit_loop h msg rt u i bs) = map (\<lambda>k. batch_event h msg rt u (i + k) (bs ! k)) [0..<length bs]"
proof (induction bs arbitrary: i)
  case (Cons b bs)
  have "map (\<lambda>k. batch_event h msg rt u (i + k) ((b # bs) ! k)) [0..<length (b # bs)]
      = batch_event h msg rt u i b # map (\<lambda>k. batch_event h msg rt u (i + 1 + k) (bs ! k)) [0..<length bs]"
    by (simp add: upt_conv_Cons map_Suc_upt [symmetric] del: upt_Suc)
  then show ?case using Cons [of "i + 1"] by (simp add: Let_def case_prod_unfold)
qed simp

lemma emit_loop_errs:
  "fst (emit_loop h msg rt u i bs) = List.map_filter (\<lambda>k. map_option (Wrapf (''emit push batch '' @ Itoa (int (i + k)))) (hd_Emitter h (i + k) (batch_event h msg rt u (i + k) (bs ! k)))) [0..<length bs]"
proof (induction bs arbitrary: i)
  case (Cons b bs)
  then show ?case
    by (simp add: Let_def case_prod_unfold upt_conv_Cons map_Suc_upt [symmetric] map_filter_simps del: upt_Suc split: option.splits)
       (auto simp: List.map_filter_def filter_map o_def add_ac)
qed (simp add: map_filter_simps)

lemma emit_loop_failure:
  assumes "k < length bs" "hd_Emitter h (i + k) (batch_event h msg rt u (i + k) (bs ! k)) = Some e"
  shows "\<exists>x \<in> set (fst (emit_loop h msg rt u i bs)). IsPermanent x = IsPermanent e"
proof -
  have "Wrapf (''emit push batch '' @ Itoa (int (i + k))) e \<in> set (fst (emit_loop h msg rt u i bs))"
    unfolding emit_loop_errs List.map_filter_def using assms by force
  then show ?thesis by (rule bexI [rotated]) (simp add: IsPermanent_def)
qed

section \<open>The handler\<close>

lemma push_to_emits:
  assumes "push_to h msg members aud = (err, evts)"
  shows "\<exists>rt u. let bs = split_chunks (nat (hd_RecipientBatchSize h))
        (survivors_of h msg (filter (is_candidate h msg (rm_RoomType (hd members)) (int (length members) > hd_LargeRoomThreshold h)) aud)) in
     err = emit_result msg (fst (emit_loop h msg rt u 0 bs)) \<and> evts = snd (emit_loop h msg rt u 0 bs)"
proof -
  let ?sv = "survivors_of h msg (filter (is_candidate h msg (rm_RoomType (hd members)) (int (length members) > hd_LargeRoomThreshold h)) aud)"
  let ?u = "fetchUnreadCounts h (m_RoomID msg) (map rm_Account aud) (foldl (\<lambda>mp m. mp(rm_Account m \<mapsto> rm_HomeSiteID m)) Map.empty aud)"
  let ?bs = "split_chunks (nat (hd_RecipientBatchSize h)) ?sv"
  have "err = emit_result msg (fst (emit_loop h msg (rm_RoomType (hd members)) ?u 0 ?bs)) \<and> evts = snd (emit_loop h msg (rm_RoomType (hd members)) ?u 0 ?bs)"
    using assms unfolding push_to_def Let_def case_prod_unfold by (cases "?sv = []") (auto simp: emit_result_def)
  then show ?thesis unfolding Let_def by blast
qed

text \<open>What a delivery that gets as far as the recipients does.\<close>

lemma handle_pushes:
  assumes "hd_decode h data = Some evt" "ev_Event evt = EventCreated" "isNotifiable (m_Type (ev_Message evt))"
    and "GetMembers (hd_Members h) (hd_read h) (m_RoomID (ev_Message evt)) s = (Inr members, s')" "thread_context h evt = Inr ctx"
    and "HandleMessage h data s = (err, evts, s2)" "0 < hd_RecipientBatchSize h"
  shows "\<exists>rt u. let bs = split_chunks (nat (hd_RecipientBatchSize h)) (push_list h (ev_Message evt) ctx members) in
     err = emit_result (ev_Message evt) (fst (emit_loop h (ev_Message evt) rt u 0 bs)) \<and> evts = snd (emit_loop h (ev_Message evt) rt u 0 bs)"
proof -
  obtain followers parentCreatedAt author where ctx: "ctx = (followers, parentCreatedAt, author)" by (cases ctx) auto
  let ?msg = "ev_Message evt" and ?aud = "filter (in_audience (ev_Message evt) followers parentCreatedAt author) members"
  have sys: "m_Type ?msg \<notin> {MessageTypeMembersAdded, MessageTypeMemberLeft, MessageTypeMemberRemoved}"
    using assms(3) by (auto simp: isNotifiable_def IsSystemMessageType_def systemMessageTypes_def)
  show ?thesis
  proof (cases "members = [] \<or> ?aud = []")
    case True
    then have "err = None \<and> evts = []" using assms sys ctx by (auto simp: HandleMessage_def Let_def split: if_splits)
    moreover have "push_list h ?msg ctx members = []"
      using True by (auto simp: push_list_def ctx in_audience_iff [symmetric] filter_empty_conv Let_def)
    ultimately show ?thesis by (simp add: emit_result_def)
  next
    case False
    then have run: "(err, evts) = push_to h ?msg members ?aud"
      using assms sys ctx by (auto simp: HandleMessage_def Let_def split: if_splits prod.splits)
    have "survivors_of h ?msg (filter (is_candidate h ?msg (rm_RoomType (hd members)) (int (length members) > hd_LargeRoomThreshold h)) ?aud)
        = push_list h ?msg ctx members" unfolding ctx by (rule survivors_push_list)
    then show ?thesis using push_to_emits [OF run [symmetric]] unfolding Let_def by simp
  qed
qed

text \<open>C12: The pushes name exactly the members that deserve one, in the order of their accounts: when the member list and the thread of a new
  message were read, the accounts of the batches that are tried, put together, are the sorted list of the members the rule picks, and no
  batch is larger than the cap, whatever becomes of the batches.\<close>

theorem push_recipients_exact:
  assumes "hd_decode h data = Some evt" and "ev_Event evt = EventCreated" and "isNotifiable (m_Type (ev_Message evt))"
    and "GetMembers (hd_Members h) (hd_read h) (m_RoomID (ev_Message evt)) s = (Inr members, s')" and "thread_context h evt = Inr ctx"
    and "HandleMessage h data s = (err, evts, s2)" and "0 < hd_RecipientBatchSize h"
  shows "concat (map pn_Accounts evts) = push_list h (ev_Message evt) ctx members
    \<and> list_all (\<lambda>e. pn_Accounts e \<noteq> [] \<and> int (length (pn_Accounts e)) \<le> hd_RecipientBatchSize h) evts"
proof -
  let ?bs = "split_chunks (nat (hd_RecipientBatchSize h)) (push_list h (ev_Message evt) ctx members)"
  obtain rt u where e: "evts = snd (emit_loop h (ev_Message evt) rt u 0 ?bs)" using handle_pushes [OF assms] by (auto simp: Let_def)
  have acc: "map pn_Accounts evts = ?bs" by (simp add: e emit_loop_events o_def map_nth)
  have "concat (map pn_Accounts evts) = push_list h (ev_Message evt) ctx members" unfolding acc using assms(7) by (simp add: concat_split_chunks)
  moreover have "\<forall>b \<in> set (map pn_Accounts evts). b \<noteq> [] \<and> int (length b) \<le> hd_RecipientBatchSize h"
    unfolding acc using split_chunks_bound assms(7) by fastforce
  ultimately show ?thesis by (simp add: list_all_iff)
qed

lemma push_to_reached:
  assumes "HandleMessage h data s = (err, evts, s')" "evts \<noteq> []"
  shows "\<exists>evt members aud. hd_decode h data = Some evt \<and> push_to h (ev_Message evt) members aud = (err, evts)"
proof -
  obtain evt where evt: "hd_decode h data = Some evt" using assms by (cases "hd_decode h data") (auto simp: HandleMessage_def)
  define s1 where "s1 = (if m_Type (ev_Message evt) \<in> {MessageTypeMembersAdded, MessageTypeMemberLeft, MessageTypeMemberRemoved}
      then Lookup_Invalidate (hd_Members h) (hd_gone h) (m_RoomID (ev_Message evt)) s else s)"
  obtain r s2 where get: "GetMembers (hd_Members h) (hd_read h) (m_RoomID (ev_Message evt)) s1 = (r, s2)" by fastforce
  have "\<exists>members aud. push_to h (ev_Message evt) members aud = (err, evts)"
    using assms(1) [unfolded HandleMessage_def evt option.case Let_def, folded s1_def, unfolded get prod.case] assms(2)
    by (auto split: if_splits sum.splits prod.splits)
  then show ?thesis using evt by blast
qed

text \<open>C15: A message that is acknowledged leaves no batch behind that a retry could still deliver: if a delivery that is not of a migrated message is
  acknowledged, every batch it tried was handed over or failed with a permanent error, such as a batch above the broker's limit.\<close>

theorem acknowledged_batches_final:
  assumes "notify_deliver h rnd meta False data s = (Ack, evts, s')" and "k < length evts" and "hd_Emitter h k (evts ! k) = Some e"
  shows "IsPermanent e \<noteq> None"
proof -
  obtain err where run: "HandleMessage h data s = (err, evts, s')"
    and ack: "settle rnd meta DefaultBackoff (map_option (\<lambda>e. if IsPermanent e \<noteq> None then PermanentErr else TransientErr) err) = Ack"
    using assms(1) by (auto simp: notify_deliver_def split: prod.splits)
  have perm: "err = None \<or> (\<exists>x. err = Some x \<and> IsPermanent x \<noteq> None)"
    using ack by (cases err) (auto simp: settle_def split: if_splits)
  have ne: "evts \<noteq> []" using assms(2) by auto
  obtain evt members aud where "hd_decode h data = Some evt" and push: "push_to h (ev_Message evt) members aud = (err, evts)"
    using push_to_reached [OF run ne] by blast
  define msg where "msg = ev_Message evt"
  obtain rt u bs where e: "err = emit_result msg (fst (emit_loop h msg rt u 0 bs))" "evts = snd (emit_loop h msg rt u 0 bs)"
    using push_to_emits [OF push] unfolding Let_def msg_def by blast
  have k: "k < length bs" "evts ! k = batch_event h msg rt u k (bs ! k)" using assms(2) by (simp_all add: e(2) emit_loop_events)
  then obtain x where x: "x \<in> set (fst (emit_loop h msg rt u 0 bs))" "IsPermanent x = IsPermanent e"
    using emit_loop_failure [of k bs h 0 msg rt u e] assms(3) by auto
  have "allBatchErrsPermanent (fst (emit_loop h msg rt u 0 bs))"
    using perm e(1) x(1) by (auto simp: emit_result_def Let_def IsPermanent_def split: if_splits)
  then show ?thesis using x unfolding allBatchErrsPermanent_def by metis
qed

section \<open>Redelivery and deduplication\<close>

text \<open>The push stream keeps one event per id: a publish whose id is there already is confirmed and stores nothing.\<close>

definition push_stream_add :: "PushNotificationEvent list \<Rightarrow> PushNotificationEvent \<Rightarrow> PushNotificationEvent list" where
  "push_stream_add st e = (if pn_ID e \<in> pn_ID ` set st then st else st @ [e])"

text \<open>One delivery of a message: the handler's batches, and of them those that reach the stream. A batch may reach it and still be reported as
  failed, when the confirmation is lost.\<close>

definition delivered_batches :: "string \<Rightarrow> HandlerDeps \<times> valkey \<times> (nat \<Rightarrow> bool) \<Rightarrow> PushNotificationEvent list" where
  "delivered_batches data d = (case d of (h, s, landed) \<Rightarrow> case HandleMessage h data s of (_, evts, _) \<Rightarrow>
     map (\<lambda>k. evts ! k) (filter landed [0..<length evts]))"

definition push_stream :: "string \<Rightarrow> (HandlerDeps \<times> valkey \<times> (nat \<Rightarrow> bool)) list \<Rightarrow> PushNotificationEvent list" where
  "push_stream data ds = foldl push_stream_add [] (concat (map (delivered_batches data) ds))"

text \<open>The recipients a delivery names.\<close>

definition recipients_of :: "string \<Rightarrow> HandlerDeps \<Rightarrow> valkey \<Rightarrow> string list" where
  "recipients_of data h s = (case HandleMessage h data s of (_, evts, _) \<Rightarrow> concat (map pn_Accounts evts))"

lemma handler_batches:
  assumes "HandleMessage h data s = (err, evts, s')" "0 < hd_RecipientBatchSize h" "hd_decode h data = Some evt"
  shows "map pn_Accounts evts = split_chunks (nat (hd_RecipientBatchSize h)) (recipients_of data h s)"
    and "map pn_ID evts = map (\<lambda>k. m_ID (ev_Message evt) @ ''-b'' @ Itoa (int k)) [0..<length evts]"
    and "err = None \<Longrightarrow> k < length evts \<Longrightarrow> hd_Emitter h k (evts ! k) = None"
proof -
  have ex: "\<exists>rt u rs. err = emit_result (ev_Message evt) (fst (emit_loop h (ev_Message evt) rt u 0 (split_chunks (nat (hd_RecipientBatchSize h)) rs)))
      \<and> evts = snd (emit_loop h (ev_Message evt) rt u 0 (split_chunks (nat (hd_RecipientBatchSize h)) rs))" if "evts \<noteq> []"
    using push_to_reached [OF assms(1) that] assms(3) push_to_emits unfolding Let_def by (metis option.inject)
  show ids: "map pn_ID evts = map (\<lambda>k. m_ID (ev_Message evt) @ ''-b'' @ Itoa (int k)) [0..<length evts]"
    using ex by (cases "evts = []") (auto simp: emit_loop_events o_def)
  show "map pn_Accounts evts = split_chunks (nat (hd_RecipientBatchSize h)) (recipients_of data h s)"
  proof (cases "evts = []")
    case True
    then show ?thesis using assms(1) by (simp add: recipients_of_def)
  next
    case False
    then obtain rt u rs where e: "evts = snd (emit_loop h (ev_Message evt) rt u 0 (split_chunks (nat (hd_RecipientBatchSize h)) rs))" using ex by blast
    have "map pn_Accounts evts = split_chunks (nat (hd_RecipientBatchSize h)) rs" by (simp add: e emit_loop_events o_def map_nth)
    then show ?thesis using assms(1, 2) by (simp add: recipients_of_def concat_split_chunks)
  qed
  show "hd_Emitter h k (evts ! k) = None" if none: "err = None" and k: "k < length evts"
  proof (rule ccontr)
    assume "hd_Emitter h k (evts ! k) \<noteq> None"
    then obtain e where fail: "hd_Emitter h k (evts ! k) = Some e" by blast
    have "evts \<noteq> []" using k by auto
    then obtain rt u bs where e: "err = emit_result (ev_Message evt) (fst (emit_loop h (ev_Message evt) rt u 0 bs))"
      "evts = snd (emit_loop h (ev_Message evt) rt u 0 bs)" using ex by blast
    have at_k: "k < length bs" "evts ! k = batch_event h (ev_Message evt) rt u k (bs ! k)" using k by (simp_all add: e(2) emit_loop_events)
    have "fst (emit_loop h (ev_Message evt) rt u 0 bs) \<noteq> []"
      using emit_loop_failure [of k bs h 0 "ev_Message evt" rt u e] fail at_k by auto
    then show False using e(1) none by (simp add: emit_result_def Let_def split: if_splits)
  qed
qed

lemma push_stream_add_ids: "pn_ID ` set (foldl push_stream_add st es) = pn_ID ` set st \<union> pn_ID ` set es"
  by (induction es arbitrary: st) (auto simp: push_stream_add_def)

lemma push_stream_add_set: "set (foldl push_stream_add st es) \<subseteq> set st \<union> set es"
proof (induction es arbitrary: st)
  case (Cons e es)
  show ?case using Cons [of "push_stream_add st e"] by (auto simp: push_stream_add_def split: if_splits)
qed simp

lemma push_stream_add_distinct: "distinct (map pn_ID st) \<Longrightarrow> distinct (map pn_ID (foldl push_stream_add st es))"
  by (induction es arbitrary: st) (auto simp: push_stream_add_def)

text \<open>A list of events with distinct ids taken from numbered batches holds every batch it has exactly once.\<close>

lemma numbered_batches:
  assumes "distinct (map pn_ID st)" "inj_on ident {..<length bs}"
    and "\<forall>e \<in> set st. \<exists>k < length bs. pn_ID e = ident k \<and> pn_Accounts e = bs ! k"
    and "\<forall>k < length bs. ident k \<in> pn_ID ` set st"
  shows "mset (concat (map pn_Accounts st)) = mset (concat bs)"
proof -
  define num where "num i = the_inv_into {..<length bs} ident i" for i
  have num: "num (ident k) = k" if "k < length bs" for k
    using that assms(2) by (simp add: num_def the_inv_into_f_f)
  have acc: "map pn_Accounts st = map (\<lambda>i. bs ! num i) (map pn_ID st)" using assms(3) num by force
  have "set (map pn_ID st) = set (map ident [0..<length bs])" using assms(3, 4) by force
  moreover have "distinct (map ident [0..<length bs])" using assms(2) by (simp add: distinct_map lessThan_atLeast0)
  ultimately have "mset (map pn_ID st) = mset (map ident [0..<length bs])" using assms(1) set_eq_iff_mset_eq_distinct by blast
  then have "mset (map pn_Accounts st) = mset (map (\<lambda>i. bs ! num i) (map ident [0..<length bs]))" unfolding acc by (metis mset_map)
  also have "map (\<lambda>i. bs ! num i) (map ident [0..<length bs]) = bs" using num by (intro nth_equalityI) auto
  finally have "mset (map pn_Accounts st) = mset bs" .
  then show ?thesis by (metis mset_concat sum_mset_sum_list mset_map)
qed

lemma delivered_numbered:
  assumes "hd_decode h data = Some evt" "0 < hd_RecipientBatchSize h" "e \<in> set (delivered_batches data (h, s, landed))"
  defines "bs \<equiv> split_chunks (nat (hd_RecipientBatchSize h)) (recipients_of data h s)"
  shows "\<exists>k < length bs. pn_ID e = m_ID (ev_Message evt) @ ''-b'' @ Itoa (int k) \<and> pn_Accounts e = bs ! k"
proof -
  obtain err evts s' where run: "HandleMessage h data s = (err, evts, s')" by (cases "HandleMessage h data s") auto
  note hb = handler_batches [OF run assms(2, 1)]
  obtain k where k: "k < length evts" "e = evts ! k" using assms(3) by (auto simp: delivered_batches_def run)
  have "length evts = length bs" using arg_cong [OF hb(1), of length] by (simp add: bs_def)
  moreover have "pn_ID e = m_ID (ev_Message evt) @ ''-b'' @ Itoa (int k)" using arg_cong [OF hb(2), of "\<lambda>xs. xs ! k"] k by simp
  moreover have "pn_Accounts e = bs ! k" using arg_cong [OF hb(1), of "\<lambda>xs. xs ! k"] k by (simp add: bs_def)
  ultimately show ?thesis using k(1) by auto
qed

lemma delivered_all:
  assumes "hd_decode h data = Some evt" "0 < hd_RecipientBatchSize h" "HandleMessage h data s = (None, evts, s')"
    and "\<forall>k. hd_Emitter h k (evts ! k) = None \<longrightarrow> landed k" and "k < length (split_chunks (nat (hd_RecipientBatchSize h)) (recipients_of data h s))"
  shows "m_ID (ev_Message evt) @ ''-b'' @ Itoa (int k) \<in> pn_ID ` set (delivered_batches data (h, s, landed))"
proof -
  note hb = handler_batches [OF assms(3, 2, 1)]
  have k: "k < length evts" using arg_cong [OF hb(1), of length] assms(5) by simp
  have "evts ! k \<in> set (delivered_batches data (h, s, landed))" using hb(3) [OF refl k] assms(4) k by (auto simp: delivered_batches_def assms(3))
  moreover have "pn_ID (evts ! k) = m_ID (ev_Message evt) @ ''-b'' @ Itoa (int k)" using arg_cong [OF hb(2), of "\<lambda>xs. xs ! k"] k by simp
  ultimately show ?thesis by (metis imageI)
qed

text \<open>C13: Redeliveries push exactly once. However many deliveries of a message come before, each with some batches lost and some stored although they
  were reported as failed, if every delivery names the same recipients, in batches of the same size, and the last one ends without an error,
  then the push stream holds every recipient of the message exactly as often as the list names it.\<close>

theorem redelivered_pushes_exactly_once:
  assumes "\<forall>(h, s, landed) \<in> set (ds @ [(h0, sz, landz)]).
        hd_decode h data = Some evt \<and> hd_RecipientBatchSize h = n \<and> recipients_of data h s = recipients" and "0 < n"
    and "HandleMessage h0 data sz = (None, evts, s')" and "\<forall>k. hd_Emitter h0 k (evts ! k) = None \<longrightarrow> landz k"
  shows "mset (concat (map pn_Accounts (push_stream data (ds @ [(h0, sz, landz)])))) = mset recipients"
proof -
  let ?ds = "ds @ [(h0, sz, landz)]" and ?ident = "\<lambda>k. m_ID (ev_Message evt) @ ''-b'' @ Itoa (int k)"
  define bs where "bs = split_chunks (nat n) recipients"
  have one: "hd_decode h data = Some evt" "hd_RecipientBatchSize h = n" "recipients_of data h s = recipients" if "(h, s, landed) \<in> set ?ds" for h s landed
    using assms(1) that by fastforce+
  have "mset (concat (map pn_Accounts (push_stream data ?ds))) = mset (concat bs)"
  proof (rule numbered_batches [where ident = ?ident])
    show "distinct (map pn_ID (push_stream data ?ds))" by (simp add: push_stream_def push_stream_add_distinct del: map_append)
    show "inj_on ?ident {..<length bs}" by (rule inj_onI) (simp add: Itoa_eq)
    show "\<forall>e \<in> set (push_stream data ?ds). \<exists>k < length bs. pn_ID e = ?ident k \<and> pn_Accounts e = bs ! k"
    proof
      fix e
      assume "e \<in> set (push_stream data ?ds)"
      then have "e \<in> set (concat (map (delivered_batches data) ?ds))" using push_stream_add_set unfolding push_stream_def by fastforce
      then obtain h s landed where d: "(h, s, landed) \<in> set ?ds" "e \<in> set (delivered_batches data (h, s, landed))" by auto
      show "\<exists>k < length bs. pn_ID e = ?ident k \<and> pn_Accounts e = bs ! k"
        using delivered_numbered [OF one(1) [OF d(1)] _ d(2)] one [OF d(1)] assms(2) by (simp add: bs_def)
    qed
    have last: "(h0, sz, landz) \<in> set ?ds" by simp
    show "\<forall>k < length bs. ?ident k \<in> pn_ID ` set (push_stream data ?ds)"
      using delivered_all [OF one(1) [OF last] _ assms(3, 4)] one [OF last] assms(2)
      by (simp add: bs_def push_stream_def push_stream_add_ids image_Un del: foldl_append)
  qed
  then show ?thesis using assms(2) by (simp add: bs_def concat_split_chunks)
qed

section \<open>A room of four\<close>

definition demo_member :: "string \<Rightarrow> string \<Rightarrow> Member" where
  "demo_member u account = \<lparr>rm_ID = u, rm_Account = account, rm_RoomType = ''channel'', rm_IsBot = False, rm_Muted = False, rm_HistorySharedSince = None,
     rm_HomeSiteID = '''', rm_IsSubscribed = True\<rparr>"

definition demo_push_event :: MessageEvent where
  "demo_push_event = \<lparr>ev_Event = EventCreated,
     ev_Message = empty_Message\<lparr>m_ID := ''m1'', m_RoomID := ''r1'', m_UserID := ''u0'', m_UserAccount := ''dan'', m_Content := ''hello''\<rparr>,
     ev_SiteID = ''s1'', ev_ReactionDelta = None, ev_Timestamp = 1, ev_NewTCount = None, ev_NewThreadLastMsgAt = None,
     ev_QuotedParentUnverified = False, ev_ThreadParentSenderAccount = '''', ev_PreviewMessage = None\<rparr>"

text \<open>A handler with batches of one recipient, for given presences and a given emitter.\<close>

definition demo_push_handler :: "(string \<rightharpoonup> PresenceStatus) \<Rightarrow> (nat \<Rightarrow> goerr option) \<Rightarrow> HandlerDeps" where
  "demo_push_handler presence emit = NewHandler
     \<lparr>hd_Members = NewLookup False 0 \<lparr>enc_entry = (\<lambda>_. None), dec_entry = (\<lambda>_. None)\<rparr> 0,
      hd_read = demo_read 1 (Inr [demo_member ''u0'' ''dan'', demo_member ''u3'' ''carol'', demo_member ''u1'' ''alice'', demo_member ''u2'' ''bob'']),
      hd_gone = (\<lambda>_. False), hd_Followers = (\<lambda>_. Inr []), hd_Parent = (\<lambda>_ _ _ _. Inl (Raw ''none'')), hd_Presence = (\<lambda>_. presence),
      hd_Settings = (\<lambda>_. Map.empty), hd_Hook = (\<lambda>_ _. Inr True), hd_Emitter = (\<lambda>k _. emit k), hd_RoomMeta = None, hd_MentionNames = None,
      hd_BadgeClient = None, hd_LargeRoomThreshold = 0, hd_RecipientBatchSize = 1, hd_decode = (\<lambda>_. Some demo_push_event),
      hd_decodeAttachment = (\<lambda>_. None), hd_now = 1, hd_rfc3339 = (\<lambda>_. ''''), hd_attempt = Some 1, hd_order = id\<rparr>"

lemma demo_fields [simp]:
  "hd_decode (demo_push_handler p emit) data = Some demo_push_event" "hd_RecipientBatchSize (demo_push_handler p emit) = 1"
  "hd_Emitter (demo_push_handler p emit) k e = emit k"
  by (simp_all add: demo_push_handler_def NewHandler_def)

definition in_call :: "string \<Rightarrow> string \<rightharpoonup> PresenceStatus" where "in_call a = [a \<mapsto> ''in-call'']"

text \<open>With alice in a call, the message reaches bob and carol.\<close>

theorem push_recipients_exact_witness:
  "concat (map pn_Accounts (fst (snd (HandleMessage (demo_push_handler (in_call ''alice'') (\<lambda>_. None)) [] (\<lambda>_. None))))) = [''bob'', ''carol'']"
proof -
  let ?h = "demo_push_handler (in_call ''alice'') (\<lambda>_. None)"
  let ?ms = "[demo_member ''u0'' ''dan'', demo_member ''u3'' ''carol'', demo_member ''u1'' ''alice'', demo_member ''u2'' ''bob'']"
  have get: "GetMembers (hd_Members ?h) (hd_read ?h) (m_RoomID (ev_Message demo_push_event)) (\<lambda>_. None) = (Inr ?ms, (\<lambda>_. None))"
    by (simp add: GetMembers_def demo_push_handler_def NewHandler_def NewLookup_def demo_read_def)
  have ctx: "thread_context ?h demo_push_event = Inr ([], None, '''')"
    by (simp add: thread_context_def demo_push_event_def empty_Message_def Message_IsHiddenThreadReply_def IsHiddenThreadReply_def)
  have kind: "ev_Event demo_push_event = EventCreated" "isNotifiable (m_Type (ev_Message demo_push_event))" by code_simp+
  obtain err evts s2 where run: "HandleMessage ?h [] (\<lambda>_. None) = (err, evts, s2)" by (cases "HandleMessage ?h [] (\<lambda>_. None)") auto
  have "concat (map pn_Accounts evts) = push_list ?h (ev_Message demo_push_event) ([], None, '''') ?ms"
    using push_recipients_exact [OF demo_fields(1) kind get ctx run] by simp
  also have "\<dots> = [''bob'', ''carol'']" unfolding survivors_push_list [symmetric] by code_simp
  finally show ?thesis by (simp add: run)
qed

definition too_large :: "nat \<Rightarrow> goerr option" where
  "too_large k = (if k = 0 then Some (PermErr (Error CodeInternal '''' ''too large'' Map.empty None)) else None)"

text \<open>The first batch is above the limit, the others are sent: the message is acknowledged.\<close>

theorem acknowledged_batches_final_witness:
  "fst (notify_deliver (demo_push_handler Map.empty too_large) (\<lambda>_. 0) (Some 1) False [] (\<lambda>_. None)) = Ack \<and> IsPermanent (the (too_large 0)) \<noteq> None"
proof -
  let ?h = "demo_push_handler Map.empty too_large"
  obtain st evts s' where run: "notify_deliver ?h (\<lambda>_. 0) (Some 1) False [] (\<lambda>_. None) = (st, evts, s')"
    by (cases "notify_deliver ?h (\<lambda>_. 0) (Some 1) False [] (\<lambda>_. None)") auto
  have ack: "fst (notify_deliver ?h (\<lambda>_. 0) (Some 1) False [] (\<lambda>_. None)) = Ack" by code_simp
  have "length (fst (snd (notify_deliver ?h (\<lambda>_. 0) (Some 1) False [] (\<lambda>_. None)))) = 3" by code_simp
  then have "0 < length evts" unfolding run by simp
  moreover have "hd_Emitter ?h 0 (evts ! 0) = Some (the (too_large 0))" by (simp add: too_large_def)
  ultimately have "IsPermanent (the (too_large 0)) \<noteq> None" using acknowledged_batches_final run ack by (metis fst_conv)
  then show ?thesis using ack by blast
qed

definition second_fails :: "nat \<Rightarrow> goerr option" where "second_fails k = (if k = 1 then Some (Raw ''timeout'') else None)"

text \<open>A first delivery loses its second batch; the redelivery completes it.\<close>

theorem redelivered_pushes_exactly_once_witness:
  "mset (concat (map pn_Accounts (push_stream []
     [(demo_push_handler (in_call ''alice'') second_fails, \<lambda>_. None, \<lambda>k. k = 0), (demo_push_handler (in_call ''alice'') (\<lambda>_. None), \<lambda>_. None, \<lambda>_. True)])))
   = mset [''bob'', ''carol'']"
proof -
  let ?h1 = "demo_push_handler (in_call ''alice'') second_fails" and ?h2 = "demo_push_handler (in_call ''alice'') (\<lambda>_. None)"
  obtain err evts s' where run: "HandleMessage ?h2 [] (\<lambda>_. None) = (err, evts, s')" by (cases "HandleMessage ?h2 [] (\<lambda>_. None)") auto
  have "fst (HandleMessage ?h2 [] (\<lambda>_. None)) = None" by code_simp
  then have ok: "HandleMessage ?h2 [] (\<lambda>_. None) = (None, evts, s')" by (simp add: run)
  have r1: "recipients_of [] ?h1 (\<lambda>_. None) = [''bob'', ''carol'']" by code_simp
  have r2: "recipients_of [] ?h2 (\<lambda>_. None) = [''bob'', ''carol'']" by code_simp
  have "mset (concat (map pn_Accounts (push_stream [] ([(?h1, \<lambda>_. None, \<lambda>k. k = 0)] @ [(?h2, \<lambda>_. None, \<lambda>_. True)])))) = mset [''bob'', ''carol'']"
    by (rule redelivered_pushes_exactly_once [OF _ _ ok, where evt = demo_push_event and n = 1]) (simp_all add: r1 r2)
  then show ?thesis by simp
qed

text \<open>When the recipients change between two deliveries the numbered batches shift: alice leaves her call after the first delivery, so the redelivery
  names alice, bob and carol, but its first batch has the id under which bob was pushed. The delivery ends without an error, alice is
  never pushed, and bob is pushed twice.\<close>

theorem changed_recipients_shift_batches:
  "recipients_of [] (demo_push_handler Map.empty (\<lambda>_. None)) (\<lambda>_. None) = [''alice'', ''bob'', ''carol'']
   \<and> fst (HandleMessage (demo_push_handler Map.empty (\<lambda>_. None)) [] (\<lambda>_. None)) = None
   \<and> concat (map pn_Accounts (push_stream []
       [(demo_push_handler (in_call ''alice'') second_fails, \<lambda>_. None, \<lambda>k. k = 0), (demo_push_handler Map.empty (\<lambda>_. None), \<lambda>_. None, \<lambda>_. True)]))
     = [''bob'', ''bob'', ''carol'']"
proof (intro conjI)
  show "recipients_of [] (demo_push_handler Map.empty (\<lambda>_. None)) (\<lambda>_. None) = [''alice'', ''bob'', ''carol'']" by code_simp
  show "fst (HandleMessage (demo_push_handler Map.empty (\<lambda>_. None)) [] (\<lambda>_. None)) = None" by code_simp
  show "concat (map pn_Accounts (push_stream []
       [(demo_push_handler (in_call ''alice'') second_fails, \<lambda>_. None, \<lambda>k. k = 0), (demo_push_handler Map.empty (\<lambda>_. None), \<lambda>_. None, \<lambda>_. True)]))
     = [''bob'', ''bob'', ''carol'']" by code_simp
qed

end
