(* ===== verification/Hist_Service.thy ===== *)
theory Hist_Service
  imports Bucket_Table Page_Fit Mention Gatekeeper Cass_Rows
begin

text \<open>
  The reads of \<open>history-service\<close> (\<open>src/history-service/internal/service\<close>): who may read a room and from when on, the bounds of
  the walk, the five ways to read messages, the redaction of quotes, and trimming a page to the size of a reply. The walk itself is
  in \<open>Bucket_Walk\<close>. Times are milliseconds; the record \<open>HistoryService\<close> holds the collaborators, with the answers of MongoDB,
  the clock, the JSON size of a row and the rows Cassandra returns as functions.
\<close>

section \<open>Messages\<close>

record hmsg =
  hm_RoomID :: string
  hm_CreatedAt :: int
  hm_MessageID :: string
  hm_Sender :: CassParticipant
  hm_Msg :: string
  hm_Mentions :: "CassParticipant list"
  hm_Attachments :: "string list"
  hm_DecodedAttachments :: "Attachment list"
  hm_Card :: "Card option"
  hm_CardAction :: "CardAction option"
  hm_TShow :: bool
  hm_TCount :: "int option"
  hm_ThreadLastMsgAt :: "int option"
  hm_ThreadParentID :: string
  hm_ThreadParentCreatedAt :: "int option"
  hm_QuotedParentMessage :: "QuotedParentMessage option"
  hm_VisibleTo :: string
  hm_Reactions :: "((string \<times> string) \<times> string) list"
  hm_Deleted :: bool
  hm_Type :: string
  hm_SysMsgData :: string
  hm_SiteID :: string
  hm_EditedAt :: "int option"
  hm_UpdatedAt :: "int option"
  hm_EncPayload :: string
  hm_EncMeta :: "string option"
  hm_ThreadRoomID :: string
  hm_PinnedAt :: "int option"
  hm_PinnedBy :: "CassParticipant option"
  hm_Truncated :: bool

definition empty_quote :: QuotedParentMessage where
  "empty_quote = \<lparr>qp_MessageID = '''', qp_RoomID = '''', qp_Sender = no_participant, qp_CreatedAt = go_zero_time, qp_Msg = '''', qp_Mentions = [],
     qp_Attachments = [], qp_DecodedAttachments = [], qp_MessageLink = '''', qp_ThreadParentID = '''', qp_ThreadParentCreatedAt = None, qp_TShow = False\<rparr>"

section \<open>The service\<close>

type_synonym 'r thread_driver = "string \<Rightarrow> int \<Rightarrow> int \<Rightarrow> nat list \<Rightarrow> nat \<Rightarrow> 'r list \<times> nat list \<times> goerr option"

record 'r HistoryService =
  hs_repo :: "('r, hmsg) Repository"
  hs_byID :: "string \<Rightarrow> goerr + 'r option"
  hs_thread :: "'r thread_driver"
  hs_shared :: "string \<Rightarrow> string \<Rightarrow> goerr + int option \<times> bool"
  hs_minSeen :: "string \<Rightarrow> goerr + int option"
  hs_threadMinSeen :: "string \<Rightarrow> goerr + int option"
  hs_roomTimes :: "string \<Rightarrow> goerr + int \<times> int"
  hs_fallback :: "string \<Rightarrow> int \<times> bool"
  hs_users :: "(string list \<Rightarrow> mention_user list \<times> goerr option) option"
  hs_appNames :: "(string list \<Rightarrow> (string \<rightharpoonup> string) \<times> goerr option) option"
  hs_historyFloor :: int
  hs_pageBudget :: Budget
  hs_size :: "hmsg \<Rightarrow> nat option"
  hs_decode :: "string \<Rightarrow> Attachment option"
  hs_degradation :: "(string \<Rightarrow> goerr + int option) option"
  hs_siteID :: string
  hs_now :: int
  hs_ctxErr :: "goerr option"

definition incompleteSince :: "'r HistoryService \<Rightarrow> int option" where
  "incompleteSince s =
     (case hs_degradation s of None \<Rightarrow> None | Some read \<Rightarrow> (case read (hs_siteID s) of Inl _ \<Rightarrow> None | Inr since \<Rightarrow> since))"

definition defaultPageSize :: int where "defaultPageSize = 20"
definition surroundingPageSize :: int where "surroundingPageSize = 50"
definition maxPageSize :: int where "maxPageSize = 100"
definition pageEnvelope :: int where "pageEnvelope = 256"

definition page_limit :: "int \<Rightarrow> int \<Rightarrow> int" where
  "page_limit def limit = (let limit = (if limit \<le> 0 then def else limit) in if limit > maxPageSize then maxPageSize else limit)"

section \<open>Access\<close>

definition MessageOutsideAccessWindow :: Reason where "MessageOutsideAccessWindow = ''outside_access_window''"

definition hs_notSubscribed :: goerr where
  "hs_notSubscribed = Typed (Error CodeForbidden MessageNotSubscribed ''not subscribed to room'' Map.empty None)"

definition hs_outside :: "string \<Rightarrow> goerr" where
  "hs_outside what = Typed (Error CodeForbidden MessageOutsideAccessWindow (what @ '' is outside access window'') Map.empty None)"

definition hs_bad :: "string \<Rightarrow> goerr" where "hs_bad text = Typed (Error CodeBadRequest '''' text Map.empty None)"
definition hs_notFound :: "string \<Rightarrow> goerr" where "hs_notFound what = Typed (Error CodeNotFound '''' (what @ '' not found'') Map.empty None)"

definition getAccessSince :: "'r HistoryService \<Rightarrow> string \<Rightarrow> string \<Rightarrow> goerr + int option" where
  "getAccessSince s account roomID =
     (case hs_shared s account roomID of
        Inl e \<Rightarrow> Inl (Wrapf (''verifying room access for '' @ account @ ''/'' @ roomID) e)
      | Inr (accessSince, subscribed) \<Rightarrow> if \<not> subscribed then Inl hs_notSubscribed else Inr accessSince)"

definition Repository_GetMessageByID :: "'r HistoryService \<Rightarrow> string \<Rightarrow> goerr + hmsg option" where
  "Repository_GetMessageByID s messageID =
     (case hs_byID s messageID of
        Inl e \<Rightarrow> Inl (Wrapf (''querying message by id '' @ messageID) e)
      | Inr None \<Rightarrow> Inr None
      | Inr (Some row) \<Rightarrow>
          (case rp_decrypt (hs_repo s) row of Inl e \<Rightarrow> Inl (Wrapf (''querying message by id '' @ messageID) e) | Inr m \<Rightarrow> Inr (Some m)))"

definition findMessage :: "'r HistoryService \<Rightarrow> string \<Rightarrow> string \<Rightarrow> goerr + hmsg" where
  "findMessage s roomID messageID =
     (if messageID = '''' then Inl (hs_bad ''messageId is required'')
      else case Repository_GetMessageByID s messageID of
        Inl e \<Rightarrow> Inl (Wrapf (''retrieving message '' @ messageID) e)
      | Inr None \<Rightarrow> Inl (hs_notFound ''message'')
      | Inr (Some m) \<Rightarrow> if hm_RoomID m \<noteq> roomID then Inl (hs_notFound ''message'') else Inr m)"

section \<open>Quotes\<close>

definition UnavailableQuoteMsg :: string where "UnavailableQuoteMsg = ''This message is unavailable''"

definition quoteInaccessible :: "hmsg \<Rightarrow> QuotedParentMessage \<Rightarrow> int \<Rightarrow> bool" where
  "quoteInaccessible m q accessSince =
     (let tshowParentInaccessible = (hm_TShow m \<and> qp_ThreadParentID q \<noteq> '''' \<and>
            (case qp_ThreadParentCreatedAt q of None \<Rightarrow> False | Some t \<Rightarrow> t < accessSince));
          legacyTShowMissingParentTime = (hm_TShow m \<and> qp_ThreadParentID q \<noteq> '''' \<and> qp_ThreadParentCreatedAt q = None) in
      qp_CreatedAt q < accessSince \<or> tshowParentInaccessible \<or> legacyTShowMissingParentTime)"

definition redactUnavailableQuote :: "int option \<Rightarrow> hmsg \<Rightarrow> hmsg" where
  "redactUnavailableQuote accessSince m =
     (case accessSince of
        None \<Rightarrow> m
      | Some since \<Rightarrow>
          (case hm_QuotedParentMessage m of
             None \<Rightarrow> m
           | Some q \<Rightarrow>
               if quoteInaccessible m q since
               then m\<lparr>hm_QuotedParentMessage := Some (empty_quote\<lparr>qp_Msg := UnavailableQuoteMsg\<rparr>)\<rparr> else m))"

definition redactUnavailableQuotes :: "int option \<Rightarrow> hmsg list \<Rightarrow> hmsg list" where
  "redactUnavailableQuotes accessSince msgs = map (redactUnavailableQuote accessSince) msgs"

section \<open>Attachments and migrated system messages\<close>

definition decodeMessageAttachments :: "'r HistoryService \<Rightarrow> hmsg \<Rightarrow> hmsg" where
  "decodeMessageAttachments s m =
     m\<lparr>hm_DecodedAttachments := List.map_filter (hs_decode s) (hm_Attachments m),
       hm_QuotedParentMessage := map_option (\<lambda>q. q\<lparr>qp_DecodedAttachments := List.map_filter (hs_decode s) (qp_Attachments q)\<rparr>) (hm_QuotedParentMessage m)\<rparr>"

definition setDecodedAttachments :: "'r HistoryService \<Rightarrow> hmsg list \<Rightarrow> hmsg list" where
  "setDecodedAttachments s msgs = map (decodeMessageAttachments s) msgs"

definition legacyMembersRemovedType :: string where "legacyMembersRemovedType = ''members_removed''"
definition legacyMembersLeftType :: string where "legacyMembersLeftType = ''members_left''"
definition removedFromChannelSuffix :: string where "removedFromChannelSuffix = '' has been removed from the channel.''"

definition legacySysMsgTypes :: "(string \<times> string) list" where
  "legacySysMsgTypes = [(legacyMembersRemovedType, MessageTypeMemberRemoved), (legacyMembersLeftType, MessageTypeMemberLeft)]"

definition normalizeLegacySysMsgTypes :: "hmsg list \<Rightarrow> hmsg list" where
  "normalizeLegacySysMsgTypes msgs = map (\<lambda>m. case map_of legacySysMsgTypes (hm_Type m) of None \<Rightarrow> m | Some modern \<Rightarrow> m\<lparr>hm_Type := modern\<rparr>) msgs"

definition extractRemovedAccount :: "hmsg \<Rightarrow> string option" where
  "extractRemovedAccount m =
     (if hm_Type m \<noteq> legacyMembersRemovedType then None
      else if \<not> HasSuffix (hm_Msg m) removedFromChannelSuffix then None
      else let quoted = take (length (hm_Msg m) - length removedFromChannelSuffix) (hm_Msg m) in
        if length quoted < 3 \<or> \<not> HasPrefix quoted ''\"'' \<or> \<not> HasSuffix quoted ''\"'' then None
        else Some (take (length quoted - 2) (drop 1 quoted)))"

definition quoteRemoved :: "string \<Rightarrow> string" where
  "quoteRemoved name = ''\"'' @ name @ ''\"'' @ removedFromChannelSuffix"

definition removedMemberName :: "string \<Rightarrow> mention_user option \<Rightarrow> (string \<rightharpoonup> string) \<Rightarrow> string" where
  "removedMemberName account u appNames =
     (case appNames account of
        Some name \<Rightarrow> if name \<noteq> '''' then name
          else (case u of None \<Rightarrow> '''' | Some u \<Rightarrow> CombineWithFallback (mu_EngName u) (mu_ChineseName u) account)
      | None \<Rightarrow> (case u of None \<Rightarrow> '''' | Some u \<Rightarrow> CombineWithFallback (mu_EngName u) (mu_ChineseName u) account))"

definition appNamesFor :: "'r HistoryService \<Rightarrow> string list \<Rightarrow> (string \<rightharpoonup> string)" where
  "appNamesFor s accounts =
     (case hs_appNames s of
        None \<Rightarrow> Map.empty
      | Some look \<Rightarrow> (let bots = filter IsBot accounts in if bots = [] then Map.empty else fst (look bots)))"

fun distinct_first :: "string list \<Rightarrow> string list \<Rightarrow> string list" where
  "distinct_first [] seen = []"
| "distinct_first (a # rest) seen = (if a \<in> set seen then distinct_first rest seen else a # distinct_first rest (a # seen))"

definition resolveRemovedMemberNames :: "'r HistoryService \<Rightarrow> hmsg list \<Rightarrow> hmsg list" where
  "resolveRemovedMemberNames s msgs =
     (let accounts = distinct_first (List.map_filter extractRemovedAccount msgs) [] in
      if accounts = [] then msgs
      else
        let docs = (case hs_users s of None \<Rightarrow> Map.empty | Some find_users \<Rightarrow> users_by_account (fst (find_users accounts)));
            appNames = appNamesFor s accounts;
            names = (\<lambda>account. if account \<in> set accounts \<and> removedMemberName account (docs account) appNames \<noteq> ''''
                      then Some (removedMemberName account (docs account) appNames) else None) in
        map (\<lambda>m. case extractRemovedAccount m of None \<Rightarrow> m
                  | Some account \<Rightarrow> (case names account of None \<Rightarrow> m | Some name \<Rightarrow> m\<lparr>hm_Msg := quoteRemoved name\<rparr>)) msgs)"

definition normalizeLegacySysMsgs :: "'r HistoryService \<Rightarrow> hmsg list \<Rightarrow> hmsg list" where
  "normalizeLegacySysMsgs s msgs = normalizeLegacySysMsgTypes (resolveRemovedMemberNames s msgs)"

definition normalizeLegacySysMsg :: "'r HistoryService \<Rightarrow> hmsg \<Rightarrow> hmsg" where
  "normalizeLegacySysMsg s m = hd (normalizeLegacySysMsgs s [m])"

section \<open>Room times and the bounds of the walk\<close>

record RoomMeta =
  rmeta_LastMsgAt :: "int option"
  rmeta_CreatedAt :: "int option"

definition ErrNoDocuments :: goerr where "ErrNoDocuments = Raw ''mongo: no documents in result''"

definition clockSkewTolerance :: int where "clockSkewTolerance = 3600000"

text \<open>The first of January 2020.\<close>

definition minPlausibleEpoch :: int where "minPlausibleEpoch = 1577836800000"

definition walkBounds :: "'r HistoryService \<Rightarrow> int \<Rightarrow> int \<Rightarrow> int \<times> int" where
  "walkBounds s createdAt now =
     (let historyFloor = now - hs_historyFloor s in
      (now + clockSkewTolerance, if createdAt = go_zero_time \<or> createdAt < historyFloor then historyFloor else createdAt))"

definition clampToCeiling :: "int \<Rightarrow> int \<Rightarrow> int" where
  "clampToCeiling t now = (let ceiling = now + clockSkewTolerance in if t > ceiling then ceiling else t)"

definition sanitizeLastMsgAt :: "int option \<Rightarrow> int \<Rightarrow> int option" where
  "sanitizeLastMsgAt ms now =
     (case ms of None \<Rightarrow> None
      | Some t \<Rightarrow> if t < minPlausibleEpoch then None else if t > now + clockSkewTolerance then None else Some t)"

definition sanitizeCreatedAt :: "int option \<Rightarrow> int \<Rightarrow> int option" where
  "sanitizeCreatedAt ms now =
     (case ms of None \<Rightarrow> None | Some t \<Rightarrow> if t < minPlausibleEpoch then None else if t > now then None else Some t)"

definition fetchCreatedAt :: "'r HistoryService \<Rightarrow> string \<Rightarrow> string \<Rightarrow> goerr + int" where
  "fetchCreatedAt s roomID why =
     (case hs_roomTimes s roomID of
        Inl e \<Rightarrow> Inl (Wrapf (''resolve room times for '' @ roomID @ why) e)
      | Inr (_, created) \<Rightarrow> Inr created)"

definition resolveRoomTimes :: "'r HistoryService \<Rightarrow> string \<Rightarrow> RoomMeta option \<Rightarrow> int \<Rightarrow> goerr + int" where
  "resolveRoomTimes s roomID meta now =
     (case meta of
        None \<Rightarrow> fetchCreatedAt s roomID ''''
      | Some meta \<Rightarrow>
          (case sanitizeLastMsgAt (rmeta_LastMsgAt meta) now of
             None \<Rightarrow> fetchCreatedAt s roomID ''''
           | Some last_at \<Rightarrow>
               (case sanitizeCreatedAt (rmeta_CreatedAt meta) now of
                  None \<Rightarrow> Inr go_zero_time
                | Some created \<Rightarrow>
                    if created > last_at then fetchCreatedAt s roomID '' (consistency refetch)'' else Inr created)))"

definition resolveRoomTimesOrError :: "'r HistoryService \<Rightarrow> string \<Rightarrow> RoomMeta option \<Rightarrow> int \<Rightarrow> goerr + int" where
  "resolveRoomTimesOrError s roomID meta now =
     (case resolveRoomTimes s roomID meta now of
        Inr createdAt \<Rightarrow> Inr createdAt
      | Inl err \<Rightarrow>
          if err_is ErrNoDocuments err then Inl (hs_notFound ''room'')
          else case hs_ctxErr s of
            Some ctxErr \<Rightarrow> Inl (Wrapf (''resolve room times for '' @ roomID) ctxErr)
          | None \<Rightarrow> Inr (fst (hs_fallback s roomID)))"

text \<open>Both reads run at once; an error of the access check is reported first.\<close>

definition checkAccessAndRoomTimes :: "'r HistoryService \<Rightarrow> string \<Rightarrow> string \<Rightarrow> RoomMeta option \<Rightarrow> int \<Rightarrow> goerr + int option \<times> int" where
  "checkAccessAndRoomTimes s account roomID meta now =
     (case getAccessSince s account roomID of
        Inl accessErr \<Rightarrow> Inl accessErr
      | Inr accessSince \<Rightarrow>
          (case resolveRoomTimesOrError s roomID meta now of Inl rtErr \<Rightarrow> Inl rtErr | Inr createdAt \<Rightarrow> Inr (accessSince, createdAt)))"

definition millisToTime :: "int option \<Rightarrow> int" where
  "millisToTime millis = (case millis of None \<Rightarrow> go_zero_time | Some t \<Rightarrow> t)"

definition derefTime :: "int option \<Rightarrow> int" where "derefTime t = (case t of None \<Rightarrow> go_zero_time | Some t \<Rightarrow> t)"

definition timeMax :: "int \<Rightarrow> int \<Rightarrow> int" where
  "timeMax a b = (if a = go_zero_time then b else if b = go_zero_time then a else if a > b then a else b)"

definition hs_parsePageRequest :: "string \<Rightarrow> int \<Rightarrow> goerr + PageRequest" where
  "hs_parsePageRequest cursor limit =
     (case ParsePageRequest cursor limit of
        Inl err \<Rightarrow> Inl (Typed (Error CodeBadRequest '''' ''invalid pagination cursor'' Map.empty (Some err)))
      | Inr q \<Rightarrow> Inr q)"

section \<open>Trimming to the reply budget\<close>

definition stripRichContent :: "hmsg \<Rightarrow> hmsg" where
  "stripRichContent m = m\<lparr>hm_Mentions := [], hm_Attachments := [], hm_DecodedAttachments := [], hm_Card := None, hm_CardAction := None,
     hm_QuotedParentMessage := None, hm_Reactions := [], hm_SysMsgData := ''''\<rparr>"

definition blankOversize :: "hmsg \<Rightarrow> hmsg" where
  "blankOversize m = (stripRichContent m)\<lparr>hm_Msg := '''', hm_EncPayload := '''', hm_EncMeta := None, hm_Truncated := True\<rparr>"

text \<open>Blanking the rows from \<open>lo\<close> up to \<open>hi\<close>, in place.\<close>

definition blankRange :: "nat \<Rightarrow> nat \<Rightarrow> hmsg list \<Rightarrow> hmsg list" where
  "blankRange lo hi msgs = map (\<lambda>(i, m). if lo \<le> i \<and> i < hi then blankOversize m else m) (enumerate 0 msgs)"

fun run_back :: "int \<Rightarrow> hmsg list \<Rightarrow> nat \<Rightarrow> nat" where
  "run_back t msgs 0 = 0"
| "run_back t msgs (Suc i) = (if hm_CreatedAt (msgs ! i) = t then run_back t msgs i else Suc i)"

function run_on :: "int \<Rightarrow> hmsg list \<Rightarrow> nat \<Rightarrow> nat" where
  "run_on t msgs i = (if i < length msgs \<and> hm_CreatedAt (msgs ! i) = t then run_on t msgs (i + 1) else i)"
  by auto
termination
  by (relation "measure (\<lambda>(t, msgs, i). length msgs - i)") auto

declare run_on.simps [simp del]

definition timestampRun :: "hmsg list \<Rightarrow> nat \<Rightarrow> nat \<times> nat" where
  "timestampRun msgs i = (let at_i = hm_CreatedAt (msgs ! i) in (run_back at_i msgs i, run_on at_i msgs (i + 1)))"

definition fitPage :: "'r HistoryService \<Rightarrow> hmsg list \<Rightarrow> int \<Rightarrow> goerr + hmsg list \<times> bool" where
  "fitPage s msgs envelope =
     (case Fit (hs_size s) msgs (hs_pageBudget s) envelope of
        None \<Rightarrow> Inl (Wrapf ''fit history page'' (Raw ''size row''))
      | Some (kept, oversize) \<Rightarrow>
          (let msgs1 = (if oversize then blankRange 0 1 msgs else msgs) in
           if length kept = length msgs1 then Inr (msgs1, False)
           else case timestampRun msgs1 (length kept) of (start, stop) \<Rightarrow>
             if start = 0 then Inr (take stop (blankRange 0 stop msgs1), stop < length msgs1)
             else Inr (take start msgs1, start < length msgs1)))"

definition timestampBounds :: "hmsg list \<Rightarrow> nat \<Rightarrow> nat \<Rightarrow> nat \<Rightarrow> hmsg list \<times> nat \<times> nat" where
  "timestampBounds msgs lo hi pivot =
     (let pivot = min pivot (length msgs - 1);
          (msgs1, lo1) =
            (if lo > 0 \<and> hm_CreatedAt (msgs ! lo) = hm_CreatedAt (msgs ! (lo - 1)) then
               (case timestampRun msgs lo of (start, stop) \<Rightarrow>
                  if pivot < stop then (blankRange start pivot msgs, start) else (msgs, stop))
             else (msgs, lo)) in
      if hi < length msgs1 \<and> hm_CreatedAt (msgs1 ! (hi - 1)) = hm_CreatedAt (msgs1 ! hi) then
        (case timestampRun msgs1 (hi - 1) of (start, stop) \<Rightarrow>
           if pivot \<ge> start then (blankRange (pivot + 1) stop msgs1, lo1, stop) else (msgs1, lo1, start))
      else (msgs1, lo1, hi))"

definition fitWindow :: "'r HistoryService \<Rightarrow> hmsg list \<Rightarrow> nat \<Rightarrow> int \<Rightarrow> goerr + hmsg list \<times> nat \<times> nat \<times> bool" where
  "fitWindow s msgs pivot envelope =
     (case FitWindow (hs_size s) msgs (int pivot) (hs_pageBudget s) envelope of
        None \<Rightarrow> Inl (Wrapf ''fit surrounding window'' (Raw ''size row''))
      | Some (lo, hi, oversize) \<Rightarrow>
          (let msgs1 = (if oversize then blankRange lo (lo + 1) msgs else msgs) in
           case timestampBounds msgs1 lo hi pivot of (msgs2, lo2, hi2) \<Rightarrow> Inr (msgs2, lo2, hi2, lo2 > 0 \<or> hi2 < length msgs2)))"

section \<open>The reads\<close>

record LoadHistoryRequest =
  lhr_Before :: "int option"
  lhr_Limit :: int
  lhr_Meta :: "RoomMeta option"

record LoadHistoryResponse =
  lh_Messages :: "hmsg list"
  lh_HasNext :: bool
  lh_MinUserLastSeenAt :: "int option"
  lh_SizeLimited :: bool
  lh_IncompleteSince :: "int option"

text \<open>The time everybody has read up to; a failed read leaves it out.\<close>

definition readFloorInto :: "'r HistoryService \<Rightarrow> string \<Rightarrow> int option" where
  "readFloorInto s roomID = (case hs_minSeen s roomID of Inl _ \<Rightarrow> None | Inr t \<Rightarrow> t)"

definition render :: "'r HistoryService \<Rightarrow> int option \<Rightarrow> hmsg list \<Rightarrow> hmsg list" where
  "render s accessSince msgs = normalizeLegacySysMsgs s (setDecodedAttachments s (redactUnavailableQuotes accessSince msgs))"

definition read_back :: "'r HistoryService \<Rightarrow> int option \<Rightarrow> string \<Rightarrow> int \<Rightarrow> int \<Rightarrow> PageRequest \<Rightarrow> goerr + hmsg pageResult" where
  "read_back s accessSince roomID before walkFloor pageReq =
     (case accessSince of
        None \<Rightarrow> GetMessagesBefore (hs_repo s) roomID before walkFloor pageReq
      | Some since \<Rightarrow> GetMessagesBetweenDesc (hs_repo s) roomID since before pageReq)"

text \<open>The page that is read and the reply made of it, once the access and the creation time of the room are known.\<close>

definition history_page :: "'r HistoryService \<Rightarrow> int option \<Rightarrow> int \<Rightarrow> string \<Rightarrow> LoadHistoryRequest \<Rightarrow> goerr + hmsg pageResult" where
  "history_page s accessSince createdAt roomID req =
     (let now = hs_now s;
          before = millisToTime (lhr_Before req);
          before = (if before = go_zero_time then now else before);
          before = clampToCeiling before now in
      case hs_parsePageRequest '''' (page_limit defaultPageSize (lhr_Limit req)) of
        Inl err \<Rightarrow> Inl err
      | Inr pageReq \<Rightarrow> wrapf ''loading history'' (read_back s accessSince roomID before (snd (walkBounds s createdAt now)) pageReq))"

definition history_reply :: "'r HistoryService \<Rightarrow> int option \<Rightarrow> string \<Rightarrow> hmsg pageResult \<Rightarrow> goerr + LoadHistoryResponse" where
  "history_reply s accessSince roomID page =
     (case fitPage s (render s accessSince (pg_Rows page)) pageEnvelope of
        Inl err \<Rightarrow> Inl err
      | Inr (kept, trimmed) \<Rightarrow>
          Inr \<lparr>lh_Messages = kept, lh_HasNext = ((pg_HasNext page \<or> trimmed) \<and> kept \<noteq> []),
            lh_MinUserLastSeenAt = readFloorInto s roomID, lh_SizeLimited = trimmed, lh_IncompleteSince = incompleteSince s\<rparr>)"

definition LoadHistory :: "'r HistoryService \<Rightarrow> string \<Rightarrow> string \<Rightarrow> LoadHistoryRequest \<Rightarrow> goerr + LoadHistoryResponse" where
  "LoadHistory s account roomID req =
     (case checkAccessAndRoomTimes s account roomID (lhr_Meta req) (hs_now s) of
        Inl err \<Rightarrow> Inl err
      | Inr (accessSince, createdAt) \<Rightarrow>
          (case history_page s accessSince createdAt roomID req of Inl err \<Rightarrow> Inl err | Inr page \<Rightarrow> history_reply s accessSince roomID page))"

record LoadNextMessagesRequest =
  lnr_After :: "int option"
  lnr_Limit :: int
  lnr_Cursor :: string
  lnr_Meta :: "RoomMeta option"

record LoadNextMessagesResponse =
  ln_Messages :: "hmsg list"
  ln_NextCursor :: string
  ln_HasNext :: bool
  ln_MinUserLastSeenAt :: "int option"
  ln_IncompleteSince :: "int option"

definition LoadNextMessages :: "'r HistoryService \<Rightarrow> string \<Rightarrow> string \<Rightarrow> LoadNextMessagesRequest \<Rightarrow> goerr + LoadNextMessagesResponse" where
  "LoadNextMessages s account roomID req =
     (let now = hs_now s in
      case checkAccessAndRoomTimes s account roomID (lnr_Meta req) now of
        Inl err \<Rightarrow> Inl err
      | Inr (accessSince, createdAt) \<Rightarrow>
          (case walkBounds s createdAt now of (walkCeiling, walkFloor) \<Rightarrow>
             (let lowerBound = timeMax (millisToTime (lnr_After req)) (derefTime accessSince) in
              case hs_parsePageRequest (lnr_Cursor req) (page_limit defaultPageSize (lnr_Limit req)) of
                Inl err \<Rightarrow> Inl err
              | Inr pageReq \<Rightarrow>
                  (case (if lowerBound = go_zero_time then GetAllMessagesAsc (hs_repo s) roomID walkFloor walkCeiling pageReq
                         else GetMessagesAfter (hs_repo s) roomID lowerBound walkCeiling pageReq) of
                     Inl err \<Rightarrow> Inl (Wrapf ''loading next messages'' err)
                   | Inr page \<Rightarrow>
                       Inr \<lparr>ln_Messages = render s accessSince (pg_Rows page), ln_NextCursor = pg_NextCursor page, ln_HasNext = pg_HasNext page,
                         ln_MinUserLastSeenAt = readFloorInto s roomID, ln_IncompleteSince = incompleteSince s\<rparr>))))"

record LoadSurroundingMessagesRequest =
  lsr_MessageID :: string
  lsr_Timestamp :: "int option"
  lsr_Limit :: int
  lsr_Meta :: "RoomMeta option"

record LoadSurroundingMessagesResponse =
  ls_Messages :: "hmsg list"
  ls_MoreBefore :: bool
  ls_MoreAfter :: bool
  ls_MinUserLastSeenAt :: "int option"
  ls_SizeLimited :: bool
  ls_IncompleteSince :: "int option"

text \<open>The two page reads run at once; when both fail, the error of the earlier messages is the one reported here.\<close>

definition assembleSurrounding ::
  "'r HistoryService \<Rightarrow> string \<Rightarrow> int option \<Rightarrow> hmsg option \<Rightarrow> goerr + hmsg pageResult \<Rightarrow> goerr + hmsg pageResult \<Rightarrow> goerr + LoadSurroundingMessagesResponse" where
  "assembleSurrounding s roomID accessSince central beforeFn afterFn =
     (case beforeFn of
        Inl err \<Rightarrow> Inl (Wrapf ''loading surrounding messages (before)'' err)
      | Inr beforePage \<Rightarrow>
          (case afterFn of
             Inl err \<Rightarrow> Inl (Wrapf ''loading surrounding messages (after)'' err)
           | Inr afterPage \<Rightarrow>
               (let messages = render s accessSince
                      (rev (pg_Rows beforePage) @ (case central of None \<Rightarrow> [] | Some m \<Rightarrow> [m]) @ pg_Rows afterPage) in
                case fitWindow s messages (length (pg_Rows beforePage)) pageEnvelope of
                  Inl err \<Rightarrow> Inl err
                | Inr (messages, lo, hi, narrowed) \<Rightarrow>
                    Inr \<lparr>ls_Messages = drop lo (take hi messages), ls_MoreBefore = (pg_HasNext beforePage \<or> lo > 0),
                      ls_MoreAfter = (pg_HasNext afterPage \<or> hi < length messages), ls_MinUserLastSeenAt = readFloorInto s roomID,
                      ls_SizeLimited = narrowed, ls_IncompleteSince = incompleteSince s\<rparr>)))"

definition loadSurroundingByMessageID ::
  "'r HistoryService \<Rightarrow> string \<Rightarrow> string \<Rightarrow> LoadSurroundingMessagesRequest \<Rightarrow> int \<Rightarrow> goerr + LoadSurroundingMessagesResponse" where
  "loadSurroundingByMessageID s account roomID req limit =
     (case getAccessSince s account roomID of
        Inl err \<Rightarrow> Inl err
      | Inr accessSince \<Rightarrow>
          (case findMessage s roomID (lsr_MessageID req) of
             Inl err \<Rightarrow> Inl err
           | Inr centralMsg \<Rightarrow>
               if (case accessSince of None \<Rightarrow> False | Some since \<Rightarrow> hm_CreatedAt centralMsg < since) then Inl (hs_outside ''message'')
               else let now = hs_now s in
                 (case resolveRoomTimesOrError s roomID (lsr_Meta req) now of
                    Inl err \<Rightarrow> Inl err
                  | Inr createdAt \<Rightarrow>
                      (case walkBounds s createdAt now of (walkCeiling, walkFloor) \<Rightarrow>
                         (let remaining = limit - 1 in
                          if remaining \<le> 0 then
                            Inr \<lparr>ls_Messages = [normalizeLegacySysMsg s (decodeMessageAttachments s (redactUnavailableQuote accessSince centralMsg))],
                              ls_MoreBefore = False, ls_MoreAfter = False, ls_MinUserLastSeenAt = readFloorInto s roomID,
                              ls_SizeLimited = False, ls_IncompleteSince = incompleteSince s\<rparr>
                          else case hs_parsePageRequest '''' ((remaining + 1) div 2) of
                            Inl err \<Rightarrow> Inl err
                          | Inr beforePageReq \<Rightarrow>
                              (case hs_parsePageRequest '''' (remaining div 2) of
                                 Inl err \<Rightarrow> Inl err
                               | Inr afterPageReq \<Rightarrow>
                                   assembleSurrounding s roomID accessSince (Some centralMsg)
                                     (read_back s accessSince roomID (hm_CreatedAt centralMsg) walkFloor beforePageReq)
                                     (GetMessagesAfter (hs_repo s) roomID (hm_CreatedAt centralMsg) walkCeiling afterPageReq)))))))"

definition no_page :: "hmsg pageResult" where "no_page = \<lparr>pg_Rows = [], pg_NextCursor = '''', pg_HasNext = False\<rparr>"

definition loadSurroundingByTimestamp ::
  "'r HistoryService \<Rightarrow> string \<Rightarrow> string \<Rightarrow> LoadSurroundingMessagesRequest \<Rightarrow> int \<Rightarrow> int \<Rightarrow> goerr + LoadSurroundingMessagesResponse" where
  "loadSurroundingByTimestamp s account roomID req pivot limit =
     (if pivot \<le> 0 then Inl (hs_bad ''timestamp must be positive'')
      else let now = hs_now s; beforeUpper = clampToCeiling (pivot + 1) now in
        case checkAccessAndRoomTimes s account roomID (lsr_Meta req) now of
          Inl err \<Rightarrow> Inl err
        | Inr (accessSince, createdAt) \<Rightarrow>
            if (case accessSince of None \<Rightarrow> False | Some since \<Rightarrow> pivot < since) then Inl (hs_outside ''timestamp'')
            else case walkBounds s createdAt now of (walkCeiling, walkFloor) \<Rightarrow>
              (let afterCount = limit div 2 in
               case hs_parsePageRequest '''' ((limit + 1) div 2) of
                 Inl err \<Rightarrow> Inl err
               | Inr beforePageReq \<Rightarrow>
                   (case (if afterCount > 0 then hs_parsePageRequest '''' afterCount else Inr \<lparr>pr_Cursor = None, pr_PageSize = 0\<rparr>) of
                      Inl err \<Rightarrow> Inl err
                    | Inr afterPageReq \<Rightarrow>
                        assembleSurrounding s roomID accessSince None (read_back s accessSince roomID beforeUpper walkFloor beforePageReq)
                          (if afterCount = 0 then Inr no_page else GetMessagesAfter (hs_repo s) roomID pivot walkCeiling afterPageReq))))"

definition LoadSurroundingMessages ::
  "'r HistoryService \<Rightarrow> string \<Rightarrow> string \<Rightarrow> LoadSurroundingMessagesRequest \<Rightarrow> goerr + LoadSurroundingMessagesResponse" where
  "LoadSurroundingMessages s account roomID req =
     (let hasID = (lsr_MessageID req \<noteq> ''''); limit = page_limit surroundingPageSize (lsr_Limit req) in
      case lsr_Timestamp req of
        Some pivot \<Rightarrow>
          if hasID then Inl (hs_bad ''provide either messageId or timestamp, not both'')
          else loadSurroundingByTimestamp s account roomID req pivot limit
      | None \<Rightarrow>
          if \<not> hasID then Inl (hs_bad ''messageId or timestamp is required'')
          else loadSurroundingByMessageID s account roomID req limit)"

definition GetMessageByID :: "'r HistoryService \<Rightarrow> string \<Rightarrow> string \<Rightarrow> string \<Rightarrow> goerr + hmsg" where
  "GetMessageByID s account roomID messageID =
     (case getAccessSince s account roomID of
        Inl err \<Rightarrow> Inl err
      | Inr accessSince \<Rightarrow>
          (case findMessage s roomID messageID of
             Inl err \<Rightarrow> Inl err
           | Inr m \<Rightarrow>
               if (case accessSince of None \<Rightarrow> False | Some since \<Rightarrow> hm_CreatedAt m < since) then Inl (hs_outside ''message'')
               else Inr (normalizeLegacySysMsg s (decodeMessageAttachments s (redactUnavailableQuote accessSince m)))))"

definition maxGetByIDsBatchSize :: nat where "maxGetByIDsBatchSize = 100"

text \<open>The reads of the single rows run at once, a few at a time; the first failure is the result. The order of failures is that of the ids.\<close>

fun fetchByIDs :: "(string \<Rightarrow> goerr + hmsg option) \<Rightarrow> string list \<Rightarrow> goerr + hmsg list" where
  "fetchByIDs fetch [] = Inr []"
| "fetchByIDs fetch (i # ids) =
     (case fetch i of
        Inl err \<Rightarrow> Inl err
      | Inr r \<Rightarrow> (case fetchByIDs fetch ids of Inl err \<Rightarrow> Inl err | Inr ms \<Rightarrow> Inr (case r of None \<Rightarrow> ms | Some m \<Rightarrow> m # ms)))"

definition Repository_GetMessagesByIDs :: "'r HistoryService \<Rightarrow> string list \<Rightarrow> goerr + hmsg list" where
  "Repository_GetMessagesByIDs s ids = wrapf ''querying messages by IDs'' (fetchByIDs (Repository_GetMessageByID s) ids)"

definition GetMessagesByIDs :: "'r HistoryService \<Rightarrow> string \<Rightarrow> string \<Rightarrow> string list \<Rightarrow> goerr + hmsg list" where
  "GetMessagesByIDs s account roomID messageIDs =
     (case getAccessSince s account roomID of
        Inl err \<Rightarrow> Inl err
      | Inr accessSince \<Rightarrow>
          if messageIDs = [] then Inl (hs_bad ''messageIds must not be empty'')
          else if length messageIDs > maxGetByIDsBatchSize then Inl (hs_bad ''too many messageIds'')
          else case Repository_GetMessagesByIDs s messageIDs of
            Inl err \<Rightarrow> Inl (Wrapf ''fetching messages by IDs'' err)
          | Inr fetched \<Rightarrow>
              Inr (render s accessSince
                (filter (\<lambda>m. hm_RoomID m = roomID \<and> \<not> (case accessSince of None \<Rightarrow> False | Some since \<Rightarrow> hm_CreatedAt m < since)) fetched)))"

section \<open>Threads\<close>

text \<open>One page of a thread: a slice of a single partition, newest first, resumed by the driver's own page state.\<close>

definition Repository_GetThreadMessages :: "'r HistoryService \<Rightarrow> string \<Rightarrow> int \<Rightarrow> int \<Rightarrow> PageRequest \<Rightarrow> goerr + hmsg pageResult" where
  "Repository_GetThreadMessages s threadRoomID before walkFloor pageReq =
     (case hs_thread s threadRoomID before walkFloor (case pr_Cursor pageReq of None \<Rightarrow> [] | Some c \<Rightarrow> cur_state c) (nat (pr_PageSize pageReq)) of
        (page, state, closeErr) \<Rightarrow>
          (case closeErr of
             Some e \<Rightarrow> Inl (Wrapf ''get thread messages'' (Wrapf ''close cassandra iterator'' e))
           | None \<Rightarrow>
               (case scanMessagesUpTo (rp_decrypt (hs_repo s)) page (nat (pr_PageSize pageReq)) of
                  Inl e \<Rightarrow> Inl (Wrapf ''get thread messages: scan'' e)
                | Inr msgs \<Rightarrow>
                    (let nextCursor = Encode \<lparr>cur_state = state\<rparr> in
                     Inr \<lparr>pg_Rows = msgs, pg_NextCursor = nextCursor, pg_HasNext = (nextCursor \<noteq> '''')\<rparr>))))"

record GetThreadMessagesRequest =
  gtr_ThreadMessageID :: string
  gtr_Cursor :: string
  gtr_Limit :: int

record GetThreadMessagesResponse =
  gt_Messages :: "hmsg list"
  gt_NextCursor :: string
  gt_HasNext :: bool
  gt_ParentMessage :: hmsg
  gt_MinUserLastSeenAt :: "int option"

definition emptyThreadResponse :: "hmsg \<Rightarrow> GetThreadMessagesResponse" where
  "emptyThreadResponse parent =
     \<lparr>gt_Messages = [], gt_NextCursor = '''', gt_HasNext = False, gt_ParentMessage = parent, gt_MinUserLastSeenAt = None\<rparr>"

definition GetThreadMessages :: "'r HistoryService \<Rightarrow> string \<Rightarrow> string \<Rightarrow> GetThreadMessagesRequest \<Rightarrow> goerr + GetThreadMessagesResponse" where
  "GetThreadMessages s account roomID req =
     (if gtr_ThreadMessageID req = '''' then Inl (hs_bad ''threadMessageId is required'')
      else case getAccessSince s account roomID of
        Inl err \<Rightarrow> Inl err
      | Inr accessSince \<Rightarrow>
          (case findMessage s roomID (gtr_ThreadMessageID req) of
             Inl err \<Rightarrow> Inl err
           | Inr m \<Rightarrow>
               if hm_ThreadParentID m \<noteq> '''' then Inl (hs_bad ''threadMessageId must be a top-level message, not a reply'')
               else if (case accessSince of None \<Rightarrow> False | Some since \<Rightarrow> hm_CreatedAt m < since) then Inl (hs_outside ''thread'')
               else
                 let m = decodeMessageAttachments s (redactUnavailableQuote accessSince m) in
                 if hm_ThreadRoomID m = '''' then Inr (emptyThreadResponse m)
                 else case hs_parsePageRequest (gtr_Cursor req) (page_limit defaultPageSize (gtr_Limit req)) of
                   Inl err \<Rightarrow> Inl err
                 | Inr pageReq \<Rightarrow>
                     if hm_TCount m = Some 0 then Inr (emptyThreadResponse m)
                     else
                       let now = hs_now s; oldest = now - hs_historyFloor s;
                           walkFloor = (case accessSince of None \<Rightarrow> oldest | Some since \<Rightarrow> if since > oldest then since else oldest);
                           walkCeiling = now + clockSkewTolerance;
                           walkCeiling = (if walkCeiling < walkFloor then walkFloor else walkCeiling) in
                       (case Repository_GetThreadMessages s (hm_ThreadRoomID m) walkCeiling walkFloor pageReq of
                          Inl err \<Rightarrow> Inl (Wrapf ''loading thread messages'' err)
                        | Inr page \<Rightarrow>
                            Inr \<lparr>gt_Messages = setDecodedAttachments s (redactUnavailableQuotes accessSince (pg_Rows page)),
                              gt_NextCursor = pg_NextCursor page, gt_HasNext = pg_HasNext page, gt_ParentMessage = m,
                              gt_MinUserLastSeenAt = (case hs_threadMinSeen s (hm_ThreadRoomID m) of Inl _ \<Rightarrow> None | Inr t \<Rightarrow> t)\<rparr>)))"

end
