(* ===== verification/Hist_Access.thy ===== *)
theory Hist_Access
  imports Hist_Service
begin

text \<open>
  What the reads of history-service promise: a member sees the messages of rooms it is subscribed to, from the time its membership shares on,
  whatever bounds, cursors and ids it asks with; and a page that is cut to the size of a reply is cut where the client can go on.
\<close>

section \<open>Where the rows of a page come from\<close>

text \<open>Every row of a walk was returned by a fetch of a bucket between the start and the floor.\<close>

definition in_walk :: "'a bucketWalk \<Rightarrow> int \<Rightarrow> bool" where
  "in_walk w b \<longleftrightarrow> \<not> crossedFloor w b \<and> (if bw_direction w = walkDesc then b \<le> bw_startBucket w else bw_startBucket w \<le> b)"

definition walked_row :: "'a bucketWalk \<Rightarrow> 'a \<Rightarrow> bool" where
  "walked_row w x \<longleftrightarrow> (\<exists>b st n p. in_walk w b \<and> bw_fetch w b (b = bw_startBucket w) st n = Inr p \<and> x \<in> set (bp_rows p))"

definition past_start :: "'a bucketWalk \<Rightarrow> int \<Rightarrow> bool" where
  "past_start w b \<longleftrightarrow> (if bw_direction w = walkDesc then b \<le> bw_startBucket w else bw_startBucket w \<le> b)"

lemma past_start_advance: "past_start w b \<Longrightarrow> 0 < windowMs (bw_sizer w) \<Longrightarrow> past_start w (advance w b)"
  by (auto simp: past_start_def advance_def Prev_def Next_def split: if_splits)

lemma plan_in_walk:
  "past_start w b \<Longrightarrow> 0 < windowMs (bw_sizer w) \<Longrightarrow> c \<in> set (plan_loop w b width walked) \<Longrightarrow> in_walk w c"
proof (induction w b width walked rule: plan_loop.induct)
  case (2 w b width walked)
  then show ?case using past_start_advance [of w b] by (auto simp: in_walk_def past_start_def split: if_splits)
qed simp

lemma fetchWave_rows:
  assumes "fetchWave w bs = Inr ps" "\<forall>b \<in> set bs. in_walk w b"
  shows "\<forall>p \<in> set ps. \<forall>x \<in> set (bp_rows p). walked_row w x"
  using assms
proof (induction bs arbitrary: ps)
  case (Cons b bs)
  then show ?case by (fastforce simp: walked_row_def split: sum.splits)
qed simp

lemma assemble_rows:
  assumes "\<forall>(b, p) \<in> set bps. \<forall>x \<in> set (bp_rows p). P x" "\<forall>x \<in> set out. P x"
  shows "(\<forall>page x. assemble w bps out = Inl (Inr page) \<longrightarrow> x \<in> set (pg_Rows page) \<longrightarrow> P x)
    \<and> (\<forall>out'. assemble w bps out = Inr out' \<longrightarrow> (\<forall>x \<in> set out'. P x))"
  using assms
proof (induction bps arbitrary: out)
  case (Cons bp bps)
  obtain b p where bp: "bp = (b, p)" by (cases bp)
  let ?k = "min (bw_pageSize w - length out) (length (bp_rows p))"
  have new: "\<forall>x \<in> set (out @ take ?k (bp_rows p)). P x" using Cons.prems bp by (auto dest: in_set_takeD)
  have filled: "x \<in> set (pg_Rows page) \<Longrightarrow> P x" if "resumeAfterFill w (out @ take ?k (bp_rows p)) b p ?k = Inr page" for page x
    using that new by (auto simp: resumeAfterFill_def resumeAtBucket_def terminalPage_def Let_def split: if_splits sum.splits)
  show ?case
  proof (cases "length (out @ take ?k (bp_rows p)) = bw_pageSize w")
    case True
    then show ?thesis using filled bp by (simp add: Let_def)
  next
    case False
    then show ?thesis using Cons.IH [OF _ new] Cons.prems(1) bp by (simp add: Let_def)
  qed
qed simp

lemma wave_loop_rows:
  assumes "past_start w cur" "0 < windowMs (bw_sizer w)" "\<forall>x \<in> set out. walked_row w x" "wave_loop w out cur walked width = Inr page"
  shows "\<forall>x \<in> set (pg_Rows page). walked_row w x"
  using assms
proof (induction w out cur walked width rule: wave_loop.induct)
  case (1 w out cur walked width)
  let ?bs = "planWave w cur width walked"
  show ?case
  proof (cases "crossedFloor w cur \<or> walked \<ge> bw_maxBuckets w \<or> ?bs = []")
    case True
    then show ?thesis using 1(4,5) by (subst (asm) wave_loop.simps) (auto simp: terminalPage_def resumeAtBucket_def Let_def split: if_splits sum.splits)
  next
    case False
    then obtain ps where ps: "fetchWave w ?bs = Inr ps" using 1(5) by (subst (asm) wave_loop.simps) (auto simp: Let_def split: sum.splits)
    have bs: "\<forall>b \<in> set ?bs. in_walk w b" using plan_in_walk [OF 1(2,3)] by (simp add: planWave_def)
    have rows: "\<forall>(b, p) \<in> set (zip ?bs ps). \<forall>x \<in> set (bp_rows p). walked_row w x"
      using fetchWave_rows [OF ps bs] by (auto dest: set_zip_rightD)
    note asm = assemble_rows [of "zip ?bs ps" "walked_row w" out w, OF rows 1(4)]
    show ?thesis
    proof (cases "assemble w (zip ?bs ps) out")
      case (Inl r)
      then show ?thesis using 1(5) False ps asm by (subst (asm) wave_loop.simps) (auto simp: Let_def)
    next
      case (Inr out')
      have last: "past_start w (advance w (last ?bs))"
        using bs False past_start_advance [OF _ 1(3)] by (simp add: in_walk_def past_start_def)
      have out': "\<forall>x \<in> set out'. walked_row w x" using asm Inr by blast
      have step: "wave_loop w out' (advance w (last ?bs)) (walked + length ?bs)
          (adaptiveWaveWidth (length out') (walked + length ?bs) (bw_pageSize w - length out') (bw_fanout w)) = Inr page"
        using 1(5) False ps Inr by (subst (asm) wave_loop.simps) (simp add: Let_def)
      show ?thesis using 1(1) [OF _ _ refl _ ps Inr refl last 1(3) out' step] False by blast
    qed
  qed
qed

lemma walkBuckets_rows:
  assumes "walkBuckets sizer d startB floorB mx k st fan fetch = Inr page" "x \<in> set (pg_Rows page)" "0 < windowMs sizer"
  shows "\<exists>b st n p. (if d = walkDesc then floorB \<le> b \<and> b \<le> startB else startB \<le> b \<and> b \<le> floorB)
    \<and> fetch b (b = startB) st n = Inr p \<and> x \<in> set (bp_rows p)"
proof -
  define w where "w = \<lparr>bw_sizer = sizer, bw_direction = d, bw_startBucket = startB, bw_floorBucket = floorB,
          bw_maxBuckets = mx, bw_pageSize = k, bw_initialState = st, bw_fanout = (if fan < 1 then 1 else fan), bw_fetch = fetch\<rparr>"
  have "wave_loop w [] startB 0 1 = Inr page" using assms(1) by (simp add: walkBuckets_def run_def w_def)
  then have "walked_row w x" using wave_loop_rows [of w startB "[]" 0 1 page] assms(2,3) by (simp add: past_start_def w_def)
  then obtain b st' n p where b: "in_walk w b" "bw_fetch w b (b = bw_startBucket w) st' n = Inr p" "x \<in> set (bp_rows p)"
    unfolding walked_row_def by blast
  have "if d = walkDesc then floorB \<le> b \<and> b \<le> startB else startB \<le> b \<and> b \<le> floorB"
    using b(1) by (auto simp: in_walk_def crossedFloor_def w_def)
  then show ?thesis using b(2,3) by (intro exI [of _ b] exI [of _ st'] exI [of _ n] exI [of _ p]) (simp add: w_def)
qed

text \<open>A message that was read is the decryption of a row the driver returned for one of the queries.\<close>

definition driven :: "'r driver \<Rightarrow> ('r \<Rightarrow> goerr + 'm) \<Rightarrow> bucket_query \<Rightarrow> 'm \<Rightarrow> bool" where
  "driven drv dec q x \<longleftrightarrow> (\<exists>st n row. row \<in> set (fst (drv q st n)) \<and> dec row = Inr x)"

lemma scan_rows: "scanMessagesUpTo dec rows k = Inr ms \<Longrightarrow> x \<in> set ms \<Longrightarrow> \<exists>row \<in> set rows. dec row = Inr x"
proof (induction dec rows k arbitrary: ms rule: scanMessagesUpTo.induct)
  case (3 dec row rows k)
  then obtain m ms' where m: "dec row = Inr m" "scanMessagesUpTo dec rows k = Inr ms'" "ms = m # ms'" by (auto split: sum.splits)
  show ?case
  proof (cases "x = m")
    case False
    then show ?thesis using 3(1) [OF m(1,2)] 3(3) m(3) by auto
  qed (use m in auto)
qed simp_all

lemma drain_rows:
  fixes drv :: "'r driver" and dec :: "'r \<Rightarrow> goerr + 'm"
  assumes "drain drv dec q limit rows state = Some res"
  shows "\<forall>p. res = Inr p \<longrightarrow> (\<forall>x \<in> set rows. driven drv dec q x) \<longrightarrow> (\<forall>x \<in> set (bp_rows p). driven drv dec q x)"
proof (rule drain.raw_induct [where P = "\<lambda>drv dec q limit rows state res.
    \<forall>p. res = Inr p \<longrightarrow> (\<forall>x \<in> set rows. driven drv dec q x) \<longrightarrow> (\<forall>x \<in> set (bp_rows p). driven drv dec q x)", OF _ assms])
  fix self and drv :: "'r driver" and dec :: "'r \<Rightarrow> goerr + 'm" and q limit and rows :: "'m list" and state y
  assume ih: "\<And>drv dec q limit rows state y. self drv dec q limit rows state = Some y \<Longrightarrow>
      \<forall>p. y = Inr p \<longrightarrow> (\<forall>x \<in> set rows. driven drv dec q x) \<longrightarrow> (\<forall>x \<in> set (bp_rows p). driven drv dec q x)"
    and step: "(if length rows < limit then
        (case drv q state (limit - length rows) of (page, state', closeErr) \<Rightarrow>
           (case closeErr of Some e \<Rightarrow> Some (Inl (Wrapf (''scan bucket '' @ Itoa (bq_bucket q)) e))
            | None \<Rightarrow>
                (case scanMessagesUpTo dec page (limit - length rows) of
                   Inl e \<Rightarrow> Some (Inl (Wrapf (''scan bucket '' @ Itoa (bq_bucket q)) e))
                 | Inr got \<Rightarrow>
                     if state' = [] then Some (Inr \<lparr>bp_rows = rows @ got, bp_resumeState = []\<rparr>)
                     else self drv dec q limit (rows @ got) state')))
      else Some (Inr \<lparr>bp_rows = rows, bp_resumeState = state\<rparr>)) = Some y"
  show "\<forall>p. y = Inr p \<longrightarrow> (\<forall>x \<in> set rows. driven drv dec q x) \<longrightarrow> (\<forall>x \<in> set (bp_rows p). driven drv dec q x)"
  proof (intro allI impI)
    fix p
    assume p: "y = Inr p" and rows: "\<forall>x \<in> set rows. driven drv dec q x"
    obtain page state' closeErr where drv: "drv q state (limit - length rows) = (page, state', closeErr)" by (cases "drv q state (limit - length rows)")
    show "\<forall>x \<in> set (bp_rows p). driven drv dec q x"
    proof (cases "length rows < limit")
      case False
      then show ?thesis using step p rows by auto
    next
      case True
      then obtain got where got: "closeErr = None" "scanMessagesUpTo dec page (limit - length rows) = Inr got"
        using step p drv by (auto split: option.splits sum.splits)
      have all: "\<forall>x \<in> set (rows @ got). driven drv dec q x"
        using rows scan_rows [OF got(2)] drv unfolding driven_def by (metis Un_iff fst_conv set_append)
      show ?thesis
      proof (cases "state' = []")
        case True
        then show ?thesis using step p drv got \<open>length rows < limit\<close> all by auto
      next
        case False
        then have "self drv dec q limit (rows @ got) state' = Some y" using step drv got True by simp
        then show ?thesis using ih [of drv dec q limit "rows @ got" state' y] p all by blast
      qed
    qed
  qed
qed

lemma fetcher_rows:
  assumes "gocqlBucketFetcher drv dec queryFn b first st n = Inr p" "x \<in> set (bp_rows p)"
  shows "driven drv dec (queryFn b first) x"
proof -
  obtain r where "drain drv dec (queryFn b first) n [] st = Some r" "r = Inr p"
    using assms(1) by (auto simp: gocqlBucketFetcher_def split: option.splits)
  then show ?thesis using drain_rows [of drv dec "queryFn b first" n "[]" st r] assms(2) by auto
qed

lemma read_page_rows:
  assumes "read_page r what d defaultB floorB pageReq queryFn = Inr page" "x \<in> set (pg_Rows page)" "0 < windowMs (rp_bucket r)"
  shows "\<exists>b startB. (if d = walkDesc then floorB \<le> b \<and> b \<le> startB \<and> startB \<le> defaultB else defaultB \<le> startB \<and> startB \<le> b \<and> b \<le> floorB)
    \<and> driven (rp_driver r) (rp_decrypt r) (queryFn b (b = startB)) x"
proof -
  obtain startB st where start: "startBucketFromCursor pageReq d defaultB floorB = Inr (startB, st)"
    and fill: "fillMessagePage r d startB floorB pageReq st queryFn = Inr page"
    using assms(1) by (auto simp: read_page_def wrapf_def split: sum.splits)
  have "if d = walkDesc then startB \<le> defaultB else defaultB \<le> startB"
    using start by (cases d) (auto simp: startBucketFromCursor_def Let_def split: option.splits sum.splits if_splits)
  moreover obtain b st' n p where b: "if d = walkDesc then floorB \<le> b \<and> b \<le> startB else startB \<le> b \<and> b \<le> floorB"
    "gocqlBucketFetcher (rp_driver r) (rp_decrypt r) queryFn b (b = startB) st' n = Inr p" "x \<in> set (bp_rows p)"
    using walkBuckets_rows [OF fill [unfolded fillMessagePage_def] assms(2,3)] by blast
  moreover have "driven (rp_driver r) (rp_decrypt r) (queryFn b (b = startB)) x" by (rule fetcher_rows [OF b(2,3)])
  ultimately show ?thesis by (intro exI [of _ b] exI [of _ startB]) (cases d; simp)
qed

section \<open>Who sees what\<close>

text \<open>The store answers honestly: a row it returns for a query lies in the partition and between the bounds of the query; the rows of a thread belong to the room of
  its parent.\<close>

definition row_matches :: "Sizer \<Rightarrow> bucket_query \<Rightarrow> hmsg \<Rightarrow> bool" where
  "row_matches sizer q m \<longleftrightarrow> hm_RoomID m = bq_room q \<and> Of sizer (hm_CreatedAt m) = bq_bucket q
     \<and> (case bq_after q of None \<Rightarrow> True | Some t \<Rightarrow> t < hm_CreatedAt m) \<and> (case bq_before q of None \<Rightarrow> True | Some t \<Rightarrow> hm_CreatedAt m < t)"

definition honest_store :: "(string \<Rightarrow> string) \<Rightarrow> 'r HistoryService \<Rightarrow> bool" where
  "honest_store home s \<longleftrightarrow> 0 < windowMs (rp_bucket (hs_repo s))
     \<and> (\<forall>q m. driven (rp_driver (hs_repo s)) (rp_decrypt (hs_repo s)) q m \<longrightarrow> row_matches (rp_bucket (hs_repo s)) q m)
     \<and> (\<forall>tr before oldest st n row m. row \<in> set (fst (hs_thread s tr before oldest st n)) \<longrightarrow> rp_decrypt (hs_repo s) row = Inr m \<longrightarrow>
          hm_RoomID m = home tr \<and> oldest \<le> hm_CreatedAt m \<and> hm_CreatedAt m < before)
     \<and> (\<forall>i row m. hs_byID s i = Inr (Some row) \<longrightarrow> rp_decrypt (hs_repo s) row = Inr m \<longrightarrow> hm_ThreadRoomID m \<noteq> '''' \<longrightarrow>
          home (hm_ThreadRoomID m) = hm_RoomID m)"

lemma before_room:
  assumes "honest_store home s" "GetMessagesBefore (hs_repo s) roomID before oldest pageReq = Inr page" "x \<in> set (pg_Rows page)"
  shows "hm_RoomID x = roomID"
proof -
  have "0 < windowMs (rp_bucket (hs_repo s))" using assms(1) by (simp add: honest_store_def)
  then obtain b f where "driven (rp_driver (hs_repo s)) (rp_decrypt (hs_repo s)) (before_query roomID before b f) x"
    using read_page_rows [OF assms(2) [unfolded GetMessagesBefore_def] assms(3)] by blast
  then have "row_matches (rp_bucket (hs_repo s)) (before_query roomID before b f) x" using assms(1) unfolding honest_store_def by blast
  then show ?thesis by (simp add: row_matches_def before_query_def)
qed

lemma all_room:
  assumes "honest_store home s" "GetAllMessagesAsc (hs_repo s) roomID oldest newest pageReq = Inr page" "x \<in> set (pg_Rows page)"
  shows "hm_RoomID x = roomID"
proof -
  have "0 < windowMs (rp_bucket (hs_repo s))" using assms(1) by (simp add: honest_store_def)
  then obtain b f where "driven (rp_driver (hs_repo s)) (rp_decrypt (hs_repo s)) (all_query roomID b f) x"
    using read_page_rows [OF assms(2) [unfolded GetAllMessagesAsc_def] assms(3)] by blast
  then have "row_matches (rp_bucket (hs_repo s)) (all_query roomID b f) x" using assms(1) unfolding honest_store_def by blast
  then show ?thesis by (simp add: row_matches_def all_query_def)
qed

lemma between_window:
  assumes "honest_store home s" "GetMessagesBetweenDesc (hs_repo s) roomID since before pageReq = Inr page" "x \<in> set (pg_Rows page)"
  shows "hm_RoomID x = roomID \<and> since < hm_CreatedAt x"
proof -
  let ?sz = "rp_bucket (hs_repo s)"
  have w: "0 < windowMs ?sz" using assms(1) by (simp add: honest_store_def)
  obtain b f where b: "Of ?sz since \<le> b"
    "driven (rp_driver (hs_repo s)) (rp_decrypt (hs_repo s)) (between_query roomID (Of ?sz since) since before b f) x"
    using read_page_rows [OF assms(2) [unfolded GetMessagesBetweenDesc_def] assms(3) w] by auto
  then have "row_matches ?sz (between_query roomID (Of ?sz since) since before b f) x" using assms(1) unfolding honest_store_def by blast
  then have m: "hm_RoomID x = roomID" "Of ?sz (hm_CreatedAt x) = b" "b = Of ?sz since \<longrightarrow> since < hm_CreatedAt x"
    by (auto simp: row_matches_def between_query_def)
  show ?thesis using m b(1) Of_less [OF w, of since "hm_CreatedAt x"] by force
qed

lemma after_window:
  assumes "honest_store home s" "GetMessagesAfter (hs_repo s) roomID after newest pageReq = Inr page" "x \<in> set (pg_Rows page)"
  shows "hm_RoomID x = roomID \<and> after < hm_CreatedAt x"
proof -
  let ?sz = "rp_bucket (hs_repo s)"
  have w: "0 < windowMs ?sz" using assms(1) by (simp add: honest_store_def)
  obtain b startB where b: "Of ?sz after \<le> startB" "startB \<le> b"
    "driven (rp_driver (hs_repo s)) (rp_decrypt (hs_repo s)) (after_query roomID after b (b = startB)) x"
    using read_page_rows [OF assms(2) [unfolded GetMessagesAfter_def] assms(3) w] by auto
  then have "row_matches ?sz (after_query roomID after b (b = startB)) x" using assms(1) unfolding honest_store_def by blast
  then have m: "hm_RoomID x = roomID" "Of ?sz (hm_CreatedAt x) = b" "b = startB \<longrightarrow> after < hm_CreatedAt x"
    by (auto simp: row_matches_def after_query_def)
  show ?thesis using m b(1,2) Of_less [OF w, of after "hm_CreatedAt x"] by force
qed

text \<open>What a member may be shown: messages of the room it is subscribed to, from the shared time on, whose quotes are withheld unless what they quote, and
  the thread it came from, are in that time too.\<close>

definition quote_shown :: "int \<Rightarrow> hmsg \<Rightarrow> bool" where
  "quote_shown since m \<longleftrightarrow> (case hm_QuotedParentMessage m of
     None \<Rightarrow> True
   | Some q \<Rightarrow> (qp_MessageID q = '''' \<and> qp_Msg q = UnavailableQuoteMsg \<and> qp_Attachments q = [] \<and> qp_DecodedAttachments q = [])
       \<or> (since \<le> qp_CreatedAt q \<and> (hm_TShow m \<and> qp_ThreadParentID q \<noteq> '''' \<longrightarrow> (\<exists>t. qp_ThreadParentCreatedAt q = Some t \<and> since \<le> t))))"

definition may_show :: "'r HistoryService \<Rightarrow> string \<Rightarrow> string \<Rightarrow> hmsg \<Rightarrow> bool" where
  "may_show s account roomID m \<longleftrightarrow> (case hs_shared s account roomID of
     Inl _ \<Rightarrow> False
   | Inr (accessSince, subscribed) \<Rightarrow> subscribed \<and> hm_RoomID m = roomID
       \<and> (case accessSince of None \<Rightarrow> True | Some since \<Rightarrow> since \<le> hm_CreatedAt m \<and> quote_shown since m))"

definition in_window :: "int option \<Rightarrow> string \<Rightarrow> hmsg \<Rightarrow> bool" where
  "in_window accessSince roomID m \<longleftrightarrow> hm_RoomID m = roomID \<and> (case accessSince of None \<Rightarrow> True | Some since \<Rightarrow> since \<le> hm_CreatedAt m)"

lemma access_granted: "getAccessSince s account roomID = Inr accessSince \<longleftrightarrow> hs_shared s account roomID = Inr (accessSince, True)"
  by (auto simp: getAccessSince_def split: sum.splits if_splits)

lemma may_show_iff:
  "getAccessSince s account roomID = Inr accessSince \<Longrightarrow> may_show s account roomID m \<longleftrightarrow>
    in_window accessSince roomID m \<and> (case accessSince of None \<Rightarrow> True | Some since \<Rightarrow> quote_shown since m)"
  by (auto simp: access_granted may_show_def in_window_def split: option.splits)

lemma redacted:
  "in_window acc roomID (redactUnavailableQuote acc m) = in_window acc roomID m"
  "hm_CreatedAt (redactUnavailableQuote acc m) = hm_CreatedAt m" "hm_MessageID (redactUnavailableQuote acc m) = hm_MessageID m"
  "acc = Some since \<Longrightarrow> quote_shown since (redactUnavailableQuote acc m)"
  by (auto simp: redactUnavailableQuote_def in_window_def quote_shown_def quoteInaccessible_def empty_quote_def Let_def split: option.splits)

lemma decoded:
  "in_window acc roomID (decodeMessageAttachments s m) = in_window acc roomID m"
  "hm_CreatedAt (decodeMessageAttachments s m) = hm_CreatedAt m" "hm_MessageID (decodeMessageAttachments s m) = hm_MessageID m"
  "quote_shown since m \<Longrightarrow> quote_shown since (decodeMessageAttachments s m)"
  by (auto simp: decodeMessageAttachments_def in_window_def quote_shown_def List.map_filter_def split: option.splits)

text \<open>Rendering changes no identity and no time, and withholds the quotes.\<close>

definition same_message :: "hmsg \<Rightarrow> hmsg \<Rightarrow> bool" where
  "same_message m m' \<longleftrightarrow> hm_RoomID m' = hm_RoomID m \<and> hm_CreatedAt m' = hm_CreatedAt m \<and> hm_MessageID m' = hm_MessageID m
     \<and> hm_TShow m' = hm_TShow m \<and> hm_QuotedParentMessage m' = hm_QuotedParentMessage m"

lemma same_message_shown: "same_message m m' \<Longrightarrow> in_window acc roomID m' = in_window acc roomID m \<and> quote_shown since m' = quote_shown since m"
  by (cases m; cases m'; cases "hm_QuotedParentMessage m"; simp add: same_message_def in_window_def quote_shown_def split: option.splits)

lemma resolve_same: "list_all2 same_message msgs (resolveRemovedMemberNames s msgs)"
  by (simp add: resolveRemovedMemberNames_def Let_def list_all2_map2 list.rel_refl same_message_def split: option.splits)

lemma types_same: "list_all2 same_message msgs (normalizeLegacySysMsgTypes msgs)"
  by (simp add: normalizeLegacySysMsgTypes_def list_all2_map2 list.rel_refl same_message_def split: option.splits)

lemma normalize_same: "list_all2 same_message msgs (normalizeLegacySysMsgs s msgs)"
  using list_all2_trans [OF _ resolve_same types_same, of same_message msgs s] unfolding normalizeLegacySysMsgs_def
  by (simp add: same_message_def)

lemma normalize_one_same: "same_message m (normalizeLegacySysMsg s m)"
  using normalize_same [of "[m]" s] by (auto simp: normalizeLegacySysMsg_def list_all2_Cons1)

definition rendered :: "int option \<Rightarrow> hmsg \<Rightarrow> hmsg \<Rightarrow> bool" where
  "rendered acc m m' \<longleftrightarrow> hm_RoomID m' = hm_RoomID m \<and> hm_CreatedAt m' = hm_CreatedAt m \<and> hm_MessageID m' = hm_MessageID m
     \<and> (\<forall>since. acc = Some since \<longrightarrow> quote_shown since m')"

lemma redact_decode_rendered: "rendered acc m (decodeMessageAttachments s (redactUnavailableQuote acc m))"
proof -
  have "hm_RoomID (decodeMessageAttachments s (redactUnavailableQuote acc m)) = hm_RoomID m"
    by (simp add: decodeMessageAttachments_def redactUnavailableQuote_def split: option.splits)
  then show ?thesis using decoded(4) [OF redacted(4)] by (simp add: rendered_def decoded redacted)
qed

lemma rendered_same: "rendered acc m m' \<Longrightarrow> same_message m' m'' \<Longrightarrow> rendered acc m m''"
  using same_message_shown [of m' m''] by (simp add: rendered_def same_message_def)

lemma render_rendered: "list_all2 (rendered acc) msgs (render s acc msgs)"
proof -
  have "list_all2 (rendered acc) msgs (setDecodedAttachments s (redactUnavailableQuotes acc msgs))"
    by (simp add: setDecodedAttachments_def redactUnavailableQuotes_def list_all2_map2 list.rel_refl redact_decode_rendered)
  from list_all2_trans [OF _ this normalize_same, of "rendered acc"] show ?thesis unfolding render_def using rendered_same by blast
qed

lemma render_shown:
  assumes "getAccessSince s account roomID = Inr acc" "\<forall>m \<in> set msgs. in_window acc roomID m" "m' \<in> set (render s acc msgs)"
  shows "may_show s account roomID m'"
proof -
  obtain m where "m \<in> set msgs" "rendered acc m m'" using render_rendered [of acc msgs s] assms(3) by (metis in_set_conv_nth list_all2_conv_all_nth)
  then show ?thesis using assms(1,2) by (auto simp: may_show_iff rendered_def in_window_def split: option.splits)
qed

text \<open>Trimming only drops and blanks rows.\<close>

lemma blanked_shown: "may_show s account roomID m \<Longrightarrow> may_show s account roomID (blankOversize m)"
  by (auto simp: may_show_def blankOversize_def stripRichContent_def quote_shown_def split: sum.splits option.splits prod.splits)

lemma blankRange_pred: "\<forall>m \<in> set msgs. P m \<Longrightarrow> (\<And>m. P m \<Longrightarrow> P (blankOversize m)) \<Longrightarrow> \<forall>m \<in> set (blankRange lo hi msgs). P m"
  by (auto simp: blankRange_def in_set_enumerate_eq)

lemma fitPage_pred:
  assumes "fitPage s msgs envelope = Inr (kept, trimmed)" "\<forall>m \<in> set msgs. P m" "\<And>m. P m \<Longrightarrow> P (blankOversize m)"
  shows "\<forall>m \<in> set kept. P m"
proof -
  note blank = blankRange_pred [where P = P, OF _ assms(3)]
  show ?thesis
    using assms(1,2) blank [OF assms(2), of 0 1] blank [OF blank [OF assms(2)]] blank [OF assms(2)]
    by (auto simp: fitPage_def Let_def split: option.splits if_splits prod.splits dest!: in_set_takeD)
qed

lemma fitWindow_pred:
  assumes "fitWindow s msgs pivot envelope = Inr (msgs', lo, hi, narrowed)" "\<forall>m \<in> set msgs. P m" "\<And>m. P m \<Longrightarrow> P (blankOversize m)"
  shows "\<forall>m \<in> set msgs'. P m"
proof -
  note blank = blankRange_pred [where P = P, OF _ assms(3)]
  have bounds: "\<forall>m \<in> set msgs2. P m" if "timestampBounds msgs1 lo1 hi1 p = (msgs2, lo2, hi2)" "\<forall>m \<in> set msgs1. P m" for msgs1 lo1 hi1 p msgs2 lo2 hi2
    using that blank [OF that(2)] blank [OF blank [OF that(2)]] by (auto simp: timestampBounds_def Let_def split: if_splits prod.splits)
  show ?thesis using assms(1,2) blank [OF assms(2)] bounds by (auto simp: fitWindow_def Let_def split: option.splits if_splits prod.splits)
qed

lemma checked_access: "checkAccessAndRoomTimes s account roomID meta now = Inr (acc, createdAt) \<Longrightarrow> getAccessSince s account roomID = Inr acc"
  by (auto simp: checkAccessAndRoomTimes_def split: sum.splits)

lemma read_back_window:
  assumes "honest_store home s" "read_back s acc roomID before oldest pageReq = Inr page" "x \<in> set (pg_Rows page)"
  shows "in_window acc roomID x"
  using assms before_room [OF assms(1)] between_window [OF assms(1)]
  by (cases acc) (fastforce simp: read_back_def in_window_def)+

lemma after_in_window:
  assumes "honest_store home s" "GetMessagesAfter (hs_repo s) roomID after newest pageReq = Inr page" "x \<in> set (pg_Rows page)"
    and "\<forall>since. acc = Some since \<longrightarrow> since \<le> after"
  shows "in_window acc roomID x"
  using after_window [OF assms(1-3)] assms(4) by (fastforce simp: in_window_def split: option.splits)

lemma LoadHistory_shown:
  assumes "honest_store home s" "LoadHistory s account roomID req = Inr resp" "m \<in> set (lh_Messages resp)"
  shows "may_show s account roomID m"
proof -
  obtain acc createdAt where acc: "checkAccessAndRoomTimes s account roomID (lhr_Meta req) (hs_now s) = Inr (acc, createdAt)"
    using assms(2) by (auto simp: LoadHistory_def Let_def split: sum.splits)
  obtain before oldest pageReq page where page: "read_back s acc roomID before oldest pageReq = Inr page"
    and fit: "fitPage s (render s acc (pg_Rows page)) pageEnvelope = Inr (lh_Messages resp, lh_SizeLimited resp)"
    using assms(2) by (auto simp: LoadHistory_def history_page_def history_reply_def wrapf_def Let_def acc split: sum.splits prod.splits)
  have "\<forall>m \<in> set (render s acc (pg_Rows page)). may_show s account roomID m"
    using render_shown [OF checked_access [OF acc]] read_back_window [OF assms(1) page] by blast
  then show ?thesis using fitPage_pred [OF fit, of "may_show s account roomID"] blanked_shown assms(3) by blast
qed

lemma LoadNext_shown:
  assumes "honest_store home s" "LoadNextMessages s account roomID req = Inr resp" "m \<in> set (ln_Messages resp)"
    and "hs_shared s account roomID \<noteq> Inr (Some go_zero_time, True)"
  shows "may_show s account roomID m"
proof -
  obtain acc createdAt where chk: "checkAccessAndRoomTimes s account roomID (lnr_Meta req) (hs_now s) = Inr (acc, createdAt)"
    using assms(2) by (auto simp: LoadNextMessages_def Let_def split: sum.splits)
  note acc = checked_access [OF chk]
  let ?lo = "timeMax (millisToTime (lnr_After req)) (derefTime acc)"
  have nz: "acc \<noteq> Some go_zero_time" using assms(4) acc by (auto simp: access_granted)
  obtain newest oldest where wb: "walkBounds s createdAt (hs_now s) = (newest, oldest)" by fastforce
  obtain pageReq page where page: "(if ?lo = go_zero_time then GetAllMessagesAsc (hs_repo s) roomID oldest newest pageReq
      else GetMessagesAfter (hs_repo s) roomID ?lo newest pageReq) = Inr page"
    and msgs: "ln_Messages resp = render s acc (pg_Rows page)"
    using assms(2) unfolding LoadNextMessages_def Let_def chk sum.case prod.case wb by (auto split: sum.splits)
  have "in_window acc roomID x" if x: "x \<in> set (pg_Rows page)" for x
  proof (cases "?lo = go_zero_time")
    case True
    then have "acc = None" using nz by (cases acc) (auto simp: timeMax_def derefTime_def split: if_splits)
    then show ?thesis using all_room [OF assms(1) _ x] page True by (simp add: in_window_def)
  next
    case False
    have "\<forall>since. acc = Some since \<longrightarrow> since \<le> ?lo" using nz by (auto simp: timeMax_def derefTime_def)
    then show ?thesis using after_in_window [OF assms(1) _ x] page False by simp
  qed
  then show ?thesis using render_shown [OF acc, of "pg_Rows page" m] assms(3) msgs by simp
qed

lemma assemble_shown:
  assumes "getAccessSince s account roomID = Inr acc" "assembleSurrounding s roomID acc central bf af = Inr resp" "m \<in> set (ls_Messages resp)"
    and "\<And>page x. bf = Inr page \<Longrightarrow> x \<in> set (pg_Rows page) \<Longrightarrow> in_window acc roomID x"
    and "\<And>page x. af = Inr page \<Longrightarrow> x \<in> set (pg_Rows page) \<Longrightarrow> in_window acc roomID x"
    and "\<And>x. central = Some x \<Longrightarrow> in_window acc roomID x"
  shows "may_show s account roomID m"
proof -
  obtain bp ap where pages: "bf = Inr bp" "af = Inr ap" using assms(2) by (auto simp: assembleSurrounding_def split: sum.splits)
  let ?all = "rev (pg_Rows bp) @ (case central of None \<Rightarrow> [] | Some m \<Rightarrow> [m]) @ pg_Rows ap"
  obtain msgs lo hi nar where fit: "fitWindow s (render s acc ?all) (length (pg_Rows bp)) pageEnvelope = Inr (msgs, lo, hi, nar)"
    and m: "ls_Messages resp = drop lo (take hi msgs)"
    using assms(2) by (auto simp: assembleSurrounding_def pages Let_def split: sum.splits prod.splits)
  have "\<forall>x \<in> set ?all. in_window acc roomID x" using assms(4-6) pages by (auto split: option.splits)
  then have "\<forall>x \<in> set (render s acc ?all). may_show s account roomID x" using render_shown [OF assms(1)] by blast
  then have "\<forall>x \<in> set msgs. may_show s account roomID x" using fitWindow_pred [OF fit, of "may_show s account roomID"] blanked_shown by blast
  then show ?thesis using assms(3) m by (auto dest: in_set_dropD in_set_takeD)
qed

lemma one_shown:
  assumes "getAccessSince s account roomID = Inr acc" "in_window acc roomID m"
  shows "may_show s account roomID (normalizeLegacySysMsg s (decodeMessageAttachments s (redactUnavailableQuote acc m)))"
    and "may_show s account roomID (decodeMessageAttachments s (redactUnavailableQuote acc m))"
proof -
  have d: "rendered acc m (decodeMessageAttachments s (redactUnavailableQuote acc m))" by (rule redact_decode_rendered)
  show "may_show s account roomID (normalizeLegacySysMsg s (decodeMessageAttachments s (redactUnavailableQuote acc m)))"
    using rendered_same [OF d normalize_one_same [of _ s]] assms by (auto simp: may_show_iff rendered_def in_window_def split: option.splits)
  show "may_show s account roomID (decodeMessageAttachments s (redactUnavailableQuote acc m))"
    using d assms by (auto simp: may_show_iff rendered_def in_window_def split: option.splits)
qed

lemma found_in_room: "findMessage s roomID i = Inr m \<Longrightarrow> hm_RoomID m = roomID"
  by (auto simp: findMessage_def split: if_splits sum.splits option.splits)

lemma Surrounding_shown:
  assumes "honest_store home s" "LoadSurroundingMessages s account roomID req = Inr resp" "m \<in> set (ls_Messages resp)"
  shows "may_show s account roomID m"
proof (cases "lsr_Timestamp req")
  case None
  define limit where "limit = page_limit surroundingPageSize (lsr_Limit req)"
  have run: "loadSurroundingByMessageID s account roomID req limit = Inr resp"
    using assms(2) None by (auto simp: LoadSurroundingMessages_def Let_def limit_def split: if_splits)
  obtain acc where acc: "getAccessSince s account roomID = Inr acc" using run by (auto simp: loadSurroundingByMessageID_def split: sum.splits)
  obtain c where c: "findMessage s roomID (lsr_MessageID req) = Inr c" using run by (auto simp: loadSurroundingByMessageID_def acc split: sum.splits)
  have ok: "\<not> (case acc of None \<Rightarrow> False | Some since \<Rightarrow> hm_CreatedAt c < since)" using run by (auto simp: loadSurroundingByMessageID_def acc c split: if_splits)
  then have win: "in_window acc roomID c" using found_in_room [OF c] by (simp add: in_window_def split: option.splits)
  obtain createdAt newest oldest where times: "resolveRoomTimesOrError s roomID (lsr_Meta req) (hs_now s) = Inr createdAt"
    "walkBounds s createdAt (hs_now s) = (newest, oldest)"
    using run ok by (auto simp: loadSurroundingByMessageID_def acc c Let_def split: sum.splits prod.splits)
  show ?thesis
  proof (cases "limit - 1 \<le> 0")
    case True
    then have "ls_Messages resp = [normalizeLegacySysMsg s (decodeMessageAttachments s (redactUnavailableQuote acc c))]"
      using run ok by (auto simp: loadSurroundingByMessageID_def acc c Let_def times)
    then show ?thesis using one_shown(1) [OF acc win] assms(3) by simp
  next
    case False
    then obtain pr1 pr2 where "assembleSurrounding s roomID acc (Some c) (read_back s acc roomID (hm_CreatedAt c) oldest pr1)
        (GetMessagesAfter (hs_repo s) roomID (hm_CreatedAt c) newest pr2) = Inr resp"
      using run ok by (auto simp: loadSurroundingByMessageID_def acc c Let_def times split: sum.splits)
    then show ?thesis
    proof (rule assemble_shown [OF acc _ assms(3)])
      fix page x
      assume "GetMessagesAfter (hs_repo s) roomID (hm_CreatedAt c) newest pr2 = Inr page" "x \<in> set (pg_Rows page)"
      then show "in_window acc roomID x" by (rule after_in_window [OF assms(1)]) (use win in \<open>auto simp: in_window_def\<close>)
    qed (use read_back_window [OF assms(1)] win in auto)
  qed
next
  case (Some pivot)
  define limit where "limit = page_limit surroundingPageSize (lsr_Limit req)"
  have run: "loadSurroundingByTimestamp s account roomID req pivot limit = Inr resp"
    using assms(2) Some by (auto simp: LoadSurroundingMessages_def Let_def limit_def split: if_splits)
  obtain acc createdAt where chk: "checkAccessAndRoomTimes s account roomID (lsr_Meta req) (hs_now s) = Inr (acc, createdAt)"
    using run by (auto simp: loadSurroundingByTimestamp_def Let_def split: sum.splits if_splits)
  have ok: "\<not> (case acc of None \<Rightarrow> False | Some since \<Rightarrow> pivot < since)" using run by (auto simp: loadSurroundingByTimestamp_def chk Let_def split: if_splits)
  obtain newest oldest where wb: "walkBounds s createdAt (hs_now s) = (newest, oldest)" by fastforce
  obtain before pr1 pr2 where "assembleSurrounding s roomID acc None (read_back s acc roomID before oldest pr1)
      (if limit div 2 = 0 then Inr no_page else GetMessagesAfter (hs_repo s) roomID pivot newest pr2) = Inr resp"
    using run ok unfolding loadSurroundingByTimestamp_def Let_def chk sum.case prod.case wb by (auto split: sum.splits if_splits)
  then show ?thesis
  proof (rule assemble_shown [OF checked_access [OF chk] _ assms(3)])
    fix page x
    assume page: "(if limit div 2 = 0 then Inr no_page else GetMessagesAfter (hs_repo s) roomID pivot newest pr2) = Inr page" and x: "x \<in> set (pg_Rows page)"
    then have "GetMessagesAfter (hs_repo s) roomID pivot newest pr2 = Inr page" by (auto simp: no_page_def split: if_splits)
    then show "in_window acc roomID x" by (rule after_in_window [OF assms(1) _ x]) (use ok in auto)
  qed (use read_back_window [OF assms(1)] in auto)
qed

lemma GetMessageByID_shown:
  assumes "GetMessageByID s account roomID i = Inr m"
  shows "may_show s account roomID m"
proof -
  obtain acc c where acc: "getAccessSince s account roomID = Inr acc" and c: "findMessage s roomID i = Inr c"
    and ok: "\<not> (case acc of None \<Rightarrow> False | Some since \<Rightarrow> hm_CreatedAt c < since)"
    and m: "m = normalizeLegacySysMsg s (decodeMessageAttachments s (redactUnavailableQuote acc c))"
    using assms by (auto simp: GetMessageByID_def split: sum.splits if_splits)
  have "in_window acc roomID c" using ok found_in_room [OF c] by (simp add: in_window_def split: option.splits)
  then show ?thesis using one_shown(1) [OF acc] m by blast
qed

lemma GetMessagesByIDs_shown:
  assumes "GetMessagesByIDs s account roomID ids = Inr ms" "m \<in> set ms"
  shows "may_show s account roomID m"
proof -
  obtain acc fetched where acc: "getAccessSince s account roomID = Inr acc"
    and ms: "ms = render s acc (filter (\<lambda>m. hm_RoomID m = roomID \<and> \<not> (case acc of None \<Rightarrow> False | Some since \<Rightarrow> hm_CreatedAt m < since)) fetched)"
    using assms by (auto simp: GetMessagesByIDs_def split: sum.splits if_splits)
  show ?thesis by (rule render_shown [OF acc _ assms(2) [unfolded ms]]) (auto simp: in_window_def split: option.splits)
qed

lemma honest_thread:
  "honest_store home s \<Longrightarrow> row \<in> set (fst (hs_thread s tr before oldest st n)) \<Longrightarrow> rp_decrypt (hs_repo s) row = Inr m \<Longrightarrow>
    hm_RoomID m = home tr \<and> oldest \<le> hm_CreatedAt m \<and> hm_CreatedAt m < before"
  unfolding honest_store_def by blast

lemma honest_parent:
  "honest_store home s \<Longrightarrow> hs_byID s i = Inr (Some row) \<Longrightarrow> rp_decrypt (hs_repo s) row = Inr m \<Longrightarrow> hm_ThreadRoomID m \<noteq> '''' \<Longrightarrow>
    home (hm_ThreadRoomID m) = hm_RoomID m"
  unfolding honest_store_def by blast

lemma thread_rows_window:
  assumes "honest_store home s" "Repository_GetThreadMessages s tr before oldest pageReq = Inr page" "x \<in> set (pg_Rows page)"
  shows "hm_RoomID x = home tr \<and> oldest \<le> hm_CreatedAt x"
proof -
  let ?st = "case pr_Cursor pageReq of None \<Rightarrow> [] | Some c \<Rightarrow> cur_state c"
  obtain rows st' e where drv: "hs_thread s tr before oldest ?st (nat (pr_PageSize pageReq)) = (rows, st', e)"
    by (cases "hs_thread s tr before oldest ?st (nat (pr_PageSize pageReq))")
  have "scanMessagesUpTo (rp_decrypt (hs_repo s)) rows (nat (pr_PageSize pageReq)) = Inr (pg_Rows page)"
    using assms(2) by (auto simp: Repository_GetThreadMessages_def drv Let_def split: option.splits sum.splits)
  from scan_rows [OF this assms(3)] obtain row where "row \<in> set rows" "rp_decrypt (hs_repo s) row = Inr x" by blast
  then show ?thesis using honest_thread [OF assms(1), of row tr before oldest ?st "nat (pr_PageSize pageReq)" x] by (simp add: drv)
qed

lemma found_row: "findMessage s roomID i = Inr m \<Longrightarrow> \<exists>row. hs_byID s i = Inr (Some row) \<and> rp_decrypt (hs_repo s) row = Inr m"
  by (auto simp: findMessage_def Repository_GetMessageByID_def split: if_splits sum.splits option.splits)

lemma GetThreadMessages_shown:
  assumes "honest_store home s" "GetThreadMessages s account roomID req = Inr resp"
  shows "may_show s account roomID (gt_ParentMessage resp) \<and> (\<forall>m \<in> set (gt_Messages resp). may_show s account roomID m)"
proof -
  obtain acc c where acc: "getAccessSince s account roomID = Inr acc" and c: "findMessage s roomID (gtr_ThreadMessageID req) = Inr c"
    and ok: "\<not> (case acc of None \<Rightarrow> False | Some since \<Rightarrow> hm_CreatedAt c < since)"
    using assms(2) by (auto simp: GetThreadMessages_def split: sum.splits if_splits)
  let ?c = "decodeMessageAttachments s (redactUnavailableQuote acc c)"
  let ?oldest = "hs_now s - hs_historyFloor s"
  let ?fl = "case acc of None \<Rightarrow> ?oldest | Some since \<Rightarrow> if since > ?oldest then since else ?oldest"
  have "in_window acc roomID c" using ok found_in_room [OF c] by (simp add: in_window_def split: option.splits)
  then have parent: "may_show s account roomID ?c" by (rule one_shown(2) [OF acc])
  have room: "hm_ThreadRoomID ?c = hm_ThreadRoomID c" by (simp add: decodeMessageAttachments_def redactUnavailableQuote_def split: option.splits)
  show ?thesis
  proof (cases "gt_Messages resp = []")
    case True
    have "gt_ParentMessage resp = ?c"
      using assms(2) ok by (auto simp: GetThreadMessages_def acc c Let_def emptyThreadResponse_def split: if_splits sum.splits)
    then show ?thesis using parent True by simp
  next
    case False
    then obtain newest pageReq page where tr: "hm_ThreadRoomID ?c \<noteq> ''''"
      and page: "Repository_GetThreadMessages s (hm_ThreadRoomID ?c) newest ?fl pageReq = Inr page"
      and msgs: "gt_Messages resp = setDecodedAttachments s (redactUnavailableQuotes acc (pg_Rows page))" and p: "gt_ParentMessage resp = ?c"
      using assms(2) ok by (auto simp: GetThreadMessages_def acc c Let_def emptyThreadResponse_def split: if_splits sum.splits)
    have home: "home (hm_ThreadRoomID ?c) = roomID"
      using found_row [OF c] found_in_room [OF c] tr honest_parent [OF assms(1)] unfolding room by blast
    have "in_window acc roomID x" if "x \<in> set (pg_Rows page)" for x
      using thread_rows_window [OF assms(1) page that] home by (auto simp: in_window_def split: option.splits if_splits)
    then show ?thesis using parent p msgs one_shown(2) [OF acc] by (auto simp: setDecodedAttachments_def redactUnavailableQuotes_def)
  qed
qed

text \<open>C3: A member is shown only what its membership shares. Whatever a client asks of the six reads, with bounds, limits, cursors and ids of its own making, every
  message in the reply belongs to the room of the request, to which the account is subscribed; and when the subscription
  shares history from some time on, the message is not older, and a quote in it is withheld unless what it quotes is not older either. An account that is
  not subscribed, or whose subscription cannot be read, gets no message at all.\<close>

theorem reads_stay_in_window:
  assumes "honest_store home s" and "hs_shared s account roomID \<noteq> Inr (Some go_zero_time, True)"
  shows "(LoadHistory s account roomID q1 = Inr r1 \<longrightarrow> list_all (may_show s account roomID) (lh_Messages r1))
    \<and> (LoadNextMessages s account roomID q2 = Inr r2 \<longrightarrow> list_all (may_show s account roomID) (ln_Messages r2))
    \<and> (LoadSurroundingMessages s account roomID q3 = Inr r3 \<longrightarrow> list_all (may_show s account roomID) (ls_Messages r3))
    \<and> (GetMessageByID s account roomID i = Inr m \<longrightarrow> may_show s account roomID m)
    \<and> (GetMessagesByIDs s account roomID ids = Inr ms \<longrightarrow> list_all (may_show s account roomID) ms)
    \<and> (GetThreadMessages s account roomID q6 = Inr r6 \<longrightarrow> list_all (may_show s account roomID) (gt_ParentMessage r6 # gt_Messages r6))"
proof (intro conjI impI)
  show "list_all (may_show s account roomID) (lh_Messages r1)" if "LoadHistory s account roomID q1 = Inr r1"
    using LoadHistory_shown [OF assms(1) that] by (simp add: list_all_iff)
  show "list_all (may_show s account roomID) (ln_Messages r2)" if "LoadNextMessages s account roomID q2 = Inr r2"
    using LoadNext_shown [OF assms(1) that _ assms(2)] by (simp add: list_all_iff)
  show "list_all (may_show s account roomID) (ls_Messages r3)" if "LoadSurroundingMessages s account roomID q3 = Inr r3"
    using Surrounding_shown [OF assms(1) that] by (simp add: list_all_iff)
  show "may_show s account roomID m" if "GetMessageByID s account roomID i = Inr m"
    using GetMessageByID_shown [OF that] .
  show "list_all (may_show s account roomID) ms" if "GetMessagesByIDs s account roomID ids = Inr ms"
    using GetMessagesByIDs_shown [OF that] by (simp add: list_all_iff)
  show "list_all (may_show s account roomID) (gt_ParentMessage r6 # gt_Messages r6)" if "GetThreadMessages s account roomID q6 = Inr r6"
    using GetThreadMessages_shown [OF assms(1) that] by (simp add: list_all_iff)
qed

section \<open>A room with five messages\<close>

declare drain.simps [code]

definition demo_hmsg :: "string \<Rightarrow> int \<Rightarrow> string \<Rightarrow> string \<Rightarrow> hmsg" where
  "demo_hmsg i t parent threadRoom = \<lparr>hm_RoomID = ''r1'', hm_CreatedAt = t, hm_MessageID = i, hm_Sender = no_participant\<lparr>cp_Account := ''ann''\<rparr>, hm_Msg = ''hello'',
     hm_Mentions = [], hm_Attachments = [], hm_DecodedAttachments = [], hm_Card = None, hm_CardAction = None, hm_TShow = False, hm_TCount = None,
     hm_ThreadLastMsgAt = None, hm_ThreadParentID = parent, hm_ThreadParentCreatedAt = None, hm_QuotedParentMessage = None, hm_VisibleTo = '''',
     hm_Reactions = [], hm_Deleted = False, hm_Type = '''', hm_SysMsgData = '''', hm_SiteID = ''s1'', hm_EditedAt = None, hm_UpdatedAt = None,
     hm_EncPayload = '''', hm_EncMeta = None, hm_ThreadRoomID = threadRoom, hm_PinnedAt = None, hm_PinnedBy = None, hm_Truncated = False\<rparr>"

definition demo_timeline :: "hmsg list" where
  "demo_timeline = [demo_hmsg ''m4'' 4000 '''' '''', demo_hmsg ''m3'' 3000 '''' '''', demo_hmsg ''m2'' 3000 '''' '''', demo_hmsg ''m1'' 2000 '''' '''']"

definition demo_parent :: hmsg where "demo_parent = demo_hmsg ''p'' 1000 '''' ''t1''"
definition demo_reply :: hmsg where "demo_reply = demo_hmsg ''y'' 3500 ''p'' ''t1''"

definition demo_part :: "string \<Rightarrow> int \<Rightarrow> hmsg list" where
  "demo_part room b = (if room = ''r1'' \<and> b = 0 then demo_timeline @ [demo_parent] else [])"

definition demo_history :: "int option \<Rightarrow> hmsg HistoryService" where
  "demo_history since = \<lparr>hs_repo = \<lparr>rp_driver = mem_driver demo_part hm_CreatedAt, rp_decrypt = Inr, rp_bucket = \<lparr>windowMs = 1000000\<rparr>, rp_maxBuckets = 5, rp_walkFanout = 1\<rparr>,
     hs_byID = (\<lambda>i. Inr (find (\<lambda>m. hm_MessageID m = i) (demo_reply # demo_parent # demo_timeline))),
     hs_thread = (\<lambda>tr before oldest st n. (if tr = ''t1'' then take n (filter (\<lambda>m. oldest \<le> hm_CreatedAt m \<and> hm_CreatedAt m < before) [demo_reply]) else [], [], None)),
     hs_shared = (\<lambda>account room. Inr (since, account = ''bob'' \<and> room = ''r1'')), hs_minSeen = (\<lambda>_. Inr None), hs_threadMinSeen = (\<lambda>_. Inr None),
     hs_roomTimes = (\<lambda>_. Inr (4000, 500)), hs_fallback = (\<lambda>_. (go_zero_time, False)), hs_users = None, hs_appNames = None, hs_historyFloor = 10000,
     hs_pageBudget = \<lparr>bmax = 0\<rparr>, hs_size = (\<lambda>_. Some 10), hs_decode = (\<lambda>_. None), hs_degradation = None, hs_siteID = ''s1'', hs_now = 10000,
     hs_ctxErr = None\<rparr>"

lemma demo_part_rows: "m \<in> set (demo_part room b) \<Longrightarrow> room = ''r1'' \<and> b = 0 \<and> hm_RoomID m = ''r1'' \<and> Of \<lparr>windowMs = 1000000\<rparr> (hm_CreatedAt m) = 0"
  by (auto simp: demo_part_def demo_timeline_def demo_parent_def demo_hmsg_def Of_def quot_def split: if_splits)

lemma mem_driver_selects: "row \<in> set (fst (mem_driver part created q st n)) \<Longrightarrow> row \<in> set (select part created q)"
  by (auto simp: mem_driver_def mem_left_def Let_def dest: in_set_takeD in_set_dropD)

lemma find_in: "find P xs = Some m \<Longrightarrow> m \<in> set xs"
  by (induction xs) (auto split: if_splits)

lemma demo_room: "\<forall>m \<in> set (demo_reply # demo_parent # demo_timeline). hm_RoomID m = ''r1''"
  by (simp add: demo_reply_def demo_parent_def demo_timeline_def demo_hmsg_def)

lemma demo_honest: "honest_store (\<lambda>_. ''r1'') (demo_history since)"
proof -
  let ?sz = "\<lparr>windowMs = 1000000\<rparr> :: Sizer"
  have "row_matches ?sz q m" if "driven (mem_driver demo_part hm_CreatedAt) Inr q m" for q m
  proof -
    have "m \<in> set (select demo_part hm_CreatedAt q)" using that mem_driver_selects by (fastforce simp: driven_def)
    then have "m \<in> set (demo_part (bq_room q) (bq_bucket q))" "case bq_after q of None \<Rightarrow> True | Some t \<Rightarrow> t < hm_CreatedAt m"
      "case bq_before q of None \<Rightarrow> True | Some t \<Rightarrow> hm_CreatedAt m < t" by (auto simp: select_def Let_def split: if_splits)
    then show ?thesis using demo_part_rows by (simp add: row_matches_def)
  qed
  then have rows: "\<forall>q m. driven (rp_driver (hs_repo (demo_history since))) (rp_decrypt (hs_repo (demo_history since))) q m \<longrightarrow>
      row_matches (rp_bucket (hs_repo (demo_history since))) q m" by (simp add: demo_history_def)
  have found: "hm_RoomID m = ''r1''" if "hs_byID (demo_history since) i = Inr (Some m)" for i m
  proof -
    have "find (\<lambda>m. hm_MessageID m = i) (demo_reply # demo_parent # demo_timeline) = Some m"
      using that by (simp add: demo_history_def del: find.simps)
    then show ?thesis using find_in [of "\<lambda>m. hm_MessageID m = i"] demo_room by blast
  qed
  have thread: "hm_RoomID m = ''r1'' \<and> oldest \<le> hm_CreatedAt m \<and> hm_CreatedAt m < before"
    if "m \<in> set (fst (hs_thread (demo_history since) tr before oldest st n))" for tr before oldest st n m
    using that demo_room by (auto simp: demo_history_def dest!: in_set_takeD split: if_splits)
  have plain: "rp_decrypt (hs_repo (demo_history since)) = Inr" "0 < windowMs (rp_bucket (hs_repo (demo_history since)))"
    by (simp_all add: demo_history_def)
  show ?thesis unfolding honest_store_def
  proof (intro conjI allI impI)
    fix tr before oldest st n row m
    assume "row \<in> set (fst (hs_thread (demo_history since) tr before oldest st n))" "rp_decrypt (hs_repo (demo_history since)) row = Inr m"
    then have "m \<in> set (fst (hs_thread (demo_history since) tr before oldest st n))" using plain(1) by simp
    then show "hm_RoomID m = ''r1''" "oldest \<le> hm_CreatedAt m" "hm_CreatedAt m < before" using thread by blast+
  next
    fix i row m
    assume "hs_byID (demo_history since) i = Inr (Some row)" "rp_decrypt (hs_repo (demo_history since)) row = Inr m"
    then have "hs_byID (demo_history since) i = Inr (Some m)" using plain(1) by simp
    then show "''r1'' = hm_RoomID m" using found by simp
  qed (use rows plain(2) in blast)+
qed

lemma demo_access: "checkAccessAndRoomTimes (demo_history since) ''bob'' ''r1'' None (hs_now (demo_history since)) = Inr (since, 500)"
  by (simp add: checkAccessAndRoomTimes_def getAccessSince_def resolveRoomTimesOrError_def resolveRoomTimes_def fetchCreatedAt_def demo_history_def)

definition demo_load :: "int option \<Rightarrow> LoadHistoryRequest \<Rightarrow> goerr + LoadHistoryResponse" where
  "demo_load since req = (case history_page (demo_history since) since 500 ''r1'' req of Inl err \<Rightarrow> Inl err
     | Inr page \<Rightarrow> history_reply (demo_history since) since ''r1'' page)"

lemma demo_load: "lhr_Meta req = None \<Longrightarrow> LoadHistory (demo_history since) ''bob'' ''r1'' req = demo_load since req"
  by (simp add: LoadHistory_def demo_access demo_load_def)

text \<open>bob's membership shares the room from 2500 on: he reads three messages.\<close>

theorem reads_stay_in_window_witness:
  "\<exists>resp. LoadHistory (demo_history (Some 2500)) ''bob'' ''r1'' \<lparr>lhr_Before = None, lhr_Limit = 20, lhr_Meta = None\<rparr> = Inr resp
     \<and> map hm_MessageID (lh_Messages resp) = [''m4'', ''m3'', ''m2''] \<and> list_all (may_show (demo_history (Some 2500)) ''bob'' ''r1'') (lh_Messages resp)"
proof -
  let ?s = "demo_history (Some 2500)" and ?q = "\<lparr>lhr_Before = None, lhr_Limit = 20, lhr_Meta = None\<rparr>"
  have "map_sum (\<lambda>_. ()) (\<lambda>r. map hm_MessageID (lh_Messages r)) (demo_load (Some 2500) ?q) = Inr [''m4'', ''m3'', ''m2'']" by code_simp
  then have ids: "map_sum (\<lambda>_. ()) (\<lambda>r. map hm_MessageID (lh_Messages r)) (LoadHistory ?s ''bob'' ''r1'' ?q) = Inr [''m4'', ''m3'', ''m2'']"
    by (simp add: demo_load)
  then obtain resp where resp: "LoadHistory ?s ''bob'' ''r1'' ?q = Inr resp" by (cases "LoadHistory ?s ''bob'' ''r1'' ?q") auto
  have "hs_shared ?s ''bob'' ''r1'' \<noteq> Inr (Some go_zero_time, True)" by (simp add: demo_history_def go_zero_time_def)
  then have "list_all (may_show ?s ''bob'' ''r1'') (lh_Messages resp)" using reads_stay_in_window [OF demo_honest] resp by blast
  then show ?thesis using resp ids by auto
qed

end
