(* ===== verification/Hist_Pages.thy ===== *)
theory Hist_Pages
  imports Hist_Access
begin

text \<open>
  Cutting a reply: the rows of a page that is too large are dropped at the boundary of a millisecond, so that a client that goes on from the
  oldest row it got loses none of them. The limit of a page has no such care, and a small room shows what that costs.
\<close>

section \<open>Runs of one timestamp\<close>

lemma run_back_spec: "run_back t msgs i \<le> i \<and> (\<forall>k. run_back t msgs i \<le> k \<longrightarrow> k < i \<longrightarrow> hm_CreatedAt (msgs ! k) = t)
    \<and> (run_back t msgs i = 0 \<or> hm_CreatedAt (msgs ! (run_back t msgs i - 1)) \<noteq> t)"
proof (induction t msgs i rule: run_back.induct)
  case (2 t msgs i)
  show ?case
  proof (cases "hm_CreatedAt (msgs ! i) = t")
    case True
    then show ?thesis using 2 by (auto simp: less_Suc_eq)
  qed auto
qed simp

lemma run_on_spec: "i \<le> run_on t msgs i \<and> (\<forall>k. i \<le> k \<longrightarrow> k < run_on t msgs i \<longrightarrow> k < length msgs \<and> hm_CreatedAt (msgs ! k) = t)
    \<and> (run_on t msgs i < length msgs \<longrightarrow> hm_CreatedAt (msgs ! run_on t msgs i) \<noteq> t)"
proof (induction t msgs i rule: run_on.induct)
  case (1 t msgs i)
  show ?case
  proof (cases "i < length msgs \<and> hm_CreatedAt (msgs ! i) = t")
    case True
    then have "run_on t msgs i = run_on t msgs (i + 1)" by (subst run_on.simps) simp
    then show ?thesis using 1 [OF True] True by (metis Suc_eq_plus1 Suc_leD Suc_leI le_neq_implies_less)
  next
    case False
    then have "run_on t msgs i = i" by (subst run_on.simps) auto
    then show ?thesis using False by auto
  qed
qed

lemma run_on_le: "i \<le> length msgs \<Longrightarrow> run_on t msgs i \<le> length msgs"
  using run_on_spec [of i t msgs] by (metis leI le_refl less_Suc_eq_le nat_less_le not_less_eq_eq order.strict_trans1 diff_less Suc_pred')

section \<open>A page that is cut\<close>

definition newest_first :: "hmsg list \<Rightarrow> bool" where
  "newest_first msgs \<longleftrightarrow> sorted_wrt (\<lambda>a b. hm_CreatedAt b \<le> hm_CreatedAt a) msgs"

text \<open>The first \<open>n\<close> rows are kept, at least one of them, and every row that is not is strictly older.\<close>

definition cut_cleanly :: "hmsg list \<Rightarrow> nat \<Rightarrow> bool" where
  "cut_cleanly msgs n \<longleftrightarrow> n \<le> length msgs \<and> (msgs \<noteq> [] \<longrightarrow> 0 < n)
     \<and> (\<forall>i j. i < n \<longrightarrow> n \<le> j \<longrightarrow> j < length msgs \<longrightarrow> hm_CreatedAt (msgs ! j) < hm_CreatedAt (msgs ! i))"

lemma newest_first_nth: "newest_first msgs \<Longrightarrow> i \<le> j \<Longrightarrow> j < length msgs \<Longrightarrow> hm_CreatedAt (msgs ! j) \<le> hm_CreatedAt (msgs ! i)"
  unfolding newest_first_def by (cases "i = j") (auto simp: sorted_wrt_iff_nth_less)

lemma timestamp_cut:
  assumes "newest_first msgs" "i < length msgs" "0 < i" "timestampRun msgs i = (start, stop)"
  shows "cut_cleanly msgs (if start = 0 then stop else start)"
proof -
  let ?t = "hm_CreatedAt (msgs ! i)"
  have start_eq: "start = run_back ?t msgs i" and stop_eq: "stop = run_on ?t msgs (i + 1)" using assms(4) by (simp_all add: timestampRun_def Let_def)
  note bwd = run_back_spec [of ?t msgs i, folded start_eq] and fwd = run_on_spec [of "i + 1" ?t msgs, folded stop_eq]
  have older: "hm_CreatedAt (msgs ! b) < hm_CreatedAt (msgs ! a)"
    if "a \<le> c" "c < d" "d \<le> b" "b < length msgs" "hm_CreatedAt (msgs ! c) \<noteq> hm_CreatedAt (msgs ! d)" for a b c d
  proof -
    have "hm_CreatedAt (msgs ! b) \<le> hm_CreatedAt (msgs ! d)" "hm_CreatedAt (msgs ! d) \<le> hm_CreatedAt (msgs ! c)"
      "hm_CreatedAt (msgs ! c) \<le> hm_CreatedAt (msgs ! a)" using newest_first_nth [OF assms(1)] that(1-4) by auto
    then show ?thesis using that(5) by auto
  qed
  show ?thesis
  proof (cases "start = 0")
    case True
    have "stop \<le> length msgs" using run_on_le [of "i + 1" msgs ?t] assms(2) stop_eq by simp
    moreover have "hm_CreatedAt (msgs ! b) < hm_CreatedAt (msgs ! a)" if "a < stop" "stop \<le> b" "b < length msgs" for a b
    proof -
      have "hm_CreatedAt (msgs ! (stop - 1)) = ?t"
      proof (cases "stop = i + 1")
        case False
        then have "i + 1 \<le> stop - 1" "stop - 1 < stop" using fwd by linarith+
        then show ?thesis using fwd by blast
      qed simp
      moreover have "hm_CreatedAt (msgs ! stop) \<noteq> ?t" using fwd that(2,3) by linarith
      ultimately show ?thesis using older [of a "stop - 1" stop b] that by auto
    qed
    ultimately show ?thesis using True fwd assms(3) by (auto simp: cut_cleanly_def)
  next
    case False
    have s: "start - 1 < start" "start \<le> i" "hm_CreatedAt (msgs ! (start - 1)) \<noteq> ?t" "hm_CreatedAt (msgs ! start) = ?t"
      using False bwd by (auto simp: le_eq_less_or_eq)
    have "hm_CreatedAt (msgs ! b) < hm_CreatedAt (msgs ! a)" if "a < start" "start \<le> b" "b < length msgs" for a b
      using older [of a "start - 1" start b] that s by auto
    then show ?thesis using False s assms(2) by (auto simp: cut_cleanly_def)
  qed
qed

lemma Fit_prefix: "Fit enc items b envelope = Some (kept, oversize) \<Longrightarrow> \<exists>k. kept = take k items \<and> (items \<noteq> [] \<longrightarrow> 0 < k)"
  by (auto simp: Fit_def Let_def split: if_splits option.splits prod.splits) (metis gr0I length_greater_0_conv take_all_iff order_refl)+

lemma blankRange_same:
  "length (blankRange lo hi msgs) = length msgs" "i < length msgs \<Longrightarrow> hm_CreatedAt (blankRange lo hi msgs ! i) = hm_CreatedAt (msgs ! i)"
  "i < length msgs \<Longrightarrow> hm_MessageID (blankRange lo hi msgs ! i) = hm_MessageID (msgs ! i)"
  by (auto simp: blankRange_def nth_enumerate_eq blankOversize_def stripRichContent_def)

lemma times_same:
  assumes "length msgs' = length msgs" "\<forall>i < length msgs. hm_CreatedAt (msgs' ! i) = hm_CreatedAt (msgs ! i)"
  shows "newest_first msgs \<Longrightarrow> newest_first msgs'" "cut_cleanly msgs n \<Longrightarrow> cut_cleanly msgs' n"
proof -
  show "newest_first msgs'" if "newest_first msgs" using that assms by (simp add: newest_first_def sorted_wrt_iff_nth_less)
  show "cut_cleanly msgs' n" if cut: "cut_cleanly msgs n"
  proof -
    have "hm_CreatedAt (msgs' ! j) < hm_CreatedAt (msgs' ! i)" if "i < n" "n \<le> j" "j < length msgs" for i j
      using cut assms(2) that by (simp add: cut_cleanly_def)
    then show ?thesis using cut assms(1) by (auto simp: cut_cleanly_def)
  qed
qed

lemma newest_first_same:
  assumes "length msgs' = length msgs" "\<forall>i < length msgs. hm_CreatedAt (msgs' ! i) = hm_CreatedAt (msgs ! i)"
  shows "newest_first msgs' = newest_first msgs" "cut_cleanly msgs' n = cut_cleanly msgs n"
  using times_same [OF assms] times_same [of msgs msgs'] assms by auto

lemma blank_ids: "n \<le> length msgs \<Longrightarrow> map hm_MessageID (take n (blankRange lo hi msgs)) = map hm_MessageID (take n msgs)"
  by (rule nth_equalityI) (auto simp: blankRange_same)

lemma fitPage_cut:
  assumes "newest_first msgs" "fitPage s msgs envelope = Inr (kept, trimmed)"
  shows "cut_cleanly msgs (length kept) \<and> trimmed = (length kept < length msgs) \<and> map hm_MessageID kept = map hm_MessageID (take (length kept) msgs)"
proof -
  obtain pre oversize where fit: "Fit (hs_size s) msgs (hs_pageBudget s) envelope = Some (pre, oversize)"
    using assms(2) by (auto simp: fitPage_def split: option.splits)
  obtain k where k: "pre = take k msgs" "msgs \<noteq> [] \<longrightarrow> 0 < k" using Fit_prefix [OF fit] by blast
  define m1 where "m1 = (if oversize then blankRange 0 1 msgs else msgs)"
  have m1: "length m1 = length msgs" "\<forall>i < length msgs. hm_CreatedAt (m1 ! i) = hm_CreatedAt (msgs ! i)"
    "\<And>n. n \<le> length msgs \<Longrightarrow> map hm_MessageID (take n m1) = map hm_MessageID (take n msgs)"
    by (auto simp: m1_def blankRange_same blank_ids)
  note same = newest_first_same [OF m1(1,2)]
  show ?thesis
  proof (cases "length pre = length m1")
    case True
    then have "kept = m1" "\<not> trimmed" using assms(2) by (auto simp: fitPage_def fit m1_def [symmetric] Let_def)
    then show ?thesis using m1(1) m1(3) [of "length msgs"] by (auto simp: cut_cleanly_def)
  next
    case False
    obtain start stop where run: "timestampRun m1 (length pre) = (start, stop)" by fastforce
    have i: "0 < length pre" "length pre < length m1" using False k m1(1) by auto
    let ?n = "if start = 0 then stop else start"
    have cut: "cut_cleanly m1 ?n" using timestamp_cut [OF _ i(2,1) run] same(1) assms(1) by blast
    then have n: "?n \<le> length msgs" using m1(1) by (simp add: cut_cleanly_def)
    have "kept = take ?n (if start = 0 then blankRange 0 stop m1 else m1)" "trimmed = (?n < length m1)"
      using assms(2) False run by (auto simp: fitPage_def fit m1_def [symmetric] Let_def split: if_splits)
    then have "length kept = ?n \<and> trimmed = (?n < length msgs) \<and> map hm_MessageID kept = map hm_MessageID (take ?n m1)"
      using n m1(1) blank_ids [of stop m1 0 stop] by (cases "start = 0") (simp_all add: blankRange_same(1))
    then show ?thesis using cut same(2) [of ?n] m1(3) [OF n] by simp
  qed
qed

text \<open>C14: A reply of LoadHistory that is cut to its size loses nothing. When the page that was read is newest first, the messages of the reply are its first rows, in
  order and at least one when there is one; the reply says that it was limited exactly when rows are missing, and then that there is more; and
  every row that is missing is strictly older than all that are there, so that the client's next request, from before the oldest message it got, reaches it.\<close>

theorem cut_reply_loses_nothing:
  assumes "checkAccessAndRoomTimes s account roomID (lhr_Meta req) (hs_now s) = Inr (acc, createdAt)"
    and "history_page s acc createdAt roomID req = Inr page" and "newest_first (pg_Rows page)" and "LoadHistory s account roomID req = Inr resp"
  shows "cut_cleanly (pg_Rows page) (length (lh_Messages resp))
    \<and> map hm_MessageID (lh_Messages resp) = map hm_MessageID (take (length (lh_Messages resp)) (pg_Rows page))
    \<and> lh_SizeLimited resp = (length (lh_Messages resp) < length (pg_Rows page)) \<and> \<not> (lh_SizeLimited resp \<and> \<not> lh_HasNext resp)"
proof -
  have fit: "fitPage s (render s acc (pg_Rows page)) pageEnvelope = Inr (lh_Messages resp, lh_SizeLimited resp)"
    and more: "lh_HasNext resp = ((pg_HasNext page \<or> lh_SizeLimited resp) \<and> lh_Messages resp \<noteq> [])"
    using assms(4) by (auto simp: LoadHistory_def assms(1,2) history_reply_def split: sum.splits prod.splits)
  have rel: "length (render s acc (pg_Rows page)) = length (pg_Rows page)"
    "\<forall>i < length (pg_Rows page). rendered acc (pg_Rows page ! i) (render s acc (pg_Rows page) ! i)"
    using render_rendered [of acc "pg_Rows page" s] by (auto simp: list_all2_conv_all_nth)
  have times: "\<forall>i < length (pg_Rows page). hm_CreatedAt (render s acc (pg_Rows page) ! i) = hm_CreatedAt (pg_Rows page ! i)"
    and ids: "map hm_MessageID (take n (render s acc (pg_Rows page))) = map hm_MessageID (take n (pg_Rows page))" for n
    using rel by (auto simp: rendered_def intro!: nth_equalityI)
  note same = newest_first_same [OF rel(1) times]
  have cut: "cut_cleanly (render s acc (pg_Rows page)) (length (lh_Messages resp))"
    "lh_SizeLimited resp = (length (lh_Messages resp) < length (render s acc (pg_Rows page)))"
    "map hm_MessageID (lh_Messages resp) = map hm_MessageID (take (length (lh_Messages resp)) (render s acc (pg_Rows page)))"
    using fitPage_cut [OF _ fit] assms(3) same(1) by auto
  have "\<not> (lh_SizeLimited resp \<and> \<not> lh_HasNext resp)" using cut(1,2) more by (auto simp: cut_cleanly_def)
  then show ?thesis using cut same(2) ids rel(1) by simp
qed

section \<open>The room of five messages\<close>

definition tight :: "int option \<Rightarrow> hmsg HistoryService" where "tight since = (demo_history since)\<lparr>hs_pageBudget := \<lparr>bmax = 280\<rparr>\<rparr>"

text \<open>Two of the five messages fit, but the second shares its millisecond with the third: the reply holds the first alone.\<close>

theorem cut_reply_loses_nothing_witness:
  "\<exists>page resp. history_page (tight None) None 500 ''r1'' \<lparr>lhr_Before = None, lhr_Limit = 20, lhr_Meta = None\<rparr> = Inr page
     \<and> LoadHistory (tight None) ''bob'' ''r1'' \<lparr>lhr_Before = None, lhr_Limit = 20, lhr_Meta = None\<rparr> = Inr resp
     \<and> map hm_MessageID (lh_Messages resp) = [''m4''] \<and> cut_cleanly (pg_Rows page) 1"
proof -
  let ?s = "tight None" and ?q = "\<lparr>lhr_Before = None, lhr_Limit = 20, lhr_Meta = None\<rparr>"
  have acc: "checkAccessAndRoomTimes ?s ''bob'' ''r1'' (lhr_Meta ?q) (hs_now ?s) = Inr (None, 500)"
    by (simp add: checkAccessAndRoomTimes_def getAccessSince_def resolveRoomTimesOrError_def resolveRoomTimes_def fetchCreatedAt_def tight_def demo_history_def)
  have "map_sum (\<lambda>_. ()) (\<lambda>p. map hm_CreatedAt (pg_Rows p)) (history_page ?s None 500 ''r1'' ?q) = Inr [4000, 3000, 3000, 2000, 1000]" by code_simp
  then obtain page where page: "history_page ?s None 500 ''r1'' ?q = Inr page" "map hm_CreatedAt (pg_Rows page) = [4000, 3000, 3000, 2000, 1000]"
    by (cases "history_page ?s None 500 ''r1'' ?q") auto
  have "newest_first (pg_Rows page)"
    using page(2) sorted_wrt_map [of "\<lambda>a b. b \<le> a" hm_CreatedAt "pg_Rows page"] by (simp add: newest_first_def)
  note cut = cut_reply_loses_nothing [OF acc page(1) this]
  have "map_sum (\<lambda>_. ()) (\<lambda>r. map hm_MessageID (lh_Messages r))
      (case history_page ?s None 500 ''r1'' ?q of Inl err \<Rightarrow> Inl err | Inr page \<Rightarrow> history_reply ?s None ''r1'' page) = Inr [''m4'']" by code_simp
  then have "map_sum (\<lambda>_. ()) (\<lambda>r. map hm_MessageID (lh_Messages r)) (LoadHistory ?s ''bob'' ''r1'' ?q) = Inr [''m4'']"
    using acc by (simp add: LoadHistory_def)
  then obtain resp where resp: "LoadHistory ?s ''bob'' ''r1'' ?q = Inr resp" "map hm_MessageID (lh_Messages resp) = [''m4'']"
    by (cases "LoadHistory ?s ''bob'' ''r1'' ?q") auto
  have "length (lh_Messages resp) = 1" using arg_cong [OF resp(2), of length] by simp
  then show ?thesis using cut [OF resp(1)] page(1) resp by auto
qed

text \<open>The limit of a page has no such care. With a limit of two the reply ends inside a millisecond; the client goes on from before its oldest message, and the other message of that
  millisecond is in neither reply, although the first says that there is more.\<close>

theorem limit_skips_tied_message:
  "map_sum (\<lambda>_. ()) (\<lambda>r. (map (\<lambda>m. (hm_MessageID m, hm_CreatedAt m)) (lh_Messages r), lh_HasNext r))
     (LoadHistory (demo_history None) ''bob'' ''r1'' \<lparr>lhr_Before = None, lhr_Limit = 2, lhr_Meta = None\<rparr>) = Inr ([(''m4'', 4000), (''m3'', 3000)], True)
   \<and> map_sum (\<lambda>_. ()) (\<lambda>r. (map hm_MessageID (lh_Messages r), lh_HasNext r))
     (LoadHistory (demo_history None) ''bob'' ''r1'' \<lparr>lhr_Before = Some 3000, lhr_Limit = 20, lhr_Meta = None\<rparr>) = Inr ([''m1'', ''p''], False)
   \<and> map_sum (\<lambda>_. ()) hm_CreatedAt (GetMessageByID (demo_history None) ''bob'' ''r1'' ''m2'') = Inr 3000"
proof (intro conjI)
  show "map_sum (\<lambda>_. ()) hm_CreatedAt (GetMessageByID (demo_history None) ''bob'' ''r1'' ''m2'') = Inr 3000" by code_simp
qed (subst demo_load, simp, code_simp)+

text \<open>A message of the very time from which on history is shared is read by its id but is not in the room's history.\<close>

theorem shared_time_read_by_id_only:
  "map_sum (\<lambda>_. ()) (\<lambda>r. map hm_MessageID (lh_Messages r))
     (LoadHistory (demo_history (Some 4000)) ''bob'' ''r1'' \<lparr>lhr_Before = None, lhr_Limit = 20, lhr_Meta = None\<rparr>) = Inr []
   \<and> map_sum (\<lambda>_. ()) hm_CreatedAt (GetMessageByID (demo_history (Some 4000)) ''bob'' ''r1'' ''m4'') = Inr 4000"
proof (intro conjI)
  show "map_sum (\<lambda>_. ()) hm_CreatedAt (GetMessageByID (demo_history (Some 4000)) ''bob'' ''r1'' ''m4'') = Inr 4000" by code_simp
qed (subst demo_load, simp, code_simp)

text \<open>A thread that lies before the shared time is refused, but a reply in it that came later is read by its id.\<close>

theorem hidden_reply_read_by_id:
  "GetThreadMessages (demo_history (Some 2500)) ''bob'' ''r1'' \<lparr>gtr_ThreadMessageID = ''p'', gtr_Cursor = '''', gtr_Limit = 20\<rparr> = Inl (hs_outside ''thread'')
   \<and> map_sum (\<lambda>_. ()) (\<lambda>m. (hm_ThreadParentID m, hm_TShow m)) (GetMessageByID (demo_history (Some 2500)) ''bob'' ''r1'' ''y'') = Inr (''p'', False)"
proof (intro conjI)
  show "map_sum (\<lambda>_. ()) (\<lambda>m. (hm_ThreadParentID m, hm_TShow m)) (GetMessageByID (demo_history (Some 2500)) ''bob'' ''r1'' ''y'') = Inr (''p'', False)" by code_simp
  show "GetThreadMessages (demo_history (Some 2500)) ''bob'' ''r1'' \<lparr>gtr_ThreadMessageID = ''p'', gtr_Cursor = '''', gtr_Limit = 20\<rparr> = Inl (hs_outside ''thread'')"
    by (simp add: GetThreadMessages_def getAccessSince_def findMessage_def Repository_GetMessageByID_def demo_history_def demo_reply_def demo_parent_def demo_hmsg_def)
qed

end
