(* ===== verification/Spec2Isabelle.thy ===== *)
theory Spec2Isabelle
  imports Nats_Router Inbox_Membership Page_Fit Gatekeeper_Props Bucket_Table Roomlist_Props Mention
    Presence_Props Thread_Count_Props Degrade_Steps Msg_Threads Notify_Props Hist_Pages
begin

text \<open>
  A verification development of a federated chat system written in Go. Every site runs the same services;
  within a site they talk over NATS subjects and JetStream streams, keep documents in MongoDB, messages in
  Cassandra and presence in Valkey, and sites exchange events through an outbox and an inbox stream.

  \<^bold>\<open>How the parts interact.\<close> A client publishes on a per-account subject (\<open>src/pkg/subject\<close>); requests reach a
  service through a router that matches the subject and extracts the account (\<open>src/pkg/natsrouter\<close>). A message
  to send goes to \<open>message-gatekeeper\<close>, which vets it and publishes a canonical event. Workers consume canonical
  events: \<open>roomlist-worker\<close> advances the room pointers, \<open>message-worker\<close> stores the message, keeps its thread (the
  room of the thread, its subscriptions, the reply count of \<open>src/pkg/threadcount\<close>) and marks the history as
  degraded while Cassandra refuses writes, and \<open>notification-worker\<close> decides from the cached member list
  (\<open>src/pkg/roomsubcache\<close>) who gets a push. Changes that other sites must see are published to the outbox
  (\<open>src/pkg/outbox\<close>), relayed by \<open>outbox-worker\<close> and applied at the destination by \<open>inbox-worker\<close>. A client reads
  history page by page from \<open>history-service\<close> and others' presence from \<open>user-presence-service\<close>.

  \<^bold>\<open>Conventions.\<close> One definition per Go function, with the Go name where Isabelle allows it. A function that can
  fail returns a sum (\<open>Inl\<close> the error, with the wrapping text of the code) or a pair of an optional error and the
  state; every early return is a branch. Clocks, random sources, codecs and third-party clients are arguments.
  Where a driver call may fail, its fate is an argument too, so a theorem quantifies over the failures. Where
  the code runs concurrently, an inductive step relation interleaves its atomic calls. Interfaces are locales:
  what a driver or an operation promises is assumed once, the clients' lemmas are proved inside, and an
  interpretation discharges the laws for the definitions of the model.

  \<^bold>\<open>Theories.\<close>
  \<^item> \<open>Chat_Prelude\<close>, \<open>Go_Strings\<close>, \<open>Go_Text\<close>: failures, the contract \<open>convergent_updates\<close>, Go's strings, runes,
    numbers and trimming.
  \<^item> \<open>Subject_Tokens\<close>, \<open>Subjects\<close>, \<open>Subject_Props\<close>, \<open>Nats_Router\<close>: every subject builder and parser of \<open>pkg/subject\<close>,
    the route patterns and the parameter scan of \<open>pkg/natsrouter/params.go\<close>. Requests round trip through
    their route, and no subject is taken by two handlers.
  \<^item> \<open>Err_Code\<close>, \<open>Id_Gen\<close>, \<open>Message_Model\<close>, \<open>Chat_Model\<close>, \<open>Mention\<close>, \<open>Page_Fit\<close>: the error taxonomy and its replies
    (\<open>pkg/errcode\<close>), identifiers (\<open>pkg/idgen\<close>), the data types of \<open>pkg/model\<close>, mention parsing (\<open>pkg/mention\<close>),
    the reply budget (\<open>pkg/pagefit\<close>). Replies are safe to show, ids valid, mentions exactly the tokens of
    the specification, pages the longest that fit.
  \<^item> \<open>Mongo_Model\<close>: filters and updates as data, with the meaning of the operators the code uses.
  \<^item> \<open>Js_Retry\<close>: settling and backoff (\<open>pkg/jsretry\<close>), consumer settings (\<open>pkg/stream/consumer.go\<close>), the
    settlement of \<open>inbox-worker\<close>. Every delivery is settled and the outage window is covered.
  \<^item> \<open>Federation\<close>: \<open>pkg/outbox\<close> and \<open>outbox-worker\<close>: what is published arrives on the lane the destination consumes.
  \<^item> \<open>Inbox_Store\<close>, \<open>Inbox_Handler\<close>, \<open>Inbox_Convergence\<close>, \<open>Inbox_Membership\<close>: \<open>inbox-worker\<close>. Guarded writes
    delivered late, twice or out of order leave the same documents; marks never regress; what each handler
    performs and when an acknowledged event is in effect.
  \<^item> \<open>Gatekeeper\<close>, \<open>Gatekeeper_Props\<close>: \<open>message-gatekeeper\<close>. Only vetted messages are published, every delivery
    is settled, a failing auxiliary dependency never blocks a send.
  \<^item> \<open>Bucket_Walk\<close>, \<open>Bucket_Cursor\<close>, \<open>Bucket_Props\<close>, \<open>Bucket_Read\<close>, \<open>Bucket_Table\<close>: the bucketed history reads of
    \<open>history-service/internal/cassrepo\<close>. Cursors round trip, the fan-out width never shows, following the cursors
    reads the range completely, once and in order.
  \<^item> \<open>Roomlist\<close>, \<open>Roomlist_Docs\<close>, \<open>Roomlist_Worker\<close>, \<open>Roomlist_Props\<close>: \<open>roomlist-worker\<close> as a state machine of
    overlapping flushes. An acknowledged message is recorded; the room pointer ends at the newest message.
  \<^item> \<open>Presence_Store\<close>, \<open>Presence_Scripts\<close>, \<open>Presence_Handler\<close>, \<open>Presence_Worker\<close>, \<open>Presence_Sync\<close>, \<open>Presence_Props\<close>:
    \<open>user-presence-service\<close>: the Lua scripts on the Valkey keys, the store, the handlers, the sweeper, the query
    over several sites and the Teams job. In every interleaving the status read is the precedence rule;
    silent users go offline; subscribers hear what is stored; a query loses only the sites that fail.
  \<^item> \<open>Thread_Count\<close>, \<open>Thread_Count_Props\<close>: the reply count of \<open>pkg/threadcount\<close>: exact when kept one reply at a
    time, never an unproven zero, repaired by a retry.

  \<^item> \<open>Hist_Degrade\<close>, \<open>Degrade_Steps\<close>: the degraded marker (\<open>pkg/histdegrade\<close>, \<open>message-worker/degrade.go\<close>) as a machine of
    interleaved critical sections over any number of pods. Every write and removal of the marker is justified by
    the failures and successes seen; an operation run alone is the run of its sections.
  \<^item> \<open>Msg_Settle\<close>: \<open>message-worker/settle.go\<close> and \<open>droplimit.go\<close>. Only condemned messages are destroyed, and never more
    than the brake grants.
  \<^item> \<open>Cass_Rows\<close>, \<open>Cass_Props\<close>: the Cassandra tables as cells with write times, the statements of
    \<open>store_cassandra.go\<close>, plain and encrypted, and batches that are executed in part. What was stored can be read back;
    a plain create never undoes an edit, an encrypted one can.
  \<^item> \<open>Thread_Store\<close>, \<open>Msg_Handler\<close>, \<open>Msg_Rules\<close>, \<open>Msg_Props\<close>, \<open>Msg_Threads\<close>: the thread store of \<open>store_mongo.go\<close> and the whole handler
    of \<open>message-worker\<close>, with a rule per call that carries an assertion through it. An acknowledged message is
    stored or condemned; an unverified quote is replaced or dropped; a reply subscribes both sides; mentions
    respect the history window.
  \<^item> \<open>Member_Cache\<close>: \<open>pkg/roomsubcache\<close>. A list that is served was given by the source of truth, and is old only
    while the source is down.
  \<^item> \<open>Notify\<close>, \<open>Notify_Props\<close>: \<open>notification-worker\<close>. The batches name exactly the members that deserve a push; what
    could be retried is not acknowledged; redeliveries with the same recipients push each exactly once, and
    with changed recipients may not.
  \<^item> \<open>Hist_Service\<close>, \<open>Hist_Access\<close>, \<open>Hist_Pages\<close>: the reads of \<open>history-service/internal/service\<close> (access window, quotes,
    room times that fail open, trimming a reply to its budget). For any cursors and ids a member is given only
    what its membership shares; a reply that is cut to size loses nothing to the next page; the page limit
    itself may cut a run of messages with one timestamp and skip some of them.

  \<^bold>\<open>Bounds.\<close> Go's int64 quantities that cannot overflow in practice (times in milliseconds, counts) are
  unbounded integers; where the code converts or packs them (cursor bytes, bucket numbers, identifiers) the
  width is written out; the counters of the drop limiter are 64-bit words. Loops that the code bounds by data are structural; the rejection sampler of
  \<open>Id_Gen\<close> and the page loop of \<open>Bucket_Read\<close> carry fuel, and the theorems give the fuel that is enough.

  \<^bold>\<open>Not modelled, and why.\<close> Process set-up, configuration parsing, logging, metrics and tracing decide nothing.
  The servers themselves (NATS, MongoDB, Cassandra, Valkey, Microsoft Graph) are arguments or contracts.
  Services that only proxy HTTP to an external system or to object storage (upload, media, translation, cards,
  portal, client updates) have no state of their own. Cipher and token libraries are not in the sources. The
  load generators under \<open>tools\<close> and the one-off \<open>data-migration\<close> are not part of the running system.

  \<^bold>\<open>Open.\<close> The fan-out of \<open>broadcast-worker\<close>, the room operations of \<open>room-service\<close> and \<open>room-worker\<close>, and the writes,
  pins, reactions and previews of \<open>history-service\<close> carry logic of their own that is not modelled.
\<close>

end
